(* ===== verification/Prelude.thy ===== *)
theory Prelude
  imports Main "HOL-Library.AList" "HOL-Library.Char_ord" "HOL-Library.List_Lexorder"
begin

text \<open>
  Shared material of the development: the theorem collections, ordered dictionaries as
  association lists (Python's \<open>dict\<close> keeps insertion order; an overwritten key keeps its
  place), decimal formatting (\<open>str\<close>, \<open>%d\<close>, \<open>%012d\<close>, \<open>int\<close>), splitting and joining on a
  separator, and the folds that carry an error.
\<close>

named_theorems dict_simps "lookup and update laws of ordered dictionaries"
named_theorems fold_simps "laws of folds that may stop early"

section \<open>Ordered dictionaries\<close>

type_synonym ('k, 'v) dict = "('k \<times> 'v) list"

abbreviation dget :: "('k, 'v) dict \<Rightarrow> 'k \<Rightarrow> 'v option" where
  "dget d k \<equiv> map_of d k"

abbreviation dset :: "'k \<Rightarrow> 'v \<Rightarrow> ('k, 'v) dict \<Rightarrow> ('k, 'v) dict" where
  "dset k v d \<equiv> AList.update k v d"

abbreviation ddel :: "'k \<Rightarrow> ('k, 'v) dict \<Rightarrow> ('k, 'v) dict" where
  "ddel k d \<equiv> AList.delete k d"

abbreviation dkeys :: "('k, 'v) dict \<Rightarrow> 'k list" where
  "dkeys d \<equiv> map fst d"

definition wf_dict :: "('k, 'v) dict \<Rightarrow> bool" where
  "wf_dict d \<longleftrightarrow> distinct (map fst d)"

lemma dget_dset [dict_simps]: "dget (dset k v d) k' = (if k' = k then Some v else dget d k')"
  by (simp add: update_conv)

lemma dget_ddel [dict_simps]: "dget (ddel k d) k' = (if k' = k then None else dget d k')"
  by (simp add: delete_conv)

lemma set_dset_subset: "set (dset k v d) \<subseteq> insert (k, v) (set d)"
  by (induction d) auto

lemma set_ddel_subset: "set (ddel k d) \<subseteq> set d"
  by (auto simp: AList.delete_eq)

lemma wf_dict_Nil [simp]: "wf_dict []"
  by (simp add: wf_dict_def)

lemma wf_dict_dset [simp]: "wf_dict d \<Longrightarrow> wf_dict (dset k v d)"
  by (simp add: wf_dict_def distinct_update)

lemma wf_dict_ddel [simp]: "wf_dict d \<Longrightarrow> wf_dict (ddel k d)"
  by (simp add: wf_dict_def distinct_delete)

lemma wf_dict_dget: "wf_dict d \<Longrightarrow> (k, v) \<in> set d \<Longrightarrow> dget d k = Some v"
  by (simp add: wf_dict_def)

lemma dset_fresh: "dget d k = None \<Longrightarrow> dset k v d = d @ [(k, v)]"
  by (induction d) (auto split: if_splits)

lemma dset_dset [simp]: "dset k v (dset k w d) = dset k v d"
  by (induction d) auto

lemma dget_sort_key: "distinct (map fst d) \<Longrightarrow> dget (sort_key fst d) k = dget d k"
proof -
  assume d: "distinct (map fst d)"
  have "distinct (map fst (sort_key fst d))"
    using d by (simp add: distinct_map inj_on_def)
  then show ?thesis using d by (intro map_of_inject_set [THEN iffD2, THEN fun_cong]) auto
qed

lemma filter_dkeys_dset: "\<not> P k \<Longrightarrow> filter P (dkeys (dset k v d)) = filter P (dkeys d)"
  by (induction d) auto

lemma filter_dkeys_ddel: "\<not> P k \<Longrightarrow> filter P (dkeys (ddel k d)) = filter P (dkeys d)"
  by (induction d) auto

lemma dget_filter:
  "wf_dict d \<Longrightarrow> dget (filter (\<lambda>(k, v). P k v) d) k
     = (case dget d k of None \<Rightarrow> None | Some v \<Rightarrow> if P k v then Some v else None)"
  by (induction d) (auto simp: wf_dict_def map_of_eq_None_iff [symmetric] split: option.splits)

text \<open>A property of every value survives an update with a value that has it, and a deletion.\<close>

definition all_vals :: "('v \<Rightarrow> bool) \<Rightarrow> ('k, 'v) dict \<Rightarrow> bool" where
  "all_vals P d \<longleftrightarrow> (\<forall>v \<in> snd ` set d. P v)"

lemma all_vals_Nil [simp]: "all_vals P []"
  by (simp add: all_vals_def)

lemma all_vals_dset [intro]: "all_vals P d \<Longrightarrow> P v \<Longrightarrow> all_vals P (dset k v d)"
  using set_dset_subset [of k v d] by (fastforce simp: all_vals_def)

lemma all_vals_ddel [intro]: "all_vals P d \<Longrightarrow> all_vals P (ddel k d)"
  using set_ddel_subset [of k d] by (fastforce simp: all_vals_def)

lemma all_vals_dget: "all_vals P d \<Longrightarrow> dget d k = Some v \<Longrightarrow> P v"
  by (force simp: all_vals_def dest: map_of_SomeD)

section \<open>Folds that may stop\<close>

text \<open>A \<open>for\<close> loop whose body may raise: the first error ends it.\<close>

fun foldm :: "('s \<Rightarrow> 'a \<Rightarrow> 'e + 's) \<Rightarrow> 's \<Rightarrow> 'a list \<Rightarrow> 'e + 's" where
  "foldm f s [] = Inr s"
| "foldm f s (x # xs) = (case f s x of Inl e \<Rightarrow> Inl e | Inr s' \<Rightarrow> foldm f s' xs)"

lemma foldm_append [fold_simps]:
  "foldm f s (xs @ ys) = (case foldm f s xs of Inl e \<Rightarrow> Inl e | Inr s' \<Rightarrow> foldm f s' ys)"
  by (induction xs arbitrary: s) (auto split: sum.splits)

lemma foldm_invariant:
  assumes "foldm f s xs = Inr s'" and "P s"
    and "\<And>t x t'. x \<in> set xs \<Longrightarrow> P t \<Longrightarrow> f t x = Inr t' \<Longrightarrow> P t'"
  shows "P s'"
  using assms
proof (induction xs arbitrary: s)
  case Nil
  then show ?case by simp
next
  case (Cons x xs)
  from Cons.prems(1) obtain t where t: "f s x = Inr t" "foldm f t xs = Inr s'"
    by (auto split: sum.splits)
  from Cons.prems(3) [of x s t] Cons.prems(2) t(1) have "P t" by simp
  moreover have "\<And>y u u'. y \<in> set xs \<Longrightarrow> P u \<Longrightarrow> f u y = Inr u' \<Longrightarrow> P u'"
    by (meson Cons.prems(3) list.set_intros(2))
  ultimately show ?case using Cons.IH [OF t(2)] by blast
qed

text \<open>A comprehension whose body may raise.\<close>

fun mapm :: "('a \<Rightarrow> 'e + 'b) \<Rightarrow> 'a list \<Rightarrow> 'e + 'b list" where
  "mapm f [] = Inr []"
| "mapm f (x # xs) =
     (case f x of
        Inl e \<Rightarrow> Inl e
      | Inr y \<Rightarrow> (case mapm f xs of Inl e \<Rightarrow> Inl e | Inr ys \<Rightarrow> Inr (y # ys)))"

lemma mapm_cong [fundef_cong]:
  "xs = ys \<Longrightarrow> (\<And>x. x \<in> set ys \<Longrightarrow> f x = g x) \<Longrightarrow> mapm f xs = mapm g ys"
proof (induction xs arbitrary: ys)
  case (Cons x xs)
  then show ?case by (cases ys) (auto split: sum.splits)
qed simp

lemma mapm_ok: "(\<And>x. x \<in> set xs \<Longrightarrow> f (g x) = Inr x) \<Longrightarrow> mapm f (map g xs) = Inr xs"
  by (induction xs) auto

lemma mapm_all:
  "mapm f xs = Inr ys \<Longrightarrow> (\<And>x y. x \<in> set xs \<Longrightarrow> f x = Inr y \<Longrightarrow> P y) \<Longrightarrow> \<forall>y \<in> set ys. P y"
proof (induction xs arbitrary: ys)
  case (Cons x xs)
  then obtain z zs where z: "f x = Inr z" "mapm f xs = Inr zs" "ys = z # zs"
    by (auto split: sum.splits)
  have "P z" using Cons.prems(2) [of x z] z(1) by simp
  moreover have "\<forall>y \<in> set zs. P y" 
    by (rule Cons.IH [OF z(2)]) (use Cons.prems(2) in auto)
  ultimately show ?case using z(3) by simp
qed simp

abbreviation bind_sum :: "'e + 'a \<Rightarrow> ('a \<Rightarrow> 'e + 'b) \<Rightarrow> 'e + 'b" where
  "bind_sum x k \<equiv> (case x of Inl e \<Rightarrow> Inl e | Inr y \<Rightarrow> k y)"

section \<open>Decimal formatting\<close>

definition digit :: "nat \<Rightarrow> char" where
  "digit n = char_of (48 + n)"

definition digit_val :: "char \<Rightarrow> nat" where
  "digit_val c = of_char c - 48"

fun nat_str :: "nat \<Rightarrow> string" where
  "nat_str n = (if n < 10 then [digit n] else nat_str (n div 10) @ [digit (n mod 10)])"

declare nat_str.simps [simp del]

definition int_str :: "int \<Rightarrow> string" where
  "int_str i = (if i < 0 then CHR ''-'' # nat_str (nat (- i)) else nat_str (nat i))"

definition str_nat :: "string \<Rightarrow> nat" where
  "str_nat s = foldl (\<lambda>a c. 10 * a + digit_val c) 0 s"

definition pad_left :: "nat \<Rightarrow> string \<Rightarrow> string" where
  "pad_left w s = replicate (w - length s) (CHR ''0'') @ s"

definition str012 :: "nat \<Rightarrow> string" where
  "str012 n = pad_left 12 (nat_str n)"

lemma digit_val_digit: "n < 10 \<Longrightarrow> digit_val (digit n) = n"
  by (simp add: digit_val_def digit_def)

lemma str_nat_append_digit: "d < 10 \<Longrightarrow> str_nat (s @ [digit d]) = 10 * str_nat s + d"
  by (simp add: str_nat_def digit_val_digit)

lemma str_nat_nat_str [simp]: "str_nat (nat_str n) = n"
proof (induction n rule: nat_str.induct)
  case (1 n)
  show ?case
  proof (cases "n < 10")
    case True
    then show ?thesis
      by (simp add: nat_str.simps [of n] str_nat_def digit_val_digit)
  next
    case False
    with 1 have "str_nat (nat_str (n div 10)) = n div 10" by simp
    with False show ?thesis
      by (simp add: nat_str.simps [of n] str_nat_append_digit)
  qed
qed

lemma nat_str_inj [simp]: "nat_str m = nat_str n \<longleftrightarrow> m = n"
  by (metis str_nat_nat_str)

lemma nat_str_nonempty [simp]: "nat_str n \<noteq> []"
  by (simp add: nat_str.simps [of n])

lemma digit_range: "n < 10 \<Longrightarrow> digit n \<in> set ''0123456789''"
proof -
  assume "n < 10"
  then have "n = 0 \<or> n = 1 \<or> n = 2 \<or> n = 3 \<or> n = 4 \<or> n = 5 \<or> n = 6 \<or> n = 7 \<or> n = 8 \<or> n = 9"
    by arith
  then show ?thesis by (elim disjE) (simp_all add: digit_def, code_simp+)
qed

lemma set_nat_str: "set (nat_str n) \<subseteq> set ''0123456789''"
proof (induction n rule: nat_str.induct)
  case (1 n)
  then show ?case
    using digit_range [of n] digit_range [of "n mod 10"]
    by (auto simp: nat_str.simps [of n])
qed

lemma nat_str_chars [simp]: "c \<notin> set ''0123456789'' \<Longrightarrow> c \<notin> set (nat_str n)"
  using set_nat_str by blast

section \<open>Separators\<close>

fun split_on :: "char \<Rightarrow> string \<Rightarrow> string list" where
  "split_on c [] = [[]]"
| "split_on c (x # xs) =
     (if x = c then [] # split_on c xs
      else (case split_on c xs of [] \<Rightarrow> [[x]] | w # ws \<Rightarrow> (x # w) # ws))"

fun join_with :: "string \<Rightarrow> string list \<Rightarrow> string" where
  "join_with sep [] = []"
| "join_with sep [w] = w"
| "join_with sep (w # ws) = w @ sep @ join_with sep ws"

lemma split_on_nonempty [simp]: "split_on c s \<noteq> []"
  by (induction s) (auto split: list.splits)

lemma split_on_fresh: "c \<notin> set s \<Longrightarrow> split_on c s = [s]"
  by (induction s) auto

lemma split_on_append: "c \<notin> set u \<Longrightarrow> split_on c (u @ c # v) = u # split_on c v"
  by (induction u) auto

lemma split_on_append_gen: "split_on c (u @ c # v) = split_on c u @ split_on c v"
  by (induction u) (auto split: list.splits)

lemma join_with_Cons: "ws \<noteq> [] \<Longrightarrow> join_with sep (w # ws) = w @ sep @ join_with sep ws"
  by (cases ws) auto

lemma join_with_append:
  "us \<noteq> [] \<Longrightarrow> ws \<noteq> [] \<Longrightarrow> join_with sep (us @ ws) = join_with sep us @ sep @ join_with sep ws"
proof (induction us)
  case (Cons u us)
  then show ?case by (cases "us = []") (simp_all add: join_with_Cons)
qed simp

lemma join_split: "join_with [c] (split_on c s) = s"
proof (induction s)
  case Nil
  then show ?case by simp
next
  case (Cons x xs)
  show ?case
  proof (cases "split_on c xs")
    case (Cons w ws)
    with \<open>join_with [c] (split_on c xs) = xs\<close> show ?thesis by (cases ws) auto
  qed simp
qed

lemma sep_append_inject:
  assumes "c \<notin> set u" and "c \<notin> set u'"
  shows "u @ c # v = u' @ c # v' \<longleftrightarrow> u = u' \<and> v = v'"
  using assms
proof (induction u arbitrary: u')
  case Nil
  then show ?case by (cases u') auto
next
  case (Cons x u)
  then show ?case by (cases u') auto
qed

lemma sep_append_inject_right:
  assumes "c \<notin> set v" and "c \<notin> set v'"
  shows "u @ c # v = u' @ c # v' \<longleftrightarrow> u = u' \<and> v = v'"
proof -
  have "u @ c # v = u' @ c # v' \<longleftrightarrow> rev v @ c # rev u = rev v' @ c # rev u'"
    by (metis append.assoc append_Cons append_Nil rev.simps(2) rev_append rev_swap)
  also have "\<dots> \<longleftrightarrow> rev v = rev v' \<and> rev u = rev u'"
    using assms by (intro sep_append_inject) auto
  finally show ?thesis by auto
qed

end
