(* ===== verification/PyVal.thy ===== *)
theory PyVal
  imports Prelude
begin

text \<open>
  The dynamically typed values the program passes around as plain \<open>dict\<close>s: envelopes,
  payloads, log records, configuration snapshots. Numbers are Python's unbounded integers;
  floats are not modelled. A \<open>dict\<close> has string keys and keeps insertion order. Strings
  are ASCII. \<open>json_dumps\<close> is \<open>json.dumps(obj, sort_keys=True, separators=(",", ":"))\<close>,
  \<open>py_repr\<close> and \<open>py_str\<close> are the built-ins of those names.
\<close>

datatype pyval =
    PyNone
  | PyBool bool
  | PyInt int
  | PyStr string
  | PyList "pyval list"
  | PyDict "(string \<times> pyval) list"

type_synonym payload = "(string \<times> pyval) list"

section \<open>Type tests and truth\<close>

fun is_str :: "pyval \<Rightarrow> bool" where
  "is_str (PyStr _) = True"
| "is_str _ = False"

fun is_dict :: "pyval \<Rightarrow> bool" where
  "is_dict (PyDict _) = True"
| "is_dict _ = False"

fun is_list :: "pyval \<Rightarrow> bool" where
  "is_list (PyList _) = True"
| "is_list _ = False"

text \<open>\<open>isinstance(v, int)\<close> also holds of a \<open>bool\<close>.\<close>

fun is_int :: "pyval \<Rightarrow> bool" where
  "is_int (PyInt _) = True"
| "is_int (PyBool _) = True"
| "is_int _ = False"

fun truthy :: "pyval \<Rightarrow> bool" where
  "truthy PyNone = False"
| "truthy (PyBool b) = b"
| "truthy (PyInt i) = (i \<noteq> 0)"
| "truthy (PyStr s) = (s \<noteq> [])"
| "truthy (PyList xs) = (xs \<noteq> [])"
| "truthy (PyDict d) = (d \<noteq> [])"

text \<open>\<open>d.get(k, default)\<close> and membership, for a value known to be a \<open>dict\<close>.\<close>

fun fields_of :: "pyval \<Rightarrow> payload" where
  "fields_of (PyDict d) = d"
| "fields_of _ = []"

definition py_get :: "pyval \<Rightarrow> string \<Rightarrow> pyval \<Rightarrow> pyval" where
  "py_get v k def = (case dget (fields_of v) k of None \<Rightarrow> def | Some x \<Rightarrow> x)"

definition py_has :: "pyval \<Rightarrow> string \<Rightarrow> bool" where
  "py_has v k \<longleftrightarrow> dget (fields_of v) k \<noteq> None"

text \<open>
  The key a hashable value is stored under (\<open>True\<close> and \<open>1\<close> are one key); \<open>None\<close> for the
  unhashable ones, on which a dictionary lookup raises \<open>TypeError\<close>.
\<close>

fun hash_key :: "pyval \<Rightarrow> pyval option" where
  "hash_key (PyBool b) = Some (PyInt (of_bool b))"
| "hash_key (PyList _) = None"
| "hash_key (PyDict _) = None"
| "hash_key v = Some v"

definition hkey :: "pyval \<Rightarrow> pyval" where
  "hkey v = (case hash_key v of None \<Rightarrow> v | Some k \<Rightarrow> k)"

definition hashable :: "pyval \<Rightarrow> bool" where
  "hashable v \<longleftrightarrow> hash_key v \<noteq> None"

fun as_int :: "pyval \<Rightarrow> int option" where
  "as_int (PyInt i) = Some i"
| "as_int (PyBool b) = Some (of_bool b)"
| "as_int _ = None"

fun as_str :: "pyval \<Rightarrow> string option" where
  "as_str (PyStr s) = Some s"
| "as_str _ = None"

fun as_list :: "pyval \<Rightarrow> pyval list option" where
  "as_list (PyList xs) = Some xs"
| "as_list _ = None"

fun opt_all :: "'a option list \<Rightarrow> 'a list option" where
  "opt_all [] = Some []"
| "opt_all (None # xs) = None"
| "opt_all (Some x # xs) = map_option (Cons x) (opt_all xs)"

fun as_strs :: "pyval \<Rightarrow> string list option" where
  "as_strs (PyList xs) = opt_all (map as_str xs)"
| "as_strs _ = None"

text \<open>
  \<open>==\<close> of two values: \<open>True == 1\<close>, and the order of a \<open>dict\<close> does not count.
\<close>

fun py_eq :: "pyval \<Rightarrow> pyval \<Rightarrow> bool" where
  "py_eq PyNone w = (w = PyNone)"
| "py_eq (PyBool b) w = (as_int w = Some (of_bool b))"
| "py_eq (PyInt i) w = (as_int w = Some i)"
| "py_eq (PyStr s) w = (w = PyStr s)"
| "py_eq (PyList xs) w = (case w of PyList ys \<Rightarrow> list_all2 py_eq xs ys | _ \<Rightarrow> False)"
| "py_eq (PyDict d) w =
     (case w of
        PyDict e \<Rightarrow> length d = length e
          \<and> list_all (\<lambda>(k, v). case dget e k of None \<Rightarrow> False | Some x \<Rightarrow> py_eq v x) d
      | _ \<Rightarrow> False)"

lemma as_int_PyStr [simp]: "as_int w = Some i \<Longrightarrow> w \<noteq> PyStr s"
  by auto

lemma py_get_PyDict [simp]:
  "py_get (PyDict d) k v = (case dget d k of None \<Rightarrow> v | Some x \<Rightarrow> x)"
  by (simp add: py_get_def)

lemma py_has_PyDict [simp]: "py_has (PyDict d) k \<longleftrightarrow> dget d k \<noteq> None"
  by (simp add: py_has_def)

section \<open>Printing\<close>

definition hex_digit :: "nat \<Rightarrow> char" where
  "hex_digit n = (if n < 10 then digit n else char_of (87 + n))"

definition hex2 :: "char \<Rightarrow> string" where
  "hex2 c = [hex_digit (of_char c div 16), hex_digit (of_char c mod 16)]"

definition printable :: "char \<Rightarrow> bool" where
  "printable c \<longleftrightarrow> 32 \<le> (of_char c :: nat) \<and> (of_char c :: nat) \<le> 126"

definition json_char :: "char \<Rightarrow> string" where
  "json_char c =
     (if c = CHR 0x22 then [CHR 0x5C, CHR 0x22]
      else if c = CHR 0x5C then [CHR 0x5C, CHR 0x5C]
      else if c = CHR 0x0A then [CHR 0x5C, CHR ''n'']
      else if c = CHR 0x0D then [CHR 0x5C, CHR ''r'']
      else if c = CHR 0x09 then [CHR 0x5C, CHR ''t'']
      else if c = CHR 0x08 then [CHR 0x5C, CHR ''b'']
      else if c = CHR 0x0C then [CHR 0x5C, CHR ''f'']
      else if printable c then [c]
      else CHR 0x5C # ''u00'' @ hex2 c)"

definition json_str :: "string \<Rightarrow> string" where
  "json_str s = CHR 0x22 # concat (map json_char s) @ [CHR 0x22]"

fun json_dumps :: "pyval \<Rightarrow> string" where
  "json_dumps PyNone = ''null''"
| "json_dumps (PyBool b) = (if b then ''true'' else ''false'')"
| "json_dumps (PyInt i) = int_str i"
| "json_dumps (PyStr s) = json_str s"
| "json_dumps (PyList xs) = ''['' @ join_with '','' (map json_dumps xs) @ '']''"
| "json_dumps (PyDict d) =
     ''{'' @ join_with '',''
       (map (\<lambda>(k, s). json_str k @ '':'' @ s)
         (sort_key fst (map (\<lambda>(k, v). (k, json_dumps v)) d))) @ ''}''"

text \<open>\<open>repr\<close> of a string prefers single quotes and falls back to double quotes.\<close>

definition repr_char :: "char \<Rightarrow> char \<Rightarrow> string" where
  "repr_char q c =
     (if c = q \<or> c = CHR 0x5C then [CHR 0x5C, c]
      else if c = CHR 0x0A then [CHR 0x5C, CHR ''n'']
      else if c = CHR 0x0D then [CHR 0x5C, CHR ''r'']
      else if c = CHR 0x09 then [CHR 0x5C, CHR ''t'']
      else if printable c then [c]
      else CHR 0x5C # ''x'' @ hex2 c)"

definition repr_str :: "string \<Rightarrow> string" where
  "repr_str s =
     (let q = (if CHR 0x27 \<in> set s \<and> CHR 0x22 \<notin> set s then CHR 0x22 else CHR 0x27)
      in q # concat (map (repr_char q) s) @ [q])"

fun py_repr :: "pyval \<Rightarrow> string" where
  "py_repr PyNone = ''None''"
| "py_repr (PyBool b) = (if b then ''True'' else ''False'')"
| "py_repr (PyInt i) = int_str i"
| "py_repr (PyStr s) = repr_str s"
| "py_repr (PyList xs) = ''['' @ join_with '', '' (map py_repr xs) @ '']''"
| "py_repr (PyDict d) =
     ''{'' @ join_with '', '' (map (\<lambda>(k, v). repr_str k @ '': '' @ py_repr v) d) @ ''}''"

fun py_str :: "pyval \<Rightarrow> string" where
  "py_str (PyStr s) = s"
| "py_str v = py_repr v"

end
