(* ===== verification/KernelConfig.thy ===== *)
theory KernelConfig
  imports PyVal
begin

text \<open>
  The kernel's inputs as data: the event envelope (\<open>kernel/envelope.py\<close>), the
  configuration snapshot with its validator (\<open>kernel/config_view.py\<close>) and the shipped
  snapshot (\<open>kernel/default_config.py\<close>).

  A snapshot arrives as a plain value. \<open>validate_config\<close> is the source's structural check
  on it; \<open>decode_config\<close> reads the validated value under the schema that
  \<open>default_config.py\<close> documents (strings where it says names, rows with the listed keys).
  A snapshot that passes the check but not the documented schema is installed by the source
  and raises when the ill-typed part is read; the model refuses it at installation with
  \<open>OffSchema\<close>.
\<close>

section \<open>Envelopes\<close>

definition required_fields :: "string list" where
  "required_fields = [''event_id'', ''event_name'', ''request_id'', ''timestamp'', ''payload'']"

definition validate_envelope :: "pyval \<Rightarrow> string list \<Rightarrow> bool \<times> string" where
  "validate_envelope env allowed =
     (if \<not> is_dict env then (False, ''envelope.not_mapping'')
      else case find (\<lambda>f. \<not> py_has env f) required_fields of
        Some f \<Rightarrow> (False, ''envelope.missing_field:'' @ f)
      | None \<Rightarrow>
        (if \<not> is_str (py_get env ''event_id'' PyNone) \<or> \<not> truthy (py_get env ''event_id'' PyNone)
         then (False, ''envelope.bad_event_id'')
         else if py_get env ''event_name'' PyNone \<notin> PyStr ` set allowed
         then (False, ''envelope.unknown_event_name'')
         else if \<not> is_dict (py_get env ''payload'' PyNone)
         then (False, ''envelope.bad_payload'')
         else (True, [])))"

definition make_env :: "pyval \<Rightarrow> string \<Rightarrow> pyval \<Rightarrow> pyval \<Rightarrow> pyval \<Rightarrow> payload \<Rightarrow> pyval" where
  "make_env event_id event_name request_id timestamp config_version pay =
     PyDict [(''event_id'', event_id), (''event_name'', PyStr event_name),
             (''request_id'', request_id), (''timestamp'', timestamp),
             (''config_version'', config_version), (''payload'', PyDict pay)]"

lemma validate_envelope_ok:
  assumes "validate_envelope env allowed = (True, r)"
  obtains d eid name pay where "env = PyDict d"
    and "dget d ''event_id'' = Some (PyStr eid)" and "eid \<noteq> []"
    and "dget d ''event_name'' = Some (PyStr name)" and "name \<in> set allowed"
    and "dget d ''payload'' = Some (PyDict pay)"
    and "dget d ''request_id'' \<noteq> None"
proof -
  obtain d where env: "env = PyDict d"
    using assms by (cases env) (auto simp: validate_envelope_def)
  have fields: "\<forall>f \<in> set required_fields. dget d f \<noteq> None"
    using assms
    by (auto simp: validate_envelope_def env find_None_iff split: option.splits if_splits)
  then obtain e n p where vals: "dget d ''event_id'' = Some e" "dget d ''event_name'' = Some n"
      "dget d ''payload'' = Some p" "dget d ''request_id'' \<noteq> None"
    by (auto simp: required_fields_def)
  have "is_str e \<and> truthy e \<and> n \<in> PyStr ` set allowed \<and> is_dict p"
    using assms
    by (auto simp: validate_envelope_def env vals split: option.splits if_splits)
  then show thesis
    using that env vals by (cases e; cases p) auto
qed

section \<open>Configuration snapshots\<close>

datatype py_type = TInt | TList | TDict

fun has_type :: "pyval \<Rightarrow> py_type \<Rightarrow> bool" where
  "has_type v TInt = is_int v"
| "has_type v TList = is_list v"
| "has_type v TDict = is_dict v"

definition required_keys :: "(string \<times> py_type) list" where
  "required_keys =
     [(''version'', TInt), (''inbound_events'', TList), (''envelope_schemas'', TDict),
      (''routing_table'', TDict), (''gates'', TDict), (''transitions'', TDict),
      (''fault_policy'', TDict)]"

fun bad_row :: "pyval \<Rightarrow> bool" where
  "bad_row (PyDict d) = (dget d ''next'' = None \<or> dget d ''emit'' = None)"
| "bad_row _ = True"

fun transitions_reason :: "(string \<times> pyval) list \<Rightarrow> string option" where
  "transitions_reason [] = None"
| "transitions_reason ((key, rows) # rest) =
     (case rows of
        PyList rs \<Rightarrow>
          (if rs = [] then Some (''config.bad_transition:'' @ key)
           else if list_ex bad_row rs then Some (''config.bad_transition_row:'' @ key)
           else transitions_reason rest)
      | _ \<Rightarrow> Some (''config.bad_transition:'' @ key))"

definition bad_policy_key :: "pyval \<Rightarrow> string \<Rightarrow> bool" where
  "bad_policy_key policy key =
     (case as_int (py_get policy key PyNone) of None \<Rightarrow> True | Some n \<Rightarrow> n < 0)"

fun key_reason :: "pyval \<Rightarrow> (string \<times> py_type) list \<Rightarrow> string option" where
  "key_reason data [] = None"
| "key_reason data ((key, ty) # rest) =
     (if \<not> py_has data key then Some (''config.missing:'' @ key)
      else if \<not> has_type (py_get data key PyNone) ty then Some (''config.bad_type:'' @ key)
      else key_reason data rest)"

definition validate_config :: "pyval \<Rightarrow> bool \<times> string" where
  "validate_config data =
     (if \<not> is_dict data then (False, ''config.not_mapping'')
      else case key_reason data required_keys of
        Some r \<Rightarrow> (False, r)
      | None \<Rightarrow>
        (case find (bad_policy_key (py_get data ''fault_policy'' PyNone))
                [''max_replans'', ''max_active_requests''] of
           Some key \<Rightarrow> (False, ''config.bad_fault_policy:'' @ key)
         | None \<Rightarrow>
           (case transitions_reason (fields_of (py_get data ''transitions'' PyNone)) of
              Some r \<Rightarrow> (False, r)
            | None \<Rightarrow> (True, []))))"

text \<open>One row of the transition table, with the keys \<open>default_config.py\<close> documents.\<close>

record row =
  row_when :: "string option"
  row_next :: string
  row_emit :: "string list"
  row_gate :: pyval
  row_decision :: "string option"
  row_actions :: "string list"
  row_chain :: "string option"

text \<open>The read-only view (\<open>ConfigView\<close>): one field per property of the class.\<close>

record config =
  cfg_version :: int
  cfg_inbound_events :: "string list"
  cfg_envelope_schemas :: "(string \<times> string list) list"
  cfg_routing_table :: "(string \<times> pyval) list"
  cfg_gates :: "(string \<times> pyval) list"
  cfg_transitions :: "(string \<times> row list) list"
  cfg_max_replans :: int
  cfg_max_active :: int

definition cfg_rows :: "config \<Rightarrow> string \<Rightarrow> string \<Rightarrow> row list option" where
  "cfg_rows cfg state event = dget (cfg_transitions cfg) (state @ ''|'' @ event)"

text \<open>An absent optional key reads as \<open>None\<close>; so does a present \<open>None\<close>.\<close>

definition opt_str :: "pyval \<Rightarrow> string \<Rightarrow> string option option" where
  "opt_str d k =
     (case py_get d k PyNone of PyNone \<Rightarrow> Some None | PyStr s \<Rightarrow> Some (Some s) | _ \<Rightarrow> None)"

text \<open>The one key read with a default of its own: \<open>row.get("gate", "")\<close>, so a present \<open>None\<close> stays.\<close>

definition gate_name :: "pyval \<Rightarrow> pyval option" where
  "gate_name d =
     (case py_get d ''gate'' (PyStr []) of
        PyNone \<Rightarrow> Some PyNone | PyStr s \<Rightarrow> Some (PyStr s) | _ \<Rightarrow> None)"

definition decode_row :: "pyval \<Rightarrow> row option" where
  "decode_row d =
     (case (opt_str d ''when'', as_str (py_get d ''next'' PyNone),
            as_strs (py_get d ''emit'' PyNone), gate_name d, opt_str d ''decision'',
            as_strs (py_get d ''actions'' (PyList [])), opt_str d ''chain'') of
        (Some w, Some n, Some e, Some g, Some dec, Some a, Some ch) \<Rightarrow>
          Some \<lparr>row_when = w, row_next = n, row_emit = e, row_gate = g, row_decision = dec,
                row_actions = a, row_chain = ch\<rparr>
      | _ \<Rightarrow> None)"

definition decode_vals :: "(pyval \<Rightarrow> 'a option) \<Rightarrow> pyval \<Rightarrow> (string \<times> 'a) list option" where
  "decode_vals f v = opt_all (map (\<lambda>(k, x). map_option (Pair k) (f x)) (fields_of v))"

definition decode_rows :: "pyval \<Rightarrow> row list option" where
  "decode_rows v = Option.bind (as_list v) (\<lambda>xs. opt_all (map decode_row xs))"

definition decode_config :: "pyval \<Rightarrow> config option" where
  "decode_config data =
     (case (py_get data ''version'' PyNone, as_strs (py_get data ''inbound_events'' PyNone),
            decode_vals as_strs (py_get data ''envelope_schemas'' PyNone),
            decode_vals (\<lambda>g. if is_dict g then Some g else None) (py_get data ''gates'' PyNone),
            decode_vals decode_rows (py_get data ''transitions'' PyNone),
            as_int (py_get (py_get data ''fault_policy'' PyNone) ''max_replans'' PyNone),
            as_int (py_get (py_get data ''fault_policy'' PyNone) ''max_active_requests'' PyNone)) of
        (PyInt v, Some ie, Some es, Some g, Some tr, Some mr, Some ma) \<Rightarrow>
          Some \<lparr>cfg_version = v, cfg_inbound_events = ie, cfg_envelope_schemas = es,
                cfg_routing_table = fields_of (py_get data ''routing_table'' PyNone),
                cfg_gates = g, cfg_transitions = tr, cfg_max_replans = mr, cfg_max_active = ma\<rparr>
      | _ \<Rightarrow> None)"

text \<open>Exceptions that leave the kernel uncaught.\<close>

datatype kernel_exn =
    ValueError string
  | TypeError
  | AttributeError
  | OffSchema

definition config_view :: "pyval \<Rightarrow> kernel_exn + config" where
  "config_view data =
     (case validate_config data of
        (False, reason) \<Rightarrow> Inl (ValueError reason)
      | (True, _) \<Rightarrow>
          (case decode_config data of None \<Rightarrow> Inl OffSchema | Some cfg \<Rightarrow> Inr cfg))"

section \<open>The shipped snapshot\<close>

definition strs :: "string list \<Rightarrow> pyval" where
  "strs xs = PyList (map PyStr xs)"

definition cancel_row :: pyval where
  "cancel_row = PyList [PyDict
     [(''when'', PyNone), (''next'', PyStr ''cancelled''),
      (''emit'', strs [''request.cancelled'', ''gate.enforced'']),
      (''gate'', PyStr ''cancellation''), (''actions'', strs [''set_cancel_flag''])]]"

definition terminal_cancel_row :: "string \<Rightarrow> pyval" where
  "terminal_cancel_row st = PyList [PyDict
     [(''when'', PyNone), (''next'', PyStr st), (''emit'', strs [])]]"

definition transitions_data :: payload where
  "transitions_data =
   [(''created|request.received'', PyList
      [PyDict [(''when'', PyStr ''admission_ok''), (''next'', PyStr ''initialized''),
         (''emit'', strs [''request.admitted'', ''gate.enforced'']), (''gate'', PyStr ''admission''),
         (''chain'', PyStr ''__routing__'')],
       PyDict [(''when'', PyNone), (''next'', PyStr ''failed''),
         (''emit'', strs [''request.rejected'', ''gate.enforced'']), (''gate'', PyStr ''admission''),
         (''decision'', PyStr ''block'')]]),
    (''initialized|__routing__'', PyList
      [PyDict [(''when'', PyStr ''routing_ok''), (''next'', PyStr ''scheduled''),
         (''emit'', strs [''routing.directive'']), (''gate'', PyStr ''routing''),
         (''actions'', strs [''set_routing_target''])],
       PyDict [(''when'', PyNone), (''next'', PyStr ''failed''),
         (''emit'', strs [''request.rejected'', ''gate.enforced'']), (''gate'', PyStr ''routing''),
         (''decision'', PyStr ''block'')]]),
    (''scheduled|plan.created'', PyList
      [PyDict [(''when'', PyNone), (''next'', PyStr ''executing''), (''emit'', strs [])]]),
    (''scheduled|plan.rejected'', PyList
      [PyDict [(''when'', PyNone), (''next'', PyStr ''scheduled''), (''emit'', strs [])]]),
    (''executing|verify.passed'', PyList
      [PyDict [(''when'', PyNone), (''next'', PyStr ''executing''), (''emit'', strs []),
         (''actions'', strs [''record_verdict''])]]),
    (''executing|verify.failed'', PyList
      [PyDict [(''when'', PyNone), (''next'', PyStr ''executing''), (''emit'', strs []),
         (''actions'', strs [''record_verdict''])]]),
    (''executing|task.completed'', PyList
      [PyDict [(''when'', PyStr ''gate:completion''), (''next'', PyStr ''completed''),
         (''emit'', strs [''request.completed'', ''gate.enforced'']), (''gate'', PyStr ''completion'')],
       PyDict [(''when'', PyNone), (''next'', PyStr ''verifying''),
         (''emit'', strs [''gate.enforced'']), (''gate'', PyStr ''completion''),
         (''decision'', PyStr ''block'')]]),
    (''executing|task.failed'', PyList
      [PyDict [(''when'', PyStr ''replans_remaining''), (''next'', PyStr ''scheduled''),
         (''emit'', strs []), (''actions'', strs [''increment_replan''])],
       PyDict [(''when'', PyNone), (''next'', PyStr ''failed''), (''emit'', strs [''request.failed'']),
         (''decision'', PyStr ''block'')]]),
    (''verifying|verify.passed'', PyList
      [PyDict [(''when'', PyNone), (''next'', PyStr ''completed''),
         (''emit'', strs [''request.completed'', ''gate.enforced'']), (''gate'', PyStr ''completion''),
         (''actions'', strs [''record_verdict''])]]),
    (''verifying|verify.failed'', PyList
      [PyDict [(''when'', PyNone), (''next'', PyStr ''scheduled''),
         (''emit'', strs [''gate.enforced'']), (''gate'', PyStr ''completion''),
         (''decision'', PyStr ''block''), (''actions'', strs [''record_verdict''])]])]
   @ map (\<lambda>st. (st @ ''|request.cancelled'', cancel_row))
       [''created'', ''initialized'', ''scheduled'', ''executing'', ''verifying'']
   @ map (\<lambda>st. (st @ ''|request.cancelled'', terminal_cancel_row st))
       [''completed'', ''failed'', ''cancelled'']"

definition default_data :: payload where
  "default_data =
   [(''version'', PyInt 1),
    (''inbound_events'', strs
      [''request.received'', ''request.cancelled'', ''plan.created'', ''plan.rejected'',
       ''task.completed'', ''task.failed'', ''verify.passed'', ''verify.failed'',
       ''config.changed'', ''session.wake'', ''session.sleep'']),
    (''envelope_schemas'', PyDict
      [(''request.received'', strs [''declared_type'']), (''config.changed'', strs [''snapshot''])]),
    (''routing_table'', PyDict
      [(''type.alpha'', PyStr ''planning''), (''type.beta'', PyStr ''scheduling'')]),
    (''gates'', PyDict
      [(''completion'', PyDict [(''check'', PyStr ''verdict_true''), (''verdict'', PyStr ''verification'')])]),
    (''transitions'', PyDict transitions_data),
    (''fault_policy'', PyDict [(''max_replans'', PyInt 2), (''max_active_requests'', PyInt 1000)])]"

text \<open>\<open>snapshot(**overrides)\<close>: the overrides replace top-level keys.\<close>

definition snapshot :: "payload \<Rightarrow> pyval" where
  "snapshot overrides = PyDict (foldl (\<lambda>d (k, v). dset k v d) default_data overrides)"

definition plain_row :: "string \<Rightarrow> row" where
  "plain_row n = \<lparr>row_when = None, row_next = n, row_emit = [], row_gate = PyStr [],
     row_decision = None, row_actions = [], row_chain = None\<rparr>"

definition default_rows :: "(string \<times> row list) list" where
  "default_rows =
   [(''created|request.received'',
      [(plain_row ''initialized'')\<lparr>row_when := Some ''admission_ok'',
         row_emit := [''request.admitted'', ''gate.enforced''], row_gate := PyStr ''admission'',
         row_chain := Some ''__routing__''\<rparr>,
       (plain_row ''failed'')\<lparr>row_emit := [''request.rejected'', ''gate.enforced''],
         row_gate := PyStr ''admission'', row_decision := Some ''block''\<rparr>]),
    (''initialized|__routing__'',
      [(plain_row ''scheduled'')\<lparr>row_when := Some ''routing_ok'', row_emit := [''routing.directive''],
         row_gate := PyStr ''routing'', row_actions := [''set_routing_target'']\<rparr>,
       (plain_row ''failed'')\<lparr>row_emit := [''request.rejected'', ''gate.enforced''],
         row_gate := PyStr ''routing'', row_decision := Some ''block''\<rparr>]),
    (''scheduled|plan.created'', [plain_row ''executing'']),
    (''scheduled|plan.rejected'', [plain_row ''scheduled'']),
    (''executing|verify.passed'', [(plain_row ''executing'')\<lparr>row_actions := [''record_verdict'']\<rparr>]),
    (''executing|verify.failed'', [(plain_row ''executing'')\<lparr>row_actions := [''record_verdict'']\<rparr>]),
    (''executing|task.completed'',
      [(plain_row ''completed'')\<lparr>row_when := Some ''gate:completion'',
         row_emit := [''request.completed'', ''gate.enforced''], row_gate := PyStr ''completion''\<rparr>,
       (plain_row ''verifying'')\<lparr>row_emit := [''gate.enforced''], row_gate := PyStr ''completion'',
         row_decision := Some ''block''\<rparr>]),
    (''executing|task.failed'',
      [(plain_row ''scheduled'')\<lparr>row_when := Some ''replans_remaining'',
         row_actions := [''increment_replan'']\<rparr>,
       (plain_row ''failed'')\<lparr>row_emit := [''request.failed''], row_decision := Some ''block''\<rparr>]),
    (''verifying|verify.passed'',
      [(plain_row ''completed'')\<lparr>row_emit := [''request.completed'', ''gate.enforced''],
         row_gate := PyStr ''completion'', row_actions := [''record_verdict'']\<rparr>]),
    (''verifying|verify.failed'',
      [(plain_row ''scheduled'')\<lparr>row_emit := [''gate.enforced''], row_gate := PyStr ''completion'',
         row_decision := Some ''block'', row_actions := [''record_verdict'']\<rparr>])]
   @ map (\<lambda>st. (st @ ''|request.cancelled'',
        [(plain_row ''cancelled'')\<lparr>row_emit := [''request.cancelled'', ''gate.enforced''],
           row_gate := PyStr ''cancellation'', row_actions := [''set_cancel_flag'']\<rparr>]))
       [''created'', ''initialized'', ''scheduled'', ''executing'', ''verifying'']
   @ map (\<lambda>st. (st @ ''|request.cancelled'', [plain_row st])) [''completed'', ''failed'', ''cancelled'']"

definition default_config :: config where
  "default_config =
   \<lparr>cfg_version = 1,
    cfg_inbound_events =
      [''request.received'', ''request.cancelled'', ''plan.created'', ''plan.rejected'',
       ''task.completed'', ''task.failed'', ''verify.passed'', ''verify.failed'',
       ''config.changed'', ''session.wake'', ''session.sleep''],
    cfg_envelope_schemas =
      [(''request.received'', [''declared_type'']), (''config.changed'', [''snapshot''])],
    cfg_routing_table = [(''type.alpha'', PyStr ''planning''), (''type.beta'', PyStr ''scheduling'')],
    cfg_gates =
      [(''completion'', PyDict [(''check'', PyStr ''verdict_true''), (''verdict'', PyStr ''verification'')])],
    cfg_transitions = default_rows, cfg_max_replans = 2, cfg_max_active = 1000\<rparr>"

lemma config_view_default: "config_view (snapshot []) = Inr default_config"
  by code_simp

end
