(* ===== verification/KernelLedger.thy ===== *)
theory KernelLedger
  imports KernelConfig
begin

text \<open>
  The Request Ledger (\<open>kernel/ledger.py\<close>) and the three pure decision functions over it:
  gate evaluation (\<open>kernel/gates.py\<close>), static routing (\<open>kernel/router.py\<close>) and admission
  (\<open>kernel/admission.py\<close>). The ledger is an insertion-ordered dictionary; its keys are the
  hash keys of request ids.
\<close>

section \<open>Entries\<close>

record req_state =
  rs_request_id :: pyval
  rs_declared_type :: pyval
  rs_lifecycle_state :: string
  rs_config_version :: int
  rs_recorded_verdicts :: "(string, bool) dict"
  rs_routing_target :: pyval
  rs_cancellation_flag :: bool
  rs_transition_sequence :: nat
  rs_last_applied_event_id :: pyval
  rs_replan_count :: int

definition new_state :: "pyval \<Rightarrow> pyval \<Rightarrow> int \<Rightarrow> req_state" where
  "new_state rid dtype version =
     \<lparr>rs_request_id = rid, rs_declared_type = dtype, rs_lifecycle_state = ''created'',
      rs_config_version = version, rs_recorded_verdicts = [], rs_routing_target = PyNone,
      rs_cancellation_flag = False, rs_transition_sequence = 0,
      rs_last_applied_event_id = PyNone, rs_replan_count = 0\<rparr>"

lemma new_state_fields [simp]:
  "rs_request_id (new_state rid d v) = rid"
  "rs_declared_type (new_state rid d v) = d"
  "rs_lifecycle_state (new_state rid d v) = ''created''"
  "rs_config_version (new_state rid d v) = v"
  "rs_recorded_verdicts (new_state rid d v) = []"
  "rs_transition_sequence (new_state rid d v) = 0"
  "rs_replan_count (new_state rid d v) = 0"
  by (simp_all add: new_state_def)

definition non_terminal_states :: "string list" where
  "non_terminal_states = [''created'', ''initialized'', ''scheduled'', ''executing'', ''verifying'']"

definition terminal_states :: "string list" where
  "terminal_states = [''completed'', ''failed'', ''cancelled'']"

definition is_terminal :: "req_state \<Rightarrow> bool" where
  "is_terminal e \<longleftrightarrow> rs_lifecycle_state e \<in> set terminal_states"

definition is_active :: "req_state \<Rightarrow> bool" where
  "is_active e \<longleftrightarrow> rs_lifecycle_state e \<in> set non_terminal_states"

lemma terminal_not_active: "is_terminal e \<Longrightarrow> \<not> is_active e"
  by (auto simp: is_terminal_def is_active_def terminal_states_def non_terminal_states_def)

section \<open>The ledger\<close>

type_synonym ledger = "(pyval, req_state) dict"

definition ledger_get :: "ledger \<Rightarrow> pyval \<Rightarrow> req_state option" where
  "ledger_get l k = dget l k"

definition active_count :: "ledger \<Rightarrow> nat" where
  "active_count l = length (filter (\<lambda>(k, e). is_active e) l)"

definition request_ids :: "ledger \<Rightarrow> pyval list" where
  "request_ids l = map fst l"

definition ledger_create :: "ledger \<Rightarrow> pyval \<Rightarrow> req_state \<Rightarrow> kernel_exn + ledger" where
  "ledger_create l k e =
     (if dget l k \<noteq> None then Inl (ValueError ''ledger.duplicate_entry'')
      else Inr (dset k e l))"

definition ledger_evict :: "ledger \<Rightarrow> pyval \<Rightarrow> ledger" where
  "ledger_evict l k = ddel k l"

text \<open>Entries are mutable objects: the coordinator's assignments to one replace it in place.\<close>

definition ledger_put :: "ledger \<Rightarrow> pyval \<Rightarrow> req_state \<Rightarrow> ledger" where
  "ledger_put l k e = dset k e l"

lemma active_count_append [simp]: "active_count (l @ m) = active_count l + active_count m"
  by (simp add: active_count_def)

lemma active_count_Cons [simp]:
  "active_count ((k, e) # l) = (if is_active e then Suc (active_count l) else active_count l)"
  by (simp add: active_count_def)

lemma active_count_Nil [simp]: "active_count [] = 0"
  by (simp add: active_count_def)

lemma active_count_put:
  assumes "dget l k = Some e"
  shows "active_count (ledger_put l k e') + (if is_active e then 1 else 0)
       = active_count l + (if is_active e' then 1 else 0)"
  using assms by (induction l) (auto simp: ledger_put_def split: if_splits)

lemma active_count_evict: "active_count (ledger_evict l k) \<le> active_count l"
  unfolding ledger_evict_def by (induction l) auto

section \<open>Gates\<close>

text \<open>\<open>_verdict_true\<close>: only a recorded \<open>True\<close> permits. Both names are dictionary keys: a list
  or a dictionary under \<open>check\<close> or \<open>verdict\<close> raises before any verdict is looked up.\<close>

definition verdict_true :: "req_state \<Rightarrow> pyval \<Rightarrow> kernel_exn + bool" where
  "verdict_true e gate_def =
     (case hash_key (py_get gate_def ''verdict'' (PyStr ''verification'')) of
        None \<Rightarrow> Inl TypeError
      | Some (PyStr v) \<Rightarrow> Inr (dget (rs_recorded_verdicts e) v = Some True)
      | Some _ \<Rightarrow> Inr False)"

definition gate_evaluate :: "req_state \<Rightarrow> pyval \<Rightarrow> kernel_exn + bool" where
  "gate_evaluate e gate_def =
     (case hash_key (py_get gate_def ''check'' PyNone) of
        None \<Rightarrow> Inl TypeError
      | Some k \<Rightarrow> (if k = PyStr ''verdict_true'' then verdict_true e gate_def else Inr False))"

lemma gate_evaluate_needs_verdict:
  assumes "gate_evaluate e g = Inr True" and "py_get g ''verdict'' (PyStr ''verification'') = PyStr v"
  shows "dget (rs_recorded_verdicts e) v = Some True"
  using assms by (auto simp: gate_evaluate_def verdict_true_def split: if_splits option.splits)

text \<open>A gate definition whose evaluation returns: the names it is read by are hashable.\<close>

definition gate_readable :: "pyval \<Rightarrow> bool" where
  "gate_readable g \<longleftrightarrow>
     hashable (py_get g ''check'' PyNone)
     \<and> (py_get g ''check'' PyNone = PyStr ''verdict_true'' \<longrightarrow>
          hashable (py_get g ''verdict'' (PyStr ''verification'')))"

lemma hash_key_PyStr [simp]: "hash_key v = Some (PyStr s) \<longleftrightarrow> v = PyStr s"
  by (cases v) auto

lemma gate_evaluate_returns: "(\<exists>b. gate_evaluate e g = Inr b) \<longleftrightarrow> gate_readable g"
  by (auto simp: gate_evaluate_def verdict_true_def gate_readable_def hashable_def
      split: option.splits pyval.splits)

section \<open>Routing\<close>

definition route :: "string \<Rightarrow> config \<Rightarrow> string option \<times> string" where
  "route declared_type cfg =
     (case dget (cfg_routing_table cfg) declared_type of
        None \<Rightarrow> (None, ''routing.unknown_type'')
      | Some PyNone \<Rightarrow> (None, ''routing.unknown_type'')
      | Some (PyStr t) \<Rightarrow> (Some t, [])
      | Some _ \<Rightarrow> (None, ''routing.ambiguous_type''))"

section \<open>Admission\<close>

definition decide :: "string \<Rightarrow> payload \<Rightarrow> config \<Rightarrow> bool \<Rightarrow> nat \<Rightarrow> bool \<times> string" where
  "decide name pay cfg halted active =
     (if halted then (False, ''admission.halted'')
      else if cfg_max_active cfg \<le> int active then (False, ''admission.exhausted'')
      else case find (\<lambda>k. dget pay k = None)
             (case dget (cfg_envelope_schemas cfg) name of None \<Rightarrow> [] | Some ks \<Rightarrow> ks) of
             Some k \<Rightarrow> (False, ''admission.schema_invalid:'' @ k)
           | None \<Rightarrow> (True, []))"

lemma decide_permit_active: "fst (decide name pay cfg h n) \<Longrightarrow> int n < cfg_max_active cfg \<and> \<not> h"
  by (auto simp: decide_def split: if_splits option.splits)

end
