(* ===== verification/BusPort.thy ===== *)
theory BusPort
  imports PyVal
begin

text \<open>
  The bus as its clients see it: one operation, \<open>publish(topic, message)\<close>, that either
  accepts the message or raises. A publisher is a function on the bus state; its boolean is
  \<open>False\<close> when the call raised. The locale states the law clients rely on, on live states:
  what is recorded for a topic grows by exactly the accepted message, at the end, in the form
  the bus keeps it (\<open>render\<close>), and a refused call records nothing.
\<close>

type_synonym 'b publisher = "'b \<Rightarrow> string \<Rightarrow> pyval \<Rightarrow> 'b \<times> bool"

locale bus_port =
  fixes pub :: "'b publisher"
    and history :: "'b \<Rightarrow> string \<Rightarrow> 'r list"
    and render :: "pyval \<Rightarrow> 'r"
    and live :: "'b \<Rightarrow> bool"
  assumes pub_ok: "live b \<Longrightarrow> pub b t m = (b', True) \<Longrightarrow>
      history b' t' = (if t' = t then history b t @ [render m] else history b t')"
    and pub_refused: "live b \<Longrightarrow> pub b t m = (b', False) \<Longrightarrow> history b' t' = history b t'"
    and pub_live: "live b \<Longrightarrow> live (fst (pub b t m))"
begin

lemma history_pub:
  "live b \<Longrightarrow> history (fst (pub b t m)) t' = history b t' @ (if t' = t \<and> snd (pub b t m) then [render m] else [])"
  by (cases "pub b t m", cases "snd (pub b t m)") (auto simp: pub_ok pub_refused)

text \<open>A sequence of publications records the accepted ones, in order, topic by topic.\<close>

fun pub_all :: "'b \<Rightarrow> (string \<times> pyval) list \<Rightarrow> 'b \<times> (string \<times> pyval) list" where
  "pub_all b [] = (b, [])"
| "pub_all b ((t, m) # rest) =
     (case pub b t m of
        (b', ok) \<Rightarrow> (case pub_all b' rest of (b'', acc) \<Rightarrow> (b'', if ok then (t, m) # acc else acc)))"

lemma pub_all_history:
  "live b \<Longrightarrow> pub_all b ms = (b', acc) \<Longrightarrow>
     live b' \<and> history b' t = history b t @ map (render \<circ> snd) (filter (\<lambda>(t', _). t' = t) acc)"
proof (induction ms arbitrary: b b' acc)
  case Nil
  then show ?case by simp
next
  case (Cons tm ms)
  obtain t1 m where tm: "tm = (t1, m)" by (cases tm)
  obtain b1 ok where p: "pub b t1 m = (b1, ok)" by (cases "pub b t1 m")
  obtain b2 acc2 where r: "pub_all b1 ms = (b2, acc2)" by (cases "pub_all b1 ms")
  have "live b1" "history b1 t = history b t @ (if t = t1 \<and> ok then [render m] else [])"
    using pub_live [OF Cons.prems(1), of t1 m] history_pub [OF Cons.prems(1), of t1 m t] p by simp_all
  with Cons.IH [OF this(1) r] Cons.prems(2) tm p r show ?case by (auto split: if_splits)
qed

end

section \<open>The kernel's in-memory bus\<close>

text \<open>\<open>kernel/bus.py\<close>: per-topic queues, and a flag that makes every publication fail.\<close>

record mem_bus =
  mb_topics :: "(string, pyval list) dict"
  mb_fail :: bool

definition mem_bus_init :: mem_bus where
  "mem_bus_init = \<lparr>mb_topics = [], mb_fail = False\<rparr>"

definition mem_messages :: "mem_bus \<Rightarrow> string \<Rightarrow> pyval list" where
  "mem_messages b t = (case dget (mb_topics b) t of None \<Rightarrow> [] | Some q \<Rightarrow> q)"

definition mem_publish :: "mem_bus publisher" where
  "mem_publish b t m =
     (if mb_fail b then (b, False)
      else (b\<lparr>mb_topics := dset t (mem_messages b t @ [m]) (mb_topics b)\<rparr>, True))"

definition mem_drain :: "mem_bus \<Rightarrow> string \<Rightarrow> mem_bus \<times> pyval list" where
  "mem_drain b t =
     (if mem_messages b t = [] then (b, [])
      else (b\<lparr>mb_topics := dset t [] (mb_topics b)\<rparr>, mem_messages b t))"

definition mem_clear :: "mem_bus \<Rightarrow> mem_bus" where
  "mem_clear b = b\<lparr>mb_topics := []\<rparr>"

definition mem_inject_duplicate :: "mem_bus \<Rightarrow> string \<Rightarrow> mem_bus" where
  "mem_inject_duplicate b t =
     (if mem_messages b t = [] then b
      else b\<lparr>mb_topics := dset t (mem_messages b t @ [last (mem_messages b t)]) (mb_topics b)\<rparr>)"

interpretation membus: bus_port mem_publish mem_messages "\<lambda>m. m" "\<lambda>_. True"
  by unfold_locales
    (auto simp: mem_publish_def mem_messages_def dict_simps split: if_splits)

end
