(* ===== verification/Coordinator.thy ===== *)
theory Coordinator
  imports KernelLedger BusPort
begin

text \<open>
  The kernel's event loop (\<open>kernel/coordinator.py\<close>): dedup, table lookup, guard, actions,
  log-before-publish, emission, configuration and session boundaries. The bus is the
  parameter \<open>pub\<close>; a raised publication is its \<open>False\<close>. An operation that an uncaught
  Python exception can leave returns \<open>Inl\<close> of the exception; the partially updated state
  is then not part of the result. The clock is audit only: the state holds its reading.
\<close>

record 'b coord =
  co_bus :: 'b
  co_ledger :: ledger
  co_halted :: bool
  co_log :: "pyval list"
  co_configs :: "(int, config) dict"
  co_config :: config
  co_clock :: int
  co_out_seq :: nat

definition install :: "'b coord \<Rightarrow> pyval \<Rightarrow> kernel_exn + 'b coord" where
  "install c data =
     (case config_view data of
        Inl e \<Rightarrow> Inl e
      | Inr view \<Rightarrow> Inr (c\<lparr>co_configs := dset (cfg_version view) view (co_configs c),
                          co_config := view\<rparr>))"

definition coord_blank :: "'b \<Rightarrow> int \<Rightarrow> 'b coord" where
  "coord_blank b now = \<lparr>co_bus = b, co_ledger = [], co_halted = False, co_log = [],
     co_configs = [], co_config = default_config, co_clock = now, co_out_seq = 0\<rparr>"

definition coord_init :: "'b \<Rightarrow> pyval \<Rightarrow> int \<Rightarrow> kernel_exn + 'b coord" where
  "coord_init b data now = install (coord_blank b now) data"

section \<open>Publication\<close>

text \<open>
  \<open>_safe_publish\<close>, \<open>_emit\<close> and \<open>_fault\<close> call each other; the recursion is at most one level
  deep, because a failed publication sets \<open>halted\<close> before it announces itself and a failure
  while halted is silent. \<open>publish_unavailable\<close> is that inner \<open>_fault\<close> call.
\<close>

definition fault_payload :: "string \<Rightarrow> pyval option \<Rightarrow> payload" where
  "fault_payload reason env =
     (''reason'', PyStr reason) #
     (case env of
        Some (PyDict d) \<Rightarrow>
          [(''event_id'', py_get (PyDict d) ''event_id'' PyNone),
           (''request_id'', py_get (PyDict d) ''request_id'' PyNone)]
      | _ \<Rightarrow> [])"

definition fault_rid :: "pyval option \<Rightarrow> pyval" where
  "fault_rid env =
     (case env of Some (PyDict d) \<Rightarrow> py_get (PyDict d) ''request_id'' PyNone | _ \<Rightarrow> PyNone)"

definition out_id :: "nat \<Rightarrow> string" where
  "out_id n = ''out-'' @ nat_str n"

definition fault_env :: "'b coord \<Rightarrow> string \<Rightarrow> pyval option \<Rightarrow> pyval" where
  "fault_env c reason env =
     make_env (PyStr (out_id (Suc (co_out_seq c)))) ''fault.recorded'' (fault_rid env)
       (PyInt (co_clock c)) (PyInt (cfg_version (co_config c))) (fault_payload reason env)"

definition publish_unavailable :: "'b publisher \<Rightarrow> 'b coord \<Rightarrow> 'b coord" where
  "publish_unavailable pub c =
     c\<lparr>co_bus := fst (pub (co_bus c) ''fault.recorded''
                     (fault_env c ''communication.unavailable'' None)),
       co_out_seq := Suc (co_out_seq c)\<rparr>"

definition safe_publish :: "'b publisher \<Rightarrow> 'b coord \<Rightarrow> string \<Rightarrow> pyval \<Rightarrow> 'b coord" where
  "safe_publish pub c topic msg =
     (case pub (co_bus c) topic msg of
        (b, True) \<Rightarrow> c\<lparr>co_bus := b\<rparr>
      | (b, False) \<Rightarrow>
          (if co_halted c then c\<lparr>co_bus := b\<rparr>
           else publish_unavailable pub (c\<lparr>co_bus := b, co_halted := True\<rparr>)))"

definition fault :: "'b publisher \<Rightarrow> 'b coord \<Rightarrow> string \<Rightarrow> pyval option \<Rightarrow> 'b coord" where
  "fault pub c reason env =
     safe_publish pub (c\<lparr>co_out_seq := Suc (co_out_seq c)\<rparr>) ''fault.recorded''
       (fault_env c reason env)"

definition emit :: "'b publisher \<Rightarrow> 'b coord \<Rightarrow> string \<Rightarrow> pyval \<Rightarrow> payload \<Rightarrow> config \<Rightarrow> string \<Rightarrow> 'b coord" where
  "emit pub c name rid pay cfg event_id =
     safe_publish pub c name
       (make_env (PyStr event_id) name rid (PyInt (co_clock c)) (PyInt (cfg_version cfg)) pay)"

definition log_record :: "'b publisher \<Rightarrow> 'b coord \<Rightarrow> pyval \<Rightarrow> 'b coord" where
  "log_record pub c r = safe_publish pub (c\<lparr>co_log := co_log c @ [r]\<rparr>) ''transition.log'' r"

section \<open>Guards and actions\<close>

definition prefix_of :: "string \<Rightarrow> string \<Rightarrow> bool" where
  "prefix_of p s \<longleftrightarrow> take (length p) s = p"

definition guard :: "string \<Rightarrow> req_state \<Rightarrow> config \<Rightarrow> kernel_exn + bool" where
  "guard name e cfg =
     (if prefix_of ''gate:'' name
      then gate_evaluate e
             (case dget (cfg_gates cfg) (drop 5 name) of None \<Rightarrow> PyDict [] | Some g \<Rightarrow> g)
      else if name = ''replans_remaining'' then Inr (rs_replan_count e < cfg_max_replans cfg)
      else Inr False)"

text \<open>\<open>row.get("decision") or (...)\<close>: an empty string counts as absent.\<close>

definition row_decides :: "row \<Rightarrow> bool \<Rightarrow> string" where
  "row_decides r permit =
     (case row_decision r of
        Some (x # xs) \<Rightarrow> x # xs
      | _ \<Rightarrow> (if permit then ''permit'' else ''block''))"

fun pick_row_from ::
  "nat \<Rightarrow> row list \<Rightarrow> req_state \<Rightarrow> config \<Rightarrow> kernel_exn + (row \<times> bool) option"
where
  "pick_row_from i [] e cfg = Inr None"
| "pick_row_from i (r # rs) e cfg =
     (case row_when r of
        Some w \<Rightarrow>
          (case guard w e cfg of
             Inl ex \<Rightarrow> Inl ex
           | Inr True \<Rightarrow> Inr (Some (r, row_decides r (i = 0) = ''permit''))
           | Inr False \<Rightarrow> pick_row_from (Suc i) rs e cfg)
      | None \<Rightarrow> Inr (Some (r, row_decides r (i = 0) = ''permit'')))"

definition pick_row :: "row list \<Rightarrow> req_state \<Rightarrow> config \<Rightarrow> kernel_exn + (row \<times> bool) option" where
  "pick_row rs e cfg = pick_row_from 0 rs e cfg"

definition do_action :: "string \<Rightarrow> req_state \<Rightarrow> string \<Rightarrow> payload \<Rightarrow> req_state" where
  "do_action action e event info =
     (if action = ''record_verdict'' then
        e\<lparr>rs_recorded_verdicts :=
            dset ''verification'' (event = ''verify.passed'') (rs_recorded_verdicts e)\<rparr>
      else if action = ''increment_replan'' then e\<lparr>rs_replan_count := rs_replan_count e + 1\<rparr>
      else if action = ''set_cancel_flag'' then e\<lparr>rs_cancellation_flag := True\<rparr>
      else if action = ''set_routing_target'' then
        e\<lparr>rs_routing_target := py_get (PyDict info) ''routing_target'' PyNone\<rparr>
      else e)"

definition do_actions :: "string list \<Rightarrow> req_state \<Rightarrow> string \<Rightarrow> payload \<Rightarrow> req_state" where
  "do_actions actions e event info = foldl (\<lambda>e a. do_action a e event info) e actions"

section \<open>Transitions\<close>

text \<open>The ledger part of \<open>_transition\<close>: actions, next state, sequence, dedup key.\<close>

definition advance :: "req_state \<Rightarrow> row \<Rightarrow> string \<Rightarrow> payload \<Rightarrow> pyval \<Rightarrow> req_state" where
  "advance e r event info event_id =
     (do_actions (row_actions r) e event info)
       \<lparr>rs_lifecycle_state := row_next r,
        rs_transition_sequence := Suc (rs_transition_sequence e),
        rs_last_applied_event_id := event_id\<rparr>"

definition transition_record ::
  "req_state \<Rightarrow> string \<Rightarrow> pyval \<Rightarrow> row \<Rightarrow> pyval \<Rightarrow> int \<Rightarrow> payload \<Rightarrow> pyval" where
  "transition_record e event event_id r guard_result version info =
     PyDict ([(''request_id'', rs_request_id e), (''event_id'', event_id),
              (''sequence'', PyInt (int (Suc (rs_transition_sequence e)))),
              (''prior_state'', PyStr (rs_lifecycle_state e)), (''event'', PyStr event),
              (''guard_result'', guard_result), (''next_state'', PyStr (row_next r)),
              (''config_version'', PyInt version), (''emitted_events'', strs (row_emit r))]
             @ (if info = [] then [] else [(''info'', PyDict info)]))"

definition info_get :: "payload \<Rightarrow> string \<Rightarrow> pyval \<Rightarrow> pyval" where
  "info_get info k d = py_get (PyDict info) k d"

definition payload_for :: "string \<Rightarrow> req_state \<Rightarrow> string \<Rightarrow> row \<Rightarrow> config \<Rightarrow> payload \<Rightarrow> payload" where
  "payload_for name e decision r cfg info =
     (let rid = rs_request_id e in
      if name = ''gate.enforced'' then
        [(''request_id'', rid),
         (''gate'', row_gate r),
         (''decision'', PyStr decision)]
      else if name = ''routing.directive'' then
        [(''request_id'', rid), (''declared_type'', rs_declared_type e),
         (''target'', rs_routing_target e), (''config_version'', PyInt (cfg_version cfg))]
      else if name = ''request.rejected'' \<or> name = ''request.failed'' then
        [(''request_id'', rid), (''state'', PyStr (rs_lifecycle_state e)),
         (''reason'', info_get info ''reason'' (PyStr []))]
      else if name = ''request.cancelled'' then
        [(''request_id'', rid), (''state'', PyStr ''cancelled''), (''ack'', PyBool True)]
      else [(''request_id'', rid), (''state'', PyStr (rs_lifecycle_state e))])"

definition event_id_for :: "req_state \<Rightarrow> nat \<Rightarrow> string" where
  "event_id_for e index =
     py_str (rs_request_id e) @ '':'' @ nat_str (rs_transition_sequence e) @ '':'' @ nat_str index"

fun publish_row_from ::
  "'b publisher \<Rightarrow> 'b coord \<Rightarrow> req_state \<Rightarrow> row \<Rightarrow> string \<Rightarrow> config \<Rightarrow> payload \<Rightarrow> nat \<Rightarrow> string list \<Rightarrow> 'b coord"
where
  "publish_row_from pub c e r decision cfg info i [] = c"
| "publish_row_from pub c e r decision cfg info i (name # names) =
     publish_row_from pub
       (emit pub c name (rs_request_id e) (payload_for name e decision r cfg info) cfg
          (event_id_for e i))
       e r decision cfg info (Suc i) names"

definition publish_row ::
  "'b publisher \<Rightarrow> 'b coord \<Rightarrow> req_state \<Rightarrow> row \<Rightarrow> string \<Rightarrow> config \<Rightarrow> payload \<Rightarrow> 'b coord" where
  "publish_row pub c e r decision cfg info =
     publish_row_from pub c e r decision cfg info 0 (row_emit r)"

text \<open>
  \<open>_transition\<close>. \<open>k\<close> is the ledger key of \<open>e\<close>. No \<open>info\<close> and an \<open>info\<close> whose values
  are all falsy read alike everywhere below, so both are the empty list. \<open>event_id\<close> is that
  of a validated envelope, a non-empty string.
\<close>

definition transition ::
  "'b publisher \<Rightarrow> 'b coord \<Rightarrow> pyval \<Rightarrow> req_state \<Rightarrow> string \<Rightarrow> pyval \<Rightarrow> row \<Rightarrow> bool \<Rightarrow> config \<Rightarrow> payload \<Rightarrow> 'b coord" where
  "transition pub c k e event event_id r guard_result cfg info =
     (let info' = filter (\<lambda>(_, v). truthy v) info;
          rec = transition_record e event event_id r (PyBool guard_result) (cfg_version cfg) info';
          e' = advance e r event info' event_id;
          c' = log_record pub (c\<lparr>co_ledger := ledger_put (co_ledger c) k e'\<rparr>) rec
      in publish_row pub c' e' r (row_decides r guard_result) cfg info')"

section \<open>Handlers\<close>

definition log_noop :: "'b publisher \<Rightarrow> 'b coord \<Rightarrow> req_state \<Rightarrow> pyval \<Rightarrow> string \<Rightarrow> string \<Rightarrow> 'b coord" where
  "log_noop pub c e event_id event verdict =
     log_record pub c (PyDict
       [(''request_id'', rs_request_id e), (''event_id'', event_id),
        (''sequence'', PyInt (int (rs_transition_sequence e))),
        (''prior_state'', PyStr (rs_lifecycle_state e)), (''event'', PyStr event),
        (''guard_result'', PyBool False), (''next_state'', PyStr (rs_lifecycle_state e)),
        (''config_version'', PyInt (rs_config_version e)), (''emitted_events'', PyList []),
        (''verdict'', PyStr verdict)])"

definition unmatched :: "string \<Rightarrow> string \<Rightarrow> string \<Rightarrow> string" where
  "unmatched what state event = what @ state @ ''|'' @ event"

text \<open>
  \<open>_admit\<close>: the entry is created, the admission row applied and, when permitted and the row
  chains, the routing row too (\<open>admit_chain\<close>, the tail of the method). A table without the
  needed rows makes \<open>rows[0]\<close> raise.
\<close>

definition routing_info :: "string option \<Rightarrow> string \<Rightarrow> payload" where
  "routing_info target reason =
     [(''routing_target'', (case target of None \<Rightarrow> PyNone | Some t \<Rightarrow> PyStr t)),
      (''reason'', PyStr reason)]"

definition admit_chain ::
  "'b publisher \<Rightarrow> 'b coord \<Rightarrow> pyval \<Rightarrow> pyval \<Rightarrow> string \<Rightarrow> string \<Rightarrow> config \<Rightarrow> kernel_exn + 'b coord" where
  "admit_chain pub c rid eid chain dtype cfg =
     (case ledger_get (co_ledger c) rid of
        None \<Rightarrow> Inl TypeError
      | Some e \<Rightarrow>
          (case cfg_rows cfg (rs_lifecycle_state e) chain of
             None \<Rightarrow> Inl TypeError
           | Some rows \<Rightarrow>
               (case route dtype cfg of (target, reason) \<Rightarrow>
                  Inr (transition pub c rid e chain eid
                         (if target \<noteq> None then hd rows else last rows) (target \<noteq> None) cfg
                         (routing_info target reason)))))"

definition admission_info :: "string \<Rightarrow> string \<Rightarrow> payload" where
  "admission_info dtype reason = [(''declared_type'', PyStr dtype), (''reason'', PyStr reason)]"

definition birth_type :: "payload \<Rightarrow> string" where
  "birth_type pay = py_str (py_get (PyDict pay) ''declared_type'' (PyStr []))"

definition birth_entry :: "'b coord \<Rightarrow> pyval \<Rightarrow> payload \<Rightarrow> req_state" where
  "birth_entry c rid pay = new_state rid (PyStr (birth_type pay)) (cfg_version (co_config c))"

definition birth_decision :: "'b coord \<Rightarrow> payload \<Rightarrow> bool \<times> string" where
  "birth_decision c pay =
     decide ''request.received'' pay (co_config c) (co_halted c) (active_count (co_ledger c))"

definition birth_row :: "'b coord \<Rightarrow> payload \<Rightarrow> row list \<Rightarrow> row" where
  "birth_row c pay rows = (if fst (birth_decision c pay) then hd rows else last rows)"

definition admitted_state ::
  "'b publisher \<Rightarrow> 'b coord \<Rightarrow> pyval \<Rightarrow> pyval \<Rightarrow> payload \<Rightarrow> row list \<Rightarrow> 'b coord" where
  "admitted_state pub c rid eid pay rows =
     transition pub (c\<lparr>co_ledger := dset rid (birth_entry c rid pay) (co_ledger c)\<rparr>) rid
       (birth_entry c rid pay) ''request.received'' eid (birth_row c pay rows)
       (fst (birth_decision c pay)) (co_config c)
       (admission_info (birth_type pay) (snd (birth_decision c pay)))"

definition admit_known ::
  "'b publisher \<Rightarrow> 'b coord \<Rightarrow> pyval \<Rightarrow> pyval \<Rightarrow> payload \<Rightarrow> kernel_exn + 'b coord" where
  "admit_known pub c rid eid pay =
     (case ledger_create (co_ledger c) rid (birth_entry c rid pay) of
        Inl ex \<Rightarrow> Inl ex
      | Inr l \<Rightarrow>
          (case cfg_rows (co_config c) ''created'' ''request.received'' of
             None \<Rightarrow> Inl TypeError
           | Some rows \<Rightarrow>
               (let c1 = admitted_state pub c rid eid pay rows in
                case row_chain (birth_row c pay rows) of
                  Some (y # ys) \<Rightarrow>
                    (if fst (birth_decision c pay)
                     then admit_chain pub c1 rid eid (y # ys) (birth_type pay) (co_config c)
                     else Inr c1)
                | _ \<Rightarrow> Inr c1)))"

definition admit :: "'b publisher \<Rightarrow> 'b coord \<Rightarrow> pyval \<Rightarrow> payload \<Rightarrow> kernel_exn + 'b coord" where
  "admit pub c env pay =
     (case py_get env ''request_id'' PyNone of
        PyStr (x # xs) \<Rightarrow> admit_known pub c (PyStr (x # xs)) (py_get env ''event_id'' PyNone) pay
      | _ \<Rightarrow> Inr (fault pub c ''request.missing_id'' (Some env)))"

definition entry_config :: "'b coord \<Rightarrow> req_state \<Rightarrow> config" where
  "entry_config c e =
     (case dget (co_configs c) (rs_config_version e) of None \<Rightarrow> co_config c | Some cfg \<Rightarrow> cfg)"

definition apply_event ::
  "'b publisher \<Rightarrow> 'b coord \<Rightarrow> pyval \<Rightarrow> req_state \<Rightarrow> string \<Rightarrow> pyval \<Rightarrow> kernel_exn + 'b coord" where
  "apply_event pub c k e event env =
     (let cfg = entry_config c e in
      case cfg_rows cfg (rs_lifecycle_state e) event of
        None \<Rightarrow> Inr (fault pub c (unmatched ''transition.unmatched:'' (rs_lifecycle_state e) event) (Some env))
      | Some rows \<Rightarrow>
          (case pick_row rows e cfg of
             Inl ex \<Rightarrow> Inl ex
           | Inr None \<Rightarrow>
               Inr (fault pub c (unmatched ''transition.no_row:'' (rs_lifecycle_state e) event) (Some env))
           | Inr (Some (r, g)) \<Rightarrow>
               Inr (transition pub c k e event (py_get env ''event_id'' PyNone) r g cfg [])))"

definition handle_config :: "'b publisher \<Rightarrow> 'b coord \<Rightarrow> pyval \<Rightarrow> payload \<Rightarrow> kernel_exn + 'b coord" where
  "handle_config pub c env pay =
     (let snap = py_get (PyDict pay) ''snapshot'' PyNone in
      case validate_config snap of
        (False, reason) \<Rightarrow> Inr (fault pub c (''config.invalid:'' @ reason) (Some env))
      | (True, _) \<Rightarrow>
          (case install c snap of
             Inl e \<Rightarrow> Inl e
           | Inr c' \<Rightarrow> Inr (log_record pub c' (PyDict
               [(''request_id'', PyNone), (''sequence'', PyInt 0), (''prior_state'', PyNone),
                (''event'', PyStr ''config.changed''), (''guard_result'', PyBool True),
                (''next_state'', PyNone), (''config_version'', py_get snap ''version'' PyNone),
                (''emitted_events'', PyList []), (''snapshot'', snap)]))))"

definition cleanup_record :: "pyval \<Rightarrow> req_state \<Rightarrow> pyval" where
  "cleanup_record rid e = PyDict
     [(''request_id'', rid), (''sequence'', PyInt (int (Suc (rs_transition_sequence e)))),
      (''prior_state'', PyStr (rs_lifecycle_state e)), (''event'', PyStr ''__cleanup__''),
      (''guard_result'', PyBool True), (''next_state'', PyStr ''cleanup''),
      (''config_version'', PyInt (rs_config_version e)), (''emitted_events'', PyList [])]"

definition cleanup_one :: "'b publisher \<Rightarrow> 'b coord \<Rightarrow> pyval \<Rightarrow> 'b coord" where
  "cleanup_one pub c rid =
     (case ledger_get (co_ledger c) rid of
        None \<Rightarrow> c
      | Some e \<Rightarrow>
          (if is_terminal e
           then (let c' = log_record pub c (cleanup_record rid e)
                 in c'\<lparr>co_ledger := ledger_evict (co_ledger c') rid\<rparr>)
           else c))"

definition session_record :: "string \<Rightarrow> config \<Rightarrow> pyval" where
  "session_record name cfg = PyDict
     [(''request_id'', PyNone), (''sequence'', PyInt 0), (''prior_state'', PyNone),
      (''event'', PyStr name), (''guard_result'', PyBool True), (''next_state'', PyNone),
      (''config_version'', PyInt (cfg_version cfg)), (''emitted_events'', PyList [])]"

definition handle_session :: "'b publisher \<Rightarrow> 'b coord \<Rightarrow> string \<Rightarrow> 'b coord" where
  "handle_session pub c name =
     (let c1 = log_record pub c (session_record name (co_config c)) in
      if name = ''session.sleep''
      then foldl (cleanup_one pub) c1 (request_ids (co_ledger c1))
      else c1)"

definition session_events :: "string list" where
  "session_events = [''session.wake'', ''session.sleep'']"

text \<open>The loop's entry point. The ledger lookup hashes the request id, which raises for a
  list or a dictionary: the envelope check does not look at the id's type.\<close>

definition handle :: "'b publisher \<Rightarrow> 'b coord \<Rightarrow> pyval \<Rightarrow> kernel_exn + 'b coord" where
  "handle pub c env =
     (case validate_envelope env (cfg_inbound_events (co_config c)) of
        (False, reason) \<Rightarrow> Inr (fault pub c reason (Some env))
      | (True, _) \<Rightarrow>
          (case (py_get env ''event_name'' PyNone, py_get env ''payload'' PyNone) of
             (PyStr name, PyDict pay) \<Rightarrow>
               (if name = ''config.changed'' then handle_config pub c env pay
                else if name \<in> set session_events then Inr (handle_session pub c name)
                else case hash_key (py_get env ''request_id'' PyNone) of
                       None \<Rightarrow> Inl TypeError
                     | Some k \<Rightarrow>
                         (case ledger_get (co_ledger c) k of
                            Some e \<Rightarrow>
                              (if py_get env ''event_id'' PyNone = rs_last_applied_event_id e
                               then Inr (log_noop pub c e (py_get env ''event_id'' PyNone) name ''duplicate'')
                               else if name = ''request.received''
                               then Inr (fault pub c
                                      (unmatched ''transition.unmatched:'' (rs_lifecycle_state e) name) (Some env))
                               else apply_event pub c k e name env)
                          | None \<Rightarrow>
                              (if name = ''request.received'' then admit pub c env pay
                               else Inr (fault pub c (''request.unknown:'' @ name) (Some env)))))
           | _ \<Rightarrow> Inl TypeError))"

definition handle_all :: "'b publisher \<Rightarrow> 'b coord \<Rightarrow> pyval list \<Rightarrow> kernel_exn + 'b coord" where
  "handle_all pub c envs = foldm (handle pub) c envs"

section \<open>What publication leaves alone\<close>

text \<open>Publishing touches only the bus, the halt flag and the outbound counter.\<close>

lemma safe_publish_frame [simp]:
  "co_ledger (safe_publish pub c t m) = co_ledger c"
  "co_log (safe_publish pub c t m) = co_log c"
  "co_configs (safe_publish pub c t m) = co_configs c"
  "co_config (safe_publish pub c t m) = co_config c"
  "co_clock (safe_publish pub c t m) = co_clock c"
  by (auto simp: safe_publish_def publish_unavailable_def split: prod.splits bool.splits)

lemma safe_publish_halted: "co_halted c \<Longrightarrow> co_halted (safe_publish pub c t m)"
  by (auto simp: safe_publish_def publish_unavailable_def split: prod.splits bool.splits)

lemma fault_frame [simp]:
  "co_ledger (fault pub c r env) = co_ledger c"
  "co_log (fault pub c r env) = co_log c"
  "co_configs (fault pub c r env) = co_configs c"
  "co_config (fault pub c r env) = co_config c"
  "co_clock (fault pub c r env) = co_clock c"
  by (simp_all add: fault_def)

lemma emit_frame [simp]:
  "co_ledger (emit pub c n rid p cfg eid) = co_ledger c"
  "co_log (emit pub c n rid p cfg eid) = co_log c"
  "co_configs (emit pub c n rid p cfg eid) = co_configs c"
  "co_config (emit pub c n rid p cfg eid) = co_config c"
  "co_clock (emit pub c n rid p cfg eid) = co_clock c"
  by (simp_all add: emit_def)

lemma log_record_frame [simp]:
  "co_ledger (log_record pub c r) = co_ledger c"
  "co_log (log_record pub c r) = co_log c @ [r]"
  "co_configs (log_record pub c r) = co_configs c"
  "co_config (log_record pub c r) = co_config c"
  "co_clock (log_record pub c r) = co_clock c"
  by (simp_all add: log_record_def)

lemma publish_row_from_frame [simp]:
  "co_ledger (publish_row_from pub c e r d cfg info i ns) = co_ledger c"
  "co_log (publish_row_from pub c e r d cfg info i ns) = co_log c"
  "co_configs (publish_row_from pub c e r d cfg info i ns) = co_configs c"
  "co_config (publish_row_from pub c e r d cfg info i ns) = co_config c"
  by (induction pub c e r d cfg info i ns rule: publish_row_from.induct) auto

lemma publish_row_frame [simp]:
  "co_ledger (publish_row pub c e r d cfg info) = co_ledger c"
  "co_log (publish_row pub c e r d cfg info) = co_log c"
  "co_configs (publish_row pub c e r d cfg info) = co_configs c"
  "co_config (publish_row pub c e r d cfg info) = co_config c"
  by (simp_all add: publish_row_def)

lemma transition_frame [simp]:
  "co_ledger (transition pub c k e ev eid r g cfg info)
     = ledger_put (co_ledger c) k (advance e r ev (filter (\<lambda>(_, v). truthy v) info) eid)"
  "co_log (transition pub c k e ev eid r g cfg info)
     = co_log c @ [transition_record e ev eid r (PyBool g) (cfg_version cfg)
                     (filter (\<lambda>(_, v). truthy v) info)]"
  "co_configs (transition pub c k e ev eid r g cfg info) = co_configs c"
  "co_config (transition pub c k e ev eid r g cfg info) = co_config c"
  by (simp_all add: transition_def Let_def)

lemma log_noop_frame [simp]:
  "co_ledger (log_noop pub c e eid ev v) = co_ledger c"
  "co_configs (log_noop pub c e eid ev v) = co_configs c"
  "co_config (log_noop pub c e eid ev v) = co_config c"
  by (simp_all add: log_noop_def)

lemma cleanup_one_frame [simp]:
  "co_configs (cleanup_one pub c k) = co_configs c"
  "co_config (cleanup_one pub c k) = co_config c"
  by (simp_all add: cleanup_one_def Let_def split: option.splits)

lemma cleanup_all_frame [simp]:
  "co_configs (foldl (cleanup_one pub) c ks) = co_configs c"
  "co_config (foldl (cleanup_one pub) c ks) = co_config c"
  by (induction ks arbitrary: c) auto

lemma ledger_get_put [dict_simps]:
  "ledger_get (ledger_put l k e) k' = (if k' = k then Some e else ledger_get l k')"
  by (simp add: ledger_get_def ledger_put_def dict_simps)

lemma ledger_get_evict [dict_simps]:
  "ledger_get (ledger_evict l k) k' = (if k' = k then None else ledger_get l k')"
  by (simp add: ledger_get_def ledger_evict_def dict_simps)

lemma do_action_frame [simp]:
  "rs_request_id (do_action a e ev info) = rs_request_id e"
  "rs_declared_type (do_action a e ev info) = rs_declared_type e"
  "rs_config_version (do_action a e ev info) = rs_config_version e"
  "rs_lifecycle_state (do_action a e ev info) = rs_lifecycle_state e"
  "rs_transition_sequence (do_action a e ev info) = rs_transition_sequence e"
  by (simp_all add: do_action_def)

lemma do_actions_frame [simp]:
  "rs_request_id (do_actions as e ev info) = rs_request_id e"
  "rs_declared_type (do_actions as e ev info) = rs_declared_type e"
  "rs_config_version (do_actions as e ev info) = rs_config_version e"
  "rs_lifecycle_state (do_actions as e ev info) = rs_lifecycle_state e"
  "rs_transition_sequence (do_actions as e ev info) = rs_transition_sequence e"
  unfolding do_actions_def by (induction "as" arbitrary: e) auto

lemma advance_frame [simp]:
  "rs_request_id (advance e r ev info eid) = rs_request_id e"
  "rs_declared_type (advance e r ev info eid) = rs_declared_type e"
  "rs_config_version (advance e r ev info eid) = rs_config_version e"
  "rs_lifecycle_state (advance e r ev info eid) = row_next r"
  "rs_transition_sequence (advance e r ev info eid) = Suc (rs_transition_sequence e)"
  "rs_last_applied_event_id (advance e r ev info eid) = eid"
  by (simp_all add: advance_def)

text \<open>The row a pick returns comes from the table, with the guard that let it through.\<close>

lemma pick_row_from_Some:
  "pick_row_from i rs e cfg = Inr (Some (r, g)) \<Longrightarrow>
     \<exists>j < length rs. r = rs ! j \<and> g = (row_decides r (i + j = 0) = ''permit'')
       \<and> (case row_when r of None \<Rightarrow> True | Some w \<Rightarrow> guard w e cfg = Inr True)"
proof (induction i rs e cfg rule: pick_row_from.induct)
  case (1 i e cfg)
  then show ?case by simp
next
  case (2 i r' rs e cfg)
  show ?case
  proof (cases "row_when r' = None \<or> (\<exists>w. row_when r' = Some w \<and> guard w e cfg = Inr True)")
    case True
    with 2 show ?thesis by (intro exI [of _ 0]) (auto split: option.splits)
  next
    case False
    with 2(2) obtain w where w: "row_when r' = Some w" "guard w e cfg = Inr False"
      by (auto split: option.splits sum.splits bool.splits)
    with 2 obtain j where "j < length rs" "r = rs ! j" "g = (row_decides r (Suc i + j = 0) = ''permit'')"
        "case row_when r of None \<Rightarrow> True | Some w \<Rightarrow> guard w e cfg = Inr True"
      by fastforce
    then show ?thesis by (intro exI [of _ "Suc j"]) auto
  qed
qed

lemma pick_row_Some:
  assumes "pick_row rs e cfg = Inr (Some (r, g))"
  obtains j where "j < length rs" and "r = rs ! j" and "g = (row_decides r (j = 0) = ''permit'')"
    and "case row_when r of None \<Rightarrow> True | Some w \<Rightarrow> guard w e cfg = Inr True"
  using pick_row_from_Some [OF assms [unfolded pick_row_def]] by auto

text \<open>An event applied to an entry either faults, whatever the bus, or moves it by a picked row.\<close>

lemma apply_event_outcome:
  assumes "apply_event pub c k e ev env = Inr c'"
  obtains (faulted) why where "c' = fault pub c why (Some env)"
      "\<And>d. co_configs d = co_configs c \<Longrightarrow> co_config d = co_config c \<Longrightarrow>
        apply_event pub d k e ev env = Inr (fault pub d why (Some env))"
  | (moved) rows r g where "cfg_rows (entry_config c e) (rs_lifecycle_state e) ev = Some rows"
      "pick_row rows e (entry_config c e) = Inr (Some (r, g))"
      "c' = transition pub c k e ev (py_get env ''event_id'' PyNone) r g (entry_config c e) []"
proof -
  have "(\<exists>why. c' = fault pub c why (Some env)
        \<and> (\<forall>d. co_configs d = co_configs c \<longrightarrow> co_config d = co_config c \<longrightarrow>
             apply_event pub d k e ev env = Inr (fault pub d why (Some env))))
    \<or> (\<exists>rows r g. cfg_rows (entry_config c e) (rs_lifecycle_state e) ev = Some rows
        \<and> pick_row rows e (entry_config c e) = Inr (Some (r, g))
        \<and> c' = transition pub c k e ev (py_get env ''event_id'' PyNone) r g (entry_config c e) [])"
    using assms by (auto simp: apply_event_def entry_config_def Let_def split: option.splits sum.splits)
  then show thesis using faulted moved by blast
qed

section \<open>The outcomes of admission\<close>

definition birth_info :: "'b coord \<Rightarrow> payload \<Rightarrow> payload" where
  "birth_info c pay =
     filter (\<lambda>(_, v). truthy v) (admission_info (birth_type pay) (snd (birth_decision c pay)))"

lemma birth_entry_fields [simp]:
  "rs_request_id (birth_entry c rid pay) = rid"
  "rs_lifecycle_state (birth_entry c rid pay) = ''created''"
  "rs_config_version (birth_entry c rid pay) = cfg_version (co_config c)"
  "rs_recorded_verdicts (birth_entry c rid pay) = []"
  "rs_replan_count (birth_entry c rid pay) = 0"
  by (simp_all add: birth_entry_def)

lemma admitted_state_frame [simp]:
  "co_ledger (admitted_state pub c rid eid pay rows)
     = ledger_put (dset rid (birth_entry c rid pay) (co_ledger c)) rid
         (advance (birth_entry c rid pay) (birth_row c pay rows) ''request.received'' (birth_info c pay) eid)"
  "co_log (admitted_state pub c rid eid pay rows)
     = co_log c @ [transition_record (birth_entry c rid pay) ''request.received'' eid (birth_row c pay rows)
                     (PyBool (fst (birth_decision c pay))) (cfg_version (co_config c)) (birth_info c pay)]"
  "co_configs (admitted_state pub c rid eid pay rows) = co_configs c"
  "co_config (admitted_state pub c rid eid pay rows) = co_config c"
  by (simp_all add: admitted_state_def birth_info_def)

lemma birth_info_type: "info_get (birth_info c pay) ''declared_type'' (PyStr []) = PyStr (birth_type pay)"
  by (simp add: info_get_def birth_info_def admission_info_def)

lemma admit_outcome:
  assumes h: "admit pub c env pay = Inr c'"
    and fresh: "\<forall>k. hash_key (py_get env ''request_id'' PyNone) = Some k \<longrightarrow> ledger_get (co_ledger c) k = None"
  obtains (missing) "\<not> (\<exists>x xs. py_get env ''request_id'' PyNone = PyStr (x # xs))"
      "c' = fault pub c ''request.missing_id'' (Some env)"
  | (born) x xs rows where "py_get env ''request_id'' PyNone = PyStr (x # xs)"
      "cfg_rows (co_config c) ''created'' ''request.received'' = Some rows"
      "c' = admitted_state pub c (PyStr (x # xs)) (py_get env ''event_id'' PyNone) pay rows"
  | (chained) x xs rows y ys where "py_get env ''request_id'' PyNone = PyStr (x # xs)"
      "cfg_rows (co_config c) ''created'' ''request.received'' = Some rows"
      "fst (birth_decision c pay)" "row_chain (hd rows) = Some (y # ys)"
      "admit_chain pub (admitted_state pub c (PyStr (x # xs)) (py_get env ''event_id'' PyNone) pay rows)
         (PyStr (x # xs)) (py_get env ''event_id'' PyNone) (y # ys) (birth_type pay) (co_config c) = Inr c'"
proof (cases "\<exists>x xs. py_get env ''request_id'' PyNone = PyStr (x # xs)")
  case False
  with h have "c' = fault pub c ''request.missing_id'' (Some env)"
    by (auto simp: admit_def split: pyval.splits list.splits)
  with False show thesis by (rule missing)
next
  case True
  then obtain x xs where rid: "py_get env ''request_id'' PyNone = PyStr (x # xs)" by blast
  with fresh have "dget (co_ledger c) (PyStr (x # xs)) = None" by (simp add: ledger_get_def)
  moreover from h rid have "admit_known pub c (PyStr (x # xs)) (py_get env ''event_id'' PyNone) pay = Inr c'"
    by (simp add: admit_def)
  ultimately show thesis
    using born [OF rid] chained [OF rid]
    by (auto simp: admit_known_def birth_row_def ledger_create_def Let_def
        split: option.splits list.splits if_splits)
qed

lemma admit_chain_outcome:
  assumes "admit_chain pub c rid eid chain dtype cfg = Inr c'"
  obtains e rows target reason where "ledger_get (co_ledger c) rid = Some e"
    and "cfg_rows cfg (rs_lifecycle_state e) chain = Some rows"
    and "route dtype cfg = (target, reason)"
    and "c' = transition pub c rid e chain eid (if target \<noteq> None then hd rows else last rows)
           (target \<noteq> None) cfg (routing_info target reason)"
  using assms by (auto simp: admit_chain_def split: option.splits prod.splits)

section \<open>Effects of the handlers on the ledger and the configurations\<close>

text \<open>The snapshot an input carries, when it would be accepted, satisfies \<open>Q\<close>.\<close>

definition snapshot_ok :: "(config \<Rightarrow> bool) \<Rightarrow> pyval \<Rightarrow> bool" where
  "snapshot_ok Q env =
     (case config_view (py_get (py_get env ''payload'' PyNone) ''snapshot'' PyNone) of
        Inl _ \<Rightarrow> True
      | Inr cfg \<Rightarrow> Q cfg)"

lemma snapshot_okD:
  assumes "snapshot_ok Q env" and "py_get env ''payload'' PyNone = PyDict pay"
    and "config_view (py_get (PyDict pay) ''snapshot'' PyNone) = Inr cfg"
  shows "Q cfg"
  using assms by (simp add: snapshot_ok_def)

lemma handle_config_outcome:
  assumes "handle_config pub c env pay = Inr c'"
  obtains (rejected) why where "c' = fault pub c why (Some env)"
  | (installed) cfg rec where "config_view (py_get (PyDict pay) ''snapshot'' PyNone) = Inr cfg"
      "c' = log_record pub (c\<lparr>co_configs := dset (cfg_version cfg) cfg (co_configs c), co_config := cfg\<rparr>) rec"
  using assms
  by (auto simp: handle_config_def install_def Let_def split: prod.splits bool.splits sum.splits)

lemma cleanup_one_ledger:
  "co_ledger (cleanup_one pub c k) =
     (case ledger_get (co_ledger c) k of
        None \<Rightarrow> co_ledger c
      | Some e \<Rightarrow> (if is_terminal e then ledger_evict (co_ledger c) k else co_ledger c))"
  by (simp add: cleanup_one_def Let_def split: option.splits)

lemma ledger_evict_filter: "ledger_evict l k = filter (\<lambda>(k', _). k' \<noteq> k) l"
  unfolding ledger_evict_def by (induction l) auto

lemma cleanup_one_filter:
  assumes "wf_dict (co_ledger c)"
  shows "co_ledger (cleanup_one pub c k) = filter (\<lambda>(k', e). \<not> (k' = k \<and> is_terminal e)) (co_ledger c)"
proof (cases "ledger_get (co_ledger c) k")
  case None
  then have "\<forall>p \<in> set (co_ledger c). fst p \<noteq> k"
    by (auto simp: ledger_get_def map_of_eq_None_iff)
  then show ?thesis
    using None by (auto simp: cleanup_one_ledger intro!: filter_True [symmetric])
next
  case (Some e)
  have uniq: "p \<in> set (co_ledger c) \<Longrightarrow> fst p = k \<Longrightarrow> snd p = e" for p
    using Some assms wf_dict_dget [of "co_ledger c" k "snd p"] by (cases p) (auto simp: ledger_get_def)
  show ?thesis
  proof (cases "is_terminal e")
    case True
    then show ?thesis
      using Some uniq by (auto simp: cleanup_one_ledger ledger_evict_filter intro!: filter_cong)
  next
    case False
    then show ?thesis
      using Some uniq by (auto simp: cleanup_one_ledger intro!: filter_True [symmetric])
  qed
qed

lemma cleanup_all_filter:
  assumes "wf_dict (co_ledger c)"
  shows "co_ledger (foldl (cleanup_one pub) c ks)
    = filter (\<lambda>(k, e). \<not> (k \<in> set ks \<and> is_terminal e)) (co_ledger c)"
  using assms
proof (induction ks arbitrary: c)
  case Nil
  then show ?case by simp
next
  case (Cons k ks)
  let ?c1 = "cleanup_one pub c k"
  have "wf_dict (co_ledger ?c1)"
    using Cons.prems by (simp add: cleanup_one_filter wf_dict_def distinct_map_filter)
  with Cons.IH [of ?c1] Cons.prems show ?case
    by (auto simp: cleanup_one_filter intro!: filter_cong)
qed

lemma handle_session_frame [simp]:
  "co_configs (handle_session pub c name) = co_configs c"
  "co_config (handle_session pub c name) = co_config c"
  by (simp_all add: handle_session_def Let_def)

lemma handle_session_ledger:
  assumes "wf_dict (co_ledger c)"
  shows "co_ledger (handle_session pub c name) =
    (if name = ''session.sleep'' then filter (\<lambda>(k, e). \<not> is_terminal e) (co_ledger c) else co_ledger c)"
proof -
  let ?c1 = "log_record pub c (session_record name (co_config c))"
  have "co_ledger (foldl (cleanup_one pub) ?c1 (request_ids (co_ledger c)))
      = filter (\<lambda>(k, e). \<not> (k \<in> set (request_ids (co_ledger c)) \<and> is_terminal e)) (co_ledger c)"
    using assms by (simp add: cleanup_all_filter)
  also have "\<dots> = filter (\<lambda>(k, e). \<not> is_terminal e) (co_ledger c)"
    by (intro filter_cong) (auto simp: request_ids_def image_iff)
  finally show ?thesis by (auto simp: handle_session_def Let_def)
qed

section \<open>The outcomes of the event loop\<close>

text \<open>Every normal return of \<open>handle\<close> is one of six; the invariants go by these cases.\<close>

definition is_special :: "string \<Rightarrow> bool" where
  "is_special name \<longleftrightarrow> name = ''config.changed'' \<or> name \<in> set session_events"

lemma handle_dispatch:
  assumes "validate_envelope env (cfg_inbound_events (co_config c)) = (True, r)"
    and "py_get env ''event_name'' PyNone = PyStr name"
    and "py_get env ''payload'' PyNone = PyDict pay" and "\<not> is_special name"
    and "hash_key (py_get env ''request_id'' PyNone) = Some k"
  shows "handle pub c env =
    (case ledger_get (co_ledger c) k of
       Some e \<Rightarrow>
         (if py_get env ''event_id'' PyNone = rs_last_applied_event_id e
          then Inr (log_noop pub c e (py_get env ''event_id'' PyNone) name ''duplicate'')
          else if name = ''request.received''
          then Inr (fault pub c (unmatched ''transition.unmatched:'' (rs_lifecycle_state e) name) (Some env))
          else apply_event pub c k e name env)
     | None \<Rightarrow>
         (if name = ''request.received'' then admit pub c env pay
          else Inr (fault pub c (''request.unknown:'' @ name) (Some env))))"
  using assms by (simp add: handle_def is_special_def)

lemma handle_outcome:
  assumes h: "handle pub c env = Inr c'"
  obtains (faulted) why where "c' = fault pub c why (Some env)"
  | (config) pay where "py_get env ''payload'' PyNone = PyDict pay" "handle_config pub c env pay = Inr c'"
  | (session) name where "name \<in> set session_events" "py_get env ''event_name'' PyNone = PyStr name"
      "c' = handle_session pub c name"
  | (noop) k e name where "ledger_get (co_ledger c) k = Some e"
      "name \<in> set (cfg_inbound_events (co_config c))" "\<not> is_special name"
      "c' = log_noop pub c e (py_get env ''event_id'' PyNone) name ''duplicate''"
  | (applied) k e name where "ledger_get (co_ledger c) k = Some e"
      "name \<in> set (cfg_inbound_events (co_config c))" "\<not> is_special name"
      "name \<noteq> ''request.received''"
      "py_get env ''event_id'' PyNone \<noteq> rs_last_applied_event_id e"
      "apply_event pub c k e name env = Inr c'"
  | (admitted) k pay where "hash_key (py_get env ''request_id'' PyNone) = Some k"
      "ledger_get (co_ledger c) k = None" "admit pub c env pay = Inr c'"
proof -
  obtain ok reason where v: "validate_envelope env (cfg_inbound_events (co_config c)) = (ok, reason)"
    by (cases "validate_envelope env (cfg_inbound_events (co_config c))")
  show thesis
  proof (cases ok)
    case False
    with h v have "c' = fault pub c reason (Some env)" by (simp add: handle_def)
    then show thesis by (rule faulted)
  next
    case True
    with v obtain name pay where env: "py_get env ''event_name'' PyNone = PyStr name"
        "py_get env ''payload'' PyNone = PyDict pay" "name \<in> set (cfg_inbound_events (co_config c))"
      by (auto elim!: validate_envelope_ok)
    from v True have "validate_envelope env (cfg_inbound_events (co_config c)) = (True, reason)" by simp
    note known = handle_dispatch [OF this env(1,2)]
    show thesis
    proof (cases "is_special name")
      case True
      with h v \<open>ok\<close> env config session show thesis
        by (auto simp: handle_def is_special_def split: if_splits)
    next
      case False
      with h v \<open>ok\<close> env obtain k where k: "hash_key (py_get env ''request_id'' PyNone) = Some k"
        by (auto simp: handle_def is_special_def split: option.splits)
      from known [OF False k, of pub] h show thesis
        using env False k faulted noop applied admitted
        by (cases "ledger_get (co_ledger c) k") (auto split: if_splits)
    qed
  qed
qed

end
