(* ===== verification/EventSourcing.thy ===== *)
theory EventSourcing
  imports Prelude
begin

text \<open>
  The law the kernel, the request-state manager and the workflow scheduler share: a component
  whose state changes are journaled can be rebuilt by folding its journal. \<open>step\<close> is the live
  operation, \<open>journal\<close> the records it has written, \<open>fold\<close> what recovery does with one
  record and \<open>view\<close> the part of the live state that recovery rebuilds. One-step agreement
  gives agreement of whole runs.
\<close>

locale event_sourced =
  fixes step :: "'s \<Rightarrow> 'i \<Rightarrow> 'e + 's"
    and journal :: "'s \<Rightarrow> 'r list"
    and refold :: "'v \<Rightarrow> 'r \<Rightarrow> 'f + 'v"
    and view :: "'s \<Rightarrow> 'v"
    and inv :: "'s \<Rightarrow> bool"
    and adm :: "'s \<Rightarrow> 'i \<Rightarrow> bool"
  assumes step_inv: "inv s \<Longrightarrow> adm s i \<Longrightarrow> step s i = Inr s' \<Longrightarrow> inv s'"
    and step_refold: "inv s \<Longrightarrow> adm s i \<Longrightarrow> step s i = Inr s' \<Longrightarrow>
      \<exists>rs. journal s' = journal s @ rs \<and> foldm refold (view s) rs = Inr (view s')"
begin

inductive runs :: "'s \<Rightarrow> 's \<Rightarrow> bool" where
  runs_refl: "runs s s"
| runs_step: "runs s t \<Longrightarrow> adm t i \<Longrightarrow> step t i = Inr u \<Longrightarrow> runs s u"

lemma runs_inv: "runs s t \<Longrightarrow> inv s \<Longrightarrow> inv t"
  by (induction rule: runs.induct) (auto intro: step_inv)

lemma runs_refold:
  assumes "runs s t" and "inv s"
  shows "\<exists>rs. journal t = journal s @ rs \<and> foldm refold (view s) rs = Inr (view t)"
  using assms
proof (induction rule: runs.induct)
  case (runs_refl s)
  show ?case by (intro exI [of _ "[]"]) simp
next
  case (runs_step s t i u)
  then obtain rs where rs: "journal t = journal s @ rs" "foldm refold (view s) rs = Inr (view t)"
    by blast
  from runs_step.hyps runs_step.prems have "inv t" by (blast intro: runs_inv)
  with runs_step.hyps obtain rs' where "journal u = journal t @ rs'"
      "foldm refold (view t) rs' = Inr (view u)"
    using step_refold by blast
  with rs show ?case
    by (intro exI [of _ "rs @ rs'"]) (simp add: foldm_append)
qed

lemma journal_rebuilds:
  assumes "runs s t" and "inv s" and "journal s = []"
  shows "foldm refold (view s) (journal t) = Inr (view t)"
  using runs_refold [OF assms(1,2)] assms(3) by auto

text \<open>A run driven by a list of inputs.\<close>

fun adm_all :: "'s \<Rightarrow> 'i list \<Rightarrow> bool" where
  "adm_all s [] = True"
| "adm_all s (i # is) = (adm s i \<and> (case step s i of Inl _ \<Rightarrow> True | Inr s' \<Rightarrow> adm_all s' is))"

lemma foldm_runs_from: "runs s0 s \<Longrightarrow> adm_all s is \<Longrightarrow> foldm step s is = Inr t \<Longrightarrow> runs s0 t"
  by (induction "is" arbitrary: s) (auto split: sum.splits intro: runs_step)

lemma foldm_runs: "adm_all s is \<Longrightarrow> foldm step s is = Inr t \<Longrightarrow> runs s t"
  using foldm_runs_from [OF runs_refl] by blast

end

end
