(* ===== verification/KernelReplay.thy ===== *)
theory KernelReplay
  imports Coordinator EventSourcing
begin

text \<open>
  Recovery by replay (\<open>Coordinator.recover\<close>): every logged record is recomputed against the
  rebuilt ledger and the transition table and compared in canonical form; a deviation halts.
  The boolean of \<open>replay_one\<close> is \<open>False\<close> when the record deviates.
\<close>

section \<open>Replay of one record\<close>

definition replay_deviation :: "'b publisher \<Rightarrow> 'b coord \<Rightarrow> pyval \<Rightarrow> 'b coord" where
  "replay_deviation pub c rec =
     fault pub (c\<lparr>co_halted := True\<rparr>)
       (''replay.deviation:sequence='' @ py_str (py_get rec ''sequence'' PyNone)) None"

definition append_log :: "'b coord \<Rightarrow> pyval \<Rightarrow> 'b coord" where
  "append_log c rec = c\<lparr>co_log := co_log c @ [rec]\<rparr>"

definition replay_expected :: "req_state \<Rightarrow> string \<Rightarrow> pyval \<Rightarrow> row \<Rightarrow> int \<Rightarrow> pyval" where
  "replay_expected e event rec r version =
     PyDict ([(''request_id'', py_get rec ''request_id'' PyNone),
              (''event_id'', py_get rec ''event_id'' PyNone),
              (''sequence'', PyInt (int (Suc (rs_transition_sequence e)))),
              (''prior_state'', PyStr (rs_lifecycle_state e)), (''event'', PyStr event),
              (''guard_result'', py_get rec ''guard_result'' PyNone),
              (''next_state'', PyStr (row_next r)), (''config_version'', PyInt version),
              (''emitted_events'', strs (row_emit r))]
             @ (if py_has rec ''info'' then [(''info'', py_get rec ''info'' PyNone)] else []))"

text \<open>\<open>(info or {}).get(...)\<close> raises when \<open>info\<close> is truthy and no dictionary.\<close>

definition bad_info :: "pyval \<Rightarrow> bool" where
  "bad_info rec \<longleftrightarrow> truthy (py_get rec ''info'' PyNone) \<and> \<not> is_dict (py_get rec ''info'' PyNone)"

definition reads_info :: "row \<Rightarrow> bool \<Rightarrow> bool" where
  "reads_info r republish \<longleftrightarrow> ''set_routing_target'' \<in> set (row_actions r)
     \<or> republish \<and> (''request.rejected'' \<in> set (row_emit r) \<or> ''request.failed'' \<in> set (row_emit r))"

definition replay_transition ::
  "'b publisher \<Rightarrow> (pyval \<times> int) list option \<Rightarrow> 'b coord \<Rightarrow> pyval \<Rightarrow> req_state \<Rightarrow> config \<Rightarrow> pyval \<Rightarrow> pyval
   \<Rightarrow> kernel_exn + 'b coord \<times> bool" where
  "replay_transition pub published c k e cfg event rec =
     (case event of
        PyStr ev \<Rightarrow>
          (case cfg_rows cfg (rs_lifecycle_state e) ev of
             None \<Rightarrow> Inr (replay_deviation pub c rec, False)
           | Some rows \<Rightarrow>
               (if PyStr (rs_lifecycle_state e) \<noteq> py_get rec ''prior_state'' PyNone
                   \<or> as_int (py_get rec ''sequence'' PyNone) \<noteq> Some (int (Suc (rs_transition_sequence e)))
                then Inr (replay_deviation pub c rec, False)
                else
                  let g = py_get rec ''guard_result'' PyNone;
                      r = (if truthy g then hd rows else last rows);
                      expected = replay_expected e ev rec r (cfg_version cfg);
                      republish = (case published of None \<Rightarrow> False
                                   | Some ps \<Rightarrow> (k, int (Suc (rs_transition_sequence e))) \<notin> set ps);
                      info = fields_of (py_get rec ''info'' PyNone)
                  in if json_dumps expected \<noteq> json_dumps rec
                     then Inr (replay_deviation pub c rec, False)
                     else if bad_info rec \<and> reads_info r republish then Inl AttributeError
                     else
                       let e' = advance e r ev info (py_get rec ''event_id'' PyNone);
                           c' = append_log (c\<lparr>co_ledger := ledger_put (co_ledger c) k e'\<rparr>) rec
                       in Inr (if republish
                               then publish_row pub c' e' r (row_decides r (truthy g)) cfg info
                               else c', True)))
      | _ \<Rightarrow> Inl TypeError)"

definition replay_request ::
  "'b publisher \<Rightarrow> (pyval \<times> int) list option \<Rightarrow> 'b coord \<Rightarrow> pyval \<Rightarrow> pyval \<Rightarrow> kernel_exn + 'b coord \<times> bool" where
  "replay_request pub published c event rec =
     (let rid = py_get rec ''request_id'' PyNone; ver = py_get rec ''config_version'' PyNone in
      case (hash_key rid, hash_key ver) of
        (Some k, Some _) \<Rightarrow>
          (case Option.bind (as_int ver) (dget (co_configs c)) of
             None \<Rightarrow> Inr (replay_deviation pub c rec, False)
           | Some cfg \<Rightarrow>
               (case ledger_get (co_ledger c) k of
                  Some e \<Rightarrow> replay_transition pub published c k e cfg event rec
                | None \<Rightarrow>
                    (if event \<noteq> PyStr ''request.received''
                     then Inr (replay_deviation pub c rec, False)
                     else if bad_info rec then Inl AttributeError
                     else
                       let e = new_state rid
                                 (info_get (fields_of (py_get rec ''info'' PyNone)) ''declared_type'' (PyStr []))
                                 (the (as_int ver))
                       in case ledger_create (co_ledger c) k e of
                            Inl ex \<Rightarrow> Inl ex
                          | Inr l \<Rightarrow>
                              replay_transition pub published (c\<lparr>co_ledger := l\<rparr>) k e cfg event rec)))
      | _ \<Rightarrow> Inl TypeError)"

definition replay_one ::
  "'b publisher \<Rightarrow> (pyval \<times> int) list option \<Rightarrow> 'b coord \<Rightarrow> pyval \<Rightarrow> kernel_exn + 'b coord \<times> bool" where
  "replay_one pub published c rec =
     (if \<not> is_dict rec then Inl AttributeError
      else let event = py_get rec ''event'' PyNone in
        if event = PyStr ''config.changed'' then
          (let snap = py_get rec ''snapshot'' PyNone in
           if \<not> fst (validate_config snap) then Inr (replay_deviation pub c rec, False)
           else case install c snap of
                  Inl e \<Rightarrow> Inl e
                | Inr c' \<Rightarrow> Inr (append_log c' rec, True))
        else if event \<in> PyStr ` set session_events then Inr (append_log c rec, True)
        else if event = PyStr ''__cleanup__'' then
          (case hash_key (py_get rec ''request_id'' PyNone) of
             None \<Rightarrow> Inl TypeError
           | Some k \<Rightarrow> Inr (append_log (c\<lparr>co_ledger := ledger_evict (co_ledger c) k\<rparr>) rec, True))
        else if py_has rec ''verdict'' then Inr (append_log c rec, True)
        else replay_request pub published c event rec)"

fun replay_from ::
  "'b publisher \<Rightarrow> (pyval \<times> int) list option \<Rightarrow> 'b coord \<Rightarrow> pyval list \<Rightarrow> kernel_exn + 'b coord \<times> bool" where
  "replay_from pub published c [] = Inr (c, True)"
| "replay_from pub published c (rec # recs) =
     (case replay_one pub published c rec of
        Inl e \<Rightarrow> Inl e
      | Inr (c', False) \<Rightarrow> Inr (c', False)
      | Inr (c', True) \<Rightarrow> replay_from pub published c' recs)"

definition recover ::
  "'b publisher \<Rightarrow> (pyval \<times> int) list option \<Rightarrow> 'b coord \<Rightarrow> pyval list \<Rightarrow> kernel_exn + 'b coord \<times> bool" where
  "recover pub published c records =
     replay_from pub published (c\<lparr>co_ledger := [], co_log := [], co_halted := False\<rparr>) records"

section \<open>Configurations whose decisions replay\<close>

text \<open>
  Replay re-picks a row from the logged guard result alone: the first row when it is true,
  the last when it is false. That agrees with the live choice when every row of the table is
  the one its own decision selects, and when no event name of the table collides with the
  four names recovery treats specially.
\<close>

definition special_events :: "string list" where
  "special_events = [''config.changed'', ''session.wake'', ''session.sleep'', ''__cleanup__'']"

definition rows_replay :: "row list \<Rightarrow> bool" where
  "rows_replay rows \<longleftrightarrow> rows \<noteq> [] \<and>
     (\<forall>j < length rows. (if row_decides (rows ! j) (j = 0) = ''permit'' then hd rows else last rows) = rows ! j)"

definition chain_ok :: "row \<Rightarrow> bool" where
  "chain_ok r \<longleftrightarrow> (case row_chain r of None \<Rightarrow> True | Some ch \<Rightarrow> ch \<notin> set special_events)"

definition replayable :: "config \<Rightarrow> bool" where
  "replayable cfg \<longleftrightarrow>
     ''__cleanup__'' \<notin> set (cfg_inbound_events cfg)
     \<and> list_all (\<lambda>(_, rows). rows_replay rows \<and> list_all chain_ok rows) (cfg_transitions cfg)"

lemma rows_replay_code [code]:
  "rows_replay rows \<longleftrightarrow> rows \<noteq> [] \<and>
     list_all (\<lambda>j. (if row_decides (rows ! j) (j = 0) = ''permit'' then hd rows else last rows) = rows ! j)
       [0..<length rows]"
  by (auto simp: rows_replay_def list_all_iff)

lemma replayable_default: "replayable default_config"
  by code_simp

lemma replayable_rows:
  assumes "replayable cfg" and "cfg_rows cfg st ev = Some rows"
  shows "rows_replay rows" and "r \<in> set rows \<Longrightarrow> chain_ok r"
  using assms by (auto simp: replayable_def cfg_rows_def list_all_iff dest!: map_of_SomeD)

lemma replayable_pick:
  assumes "replayable cfg" and "cfg_rows cfg st ev = Some rows" and "pick_row rows e cfg = Inr (Some (r, g))"
  shows "(if g then hd rows else last rows) = r"
  using replayable_rows(1) [OF assms(1,2)] assms(3)
  by (elim pick_row_Some) (auto simp: rows_replay_def)

section \<open>Fields of the records the coordinator writes\<close>

lemma transition_record_fields [simp]:
  "is_dict (transition_record e ev eid r g v info)"
  "py_get (transition_record e ev eid r g v info) ''request_id'' d = rs_request_id e"
  "py_get (transition_record e ev eid r g v info) ''event_id'' d = eid"
  "py_get (transition_record e ev eid r g v info) ''sequence'' d = PyInt (int (Suc (rs_transition_sequence e)))"
  "py_get (transition_record e ev eid r g v info) ''prior_state'' d = PyStr (rs_lifecycle_state e)"
  "py_get (transition_record e ev eid r g v info) ''event'' d = PyStr ev"
  "py_get (transition_record e ev eid r g v info) ''guard_result'' d = g"
  "py_get (transition_record e ev eid r g v info) ''config_version'' d = PyInt v"
  "py_get (transition_record e ev eid r g v info) ''info'' d = (if info = [] then d else PyDict info)"
  "py_has (transition_record e ev eid r g v info) ''info'' \<longleftrightarrow> info \<noteq> []"
  "\<not> py_has (transition_record e ev eid r g v info) ''verdict''"
  by (simp_all add: transition_record_def)

lemma replay_expected_transition_record [simp]:
  "replay_expected e ev (transition_record e ev eid r g v info) r v = transition_record e ev eid r g v info"
  by (simp add: replay_expected_def) (simp add: transition_record_def)

lemma bad_info_transition_record [simp]: "\<not> bad_info (transition_record e ev eid r g v info)"
  by (simp add: bad_info_def)

lemma fields_info [simp]:
  "fields_of (py_get (transition_record e ev eid r g v info) ''info'' PyNone) = info"
  by simp

text \<open>One record replays to exactly the entry the live transition left.\<close>

lemma replay_transition_ok:
  assumes "cfg_rows cfg (rs_lifecycle_state e) ev = Some rows"
    and "(if g then hd rows else last rows) = r"
    and "rec = transition_record e ev eid r (PyBool g) (cfg_version cfg) info"
  shows "replay_transition pub None c k e cfg (PyStr ev) rec
    = Inr (append_log (c\<lparr>co_ledger := ledger_put (co_ledger c) k (advance e r ev info eid)\<rparr>) rec, True)"
  using assms by (simp add: replay_transition_def Let_def)

section \<open>The log rebuilds the ledger\<close>

text \<open>What recovery on a coordinator \<open>c0\<close> must reach from the log of \<open>c\<close>.\<close>

definition recovered :: "'b coord \<Rightarrow> 'b coord \<Rightarrow> 'b coord" where
  "recovered c0 c = c0\<lparr>co_ledger := co_ledger c, co_halted := False, co_log := co_log c,
                        co_configs := co_configs c, co_config := co_config c\<rparr>"

lemma recovered_frame [simp]:
  "co_ledger (recovered c0 c) = co_ledger c"
  "co_log (recovered c0 c) = co_log c"
  "co_configs (recovered c0 c) = co_configs c"
  "co_config (recovered c0 c) = co_config c"
  by (simp_all add: recovered_def)

definition kernel_refold :: "'b publisher \<Rightarrow> 'b coord \<Rightarrow> pyval \<Rightarrow> kernel_exn option + 'b coord" where
  "kernel_refold pub c rec =
     (case replay_one pub None c rec of
        Inl e \<Rightarrow> Inl (Some e)
      | Inr (c', ok) \<Rightarrow> (if ok then Inr c' else Inl None))"

definition coord_inv :: "'b coord \<Rightarrow> bool" where
  "coord_inv c \<longleftrightarrow>
     (\<forall>k e. ledger_get (co_ledger c) k = Some e \<longrightarrow>
        rs_request_id e = k \<and> hash_key k = Some k \<and> dget (co_configs c) (rs_config_version e) \<noteq> None)
     \<and> (\<forall>v cfg. dget (co_configs c) v = Some cfg \<longrightarrow> cfg_version cfg = v \<and> replayable cfg)
     \<and> dget (co_configs c) (cfg_version (co_config c)) = Some (co_config c)"

text \<open>Inputs whose snapshot, when one is accepted, keeps decisions replayable.\<close>

definition replayable_env :: "pyval \<Rightarrow> bool" where
  "replayable_env env = snapshot_ok replayable env"

lemma replay_from_foldm:
  "foldm (kernel_refold pub) c recs = Inr c' \<Longrightarrow> replay_from pub None c recs = Inr (c', True)"
  by (induction recs arbitrary: c)
    (auto simp: kernel_refold_def split: sum.splits prod.splits if_splits bool.splits)

lemma coord_inv_entry:
  assumes "coord_inv c" and "ledger_get (co_ledger c) k = Some e"
  shows "rs_request_id e = k" and "hash_key k = Some k"
    and "dget (co_configs c) (rs_config_version e) = Some (entry_config c e)"
    and "cfg_version (entry_config c e) = rs_config_version e"
    and "replayable (entry_config c e)"
  using assms by (auto simp: coord_inv_def entry_config_def split: option.splits)

lemma coord_inv_config:
  assumes "coord_inv c"
  shows "dget (co_configs c) (cfg_version (co_config c)) = Some (co_config c)"
    and "replayable (co_config c)"
  using assms by (auto simp: coord_inv_def)

lemma coord_inv_same_ledger:
  assumes "coord_inv c" and "co_ledger c' = co_ledger c" and "co_configs c' = co_configs c"
    and "co_config c' = co_config c"
  shows "coord_inv c'"
  using assms by (simp add: coord_inv_def)

lemma coord_inv_put:
  assumes "coord_inv c" and "co_ledger c' = ledger_put (co_ledger c) k e"
    and "co_configs c' = co_configs c" and "co_config c' = co_config c"
    and "rs_request_id e = k" and "hash_key k = Some k"
    and "dget (co_configs c) (rs_config_version e) \<noteq> None"
  shows "coord_inv c'"
  using assms by (auto simp: coord_inv_def dict_simps)

lemma coord_inv_transition:
  assumes "coord_inv c" and "ledger_get (co_ledger c) k = Some e"
  shows "coord_inv (transition pub c k e ev eid r g cfg info)"
  by (rule coord_inv_put [OF assms(1), where k = k
        and e = "advance e r ev (filter (\<lambda>(_, v). truthy v) info) eid"])
    (use coord_inv_entry [OF assms] in simp_all)

lemma coord_inv_evict:
  assumes "coord_inv c" and "co_ledger c' = ledger_evict (co_ledger c) k"
    and "co_configs c' = co_configs c" and "co_config c' = co_config c"
  shows "coord_inv c'"
  using assms by (auto simp: coord_inv_def dict_simps split: if_splits)

lemma coord_inv_install:
  assumes "coord_inv c" and "install c snap = Inr c'"
    and "\<And>cfg. config_view snap = Inr cfg \<Longrightarrow> replayable cfg"
  shows "coord_inv c'"
  using assms by (auto simp: coord_inv_def install_def dict_simps split: sum.splits if_splits)

section \<open>Each handler is replayed by the records it logs\<close>

definition replays :: "'b publisher \<Rightarrow> 'b coord \<Rightarrow> 'b coord \<Rightarrow> 'b coord \<Rightarrow> bool" where
  "replays pub c0 c c' \<longleftrightarrow>
     (\<exists>rs. co_log c' = co_log c @ rs
        \<and> foldm (kernel_refold pub) (recovered c0 c) rs = Inr (recovered c0 c'))"

lemma replays_refl:
  assumes "co_ledger c' = co_ledger c" and "co_log c' = co_log c"
    and "co_configs c' = co_configs c" and "co_config c' = co_config c"
  shows "replays pub c0 c c'"
  unfolding replays_def using assms by (intro exI [of _ "[]"]) (simp add: recovered_def)

lemma replays_trans:
  assumes "replays pub c0 c c1" and "replays pub c0 c1 c2"
  shows "replays pub c0 c c2"
proof -
  from assms obtain rs rs' where
      "co_log c1 = co_log c @ rs" "foldm (kernel_refold pub) (recovered c0 c) rs = Inr (recovered c0 c1)"
      "co_log c2 = co_log c1 @ rs'" "foldm (kernel_refold pub) (recovered c0 c1) rs' = Inr (recovered c0 c2)"
    by (auto simp: replays_def)
  then show ?thesis
    unfolding replays_def by (intro exI [of _ "rs @ rs'"]) (simp add: foldm_append)
qed

lemma replays_one:
  assumes "co_log c' = co_log c @ [rec]"
    and "replay_one pub None (recovered c0 c) rec = Inr (recovered c0 c', True)"
  shows "replays pub c0 c c'"
  unfolding replays_def using assms
  by (intro exI [of _ "[rec]"]) (simp add: kernel_refold_def)

lemma append_log_recovered:
  assumes "co_log c' = co_log c @ [rec]" and "co_configs c' = co_configs c"
    and "co_config c' = co_config c" and "co_ledger c' = l"
  shows "append_log ((recovered c0 c)\<lparr>co_ledger := l\<rparr>) rec = recovered c0 c'"
  using assms by (simp add: append_log_def recovered_def)

text \<open>A request transition under the configuration the record names.\<close>

lemma replays_transition:
  assumes inv: "coord_inv c"
    and entry: "ledger_get (co_ledger c) k = Some e"
    and cfg: "dget (co_configs c) (cfg_version cfg) = Some cfg"
    and rows: "cfg_rows cfg (rs_lifecycle_state e) ev = Some rows"
    and row: "(if g then hd rows else last rows) = r"
    and ev: "ev \<notin> set special_events"
    and c': "co_ledger c' = ledger_put (co_ledger c) k (advance e r ev info eid)"
      "co_log c' = co_log c @ [transition_record e ev eid r (PyBool g) (cfg_version cfg) info]"
      "co_configs c' = co_configs c" "co_config c' = co_config c"
  shows "replays pub c0 c c'"
proof (rule replays_one [OF c'(2)])
  let ?rec = "transition_record e ev eid r (PyBool g) (cfg_version cfg) info"
  from ev have "ev \<noteq> ''config.changed''" "ev \<notin> set session_events" "ev \<noteq> ''__cleanup__''"
    by (auto simp: special_events_def session_events_def)
  then have "replay_one pub None (recovered c0 c) ?rec
      = replay_request pub None (recovered c0 c) (PyStr ev) ?rec"
    by (auto simp: replay_one_def Let_def)
  also have "\<dots> = replay_transition pub None (recovered c0 c) k e cfg (PyStr ev) ?rec"
    using coord_inv_entry(1,2) [OF inv entry] entry cfg
    by (simp add: replay_request_def Let_def)
  also have "\<dots> = Inr (recovered c0 c', True)"
    using replay_transition_ok [OF rows row refl, of pub "recovered c0 c" k eid info]
      append_log_recovered [OF c'(2,3,4,1), of c0]
    by simp
  finally show "replay_one pub None (recovered c0 c) ?rec = Inr (recovered c0 c', True)" .
qed

text \<open>The admission record also creates the entry.\<close>

lemma replays_birth:
  assumes fresh: "ledger_get (co_ledger c) k = None"
    and cfg: "dget (co_configs c) (cfg_version cfg) = Some cfg"
    and e: "e = new_state k (PyStr dtype) (cfg_version cfg)" and k: "hash_key k = Some k"
    and rows: "cfg_rows cfg ''created'' ''request.received'' = Some rows"
    and row: "(if g then hd rows else last rows) = r"
    and info: "info_get info ''declared_type'' (PyStr []) = PyStr dtype"
    and c': "co_ledger c' = ledger_put (dset k e (co_ledger c)) k (advance e r ''request.received'' info eid)"
      "co_log c' = co_log c @ [transition_record e ''request.received'' eid r (PyBool g) (cfg_version cfg) info]"
      "co_configs c' = co_configs c" "co_config c' = co_config c"
  shows "replays pub c0 c c'"
proof (rule replays_one [OF c'(2)])
  let ?rec = "transition_record e ''request.received'' eid r (PyBool g) (cfg_version cfg) info"
  let ?c1 = "(recovered c0 c)\<lparr>co_ledger := dset k e (co_ledger c)\<rparr>"
  have "replay_one pub None (recovered c0 c) ?rec
      = replay_request pub None (recovered c0 c) (PyStr ''request.received'') ?rec"
    by (auto simp: replay_one_def Let_def session_events_def)
  also have "\<dots> = replay_transition pub None ?c1 k e cfg (PyStr ''request.received'') ?rec"
    using fresh cfg k info unfolding e
    by (cases "info = []") (simp_all add: replay_request_def Let_def ledger_create_def ledger_get_def)
  also have "\<dots> = Inr (append_log ((?c1)\<lparr>co_ledger := co_ledger c'\<rparr>) ?rec, True)"
    using replay_transition_ok [of cfg e "''request.received''" rows g r ?rec eid info pub ?c1 k] rows row c'(1)
    by (simp add: e)
  also have "\<dots> = Inr (recovered c0 c', True)"
    using append_log_recovered [OF c'(2,3,4) refl, of c0] by simp
  finally show "replay_one pub None (recovered c0 c) ?rec = Inr (recovered c0 c', True)" .
qed

lemma replays_noop:
  assumes "name \<notin> set special_events" and "c' = log_noop pub c e eid name v"
  shows "replays pub c0 c c'"
proof -
  let ?rec = "PyDict
       [(''request_id'', rs_request_id e), (''event_id'', eid),
        (''sequence'', PyInt (int (rs_transition_sequence e))),
        (''prior_state'', PyStr (rs_lifecycle_state e)), (''event'', PyStr name),
        (''guard_result'', PyBool False), (''next_state'', PyStr (rs_lifecycle_state e)),
        (''config_version'', PyInt (rs_config_version e)), (''emitted_events'', PyList []),
        (''verdict'', PyStr v)]"
  have log: "co_log c' = co_log c @ [?rec]"
    using assms(2) by (simp add: log_noop_def)
  have "replay_one pub None (recovered c0 c) ?rec = Inr (append_log (recovered c0 c) ?rec, True)"
    using assms(1) by (auto simp: replay_one_def Let_def special_events_def session_events_def)
  moreover have "append_log (recovered c0 c) ?rec = recovered c0 c'"
    using log assms(2) by (simp add: append_log_def recovered_def)
  ultimately show ?thesis using log by (intro replays_one) simp_all
qed

lemma replays_cleanup_one:
  assumes "hash_key k = Some k"
  shows "replays pub c0 c (cleanup_one pub c k)"
proof (cases "\<exists>e. ledger_get (co_ledger c) k = Some e \<and> is_terminal e")
  case False
  then have "cleanup_one pub c k = c"
    by (auto simp: cleanup_one_def split: option.splits)
  then show ?thesis by (simp add: replays_refl)
next
  case True
  then obtain e where e: "ledger_get (co_ledger c) k = Some e" "is_terminal e" by blast
  let ?c' = "cleanup_one pub c k"
  have c': "co_log ?c' = co_log c @ [cleanup_record k e]" "co_configs ?c' = co_configs c"
      "co_config ?c' = co_config c" "co_ledger ?c' = ledger_evict (co_ledger c) k"
    using e by (simp_all add: cleanup_one_def Let_def)
  have "replay_one pub None (recovered c0 c) (cleanup_record k e)
      = Inr (append_log ((recovered c0 c)\<lparr>co_ledger := ledger_evict (co_ledger c) k\<rparr>) (cleanup_record k e), True)"
    using assms by (auto simp: replay_one_def Let_def cleanup_record_def session_events_def)
  then show ?thesis
    using append_log_recovered [OF c', of c0] c'(1) by (intro replays_one) simp_all
qed

lemma replays_session:
  assumes inv: "coord_inv c" and name: "name \<in> set session_events" and c': "c' = handle_session pub c name"
  shows "replays pub c0 c c' \<and> coord_inv c'"
proof -
  let ?c1 = "log_record pub c (session_record name (co_config c))"
  have one: "replays pub c0 c ?c1"
    using name by (intro replays_one [where rec = "session_record name (co_config c)"])
      (auto simp: replay_one_def Let_def session_record_def session_events_def append_log_def recovered_def)
  have inv1: "coord_inv ?c1" by (rule coord_inv_same_ledger [OF inv]) simp_all
  have evict: "co_ledger (cleanup_one pub c2 k) = co_ledger c2
      \<or> co_ledger (cleanup_one pub c2 k) = ledger_evict (co_ledger c2) k" for c2 :: "'a coord" and k
    by (auto simp: cleanup_one_def Let_def split: option.splits)
  have step_inv: "coord_inv c2 \<Longrightarrow> coord_inv (cleanup_one pub c2 k)" for c2 :: "'a coord" and k
    using evict [of c2 k] coord_inv_same_ledger [of c2 "cleanup_one pub c2 k"]
      coord_inv_evict [of c2 "cleanup_one pub c2 k" k] by fastforce
  have many: "\<forall>k \<in> set ks. hash_key k = Some k \<Longrightarrow> coord_inv c2 \<Longrightarrow>
      replays pub c0 c2 (foldl (cleanup_one pub) c2 ks) \<and> coord_inv (foldl (cleanup_one pub) c2 ks)"
    for ks and c2 :: "'a coord"
  proof (induction ks arbitrary: c2)
    case Nil
    then show ?case by (simp add: replays_refl)
  next
    case (Cons k ks)
    then show ?case
      using replays_cleanup_one [of k pub c0 c2] step_inv [of c2 k] by (auto intro: replays_trans)
  qed
  have keys: "\<forall>k \<in> set (request_ids (co_ledger ?c1)). hash_key k = Some k"
  proof
    fix k assume "k \<in> set (request_ids (co_ledger ?c1))"
    then have "k \<in> fst ` set (co_ledger c)" by (simp add: request_ids_def)
    then obtain e where "ledger_get (co_ledger c) k = Some e"
      unfolding ledger_get_def by (metis map_of_eq_None_iff option.exhaust)
    with inv show "hash_key k = Some k" by (rule coord_inv_entry(2))
  qed
  show ?thesis
    using many [OF keys inv1] one inv1
    by (auto simp: c' handle_session_def Let_def intro: replays_trans)
qed

lemma config_view_validate: "config_view snap = Inr cfg \<Longrightarrow> validate_config snap = (True, r) \<or> fst (validate_config snap)"
  by (auto simp: config_view_def split: prod.splits bool.splits)

lemma replays_config:
  assumes inv: "coord_inv c" and h: "handle_config pub c env pay = Inr c'"
    and adm: "\<And>cfg. config_view (py_get (PyDict pay) ''snapshot'' PyNone) = Inr cfg \<Longrightarrow> replayable cfg"
  shows "replays pub c0 c c' \<and> coord_inv c'"
proof -
  let ?snap = "py_get (PyDict pay) ''snapshot'' PyNone"
  obtain ok reason where v: "validate_config ?snap = (ok, reason)" by (cases "validate_config ?snap")
  show ?thesis
  proof (cases ok)
    case False
    with h v have "c' = fault pub c (''config.invalid:'' @ reason) (Some env)"
      by (simp add: handle_config_def Let_def)
    then show ?thesis
      using inv by (auto intro: replays_refl coord_inv_same_ledger)
  next
    case True
    let ?rec = "PyDict
       [(''request_id'', PyNone), (''sequence'', PyInt 0), (''prior_state'', PyNone),
        (''event'', PyStr ''config.changed''), (''guard_result'', PyBool True),
        (''next_state'', PyNone), (''config_version'', py_get ?snap ''version'' PyNone),
        (''emitted_events'', PyList []), (''snapshot'', ?snap)]"
    from h v True obtain c1 where c1: "install c ?snap = Inr c1" and c': "c' = log_record pub c1 ?rec"
      by (auto simp: handle_config_def Let_def split: sum.splits)
    from c1 obtain cfg where cfg: "config_view ?snap = Inr cfg"
        and c1': "c1 = c\<lparr>co_configs := dset (cfg_version cfg) cfg (co_configs c), co_config := cfg\<rparr>"
      by (auto simp: install_def split: sum.splits)
    have "install (recovered c0 c) ?snap = Inr (recovered c0 c1)"
      using cfg c1' by (simp add: install_def recovered_def)
    then have "replay_one pub None (recovered c0 c) ?rec = Inr (append_log (recovered c0 c1) ?rec, True)"
      using v True by (simp add: replay_one_def Let_def)
    moreover have "append_log (recovered c0 c1) ?rec = recovered c0 c'"
      unfolding c' by (simp add: append_log_def recovered_def)
    ultimately have "replays pub c0 c c'"
      using c1' by (intro replays_one [where rec = ?rec]) (simp_all add: c')
    moreover have "coord_inv c'"
      using coord_inv_install [OF inv c1 adm] coord_inv_same_ledger [of c1 c'] by (simp add: c')
    ultimately show ?thesis ..
  qed
qed

lemma replays_apply:
  assumes inv: "coord_inv c" and entry: "ledger_get (co_ledger c) k = Some e"
    and ev: "ev \<notin> set special_events" and h: "apply_event pub c k e ev env = Inr c'"
  shows "replays pub c0 c c' \<and> coord_inv c'"
  using h
proof (cases rule: apply_event_outcome)
  case (faulted why)
  then show ?thesis using inv by (auto intro: replays_refl coord_inv_same_ledger)
next
  case (moved rows r g)
  let ?cfg = "entry_config c e" and ?eid = "py_get env ''event_id'' PyNone"
  note ent = coord_inv_entry [OF inv entry]
  have "replays pub c0 c c'"
    by (rule replays_transition [OF inv entry, where cfg = ?cfg and info = "[]" and rows = rows and r = r])
      (use ent moved ev replayable_pick [OF ent(5) moved(1,2)] in simp_all)
  moreover have "coord_inv c'"
    by (rule coord_inv_put [OF inv, where k = k and e = "advance e r ev [] ?eid"])
      (use ent in \<open>simp_all add: moved(3)\<close>)
  ultimately show ?thesis ..
qed

lemma replays_admitted_state:
  assumes inv: "coord_inv c" and rid: "rid = PyStr (x # xs)"
    and fresh: "ledger_get (co_ledger c) rid = None"
    and rows: "cfg_rows (co_config c) ''created'' ''request.received'' = Some rows"
  shows "replays pub c0 c (admitted_state pub c rid eid pay rows)
       \<and> coord_inv (admitted_state pub c rid eid pay rows)"
proof -
  let ?e = "birth_entry c rid pay" and ?c1 = "admitted_state pub c rid eid pay rows"
  note cfg = coord_inv_config [OF inv]
  have "replays pub c0 c ?c1"
    by (rule replays_birth [where k = rid and e = ?e and cfg = "co_config c" and dtype = "birth_type pay"
          and rows = rows and g = "fst (birth_decision c pay)" and r = "birth_row c pay rows"
          and info = "birth_info c pay" and eid = eid, OF fresh cfg(1) birth_entry_def _ rows _ birth_info_type])
      (simp_all only: rid hash_key.simps birth_row_def admitted_state_frame)
  moreover have "coord_inv (c\<lparr>co_ledger := ledger_put (co_ledger c) rid ?e\<rparr>)"
    by (rule coord_inv_put [OF inv, where k = rid and e = ?e]) (simp_all add: rid cfg)
  then have "coord_inv ?c1"
    unfolding admitted_state_def ledger_put_def [symmetric]
    by (rule coord_inv_transition) (simp add: dict_simps)
  ultimately show ?thesis ..
qed

lemma replays_admit_chain:
  assumes inv: "coord_inv c1" and cfg: "dget (co_configs c1) (cfg_version cfg) = Some cfg"
    and rid: "rid = PyStr (x # xs)" and ev: "chain \<notin> set special_events"
    and h: "admit_chain pub c1 rid eid chain dtype cfg = Inr c'"
  shows "replays pub c0 c1 c' \<and> coord_inv c'"
  using h
proof (cases rule: admit_chain_outcome)
  case (1 e rows target reason)
  have "replays pub c0 c1 c'"
    unfolding 1(4)
    by (rule replays_transition [OF inv 1(1) cfg 1(2) refl ev]) (rule transition_frame)+
  moreover have "coord_inv c'"
    unfolding 1(4) by (rule coord_inv_transition [OF inv 1(1)])
  ultimately show ?thesis ..
qed

lemma replays_admit:
  assumes inv: "coord_inv c" and h: "admit pub c env pay = Inr c'"
    and fresh: "\<forall>k. hash_key (py_get env ''request_id'' PyNone) = Some k \<longrightarrow> ledger_get (co_ledger c) k = None"
  shows "replays pub c0 c c' \<and> coord_inv c'"
  using h fresh
proof (cases rule: admit_outcome)
  case missing
  then show ?thesis using inv by (auto intro: replays_refl coord_inv_same_ledger)
next
  case (born x xs rows)
  with fresh have "ledger_get (co_ledger c) (PyStr (x # xs)) = None" by simp
  from replays_admitted_state [OF inv refl this born(2), of pub c0] show ?thesis by (simp add: born(3))
next
  case (chained x xs rows y ys)
  let ?rid = "PyStr (x # xs)"
  let ?c1 = "admitted_state pub c ?rid (py_get env ''event_id'' PyNone) pay rows"
  note cfg = coord_inv_config [OF inv]
  from fresh chained have one: "replays pub c0 c ?c1" "coord_inv ?c1"
    using replays_admitted_state [OF inv refl _ chained(2)] by auto
  have same: "co_configs ?c1 = co_configs c" by simp
  have "hd rows \<in> set rows"
    using replayable_rows(1) [OF cfg(2) chained(2)] by (simp add: rows_replay_def)
  then have "y # ys \<notin> set special_events"
    using replayable_rows(2) [OF cfg(2) chained(2)] chained(4) by (fastforce simp: chain_ok_def)
  then have "replays pub c0 ?c1 c' \<and> coord_inv c'"
    using replays_admit_chain [OF one(2) _ refl _ chained(5)] cfg(1) same by simp
  with one(1) show ?thesis by (blast intro: replays_trans)
qed

lemma not_special_event:
  assumes "coord_inv c" and "name \<in> set (cfg_inbound_events (co_config c))" and "\<not> is_special name"
  shows "name \<notin> set special_events"
  using assms coord_inv_config(2) [OF assms(1)]
  by (auto simp: replayable_def is_special_def special_events_def session_events_def)

lemma replays_handle:
  assumes inv: "coord_inv c" and adm: "replayable_env env" and h: "handle pub c env = Inr c'"
  shows "replays pub c0 c c' \<and> coord_inv c'"
  using h
proof (cases rule: handle_outcome)
  case (faulted why)
  then show ?thesis using inv by (auto intro: replays_refl coord_inv_same_ledger)
next
  case (config pay)
  then have "config_view (py_get (PyDict pay) ''snapshot'' PyNone) = Inr cfg \<Longrightarrow> replayable cfg" for cfg
    using adm by (auto simp: replayable_env_def snapshot_okD)
  with inv config(2) show ?thesis by (rule replays_config)
next
  case (session name)
  then show ?thesis by (intro replays_session [OF inv]) auto
next
  case (noop k e name)
  then have "replays pub c0 c c'" by (intro replays_noop not_special_event [OF inv])
  moreover have "coord_inv c'" by (rule coord_inv_same_ledger [OF inv]) (simp_all add: noop)
  ultimately show ?thesis ..
next
  case (applied k e name)
  then show ?thesis using replays_apply [OF inv applied(1) _ applied(6)] not_special_event [OF inv] by blast
next
  case (admitted k pay)
  then have "\<forall>k. hash_key (py_get env ''request_id'' PyNone) = Some k \<longrightarrow> ledger_get (co_ledger c) k = None"
    by simp
  with inv admitted(3) show ?thesis by (rule replays_admit)
qed

interpretation kernel_log: event_sourced "handle pub" co_log "kernel_refold pub" "recovered c0"
  coord_inv "\<lambda>_. replayable_env" for pub c0
  by unfold_locales (auto dest: replays_handle simp: replays_def)

lemma init_coord_inv:
  assumes "coord_init b data now = Inr c" and "\<forall>cfg. config_view data = Inr cfg \<longrightarrow> replayable cfg"
  shows "coord_inv c"
  using assms
  by (auto simp: coord_init_def install_def coord_blank_def coord_inv_def ledger_get_def
      split: sum.splits if_splits)

lemma init_recovered:
  assumes "coord_init b data now = Inr c0" and "coord_init b' data now' = Inr r0"
  shows "recovered r0 c0 = r0\<lparr>co_ledger := [], co_log := [], co_halted := False\<rparr>"
  using assms
  by (auto simp: coord_init_def install_def coord_blank_def recovered_def split: sum.splits)

end
