(* ===== verification/KernelSafety.thy ===== *)
theory KernelSafety
  imports Coordinator
begin

text \<open>
  Invariants of every ledger entry over runs of the event loop. The locale
  \<open>entry_invariant\<close> is the contract between the loop and one invariant: the invariant
  holds of an entry after its admission row, after a chained routing row and after a picked
  row, for every configuration of a class \<open>Q\<close>. Its lemmas lift that to \<open>handle\<close> and to
  runs; the completion gate, the replan bound and the lifecycle invariant are its
  interpretations.
\<close>

section \<open>Entry invariants\<close>

definition entries_ok :: "(req_state \<Rightarrow> bool) \<Rightarrow> (config \<Rightarrow> bool) \<Rightarrow> 'b coord \<Rightarrow> bool" where
  "entries_ok P Q c \<longleftrightarrow>
     (\<forall>k e. ledger_get (co_ledger c) k = Some e \<longrightarrow> P e) \<and> Q (co_config c)
     \<and> (\<forall>v cfg. dget (co_configs c) v = Some cfg \<longrightarrow> Q cfg)"

lemma entries_ok_same:
  assumes "entries_ok P Q c" and "co_ledger c' = co_ledger c" and "co_configs c' = co_configs c"
    and "co_config c' = co_config c"
  shows "entries_ok P Q c'"
  using assms by (simp add: entries_ok_def)

lemma entries_ok_put:
  assumes "entries_ok P Q c" and "co_ledger c' = ledger_put l k e"
    and "\<And>k' e'. k' \<noteq> k \<Longrightarrow> ledger_get l k' = Some e' \<Longrightarrow> ledger_get (co_ledger c) k' = Some e'"
    and "co_configs c' = co_configs c" and "co_config c' = co_config c" and "P e"
  shows "entries_ok P Q c'"
  using assms by (auto simp: entries_ok_def dict_simps)

lemma entries_ok_config: "entries_ok P Q c \<Longrightarrow> Q (entry_config c e)"
  by (auto simp: entries_ok_def entry_config_def split: option.splits)

lemma entries_ok_cleanup: "entries_ok P Q c \<Longrightarrow> entries_ok P Q (cleanup_one pub c k)"
  by (auto simp: entries_ok_def cleanup_one_ledger dict_simps split: option.splits if_splits)

lemma entries_ok_cleanup_all: "entries_ok P Q c \<Longrightarrow> entries_ok P Q (foldl (cleanup_one pub) c ks)"
  by (induction ks arbitrary: c) (auto intro: entries_ok_cleanup)

lemma entries_ok_session: "entries_ok P Q c \<Longrightarrow> entries_ok P Q (handle_session pub c name)"
  by (auto simp: handle_session_def Let_def intro!: entries_ok_cleanup_all intro: entries_ok_same)

lemma entries_ok_config_step:
  assumes "entries_ok P Q c" and "handle_config pub c env pay = Inr c'"
    and "\<And>cfg. config_view (py_get (PyDict pay) ''snapshot'' PyNone) = Inr cfg \<Longrightarrow> Q cfg"
  shows "entries_ok P Q c'"
  using assms(2)
  by (cases rule: handle_config_outcome)
    (use assms(1,3) in \<open>auto simp: entries_ok_def dict_simps split: if_splits\<close>)

locale entry_invariant =
  fixes P :: "req_state \<Rightarrow> bool"
    and Q :: "config \<Rightarrow> bool"
  assumes born: "Q cfg \<Longrightarrow> cfg_rows cfg ''created'' ''request.received'' = Some rows \<Longrightarrow>
      r = hd rows \<or> r = last rows \<Longrightarrow>
      P (advance (new_state rid dt (cfg_version cfg)) r ''request.received'' info eid)"
    and chained: "Q cfg \<Longrightarrow> cfg_rows cfg ''created'' ''request.received'' = Some rows0 \<Longrightarrow>
      row_chain (hd rows0) = Some ch \<Longrightarrow> P e \<Longrightarrow> cfg_rows cfg (rs_lifecycle_state e) ch = Some rows \<Longrightarrow>
      r = hd rows \<or> r = last rows \<Longrightarrow> P (advance e r ch info eid)"
    and picked: "Q cfg \<Longrightarrow> P e \<Longrightarrow> cfg_rows cfg (rs_lifecycle_state e) ev = Some rows \<Longrightarrow>
      pick_row rows e cfg = Inr (Some (r, g)) \<Longrightarrow> P (advance e r ev [] eid)"
begin

lemma admitted_state_ok:
  assumes "entries_ok P Q c" and "cfg_rows (co_config c) ''created'' ''request.received'' = Some rows"
  shows "entries_ok P Q (admitted_state pub c rid eid pay rows)"
proof -
  have "P (advance (birth_entry c rid pay) (birth_row c pay rows) ''request.received'' (birth_info c pay) eid)"
    unfolding birth_entry_def by (rule born) (use assms in \<open>auto simp: entries_ok_def birth_row_def\<close>)
  then show ?thesis
    by (rule entries_ok_put [OF assms(1) admitted_state_frame(1), rotated 3])
      (simp_all add: dict_simps ledger_get_def)
qed

lemma admit_chain_ok:
  assumes ok: "entries_ok P Q c1" and cfg: "cfg = co_config c1"
    and rows0: "cfg_rows cfg ''created'' ''request.received'' = Some rows0" "row_chain (hd rows0) = Some ch"
    and h: "admit_chain pub c1 rid eid ch dtype cfg = Inr c'"
  shows "entries_ok P Q c'"
  using h
proof (cases rule: admit_chain_outcome)
  case (1 e rows target reason)
  let ?r = "if target \<noteq> None then hd rows else last rows"
  have "P (advance e ?r ch (filter (\<lambda>(_, v). truthy v) (routing_info target reason)) eid)"
    by (rule chained [of cfg rows0]) (use ok cfg rows0 1 in \<open>auto simp: entries_ok_def\<close>)
  then show ?thesis
    unfolding 1(4) by (rule entries_ok_put [OF ok transition_frame(1), rotated 3]) simp_all
qed

lemma apply_event_ok:
  assumes ok: "entries_ok P Q c" and e: "ledger_get (co_ledger c) k = Some e"
    and h: "apply_event pub c k e ev env = Inr c'"
  shows "entries_ok P Q c'"
  using h
proof (cases rule: apply_event_outcome)
  case (faulted why)
  then show ?thesis using ok by (auto intro: entries_ok_same)
next
  case (moved rows r g)
  have "P (advance e r ev [] (py_get env ''event_id'' PyNone))"
    using ok e by (intro picked [OF entries_ok_config [OF ok] _ moved(1,2)]) (auto simp: entries_ok_def)
  then show ?thesis
    unfolding moved(3) by (intro entries_ok_put [OF ok transition_frame(1)]) simp_all
qed

lemma handle_ok:
  assumes ok: "entries_ok P Q c" and adm: "snapshot_ok Q env" and h: "handle pub c env = Inr c'"
  shows "entries_ok P Q c'"
  using h
proof (cases rule: handle_outcome)
  case (faulted why)
  then show ?thesis using ok by (auto intro: entries_ok_same)
next
  case (config pay)
  then show ?thesis using entries_ok_config_step [OF ok] snapshot_okD [OF adm] by blast
next
  case (session name)
  then show ?thesis using ok by (simp add: entries_ok_session)
next
  case (noop k e name)
  then show ?thesis using ok by (auto intro: entries_ok_same)
next
  case (applied k e name)
  then show ?thesis using apply_event_ok [OF ok] by simp
next
  case (admitted k pay)
  from admitted(1,2) have
    "\<forall>k. hash_key (py_get env ''request_id'' PyNone) = Some k \<longrightarrow> ledger_get (co_ledger c) k = None"
    by simp
  with admitted(3) show ?thesis
  proof (cases rule: admit_outcome)
    case missing
    then show ?thesis using ok by (auto intro: entries_ok_same)
  next
    case (born x xs rows)
    then show ?thesis using ok by (simp add: admitted_state_ok)
  next
    case (chained x xs rows y ys)
    then show ?thesis
      by (intro admit_chain_ok [OF admitted_state_ok [OF ok chained(2)] _ _ _ chained(5)]) simp_all
  qed
qed

lemma run_ok:
  assumes "handle_all pub c envs = Inr c'" and "entries_ok P Q c" and "\<forall>env \<in> set envs. snapshot_ok Q env"
  shows "entries_ok P Q c'"
  using assms(1) unfolding handle_all_def
  by (rule foldm_invariant) (use assms(2,3) handle_ok in blast)+

lemma init_ok:
  assumes "coord_init b data now = Inr c" and "\<And>cfg. config_view data = Inr cfg \<Longrightarrow> Q cfg"
  shows "entries_ok P Q c"
  using assms
  by (auto simp: coord_init_def install_def coord_blank_def entries_ok_def ledger_get_def split: sum.splits if_splits)

end

section \<open>Keys of the transition table\<close>

definition before_bar :: "string \<Rightarrow> string" where
  "before_bar key = takeWhile (\<lambda>x. x \<noteq> CHR ''|'') key"

definition after_bar :: "string \<Rightarrow> string" where
  "after_bar key = drop (Suc (length (before_bar key))) key"

definition no_bar :: "string \<Rightarrow> bool" where
  "no_bar s \<longleftrightarrow> CHR ''|'' \<notin> set s"

lemma split_key [simp]:
  assumes "no_bar st"
  shows "before_bar (st @ ''|'' @ ev) = st" and "after_bar (st @ ''|'' @ ev) = ev"
proof -
  show st: "before_bar (st @ ''|'' @ ev) = st"
    using assms by (simp add: before_bar_def no_bar_def takeWhile_append)
  show "after_bar (st @ ''|'' @ ev) = ev"
    unfolding after_bar_def st by simp
qed

text \<open>A property of every row of a table, given the state and the event of its key.\<close>

definition all_rows :: "(string \<Rightarrow> string \<Rightarrow> row list \<Rightarrow> row \<Rightarrow> bool) \<Rightarrow> config \<Rightarrow> bool" where
  "all_rows R cfg \<longleftrightarrow>
     list_all (\<lambda>(key, rows). rows \<noteq> [] \<and> list_all (R (before_bar key) (after_bar key) rows) rows)
       (cfg_transitions cfg)"

lemma all_rowsD:
  assumes "all_rows R cfg" and "cfg_rows cfg st ev = Some rows" and "no_bar st"
  shows "rows \<noteq> []" and "r \<in> set rows \<Longrightarrow> R st ev rows r"
    and "R st ev rows (hd rows)" and "R st ev rows (last rows)"
proof -
  from assms(2) have "(st @ ''|'' @ ev, rows) \<in> set (cfg_transitions cfg)"
    unfolding cfg_rows_def by (rule map_of_SomeD)
  with assms(1) have "rows \<noteq> [] \<and> list_all (R (before_bar (st @ ''|'' @ ev)) (after_bar (st @ ''|'' @ ev)) rows) rows"
    by (auto simp: all_rows_def list_all_iff)
  then have "rows \<noteq> []" and R: "\<forall>r \<in> set rows. R st ev rows r"
    unfolding split_key [OF assms(3)] by (simp_all add: list_all_iff)
  then show "rows \<noteq> []" "r \<in> set rows \<Longrightarrow> R st ev rows r" "R st ev rows (hd rows)" "R st ev rows (last rows)"
    by auto
qed

text \<open>The event of the row chained to admission; its row is applied without a guard.\<close>

definition internal_event :: "config \<Rightarrow> string \<Rightarrow> bool" where
  "internal_event cfg ev \<longleftrightarrow>
     (case cfg_rows cfg ''created'' ''request.received'' of
        None \<Rightarrow> False
      | Some rows \<Rightarrow> row_chain (hd rows) = Some ev)"

definition unguarded :: "config \<Rightarrow> string \<Rightarrow> string \<Rightarrow> bool" where
  "unguarded cfg st ev \<longleftrightarrow> st = ''created'' \<and> ev = ''request.received'' \<or> internal_event cfg ev"

lemma no_bar_created [simp]: "no_bar ''created''"
  by (simp add: no_bar_def)

lemma pick_row_mem: "pick_row rows e cfg = Inr (Some (r, g)) \<Longrightarrow> r \<in> set rows"
  by (auto elim: pick_row_Some)

lemma pick_row_guard:
  "pick_row rows e cfg = Inr (Some (r, g)) \<Longrightarrow> row_when r = Some w \<Longrightarrow> guard w e cfg = Inr True"
  by (auto elim: pick_row_Some)

section \<open>The completion gate\<close>

text \<open>
  Tables in which a request completes only by the gate on the recorded verdict, by the row
  that records \<open>verify.passed\<close> itself, or by staying completed.
\<close>

definition gate_row :: "config \<Rightarrow> string \<Rightarrow> string \<Rightarrow> row list \<Rightarrow> row \<Rightarrow> bool" where
  "gate_row cfg st ev rows r \<longleftrightarrow>
     no_bar (row_next r)
     \<and> (row_next r = ''completed'' \<longrightarrow>
          \<not> unguarded cfg st ev
          \<and> (row_when r = Some ''gate:completion'' \<and> ''record_verdict'' \<notin> set (row_actions r)
             \<or> ''record_verdict'' \<in> set (row_actions r) \<and> ev = ''verify.passed''
             \<or> st = ''completed'' \<and> ''record_verdict'' \<notin> set (row_actions r)))"

definition gate_def_ok :: "config \<Rightarrow> bool" where
  "gate_def_ok cfg \<longleftrightarrow>
     (case dget (cfg_gates cfg) ''completion'' of
        None \<Rightarrow> True
      | Some g \<Rightarrow> py_get g ''verdict'' (PyStr ''verification'') = PyStr ''verification'')"

definition gate_safe :: "config \<Rightarrow> bool" where
  "gate_safe cfg \<longleftrightarrow> gate_def_ok cfg \<and> all_rows (gate_row cfg) cfg"

lemma gate_safe_default: "gate_safe default_config"
  by code_simp

definition verdict_backed :: "req_state \<Rightarrow> bool" where
  "verdict_backed e \<longleftrightarrow>
     no_bar (rs_lifecycle_state e)
     \<and> (rs_lifecycle_state e = ''completed'' \<longrightarrow> dget (rs_recorded_verdicts e) ''verification'' = Some True)"

lemma do_action_verdicts:
  "rs_recorded_verdicts (do_action a e ev info) =
     (if a = ''record_verdict'' then dset ''verification'' (ev = ''verify.passed'') (rs_recorded_verdicts e)
      else rs_recorded_verdicts e)"
  by (simp add: do_action_def)

lemma do_actions_verdict:
  "dget (rs_recorded_verdicts (do_actions as e ev info)) ''verification'' =
     (if ''record_verdict'' \<in> set as then Some (ev = ''verify.passed'')
      else dget (rs_recorded_verdicts e) ''verification'')"
  unfolding do_actions_def
  by (induction "as" arbitrary: e) (auto simp: do_action_verdicts dict_simps)

lemma guard_completion:
  assumes "gate_def_ok cfg" and "guard ''gate:completion'' e cfg = Inr True"
  shows "dget (rs_recorded_verdicts e) ''verification'' = Some True"
proof -
  have "prefix_of ''gate:'' ''gate:completion''" by (simp add: prefix_of_def)
  with assms(2) obtain g where "dget (cfg_gates cfg) ''completion'' = Some g" "gate_evaluate e g = Inr True"
    by (auto simp: guard_def gate_evaluate_def split: option.splits)
  with assms(1) show ?thesis
    by (auto simp: gate_def_ok_def intro: gate_evaluate_needs_verdict)
qed

lemma advance_verdict:
  "dget (rs_recorded_verdicts (advance e r ev info eid)) ''verification'' =
     (if ''record_verdict'' \<in> set (row_actions r) then Some (ev = ''verify.passed'')
      else dget (rs_recorded_verdicts e) ''verification'')"
  by (simp add: advance_def do_actions_verdict)

interpretation completion: entry_invariant verdict_backed gate_safe
proof
  fix cfg rows r and rid dt :: pyval and info eid
  assume Q: "gate_safe cfg" "cfg_rows cfg ''created'' ''request.received'' = Some rows"
    and r: "r = hd rows \<or> r = last rows"
  then have "gate_row cfg ''created'' ''request.received'' rows r"
    using all_rowsD(3,4) [of "gate_row cfg"] by (auto simp: gate_safe_def)
  then show "verdict_backed (advance (new_state rid dt (cfg_version cfg)) r ''request.received'' info eid)"
    by (auto simp: gate_row_def unguarded_def verdict_backed_def)
next
  fix cfg rows0 ch e rows r info eid
  assume "gate_safe cfg" "cfg_rows cfg ''created'' ''request.received'' = Some rows0"
    "row_chain (hd rows0) = Some ch" "verdict_backed e" "cfg_rows cfg (rs_lifecycle_state e) ch = Some rows"
    "r = hd rows \<or> r = last rows"
  then have "gate_row cfg (rs_lifecycle_state e) ch rows r" "internal_event cfg ch"
    using all_rowsD(3,4) [of "gate_row cfg"]
    by (auto simp: gate_safe_def verdict_backed_def internal_event_def)
  then show "verdict_backed (advance e r ch info eid)"
    by (auto simp: gate_row_def unguarded_def verdict_backed_def)
next
  fix cfg e ev rows r g eid
  assume Q: "gate_safe cfg" and P: "verdict_backed e"
    and rows: "cfg_rows cfg (rs_lifecycle_state e) ev = Some rows" and pick: "pick_row rows e cfg = Inr (Some (r, g))"
  then have "gate_row cfg (rs_lifecycle_state e) ev rows r"
    using all_rowsD(2) [of "gate_row cfg"] pick_row_mem [OF pick] by (auto simp: gate_safe_def verdict_backed_def)
  then show "verdict_backed (advance e r ev [] eid)"
    using P Q guard_completion pick_row_guard [OF pick]
    by (auto simp: gate_row_def verdict_backed_def advance_verdict gate_safe_def)
qed

section \<open>The replan bound\<close>

definition replan_row :: "config \<Rightarrow> string \<Rightarrow> string \<Rightarrow> row list \<Rightarrow> row \<Rightarrow> bool" where
  "replan_row cfg st ev rows r \<longleftrightarrow>
     no_bar (row_next r)
     \<and> (''increment_replan'' \<in> set (row_actions r) \<longrightarrow>
          \<not> unguarded cfg st ev \<and> row_when r = Some ''replans_remaining''
          \<and> count_list (row_actions r) ''increment_replan'' = 1)"

definition replan_safe :: "nat \<Rightarrow> config \<Rightarrow> bool" where
  "replan_safe n cfg \<longleftrightarrow> cfg_max_replans cfg \<le> int n \<and> all_rows (replan_row cfg) cfg"

lemma replan_safe_default: "replan_safe 2 default_config"
  by code_simp

definition replans_within :: "nat \<Rightarrow> req_state \<Rightarrow> bool" where
  "replans_within n e \<longleftrightarrow> no_bar (rs_lifecycle_state e) \<and> rs_replan_count e \<le> int n"

lemma do_actions_replans:
  "rs_replan_count (do_actions as e ev info)
     = rs_replan_count e + int (count_list as ''increment_replan'')"
  unfolding do_actions_def
  by (induction "as" arbitrary: e) (auto simp: do_action_def)

lemma advance_replans:
  "rs_replan_count (advance e r ev info eid)
     = rs_replan_count e + int (count_list (row_actions r) ''increment_replan'')"
  by (simp add: advance_def do_actions_replans)

lemma replan_unguarded:
  assumes "replan_row cfg st ev rows r" and "unguarded cfg st ev"
  shows "count_list (row_actions r) ''increment_replan'' = 0" and "no_bar (row_next r)"
  using assms by (auto simp: replan_row_def count_list_0_iff)

interpretation replans: entry_invariant "replans_within n" "replan_safe n" for n
proof
  fix cfg rows r and rid dt :: pyval and info eid
  assume "replan_safe n cfg" "cfg_rows cfg ''created'' ''request.received'' = Some rows"
    "r = hd rows \<or> r = last rows"
  then have "replan_row cfg ''created'' ''request.received'' rows r"
    using all_rowsD(3,4) [of "replan_row cfg"] by (auto simp: replan_safe_def)
  then show "replans_within n (advance (new_state rid dt (cfg_version cfg)) r ''request.received'' info eid)"
    using replan_unguarded by (auto simp: unguarded_def replans_within_def advance_replans)
next
  fix cfg rows0 ch e rows r info eid
  assume P: "replans_within n e"
    and "replan_safe n cfg" "cfg_rows cfg ''created'' ''request.received'' = Some rows0"
    "row_chain (hd rows0) = Some ch" "cfg_rows cfg (rs_lifecycle_state e) ch = Some rows"
    "r = hd rows \<or> r = last rows"
  then have "replan_row cfg (rs_lifecycle_state e) ch rows r" "unguarded cfg (rs_lifecycle_state e) ch"
    using all_rowsD(3,4) [of "replan_row cfg"]
    by (auto simp: replan_safe_def replans_within_def internal_event_def unguarded_def)
  from replan_unguarded [OF this] P show "replans_within n (advance e r ch info eid)"
    by (simp add: replans_within_def advance_replans)
next
  fix cfg e ev rows r g eid
  assume Q: "replan_safe n cfg" and P: "replans_within n e"
    and rows: "cfg_rows cfg (rs_lifecycle_state e) ev = Some rows" and pick: "pick_row rows e cfg = Inr (Some (r, g))"
  then have row: "replan_row cfg (rs_lifecycle_state e) ev rows r"
    using all_rowsD(2) [of "replan_row cfg"] pick_row_mem [OF pick]
    by (auto simp: replan_safe_def replans_within_def)
  have "guard ''replans_remaining'' e cfg = Inr True \<Longrightarrow> rs_replan_count e < cfg_max_replans cfg"
    by (simp add: guard_def prefix_of_def)
  then show "replans_within n (advance e r ev [] eid)"
    using row P Q pick_row_guard [OF pick]
    by (cases "''increment_replan'' \<in> set (row_actions r)")
      (auto simp: replan_row_def replans_within_def advance_replans replan_safe_def count_list_0_iff)
qed

end
