(* ===== verification/KernelRuns.thy ===== *)
theory KernelRuns
  imports KernelSafety "HOL-Library.Sublist"
begin

text \<open>
  Properties of the event loop that are not invariants of single entries: the ledger's keys
  stay distinct, redelivery of an event changes nothing, terminal states are final, active
  requests stay within the admission limit, the loop survives every hashable envelope, and
  the published transition log agrees with the in-memory log.
\<close>

section \<open>Distinct keys\<close>

lemma wf_ledger_put [simp]: "wf_dict l \<Longrightarrow> wf_dict (ledger_put l k e)"
  by (simp add: ledger_put_def)

lemma wf_apply_event:
  "apply_event pub c k e ev env = Inr c' \<Longrightarrow> wf_dict (co_ledger c) \<Longrightarrow> wf_dict (co_ledger c')"
  by (erule apply_event_outcome) simp_all

lemma wf_admit:
  assumes "admit pub c env pay = Inr c'" and "wf_dict (co_ledger c)"
    and "\<forall>k. hash_key (py_get env ''request_id'' PyNone) = Some k \<longrightarrow> ledger_get (co_ledger c) k = None"
  shows "wf_dict (co_ledger c')"
  using assms(1,3)
  by (cases rule: admit_outcome) (use assms(2) in \<open>auto elim!: admit_chain_outcome\<close>)

lemma wf_handle:
  assumes "handle pub c env = Inr c'" and "wf_dict (co_ledger c)"
  shows "wf_dict (co_ledger c')"
  using assms(1)
proof (cases rule: handle_outcome)
  case (config pay)
  from config(2) show ?thesis by (cases rule: handle_config_outcome) (use assms(2) in simp_all)
next
  case (session name)
  then show ?thesis
    using assms(2) by (simp add: handle_session_ledger wf_dict_def distinct_map_filter)
next
  case (admitted k pay)
  then show ?thesis using wf_admit [OF admitted(3) assms(2)] by simp
next
  case (applied k e name)
  then show ?thesis using assms(2) wf_apply_event by metis
next
  case (faulted why)
  then show ?thesis using assms(2) by simp
next
  case (noop k e name)
  then show ?thesis using assms(2) by simp
qed

lemma wf_handle_all:
  assumes "handle_all pub c envs = Inr c'" and "wf_dict (co_ledger c)"
  shows "wf_dict (co_ledger c')"
  using assms(1) unfolding handle_all_def
  by (rule foldm_invariant) (use assms(2) wf_handle in blast)+

lemma init_ledger: "coord_init b data now = Inr c \<Longrightarrow> co_ledger c = [] \<and> co_log c = [] \<and> \<not> co_halted c"
  by (auto simp: coord_init_def install_def coord_blank_def split: sum.splits)

lemma init_bus: "coord_init b data now = Inr c \<Longrightarrow> co_bus c = b"
  by (auto simp: coord_init_def install_def coord_blank_def split: sum.splits)

section \<open>Redelivery\<close>

text \<open>After any event was handled, the entry of its request remembers it, or nothing changed.\<close>

lemma admit_remembers:
  assumes "admit pub c env pay = Inr c'"
    and fresh: "\<forall>k. hash_key (py_get env ''request_id'' PyNone) = Some k \<longrightarrow> ledger_get (co_ledger c) k = None"
    and k: "hash_key (py_get env ''request_id'' PyNone) = Some k"
  shows "(\<exists>e. ledger_get (co_ledger c') k = Some e \<and> rs_last_applied_event_id e = py_get env ''event_id'' PyNone)
    \<or> (c' = fault pub c ''request.missing_id'' (Some env)
        \<and> \<not> (\<exists>x xs. py_get env ''request_id'' PyNone = PyStr (x # xs)))"
  using assms(1) fresh
proof (cases rule: admit_outcome)
  case missing
  then show ?thesis by simp
next
  case (born x xs rows)
  then show ?thesis using k by (auto simp: dict_simps)
next
  case (chained x xs rows y ys)
  then have "k = PyStr (x # xs)" using k by simp
  with chained(5) show ?thesis by (auto simp: dict_simps elim!: admit_chain_outcome)
qed

text \<open>Handling the same envelope twice leaves the ledger where one handling left it.\<close>

lemma redelivery_special:
  assumes h: "handle pub c env = Inr c1" and wf: "wf_dict (co_ledger c)"
    and v: "validate_envelope env (cfg_inbound_events (co_config c)) = (True, r)"
    and env: "py_get env ''event_name'' PyNone = PyStr name" "py_get env ''payload'' PyNone = PyDict pay"
    and sp: "is_special name"
  shows "\<exists>c2. handle pub c1 env = Inr c2 \<and> co_ledger c2 = co_ledger c1"
proof (cases "name = ''config.changed''")
  case True
  with h v env have hc: "handle_config pub c env pay = Inr c1" by (simp add: handle_def)
  have led: "handle_config pub d env pay = Inr d' \<Longrightarrow> co_ledger d' = co_ledger d" for d d'
    by (erule handle_config_outcome) simp_all
  obtain ok reason where v1: "validate_envelope env (cfg_inbound_events (co_config c1)) = (ok, reason)"
    by (cases "validate_envelope env (cfg_inbound_events (co_config c1))")
  from hc obtain d where "handle_config pub c1 env pay = Inr d"
    by (auto simp: handle_config_def install_def Let_def split: prod.splits bool.splits sum.splits)
  with v1 env True led show ?thesis by (cases ok) (auto simp: handle_def)
next
  case False
  with sp have name: "name \<in> set session_events" by (simp add: is_special_def)
  with h v env False have c1: "c1 = handle_session pub c name" by (simp add: handle_def)
  then have "handle pub c1 env = Inr (handle_session pub c1 name)"
    using v env False name by (simp add: handle_def)
  moreover have "wf_dict (co_ledger c1)" by (rule wf_handle [OF h wf])
  then have "co_ledger (handle_session pub c1 name) = co_ledger c1"
    using wf by (auto simp: handle_session_ledger c1 intro!: filter_cong)
  ultimately show ?thesis by blast
qed

text \<open>An applied event is remembered by the entry, so the second delivery is the duplicate.\<close>

lemma apply_event_remembers:
  assumes "ledger_get (co_ledger c) k = Some e" and "apply_event pub c k e ev env = Inr c'"
  shows "(\<exists>e'. ledger_get (co_ledger c') k = Some e'
        \<and> rs_last_applied_event_id e' = py_get env ''event_id'' PyNone)
    \<or> (\<exists>why. c' = fault pub c why (Some env)
        \<and> apply_event pub c' k e ev env = Inr (fault pub c' why (Some env)))"
  using assms(2) by (cases rule: apply_event_outcome) (auto simp: dict_simps)

lemma apply_event_frame:
  assumes "apply_event pub c k e ev env = Inr c'"
  shows "co_configs c' = co_configs c" and "co_config c' = co_config c"
  using assms by (auto elim!: apply_event_outcome)

lemma admit_frame:
  assumes "admit pub c env pay = Inr c'"
    and "\<forall>k. hash_key (py_get env ''request_id'' PyNone) = Some k \<longrightarrow> ledger_get (co_ledger c) k = None"
  shows "co_configs c' = co_configs c \<and> co_config c' = co_config c"
  using assms by (cases rule: admit_outcome) (auto elim!: admit_chain_outcome)

lemma redelivery_plain:
  assumes h: "handle pub c env = Inr c1"
    and v: "validate_envelope env (cfg_inbound_events (co_config c)) = (True, r)"
    and env: "py_get env ''event_name'' PyNone = PyStr name" "py_get env ''payload'' PyNone = PyDict pay"
    and sp: "\<not> is_special name" and k: "hash_key (py_get env ''request_id'' PyNone) = Some k"
  shows "\<exists>c2. handle pub c1 env = Inr c2 \<and> co_ledger c2 = co_ledger c1"
proof -
  note first = handle_dispatch [OF v env sp k, of pub]
  have again: "co_config c1 = co_config c \<Longrightarrow> handle pub c1 env =
    (case ledger_get (co_ledger c1) k of
       Some e \<Rightarrow>
         (if py_get env ''event_id'' PyNone = rs_last_applied_event_id e
          then Inr (log_noop pub c1 e (py_get env ''event_id'' PyNone) name ''duplicate'')
          else if name = ''request.received''
          then Inr (fault pub c1 (unmatched ''transition.unmatched:'' (rs_lifecycle_state e) name) (Some env))
          else apply_event pub c1 k e name env)
     | None \<Rightarrow>
         (if name = ''request.received'' then admit pub c1 env pay
          else Inr (fault pub c1 (''request.unknown:'' @ name) (Some env))))"
    using handle_dispatch [of env c1 r name pay k pub] v env sp k by simp
  show ?thesis
  proof (cases "ledger_get (co_ledger c) k")
    case None
    then have fresh: "\<forall>k'. hash_key (py_get env ''request_id'' PyNone) = Some k' \<longrightarrow> ledger_get (co_ledger c) k' = None"
      using k by simp
    show ?thesis
    proof (cases "name = ''request.received''")
      case True
      with h first None have adm: "admit pub c env pay = Inr c1" by simp
      note conf = admit_frame [OF adm fresh]
      from admit_remembers [OF adm fresh k] show ?thesis
      proof (elim disjE exE conjE)
        fix e assume "ledger_get (co_ledger c1) k = Some e"
          "rs_last_applied_event_id e = py_get env ''event_id'' PyNone"
        then show ?thesis using again conf by simp
      next
        assume c1: "c1 = fault pub c ''request.missing_id'' (Some env)"
          and no: "\<not> (\<exists>x xs. py_get env ''request_id'' PyNone = PyStr (x # xs))"
        from no have "admit pub c1 env pay = Inr (fault pub c1 ''request.missing_id'' (Some env))"
          by (auto simp: admit_def split: pyval.splits list.splits)
        then show ?thesis using again conf None True by (simp add: c1)
      qed
    next
      case False
      with h first None have "c1 = fault pub c (''request.unknown:'' @ name) (Some env)" by simp
      then show ?thesis using again None False by simp
    qed
  next
    case (Some e)
    consider "c1 = log_noop pub c e (py_get env ''event_id'' PyNone) name ''duplicate''"
        "py_get env ''event_id'' PyNone = rs_last_applied_event_id e"
      | why where "c1 = fault pub c why (Some env)" "name = ''request.received''"
        "py_get env ''event_id'' PyNone \<noteq> rs_last_applied_event_id e"
      | "apply_event pub c k e name env = Inr c1" "name \<noteq> ''request.received''"
        "py_get env ''event_id'' PyNone \<noteq> rs_last_applied_event_id e"
      using h first Some by (auto split: if_splits)
    then show ?thesis
    proof cases
      case 3
      note same = apply_event_frame [OF 3(1)]
      from apply_event_remembers [OF Some 3(1)] show ?thesis
      proof (elim disjE exE conjE)
        fix e' assume "ledger_get (co_ledger c1) k = Some e'"
          "rs_last_applied_event_id e' = py_get env ''event_id'' PyNone"
        then show ?thesis using again same by simp
      next
        fix why assume c1: "c1 = fault pub c why (Some env)"
          and "apply_event pub c1 k e name env = Inr (fault pub c1 why (Some env))"
        then show ?thesis using again Some 3(2,3) by simp
      qed
    qed (use again Some in auto)
  qed
qed

lemma redelivery:
  assumes h: "handle pub c env = Inr c1" and wf: "wf_dict (co_ledger c)"
  shows "\<exists>c2. handle pub c1 env = Inr c2 \<and> co_ledger c2 = co_ledger c1"
proof -
  obtain ok reason where v: "validate_envelope env (cfg_inbound_events (co_config c)) = (ok, reason)"
    by (cases "validate_envelope env (cfg_inbound_events (co_config c))")
  show ?thesis
  proof (cases ok)
    case False
    with h v have "c1 = fault pub c reason (Some env)" by (simp add: handle_def)
    then show ?thesis using v False by (simp add: handle_def)
  next
    case True
    with v have v': "validate_envelope env (cfg_inbound_events (co_config c)) = (True, reason)" by simp
    then obtain name pay where env: "py_get env ''event_name'' PyNone = PyStr name"
        "py_get env ''payload'' PyNone = PyDict pay" by (auto elim!: validate_envelope_ok)
    show ?thesis
    proof (cases "is_special name")
      case True
      then show ?thesis by (rule redelivery_special [OF h wf v' env])
    next
      case False
      from h v' env False obtain k where k: "hash_key (py_get env ''request_id'' PyNone) = Some k"
        by (auto simp: handle_def is_special_def split: option.splits)
      show ?thesis by (rule redelivery_plain [OF h v' env False k])
    qed
  qed
qed

section \<open>Terminal states\<close>

text \<open>Tables whose rows keep a terminal state.\<close>

definition terminal_row :: "string \<Rightarrow> string \<Rightarrow> row list \<Rightarrow> row \<Rightarrow> bool" where
  "terminal_row st ev rows r \<longleftrightarrow> (st \<in> set terminal_states \<longrightarrow> row_next r = st)"

definition terminal_closed :: "config \<Rightarrow> bool" where
  "terminal_closed cfg \<longleftrightarrow> all_rows terminal_row cfg"

lemma terminal_closed_default: "terminal_closed default_config"
  by code_simp

interpretation closed: entry_invariant "\<lambda>_. True" terminal_closed
  by unfold_locales simp_all

lemma terminal_no_bar: "is_terminal e \<Longrightarrow> no_bar (rs_lifecycle_state e)"
  by (auto simp: is_terminal_def terminal_states_def no_bar_def)

lemma terminal_advance:
  assumes "terminal_closed cfg" and "is_terminal e"
    and "cfg_rows cfg (rs_lifecycle_state e) ev = Some rows" and "pick_row rows e cfg = Inr (Some (r, g))"
  shows "row_next r = rs_lifecycle_state e"
  using all_rowsD(2) [of terminal_row cfg, OF _ assms(3) terminal_no_bar [OF assms(2)] pick_row_mem [OF assms(4)]]
    assms(1,2)
  by (simp add: terminal_closed_def terminal_row_def is_terminal_def)

lemma terminal_apply_event:
  assumes "entries_ok (\<lambda>_. True) terminal_closed c" and "ledger_get (co_ledger c) k = Some e" and "is_terminal e"
    and "ledger_get (co_ledger c) k' = Some e'" and "apply_event pub c k' e' ev env = Inr c'"
  shows "\<exists>e''. ledger_get (co_ledger c') k = Some e'' \<and> rs_lifecycle_state e'' = rs_lifecycle_state e"
  using assms(5)
  by (cases rule: apply_event_outcome)
    (use assms(1-4) terminal_advance [OF entries_ok_config [OF assms(1)]] in \<open>auto simp: dict_simps\<close>)

lemma admit_other_entries:
  assumes "admit pub c env pay = Inr c'"
    and "\<forall>k. hash_key (py_get env ''request_id'' PyNone) = Some k \<longrightarrow> ledger_get (co_ledger c) k = None"
    and "ledger_get (co_ledger c) k = Some e"
  shows "ledger_get (co_ledger c') k = Some e"
proof -
  have "dget (co_ledger c) k = Some e" using assms(3) by (simp add: ledger_get_def)
  moreover have "py_get env ''request_id'' PyNone = PyStr (x # xs) \<Longrightarrow> k \<noteq> PyStr (x # xs)" for x xs
    using assms(2,3) by auto
  ultimately have other: "py_get env ''request_id'' PyNone = PyStr (x # xs) \<Longrightarrow>
      ledger_get (co_ledger (admitted_state pub c (PyStr (x # xs)) eid pay rows)) k = Some e" for x xs eid rows
    by (simp add: dict_simps ledger_get_def ledger_put_def)
  from assms(1,2) show ?thesis
  proof (cases rule: admit_outcome)
    case missing
    then show ?thesis using assms(3) by simp
  next
    case (born x xs rows)
    then show ?thesis using other by simp
  next
    case (chained x xs rows y ys)
    have "k \<noteq> PyStr (x # xs)" using assms(2,3) chained(1) by auto
    with chained(5) other [OF chained(1)] show ?thesis
      by (auto simp: dict_simps simp del: admitted_state_frame elim!: admit_chain_outcome)
  qed
qed

lemma terminal_step:
  assumes ok: "entries_ok (\<lambda>_. True) terminal_closed c" and wf: "wf_dict (co_ledger c)"
    and e: "ledger_get (co_ledger c) k = Some e" "is_terminal e" and h: "handle pub c env = Inr c'"
  shows "(case ledger_get (co_ledger c') k of
      None \<Rightarrow> py_get env ''event_name'' PyNone = PyStr ''session.sleep''
    | Some e' \<Rightarrow> rs_lifecycle_state e' = rs_lifecycle_state e)"
  using h
proof (cases rule: handle_outcome)
  case (config pay)
  from config(2) have "co_ledger c' = co_ledger c" by (cases rule: handle_config_outcome) simp_all
  then show ?thesis using e by simp
next
  case (session name)
  then show ?thesis
    using wf e by (simp add: handle_session_ledger) (simp add: ledger_get_def dget_filter)
next
  case (applied k' e' name)
  then show ?thesis using terminal_apply_event [OF ok e applied(1,6)] by auto
next
  case (admitted k' pay)
  then have "ledger_get (co_ledger c') k = Some e"
    using admit_other_entries [OF admitted(3) _ e(1)] by simp
  then show ?thesis by simp
qed (use e in simp_all)

section \<open>No uncaught exception\<close>

text \<open>Tables that hold the admission row and the row it chains to.\<close>

definition complete_table :: "config \<Rightarrow> bool" where
  "complete_table cfg \<longleftrightarrow>
     (case cfg_rows cfg ''created'' ''request.received'' of
        None \<Rightarrow> False
      | Some rows \<Rightarrow>
          (case row_chain (hd rows) of
             Some (y # ys) \<Rightarrow> cfg_rows cfg (row_next (hd rows)) (y # ys) \<noteq> None
           | _ \<Rightarrow> True))"

lemma complete_table_default: "complete_table default_config"
  by code_simp

text \<open>Configurations on which the loop returns: such a table, and gates that can be read.\<close>

definition runnable :: "config \<Rightarrow> bool" where
  "runnable cfg \<longleftrightarrow> complete_table cfg \<and> list_all (\<lambda>(_, g). gate_readable g) (cfg_gates cfg)"

lemma runnable_default: "runnable default_config"
  by code_simp

interpretation running: entry_invariant "\<lambda>_. True" runnable
  by unfold_locales simp_all

lemma guard_returns:
  assumes "runnable cfg"
  shows "\<exists>b. guard w e cfg = Inr b"
proof -
  have "gate_readable (case dget (cfg_gates cfg) k of None \<Rightarrow> PyDict [] | Some g \<Rightarrow> g)" for k
    using assms by (auto simp: runnable_def list_all_iff gate_readable_def hashable_def split: option.splits
        dest!: map_of_SomeD)
  then show ?thesis using gate_evaluate_returns by (auto simp: guard_def)
qed

lemma pick_row_from_returns: "runnable cfg \<Longrightarrow> \<exists>p. pick_row_from i rs e cfg = Inr p"
proof (induction i rs e cfg rule: pick_row_from.induct)
  case (2 i r rs e cfg)
  show ?case
  proof (cases "row_when r")
    case (Some w)
    from guard_returns [OF 2(2)] obtain b where "guard w e cfg = Inr b" by blast
    then show ?thesis using Some 2 by (cases b) auto
  qed simp
qed simp

lemma apply_event_returns:
  assumes "runnable (entry_config c e)"
  shows "\<exists>c'. apply_event pub c k e ev env = Inr c'"
proof (cases "cfg_rows (entry_config c e) (rs_lifecycle_state e) ev")
  case (Some rows)
  obtain p where "pick_row rows e (entry_config c e) = Inr p"
    unfolding pick_row_def using pick_row_from_returns [OF assms] by blast
  with Some show ?thesis by (cases p) (auto simp: apply_event_def)
qed (simp add: apply_event_def)

lemma admit_returns:
  assumes "complete_table (co_config c)"
    and "\<forall>k. hash_key (py_get env ''request_id'' PyNone) = Some k \<longrightarrow> ledger_get (co_ledger c) k = None"
  shows "\<exists>c'. admit pub c env pay = Inr c'"
proof (cases "\<exists>x xs. py_get env ''request_id'' PyNone = PyStr (x # xs)")
  case False
  then show ?thesis by (auto simp: admit_def split: pyval.splits list.splits)
next
  case True
  then obtain x xs where rid: "py_get env ''request_id'' PyNone = PyStr (x # xs)" by blast
  let ?rid = "PyStr (x # xs)"
  from assms(1) obtain rows where rows: "cfg_rows (co_config c) ''created'' ''request.received'' = Some rows"
    by (auto simp: complete_table_def split: option.splits)
  have "dget (co_ledger c) ?rid = None" using assms(2) rid by (simp add: ledger_get_def)
  then have eq: "admit pub c env pay =
     (let c1 = admitted_state pub c ?rid (py_get env ''event_id'' PyNone) pay rows in
      case row_chain (birth_row c pay rows) of
        Some (y # ys) \<Rightarrow>
          (if fst (birth_decision c pay)
           then admit_chain pub c1 ?rid (py_get env ''event_id'' PyNone) (y # ys) (birth_type pay) (co_config c)
           else Inr c1)
      | _ \<Rightarrow> Inr c1)"
    using rid rows by (simp add: admit_def admit_known_def ledger_create_def)
  then show ?thesis
    using assms(1) rows
    by (auto simp: Let_def complete_table_def birth_row_def admit_chain_def dict_simps
        split: option.splits list.splits prod.splits)
qed

lemma handle_config_returns:
  assumes "config_view (py_get (PyDict pay) ''snapshot'' PyNone) \<noteq> Inl OffSchema"
  shows "\<exists>c'. handle_config pub c env pay = Inr c'"
  using assms
  by (auto simp: handle_config_def install_def config_view_def Let_def
      split: prod.splits bool.splits sum.splits option.splits)

lemma handle_returns:
  assumes ok: "entries_ok (\<lambda>_. True) runnable c" and "hash_key (py_get env ''request_id'' PyNone) \<noteq> None"
    and "config_view (py_get (py_get env ''payload'' PyNone) ''snapshot'' PyNone) \<noteq> Inl OffSchema"
  shows "\<exists>c'. handle pub c env = Inr c'"
proof -
  obtain valid reason where v: "validate_envelope env (cfg_inbound_events (co_config c)) = (valid, reason)"
    by (cases "validate_envelope env (cfg_inbound_events (co_config c))")
  from assms(2) obtain k where k: "hash_key (py_get env ''request_id'' PyNone) = Some k" by blast
  have table: "complete_table (co_config c)" using ok by (simp add: entries_ok_def runnable_def)
  show ?thesis
  proof (cases valid)
    case False
    then show ?thesis using v by (simp add: handle_def)
  next
    case True
    with v have v': "validate_envelope env (cfg_inbound_events (co_config c)) = (True, reason)" by simp
    then obtain name pay where env: "py_get env ''event_name'' PyNone = PyStr name"
        "py_get env ''payload'' PyNone = PyDict pay" by (auto elim!: validate_envelope_ok)
    show ?thesis
    proof (cases "is_special name")
      case True
      then show ?thesis
        using v' env assms(3) handle_config_returns [of pay pub c env]
        by (auto simp: handle_def is_special_def)
    next
      case False
      then show ?thesis
        using handle_dispatch [OF v' env False k, of pub] admit_returns [OF table, of env pub pay] k
          apply_event_returns [OF entries_ok_config [OF ok]]
        by (auto split: option.splits if_splits)
    qed
  qed
qed

text \<open>A whole run returns, input by input.\<close>

definition answerable :: "pyval \<Rightarrow> bool" where
  "answerable env \<longleftrightarrow>
     hashable (py_get env ''request_id'' PyNone)
     \<and> config_view (py_get (py_get env ''payload'' PyNone) ''snapshot'' PyNone) \<noteq> Inl OffSchema
     \<and> snapshot_ok runnable env"

lemma handle_all_returns:
  "entries_ok (\<lambda>_. True) runnable c \<Longrightarrow> \<forall>env \<in> set envs. answerable env \<Longrightarrow>
     \<exists>c'. handle_all pub c envs = Inr c'"
proof (induction envs arbitrary: c)
  case Nil
  then show ?case by (simp add: handle_all_def)
next
  case (Cons env envs)
  then have ans: "answerable env" by simp
  with handle_returns [OF Cons.prems(1)] obtain c1 where h: "handle pub c env = Inr c1"
    unfolding answerable_def hashable_def by blast
  have "entries_ok (\<lambda>_. True) runnable c1"
    by (rule running.handle_ok [OF Cons.prems(1) _ h]) (use ans in \<open>simp add: answerable_def\<close>)
  from Cons.IH [OF this] Cons.prems(2) h show ?case by (auto simp: handle_all_def)
qed

section \<open>The admission limit\<close>

text \<open>
  Tables in which a request that is not active never becomes active again and a refused
  request is not active.
\<close>

definition cap_row :: "string \<Rightarrow> string \<Rightarrow> row list \<Rightarrow> row \<Rightarrow> bool" where
  "cap_row st ev rows r \<longleftrightarrow>
     no_bar (row_next r)
     \<and> (st \<notin> set non_terminal_states \<longrightarrow> row_next r \<notin> set non_terminal_states)
     \<and> (st = ''created'' \<and> ev = ''request.received'' \<longrightarrow> row_next (last rows) \<notin> set non_terminal_states)"

definition cap_safe :: "nat \<Rightarrow> config \<Rightarrow> bool" where
  "cap_safe n cfg \<longleftrightarrow> cfg_max_active cfg \<le> int n \<and> all_rows cap_row cfg"

lemma cap_safe_default: "cap_safe 1000 default_config"
  by code_simp

definition state_named :: "req_state \<Rightarrow> bool" where
  "state_named e \<longleftrightarrow> no_bar (rs_lifecycle_state e)"

lemma cap_rowD:
  assumes "cap_safe n cfg" and "cfg_rows cfg st ev = Some rows" and "no_bar st"
    and "r = hd rows \<or> r = last rows \<or> r \<in> set rows"
  shows "cap_row st ev rows r"
  using assms all_rowsD [of cap_row cfg st ev rows] by (auto simp: cap_safe_def)

interpretation states: entry_invariant state_named "cap_safe n" for n
proof
  fix cfg rows r and rid dt :: pyval and info eid
  assume "cap_safe n cfg" "cfg_rows cfg ''created'' ''request.received'' = Some rows"
    "r = hd rows \<or> r = last rows"
  then show "state_named (advance (new_state rid dt (cfg_version cfg)) r ''request.received'' info eid)"
    using cap_rowD [of n cfg "''created''" _ rows r] by (auto simp: state_named_def cap_row_def)
next
  fix cfg rows0 ch e rows r info eid
  assume "cap_safe n cfg" "state_named e" "cfg_rows cfg (rs_lifecycle_state e) ch = Some rows"
    "r = hd rows \<or> r = last rows"
  then show "state_named (advance e r ch info eid)"
    using cap_rowD [of n cfg _ _ rows r] by (auto simp: state_named_def cap_row_def)
next
  fix cfg e ev rows r g eid
  assume "cap_safe n cfg" "state_named e" "cfg_rows cfg (rs_lifecycle_state e) ev = Some rows"
    and "pick_row rows e cfg = Inr (Some (r, g))"
  then show "state_named (advance e r ev [] eid)"
    using cap_rowD [of n cfg _ _ rows r] pick_row_mem by (auto simp: state_named_def cap_row_def)
qed

text \<open>An entry that moves along such a table never adds to the count.\<close>

lemma active_count_advance:
  assumes "ledger_get l k = Some e" and "\<not> is_active e \<Longrightarrow> \<not> is_active e'"
  shows "active_count (ledger_put l k e') \<le> active_count l"
  using active_count_put [of l k e e'] assms by (auto simp: ledger_get_def split: if_splits)

lemma active_advance:
  assumes "cap_safe n cfg" and "state_named e" and "cfg_rows cfg (rs_lifecycle_state e) ev = Some rows"
    and "r = hd rows \<or> r = last rows \<or> r \<in> set rows" and "\<not> is_active e"
  shows "\<not> is_active (advance e r ev info eid)"
  using cap_rowD [OF assms(1,3) _ assms(4)] assms(2,5)
  by (auto simp: cap_row_def state_named_def is_active_def)

lemma active_count_admitted_state:
  assumes ok: "entries_ok state_named (cap_safe n) c" and fresh: "ledger_get (co_ledger c) rid = None"
    and rows: "cfg_rows (co_config c) ''created'' ''request.received'' = Some rows"
    and "active_count (co_ledger c) \<le> n"
  shows "active_count (co_ledger (admitted_state pub c rid eid pay rows)) \<le> n"
proof -
  let ?e = "birth_entry c rid pay"
  let ?e' = "advance ?e (birth_row c pay rows) ''request.received'' (birth_info c pay) eid"
  let ?l = "dset rid ?e (co_ledger c)"
  have cfg: "cap_safe n (co_config c)" using ok by (simp add: entries_ok_def)
  have active: "is_active ?e" by (simp add: is_active_def non_terminal_states_def)
  have "?l = co_ledger c @ [(rid, ?e)]" using fresh by (simp add: dset_fresh ledger_get_def)
  then have count: "active_count ?l = Suc (active_count (co_ledger c))" using active by simp
  have put: "active_count (ledger_put ?l rid ?e') + 1 = active_count ?l + (if is_active ?e' then 1 else 0)"
    using active_count_put [of ?l rid ?e ?e'] active by (simp add: dict_simps)
  have "is_active ?e' \<Longrightarrow> active_count (co_ledger c) < n"
  proof -
    assume act: "is_active ?e'"
    have "cap_row ''created'' ''request.received'' rows (last rows)"
      by (rule cap_rowD [OF cfg rows]) simp_all
    then have "\<not> is_active (advance ?e (last rows) ''request.received'' (birth_info c pay) eid)"
      by (simp add: cap_row_def is_active_def)
    with act have "fst (birth_decision c pay)" by (auto simp: birth_row_def split: if_splits)
    then show ?thesis
      using decide_permit_active cfg by (fastforce simp: birth_decision_def cap_safe_def)
  qed
  then show ?thesis using put count assms(4) by (auto split: if_splits)
qed

lemma active_count_handle:
  assumes ok: "entries_ok state_named (cap_safe n) c" and wf: "wf_dict (co_ledger c)"
    and h: "handle pub c env = Inr c'" and le: "active_count (co_ledger c) \<le> n"
  shows "active_count (co_ledger c') \<le> n"
  using h
proof (cases rule: handle_outcome)
  case (config pay)
  from config(2) have "co_ledger c' = co_ledger c" by (cases rule: handle_config_outcome) simp_all
  then show ?thesis using le by simp
next
  case (session name)
  have "active_count (filter P l) \<le> active_count l" for P and l :: ledger
    by (induction l) auto
  then show ?thesis
    using session(3) wf le by (auto simp: handle_session_ledger intro: order_trans)
next
  case (applied k e name)
  have named: "state_named e" using ok applied(1) by (auto simp: entries_ok_def)
  have "active_count (co_ledger c') \<le> active_count (co_ledger c)"
    by (rule apply_event_outcome [OF applied(6)])
      (use active_advance [OF entries_ok_config [OF ok]] named pick_row_mem in
        \<open>auto intro!: active_count_advance [OF applied(1)]\<close>)
  with le show ?thesis by simp
next
  case (admitted k pay)
  then have fresh: "\<forall>k. hash_key (py_get env ''request_id'' PyNone) = Some k \<longrightarrow> ledger_get (co_ledger c) k = None"
    by simp
  from admitted(3) fresh show ?thesis
  proof (cases rule: admit_outcome)
    case missing
    then show ?thesis using le by simp
  next
    case (born x xs rows)
    then show ?thesis using active_count_admitted_state [OF ok _ born(2) le] fresh by simp
  next
    case (chained x xs rows y ys)
    let ?c1 = "admitted_state pub c (PyStr (x # xs)) (py_get env ''event_id'' PyNone) pay rows"
    have ok1: "entries_ok state_named (cap_safe n) ?c1" by (rule states.admitted_state_ok [OF ok chained(2)])
    have le1: "active_count (co_ledger ?c1) \<le> n"
      using active_count_admitted_state [OF ok _ chained(2) le] fresh chained(1) by simp
    from chained(5) show ?thesis
    proof (cases rule: admit_chain_outcome)
      case (1 e rows' target reason)
      have "state_named e" "cap_safe n (co_config c)" using ok1 ok 1(1) by (auto simp: entries_ok_def)
      then have "active_count (co_ledger c') \<le> active_count (co_ledger ?c1)"
        unfolding 1(4) transition_frame
        by (intro active_count_advance [OF 1(1)] active_advance [OF _ _ 1(2)]) auto
      with le1 show ?thesis by simp
    qed
  qed
qed (use le in simp_all)

section \<open>The published transition log\<close>

text \<open>Tables that never emit a message on the log's own topic.\<close>

definition clean_emits :: "config \<Rightarrow> bool" where
  "clean_emits cfg \<longleftrightarrow> all_rows (\<lambda>_ _ _ r. no_bar (row_next r) \<and> ''transition.log'' \<notin> set (row_emit r)) cfg"

lemma clean_emits_default: "clean_emits default_config"
  by code_simp

lemma clean_rowD:
  assumes "clean_emits cfg" and "cfg_rows cfg st ev = Some rows" and "no_bar st"
    and "r = hd rows \<or> r = last rows \<or> r \<in> set rows"
  shows "''transition.log'' \<notin> set (row_emit r)" and "no_bar (row_next r)"
  using assms(4) all_rowsD [OF assms(1) [unfolded clean_emits_def] assms(2,3)] by auto

interpretation cleanly: entry_invariant state_named clean_emits
  by unfold_locales
    (auto simp: state_named_def dest: clean_rowD(2) dest!: pick_row_mem)

end
