(* ===== verification/KernelProps.thy ===== *)
theory KernelProps
  imports KernelReplay KernelRuns
begin

text \<open>
  What the kernel promises its deployment, on the shipped transition table and on every
  table of the stated class. The demonstration runs drive one request through admission,
  planning, verification and completion.
\<close>

section \<open>Demonstration runs\<close>

definition demo_kernel :: "mem_bus coord" where
  "demo_kernel = (coord_blank mem_bus_init 0)\<lparr>co_configs := [(1, default_config)], co_config := default_config\<rparr>"

lemma demo_kernel_init: "coord_init mem_bus_init (snapshot []) 0 = Inr demo_kernel"
proof -
  have "cfg_version default_config = 1" by (simp add: default_config_def)
  then show ?thesis
    by (simp add: coord_init_def install_def demo_kernel_def coord_blank_def config_view_default)
qed

definition demo_env :: "string \<Rightarrow> string \<Rightarrow> payload \<Rightarrow> pyval" where
  "demo_env eid name pay = make_env (PyStr eid) name (PyStr ''r1'') (PyInt 0) (PyInt 1) pay"

definition demo_received :: pyval where
  "demo_received = demo_env ''e1'' ''request.received'' [(''declared_type'', PyStr ''type.alpha'')]"

definition demo_completion :: "pyval list" where
  "demo_completion = [demo_received, demo_env ''e2'' ''plan.created'' [],
     demo_env ''e3'' ''verify.passed'' [], demo_env ''e4'' ''task.completed'' []]"

definition demo_replan :: "pyval list" where
  "demo_replan = [demo_received, demo_env ''e2'' ''plan.created'' [], demo_env ''e3'' ''task.failed'' [],
     demo_env ''e4'' ''plan.created'' [], demo_env ''e5'' ''task.failed'' []]"

definition run_gives :: "(mem_bus coord \<Rightarrow> bool) \<Rightarrow> pyval list \<Rightarrow> bool" where
  "run_gives P envs = (case handle_all mem_publish demo_kernel envs of Inl _ \<Rightarrow> False | Inr c \<Rightarrow> P c)"

lemma run_givesE:
  assumes "run_gives P envs"
  obtains c where "handle_all mem_publish demo_kernel envs = Inr c" and "P c"
  using assms by (auto simp: run_gives_def split: sum.splits)

lemma demo_completed:
  "run_gives (\<lambda>c. (case ledger_get (co_ledger c) (PyStr ''r1'') of
     None \<Rightarrow> False | Some e \<Rightarrow> rs_lifecycle_state e = ''completed'')) demo_completion"
  by code_simp


lemma demo_replanned:
  "run_gives (\<lambda>c. (case ledger_get (co_ledger c) (PyStr ''r1'') of
     None \<Rightarrow> False | Some e \<Rightarrow> rs_replan_count e = 2)) demo_replan"
  by code_simp

lemma demo_snapshots: "list_all (\<lambda>env. snapshot_ok Q env) (demo_completion @ demo_replan)"
proof -
  have none: "snapshot_ok Q (demo_env eid name pay)" if "dget pay ''snapshot'' = None" for eid name pay
    using that
    by (simp add: snapshot_ok_def demo_env_def make_env_def config_view_def validate_config_def)
  show ?thesis
    by (simp add: demo_completion_def demo_replan_def demo_received_def none)
qed

section \<open>Recovery\<close>

text \<open>
  C1: recovery rebuilds the kernel. After any run from a fresh coordinator whose
  configurations have replayable decisions, replaying the transition log on another fresh
  coordinator succeeds and gives the same ledger, log and configurations, not halted.
\<close>

theorem recovery_rebuilds_ledger:
  assumes "coord_init b data now = Inr c0" and "\<forall>cfg. config_view data = Inr cfg \<longrightarrow> replayable cfg"
    and "\<forall>env \<in> set envs. replayable_env env" and "handle_all pub c0 envs = Inr c"
    and "coord_init b' data now' = Inr r0"
  shows "\<exists>r. recover pub None r0 (co_log c) = Inr (r, True) \<and> co_ledger r = co_ledger c
    \<and> co_log r = co_log c \<and> co_configs r = co_configs c \<and> co_config r = co_config c \<and> \<not> co_halted r"
proof -
  have inv: "coord_inv c0" and start: "recovered r0 c0 = r0\<lparr>co_ledger := [], co_log := [], co_halted := False\<rparr>"
    using init_coord_inv [OF assms(1,2)] init_recovered [OF assms(1,5)] by auto
  have "kernel_log.adm_all pub c0 envs"
    using assms(3) by (induction envs arbitrary: c0) (auto split: sum.splits)
  then have "kernel_log.runs pub c0 c"
    using assms(4) unfolding handle_all_def by (rule kernel_log.foldm_runs)
  from kernel_log.journal_rebuilds [OF this inv, of r0]
  have "replay_from pub None (recovered r0 c0) (co_log c) = Inr (recovered r0 c, True)"
    using init_ledger [OF assms(1)] by (simp add: replay_from_foldm)
  then show ?thesis
    unfolding start recover_def by (intro exI [of _ "recovered r0 c"]) (simp add: recovered_def)
qed

theorem recovery_rebuilds_ledger_witness:
  "\<exists>c r. handle_all mem_publish demo_kernel demo_completion = Inr c
     \<and> recover mem_publish None demo_kernel (co_log c) = Inr (r, True)
     \<and> co_ledger r = co_ledger c \<and> co_ledger c \<noteq> []"
proof -
  obtain c e where c: "handle_all mem_publish demo_kernel demo_completion = Inr c"
      "ledger_get (co_ledger c) (PyStr ''r1'') = Some e"
    using demo_completed by (rule run_givesE) (auto split: option.splits)
  have "\<forall>env \<in> set demo_completion. replayable_env env"
    using demo_snapshots by (simp add: replayable_env_def list_all_iff)
  from recovery_rebuilds_ledger [OF demo_kernel_init _ this c(1) demo_kernel_init]
  show ?thesis using c by (auto simp: config_view_default replayable_default ledger_get_def)
qed

section \<open>Safety of the ledger\<close>

text \<open>
  C2: no request completes without a verification. In every state a run reaches, a
  completed entry carries the recorded verdict True, for every table whose rows into
  \<open>completed\<close> are gated (the shipped one is).
\<close>

theorem completion_needs_verdict:
  assumes "coord_init b data now = Inr c0" and "\<forall>cfg. config_view data = Inr cfg \<longrightarrow> gate_safe cfg"
    and "\<forall>env \<in> set envs. snapshot_ok gate_safe env" and "handle_all pub c0 envs = Inr c"
    and "ledger_get (co_ledger c) k = Some e" and "rs_lifecycle_state e = ''completed''"
  shows "dget (rs_recorded_verdicts e) ''verification'' = Some True"
proof -
  have "entries_ok verdict_backed gate_safe c"
    by (rule completion.run_ok [OF assms(4) completion.init_ok [OF assms(1)] assms(3)])
      (use assms(2) in blast)
  with assms(5,6) show ?thesis by (auto simp: entries_ok_def verdict_backed_def)
qed

theorem completion_needs_verdict_witness:
  "\<exists>c e. handle_all mem_publish demo_kernel demo_completion = Inr c
     \<and> ledger_get (co_ledger c) (PyStr ''r1'') = Some e \<and> rs_lifecycle_state e = ''completed''
     \<and> dget (rs_recorded_verdicts e) ''verification'' = Some True"
proof -
  obtain c e where c: "handle_all mem_publish demo_kernel demo_completion = Inr c"
      "ledger_get (co_ledger c) (PyStr ''r1'') = Some e" "rs_lifecycle_state e = ''completed''"
    using demo_completed by (rule run_givesE) (auto split: option.splits)
  have "\<forall>env \<in> set demo_completion. snapshot_ok gate_safe env"
    using demo_snapshots by (simp add: list_all_iff)
  from completion_needs_verdict [OF demo_kernel_init _ this c] c
  show ?thesis by (auto simp: config_view_default gate_safe_default)
qed

text \<open>
  C3: the replan loop is bounded. No entry ever counts more replans than the largest
  \<open>max_replans\<close> of the configurations seen.
\<close>

theorem replans_bounded:
  assumes "coord_init b data now = Inr c0" and "\<forall>cfg. config_view data = Inr cfg \<longrightarrow> replan_safe n cfg"
    and "\<forall>env \<in> set envs. snapshot_ok (replan_safe n) env" and "handle_all pub c0 envs = Inr c"
    and "ledger_get (co_ledger c) k = Some e"
  shows "rs_replan_count e \<le> int n"
proof -
  have "entries_ok (replans_within n) (replan_safe n) c"
    by (rule replans.run_ok [OF assms(4) replans.init_ok [OF assms(1)] assms(3)])
      (use assms(2) in blast)
  with assms(5) show ?thesis by (auto simp: entries_ok_def replans_within_def)
qed

theorem replans_bounded_witness:
  "\<exists>c e. handle_all mem_publish demo_kernel demo_replan = Inr c
     \<and> ledger_get (co_ledger c) (PyStr ''r1'') = Some e \<and> rs_replan_count e = 2
     \<and> rs_replan_count e \<le> int 2"
proof -
  obtain c e where c: "handle_all mem_publish demo_kernel demo_replan = Inr c"
      "ledger_get (co_ledger c) (PyStr ''r1'') = Some e" "rs_replan_count e = 2"
    using demo_replanned by (rule run_givesE) (auto split: option.splits)
  have "\<forall>env \<in> set demo_replan. snapshot_ok (replan_safe 2) env"
    using demo_snapshots by (simp add: list_all_iff)
  from replans_bounded [OF demo_kernel_init _ this c(1,2)] c
  show ?thesis by (auto simp: config_view_default replan_safe_default)
qed

text \<open>
  C4: redelivery is idempotent. Handling the same envelope again, right after it was
  handled, returns normally and leaves the ledger as it was.
\<close>

theorem redelivery_idempotent:
  assumes "coord_init b data now = Inr c0" and "handle_all pub c0 envs = Inr c"
    and "handle pub c env = Inr c1"
  shows "\<exists>c2. handle pub c1 env = Inr c2 \<and> co_ledger c2 = co_ledger c1"
proof -
  have "wf_dict (co_ledger c)"
    using assms(2) by (rule wf_handle_all) (simp add: init_ledger [OF assms(1)] wf_dict_def)
  with assms(3) show ?thesis by (rule redelivery)
qed

theorem redelivery_idempotent_witness:
  "\<exists>c1 c2. handle mem_publish demo_kernel demo_received = Inr c1
     \<and> handle mem_publish c1 demo_received = Inr c2 \<and> co_ledger c2 = co_ledger c1 \<and> co_ledger c1 \<noteq> []"
proof -
  have "run_gives (\<lambda>c. co_ledger c \<noteq> []) [demo_received]"
    by code_simp
  then obtain c1 where c1: "handle mem_publish demo_kernel demo_received = Inr c1" "co_ledger c1 \<noteq> []"
    by (rule run_givesE) (auto simp: handle_all_def split: sum.splits)
  have "handle_all mem_publish demo_kernel [] = Inr demo_kernel" by (simp add: handle_all_def)
  from redelivery_idempotent [OF demo_kernel_init this c1(1)] c1 show ?thesis by blast
qed

text \<open>
  C5: the admission limit holds. The number of active requests never exceeds the largest
  \<open>max_active_requests\<close> of the configurations seen.
\<close>

theorem active_requests_bounded:
  assumes "coord_init b data now = Inr c0" and "\<forall>cfg. config_view data = Inr cfg \<longrightarrow> cap_safe n cfg"
    and "\<forall>env \<in> set envs. snapshot_ok (cap_safe n) env" and "handle_all pub c0 envs = Inr c"
  shows "active_count (co_ledger c) \<le> n"
proof -
  let ?I = "\<lambda>c. entries_ok state_named (cap_safe n) c \<and> wf_dict (co_ledger c) \<and> active_count (co_ledger c) \<le> n"
  have "?I c0"
    using init_ledger [OF assms(1)] states.init_ok [OF assms(1), of n] assms(2) by (simp add: wf_dict_def)
  with assms(4) have "?I c" unfolding handle_all_def
    by (rule foldm_invariant) (use assms(3) states.handle_ok wf_handle active_count_handle in blast)
  then show ?thesis by simp
qed

theorem active_requests_bounded_witness:
  "\<exists>c. handle_all mem_publish demo_kernel [demo_received] = Inr c
     \<and> active_count (co_ledger c) = 1 \<and> active_count (co_ledger c) \<le> 1000"
proof -
  have "run_gives (\<lambda>c. active_count (co_ledger c) = 1) [demo_received]"
    by code_simp
  then obtain c where c: "handle_all mem_publish demo_kernel [demo_received] = Inr c"
      "active_count (co_ledger c) = 1" by (rule run_givesE)
  have "\<forall>env \<in> set [demo_received]. snapshot_ok (cap_safe 1000) env"
    using demo_snapshots by (simp add: demo_completion_def)
  from active_requests_bounded [OF demo_kernel_init _ this c(1)] c
  show ?thesis by (auto simp: config_view_default cap_safe_default)
qed

text \<open>
  C6: terminal states are final. Along any continuation of a run in which no
  \<open>session.sleep\<close> is handled, a terminal entry stays in the ledger with its state.
\<close>

theorem terminal_states_final:
  assumes "coord_init b data now = Inr c0" and "\<forall>cfg. config_view data = Inr cfg \<longrightarrow> terminal_closed cfg"
    and "\<forall>env \<in> set (before @ after). snapshot_ok terminal_closed env"
    and "\<forall>env \<in> set after. py_get env ''event_name'' PyNone \<noteq> PyStr ''session.sleep''"
    and "handle_all pub c0 before = Inr c" and "handle_all pub c after = Inr c'"
    and "ledger_get (co_ledger c) k = Some e" and "is_terminal e"
  shows "\<exists>e'. ledger_get (co_ledger c') k = Some e' \<and> rs_lifecycle_state e' = rs_lifecycle_state e"
proof -
  have ok: "entries_ok (\<lambda>_. True) terminal_closed c"
    by (rule closed.run_ok [OF assms(5) closed.init_ok [OF assms(1)]]) (use assms(2,3) in auto)
  have wf: "wf_dict (co_ledger c)"
    using assms(5) by (rule wf_handle_all) (simp add: init_ledger [OF assms(1)] wf_dict_def)
  let ?I = "\<lambda>c. entries_ok (\<lambda>_. True) terminal_closed c \<and> wf_dict (co_ledger c)
    \<and> (\<exists>e'. ledger_get (co_ledger c) k = Some e' \<and> rs_lifecycle_state e' = rs_lifecycle_state e)"
  have step: "?I d'" if d: "?I d" and env: "env \<in> set after" and h: "handle pub d env = Inr d'" for d env d'
  proof -
    from d obtain e1 where e1: "ledger_get (co_ledger d) k = Some e1"
        "rs_lifecycle_state e1 = rs_lifecycle_state e" by blast
    with assms(8) have "is_terminal e1" by (simp add: is_terminal_def)
    with d e1 env h assms(4) terminal_step [of d k e1 pub env d']
    have "\<exists>e'. ledger_get (co_ledger d') k = Some e' \<and> rs_lifecycle_state e' = rs_lifecycle_state e"
      by (auto split: option.splits)
    moreover have "entries_ok (\<lambda>_. True) terminal_closed d'"
      by (rule closed.handle_ok [OF _ _ h]) (use d env assms(3) in auto)
    moreover have "wf_dict (co_ledger d')" by (rule wf_handle [OF h]) (use d in blast)
    ultimately show ?thesis by blast
  qed
  have "?I c'"
    using assms(6) unfolding handle_all_def by (rule foldm_invariant) (use step ok wf assms(7) in blast)+
  then show ?thesis by blast
qed

theorem terminal_states_final_witness:
  "\<exists>c c' e'. handle_all mem_publish demo_kernel demo_completion = Inr c
     \<and> handle_all mem_publish c [demo_env ''e9'' ''request.cancelled'' []] = Inr c'
     \<and> ledger_get (co_ledger c') (PyStr ''r1'') = Some e' \<and> rs_lifecycle_state e' = ''completed''"
proof -
  let ?more = "[demo_env ''e9'' ''request.cancelled'' []]"
  obtain c e where c: "handle_all mem_publish demo_kernel demo_completion = Inr c"
      "ledger_get (co_ledger c) (PyStr ''r1'') = Some e" "rs_lifecycle_state e = ''completed''"
    using demo_completed by (rule run_givesE) (auto split: option.splits)
  have "run_gives (\<lambda>_. True) (demo_completion @ ?more)" by code_simp
  then obtain c' where c': "handle_all mem_publish c ?more = Inr c'"
    using c(1) by (elim run_givesE) (auto simp: handle_all_def foldm_append)
  have "\<forall>env \<in> set (demo_completion @ ?more). snapshot_ok terminal_closed env"
    using demo_snapshots [of terminal_closed] by (simp add: list_all_iff) code_simp
  moreover have "\<forall>env \<in> set ?more. py_get env ''event_name'' PyNone \<noteq> PyStr ''session.sleep''"
    by code_simp
  ultimately show ?thesis
    using terminal_states_final [OF demo_kernel_init _ _ _ c(1) c' c(2)] c c'
    by (auto simp: is_terminal_def terminal_states_def config_view_default terminal_closed_default)
qed

text \<open>
  Handling \<open>session.sleep\<close> evicts exactly the terminal entries: the ledger after it is the
  ledger before it, in order, without them.
\<close>

theorem sleep_evicts_terminal:
  assumes "coord_init b data now = Inr c0" and "handle_all pub c0 envs = Inr c"
    and "handle pub c env = Inr c'" and "py_get env ''event_name'' PyNone = PyStr ''session.sleep''"
    and "fst (validate_envelope env (cfg_inbound_events (co_config c)))"
  shows "co_ledger c' = filter (\<lambda>(k, e). \<not> is_terminal e) (co_ledger c)"
proof -
  have wf: "wf_dict (co_ledger c)"
    using assms(2) by (rule wf_handle_all) (simp add: init_ledger [OF assms(1)] wf_dict_def)
  obtain r where v: "validate_envelope env (cfg_inbound_events (co_config c)) = (True, r)"
    using assms(5) by (cases "validate_envelope env (cfg_inbound_events (co_config c))") auto
  then obtain pay where "py_get env ''payload'' PyNone = PyDict pay" by (auto elim!: validate_envelope_ok)
  with v assms(3,4) have "c' = handle_session pub c ''session.sleep''"
    by (simp add: handle_def session_events_def)
  then show ?thesis by (simp add: handle_session_ledger [OF wf])
qed

theorem sleep_evicts_terminal_witness:
  "\<exists>c c'. handle_all mem_publish demo_kernel demo_completion = Inr c
     \<and> handle mem_publish c (demo_env ''e9'' ''session.sleep'' []) = Inr c'
     \<and> co_ledger c' = filter (\<lambda>(k, e). \<not> is_terminal e) (co_ledger c)"
proof -
  let ?sleep = "demo_env ''e9'' ''session.sleep'' []"
  have "run_gives (\<lambda>c. fst (validate_envelope ?sleep (cfg_inbound_events (co_config c)))) demo_completion"
    by code_simp
  then obtain c where c: "handle_all mem_publish demo_kernel demo_completion = Inr c"
      "fst (validate_envelope ?sleep (cfg_inbound_events (co_config c)))" by (rule run_givesE)
  have "run_gives (\<lambda>_. True) (demo_completion @ [?sleep])" by code_simp
  then obtain c' where c': "handle mem_publish c ?sleep = Inr c'"
    using c(1) by (elim run_givesE) (auto simp: handle_all_def foldm_append split: sum.splits)
  have "py_get ?sleep ''event_name'' PyNone = PyStr ''session.sleep''" by code_simp
  from sleep_evicts_terminal [OF demo_kernel_init c(1) c' this c(2)] c c' show ?thesis by blast
qed

section \<open>Errors and the log\<close>

text \<open>
  C7: the loop does not raise. Boot on a table that holds the admission row and the row it
  chains to, whose gate definitions name their check and verdict by hashable values, and feed
  it any inputs whose request id is hashable and whose snapshot, if it passes validation, has
  the documented schema and is such a table again. Then every input of the sequence is handled
  to a normal return, whatever else it holds and whatever the bus refuses: bad envelopes,
  unknown requests and unmatched events become faults.
\<close>

theorem handle_never_raises:
  assumes "coord_init b data now = Inr c0" and "\<forall>cfg. config_view data = Inr cfg \<longrightarrow> runnable cfg"
    and "\<forall>env \<in> set envs. answerable env"
  shows "\<exists>c. handle_all pub c0 envs = Inr c"
  by (rule handle_all_returns [OF running.init_ok [OF assms(1)] assms(3)]) (use assms(2) in blast)

theorem handle_never_raises_witness:
  "\<exists>c. handle_all mem_publish demo_kernel
       [PyStr ''not an envelope'', demo_env ''e1'' ''plan.created'' [], demo_env ''e2'' ''config.changed'' [],
        demo_received, demo_env ''e3'' ''task.completed'' []] = Inr c"
proof -
  have "\<forall>env \<in> set [PyStr ''not an envelope'', demo_env ''e1'' ''plan.created'' [], demo_env ''e2'' ''config.changed'' [],
        demo_received, demo_env ''e3'' ''task.completed'' []]. answerable env"
    by code_simp
  from handle_never_raises [OF demo_kernel_init _ this] show ?thesis
    by (simp add: config_view_default runnable_default)
qed

text \<open>
  Outbound event ids name one publication. Two ids built by \<open>event_id_for\<close> are equal
  only for the same request, transition sequence and position, whatever characters the
  request ids contain.
\<close>

theorem outbound_event_ids_unique:
  assumes "rs_request_id e = PyStr r" and "rs_request_id e' = PyStr r'"
  shows "event_id_for e i = event_id_for e' i' \<longleftrightarrow>
    r = r' \<and> rs_transition_sequence e = rs_transition_sequence e' \<and> i = i'"
proof -
  have split: "event_id_for x j = (q @ CHR '':'' # nat_str (rs_transition_sequence x)) @ CHR '':'' # nat_str j"
    if "rs_request_id x = PyStr q" for x :: req_state and j q
    using that by (simp add: event_id_for_def)
  show ?thesis
    unfolding split [OF assms(1)] split [OF assms(2)]
    by (subst sep_append_inject_right, simp, simp)+ auto
qed

theorem outbound_event_ids_unique_witness:
  "\<exists>e e'. rs_request_id e = PyStr ''a:1'' \<and> rs_request_id e' = PyStr ''a''
     \<and> event_id_for e 2 \<noteq> event_id_for e' 2"
proof -
  let ?e = "new_state (PyStr ''a:1'') PyNone 1" and ?e' = "new_state (PyStr ''a'') PyNone 1"
  have r: "rs_request_id ?e = PyStr ''a:1''" "rs_request_id ?e' = PyStr ''a''"
    by (simp_all add: new_state_def)
  from outbound_event_ids_unique [OF r] r show ?thesis by (intro exI [of _ ?e] exI [of _ ?e']) simp
qed

section \<open>Where an exception escapes\<close>

text \<open>
  An envelope whose request id is a list passes validation and raises in the ledger lookup; a
  table without the admission row passes validation and raises at admission; a table whose gate
  names its check, or its verdict, by a list passes validation and raises when the gate is
  evaluated, although the gate module says that an unknown check blocks.
\<close>

lemma unhashable_request_id_raises:
  "let env = make_env (PyStr ''e1'') ''plan.created'' (PyList []) (PyInt 0) (PyInt 1) [] in
   fst (validate_envelope env (cfg_inbound_events default_config))
   \<and> handle mem_publish demo_kernel env = Inl TypeError"
  by code_simp

lemma missing_admission_row_raises:
  "let snap = snapshot [(''transitions'', PyDict [])] in
   fst (validate_config snap)
   \<and> (case coord_init mem_bus_init snap 0 of
        Inl _ \<Rightarrow> False
      | Inr c \<Rightarrow> handle mem_publish c demo_received = Inl TypeError)"
  by code_simp

definition odd_gate :: "payload \<Rightarrow> pyval" where
  "odd_gate g = snapshot [(''gates'', PyDict [(''completion'', PyDict g)])]"

lemma unhashable_gate_raises:
  "list_all (\<lambda>g. fst (validate_config (odd_gate g))
     \<and> (case coord_init mem_bus_init (odd_gate g) 0 of
          Inl _ \<Rightarrow> False
        | Inr c \<Rightarrow> handle_all mem_publish c demo_completion = Inl TypeError))
     [[(''check'', PyList [])], [(''check'', PyStr ''verdict_true''), (''verdict'', PyDict [])]]"
  by code_simp

end
