(* ===== verification/BlobPort.thy ===== *)
theory BlobPort
  imports Prelude
begin

text \<open>
  Storage as its clients see it: the four verbs of a namespace handle, their refusals, and
  the laws the clients rely on. A port is a record of operations on the storage state. The
  laws are about plain keys (the ones that name one file each) and good states: a write that
  returns replaces one blob and nothing else, a write that raises replaces nothing, write-once
  succeeds on absent keys only, and the listing of a prefix is the sorted list of the keys
  present below it.
\<close>

datatype os_step = OsMkdir | OsOpen | OsWrite | OsSync | OsReplace

datatype store_exn =
    BadKey string
  | KeyExists string
  | MissingKey string
  | Corruption string
  | WriteFailed string os_step
  | LockHeld
  | OsEscaped
  | BusRefused

type_synonym 's blob_writer = "'s \<Rightarrow> string \<Rightarrow> string \<Rightarrow> 's \<times> (store_exn + string)"

record 's blob_port =
  bp_write :: "'s blob_writer"
  bp_write_once :: "'s blob_writer"
  bp_read :: "'s \<Rightarrow> string \<Rightarrow> store_exn + string"
  bp_keys :: "'s \<Rightarrow> string \<Rightarrow> store_exn + string list"

definition blob_at :: "'s blob_port \<Rightarrow> 's \<Rightarrow> string \<Rightarrow> string option" where
  "blob_at P s k = (case bp_read P s k of Inl _ \<Rightarrow> None | Inr d \<Rightarrow> Some d)"

locale blobs =
  fixes P :: "'s blob_port"
    and plain :: "string \<Rightarrow> bool"
    and good :: "'s \<Rightarrow> bool"
  assumes write_ok: "good s \<Longrightarrow> plain k \<Longrightarrow> bp_write P s k d = (s', Inr r) \<Longrightarrow> plain k' \<Longrightarrow>
      blob_at P s' k' = (if k' = k then Some d else blob_at P s k')"
    and write_raised: "good s \<Longrightarrow> plain k \<Longrightarrow> bp_write P s k d = (s', Inl e) \<Longrightarrow> plain k' \<Longrightarrow>
      blob_at P s' k' = blob_at P s k'"
    and write_good: "good s \<Longrightarrow> plain k \<Longrightarrow> bp_write P s k d = (s', res) \<Longrightarrow> good s'"
    and once_present: "good s \<Longrightarrow> plain k \<Longrightarrow> blob_at P s k \<noteq> None \<Longrightarrow>
      \<exists>m. bp_write_once P s k d = (s, Inl (KeyExists m))"
    and once_absent: "good s \<Longrightarrow> plain k \<Longrightarrow> bp_write_once P s k d = (s', Inr r) \<Longrightarrow>
      blob_at P s k = None \<and> bp_write P s k d = (s', Inr r)"
    and once_raised: "good s \<Longrightarrow> plain k \<Longrightarrow> bp_write_once P s k d = (s', Inl e) \<Longrightarrow>
      s' = s \<or> bp_write P s k d = (s', Inl e)"
    and keys_sorted: "good s \<Longrightarrow> plain pre \<Longrightarrow>
      \<exists>ks. bp_keys P s pre = Inr ks \<and> sorted ks \<and> distinct ks
        \<and> (\<forall>k. k \<in> set ks \<longleftrightarrow> plain k \<and> blob_at P s k \<noteq> None \<and> (\<exists>rest. k = pre @ ''/'' @ rest))"
begin

lemma once_ok:
  assumes "good s" and "plain k" and "bp_write_once P s k d = (s', Inr r)"
  shows "good s'" and "blob_at P s k = None"
    and "plain k' \<Longrightarrow> blob_at P s' k' = (if k' = k then Some d else blob_at P s k')"
  using once_absent [OF assms] write_ok [OF assms(1,2)] write_good [OF assms(1,2)] by blast+

lemma once_good:
  assumes "good s" and "plain k" and "bp_write_once P s k d = (s', r)"
  shows "good s'"
proof (cases r)
  case (Inl e)
  with once_raised [OF assms(1,2)] assms write_good [OF assms(1,2)] show ?thesis by blast
next
  case (Inr x)
  with once_ok(1) [OF assms(1,2)] assms(3) show ?thesis by blast
qed

text \<open>History never mutates: a write-once, whatever its outcome, keeps every blob there was.\<close>

lemma once_keeps:
  assumes "good s" and "plain k" and "bp_write_once P s k d = (s', r)" and "plain k'"
    and "blob_at P s k' = Some v"
  shows "blob_at P s' k' = Some v"
proof (cases r)
  case (Inl e)
  with once_raised [OF assms(1,2)] assms(3) have "s' = s \<or> bp_write P s k d = (s', Inl e)" by simp
  then show ?thesis using write_raised [OF assms(1,2) _ assms(4)] assms(5) by auto
next
  case (Inr x)
  with once_ok [OF assms(1,2)] assms(3,4,5) show ?thesis by fastforce
qed

lemma read_blob_at: "bp_read P s k = Inr d \<longleftrightarrow> blob_at P s k = Some d"
  by (auto simp: blob_at_def split: sum.splits)

end

end
