(* ===== verification/Json.thy ===== *)
theory Json
  imports PyVal
begin

text \<open>
  \<open>json.loads\<close> on the compact documents the program writes, and its round trip with
  \<open>json_dumps\<close>. A document comes back with its keys sorted (\<open>json_canon\<close>); nothing else
  changes. The parser reads the compact form only: no white space between tokens, integers
  but no fractions, and escapes of the characters a HOL string holds. \<open>None\<close> is the
  \<open>ValueError\<close> of a malformed document.
\<close>

section \<open>Reading\<close>

definition is_digit :: "char \<Rightarrow> bool" where
  "is_digit c \<longleftrightarrow> c \<in> set ''0123456789''"

definition hex_val :: "char \<Rightarrow> nat option" where
  "hex_val c =
     (if is_digit c then Some (digit_val c)
      else if c \<in> set ''abcdef'' then Some (of_char c - 87)
      else if c \<in> set ''ABCDEF'' then Some (of_char c - 55)
      else None)"

definition unescape :: "char \<Rightarrow> char option" where
  "unescape c =
     (if c = CHR 0x22 \<or> c = CHR 0x5C \<or> c = CHR ''/'' then Some c
      else if c = CHR ''n'' then Some (CHR 0x0A)
      else if c = CHR ''r'' then Some (CHR 0x0D)
      else if c = CHR ''t'' then Some (CHR 0x09)
      else if c = CHR ''b'' then Some (CHR 0x08)
      else if c = CHR ''f'' then Some (CHR 0x0C)
      else None)"

definition hex_char :: "char \<Rightarrow> char \<Rightarrow> char \<Rightarrow> char \<Rightarrow> char option" where
  "hex_char a b c d =
     (case (hex_val a, hex_val b, hex_val c, hex_val d) of
        (Some 0, Some 0, Some h, Some l) \<Rightarrow> Some (char_of (16 * h + l))
      | _ \<Rightarrow> None)"

text \<open>The part of a string after its opening quote.\<close>

fun parse_str :: "string \<Rightarrow> (string \<times> string) option" where
  "parse_str [] = None"
| "parse_str (c # r) =
     (if c = CHR 0x22 then Some ([], r)
      else if c = CHR 0x5C then
        (case r of
           [] \<Rightarrow> None
         | e # r' \<Rightarrow>
             (if e = CHR ''u'' then
                (case r' of
                   x # y # z # w # r'' \<Rightarrow>
                     (case (hex_char x y z w, parse_str r'') of
                        (Some v, Some (t, rest)) \<Rightarrow> Some (v # t, rest)
                      | _ \<Rightarrow> None)
                 | _ \<Rightarrow> None)
              else (case (unescape e, parse_str r') of
                      (Some v, Some (t, rest)) \<Rightarrow> Some (v # t, rest)
                    | _ \<Rightarrow> None)))
      else if (of_char c :: nat) < 32 then None
      else (case parse_str r of None \<Rightarrow> None | Some (t, rest) \<Rightarrow> Some (c # t, rest)))"

definition parse_nat :: "string \<Rightarrow> (nat \<times> string) option" where
  "parse_nat s =
     (case s of
        [] \<Rightarrow> None
      | c # r \<Rightarrow>
          (if c = CHR ''0'' then Some (0, r)
           else if is_digit c then Some (str_nat (takeWhile is_digit s), dropWhile is_digit s)
           else None))"

definition parse_int :: "string \<Rightarrow> (int \<times> string) option" where
  "parse_int s =
     (case s of
        [] \<Rightarrow> None
      | c # r \<Rightarrow>
          (if c = CHR ''-'' then map_option (\<lambda>(n, t). (- int n, t)) (parse_nat r)
           else map_option (\<lambda>(n, t). (int n, t)) (parse_nat s)))"

definition parse_word :: "string \<Rightarrow> pyval \<Rightarrow> string \<Rightarrow> (pyval \<times> string) option" where
  "parse_word w v s = (if take (length w) s = w then Some (v, drop (length w) s) else None)"

definition parse_scalar :: "string \<Rightarrow> (pyval \<times> string) option" where
  "parse_scalar s =
     (if hd s = CHR ''n'' then parse_word ''null'' PyNone s
      else if hd s = CHR ''t'' then parse_word ''true'' (PyBool True) s
      else if hd s = CHR ''f'' then parse_word ''false'' (PyBool False) s
      else map_option (\<lambda>(i, r). (PyInt i, r)) (parse_int s))"

text \<open>The fuel bounds the nesting and the number of elements; the document's length is enough.\<close>

fun parse_val :: "nat \<Rightarrow> string \<Rightarrow> (pyval \<times> string) option"
and parse_elems :: "nat \<Rightarrow> string \<Rightarrow> (pyval list \<times> string) option"
and parse_members :: "nat \<Rightarrow> string \<Rightarrow> (payload \<times> string) option" where
  "parse_val 0 s = None"
| "parse_val (Suc n) [] = None"
| "parse_val (Suc n) (c # r) =
     (if c = CHR 0x22 then map_option (\<lambda>(t, r'). (PyStr t, r')) (parse_str r)
      else if c = CHR ''['' then
        (if r \<noteq> [] \<and> hd r = CHR '']'' then Some (PyList [], tl r)
         else map_option (\<lambda>(xs, r'). (PyList xs, r')) (parse_elems n r))
      else if c = CHR ''{'' then
        (if r \<noteq> [] \<and> hd r = CHR ''}'' then Some (PyDict [], tl r)
         else map_option (\<lambda>(ms, r'). (PyDict (foldl (\<lambda>d (k, v). dset k v d) [] ms), r')) (parse_members n r))
      else parse_scalar (c # r))"
| "parse_elems 0 s = None"
| "parse_elems (Suc n) s =
     (case parse_val n s of
        None \<Rightarrow> None
      | Some (v, r) \<Rightarrow>
          (case r of
             [] \<Rightarrow> None
           | c # r' \<Rightarrow>
               (if c = CHR '','' then map_option (\<lambda>(vs, t). (v # vs, t)) (parse_elems n r')
                else if c = CHR '']'' then Some ([v], r')
                else None)))"
| "parse_members 0 s = None"
| "parse_members (Suc n) s =
     (if s = [] \<or> hd s \<noteq> CHR 0x22 then None
      else case parse_str (tl s) of
        None \<Rightarrow> None
      | Some (k, r) \<Rightarrow>
          (if r = [] \<or> hd r \<noteq> CHR '':'' then None
           else case parse_val n (tl r) of
             None \<Rightarrow> None
           | Some (v, r) \<Rightarrow>
               (case r of
                  [] \<Rightarrow> None
                | c # r' \<Rightarrow>
                    (if c = CHR '','' then map_option (\<lambda>(ms, t). ((k, v) # ms, t)) (parse_members n r')
                     else if c = CHR ''}'' then Some ([(k, v)], r')
                     else None))))"

definition json_loads :: "string \<Rightarrow> pyval option" where
  "json_loads s =
     (case parse_val (Suc (length s)) s of Some (v, []) \<Rightarrow> Some v | _ \<Rightarrow> None)"

section \<open>What a document reads back as\<close>

fun json_canon :: "pyval \<Rightarrow> pyval" where
  "json_canon (PyList xs) = PyList (map json_canon xs)"
| "json_canon (PyDict d) = PyDict (sort_key fst (map (\<lambda>(k, v). (k, json_canon v)) d))"
| "json_canon v = v"

text \<open>Every dictionary inside has distinct keys, as Python dictionaries do.\<close>

fun json_wf :: "pyval \<Rightarrow> bool" where
  "json_wf (PyList xs) = list_all json_wf xs"
| "json_wf (PyDict d) = (distinct (map fst d) \<and> list_all (\<lambda>(k, v). json_wf v) d)"
| "json_wf v = True"

section \<open>Round trip of the parts\<close>

lemma is_digit_nat_str: "list_all is_digit (nat_str n)"
  using set_nat_str [of n] unfolding list_all_iff is_digit_def by blast

lemma hd_nat_str_zero: "hd (nat_str n) = CHR ''0'' \<Longrightarrow> n = 0"
proof (induction n rule: nat_str.induct)
  case (1 n)
  show ?case
  proof (cases "n < 10")
    case True
    with 1 have "digit n = CHR ''0''" by (simp add: nat_str.simps [of n])
    then have "digit_val (digit n) = 0" by simp code_simp
    with True show ?thesis by (simp add: digit_val_digit)
  next
    case False
    with 1 show ?thesis by (simp add: nat_str.simps [of n])
  qed
qed

definition no_digit :: "string \<Rightarrow> bool" where
  "no_digit s \<longleftrightarrow> s = [] \<or> \<not> is_digit (hd s)"

lemma parse_nat_nat_str:
  assumes "no_digit rest"
  shows "parse_nat (nat_str n @ rest) = Some (n, rest)"
proof (cases "n = 0")
  case True
  moreover have "nat_str 0 = ''0''" by code_simp
  ultimately have "nat_str n = ''0''" by simp
  then show ?thesis using True by (simp add: parse_nat_def)
next
  case False
  obtain c r where s: "nat_str n = c # r" by (cases "nat_str n") auto
  have digits: "\<forall>x \<in> set (nat_str n). is_digit x" using is_digit_nat_str [of n] by (simp add: list_all_iff)
  have c: "c \<noteq> CHR ''0''" "is_digit c" using False hd_nat_str_zero [of n] s digits by auto
  have "takeWhile is_digit (nat_str n @ rest) = nat_str n" "dropWhile is_digit (nat_str n @ rest) = rest"
    using digits assms by (cases rest, auto simp: no_digit_def takeWhile_append dropWhile_append)+
  with s c str_nat_nat_str [of n] show ?thesis by (simp add: parse_nat_def)
qed

lemma not_digit_minus: "CHR ''-'' \<notin> set (nat_str n)"
  by simp

lemma parse_int_int_str:
  assumes "no_digit rest"
  shows "parse_int (int_str i @ rest) = Some (i, rest)"
proof -
  obtain c r where s: "nat_str (nat i) = c # r" by (cases "nat_str (nat i)") auto
  have "c \<noteq> CHR ''-''" using not_digit_minus [of "nat i"] s by auto
  then show ?thesis
    using parse_nat_nat_str [OF assms, of "nat i"] parse_nat_nat_str [OF assms, of "nat (- i)"] s
    by (auto simp: parse_int_def int_str_def)
qed

lemma hex_val_digit: "n < 16 \<Longrightarrow> hex_val (hex_digit n) = Some n"
proof -
  assume "n < 16"
  then have "n = 0 \<or> n = 1 \<or> n = 2 \<or> n = 3 \<or> n = 4 \<or> n = 5 \<or> n = 6 \<or> n = 7 \<or> n = 8 \<or> n = 9
    \<or> n = 10 \<or> n = 11 \<or> n = 12 \<or> n = 13 \<or> n = 14 \<or> n = 15" by arith
  then show ?thesis by (elim disjE) (simp, code_simp)+
qed

lemma of_char_less_256: "(of_char c :: nat) < 256"
  using range_nat_of_char by (metis atLeastLessThan_iff rangeI)

lemma hex_char_hex2: "hex_char (CHR ''0'') (CHR ''0'') (hex_digit (of_char c div 16)) (hex_digit (of_char c mod 16)) = Some c"
proof -
  have "(of_char c :: nat) < 256" by (simp add: of_char_less_256)
  then have "of_char c div 16 < (16 :: nat)" by (simp add: div_less_iff_less_mult)
  then have "hex_val (hex_digit (of_char c div 16)) = Some (of_char c div 16)"
    and "hex_val (hex_digit (of_char c mod 16)) = Some (of_char c mod 16)"
    by (auto intro!: hex_val_digit)
  moreover have "hex_val (CHR ''0'') = Some 0" by code_simp
  ultimately show ?thesis by (simp add: hex_char_def)
qed

lemma json_char_plain:
  assumes "printable c" and "c \<noteq> CHR 0x22" and "c \<noteq> CHR 0x5C"
  shows "json_char c = [c]"
  using assms by (auto simp: json_char_def printable_def)

lemma parse_str_cons:
  "parse_str (json_char c @ s) = (case parse_str s of None \<Rightarrow> None | Some (t, rest) \<Rightarrow> Some (c # t, rest))"
proof (cases "c = CHR 0x22 \<or> c = CHR 0x5C \<or> c = CHR 0x0A \<or> c = CHR 0x0D \<or> c = CHR 0x09 \<or> c = CHR 0x08 \<or> c = CHR 0x0C")
  case True
  then show ?thesis
    by (elim disjE) (simp_all add: json_char_def unescape_def split: option.splits)
next
  case False
  then show ?thesis
    using hex_char_hex2 [of c]
    by (cases "printable c")
      (auto simp: json_char_def hex2_def printable_def split: option.splits)
qed

lemma parse_str_json_str: "parse_str (concat (map json_char s) @ CHR 0x22 # rest) = Some (s, rest)"
proof (induction s)
  case (Cons c s)
  then show ?case using parse_str_cons [of c "concat (map json_char s) @ CHR 0x22 # rest"] by simp
qed simp


section \<open>Round trip of documents\<close>

text \<open>A text that the parser reads as a value, whatever follows that cannot extend a number.\<close>

definition opens_value :: "char \<Rightarrow> bool" where
  "opens_value c \<longleftrightarrow> is_digit c \<or> c \<in> {CHR ''n'', CHR ''t'', CHR ''f'', CHR ''-'', CHR ''['', CHR ''{'', CHR 0x22}"

definition reads_as :: "string \<Rightarrow> pyval \<Rightarrow> bool" where
  "reads_as txt v \<longleftrightarrow> (\<exists>c r. txt = c # r \<and> opens_value c)
     \<and> (\<forall>n rest. no_digit rest \<longrightarrow> length txt \<le> n \<longrightarrow> parse_val n (txt @ rest) = Some (v, rest))"

lemma reads_as_parse: "reads_as txt v \<Longrightarrow> no_digit rest \<Longrightarrow> length txt \<le> n \<Longrightarrow> parse_val n (txt @ rest) = Some (v, rest)"
  by (simp add: reads_as_def)

lemma reads_as_opens: "reads_as txt v \<Longrightarrow> \<exists>c r. txt = c # r \<and> opens_value c"
  by (simp add: reads_as_def)

lemma reads_as_length: "reads_as txt v \<Longrightarrow> 0 < length txt"
  using reads_as_opens by force

lemma reads_asI:
  assumes "txt = c # r" and "opens_value c"
    and "\<And>m rest. no_digit rest \<Longrightarrow> length txt \<le> Suc m \<Longrightarrow> parse_val (Suc m) (txt @ rest) = Some (v, rest)"
  shows "reads_as txt v"
  unfolding reads_as_def
proof (intro conjI allI impI)
  show "\<exists>c r. txt = c # r \<and> opens_value c" using assms(1,2) by blast
next
  fix n rest assume "no_digit rest" and n: "length txt \<le> n"
  from n assms(1) obtain m where "n = Suc m" by (cases n) auto
  with assms(3) [of rest m] \<open>no_digit rest\<close> n show "parse_val n (txt @ rest) = Some (v, rest)" by simp
qed

lemma hd_int_str: "\<exists>c r. int_str i = c # r \<and> (is_digit c \<or> c = CHR ''-'')"
proof -
  have "\<exists>c r. nat_str n = c # r \<and> is_digit c" for n
    using is_digit_nat_str [of n] by (cases "nat_str n") auto
  from this [of "nat i"] show ?thesis by (cases "i < 0") (auto simp: int_str_def)
qed

lemma opens_value_not_close: "opens_value c \<Longrightarrow> c \<noteq> CHR '']'' \<and> c \<noteq> CHR ''}'' \<and> c \<noteq> CHR '',''"
  by (auto simp: opens_value_def is_digit_def)

lemma reads_as_int: "reads_as (int_str i) (PyInt i)"
proof -
  obtain c r where c: "int_str i = c # r" "is_digit c \<or> c = CHR ''-''" using hd_int_str by blast
  then have "c \<noteq> CHR 0x22" "c \<noteq> CHR ''[''" "c \<noteq> CHR ''{''" "c \<noteq> CHR ''n''" "c \<noteq> CHR ''t''" "c \<noteq> CHR ''f''"
    by (auto simp: is_digit_def)
  moreover have "no_digit rest \<Longrightarrow> parse_int (c # r @ rest) = Some (i, rest)" for rest
    using parse_int_int_str [of rest i] c by simp
  ultimately show ?thesis
    using c by (intro reads_asI) (auto simp: parse_scalar_def opens_value_def)
qed

lemma reads_as_str: "reads_as (json_str s) (PyStr s)"
  by (rule reads_asI) (auto simp: json_str_def parse_str_json_str opens_value_def)

lemma reads_as_scalar: "reads_as ''null'' PyNone" "reads_as ''true'' (PyBool True)" "reads_as ''false'' (PyBool False)"
  by (rule reads_asI, auto simp: parse_scalar_def parse_word_def opens_value_def)+

lemma no_digit_sep [simp]: "no_digit (CHR '','' # r)" "no_digit (CHR '']'' # r)" "no_digit (CHR ''}'' # r)"
  by (simp_all add: no_digit_def is_digit_def)

lemma parse_elems_join:
  assumes "ts \<noteq> []" and "list_all2 reads_as ts vs"
    and "length (join_with '','' ts) < n"
  shows "parse_elems n (join_with '','' ts @ CHR '']'' # rest) = Some (vs, rest)"
  using assms
proof (induction ts arbitrary: n vs)
  case Nil
  then show ?case by simp
next
  case (Cons t ts)
  from Cons.prems(2) obtain v ws where vs: "vs = v # ws" and t: "reads_as t v" and ts: "list_all2 reads_as ts ws"
    by (cases vs) auto
  from Cons.prems obtain m where n: "n = Suc m" by (cases n) auto
  show ?case
  proof (cases "ts = []")
    case True
    then have "parse_val m (t @ CHR '']'' # rest) = Some (v, CHR '']'' # rest)"
      using Cons.prems n by (intro reads_as_parse [OF t]) simp_all
    with True n ts show ?thesis by (simp add: vs)
  next
    case False
    let ?J = "join_with '','' ts"
    have j: "join_with '','' (t # ts) = t @ CHR '','' # ?J"
      using False by (simp add: join_with_Cons)
    then have "parse_val m (t @ CHR '','' # ?J @ CHR '']'' # rest) = Some (v, CHR '','' # ?J @ CHR '']'' # rest)"
      using Cons.prems n by (intro reads_as_parse [OF t]) simp_all
    moreover have "parse_elems m (?J @ CHR '']'' # rest) = Some (ws, rest)"
      using Cons.prems False j n reads_as_length [OF t] ts by (intro Cons.IH) auto
    ultimately show ?thesis unfolding j n vs by simp
  qed
qed

definition reads_member :: "string \<Rightarrow> string \<times> pyval \<Rightarrow> bool" where
  "reads_member txt m \<longleftrightarrow> (\<exists>t. txt = json_str (fst m) @ CHR '':'' # t \<and> reads_as t (snd m))"

lemma parse_members_join:
  assumes "ts \<noteq> []" and "list_all2 reads_member ts ms"
    and "length (join_with '','' ts) < n"
  shows "parse_members n (join_with '','' ts @ CHR ''}'' # rest) = Some (ms, rest)"
  using assms
proof (induction ts arbitrary: n ms)
  case Nil
  then show ?case by simp
next
  case (Cons u ts)
  from Cons.prems(2) obtain k v ws where ms: "ms = (k, v) # ws" and "reads_member u (k, v)"
      and ts: "list_all2 reads_member ts ws"
    by (cases ms) auto
  then obtain t where u: "u = json_str k @ CHR '':'' # t" and t: "reads_as t v"
    by (auto simp: reads_member_def)
  from Cons.prems obtain n' where n: "n = Suc n'" by (cases n) auto
  have str: "parse_str (concat (map json_char k) @ CHR 0x22 # r) = Some (k, r)" for r
    by (rule parse_str_json_str)
  show ?case
  proof (cases "ts = []")
    case True
    then have "parse_val n' (t @ CHR ''}'' # rest) = Some (v, CHR ''}'' # rest)"
      using Cons.prems n by (intro reads_as_parse [OF t]) (simp_all add: json_str_def u)
    with True n ts str show ?thesis by (simp add: json_str_def u ms)
  next
    case False
    let ?J = "join_with '','' ts"
    have j: "join_with '','' (u # ts) = json_str k @ CHR '':'' # t @ CHR '','' # ?J"
      using False by (simp add: u join_with_Cons)
    then have "parse_val n' (t @ CHR '','' # ?J @ CHR ''}'' # rest) = Some (v, CHR '','' # ?J @ CHR ''}'' # rest)"
      using Cons.prems n by (intro reads_as_parse [OF t]) (simp_all add: json_str_def)
    moreover have "parse_members n' (?J @ CHR ''}'' # rest) = Some (ws, rest)"
      using Cons.prems False j n ts by (intro Cons.IH) auto
    ultimately show ?thesis unfolding j n ms using str by (simp add: json_str_def)
  qed
qed

lemma foldl_dset_distinct:
  "distinct (map fst (acc @ ms)) \<Longrightarrow> foldl (\<lambda>d (k, v). dset k v d) acc ms = acc @ ms"
proof (induction ms arbitrary: acc)
  case (Cons m ms)
  obtain k v where m: "m = (k, v)" by (cases m)
  then have "dget acc k = None" using Cons.prems by (auto simp: map_of_eq_None_iff)
  then have "dset k v acc = acc @ [m]" by (simp add: dset_fresh m)
  with Cons m show ?case by simp
qed simp

lemma reads_as_list:
  assumes "list_all2 reads_as ts vs"
  shows "reads_as (''['' @ join_with '','' ts @ '']'') (PyList vs)"
proof (cases "ts = []")
  case True
  with assms show ?thesis by (auto intro!: reads_asI simp: opens_value_def)
next
  case False
  with assms obtain t v where "reads_as t v" "hd ts = t" by (cases ts; cases vs) auto
  then obtain c r where "t = c # r" "opens_value c" using reads_as_opens by blast
  with \<open>hd ts = t\<close> False obtain r' where "join_with '','' ts = c # r'" "c \<noteq> CHR '']''"
    using opens_value_not_close by (cases ts; cases "tl ts") auto
  with parse_elems_join [OF False assms] show ?thesis
    by (intro reads_asI) (auto simp: opens_value_def)
qed

lemma reads_as_dict:
  assumes "list_all2 reads_member ts ms" and "distinct (map fst ms)"
  shows "reads_as (''{'' @ join_with '','' ts @ ''}'') (PyDict ms)"
proof (cases "ts = []")
  case True
  with assms show ?thesis by (auto intro!: reads_asI simp: opens_value_def)
next
  case False
  have dict: "foldl (\<lambda>d (k, v). dset k v d) [] ms = ms"
    using foldl_dset_distinct [of "[]" ms] assms(2) by simp
  from False assms(1) obtain r where "join_with '','' ts = CHR 0x22 # r"
    by (cases ts; cases "tl ts"; cases ms) (auto simp: reads_member_def json_str_def)
  with parse_members_join [OF False assms(1)] dict show ?thesis
    by (intro reads_asI) (auto simp: opens_value_def)
qed

lemma reads_as_loads:
  assumes "reads_as txt v"
  shows "json_loads txt = Some v"
  using reads_as_parse [OF assms, of "[]" "Suc (length txt)"]
  by (simp add: json_loads_def no_digit_def)

section \<open>The sorted printer\<close>

lemma insort_key_map_snd:
  "insort_key fst (k, f v) (map (\<lambda>(k, v). (k, f v)) xs) = map (\<lambda>(k, v). (k, f v)) (insort_key fst (k, v) xs)"
  by (induction xs) auto

lemma sort_key_map_snd:
  "sort_key fst (map (\<lambda>(k, v). (k, f v)) d) = map (\<lambda>(k, v). (k, f v)) (sort_key fst d)"
  by (induction d) (auto simp: insort_key_map_snd)

lemma json_dumps_dict:
  "json_dumps (PyDict d) =
     ''{'' @ join_with '','' (map (\<lambda>(k, v). json_str k @ '':'' @ json_dumps v) (sort_key fst d)) @ ''}''"
  by (simp only: json_dumps.simps sort_key_map_snd map_map) (simp add: comp_def case_prod_beta')

lemma dumps_reads_as: "json_wf v \<Longrightarrow> reads_as (json_dumps v) (json_canon v)"
proof (induction v)
  case (PyList vs)
  then have "list_all2 reads_as (map json_dumps vs) (map json_canon vs)"
    by (auto simp: list_all2_map1 list_all2_map2 list_all2_same list_all_iff)
  then show ?case using reads_as_list by simp
next
  case (PyDict d)
  let ?f = "\<lambda>(k, v). (k, json_canon v)"
  have "list_all2 reads_member (map (\<lambda>(k, v). json_str k @ '':'' @ json_dumps v) (sort_key fst d)) (map ?f (sort_key fst d))"
    using PyDict by (fastforce simp: list_all2_map1 list_all2_map2 list_all2_same list_all_iff reads_member_def)
  moreover have "distinct (map fst (map ?f (sort_key fst d)))"
    using PyDict.prems by (simp add: comp_def case_prod_beta' distinct_map)
  ultimately show ?case
    using reads_as_dict by (simp add: json_dumps_dict sort_key_map_snd del: json_dumps.simps)
qed (auto intro: reads_as_int reads_as_str reads_as_scalar)

lemma json_loads_dumps: "json_wf v \<Longrightarrow> json_loads (json_dumps v) = Some (json_canon v)"
  by (rule reads_as_loads) (rule dumps_reads_as)

end
