(* ===== verification/Communication.thy ===== *)
theory Communication
  imports BusPort BlobPort Json
begin

text \<open>
  The transport (\<open>communication/schema.py\<close>, \<open>communication/bus.py\<close>): the topic
  vocabulary, message validation, subscriptions with bounded queues, persist-before-ack
  publication over a storage port, pull and push delivery with dead letters, replay. An
  exception is the left value of a result, next to the state the raise leaves behind. The
  probe for the next sequence number has no bound in the source, so it is an option: \<open>None\<close>
  is a probe that never ends.
\<close>

section \<open>Schemas\<close>

datatype topic_kind = Envelope | Record

type_synonym registry = "(string, topic_kind) dict"

datatype bus_exn =
    SchemaViolation string
  | Backpressure string
  | NoStorage string
  | Refused string
  | StoreRaised store_exn
  | BadDocument

definition envelope_fields :: "string list" where
  "envelope_fields = [''event_id'', ''event_name'', ''request_id'', ''timestamp'', ''payload'']"

definition matrix_topics :: "string list" where
  "matrix_topics =
     [''request.received'', ''request.admitted'', ''request.rejected'',
      ''request.completed'', ''request.failed'', ''request.cancelled'',
      ''intent.classified'',
      ''plan.created'', ''plan.validated'', ''plan.rejected'', ''plan.revised'',
      ''task.scheduled'', ''task.started'', ''task.preempted'', ''task.completed'',
      ''task.failed'',
      ''workflow.created'',
      ''context.assembled'', ''context.overflow'', ''context.invalidated'',
      ''exec.started'', ''exec.completed'', ''exec.timeout'', ''exec.failed'',
      ''verify.requested'', ''verify.passed'', ''verify.failed'',
      ''repo.indexed'', ''index.stale'', ''index.updated'',
      ''repo.onboarded'', ''repo.offboarded'',
      ''plugin.discovered'', ''plugin.registered'', ''plugin.loaded'',
      ''plugin.unloaded'', ''plugin.health.changed'', ''plugin.lifecycle.changed'',
      ''reliability.updated'', ''lesson.recorded'', ''prior.updated'',
      ''fault.recorded'',
      ''storage.committed'', ''storage.rejected'',
      ''telemetry.emitted'', ''cost.recorded'', ''budget.exceeded'',
      ''trace.opened'', ''trace.closed'', ''alert.raised'',
      ''session.wake'', ''session.sleep'',
      ''state.updated'', ''state.evicted'',
      ''reasoning.decided'', ''reasoning.invoked'', ''reasoning.completed'',
      ''reasoning.failed'',
      ''gate.enforced'', ''routing.directive'', ''config.changed'',
      ''delivery.failed'']"

definition record_topics :: "string list" where
  "record_topics =
     [''transition.log'',
      ''policy.authored'', ''policy.deprecated'', ''policy.compiled'',
      ''policy.rejected'', ''policy.activated'', ''policy.decided'',
      ''policy.illposed'', ''grant.recorded'', ''grant.revoked'']"

definition default_registry :: registry where
  "default_registry =
     foldl (\<lambda>r t. dset t Record r) (foldl (\<lambda>r t. dset t Envelope r) [] matrix_topics) record_topics"

definition schema_validate :: "string \<Rightarrow> pyval \<Rightarrow> registry \<Rightarrow> string option" where
  "schema_validate topic msg reg =
     (case dget reg topic of
        None \<Rightarrow> Some (''schema.unknown_topic:'' @ repr_str topic)
      | Some kind \<Rightarrow>
          (if \<not> is_dict msg then Some (''schema.message_not_mapping:'' @ topic)
           else if kind = Record then None
           else case find (\<lambda>f. \<not> py_has msg f) envelope_fields of
             Some f \<Rightarrow> Some (''schema.missing_field:'' @ topic @ '':'' @ f)
           | None \<Rightarrow>
               (if py_get msg ''event_name'' PyNone \<noteq> PyStr topic
                then Some (''schema.event_name_topic_mismatch:''
                       @ py_str (py_get msg ''event_name'' PyNone) @ '':'' @ topic)
                else if \<not> is_str (py_get msg ''event_id'' PyNone) \<or> \<not> truthy (py_get msg ''event_id'' PyNone)
                then Some (''schema.bad_event_id:'' @ topic)
                else if \<not> is_dict (py_get msg ''payload'' PyNone)
                then Some (''schema.bad_payload:'' @ topic)
                else None)))"

section \<open>The bus\<close>

record 's bus =
  bu_store :: "'s option"
  bu_depth :: int
  bu_attempts :: int
  bu_registry :: registry
  bu_dead :: "pyval list"
  bu_queues :: "(string \<times> string, pyval list) dict"
  bu_subs :: "(string, string list) dict"
  bu_durable :: "(string \<times> string) list"
  bu_seq :: "(string, nat) dict"

definition bus_init :: "'s option \<Rightarrow> int \<Rightarrow> int \<Rightarrow> 's bus" where
  "bus_init store depth attempts =
     \<lparr>bu_store = store, bu_depth = depth, bu_attempts = attempts, bu_registry = default_registry,
      bu_dead = [], bu_queues = [], bu_subs = [], bu_durable = [], bu_seq = []\<rparr>"

definition register_topic :: "'s bus \<Rightarrow> string \<Rightarrow> topic_kind \<Rightarrow> bus_exn + 's bus" where
  "register_topic b topic kind =
     (if dget (bu_registry b) topic \<noteq> None
      then Inl (SchemaViolation (''schema.topic_already_registered:'' @ topic))
      else Inr (b\<lparr>bu_registry := dset topic kind (bu_registry b)\<rparr>))"

definition subs_of :: "'s bus \<Rightarrow> string \<Rightarrow> string list" where
  "subs_of b topic = (case dget (bu_subs b) topic of None \<Rightarrow> [] | Some ids \<Rightarrow> ids)"

definition queue_of :: "'s bus \<Rightarrow> string \<Rightarrow> string \<Rightarrow> pyval list" where
  "queue_of b topic sid = (case dget (bu_queues b) (topic, sid) of None \<Rightarrow> [] | Some q \<Rightarrow> q)"

definition subscribe :: "'s bus \<Rightarrow> string \<Rightarrow> string \<Rightarrow> bool \<Rightarrow> bus_exn + 's bus" where
  "subscribe b topic sid durable =
     (if dget (bu_registry b) topic = None
      then Inl (SchemaViolation (''schema.unknown_topic:'' @ repr_str topic))
      else if durable \<and> bu_store b = None then Inl (NoStorage (''bus.no_storage_for_durable:'' @ topic))
      else if dget (bu_queues b) (topic, sid) \<noteq> None
      then Inl (Refused (''bus.duplicate_subscription:'' @ topic @ '':'' @ sid))
      else Inr (b\<lparr>bu_queues := dset (topic, sid) [] (bu_queues b),
                  bu_subs := dset topic (subs_of b topic @ [sid]) (bu_subs b),
                  bu_durable := (if durable then List.insert (topic, sid) (bu_durable b) else bu_durable b)\<rparr>))"

section \<open>Publication\<close>

definition log_key :: "string \<Rightarrow> nat \<Rightarrow> string" where
  "log_key topic n = ''communication/log/'' @ topic @ ''/'' @ nat_str n"

partial_function (option) probe :: "(string \<Rightarrow> store_exn + string) \<Rightarrow> string \<Rightarrow> nat \<Rightarrow> nat option" where
  [code]: "probe rd topic seq =
     (case rd (log_key topic seq) of Inl _ \<Rightarrow> Some seq | Inr _ \<Rightarrow> probe rd topic (Suc seq))"

definition seq_floor :: "'s blob_port \<Rightarrow> 's bus \<Rightarrow> 's \<Rightarrow> string \<Rightarrow> ('s bus \<times> nat) option" where
  "seq_floor P b s topic =
     (case dget (bu_seq b) topic of
        Some n \<Rightarrow> Some (b, n)
      | None \<Rightarrow> map_option (\<lambda>n. (b\<lparr>bu_seq := dset topic n (bu_seq b)\<rparr>, n)) (probe (bp_read P s) topic 0))"

definition persist :: "'s blob_port \<Rightarrow> 's bus \<Rightarrow> string \<Rightarrow> pyval \<Rightarrow> ('s bus \<times> (bus_exn + unit)) option" where
  "persist P b topic msg =
     (case bu_store b of
        None \<Rightarrow> Some (b, Inr ())
      | Some s \<Rightarrow>
          (case seq_floor P b s topic of
             None \<Rightarrow> None
           | Some (b1, n) \<Rightarrow>
               (case bp_write P s (log_key topic n) (json_dumps msg) of
                  (s', Inl e) \<Rightarrow> Some (b1\<lparr>bu_store := Some s'\<rparr>, Inl (StoreRaised e))
                | (s', Inr _) \<Rightarrow>
                    Some (b1\<lparr>bu_store := Some s', bu_seq := dset topic (Suc n) (bu_seq b1)\<rparr>, Inr ()))))"

definition enqueue :: "'s bus \<Rightarrow> string \<Rightarrow> pyval \<Rightarrow> 's bus" where
  "enqueue b topic msg =
     foldl (\<lambda>b sid. b\<lparr>bu_queues := dset (topic, sid) (queue_of b topic sid @ [msg]) (bu_queues b)\<rparr>)
       b (subs_of b topic)"

definition publish :: "'s blob_port \<Rightarrow> 's bus \<Rightarrow> string \<Rightarrow> pyval \<Rightarrow> ('s bus \<times> (bus_exn + unit)) option" where
  "publish P b topic msg =
     (case schema_validate topic msg (bu_registry b) of
        Some why \<Rightarrow> Some (b, Inl (SchemaViolation why))
      | None \<Rightarrow>
          (case find (\<lambda>sid. bu_depth b \<le> int (length (queue_of b topic sid))) (subs_of b topic) of
             Some sid \<Rightarrow> Some (b, Inl (Backpressure (''bus.backpressure:'' @ topic @ '':'' @ sid)))
           | None \<Rightarrow>
               (case persist P b topic msg of
                  None \<Rightarrow> None
                | Some (b1, Inl e) \<Rightarrow> Some (b1, Inl e)
                | Some (b1, Inr _) \<Rightarrow> Some (enqueue b1 topic msg, Inr ()))))"

section \<open>Delivery\<close>

definition drain :: "'s bus \<Rightarrow> string \<Rightarrow> string \<Rightarrow> bus_exn + 's bus \<times> pyval list" where
  "drain b topic sid =
     (case dget (bu_queues b) (topic, sid) of
        None \<Rightarrow> Inl (Refused (''bus.unknown_subscription:'' @ topic @ '':'' @ sid))
      | Some q \<Rightarrow> Inr (b\<lparr>bu_queues := dset (topic, sid) [] (bu_queues b)\<rparr>, q))"

definition pending :: "'s bus \<Rightarrow> string \<Rightarrow> string \<Rightarrow> nat" where
  "pending b topic sid = length (queue_of b topic sid)"

text \<open>
  A handler has a state of its own and reports the \<open>repr\<close> of what it raised. A message is
  tried at most \<open>max_attempts\<close> times.
\<close>

type_synonym 'h handler = "'h \<Rightarrow> pyval \<Rightarrow> 'h \<times> string option"

datatype verdict = Delivered | Poisoned string | Untried

fun attempts :: "'h handler \<Rightarrow> 'h \<Rightarrow> pyval \<Rightarrow> nat \<Rightarrow> 'h \<times> verdict" where
  "attempts f h m 0 = (h, Untried)"
| "attempts f h m (Suc n) =
     (case f h m of
        (h', None) \<Rightarrow> (h', Delivered)
      | (h', Some why) \<Rightarrow> (if n = 0 then (h', Poisoned why) else attempts f h' m n))"

definition delivery_failed :: string where
  "delivery_failed = ''delivery.failed''"

definition dead_letter :: "'s bus \<Rightarrow> string \<Rightarrow> string \<Rightarrow> pyval \<Rightarrow> string \<Rightarrow> 's bus" where
  "dead_letter b topic sid msg why =
     b\<lparr>bu_dead := bu_dead b @ [PyDict
        [(''topic'', PyStr topic), (''subscriber'', PyStr sid), (''message'', msg), (''reason'', PyStr why)]]\<rparr>"

definition failed_env :: "'s bus \<Rightarrow> string \<Rightarrow> string \<Rightarrow> pyval \<Rightarrow> string \<Rightarrow> pyval" where
  "failed_env b topic sid msg why = PyDict
     [(''event_id'', PyStr (''dlq-'' @ nat_str (length (bu_dead b)))),
      (''event_name'', PyStr delivery_failed),
      (''request_id'', if is_dict msg then py_get msg ''request_id'' PyNone else PyNone),
      (''timestamp'', PyInt 0),
      (''payload'', PyDict [(''topic'', PyStr topic), (''subscriber'', PyStr sid), (''reason'', PyStr why)])]"

fun deliver_each ::
  "'s blob_port \<Rightarrow> string \<Rightarrow> string \<Rightarrow> 'h handler \<Rightarrow> 's bus \<Rightarrow> 'h \<Rightarrow> nat \<times> nat \<Rightarrow> pyval list
   \<Rightarrow> (('s bus \<times> 'h) \<times> (bus_exn + nat \<times> nat)) option" where
  "deliver_each P topic sid f b h n [] = Some ((b, h), Inr n)"
| "deliver_each P topic sid f b h (delivered, dead) (m # ms) =
     (case attempts f h m (nat (bu_attempts b)) of
        (h', Delivered) \<Rightarrow> deliver_each P topic sid f b h' (Suc delivered, dead) ms
      | (h', Untried) \<Rightarrow> deliver_each P topic sid f b h' (delivered, dead) ms
      | (h', Poisoned why) \<Rightarrow>
          (let b1 = dead_letter b topic sid m why in
           case publish P b1 delivery_failed (failed_env b1 topic sid m why) of
             None \<Rightarrow> None
           | Some (b2, Inl e) \<Rightarrow> Some ((b2, h'), Inl e)
           | Some (b2, Inr _) \<Rightarrow> deliver_each P topic sid f b2 h' (delivered, Suc dead) ms))"

definition deliver_with ::
  "'s blob_port \<Rightarrow> 's bus \<Rightarrow> string \<Rightarrow> string \<Rightarrow> 'h handler \<Rightarrow> 'h
   \<Rightarrow> (('s bus \<times> 'h) \<times> (bus_exn + nat \<times> nat)) option" where
  "deliver_with P b topic sid f h =
     (case drain b topic sid of
        Inl e \<Rightarrow> Some ((b, h), Inl e)
      | Inr (b', ms) \<Rightarrow> deliver_each P topic sid f b' h (0, 0) ms)"

section \<open>Replay\<close>

fun load_all :: "'s blob_port \<Rightarrow> 's \<Rightarrow> string list \<Rightarrow> bus_exn + pyval list" where
  "load_all P s [] = Inr []"
| "load_all P s (k # ks) =
     (case bp_read P s k of
        Inl e \<Rightarrow> Inl (StoreRaised e)
      | Inr d \<Rightarrow>
          (case json_loads d of
             None \<Rightarrow> Inl BadDocument
           | Some v \<Rightarrow> (case load_all P s ks of Inl e \<Rightarrow> Inl e | Inr vs \<Rightarrow> Inr (v # vs))))"

definition replay :: "'s blob_port \<Rightarrow> 's bus \<Rightarrow> string \<Rightarrow> ('s bus \<times> (bus_exn + pyval list)) option" where
  "replay P b topic =
     (case bu_store b of
        None \<Rightarrow> Some (b, Inl (NoStorage (''bus.no_storage_to_replay:'' @ topic)))
      | Some s \<Rightarrow>
          (case seq_floor P b s topic of
             None \<Rightarrow> None
           | Some (b1, n) \<Rightarrow> Some (b1, load_all P s (map (log_key topic) [0..<n]))))"

end
