(* ===== verification/Storage.thy ===== *)
theory Storage
  imports BusPort BlobPort Json
begin

text \<open>
  The durable substrate (\<open>storage/store.py\<close>): keys, the vault directory, atomic checksummed
  writes, verified reads, write-once, namespaces, the writer lock. The directory is a map from
  canonical paths (components below the vault) to file contents, with the set of directories.
  An operating-system error is an input: the store carries the schedule of the faults the
  coming writes meet, one entry per write, and each fault strikes one step of the write.
  SHA-256 is a parameter, the digest as a number; its rendering in hexadecimal is the source's.
  Keys are the documented ASCII strings. A write of the operating system that does not fail
  is complete.
\<close>

section \<open>Keys and paths\<close>

definition alnum :: "char \<Rightarrow> bool" where
  "alnum c \<longleftrightarrow> CHR ''0'' \<le> c \<and> c \<le> CHR ''9'' \<or> CHR ''A'' \<le> c \<and> c \<le> CHR ''Z''
     \<or> CHR ''a'' \<le> c \<and> c \<le> CHR ''z''"

fun has_dotdot :: "string \<Rightarrow> bool" where
  "has_dotdot (a # b # s) = (a = CHR ''.'' \<and> b = CHR ''.'' \<or> has_dotdot (b # s))"
| "has_dotdot _ = False"

definition check_key :: "string \<Rightarrow> bool" where
  "check_key key \<longleftrightarrow>
     key \<noteq> [] \<and> hd key \<noteq> CHR ''/'' \<and> \<not> has_dotdot key \<and> CHR 0x5C \<notin> set key
     \<and> list_all (\<lambda>c. alnum c \<or> c \<in> set ''/._-'') key"

type_synonym path = "string list"

text \<open>Empty components and \<open>.\<close> vanish when the operating system resolves a path.\<close>

definition real_path :: "string list \<Rightarrow> path" where
  "real_path comps = filter (\<lambda>c. c \<noteq> [] \<and> c \<noteq> ''.'') comps"

definition key_comps :: "string \<Rightarrow> string list" where
  "key_comps key = split_on (CHR ''/'') key"

definition key_path :: "string \<Rightarrow> path" where
  "key_path key = real_path (key_comps key)"

definition key_dir :: "string \<Rightarrow> path" where
  "key_dir key = real_path (butlast (key_comps key))"

text \<open>A key that ends in \<open>/\<close> or \<open>/.\<close> names a directory.\<close>

definition names_file :: "string \<Rightarrow> bool" where
  "names_file key \<longleftrightarrow> last (key_comps key) \<notin> {[], ''.''}"

definition tmp_suffix :: string where
  "tmp_suffix = ''.tmp''"

definition tmp_path :: "string \<Rightarrow> path" where
  "tmp_path key = key_dir key @ [last (key_comps key) @ tmp_suffix]"

definition lock_name :: string where
  "lock_name = ''.storage.lock''"

section \<open>The vault directory\<close>

record vault_fs =
  fs_files :: "(path, string) dict"
  fs_dirs :: "path list"

definition empty_fs :: vault_fs where
  "empty_fs = \<lparr>fs_files = [], fs_dirs = [[]]\<rparr>"

definition path_exists :: "vault_fs \<Rightarrow> string \<Rightarrow> bool" where
  "path_exists fs key \<longleftrightarrow>
     names_file key \<and> dget (fs_files fs) (key_path key) \<noteq> None \<or> key_path key \<in> set (fs_dirs fs)"

definition dirs_of :: "path \<Rightarrow> path list" where
  "dirs_of p = map (\<lambda>n. take n p) [0..<Suc (length p)]"

definition make_dirs :: "vault_fs \<Rightarrow> path \<Rightarrow> vault_fs option" where
  "make_dirs fs p =
     (if list_ex (\<lambda>q. dget (fs_files fs) q \<noteq> None) (dirs_of p) then None
      else Some (fs\<lparr>fs_dirs := List.union (fs_dirs fs) (dirs_of p)\<rparr>))"

text \<open>
  The steps of one write, in order; the result names the step that failed, by the injected
  fault or by the state of the directory. Each step acts on what the earlier ones left.
\<close>

definition write_steps :: "os_step option \<Rightarrow> vault_fs \<Rightarrow> string \<Rightarrow> string \<Rightarrow> vault_fs \<times> os_step option" where
  "write_steps bad fs key blob =
     (case (if bad = Some OsMkdir then None else make_dirs fs (key_dir key)) of
        None \<Rightarrow> (fs, Some OsMkdir)
      | Some fs1 \<Rightarrow>
          (if bad = Some OsOpen \<or> tmp_path key \<in> set (fs_dirs fs1) then (fs1, Some OsOpen)
           else
             let opened = fs1\<lparr>fs_files := dset (tmp_path key) [] (fs_files fs1)\<rparr>;
                 written = fs1\<lparr>fs_files := dset (tmp_path key) blob (fs_files fs1)\<rparr>
             in if bad = Some OsWrite then (opened, Some OsWrite)
                else if bad = Some OsSync then (written, Some OsSync)
                else if bad = Some OsReplace \<or> \<not> names_file key \<or> key_path key \<in> set (fs_dirs fs1)
                then (written, Some OsReplace)
                else (fs1\<lparr>fs_files := dset (key_path key) blob (ddel (tmp_path key) (fs_files fs1))\<rparr>, None)))"

text \<open>The clean-up of a failed write; \<open>False\<close> when it raises itself.\<close>

definition drop_tmp :: "vault_fs \<Rightarrow> string \<Rightarrow> vault_fs \<times> bool" where
  "drop_tmp fs key =
     (if dget (fs_files fs) (tmp_path key) \<noteq> None
      then (fs\<lparr>fs_files := ddel (tmp_path key) (fs_files fs)\<rparr>, True)
      else (fs, tmp_path key \<notin> set (fs_dirs fs)))"

section \<open>Envelopes of bytes\<close>

fun hex_str :: "nat \<Rightarrow> string" where
  "hex_str n = (if n < 16 then [hex_digit n] else hex_str (n div 16) @ [hex_digit (n mod 16)])"

declare hex_str.simps [simp del]

type_synonym digest = "string \<Rightarrow> nat"

definition hexdigest :: "digest \<Rightarrow> string \<Rightarrow> string" where
  "hexdigest sha data = pad_left 64 (hex_str (sha data))"

definition seal :: "digest \<Rightarrow> string \<Rightarrow> string" where
  "seal sha data = hexdigest sha data @ CHR 0x0A # data"

definition unseal :: "digest \<Rightarrow> string \<Rightarrow> string option" where
  "unseal sha blob =
     (let claimed = takeWhile (\<lambda>c. c \<noteq> CHR 0x0A) blob;
          body = drop (Suc (length claimed)) blob
      in if hexdigest sha body = claimed then Some body else None)"

section \<open>The store\<close>

record 'b store =
  st_fs :: vault_fs
  st_held :: bool
  st_seq :: nat
  st_bus :: "'b option"
  st_clock :: int
  st_faults :: "os_step option list"

definition store_open :: "vault_fs \<Rightarrow> 'b option \<Rightarrow> int \<Rightarrow> os_step option list \<Rightarrow> store_exn + 'b store" where
  "store_open fs bus now faults =
     (if dget (fs_files fs) [lock_name] \<noteq> None \<or> [lock_name] \<in> set (fs_dirs fs) then Inl LockHeld
      else Inr \<lparr>st_fs = fs\<lparr>fs_files := dset [lock_name] [] (fs_files fs)\<rparr>, st_held = True,
                st_seq = 0, st_bus = bus, st_clock = now, st_faults = faults\<rparr>)"

definition store_close :: "'b store \<Rightarrow> 'b store" where
  "store_close s =
     (if st_held s
      then s\<lparr>st_fs := (st_fs s)\<lparr>fs_files := ddel [lock_name] (fs_files (st_fs s))\<rparr>, st_held := False\<rparr>
      else s)"

text \<open>\<open>_emit\<close>; the boolean is \<open>False\<close> when the bus raised. The reason is \<open>repr(exc)\<close>, a
  parameter.\<close>

definition store_emit ::
  "'b publisher \<Rightarrow> 'b store \<Rightarrow> string \<Rightarrow> string \<Rightarrow> string \<Rightarrow> 'b store \<times> bool" where
  "store_emit pub s name key reason =
     (case st_bus s of
        None \<Rightarrow> (s, True)
      | Some b \<Rightarrow>
          (let n = Suc (st_seq s);
               msg = PyDict [(''event_id'', PyStr (''storage-'' @ nat_str n)), (''event_name'', PyStr name),
                 (''request_id'', PyNone), (''timestamp'', PyInt (st_clock s)),
                 (''payload'', PyDict ((''key'', PyStr key)
                    # (if reason = [] then [] else [(''reason'', PyStr reason)])))]
           in case pub b name msg of
                (b', ok) \<Rightarrow> (s\<lparr>st_seq := n, st_bus := Some b'\<rparr>, ok)))"

record store_env =
  en_sha :: digest
  en_repr :: "os_step \<Rightarrow> string"

definition store_write ::
  "'b publisher \<Rightarrow> store_env \<Rightarrow> 'b store \<Rightarrow> string \<Rightarrow> string \<Rightarrow> 'b store \<times> (store_exn + string)" where
  "store_write pub E s key data =
     (if \<not> check_key key then (s, Inl (BadKey (''storage.bad_key:'' @ repr_str key)))
      else
        let bad = (case st_faults s of [] \<Rightarrow> None | f # _ \<Rightarrow> f);
            s = s\<lparr>st_faults := tl (st_faults s)\<rparr>
        in case write_steps bad (st_fs s) key (seal (en_sha E) data) of
             (fs, None) \<Rightarrow>
               (case store_emit pub (s\<lparr>st_fs := fs\<rparr>) ''storage.committed'' key [] of
                  (s', True) \<Rightarrow> (s', Inr ''committed'')
                | (s', False) \<Rightarrow> (s', Inl BusRefused))
           | (fs, Some step) \<Rightarrow>
               (case drop_tmp fs key of
                  (fs', False) \<Rightarrow> (s\<lparr>st_fs := fs'\<rparr>, Inl OsEscaped)
                | (fs', True) \<Rightarrow>
                    (case store_emit pub (s\<lparr>st_fs := fs'\<rparr>) ''storage.rejected'' key (en_repr E step) of
                       (s', True) \<Rightarrow> (s', Inl (WriteFailed key step))
                     | (s', False) \<Rightarrow> (s', Inl BusRefused))))"

definition store_exists :: "'b store \<Rightarrow> string \<Rightarrow> store_exn + bool" where
  "store_exists s key =
     (if \<not> check_key key then Inl (BadKey (''storage.bad_key:'' @ repr_str key))
      else Inr (path_exists (st_fs s) key))"

definition store_write_once ::
  "'b publisher \<Rightarrow> store_env \<Rightarrow> 'b store \<Rightarrow> string \<Rightarrow> string \<Rightarrow> 'b store \<times> (store_exn + string)" where
  "store_write_once pub E s key data =
     (case store_exists s key of
        Inl e \<Rightarrow> (s, Inl e)
      | Inr True \<Rightarrow> (s, Inl (KeyExists (''storage.key_exists:'' @ key)))
      | Inr False \<Rightarrow> store_write pub E s key data)"

definition store_read :: "store_env \<Rightarrow> 'b store \<Rightarrow> string \<Rightarrow> store_exn + string" where
  "store_read E s key =
     (if \<not> check_key key then Inl (BadKey (''storage.bad_key:'' @ repr_str key))
      else if \<not> path_exists (st_fs s) key then Inl (MissingKey (''storage.missing_key:'' @ key))
      else case (if names_file key then dget (fs_files (st_fs s)) (key_path key) else None) of
        None \<Rightarrow> Inl OsEscaped
      | Some blob \<Rightarrow>
          (case unseal (en_sha E) blob of
             None \<Rightarrow> Inl (Corruption (''storage.corrupt:'' @ key))
           | Some body \<Rightarrow> Inr body))"

definition ends_with :: "string \<Rightarrow> string \<Rightarrow> bool" where
  "ends_with suf s \<longleftrightarrow> length suf \<le> length s \<and> drop (length s - length suf) s = suf"

definition below :: "path \<Rightarrow> path \<Rightarrow> bool" where
  "below r p \<longleftrightarrow> length r < length p \<and> take (length r) p = r"

definition store_keys :: "'b store \<Rightarrow> string \<Rightarrow> store_exn + string list" where
  "store_keys s prefix =
     (if \<not> check_key prefix then Inl (BadKey (''storage.bad_key:'' @ repr_str prefix))
      else Inr (sort (map (join_with ''/'')
             (filter (\<lambda>p. below (key_path prefix) p \<and> \<not> ends_with tmp_suffix (last p) \<and> last p \<noteq> lock_name)
                (dkeys (fs_files (st_fs s)))))))"

section \<open>Namespace handles\<close>

definition namespace_ok :: "string \<Rightarrow> bool" where
  "namespace_ok ns \<longleftrightarrow> check_key ns \<and> CHR ''/'' \<notin> set ns"

definition ns_guard :: "string \<Rightarrow> string \<Rightarrow> store_exn option" where
  "ns_guard ns key =
     (if \<not> check_key key then Some (BadKey (''storage.bad_key:'' @ repr_str key))
      else if take (Suc (length ns)) key \<noteq> ns @ ''/''
      then Some (BadKey (''storage.namespace_violation:'' @ ns @ '':'' @ key))
      else None)"

definition ns_write ::
  "'b publisher \<Rightarrow> store_env \<Rightarrow> string \<Rightarrow> 'b store \<Rightarrow> string \<Rightarrow> string \<Rightarrow> 'b store \<times> (store_exn + string)" where
  "ns_write pub E ns s key data =
     (case ns_guard ns key of Some e \<Rightarrow> (s, Inl e) | None \<Rightarrow> store_write pub E s key data)"

definition ns_write_once ::
  "'b publisher \<Rightarrow> store_env \<Rightarrow> string \<Rightarrow> 'b store \<Rightarrow> string \<Rightarrow> string \<Rightarrow> 'b store \<times> (store_exn + string)" where
  "ns_write_once pub E ns s key data =
     (case ns_guard ns key of Some e \<Rightarrow> (s, Inl e) | None \<Rightarrow> store_write_once pub E s key data)"

definition ns_read :: "store_env \<Rightarrow> string \<Rightarrow> 'b store \<Rightarrow> string \<Rightarrow> store_exn + string" where
  "ns_read E ns s key = (case ns_guard ns key of Some e \<Rightarrow> Inl e | None \<Rightarrow> store_read E s key)"

definition ns_exists :: "string \<Rightarrow> 'b store \<Rightarrow> string \<Rightarrow> store_exn + bool" where
  "ns_exists ns s key = (case ns_guard ns key of Some e \<Rightarrow> Inl e | None \<Rightarrow> store_exists s key)"

text \<open>No prefix, or an empty one, means the whole namespace.\<close>

definition ns_keys :: "string \<Rightarrow> 'b store \<Rightarrow> string \<Rightarrow> store_exn + string list" where
  "ns_keys ns s prefix =
     (if prefix = [] then store_keys s ns
      else case ns_guard ns prefix of Some e \<Rightarrow> Inl e | None \<Rightarrow> store_keys s prefix)"

section \<open>Sealed bytes\<close>

lemma hex_digit_not_newline: "n < 16 \<Longrightarrow> hex_digit n \<noteq> CHR 0x0A"
proof -
  assume "n < 16"
  then have "hex_val (hex_digit n) = Some n" by (rule hex_val_digit)
  moreover have "hex_val (CHR 0x0A) = None" by code_simp
  ultimately show ?thesis by auto
qed

lemma hex_str_not_newline: "CHR 0x0A \<notin> set (hex_str n)"
proof (induction n rule: hex_str.induct)
  case (1 n)
  then show ?case
    using hex_digit_not_newline [of n] hex_digit_not_newline [of "n mod 16"]
    by (auto simp: hex_str.simps [of n])
qed

lemma hexdigest_not_newline: "CHR 0x0A \<notin> set (hexdigest sha d)"
  using hex_str_not_newline [of "sha d"] by (auto simp: hexdigest_def pad_left_def)

lemma unseal_seal [simp]: "unseal sha (seal sha d) = Some d"
proof -
  have all: "\<And>c. c \<in> set (hexdigest sha d) \<Longrightarrow> c \<noteq> CHR 0x0A" using hexdigest_not_newline by blast
  have "takeWhile (\<lambda>c. c \<noteq> CHR 0x0A) (seal sha d) = hexdigest sha d"
    unfolding seal_def by (subst takeWhile_append2) (use all in auto)
  then show ?thesis by (simp add: unseal_def Let_def seal_def)
qed

section \<open>Effects of a write\<close>

lemma key_comps_nonempty [simp]: "key_comps key \<noteq> []"
  by (simp add: key_comps_def)

lemma key_path_file: "names_file key \<Longrightarrow> key_path key = key_dir key @ [last (key_comps key)]"
proof -
  assume "names_file key"
  moreover have "key_comps key = butlast (key_comps key) @ [last (key_comps key)]" by simp
  then have "key_path key = key_dir key @ real_path [last (key_comps key)]"
    unfolding key_path_def key_dir_def real_path_def by (metis filter_append)
  ultimately show ?thesis by (simp add: real_path_def names_file_def)
qed

lemma key_path_not_tmp: "names_file key \<Longrightarrow> key_path key \<noteq> tmp_path key"
  by (simp add: key_path_file tmp_path_def tmp_suffix_def)

lemma make_dirs_files: "make_dirs fs p = Some fs' \<Longrightarrow> fs_files fs' = fs_files fs"
  by (auto simp: make_dirs_def split: if_splits)

lemma write_steps_committed:
  assumes "write_steps bad fs key blob = (fs', None)"
  shows "names_file key" and "key_path key \<notin> set (fs_dirs fs')"
    and "dget (fs_files fs') p =
      (if p = key_path key then Some blob else if p = tmp_path key then None else dget (fs_files fs) p)"
  using assms key_path_not_tmp [of key]
  by (auto simp: write_steps_def Let_def dict_simps make_dirs_files split: option.splits if_splits)

lemma write_steps_failed:
  assumes "write_steps bad fs key blob = (fs', Some st)" and "p \<noteq> tmp_path key"
  shows "dget (fs_files fs') p = dget (fs_files fs) p"
  using assms
  by (auto simp: write_steps_def Let_def dict_simps make_dirs_files split: option.splits if_splits)

lemma drop_tmp_files:
  "drop_tmp fs key = (fs', r) \<Longrightarrow> p \<noteq> tmp_path key \<Longrightarrow> dget (fs_files fs') p = dget (fs_files fs) p"
  by (auto simp: drop_tmp_def dict_simps split: if_splits)

lemma drop_tmp_gone: "drop_tmp fs key = (fs', r) \<Longrightarrow> dget (fs_files fs') (tmp_path key) = None"
  by (auto simp: drop_tmp_def dict_simps split: if_splits)

lemma key_path_not_tmp_path: "key_path key \<noteq> tmp_path key"
proof (cases "names_file key")
  case False
  have "key_comps key = butlast (key_comps key) @ [last (key_comps key)]" by simp
  then have "key_path key = key_dir key @ real_path [last (key_comps key)]"
    unfolding key_path_def key_dir_def real_path_def by (metis filter_append)
  with False have "key_path key = key_dir key" by (auto simp: real_path_def names_file_def)
  then show ?thesis by (simp add: tmp_path_def)
qed (rule key_path_not_tmp)

lemma store_emit_frame [simp]:
  "st_fs (fst (store_emit pub s n k r)) = st_fs s"
  "st_held (fst (store_emit pub s n k r)) = st_held s"
  "st_faults (fst (store_emit pub s n k r)) = st_faults s"
  by (auto simp: store_emit_def Let_def split: option.splits prod.splits)

lemma store_emit_fs: "store_emit pub s n k r = (s', ok) \<Longrightarrow> st_fs s' = st_fs s"
  by (metis fst_conv store_emit_frame(1))

lemma store_emit_quiet: "st_bus s = None \<Longrightarrow> store_emit pub s n k r = (s, True)"
  by (simp add: store_emit_def)

text \<open>The value a file path holds, whatever the key it was written under.\<close>

definition file_at :: "'b store \<Rightarrow> path \<Rightarrow> string option" where
  "file_at s p = dget (fs_files (st_fs s)) p"

lemma store_write_outcome:
  assumes "store_write pub E s key data = (s', res)"
  obtains (bad_key) "\<not> check_key key" "s' = s" "\<exists>m. res = Inl (BadKey m)"
  | (committed) "check_key key" "names_file key" "res = Inr ''committed'' \<or> res = Inl BusRefused"
      "key_path key \<notin> set (fs_dirs (st_fs s'))"
      "\<And>p. file_at s' p = (if p = key_path key then Some (seal (en_sha E) data)
         else if p = tmp_path key then None else file_at s p)"
  | (failed) "check_key key" "\<exists>e. res = Inl e" "\<And>p. p \<noteq> tmp_path key \<Longrightarrow> file_at s' p = file_at s p"
      "file_at s' (tmp_path key) = None"
proof (cases "check_key key")
  case False
  with assms show thesis by (intro bad_key) (auto simp: store_write_def)
next
  case True
  let ?bad = "case st_faults s of [] \<Rightarrow> None | f # _ \<Rightarrow> f"
  obtain fs o' where w: "write_steps ?bad (st_fs s) key (seal (en_sha E) data) = (fs, o')"
    by (cases "write_steps ?bad (st_fs s) key (seal (en_sha E) data)")
  show thesis
  proof (cases o')
    case None
    let ?s = "s\<lparr>st_faults := tl (st_faults s), st_fs := fs\<rparr>"
    obtain s1 ok where em: "store_emit pub ?s ''storage.committed'' key [] = (s1, ok)"
      by (cases "store_emit pub ?s ''storage.committed'' key []")
    then have s': "s' = s1" and res: "res = Inr ''committed'' \<or> res = Inl BusRefused"
      using assms True w None by (auto simp: store_write_def Let_def split: bool.splits)
    have "st_fs s' = fs" using store_emit_fs [OF em] s' by simp
    with write_steps_committed [OF w [unfolded None]] True res show thesis
      by (intro committed) (auto simp: file_at_def)
  next
    case (Some st)
    let ?s = "\<lambda>fs. s\<lparr>st_faults := tl (st_faults s), st_fs := fs\<rparr>"
    obtain fs1 ok1 where d: "drop_tmp fs key = (fs1, ok1)" by (cases "drop_tmp fs key")
    have "st_fs s' = fs1 \<and> (\<exists>e. res = Inl e)"
    proof (cases ok1)
      case False
      with assms True w Some d show ?thesis by (auto simp: store_write_def Let_def)
    next
      case True
      obtain s1 ok where em: "store_emit pub (?s fs1) ''storage.rejected'' key (en_repr E st) = (s1, ok)"
        by (cases "store_emit pub (?s fs1) ''storage.rejected'' key (en_repr E st)")
      with assms \<open>check_key key\<close> w Some d True have "s' = s1 \<and> (\<exists>e. res = Inl e)"
        by (auto simp: store_write_def Let_def split: bool.splits)
      with store_emit_fs [OF em] show ?thesis by simp
    qed
    with write_steps_failed [OF w [unfolded Some]] drop_tmp_files [OF d] drop_tmp_gone [OF d] True show thesis
      by (intro failed) (auto simp: file_at_def)
  qed
qed

lemma store_read_file:
  "store_read E s key = Inr d \<longleftrightarrow>
     check_key key \<and> names_file key
     \<and> (\<exists>blob. file_at s (key_path key) = Some blob \<and> unseal (en_sha E) blob = Some d)"
  by (auto simp: store_read_def path_exists_def file_at_def split: option.splits if_splits)

end
