(* ===== verification/StoragePort.thy ===== *)
theory StoragePort
  imports Storage
begin

text \<open>
  The namespace handle of \<open>storage/store.py\<close> provides the storage port: on the keys that
  name one file each, its verbs satisfy the laws of the locale \<open>blobs\<close>.
\<close>

section \<open>Plain keys\<close>

text \<open>The keys of a namespace that name one file each.\<close>

definition plain_comps :: "string \<Rightarrow> string list \<Rightarrow> bool" where
  "plain_comps ns cs \<longleftrightarrow>
     2 \<le> length cs \<and> hd cs = ns \<and> list_all (\<lambda>c. c \<noteq> [] \<and> c \<noteq> ''.'') cs
     \<and> \<not> ends_with tmp_suffix (last cs) \<and> last cs \<noteq> lock_name"

definition plain_key :: "string \<Rightarrow> string \<Rightarrow> bool" where
  "plain_key ns key \<longleftrightarrow> check_key key \<and> plain_comps ns (key_comps key)"

lemma real_path_plain: "list_all (\<lambda>c. c \<noteq> [] \<and> c \<noteq> ''.'') cs \<Longrightarrow> real_path cs = cs"
  unfolding real_path_def list_all_iff by (rule filter_True) blast

lemma plain_key_path: "plain_key ns key \<Longrightarrow> key_path key = key_comps key"
  by (auto simp: plain_key_def plain_comps_def key_path_def intro: real_path_plain)

lemma plain_names_file: "plain_key ns key \<Longrightarrow> names_file key"
  by (auto simp: plain_key_def plain_comps_def names_file_def list_all_iff)

lemma join_key_comps [simp]: "join_with ''/'' (key_comps key) = key"
  by (simp add: key_comps_def join_split)

lemma plain_key_inject:
  "plain_key ns k \<Longrightarrow> plain_key ns k' \<Longrightarrow> key_path k = key_path k' \<longleftrightarrow> k = k'"
  by (metis plain_key_path join_key_comps)

lemma tmp_path_not_plain: "plain_key ns k \<Longrightarrow> key_path k \<noteq> tmp_path k'"
proof
  assume k: "plain_key ns k" and "key_path k = tmp_path k'"
  then have "last (key_comps k) = last (key_comps k') @ tmp_suffix"
    by (simp add: plain_key_path tmp_path_def)
  then have "ends_with tmp_suffix (last (key_comps k))" by (simp add: ends_with_def)
  with k show False by (simp add: plain_key_def plain_comps_def)
qed

lemma plain_guard: "plain_key ns k \<Longrightarrow> ns_guard ns k = None"
proof -
  assume k: "plain_key ns k"
  then obtain c cs where cs: "key_comps k = ns # c # cs"
    by (cases "key_comps k"; cases "tl (key_comps k)") (auto simp: plain_key_def plain_comps_def)
  have "k = ns @ ''/'' @ join_with ''/'' (c # cs)"
    by (subst join_key_comps [of k, symmetric]) (simp add: cs)
  then have "take (Suc (length ns)) k = ns @ ''/''" by simp
  with k show ?thesis by (simp add: ns_guard_def plain_key_def)
qed

lemma key_comps_append: "key_comps (a @ ''/'' @ b) = key_comps a @ key_comps b"
  by (simp add: key_comps_def split_on_append_gen)


section \<open>The namespace handle keeps the port's laws\<close>

definition ns_port :: "'b publisher \<Rightarrow> store_env \<Rightarrow> string \<Rightarrow> 'b store blob_port" where
  "ns_port pub E ns =
     \<lparr>bp_write = ns_write pub E ns, bp_write_once = ns_write_once pub E ns,
      bp_read = ns_read E ns, bp_keys = ns_keys ns\<rparr>"

definition listed :: "path \<Rightarrow> path \<Rightarrow> bool" where
  "listed r p \<longleftrightarrow> below r p \<and> \<not> ends_with tmp_suffix (last p) \<and> last p \<noteq> lock_name"

text \<open>No event bus, and nothing in the namespace but sealed plain keys (and leftovers).\<close>

definition vault_good :: "store_env \<Rightarrow> string \<Rightarrow> 'b store \<Rightarrow> bool" where
  "vault_good E ns s \<longleftrightarrow>
     st_bus s = None \<and> wf_dict (fs_files (st_fs s))
     \<and> (\<forall>p b. file_at s p = Some b \<longrightarrow> listed [ns] p \<longrightarrow>
          (\<exists>k. plain_key ns k \<and> key_path k = p) \<and> unseal (en_sha E) b \<noteq> None)"

lemma blob_at_file:
  assumes "plain_key ns k"
  shows "blob_at (ns_port pub E ns) s k = Option.bind (file_at s (key_path k)) (unseal (en_sha E))"
proof -
  have "bp_read (ns_port pub E ns) s k = store_read E s k"
    using plain_guard [OF assms] by (simp add: ns_port_def ns_read_def)
  moreover have "check_key k" "names_file k"
    using assms plain_names_file by (auto simp: plain_key_def)
  ultimately have "blob_at (ns_port pub E ns) s k = Some d \<longleftrightarrow>
      Option.bind (file_at s (key_path k)) (unseal (en_sha E)) = Some d" for d
    using store_read_file [of E s k d] by (auto simp: blob_at_def bind_eq_Some_conv split: sum.splits)
  then show ?thesis by (metis not_None_eq)
qed

lemma store_write_frame:
  assumes "st_bus s = None" and "store_write pub E s key d = (s', res)"
  shows "st_bus s' = None" and "res \<noteq> Inl BusRefused"
    and "wf_dict (fs_files (st_fs s)) \<Longrightarrow> wf_dict (fs_files (st_fs s'))"
proof -
  have wf: "wf_dict (fs_files fs) \<Longrightarrow> wf_dict (fs_files (fst (write_steps bad fs key b)))" for bad fs b
    by (auto simp: write_steps_def Let_def make_dirs_files split: option.splits)
  have wf': "wf_dict (fs_files fs) \<Longrightarrow> wf_dict (fs_files (fst (drop_tmp fs key)))" for fs
    by (auto simp: drop_tmp_def)
  from assms show "st_bus s' = None" "res \<noteq> Inl BusRefused"
    by (auto simp: store_write_def Let_def store_emit_quiet split: prod.splits option.splits if_splits bool.splits)
  assume "wf_dict (fs_files (st_fs s))"
  with assms show "wf_dict (fs_files (st_fs s'))"
    by (auto simp: store_write_def Let_def store_emit_quiet split: prod.splits option.splits if_splits bool.splits)
      (metis fst_conv wf wf')+
qed

lemma listed_not_tmp: "listed [ns] p \<Longrightarrow> p \<noteq> tmp_path k"
  by (auto simp: listed_def tmp_path_def ends_with_def)

lemma ns_write_plain: "plain_key ns k \<Longrightarrow> bp_write (ns_port pub E ns) s k d = store_write pub E s k d"
  by (simp add: ns_port_def ns_write_def plain_guard)

lemma vault_write_good:
  assumes g: "vault_good E ns s" and k: "plain_key ns k" and w: "store_write pub E s k d = (s', res)"
  shows "vault_good E ns s'"
proof -
  have bus: "st_bus s = None" and wf: "wf_dict (fs_files (st_fs s))" using g by (auto simp: vault_good_def)
  note frame = store_write_frame [OF bus w]
  have "(\<exists>k. plain_key ns k \<and> key_path k = p) \<and> unseal (en_sha E) b \<noteq> None"
    if "file_at s' p = Some b" "listed [ns] p" for p b
    using w
  proof (cases rule: store_write_outcome)
    case bad_key
    then show ?thesis using g that by (simp add: vault_good_def)
  next
    case committed
    show ?thesis
    proof (cases "p = key_path k")
      case True
      with that committed k show ?thesis by auto
    next
      case False
      with that committed(5) [of p] listed_not_tmp [OF that(2)] have "file_at s p = Some b" by simp
      with g that(2) show ?thesis by (simp add: vault_good_def)
    qed
  next
    case failed
    with that listed_not_tmp [OF that(2)] have "file_at s p = Some b" by simp
    with g that(2) show ?thesis by (simp add: vault_good_def)
  qed
  with frame wf show ?thesis by (simp add: vault_good_def)
qed

lemma listed_ns: "listed (ns # r) p \<Longrightarrow> listed [ns] p"
  by (cases p) (auto simp: listed_def below_def)

lemma vault_keys:
  assumes g: "vault_good E ns s" and pre: "plain_key ns pre"
  shows "\<exists>ks. bp_keys (ns_port pub E ns) s pre = Inr ks \<and> sorted ks \<and> distinct ks
    \<and> (\<forall>k. k \<in> set ks \<longleftrightarrow> plain_key ns k \<and> blob_at (ns_port pub E ns) s k \<noteq> None
          \<and> (\<exists>rest. k = pre @ ''/'' @ rest))"
proof -
  let ?ps = "filter (listed (key_path pre)) (dkeys (fs_files (st_fs s)))"
  let ?ks = "sort (map (join_with ''/'') ?ps)"
  obtain r where r: "key_path pre = ns # r"
    using pre by (cases "key_comps pre") (auto simp: plain_key_path plain_key_def plain_comps_def)
  have plain: "\<exists>k. plain_key ns k \<and> key_path k = p \<and> join_with ''/'' p = k
      \<and> blob_at (ns_port pub E ns) s k \<noteq> None" if p: "p \<in> set ?ps" for p
  proof -
    have "dget (fs_files (st_fs s)) p \<noteq> None" using p by (simp add: map_of_eq_None_iff)
    then obtain b where b: "file_at s p = Some b" by (auto simp: file_at_def)
    moreover have "listed [ns] p" using p r by (auto intro: listed_ns)
    ultimately obtain k where "plain_key ns k" "key_path k = p" "unseal (en_sha E) b \<noteq> None"
      using g by (auto simp: vault_good_def)
    with b show ?thesis by (auto simp: blob_at_file plain_key_path)
  qed
  have keys: "bp_keys (ns_port pub E ns) s pre = Inr ?ks"
    using pre plain_guard [OF pre]
    by (auto simp: ns_port_def ns_keys_def store_keys_def plain_key_def check_key_def listed_def [abs_def])
  have "inj_on (join_with ''/'') (set ?ps)"
    by (rule inj_onI) (metis plain)
  then have dist: "distinct ?ks"
    using g by (simp add: distinct_map vault_good_def wf_dict_def)
  have mem: "k \<in> set ?ks \<longleftrightarrow> plain_key ns k \<and> blob_at (ns_port pub E ns) s k \<noteq> None
      \<and> (\<exists>rest. k = pre @ ''/'' @ rest)" for k
  proof
    assume "k \<in> set ?ks"
    then obtain p where p: "p \<in> set ?ps" "k = join_with ''/'' p" by auto
    from plain [OF this(1)] p(2) have k: "plain_key ns k" "key_path k = p" "blob_at (ns_port pub E ns) s k \<noteq> None" by auto
    have "below (key_comps pre) (key_comps k)"
      using p(1) k pre by (auto simp: listed_def plain_key_path)
    then have "key_comps k = key_comps pre @ drop (length (key_comps pre)) (key_comps k)"
      "drop (length (key_comps pre)) (key_comps k) \<noteq> []"
      by (auto simp: below_def) (metis append_take_drop_id)
    then have "k = pre @ ''/'' @ join_with ''/'' (drop (length (key_comps pre)) (key_comps k))"
      by (metis join_key_comps join_with_append key_comps_nonempty)
    with k show "plain_key ns k \<and> blob_at (ns_port pub E ns) s k \<noteq> None \<and> (\<exists>rest. k = pre @ ''/'' @ rest)" by blast
  next
    assume k: "plain_key ns k \<and> blob_at (ns_port pub E ns) s k \<noteq> None \<and> (\<exists>rest. k = pre @ ''/'' @ rest)"
    then obtain rest where "key_comps k = key_comps pre @ key_comps rest" by (auto simp: key_comps_append [simplified])
    moreover have "key_path k = key_comps k" "key_path pre = key_comps pre"
      using k pre plain_key_path by blast+
    ultimately have "below (key_path pre) (key_path k)" by (simp add: below_def)
    then have "listed (key_path pre) (key_path k)"
      using k by (auto simp: listed_def plain_key_path plain_key_def plain_comps_def)
    moreover have "key_path k \<in> set (dkeys (fs_files (st_fs s)))"
      using k by (auto simp: blob_at_file file_at_def map_of_eq_None_iff dom_map_of_conv_image_fst [symmetric]
          split: Option.bind_splits)
    ultimately show "k \<in> set ?ks" using k by (force simp: plain_key_path image_iff)
  qed
  from keys dist mem show ?thesis by (intro exI [of _ ?ks]) simp
qed

lemma ns_write_once_plain:
  assumes "plain_key ns k"
  shows "bp_write_once (ns_port pub E ns) s k d =
    (if path_exists (st_fs s) k then (s, Inl (KeyExists (''storage.key_exists:'' @ k)))
     else store_write pub E s k d)"
  using plain_guard [OF assms] assms
  by (simp add: ns_port_def ns_write_once_def store_write_once_def store_exists_def plain_key_def)

interpretation vault: blobs "ns_port pub E ns" "plain_key ns" "vault_good E ns" for pub E ns
proof
  fix s k d s' k' and r :: string
  assume g: "vault_good E ns s" and k: "plain_key ns k" and k': "plain_key ns k'"
    and w: "bp_write (ns_port pub E ns) s k d = (s', Inr r)"
  from w have "store_write pub E s k d = (s', Inr r)" by (simp add: ns_write_plain [OF k])
  then show "blob_at (ns_port pub E ns) s' k' = (if k' = k then Some d else blob_at (ns_port pub E ns) s k')"
    using tmp_path_not_plain [OF k'] plain_key_inject [OF k' k]
    by (cases rule: store_write_outcome) (auto simp: blob_at_file [OF k'])
next
  fix s k d s' k' and e :: store_exn
  assume g: "vault_good E ns s" and k: "plain_key ns k" and k': "plain_key ns k'"
    and w: "bp_write (ns_port pub E ns) s k d = (s', Inl e)"
  from w have w: "store_write pub E s k d = (s', Inl e)" by (simp add: ns_write_plain [OF k])
  have "e \<noteq> BusRefused" using store_write_frame(2) [OF _ w] g by (auto simp: vault_good_def)
  with w show "blob_at (ns_port pub E ns) s' k' = blob_at (ns_port pub E ns) s k'"
    using tmp_path_not_plain [OF k']
    by (cases rule: store_write_outcome) (auto simp: blob_at_file [OF k'])
next
  fix s k d s' and res :: "store_exn + string"
  assume g: "vault_good E ns s" and k: "plain_key ns k" and w: "bp_write (ns_port pub E ns) s k d = (s', res)"
  from w show "vault_good E ns s'" by (simp add: ns_write_plain [OF k] vault_write_good [OF g k])
next
  fix s k d
  assume k: "plain_key ns k" and "blob_at (ns_port pub E ns) s k \<noteq> None"
  then have "path_exists (st_fs s) k"
    using plain_names_file [OF k] by (auto simp: blob_at_file path_exists_def file_at_def split: Option.bind_splits)
  then show "\<exists>m. bp_write_once (ns_port pub E ns) s k d = (s, Inl (KeyExists m))"
    by (simp add: ns_write_once_plain [OF k])
next
  fix s k d s' and r :: string
  assume k: "plain_key ns k" and w: "bp_write_once (ns_port pub E ns) s k d = (s', Inr r)"
  then have "\<not> path_exists (st_fs s) k" "store_write pub E s k d = (s', Inr r)"
    by (auto simp: ns_write_once_plain split: if_splits)
  then show "blob_at (ns_port pub E ns) s k = None \<and> bp_write (ns_port pub E ns) s k d = (s', Inr r)"
    using plain_names_file [OF k] k by (auto simp: blob_at_file path_exists_def file_at_def ns_write_plain)
next
  fix s k d s' and e :: store_exn
  assume k: "plain_key ns k" and w: "bp_write_once (ns_port pub E ns) s k d = (s', Inl e)"
  then show "s' = s \<or> bp_write (ns_port pub E ns) s k d = (s', Inl e)"
    by (auto simp: ns_write_once_plain ns_write_plain split: if_splits)
next
  fix s :: "'a store" and pre
  assume "vault_good E ns s" and "plain_key ns pre"
  then show "\<exists>ks. bp_keys (ns_port pub E ns) s pre = Inr ks \<and> sorted ks \<and> distinct ks
    \<and> (\<forall>k. (k \<in> set ks) = (plain_key ns k \<and> blob_at (ns_port pub E ns) s k \<noteq> None
          \<and> (\<exists>rest. k = pre @ ''/'' @ rest)))"
    by (rule vault_keys)
qed


end
