(* ===== verification/StorageJournal.thy ===== *)
theory StorageJournal
  imports StoragePort
begin

text \<open>
  The append-only journal with immutable checkpoints (\<open>storage/journal.py\<close>), over any
  storage port. The lemmas are proved once from the port's laws: a journal whose operations
  may fail at any write always reads back as the entries appended so far, and reconstruction
  is the newest checkpoint with the entries after it.
\<close>

datatype journal_exn = BadCheckpointSeq int | BadSeqName string | FromStore store_exn

record journal =
  jr_ns :: string
  jr_name :: string
  jr_next :: nat

definition entry_prefix :: "string \<Rightarrow> string \<Rightarrow> string" where
  "entry_prefix ns name = ns @ ''/journal/'' @ name"

definition check_prefix :: "string \<Rightarrow> string \<Rightarrow> string" where
  "check_prefix ns name = ns @ ''/checkpoint/'' @ name"

definition entry_key :: "string \<Rightarrow> string \<Rightarrow> nat \<Rightarrow> string" where
  "entry_key ns name seq = entry_prefix ns name @ ''/'' @ str012 seq"

definition checkpoint_key :: "string \<Rightarrow> string \<Rightarrow> nat \<Rightarrow> string" where
  "checkpoint_key ns name seq = check_prefix ns name @ ''/'' @ str012 seq"

definition journal_open :: "'s blob_port \<Rightarrow> 's \<Rightarrow> string \<Rightarrow> string \<Rightarrow> store_exn + journal" where
  "journal_open P s ns name =
     (case bp_keys P s (entry_prefix ns name) of
        Inl e \<Rightarrow> Inl e
      | Inr ks \<Rightarrow> Inr \<lparr>jr_ns = ns, jr_name = name, jr_next = length ks\<rparr>)"

definition journal_append ::
  "'s blob_port \<Rightarrow> 's \<Rightarrow> journal \<Rightarrow> string \<Rightarrow> ('s \<times> journal) \<times> (store_exn + nat)" where
  "journal_append P s j data =
     (case bp_write_once P s (entry_key (jr_ns j) (jr_name j) (jr_next j)) data of
        (s', Inl e) \<Rightarrow> ((s', j), Inl e)
      | (s', Inr _) \<Rightarrow> ((s', j\<lparr>jr_next := Suc (jr_next j)\<rparr>), Inr (jr_next j)))"

fun read_all :: "'s blob_port \<Rightarrow> 's \<Rightarrow> string list \<Rightarrow> store_exn + string list" where
  "read_all P s [] = Inr []"
| "read_all P s (k # ks) =
     (case bp_read P s k of
        Inl e \<Rightarrow> Inl e
      | Inr d \<Rightarrow> (case read_all P s ks of Inl e \<Rightarrow> Inl e | Inr ds \<Rightarrow> Inr (d # ds)))"

text \<open>\<open>entries(after_seq)\<close> with \<open>first = after_seq + 1\<close>.\<close>

definition journal_entries :: "'s blob_port \<Rightarrow> 's \<Rightarrow> journal \<Rightarrow> nat \<Rightarrow> store_exn + string list" where
  "journal_entries P s j first =
     read_all P s (map (entry_key (jr_ns j) (jr_name j)) [first..<jr_next j])"

definition journal_checkpoint ::
  "'s blob_port \<Rightarrow> 's \<Rightarrow> journal \<Rightarrow> int \<Rightarrow> string \<Rightarrow> 's \<times> (journal_exn + unit)" where
  "journal_checkpoint P s j seq data =
     (if \<not> (0 \<le> seq \<and> seq < int (jr_next j)) then (s, Inl (BadCheckpointSeq seq))
      else case bp_write_once P s (checkpoint_key (jr_ns j) (jr_name j) (nat seq)) data of
             (s', Inl e) \<Rightarrow> (s', Inl (FromStore e))
           | (s', Inr _) \<Rightarrow> (s', Inr ()))"

definition seq_of_key :: "string \<Rightarrow> journal_exn + nat" where
  "seq_of_key key =
     (let w = last (split_on (CHR ''/'') key) in
      if w \<noteq> [] \<and> list_all is_digit w then Inr (str_nat w) else Inl (BadSeqName w))"

definition latest_checkpoint ::
  "'s blob_port \<Rightarrow> 's \<Rightarrow> journal \<Rightarrow> journal_exn + (nat \<times> string) option" where
  "latest_checkpoint P s j =
     (case bp_keys P s (check_prefix (jr_ns j) (jr_name j)) of
        Inl e \<Rightarrow> Inl (FromStore e)
      | Inr [] \<Rightarrow> Inr None
      | Inr (k # ks) \<Rightarrow>
          (let newest = last (k # ks) in
           case seq_of_key newest of
             Inl e \<Rightarrow> Inl e
           | Inr seq \<Rightarrow>
               (case bp_read P s newest of
                  Inl e \<Rightarrow> Inl (FromStore e)
                | Inr d \<Rightarrow> Inr (Some (seq, d)))))"

definition journal_reconstruct ::
  "'s blob_port \<Rightarrow> 's \<Rightarrow> journal \<Rightarrow> journal_exn + string option \<times> string list" where
  "journal_reconstruct P s j =
     (case latest_checkpoint P s j of
        Inl e \<Rightarrow> Inl e
      | Inr c \<Rightarrow>
          (case journal_entries P s j (case c of None \<Rightarrow> 0 | Some (seq, _) \<Rightarrow> Suc seq) of
             Inl e \<Rightarrow> Inl (FromStore e)
           | Inr ds \<Rightarrow> Inr (map_option snd c, ds)))"

section \<open>Zero-padded sequence numbers\<close>

lemma str_nat_replicate: "str_nat (replicate n (CHR ''0'') @ s) = str_nat s"
proof (induction n)
  case (Suc n)
  have "digit_val (CHR ''0'') = 0" by code_simp
  with Suc show ?case by (simp add: str_nat_def)
qed simp

lemma str_nat_str012 [simp]: "str_nat (str012 n) = n"
  by (simp add: str012_def pad_left_def str_nat_replicate)

lemma str012_inject [simp]: "str012 m = str012 n \<longleftrightarrow> m = n"
  by (metis str_nat_str012)

lemma is_digit_zero [simp]: "is_digit (CHR ''0'')"
  by code_simp

lemma str012_chars: "c \<in> set (str012 n) \<Longrightarrow> is_digit c"
  using is_digit_nat_str [of n] by (auto simp: str012_def pad_left_def list_all_iff)

lemma str012_nonempty [simp]: "str012 n \<noteq> []"
  by (simp add: str012_def pad_left_def)

text \<open>Strings of one length compare as their numbers.\<close>

fun digits :: "nat \<Rightarrow> nat \<Rightarrow> string" where
  "digits 0 n = []"
| "digits (Suc w) n = digits w (n div 10) @ [digit (n mod 10)]"

lemma length_digits [simp]: "length (digits w n) = w"
  by (induction w arbitrary: n) auto

lemma digits_zero: "digits w 0 = replicate w (CHR ''0'')"
proof (induction w)
  case (Suc w)
  have "digit 0 = CHR ''0''" by code_simp
  with Suc show ?case by (simp add: replicate_append_same)
qed simp

lemma length_nat_str: "n < 10 ^ Suc w \<Longrightarrow> length (nat_str n) \<le> Suc w"
proof (induction w arbitrary: n)
  case 0
  then show ?case by (simp add: nat_str.simps [of n])
next
  case (Suc w)
  then have "n div 10 < 10 ^ Suc w" by simp
  from Suc.IH [OF this] show ?case by (simp add: nat_str.simps [of n])
qed

lemma pad_nat_str: "n < 10 ^ Suc w \<Longrightarrow> pad_left (Suc w) (nat_str n) = digits (Suc w) n"
proof (induction w arbitrary: n)
  case 0
  then show ?case by (simp add: nat_str.simps [of n] pad_left_def)
next
  case (Suc w)
  then have lt: "n div 10 < 10 ^ Suc w" by simp
  show ?case
  proof (cases "n < 10")
    case True
    then show ?thesis
      by (simp add: nat_str.simps [of n] pad_left_def digits_zero replicate_append_same [symmetric])
  next
    case False
    then have "pad_left (Suc (Suc w)) (nat_str n) = pad_left (Suc w) (nat_str (n div 10)) @ [digit (n mod 10)]"
      by (simp add: nat_str.simps [of n] pad_left_def)
    with Suc.IH [OF lt] show ?thesis by simp
  qed
qed

lemma list_less_snoc:
  fixes u v :: "'a::linorder list"
  assumes "length u = length v"
  shows "u @ [a] < v @ [b] \<longleftrightarrow> u < v \<or> u = v \<and> a < b"
  using assms by (induction u v rule: list_induct2) auto

lemma digit_mono: "m < n \<Longrightarrow> n < 10 \<Longrightarrow> digit m < digit n"
  by (simp add: digit_def less_char_def)

lemma digits_less: "m < n \<Longrightarrow> n < 10 ^ w \<Longrightarrow> digits w m < digits w n"
proof (induction w arbitrary: m n)
  case (Suc w)
  have "m div 10 < n div 10 \<or> m div 10 = n div 10 \<and> m mod 10 < n mod 10"
  proof -
    have "m div 10 \<le> n div 10" using Suc.prems(1) by (simp add: div_le_mono)
    moreover have "m div 10 = n div 10 \<Longrightarrow> m mod 10 < n mod 10"
      using Suc.prems(1) by (metis div_mult_mod_eq nat_add_left_cancel_less)
    ultimately show ?thesis by linarith
  qed
  moreover have "n div 10 < 10 ^ w" using Suc.prems(2) by (simp add: div_less_iff_less_mult)
  ultimately show ?case
    using Suc.IH [of "m div 10" "n div 10"] digit_mono [of "m mod 10" "n mod 10"]
    by (auto simp: list_less_snoc)
qed simp

lemma str012_less: "m < n \<Longrightarrow> n < 10 ^ 12 \<Longrightarrow> str012 m < str012 n"
  using digits_less [of m n 12] pad_nat_str [of m 11] pad_nat_str [of n 11]
  by (simp add: str012_def)

section \<open>The journal over a port\<close>

lemma entry_key_inject [simp]: "entry_key ns name i = entry_key ns name i' \<longleftrightarrow> i = i'"
  by (simp add: entry_key_def)

lemma checkpoint_key_inject [simp]: "checkpoint_key ns name i = checkpoint_key ns name i' \<longleftrightarrow> i = i'"
  by (simp add: checkpoint_key_def)

lemma entry_not_checkpoint [simp]:
  "entry_key ns name i \<noteq> check_prefix ns name @ r" "checkpoint_key ns name i \<noteq> entry_prefix ns name @ r"
  by (simp_all add: entry_key_def checkpoint_key_def entry_prefix_def check_prefix_def)

lemma seq_of_checkpoint [simp]: "seq_of_key (checkpoint_key ns name i) = Inr i"
proof -
  have "CHR ''/'' \<notin> set (str012 i)" using str012_chars [of "CHR ''/''" i] by (auto simp: is_digit_def)
  then have "last (split_on (CHR ''/'') (checkpoint_key ns name i)) = str012 i"
    by (simp add: checkpoint_key_def split_on_append_gen split_on_fresh)
  then show ?thesis by (simp add: seq_of_key_def list_all_iff str012_chars)
qed

lemma list_less_append: "(u :: 'a::linorder list) @ v < u @ w \<longleftrightarrow> v < w"
  by (induction u) auto

lemma map_nth_drop: "map ((!) ds) [i..<length ds] = drop i ds"
  by (metis drop_map drop_upt map_nth plus_nat.add_0)

lemma last_sorted_max: "sorted xs \<Longrightarrow> x \<in> set xs \<Longrightarrow> x \<le> last (xs :: string list)"
  by (induction xs) auto

context blobs
begin

text \<open>
  The storage state holds a journal: the entries \<open>ds\<close> under their sequence numbers and
  nothing else below the prefix, and the checkpoints \<open>cs\<close>.
\<close>

definition holds :: "'s \<Rightarrow> string \<Rightarrow> string \<Rightarrow> string list \<Rightarrow> (nat \<rightharpoonup> string) \<Rightarrow> bool" where
  "holds s ns name ds cs \<longleftrightarrow>
     good s
     \<and> (\<forall>k. plain k \<longrightarrow> (\<exists>rest. k = entry_prefix ns name @ ''/'' @ rest) \<longrightarrow>
          blob_at P s k = (if \<exists>i < length ds. k = entry_key ns name i
                           then Some (ds ! (THE i. k = entry_key ns name i)) else None))
     \<and> (\<forall>k. plain k \<longrightarrow> (\<exists>rest. k = check_prefix ns name @ ''/'' @ rest) \<longrightarrow>
          blob_at P s k = (if \<exists>i. k = checkpoint_key ns name i
                           then cs (THE i. k = checkpoint_key ns name i) else None))"

definition plain_journal :: "string \<Rightarrow> string \<Rightarrow> bool" where
  "plain_journal ns name \<longleftrightarrow> plain (entry_prefix ns name) \<and> plain (check_prefix ns name)
     \<and> (\<forall>i. plain (entry_key ns name i) \<and> plain (checkpoint_key ns name i))"

lemma holds_fresh:
  assumes "good s" and p: "plain_journal ns name"
    and "bp_keys P s (entry_prefix ns name) = Inr []" and "bp_keys P s (check_prefix ns name) = Inr []"
  shows "holds s ns name [] (\<lambda>_. None)"
proof -
  have "blob_at P s k = None" if "bp_keys P s pre = Inr []" "plain pre" "plain k" "\<exists>rest. k = pre @ ''/'' @ rest" for k pre
    using keys_sorted [OF assms(1) that(2)] that by fastforce
  then show ?thesis
    using assms by (auto simp: holds_def plain_journal_def)
qed

lemma holds_entry:
  assumes "holds s ns name ds cs" and "plain_journal ns name"
  shows "blob_at P s (entry_key ns name i) = (if i < length ds then Some (ds ! i) else None)"
    and "blob_at P s (checkpoint_key ns name i) = cs i"
  using assms by (auto simp: holds_def plain_journal_def entry_key_def checkpoint_key_def)

lemma holds_append:
  assumes h: "holds s ns name ds cs" and p: "plain_journal ns name"
    and w: "bp_write_once P s (entry_key ns name (length ds)) d = (s', Inr r)"
  shows "holds s' ns name (ds @ [d]) cs"
proof -
  have g: "good s" and k: "plain (entry_key ns name (length ds))"
    using h p by (auto simp: holds_def plain_journal_def)
  have b: "plain k' \<Longrightarrow> blob_at P s' k' = (if k' = entry_key ns name (length ds) then Some d else blob_at P s k')" for k'
    using once_ok(3) [OF g k w] .
  have e: "blob_at P s' k' = (if \<exists>i < length (ds @ [d]). k' = entry_key ns name i
      then Some ((ds @ [d]) ! (THE i. k' = entry_key ns name i)) else None)"
    if "plain k'" "\<exists>rest. k' = entry_prefix ns name @ ''/'' @ rest" for k'
  proof (cases "\<exists>i. k' = entry_key ns name i")
    case True
    then obtain i where i: "k' = entry_key ns name i" by blast
    then show ?thesis
      using b [OF that(1)] holds_entry(1) [OF h p, of i] by (auto simp: nth_append)
  next
    case False
    then show ?thesis using b [OF that(1)] h that by (auto simp: holds_def)
  qed
  moreover have "blob_at P s' k' = (if \<exists>i. k' = checkpoint_key ns name i
      then cs (THE i. k' = checkpoint_key ns name i) else None)"
    if "plain k'" "\<exists>rest. k' = check_prefix ns name @ ''/'' @ rest" for k'
  proof -
    have "k' \<noteq> entry_key ns name (length ds)" using that(2) entry_not_checkpoint(1) by metis
    then have "blob_at P s' k' = blob_at P s k'" using b [OF that(1)] by simp
    with h that show ?thesis by (simp add: holds_def)
  qed
  ultimately show ?thesis using once_ok(1) [OF g k w] by (simp add: holds_def)
qed

lemma holds_checkpoint:
  assumes h: "holds s ns name ds cs" and p: "plain_journal ns name"
    and w: "bp_write_once P s (checkpoint_key ns name i) d = (s', Inr r)"
  shows "cs i = None" and "holds s' ns name ds (cs(i \<mapsto> d))"
proof -
  have g: "good s" and k: "plain (checkpoint_key ns name i)"
    using h p by (auto simp: holds_def plain_journal_def)
  show "cs i = None" using once_ok(2) [OF g k w] holds_entry(2) [OF h p] by simp
  have b: "plain k' \<Longrightarrow> blob_at P s' k' = (if k' = checkpoint_key ns name i then Some d else blob_at P s k')" for k'
    using once_ok(3) [OF g k w] .
  have "blob_at P s' k' = (if \<exists>i < length ds. k' = entry_key ns name i
      then Some (ds ! (THE i. k' = entry_key ns name i)) else None)"
    if "plain k'" "\<exists>rest. k' = entry_prefix ns name @ ''/'' @ rest" for k'
  proof -
    have "k' \<noteq> checkpoint_key ns name i" using that(2) entry_not_checkpoint(2) by metis
    then have "blob_at P s' k' = blob_at P s k'" using b [OF that(1)] by simp
    with h that show ?thesis by (simp add: holds_def)
  qed
  moreover have "blob_at P s' k' = (if \<exists>j. k' = checkpoint_key ns name j
      then (cs(i \<mapsto> d)) (THE j. k' = checkpoint_key ns name j) else None)"
    if "plain k'" "\<exists>rest. k' = check_prefix ns name @ ''/'' @ rest" for k'
  proof (cases "\<exists>j. k' = checkpoint_key ns name j")
    case True
    then obtain j where j: "k' = checkpoint_key ns name j" by blast
    then show ?thesis using b [OF that(1)] holds_entry(2) [OF h p, of j] by auto
  next
    case False
    then show ?thesis using b [OF that(1)] h that by (auto simp: holds_def)
  qed
  ultimately show "holds s' ns name ds (cs(i \<mapsto> d))" using once_ok(1) [OF g k w] by (simp add: holds_def)
qed

lemma holds_raised:
  assumes h: "holds s ns name ds cs" and "plain k" and w: "bp_write_once P s k d = (s', Inl e)"
  shows "holds s' ns name ds cs"
proof -
  have g: "good s" using h by (simp add: holds_def)
  from once_raised [OF g assms(2) w] have "plain k' \<Longrightarrow> blob_at P s' k' = blob_at P s k'" for k'
    using write_raised [OF g assms(2), of d s' e k'] by auto
  with h once_good [OF g assms(2) w] show ?thesis by (simp add: holds_def)
qed

lemma sim_append:
  assumes h: "holds s ns name ds cs" and p: "plain_journal ns name"
    and j: "j = \<lparr>jr_ns = ns, jr_name = name, jr_next = length ds\<rparr>"
    and a: "journal_append P s j d = ((s', j'), res)"
  shows "case res of
      Inl e \<Rightarrow> j' = j \<and> holds s' ns name ds cs
    | Inr seq \<Rightarrow> seq = length ds \<and> j' = j\<lparr>jr_next := length (ds @ [d])\<rparr> \<and> holds s' ns name (ds @ [d]) cs"
proof -
  have k: "plain (entry_key ns name (length ds))" using p by (simp add: plain_journal_def)
  show ?thesis
    using a j holds_append [OF h p] holds_raised [OF h k]
    by (auto simp: journal_append_def split: prod.splits sum.splits)
qed

lemma sim_checkpoint:
  assumes h: "holds s ns name ds cs" and p: "plain_journal ns name"
    and j: "j = \<lparr>jr_ns = ns, jr_name = name, jr_next = length ds\<rparr>"
    and a: "journal_checkpoint P s j seq d = (s', res)"
  shows "case res of
      Inl e \<Rightarrow> holds s' ns name ds cs
    | Inr _ \<Rightarrow> 0 \<le> seq \<and> nat seq < length ds \<and> cs (nat seq) = None \<and> holds s' ns name ds (cs(nat seq \<mapsto> d))"
proof (cases "0 \<le> seq \<and> seq < int (length ds)")
  case False
  then show ?thesis using a j h by (auto simp: journal_checkpoint_def)
next
  case True
  have k: "plain (checkpoint_key ns name (nat seq))" using p by (simp add: plain_journal_def)
  show ?thesis
    using a j True holds_checkpoint [OF h p] holds_raised [OF h k]
    by (auto simp: journal_checkpoint_def split: prod.splits sum.splits)
qed

lemma keys_entries:
  assumes h: "holds s ns name ds cs" and p: "plain_journal ns name"
  shows "\<exists>ks. bp_keys P s (entry_prefix ns name) = Inr ks \<and> length ks = length ds"
proof -
  have g: "good s" and pre: "plain (entry_prefix ns name)" using h p by (auto simp: holds_def plain_journal_def)
  from keys_sorted [OF this] obtain ks where ks: "bp_keys P s (entry_prefix ns name) = Inr ks" "distinct ks"
    "\<And>k. k \<in> set ks \<longleftrightarrow> plain k \<and> blob_at P s k \<noteq> None \<and> (\<exists>rest. k = entry_prefix ns name @ ''/'' @ rest)"
    by blast
  have "set ks = entry_key ns name ` {..<length ds}"
  proof (intro set_eqI iffI)
    fix k assume "k \<in> set ks"
    then show "k \<in> entry_key ns name ` {..<length ds}" using h by (auto simp: ks(3) holds_def split: if_splits)
  next
    fix k assume "k \<in> entry_key ns name ` {..<length ds}"
    then obtain i where i: "k = entry_key ns name i" "i < length ds" by auto
    have "\<exists>rest. k = entry_prefix ns name @ ''/'' @ rest" using i(1) by (auto simp: entry_key_def)
    with i p holds_entry(1) [OF h p, of i] show "k \<in> set ks" by (simp add: ks(3) plain_journal_def)
  qed
  then have "length ks = length ds"
    using distinct_card [OF ks(2)] by (simp add: card_image inj_on_def)
  with ks(1) show ?thesis by blast
qed

lemma sim_open:
  assumes "holds s ns name ds cs" and "plain_journal ns name"
  shows "journal_open P s ns name = Inr \<lparr>jr_ns = ns, jr_name = name, jr_next = length ds\<rparr>"
  using keys_entries [OF assms] by (auto simp: journal_open_def)

lemma read_all_map:
  "\<forall>i \<in> set is. bp_read P s (f i) = Inr (g i) \<Longrightarrow> read_all P s (map f is) = Inr (map g is)"
  by (induction "is") auto

lemma sim_entries:
  assumes h: "holds s ns name ds cs" and p: "plain_journal ns name"
    and j: "j = \<lparr>jr_ns = ns, jr_name = name, jr_next = length ds\<rparr>"
  shows "journal_entries P s j first = Inr (drop first ds)"
proof -
  have "\<forall>i \<in> set [first..<length ds]. bp_read P s (entry_key ns name i) = Inr (ds ! i)"
    using holds_entry(1) [OF h p] by (simp add: read_blob_at)
  from read_all_map [OF this] show ?thesis
    by (simp add: journal_entries_def j map_nth_drop)
qed

lemma sim_latest:
  assumes h: "holds s ns name ds cs" and p: "plain_journal ns name"
    and j: "j = \<lparr>jr_ns = ns, jr_name = name, jr_next = length ds\<rparr>"
    and dom: "dom cs \<subseteq> {..<10 ^ 12}"
  shows "latest_checkpoint P s j =
    Inr (if dom cs = {} then None else Some (Max (dom cs), the (cs (Max (dom cs)))))"
proof -
  have g: "good s" and pre: "plain (check_prefix ns name)" using h p by (auto simp: holds_def plain_journal_def)
  from keys_sorted [OF this] obtain ks where ks: "bp_keys P s (check_prefix ns name) = Inr ks" "sorted ks"
    "\<And>k. k \<in> set ks \<longleftrightarrow> plain k \<and> blob_at P s k \<noteq> None \<and> (\<exists>rest. k = check_prefix ns name @ ''/'' @ rest)"
    by blast
  have mem: "checkpoint_key ns name i \<in> set ks \<longleftrightarrow> i \<in> dom cs" for i
  proof -
    have "\<exists>rest. checkpoint_key ns name i = check_prefix ns name @ ''/'' @ rest" by (auto simp: checkpoint_key_def)
    with p holds_entry(2) [OF h p, of i] show ?thesis by (auto simp: ks(3) plain_journal_def)
  qed
  have all: "\<exists>i \<in> dom cs. k = checkpoint_key ns name i" if "k \<in> set ks" for k
  proof -
    from that have "plain k" "blob_at P s k \<noteq> None" "\<exists>rest. k = check_prefix ns name @ ''/'' @ rest"
      by (auto simp: ks(3))
    with h obtain i where "k = checkpoint_key ns name i" by (auto simp: holds_def split: if_splits)
    with that mem show ?thesis by blast
  qed
  show ?thesis
  proof (cases "ks = []")
    case True
    with mem have "dom cs = {}" by auto
    with True ks(1) show ?thesis by (simp add: latest_checkpoint_def j)
  next
    case False
    then obtain i where i: "i \<in> dom cs" "last ks = checkpoint_key ns name i" using all [of "last ks"] by auto
    have "i' \<le> i" if "i' \<in> dom cs" for i'
    proof (rule ccontr)
      assume "\<not> i' \<le> i"
      then have "str012 i < str012 i'" using str012_less [of i i'] that dom by auto
      then have "last ks < checkpoint_key ns name i'"
        by (simp add: i(2) checkpoint_key_def list_less_append)
      with last_sorted_max [OF ks(2)] mem that show False by (metis leD)
    qed
    then have max: "Max (dom cs) = i" using i(1) finite_subset [OF dom] by (intro Max_eqI) auto
    have "bp_read P s (last ks) = Inr (the (cs i))"
      using i holds_entry(2) [OF h p, of i] by (auto simp: read_blob_at)
    with i max False ks(1) show ?thesis
      by (cases ks) (auto simp: latest_checkpoint_def j simp del: last.simps)
  qed
qed

end

section \<open>Traces of journal operations\<close>

datatype jop = JAppend string | JCheckpoint int string

text \<open>
  A client that keeps going when an operation raises, and next to it the entries and the
  checkpoints that did land.
\<close>

fun journal_trace ::
  "'s blob_port \<Rightarrow> 's \<Rightarrow> journal \<Rightarrow> string list \<Rightarrow> (nat, string) dict \<Rightarrow> jop list
   \<Rightarrow> ('s \<times> journal) \<times> string list \<times> (nat, string) dict" where
  "journal_trace P s j ds cs [] = ((s, j), ds, cs)"
| "journal_trace P s j ds cs (JAppend d # ops) =
     (case journal_append P s j d of
        ((s', j'), Inl _) \<Rightarrow> journal_trace P s' j' ds cs ops
      | ((s', j'), Inr _) \<Rightarrow> journal_trace P s' j' (ds @ [d]) cs ops)"
| "journal_trace P s j ds cs (JCheckpoint n d # ops) =
     (case journal_checkpoint P s j n d of
        (s', Inl _) \<Rightarrow> journal_trace P s' j ds cs ops
      | (s', Inr _) \<Rightarrow> journal_trace P s' j ds ((nat n, d) # cs) ops)"

context blobs
begin

lemma trace_holds:
  assumes "holds s ns name ds (dget cs)" and "plain_journal ns name" and "dom (dget cs) \<subseteq> {..<length ds}"
    and "j = \<lparr>jr_ns = ns, jr_name = name, jr_next = length ds\<rparr>"
    and "journal_trace P s j ds cs ops = ((s', j'), ds', cs')"
  shows "holds s' ns name ds' (dget cs') \<and> dom (dget cs') \<subseteq> {..<length ds'} \<and> length ds' \<le> length ds + length ops
    \<and> j' = \<lparr>jr_ns = ns, jr_name = name, jr_next = length ds'\<rparr>"
  using assms
proof (induction ops arbitrary: s j ds cs)
  case Nil
  then show ?case by auto
next
  case (Cons op ops)
  show ?case
  proof (cases op)
    case (JAppend d)
    obtain s1 j1 res where a: "journal_append P s j d = ((s1, j1), res)"
      by (metis prod.exhaust_sel)
    note sim = sim_append [OF Cons.prems(1,2,4) a]
    show ?thesis
    proof (cases res)
      case (Inl e)
      with sim have "holds s1 ns name ds (dget cs)" "j1 = j" by auto
      from Cons.IH [OF this(1) Cons.prems(2,3), of j1] this(2) Cons.prems(4,5) JAppend a Inl show ?thesis by simp
    next
      case (Inr n)
      with sim have 1: "holds s1 ns name (ds @ [d]) (dget cs)" "j1 = j\<lparr>jr_next := length (ds @ [d])\<rparr>" by auto
      have "dom (dget cs) \<subseteq> {..<length (ds @ [d])}" using Cons.prems(3) by auto
      from Cons.IH [OF 1(1) Cons.prems(2) this, of j1] 1(2) Cons.prems(4,5) JAppend a Inr show ?thesis by simp
    qed
  next
    case (JCheckpoint n d)
    obtain s1 res where a: "journal_checkpoint P s j n d = (s1, res)" by (metis prod.exhaust_sel)
    note sim = sim_checkpoint [OF Cons.prems(1,2,4) a]
    show ?thesis
    proof (cases res)
      case (Inl e)
      with sim have "holds s1 ns name ds (dget cs)" by auto
      from Cons.IH [OF this Cons.prems(2,3,4)] Cons.prems(5) JCheckpoint a Inl show ?thesis by simp
    next
      case (Inr u)
      have eq: "dget ((nat n, d) # cs) = (dget cs)(nat n \<mapsto> d)" by (rule ext) simp
      from sim have "holds s1 ns name ds ((dget cs)(nat n \<mapsto> d))" and lt: "nat n < length ds" using Inr by auto
      then have 1: "holds s1 ns name ds (dget ((nat n, d) # cs))" "nat n < length ds"
        unfolding eq by blast+
      have "dom (dget ((nat n, d) # cs)) \<subseteq> {..<length ds}" using Cons.prems(3) lt by (force split: if_splits)
      moreover have "journal_trace P s1 j ds ((nat n, d) # cs) ops = ((s', j'), ds', cs')"
        using Cons.prems(5) JCheckpoint a Inr by simp
      ultimately have "holds s' ns name ds' (dget cs') \<and> dom (dget cs') \<subseteq> {..<length ds'} \<and> length ds' \<le> length ds + length ops
          \<and> j' = \<lparr>jr_ns = ns, jr_name = name, jr_next = length ds'\<rparr>"
        by (rule Cons.IH [OF 1(1) Cons.prems(2) _ Cons.prems(4)])
      then show ?thesis by simp
    qed
  qed
qed

lemma trace_reconstructs:
  assumes "holds s ns name [] (\<lambda>_. None)" and p: "plain_journal ns name"
    and "journal_trace P s \<lparr>jr_ns = ns, jr_name = name, jr_next = 0\<rparr> [] [] ops = ((s', j'), ds, cs)"
    and "length ops \<le> 10 ^ 12"
  shows "journal_entries P s' j' 0 = Inr ds" and "journal_open P s' ns name = Inr j'"
    and "journal_reconstruct P s' j' =
      (if dom (dget cs) = {} then Inr (None, ds)
       else Inr (dget cs (Max (dom (dget cs))), drop (Suc (Max (dom (dget cs)))) ds))"
proof -
  have t: "holds s' ns name ds (dget cs)" "dom (dget cs) \<subseteq> {..<length ds}" "length ds \<le> length ops"
      "j' = \<lparr>jr_ns = ns, jr_name = name, jr_next = length ds\<rparr>"
    using trace_holds [OF _ assms(2) _ _ assms(3)] assms(1) by auto
  show "journal_entries P s' j' 0 = Inr ds" using sim_entries [OF t(1) p t(4)] by simp
  show "journal_open P s' ns name = Inr j'" using sim_open [OF t(1) p] t(4) by simp
  have "dom (dget cs) \<subseteq> {..<10 ^ 12}" using t(2,3) assms(4) by auto
  note latest = sim_latest [OF t(1) p t(4) this]
  have "dom (dget cs) \<noteq> {} \<Longrightarrow> Max (dom (dget cs)) \<in> dom (dget cs)" using finite_subset [OF t(2)] by (intro Max_in) auto
  then show "journal_reconstruct P s' j' =
      (if dom (dget cs) = {} then Inr (None, ds)
       else Inr (dget cs (Max (dom (dget cs))), drop (Suc (Max (dom (dget cs)))) ds))"
    using latest sim_entries [OF t(1) p t(4)] by (auto simp: journal_reconstruct_def)
qed

end

end
