(* ===== verification/StorageProps.thy ===== *)
theory StorageProps
  imports StorageJournal
begin

text \<open>
  What storage promises: atomic writes, isolation of namespaces, and journals that read back
  exactly what landed, whatever faults the operating system injected.
\<close>

section \<open>Isolation\<close>

lemma guard_comps:
  assumes "ns_guard ns key = None" and "namespace_ok ns"
  shows "\<exists>cs. cs \<noteq> [] \<and> key_comps key = ns # cs"
proof -
  from assms(1) have "take (Suc (length ns)) key = ns @ ''/''" by (simp add: ns_guard_def split: if_splits)
  then have "key = ns @ ''/'' @ drop (Suc (length ns)) key" by (metis append.assoc append_take_drop_id)
  then have "key_comps key = key_comps ns @ key_comps (drop (Suc (length ns)) key)"
    by (metis key_comps_append)
  moreover have "key_comps ns = [ns]" using assms(2) by (simp add: namespace_ok_def key_comps_def split_on_fresh)
  ultimately show ?thesis by simp
qed

lemma guard_paths:
  assumes "ns_guard ns key = None" and "namespace_ok ns" and "ns \<noteq> ''.''"
  shows "\<exists>p. key_path key = ns # p" and "\<exists>p. key_dir key = ns # p" and "\<exists>p. tmp_path key = ns # p"
proof -
  obtain cs where cs: "cs \<noteq> []" "key_comps key = ns # cs" using guard_comps [OF assms(1,2)] by blast
  have "ns \<noteq> []" using assms(2) by (auto simp: namespace_ok_def check_key_def)
  with cs assms(3) show "\<exists>p. key_path key = ns # p" "\<exists>p. key_dir key = ns # p" "\<exists>p. tmp_path key = ns # p"
    by (simp_all add: key_path_def key_dir_def tmp_path_def real_path_def)
qed

text \<open>What one handle sees of the store: its files and directories.\<close>

definition same_view :: "string \<Rightarrow> 'b store \<Rightarrow> 'b store \<Rightarrow> bool" where
  "same_view ns s s' \<longleftrightarrow>
     (\<forall>p. p \<noteq> [] \<longrightarrow> hd p = ns \<longrightarrow> file_at s' p = file_at s p
        \<and> (p \<in> set (fs_dirs (st_fs s')) \<longleftrightarrow> p \<in> set (fs_dirs (st_fs s))))
     \<and> filter (\<lambda>p. p \<noteq> [] \<and> hd p = ns) (dkeys (fs_files (st_fs s')))
       = filter (\<lambda>p. p \<noteq> [] \<and> hd p = ns) (dkeys (fs_files (st_fs s)))"

lemma below_hd: "below (ns # r) p \<Longrightarrow> p \<noteq> [] \<and> hd p = ns"
  by (cases p) (auto simp: below_def)

lemma same_view_reads:
  assumes "same_view ns s s'" and "namespace_ok ns" and "ns \<noteq> ''.''"
  shows "ns_read E ns s' key = ns_read E ns s key" and "ns_exists ns s' key = ns_exists ns s key"
    and "ns_keys ns s' key = ns_keys ns s key"
proof -
  have "path_exists (st_fs s') key = path_exists (st_fs s) key"
      "dget (fs_files (st_fs s')) (key_path key) = dget (fs_files (st_fs s)) (key_path key)"
    if "ns_guard ns key = None"
    using guard_paths(1) [OF that assms(2,3)] assms(1)
    by (auto simp: same_view_def path_exists_def file_at_def)
  then show "ns_read E ns s' key = ns_read E ns s key" "ns_exists ns s' key = ns_exists ns s key"
    by (auto simp: ns_read_def store_read_def ns_exists_def store_exists_def split: option.splits)
  have keys: "store_keys s' k = store_keys s k" if "\<exists>p. key_path k = ns # p" for k
  proof -
    let ?Q = "\<lambda>p. below (key_path k) p \<and> \<not> ends_with tmp_suffix (last p) \<and> last p \<noteq> lock_name"
    have "?Q p \<Longrightarrow> p \<noteq> [] \<and> hd p = ns" for p using that by (auto dest: below_hd)
    then have split: "filter ?Q xs = filter ?Q (filter (\<lambda>p. p \<noteq> [] \<and> hd p = ns) xs)" for xs
      unfolding filter_filter by (intro filter_cong refl) blast
    show ?thesis
      unfolding store_keys_def using assms(1) by (subst (1 2) split) (simp add: same_view_def)
  qed
  have "\<exists>p. key_path ns = ns # p"
    using assms(2,3) by (auto simp: namespace_ok_def check_key_def key_path_def key_comps_def split_on_fresh real_path_def)
  with keys guard_paths(1) [OF _ assms(2,3)] show "ns_keys ns s' key = ns_keys ns s key"
    by (auto simp: ns_keys_def split: option.splits)
qed

lemma dirs_of_hd: "p \<in> set (dirs_of (ns # q)) \<Longrightarrow> p = [] \<or> hd p = ns"
  by (auto simp: dirs_of_def take_Cons split: nat.splits)

lemma make_dirs_dirs: "make_dirs fs p = Some fs' \<Longrightarrow> set (fs_dirs fs') = set (fs_dirs fs) \<union> set (dirs_of p)"
  by (auto simp: make_dirs_def split: if_splits)

lemma write_steps_view:
  assumes "write_steps bad fs key b = (fs', r)" and "Q (tmp_path key) = False" and "Q (key_path key) = False"
  shows "set (fs_dirs fs') \<subseteq> set (fs_dirs fs) \<union> set (dirs_of (key_dir key))"
    and "set (fs_dirs fs) \<subseteq> set (fs_dirs fs')"
    and "filter Q (dkeys (fs_files fs')) = filter Q (dkeys (fs_files fs))"
proof -
  consider "fs' = fs"
    | fs1 where "make_dirs fs (key_dir key) = Some fs1" "fs_dirs fs' = fs_dirs fs1"
        "filter Q (dkeys (fs_files fs')) = filter Q (dkeys (fs_files fs1))"
    using assms
    by (auto simp: write_steps_def Let_def filter_dkeys_dset filter_dkeys_ddel split: option.splits if_splits)
  then show "set (fs_dirs fs') \<subseteq> set (fs_dirs fs) \<union> set (dirs_of (key_dir key))"
    "set (fs_dirs fs) \<subseteq> set (fs_dirs fs')"
    "filter Q (dkeys (fs_files fs')) = filter Q (dkeys (fs_files fs))"
    by (cases, simp, simp add: make_dirs_dirs make_dirs_files)+
qed

lemma drop_tmp_view:
  assumes "drop_tmp fs key = (fs', r)" and "Q (tmp_path key) = False"
  shows "fs_dirs fs' = fs_dirs fs" and "filter Q (dkeys (fs_files fs')) = filter Q (dkeys (fs_files fs))"
  using assms by (auto simp: drop_tmp_def filter_dkeys_ddel split: if_splits)

lemma store_write_steps:
  assumes "store_write pub E s key d = (s', res)" and "check_key key"
  obtains bad fs r where "write_steps bad (st_fs s) key (seal (en_sha E) d) = (fs, r)"
    and "st_fs s' = fs \<or> (\<exists>ok. drop_tmp fs key = (st_fs s', ok))"
proof -
  let ?bad = "case st_faults s of [] \<Rightarrow> None | f # _ \<Rightarrow> f"
  let ?s = "\<lambda>fs. s\<lparr>st_faults := tl (st_faults s), st_fs := fs\<rparr>"
  obtain fs r where w: "write_steps ?bad (st_fs s) key (seal (en_sha E) d) = (fs, r)"
    by (cases "write_steps ?bad (st_fs s) key (seal (en_sha E) d)")
  obtain fs1 ok1 where dt: "drop_tmp fs key = (fs1, ok1)" by (cases "drop_tmp fs key")
  obtain s1 c1 where e1: "store_emit pub (?s fs) ''storage.committed'' key [] = (s1, c1)"
    by (cases "store_emit pub (?s fs) ''storage.committed'' key []")
  obtain s2 c2 where e2: "store_emit pub (?s fs1) ''storage.rejected'' key (en_repr E (the r)) = (s2, c2)"
    by (cases "store_emit pub (?s fs1) ''storage.rejected'' key (en_repr E (the r))")
  have "st_fs s1 = fs" "st_fs s2 = fs1" using store_emit_fs [OF e1] store_emit_fs [OF e2] by simp_all
  moreover have "s' = s1 \<or> s' = ?s fs1 \<or> s' = s2"
    using assms w dt e1 e2 by (cases r; cases c1; cases c2; cases ok1) (auto simp: store_write_def Let_def)
  ultimately have "st_fs s' = fs \<or> drop_tmp fs key = (st_fs s', ok1)" using dt by auto
  with w that show thesis by blast
qed

lemma ns_write_view:
  assumes "ns_write pub E ns s key d = (s', res)"
    and "namespace_ok ns" and "ns \<noteq> ''.''" and "ns' \<noteq> ns"
  shows "same_view ns' s s'"
proof (cases "ns_guard ns key")
  case (Some e)
  with assms(1) show ?thesis by (simp add: ns_write_def same_view_def)
next
  case None
  then have w: "store_write pub E s key d = (s', res)" and key: "check_key key"
    using assms(1) by (auto simp: ns_write_def ns_guard_def split: if_splits)
  let ?Q = "\<lambda>p. p \<noteq> [] \<and> hd p = ns'"
  note paths = guard_paths [OF None assms(2,3)]
  have Q: "?Q (tmp_path key) = False" "?Q (key_path key) = False" using paths assms(4) by auto
  have files: "file_at s' p = file_at s p" if "p \<noteq> []" "hd p = ns'" for p
  proof -
    have "p \<noteq> tmp_path key" "p \<noteq> key_path key" using that paths assms(4) by auto
    with w show ?thesis by (cases rule: store_write_outcome) auto
  qed
  obtain bad fs r where st: "write_steps bad (st_fs s) key (seal (en_sha E) d) = (fs, r)"
      "st_fs s' = fs \<or> (\<exists>ok. drop_tmp fs key = (st_fs s', ok))"
    using store_write_steps [OF w key] by blast
  note view = write_steps_view [OF st(1), of ?Q, OF Q]
  have dirs: "fs_dirs (st_fs s') = fs_dirs fs" and
      keys: "filter ?Q (dkeys (fs_files (st_fs s'))) = filter ?Q (dkeys (fs_files fs))"
    using st(2) drop_tmp_view [where Q = ?Q, OF _ Q(1)] by auto
  have "p \<notin> set (dirs_of (key_dir key))" if "?Q p" for p
    using paths(2) that assms(4) dirs_of_hd by fastforce
  with view dirs have "p \<in> set (fs_dirs (st_fs s')) \<longleftrightarrow> p \<in> set (fs_dirs (st_fs s))" if "?Q p" for p
    using that by auto
  with files keys view(3) show ?thesis by (simp add: same_view_def)
qed

lemma ns_write_once_cases:
  "ns_write_once pub E ns s key d = (s', res) \<Longrightarrow> s' = s \<or> ns_write pub E ns s key d = (s', res)"
  by (auto simp: ns_write_once_def store_write_once_def ns_write_def split: option.splits sum.splits bool.splits)

section \<open>Journals in a vault\<close>

lemma has_dotdot_sep: "has_dotdot (u @ CHR ''/'' # v) \<longleftrightarrow> has_dotdot u \<or> has_dotdot v"
proof (induction u rule: has_dotdot.induct)
  case (1 a b s)
  then show ?case by (cases s) auto
next
  case "2_1"
  show ?case by (cases v) auto
next
  case "2_2"
  show ?case by (cases v) auto
qed

lemma not_digits [simp]: "\<not> is_digit (CHR ''.'')" "\<not> is_digit (CHR ''/'')" "\<not> is_digit (CHR 0x5C)"
  by code_simp+

lemma has_dotdot_digits: "list_all is_digit s \<Longrightarrow> \<not> has_dotdot s"
  by (induction s rule: has_dotdot.induct) auto

lemma alnum_digit: "is_digit c \<Longrightarrow> alnum c"
proof -
  have "list_all alnum ''0123456789''" by code_simp
  then show "is_digit c \<Longrightarrow> alnum c" unfolding is_digit_def list_all_iff by blast
qed

lemma check_key_sep:
  assumes "check_key (u @ ''/'' @ v)" and "u \<noteq> []"
  shows "check_key u"
  using assms by (auto simp: check_key_def has_dotdot_sep [simplified] hd_append)

lemma plain_digits:
  assumes "plain_key ns k" and digits: "list_all is_digit d" and ne: "d \<noteq> []"
  shows "plain_key ns (k @ ''/'' @ d)"
proof -
  from digits have dots: "CHR ''.'' \<notin> set d" "CHR ''/'' \<notin> set d" "CHR 0x5C \<notin> set d"
    by (auto simp: list_all_iff)
  have "list_all (\<lambda>c. alnum c \<or> c \<in> set ''/._-'') d"
    using digits by (auto simp: list_all_iff alnum_digit)
  then have "check_key (k @ ''/'' @ d)"
    using assms(1) has_dotdot_digits [OF digits] dots
    by (auto simp: plain_key_def check_key_def has_dotdot_sep [simplified] hd_append)
  moreover have comps: "key_comps (k @ ''/'' @ d) = key_comps k @ [d]"
    using key_comps_append [of k "d"] dots by (simp add: key_comps_def split_on_fresh)
  have "\<not> ends_with tmp_suffix d"
  proof
    assume "ends_with tmp_suffix d"
    then have "set tmp_suffix \<subseteq> set d" unfolding ends_with_def by (metis set_drop_subset)
    then show False using dots(1) by (simp add: tmp_suffix_def)
  qed
  moreover have "d \<noteq> lock_name" "d \<noteq> ''.''" using dots(1) by (auto simp: lock_name_def)
  ultimately show ?thesis
    using assms(1) ne comps by (auto simp: plain_key_def plain_comps_def hd_append)
qed

lemma plain_seq: "plain_key ns k \<Longrightarrow> plain_key ns (k @ ''/'' @ str012 i)"
  by (rule plain_digits) (simp_all add: list_all_iff str012_chars)

lemma plain_prefix_cong:
  assumes "plain_key ns (entry_prefix ns name)"
  shows "plain_key ns (check_prefix ns name)"
proof -
  let ?j = "''/journal/'' @ name" and ?c = "''/checkpoint/'' @ name"
  have split: "key_comps (ns @ ''/'' @ w @ ''/'' @ name) = key_comps ns @ key_comps w @ key_comps name" for w
    using key_comps_append [of ns "w @ ''/'' @ name"] key_comps_append [of w name] by simp
  have j: "key_comps ''journal'' = [''journal'']" and c: "key_comps ''checkpoint'' = [''checkpoint'']"
    by code_simp+
  have comps: "key_comps (entry_prefix ns name) = key_comps ns @ [''journal''] @ key_comps name"
      "key_comps (check_prefix ns name) = key_comps ns @ [''checkpoint''] @ key_comps name"
    using split [of "''journal''"] split [of "''checkpoint''"] j c by (simp_all add: entry_prefix_def check_prefix_def)
  have "list_all (\<lambda>c. alnum c \<or> c \<in> set ''/._-'') ''/checkpoint/''" "\<not> has_dotdot ''checkpoint''" by code_simp+
  moreover have "has_dotdot (ns @ ''/'' @ w @ ''/'' @ name) \<longleftrightarrow> has_dotdot ns \<or> has_dotdot w \<or> has_dotdot name" for w
    using has_dotdot_sep [of ns "w @ ''/'' @ name"] has_dotdot_sep [of w name] by simp
  from this [of "''journal''"] this [of "''checkpoint''"]
  have "check_key (entry_prefix ns name) \<Longrightarrow> ns \<noteq> [] \<Longrightarrow> check_key (check_prefix ns name)"
    using calculation by (auto simp: check_key_def entry_prefix_def check_prefix_def hd_append)
  moreover have "ns \<noteq> []"
    using assms by (auto simp: plain_key_def plain_comps_def list_all_iff)
  ultimately show ?thesis
    using assms comps by (auto simp: plain_key_def plain_comps_def hd_append)
qed

lemma vault_plain_journal:
  "plain_key ns (entry_prefix ns name) \<Longrightarrow> vault.plain_journal ns ns name"
  using plain_prefix_cong plain_seq
  by (simp add: vault.plain_journal_def entry_key_def checkpoint_key_def)

section \<open>Properties\<close>

definition demo_senv :: store_env where
  "demo_senv = \<lparr>en_sha = length, en_repr = (\<lambda>_. ''OSError()'')\<rparr>"

definition demo_store :: "os_step option list \<Rightarrow> mem_bus store" where
  "demo_store faults = \<lparr>st_fs = \<lparr>fs_files = [([lock_name], [])], fs_dirs = [[]]\<rparr>, st_held = True,
     st_seq = 0, st_bus = None, st_clock = 0, st_faults = faults\<rparr>"

lemma demo_store_good: "vault_good demo_senv ns (demo_store faults)"
  by (auto simp: vault_good_def demo_store_def file_at_def listed_def below_def wf_dict_def split: if_splits)



text \<open>
  C10: namespaces other than \<open>.\<close> are isolated. Whatever a handle of one of them writes, and
  whether or not the write succeeds, every read, existence test and listing through a handle
  of another of them gives the same answer as before. The store also grants a handle named
  \<open>.\<close>, which is the whole vault; it is excluded here, and \<open>dot_handle_escapes\<close> shows why.
\<close>

theorem namespaces_isolated:
  assumes "ns_write pub E ns s key d = (s', res) \<or> ns_write_once pub E ns s key d = (s', res)"
    and "namespace_ok ns" and "ns \<noteq> ''.''" and "namespace_ok ns'" and "ns' \<noteq> ''.''" and "ns' \<noteq> ns"
  shows "ns_read E ns' s' k = ns_read E ns' s k \<and> ns_exists ns' s' k = ns_exists ns' s k
    \<and> ns_keys ns' s' k = ns_keys ns' s k"
proof -
  have "same_view ns' s s'"
    using assms(1) ns_write_view [OF _ assms(2,3,6)] ns_write_once_cases by (fastforce simp: same_view_def)
  then show ?thesis by (intro conjI same_view_reads [OF _ assms(4,5)])
qed

theorem namespaces_isolated_witness:
  "\<exists>s1 s2. ns_write mem_publish demo_senv ''ums'' (demo_store []) ''ums/index'' ''u'' = (s1, Inr ''committed'')
     \<and> ns_write mem_publish demo_senv ''rsm'' s1 ''rsm/index'' ''r'' = (s2, Inr ''committed'')
     \<and> ns_read demo_senv ''ums'' s2 ''ums/index'' = ns_read demo_senv ''ums'' s1 ''ums/index''"
proof -
  let ?w1 = "ns_write mem_publish demo_senv ''ums'' (demo_store []) ''ums/index'' ''u''"
  let ?w2 = "ns_write mem_publish demo_senv ''rsm'' (fst ?w1) ''rsm/index'' ''r''"
  have "snd ?w1 = Inr ''committed''" "snd ?w2 = Inr ''committed''" by code_simp+
  then obtain s1 s2 where w: "?w1 = (s1, Inr ''committed'')" "ns_write mem_publish demo_senv ''rsm'' s1 ''rsm/index'' ''r'' = (s2, Inr ''committed'')"
    by (metis prod.collapse)
  have "namespace_ok ''ums''" "namespace_ok ''rsm''" by code_simp+
  with namespaces_isolated [of mem_publish demo_senv "''rsm''" s1 "''rsm/index''" "''r''" s2 _ "''ums''" "''ums/index''"] w
  show ?thesis by auto
qed

text \<open>
  C11: a journal reads back what landed. For any sequence of appends and checkpoints, with
  any operating-system faults, the entries are those whose append returned, in order; a
  reopened journal resumes at the same sequence number; and reconstruction is the newest
  checkpoint with the entries after it.
\<close>

theorem journal_reads_back:
  assumes "vault_good E ns s" and "plain_key ns (entry_prefix ns name)"
    and "ns_keys ns s (entry_prefix ns name) = Inr []" and "ns_keys ns s (check_prefix ns name) = Inr []"
    and "journal_trace (ns_port pub E ns) s \<lparr>jr_ns = ns, jr_name = name, jr_next = 0\<rparr> [] [] ops
      = ((s', j'), ds, cs)"
    and "length ops \<le> 10 ^ 12"
  shows "journal_entries (ns_port pub E ns) s' j' 0 = Inr ds
    \<and> journal_open (ns_port pub E ns) s' ns name = Inr j'
    \<and> journal_reconstruct (ns_port pub E ns) s' j' =
        (if cs = [] then Inr (None, ds)
         else let n = Max (set (dkeys cs)) in Inr (dget cs n, drop (Suc n) ds))"
proof -
  have p: "vault.plain_journal ns ns name" using assms(2) by (rule vault_plain_journal)
  have "vault.holds pub E ns s ns name [] (\<lambda>_. None)"
    by (rule vault.holds_fresh [OF assms(1) p]) (use assms(3,4) in \<open>simp_all add: ns_port_def\<close>)
  from vault.trace_reconstructs [OF this p assms(5,6)] show ?thesis
    by (simp add: dom_map_of_conv_image_fst Let_def)
qed

definition demo_jops :: "jop list" where
  "demo_jops = [JAppend ''e0'', JAppend ''lost'', JAppend ''e1'', JCheckpoint 0 ''after 0'', JAppend ''e2'']"

theorem journal_reads_back_witness:
  "\<exists>s' j' ds cs. journal_trace (ns_port mem_publish demo_senv ''rsm'') (demo_store [None, Some OsSync])
       \<lparr>jr_ns = ''rsm'', jr_name = ''r1'', jr_next = 0\<rparr> [] [] demo_jops = ((s', j'), ds, cs)
     \<and> ds = [''e0'', ''e1'', ''e2'']
     \<and> journal_reconstruct (ns_port mem_publish demo_senv ''rsm'') s' j' = Inr (Some ''after 0'', [''e1'', ''e2''])"
proof -
  let ?P = "ns_port mem_publish demo_senv ''rsm''" and ?s = "demo_store [None, Some OsSync]"
  let ?t = "journal_trace ?P ?s \<lparr>jr_ns = ''rsm'', jr_name = ''r1'', jr_next = 0\<rparr> [] [] demo_jops"
  obtain s' j' ds cs where t: "?t = ((s', j'), ds, cs)" by (metis prod.exhaust_sel)
  have "fst (snd ?t) = [''e0'', ''e1'', ''e2''] \<and> snd (snd ?t) = [(0, ''after 0'')]"
    by code_simp
  with t have ds: "ds = [''e0'', ''e1'', ''e2'']" and cs: "cs = [(0, ''after 0'')]" by simp_all
  have "plain_key ''rsm'' (entry_prefix ''rsm'' ''r1'')" "ns_keys ''rsm'' ?s (entry_prefix ''rsm'' ''r1'') = Inr []"
    "ns_keys ''rsm'' ?s (check_prefix ''rsm'' ''r1'') = Inr []" by code_simp+
  from journal_reads_back [OF demo_store_good this t] have "journal_reconstruct ?P s' j' = Inr (Some ''after 0'', [''e1'', ''e2''])"
    by (simp add: demo_jops_def ds cs)
  with t ds show ?thesis by blast
qed

section \<open>Temporary files and other keys\<close>

text \<open>
  A committed write of a key destroys the blob that a client stored under the same key with
  the suffix \<open>.tmp\<close>.
\<close>

lemma tmp_key_destroyed:
  "let (s1, r1) = store_write mem_publish demo_senv (demo_store []) ''rsm/a.tmp'' ''kept?'';
       (s2, r2) = store_write mem_publish demo_senv s1 ''rsm/a'' ''other'' in
   r1 = Inr ''committed'' \<and> r2 = Inr ''committed''
   \<and> store_read demo_senv s1 ''rsm/a.tmp'' = Inr ''kept?''
   \<and> store_read demo_senv s2 ''rsm/a.tmp'' = Inl (MissingKey ''storage.missing_key:rsm/a.tmp'')"
  by code_simp

text \<open>
  The name \<open>.\<close> passes the check that a namespace is one path component, and the operating
  system drops it from a path: the handle of \<open>.\<close> reads another namespace's blob and
  overwrites it.
\<close>

lemma dot_handle_escapes:
  "let (s1, r1) = ns_write mem_publish demo_senv ''rsm'' (demo_store []) ''rsm/a'' ''own'';
       (s2, r2) = ns_write mem_publish demo_senv ''.'' s1 ''./rsm/a'' ''forged'' in
   namespace_ok ''.'' \<and> r1 = Inr ''committed'' \<and> r2 = Inr ''committed''
   \<and> ns_read demo_senv ''.'' s1 ''./rsm/a'' = Inr ''own''
   \<and> ns_read demo_senv ''rsm'' s2 ''rsm/a'' = Inr ''forged''"
  by code_simp

end
