(* ===== verification/CommunicationLog.thy ===== *)
theory CommunicationLog
  imports Communication StorageProps
begin

text \<open>
  The durable log of the bus. Over any storage port whose laws hold, the bus is a bus port:
  what it keeps of a topic is the canonical text of the accepted messages, in order. The
  sublocale derives the bus contract from the storage contract.
\<close>

section \<open>Logs in storage\<close>

lemma log_key_inject [simp]: "log_key t i = log_key t' i' \<longleftrightarrow> t = t' \<and> i = i'"
proof -
  have "log_key t i = (''communication/log/'' @ t) @ CHR ''/'' # nat_str i" for t i
    by (simp add: log_key_def)
  then show ?thesis by (simp add: sep_append_inject_right)
qed

definition has_log :: "'s blob_port \<Rightarrow> 's \<Rightarrow> string \<Rightarrow> nat \<Rightarrow> bool" where
  "has_log P s t n \<longleftrightarrow> (\<forall>i. blob_at P s (log_key t i) = None \<longleftrightarrow> n \<le> i)"

lemma has_log_unique: "has_log P s t n \<Longrightarrow> has_log P s t m \<Longrightarrow> m = n"
  unfolding has_log_def by (metis le_antisym order_refl)

lemma probe_finds:
  assumes "has_log P s t n" and "k \<le> n"
  shows "probe (bp_read P s) t k = Some n"
  using assms(2)
proof (induction "n - k" arbitrary: k)
  case 0
  then have "blob_at P s (log_key t k) = None" using assms(1) by (simp add: has_log_def)
  then show ?case using 0 by (subst probe.simps) (auto simp: blob_at_def split: sum.splits)
next
  case (Suc d)
  then have "blob_at P s (log_key t k) \<noteq> None" using assms(1) by (simp add: has_log_def)
  moreover have "probe (bp_read P s) t (Suc k) = Some n" using Suc by simp
  ultimately show ?case by (subst probe.simps) (auto simp: blob_at_def split: sum.splits)
qed

definition docs_in :: "'s blob_port \<Rightarrow> 's \<Rightarrow> string \<Rightarrow> string list" where
  "docs_in P s t =
     (case probe (bp_read P s) t 0 of
        None \<Rightarrow> []
      | Some n \<Rightarrow> map (\<lambda>i. case blob_at P s (log_key t i) of None \<Rightarrow> [] | Some d \<Rightarrow> d) [0..<n])"

definition log_docs :: "'s blob_port \<Rightarrow> 's bus \<Rightarrow> string \<Rightarrow> string list" where
  "log_docs P b t =
     (if dget (bu_registry b) t = None then []
      else case bu_store b of None \<Rightarrow> [] | Some s \<Rightarrow> docs_in P s t)"

text \<open>The publisher a client holds; a probe that never ends is not a publication.\<close>

definition bus_pub :: "'s blob_port \<Rightarrow> 's bus publisher" where
  "bus_pub P b t m =
     (case publish P b t m of
        None \<Rightarrow> (b, False)
      | Some (b', Inl _) \<Rightarrow> (b', False)
      | Some (b', Inr _) \<Rightarrow> (b', True))"

lemma enqueue_frame [simp]:
  "bu_store (enqueue b t m) = bu_store b" "bu_registry (enqueue b t m) = bu_registry b"
  "bu_seq (enqueue b t m) = bu_seq b" "bu_subs (enqueue b t m) = bu_subs b"
  "bu_depth (enqueue b t m) = bu_depth b" "bu_dead (enqueue b t m) = bu_dead b"
  "bu_attempts (enqueue b t m) = bu_attempts b"
proof -
  let ?f = "\<lambda>b sid. b\<lparr>bu_queues := dset (t, sid) (queue_of b t sid @ [m]) (bu_queues b)\<rparr>"
  have "bu_store (foldl ?f b ss) = bu_store b \<and> bu_registry (foldl ?f b ss) = bu_registry b
      \<and> bu_seq (foldl ?f b ss) = bu_seq b \<and> bu_subs (foldl ?f b ss) = bu_subs b
      \<and> bu_depth (foldl ?f b ss) = bu_depth b \<and> bu_dead (foldl ?f b ss) = bu_dead b
      \<and> bu_attempts (foldl ?f b ss) = bu_attempts b" for ss
    by (induction ss arbitrary: b) simp_all
  then show "bu_store (enqueue b t m) = bu_store b" "bu_registry (enqueue b t m) = bu_registry b"
    "bu_seq (enqueue b t m) = bu_seq b" "bu_subs (enqueue b t m) = bu_subs b"
    "bu_depth (enqueue b t m) = bu_depth b" "bu_dead (enqueue b t m) = bu_dead b"
    "bu_attempts (enqueue b t m) = bu_attempts b"
    by (simp_all add: enqueue_def)
qed

context blobs
begin

definition bus_live :: "'s bus \<Rightarrow> bool" where
  "bus_live b \<longleftrightarrow>
     (\<exists>s. bu_store b = Some s \<and> good s
        \<and> (\<forall>t. dget (bu_registry b) t \<noteq> None \<longrightarrow>
             (\<forall>i. plain (log_key t i)) \<and> (\<exists>n. has_log P s t n \<and> (\<forall>c. dget (bu_seq b) t = Some c \<longrightarrow> c = n))))"

lemma docs_in_log:
  assumes "has_log P s t n"
  shows "docs_in P s t = map (\<lambda>i. the (blob_at P s (log_key t i))) [0..<n]"
proof -
  have "(case blob_at P s (log_key t i) of None \<Rightarrow> [] | Some d \<Rightarrow> d) = the (blob_at P s (log_key t i))" if "i < n" for i
  proof -
    have "blob_at P s (log_key t i) \<noteq> None" using assms that by (simp add: has_log_def)
    then show ?thesis by auto
  qed
  then show ?thesis by (simp add: docs_in_def probe_finds [OF assms])
qed

lemma log_grows:
  assumes "good s" and pl: "\<forall>i. plain (log_key t i)" "\<forall>i. plain (log_key t' i)"
    and n: "has_log P s t n" "has_log P s t' n'" and w: "bp_write P s (log_key t n) d = (s', Inr r)"
  shows "has_log P s' t' (if t' = t then Suc n else n')"
    and "docs_in P s' t' = docs_in P s t' @ (if t' = t then [d] else [])"
proof -
  have b: "blob_at P s' (log_key t' i) = (if t' = t \<and> i = n then Some d else blob_at P s (log_key t' i))" for i
    using write_ok [OF assms(1) _ w, of "log_key t' i"] pl by auto
  then show l: "has_log P s' t' (if t' = t then Suc n else n')"
    using n by (auto simp: has_log_def)
  show "docs_in P s' t' = docs_in P s t' @ (if t' = t then [d] else [])"
  proof (cases "t' = t")
    case True
    with n have "n' = n" by (blast intro: has_log_unique)
    with True b docs_in_log [OF l] docs_in_log [OF n(2)] show ?thesis by simp
  next
    case False
    with b docs_in_log [OF l] docs_in_log [OF n(2)] show ?thesis by simp
  qed
qed

lemma log_same:
  assumes "good s" and pl: "plain k" "\<forall>i. plain (log_key t i)"
    and n: "has_log P s t n" and w: "bp_write P s k d = (s', Inl e)"
  shows "has_log P s' t n" and "docs_in P s' t = docs_in P s t"
proof -
  have b: "blob_at P s' (log_key t i) = blob_at P s (log_key t i)" for i
    using write_raised [OF assms(1) pl(1) w] pl(2) by simp
  then show l: "has_log P s' t n" using n by (simp add: has_log_def)
  show "docs_in P s' t = docs_in P s t" using b docs_in_log [OF l] docs_in_log [OF n] by simp
qed

lemma floor_live:
  assumes "bus_live b" and "bu_store b = Some s" and "dget (bu_registry b) t \<noteq> None"
  obtains b1 n where "seq_floor P b s t = Some (b1, n)" and "has_log P s t n" and "bus_live b1"
    and "b1 = b \<or> b1 = b\<lparr>bu_seq := dset t n (bu_seq b)\<rparr>"
proof -
  from assms obtain n where n: "has_log P s t n" "\<forall>c. dget (bu_seq b) t = Some c \<longrightarrow> c = n"
    by (auto simp: bus_live_def)
  show thesis
  proof (cases "dget (bu_seq b) t")
    case (Some c)
    with n assms show thesis by (intro that [of b n]) (simp_all add: seq_floor_def)
  next
    case None
    let ?b = "b\<lparr>bu_seq := dset t n (bu_seq b)\<rparr>"
    have "bus_live ?b"
      using assms n(1) has_log_unique by (auto simp: bus_live_def dict_simps)
    with None probe_finds [OF n(1), of 0] n(1) show thesis
      by (intro that [of ?b n]) (simp_all add: seq_floor_def)
  qed
qed

lemma log_docs_seq [simp]: "log_docs P (b\<lparr>bu_seq := q\<rparr>) t = log_docs P b t"
  by (simp add: log_docs_def)

lemma persist_live:
  assumes lv: "bus_live b" and reg: "dget (bu_registry b) t \<noteq> None"
  obtains b1 ok e where "persist P b t m = Some (b1, if ok then Inr () else Inl e)"
    and "bus_live b1" and "\<And>t'. log_docs P b1 t' = log_docs P b t' @ (if ok \<and> t' = t then [json_dumps m] else [])"
    and "\<exists>s q. b1 = b\<lparr>bu_store := s, bu_seq := q\<rparr>"
proof -
  obtain s where s: "bu_store b = Some s" using lv by (auto simp: bus_live_def)
  obtain b0 n where fl: "seq_floor P b s t = Some (b0, n)" "has_log P s t n" "bus_live b0"
      "b0 = b \<or> b0 = b\<lparr>bu_seq := dset t n (bu_seq b)\<rparr>"
    using floor_live [OF lv s reg] by blast
  have b0: "bu_store b0 = Some s" "bu_registry b0 = bu_registry b" "log_docs P b0 t' = log_docs P b t'"
    "b0 = b\<lparr>bu_store := Some s, bu_seq := bu_seq b0\<rparr>" for t'
    using fl(4) s by (cases b, auto)+
  obtain s' res where w: "bp_write P s (log_key t n) (json_dumps m) = (s', res)"
    by (cases "bp_write P s (log_key t n) (json_dumps m)")
  have g: "good s" and pl: "\<forall>i. plain (log_key t' i)" "\<exists>n. has_log P s t' n \<and> (\<forall>c. dget (bu_seq b0) t' = Some c \<longrightarrow> c = n)"
    if "dget (bu_registry b) t' \<noteq> None" for t'
    using fl(3) b0 that by (auto simp: bus_live_def)
  have g: "good s" and plt: "plain (log_key t n)" using g pl(1) reg by auto
  have g': "good s'" using write_good [OF g plt w] .
  show thesis
  proof (cases res)
    case (Inl e)
    let ?b1 = "b0\<lparr>bu_store := Some s'\<rparr>"
    have same: "has_log P s' t' k" "docs_in P s' t' = docs_in P s t'"
      if "dget (bu_registry b) t' \<noteq> None" "has_log P s t' k" for t' k
      using log_same [OF g plt pl(1) [OF that(1)] that(2)] w Inl by auto
    have "bus_live ?b1"
      using g' pl same b0(2) by (auto simp: bus_live_def) (metis option.distinct(1))+
    moreover have "log_docs P ?b1 t' = log_docs P b t'" for t'
      using same(2) pl(2) b0 s by (auto simp: log_docs_def) (metis option.distinct(1))
    moreover have "?b1 = b\<lparr>bu_store := Some s', bu_seq := bu_seq b0\<rparr>" by (subst b0(4)) simp
    ultimately show thesis
      using fl(1) w Inl s by (intro that [of ?b1 False "StoreRaised e"]) (auto simp: persist_def)
  next
    case (Inr r)
    let ?b1 = "b0\<lparr>bu_store := Some s', bu_seq := dset t (Suc n) (bu_seq b0)\<rparr>"
    have grow: "has_log P s' t' (if t' = t then Suc n else k)"
        "docs_in P s' t' = docs_in P s t' @ (if t' = t then [json_dumps m] else [])"
      if "dget (bu_registry b) t' \<noteq> None" "has_log P s t' k" for t' k
      using log_grows [OF g pl(1) [OF reg] pl(1) [OF that(1)] fl(2) that(2)] w Inr by auto
    have "\<exists>k. has_log P s' t' k \<and> (\<forall>c. dget (dset t (Suc n) (bu_seq b0)) t' = Some c \<longrightarrow> c = k)"
      if regt: "dget (bu_registry b) t' \<noteq> None" for t'
    proof -
      obtain k where k: "has_log P s t' k" "\<forall>c. dget (bu_seq b0) t' = Some c \<longrightarrow> c = k" using pl(2) [OF regt] by blast
      from grow(1) [OF regt k(1)] k(2) show ?thesis
        by (intro exI [of _ "if t' = t then Suc n else k"]) (simp add: dict_simps)
    qed
    then have "bus_live ?b1"
      using g' pl(1) b0(2) by (simp add: bus_live_def)
    moreover have "log_docs P ?b1 t' = log_docs P b t' @ (if t' = t then [json_dumps m] else [])" for t'
    proof (cases "dget (bu_registry b) t' = None")
      case True
      then show ?thesis using reg b0(2) by (auto simp: log_docs_def)
    next
      case False
      then show ?thesis using pl(2) [OF False] grow(2) [OF False] b0(2) s by (auto simp: log_docs_def)
    qed
    moreover have "?b1 = b\<lparr>bu_store := Some s', bu_seq := dset t (Suc n) (bu_seq b0)\<rparr>" by (subst b0(4)) simp
    ultimately show thesis
      using fl(1) w Inr s by (intro that [of ?b1 True]) (auto simp: persist_def)
  qed
qed

lemma publish_live:
  assumes lv: "bus_live b"
  obtains (refused) e where "publish P b t m = Some (b, Inl e)"
  | (persisted) b1 ok e where "schema_validate t m (bu_registry b) = None"
      "find (\<lambda>sid. bu_depth b \<le> int (length (queue_of b t sid))) (subs_of b t) = None"
      "publish P b t m = Some (if ok then (enqueue b1 t m, Inr ()) else (b1, Inl e))"
      "bus_live b1" "\<And>t'. log_docs P b1 t' = log_docs P b t' @ (if ok \<and> t' = t then [json_dumps m] else [])"
      "\<exists>s q. b1 = b\<lparr>bu_store := s, bu_seq := q\<rparr>"
proof (cases "schema_validate t m (bu_registry b)")
  case (Some why)
  then show thesis by (intro refused) (simp add: publish_def)
next
  case None
  then have reg: "dget (bu_registry b) t \<noteq> None"
    by (cases "dget (bu_registry b) t") (simp_all add: schema_validate_def)
  show thesis
  proof (cases "find (\<lambda>sid. bu_depth b \<le> int (length (queue_of b t sid))) (subs_of b t)")
    case (Some sid)
    with None show thesis by (intro refused) (simp add: publish_def)
  next
    case full: None
    obtain b1 ok e where p: "persist P b t m = Some (b1, if ok then Inr () else Inl e)" "bus_live b1"
        "\<And>t'. log_docs P b1 t' = log_docs P b t' @ (if ok \<and> t' = t then [json_dumps m] else [])"
        "\<exists>s q. b1 = b\<lparr>bu_store := s, bu_seq := q\<rparr>"
      using persist_live [OF lv reg, of m] by metis
    with None full show thesis
      by (intro persisted [of ok b1 e]) (auto simp: publish_def)
  qed
qed

lemma enqueue_live: "bus_live (enqueue b t m) \<longleftrightarrow> bus_live b"
  by (simp add: bus_live_def)

lemma enqueue_docs [simp]: "log_docs P (enqueue b t m) t' = log_docs P b t'"
  by (simp add: log_docs_def)

lemma bus_pub_live:
  assumes "bus_live b" and "bus_pub P b t m = (b', ok)"
  shows "bus_live b'" and "log_docs P b' t' = log_docs P b t' @ (if ok \<and> t' = t then [json_dumps m] else [])"
proof -
  have "bus_live b' \<and> log_docs P b' t' = log_docs P b t' @ (if ok \<and> t' = t then [json_dumps m] else [])"
    using assms(1)
  proof (cases rule: publish_live [of b t m])
    case (refused e)
    with assms show ?thesis by (auto simp: bus_pub_def)
  next
    case (persisted b1 ok' e)
    with assms(2) show ?thesis by (cases ok') (auto simp: bus_pub_def enqueue_live)
  qed
  then show "bus_live b'" "log_docs P b' t' = log_docs P b t' @ (if ok \<and> t' = t then [json_dumps m] else [])" by auto
qed

end

sublocale blobs < wire: bus_port "bus_pub P" "log_docs P" json_dumps bus_live
proof
  show "bus_live b \<Longrightarrow> bus_pub P b t m = (b', True) \<Longrightarrow>
      log_docs P b' t' = (if t' = t then log_docs P b t @ [json_dumps m] else log_docs P b t')" for b t m b' t'
    using bus_pub_live(2) [of b t m b' True t'] by simp
  show "bus_live b \<Longrightarrow> bus_pub P b t m = (b', False) \<Longrightarrow> log_docs P b' t' = log_docs P b t'" for b t m b' t'
    using bus_pub_live(2) [of b t m b' False t'] by simp
  show "bus_live b \<Longrightarrow> bus_live (fst (bus_pub P b t m))" for b t m
    using bus_pub_live(1) [of b t m] by (cases "bus_pub P b t m") simp
qed

end
