(* ===== verification/CommunicationProps.thy ===== *)
theory CommunicationProps
  imports CommunicationLog KernelConfig
begin

text \<open>
  What the bus promises: a log that a restarted bus replays, queues that deliver every
  accepted message once and in order within their bound, and push delivery that accounts for
  every message.
\<close>

section \<open>Replay after a restart\<close>

fun publish_run :: "'s blob_port \<Rightarrow> 's bus \<Rightarrow> (string \<times> pyval) list \<Rightarrow> 's bus \<times> (string \<times> pyval) list" where
  "publish_run P b [] = (b, [])"
| "publish_run P b ((t, m) # rest) =
     (case bus_pub P b t m of
        (b', ok) \<Rightarrow> (case publish_run P b' rest of (b'', acc) \<Rightarrow> (b'', if ok then (t, m) # acc else acc)))"

lemma publish_run_cons:
  assumes "publish_run P b (x # ms) = (b', acc)"
  obtains b1 ok acc1 where "bus_pub P b (fst x) (snd x) = (b1, ok)" and "publish_run P b1 ms = (b', acc1)"
    and "acc = (if ok then x # acc1 else acc1)"
  using assms by (cases x) (auto split: prod.splits)

lemma publish_run_accepted: "publish_run P b ms = (b', acc) \<Longrightarrow> set acc \<subseteq> set ms"
  by (induction ms arbitrary: b acc) (simp, force elim!: publish_run_cons split: if_splits)

lemma bus_pub_registry: "bus_pub P b t m = (b', ok) \<Longrightarrow> bu_registry b' = bu_registry b"
  by (auto simp: bus_pub_def publish_def persist_def seq_floor_def split: option.splits sum.splits prod.splits)

lemma publish_run_registry: "publish_run P b ms = (b', acc) \<Longrightarrow> bu_registry b' = bu_registry b"
  by (induction ms arbitrary: b acc) (simp, metis publish_run_cons bus_pub_registry)

lemma map_nth_range: "map (\<lambda>i. f (xs ! i)) [0..<length xs] = map f xs"
  by (rule nth_equalityI) simp_all

context blobs
begin

lemma publish_run_docs:
  assumes "bus_live b" and "publish_run P b ms = (b', acc)"
  shows "bus_live b'"
    and "log_docs P b' t = log_docs P b t @ map (json_dumps \<circ> snd) (filter (\<lambda>(t', _). t' = t) acc)"
proof -
  have "publish_run P b ms = wire.pub_all b ms" for b ms
    by (induction ms arbitrary: b) (auto split: prod.splits)
  with assms wire.pub_all_history [of b ms b' acc t]
  show "bus_live b'" "log_docs P b' t = log_docs P b t @ map (json_dumps \<circ> snd) (filter (\<lambda>(t', _). t' = t) acc)"
    by auto
qed

lemma restart_live:
  assumes "bus_live b" and "bu_registry b = default_registry"
  shows "bus_live (bus_init (bu_store b) depth n)" and "log_docs P (bus_init (bu_store b) depth n) t = log_docs P b t"
proof -
  obtain s where s: "bu_store b = Some s" "good s" and
      t: "\<And>t. dget default_registry t \<noteq> None \<Longrightarrow> (\<forall>i. plain (log_key t i)) \<and> (\<exists>n. has_log P s t n)"
    using assms unfolding bus_live_def by metis
  then show "bus_live (bus_init (bu_store b) depth n)"
    unfolding bus_live_def by (intro exI [of _ s]) (simp add: bus_init_def)
  show "log_docs P (bus_init (bu_store b) depth n) t = log_docs P b t"
    using assms(2) by (simp add: bus_init_def log_docs_def)
qed

lemma replay_live:
  assumes lv: "bus_live b" and reg: "dget (bu_registry b) t \<noteq> None"
    and docs: "log_docs P b t = map json_dumps ms" and wf: "\<forall>m \<in> set ms. json_wf m"
  shows "\<exists>b1. replay P b t = Some (b1, Inr (map json_canon ms))"
proof -
  obtain s where s: "bu_store b = Some s" using lv by (auto simp: bus_live_def)
  obtain b1 n where fl: "seq_floor P b s t = Some (b1, n)" "has_log P s t n"
    using floor_live [OF lv s reg] by blast
  have "map (\<lambda>i. the (blob_at P s (log_key t i))) [0..<n] = map json_dumps ms"
    using docs docs_in_log [OF fl(2)] reg s by (simp add: log_docs_def)
  note eq = this
  have len: "n = length ms" using arg_cong [OF eq, of length] by simp
  have at: "the (blob_at P s (log_key t i)) = json_dumps (ms ! i)" if "i < n" for i
    using arg_cong [OF eq, of "\<lambda>xs. xs ! i"] that len by simp
  have "bp_read P s (log_key t i) = Inr (json_dumps (ms ! i))" if "i < n" for i
  proof -
    have "blob_at P s (log_key t i) \<noteq> None" using fl(2) that by (simp add: has_log_def)
    with at [OF that] show ?thesis by (auto simp: read_blob_at)
  qed
  then have "load_all P s (map (log_key t) is) = Inr (map (\<lambda>i. json_canon (ms ! i)) is)"
    if "\<forall>i \<in> set is. i < n" for "is"
    using that wf len by (induction "is") (auto simp: json_loads_dumps)
  from this [of "[0..<n]"] have "load_all P s (map (log_key t) [0..<n]) = Inr (map json_canon ms)"
    unfolding len by (simp add: map_nth_range)
  then show ?thesis using fl(1) s by (auto simp: replay_def)
qed

lemma fresh_live:
  assumes "good s" and "\<forall>t \<in> set (dkeys default_registry). \<forall>i. plain (log_key t i)"
    and "plain ''communication/log''" and "bp_keys P s ''communication/log'' = Inr []"
  shows "bus_live (bus_init (Some s) depth n)" and "log_docs P (bus_init (Some s) depth n) t = []"
proof -
  have none: "blob_at P s (log_key t i) = None" if "plain (log_key t i)" for t i
  proof -
    have "\<exists>rest. log_key t i = ''communication/log'' @ ''/'' @ rest" by (simp add: log_key_def)
    then show ?thesis using keys_sorted [OF assms(1,3)] assms(4) that by fastforce
  qed
  have reg: "dget default_registry t \<noteq> None \<Longrightarrow> (\<forall>i. plain (log_key t i)) \<and> has_log P s t 0" for t
    using assms(2) none by (cases "t \<in> set (dkeys default_registry)") (auto simp: has_log_def map_of_eq_None_iff)
  then show "bus_live (bus_init (Some s) depth n)"
    using assms(1) by (fastforce simp: bus_live_def bus_init_def)
  show "log_docs P (bus_init (Some s) depth n) t = []"
    using reg [of t] by (auto simp: log_docs_def bus_init_def docs_in_log)
qed

end

section \<open>Queues\<close>

text \<open>Subscriber lists have no duplicates and list exactly the keys of the queues.\<close>

definition subs_wf :: "'s bus \<Rightarrow> bool" where
  "subs_wf b \<longleftrightarrow>
     (\<forall>t. distinct (subs_of b t)) \<and> (\<forall>t sid. dget (bu_queues b) (t, sid) \<noteq> None \<longleftrightarrow> sid \<in> set (subs_of b t))"

lemma subs_wf_init: "subs_wf (bus_init s depth n)"
  by (simp add: subs_wf_def subs_of_def bus_init_def)

lemma subs_wf_subscribe:
  assumes "subs_wf b" and "subscribe b t sid d = Inr b'"
  shows "subs_wf b'"
proof -
  have "subs_of b' t' = subs_of b t' @ (if t' = t then [sid] else [])" for t'
    using assms(2) by (auto simp: subscribe_def subs_of_def dict_simps split: if_splits)
  moreover have "dget (bu_queues b') k \<noteq> None \<longleftrightarrow> dget (bu_queues b) k \<noteq> None \<or> k = (t, sid)" for k
    using assms(2) by (auto simp: subscribe_def dict_simps split: if_splits)
  moreover have "dget (bu_queues b) (t, sid) = None"
    using assms(2) by (auto simp: subscribe_def split: if_splits)
  moreover from this have "sid \<notin> set (subs_of b t)" using assms(1) unfolding subs_wf_def by blast
  ultimately show ?thesis using assms(1) by (auto simp: subs_wf_def)
qed

lemma enqueue_queue:
  assumes "distinct (subs_of b t)"
  shows "queue_of (enqueue b t m) t' sid =
    queue_of b t' sid @ (if t' = t \<and> sid \<in> set (subs_of b t) then [m] else [])"
    and "dget (bu_queues (enqueue b t m)) k \<noteq> None \<longleftrightarrow>
      dget (bu_queues b) k \<noteq> None \<or> fst k = t \<and> snd k \<in> set (subs_of b t)"
proof -
  let ?f = "\<lambda>b sid. b\<lparr>bu_queues := dset (t, sid) (queue_of b t sid @ [m]) (bu_queues b)\<rparr>"
  have "queue_of (foldl ?f b ss) t' sid = queue_of b t' sid @ (if t' = t \<and> sid \<in> set ss then [m] else [])
      \<and> (dget (bu_queues (foldl ?f b ss)) k \<noteq> None \<longleftrightarrow> dget (bu_queues b) k \<noteq> None \<or> fst k = t \<and> snd k \<in> set ss)"
    if "distinct ss" for ss
    using that
  proof (induction ss arbitrary: b)
    case (Cons s ss)
    have "queue_of (?f b s) t' sid = queue_of b t' sid @ (if t' = t \<and> sid = s then [m] else [])"
      by (simp add: queue_of_def dict_simps)
    with Cons show ?case by (cases k) (auto simp: dict_simps)
  qed simp
  with assms show "queue_of (enqueue b t m) t' sid =
      queue_of b t' sid @ (if t' = t \<and> sid \<in> set (subs_of b t) then [m] else [])"
    "dget (bu_queues (enqueue b t m)) k \<noteq> None \<longleftrightarrow>
      dget (bu_queues b) k \<noteq> None \<or> fst k = t \<and> snd k \<in> set (subs_of b t)"
    by (simp_all add: enqueue_def)
qed

lemma persist_frame:
  assumes "persist P b t m = Some (b1, res)"
  shows "bu_queues b1 = bu_queues b" "bu_subs b1 = bu_subs b" "bu_depth b1 = bu_depth b"
    "bu_dead b1 = bu_dead b" "bu_attempts b1 = bu_attempts b" "bu_registry b1 = bu_registry b"
  using assms by (auto simp: persist_def seq_floor_def split: option.splits prod.splits sum.splits)

lemma publish_outcome:
  assumes "publish P b t m = Some (b', res)"
  obtains (refused) e where "res = Inl e" "bu_queues b' = bu_queues b" "bu_subs b' = bu_subs b"
      "bu_depth b' = bu_depth b" "bu_dead b' = bu_dead b" "bu_attempts b' = bu_attempts b"
  | (accepted) b1 where "res = Inr ()" "b' = enqueue b1 t m" "bu_queues b1 = bu_queues b"
      "bu_subs b1 = bu_subs b" "bu_depth b1 = bu_depth b" "bu_dead b1 = bu_dead b" "bu_attempts b1 = bu_attempts b"
      "\<forall>sid \<in> set (subs_of b t). int (length (queue_of b t sid)) < bu_depth b"
proof (cases "\<exists>b1. persist P b t m = Some (b1, Inr ()) \<and> res = Inr ()")
  case True
  then obtain b1 where p: "persist P b t m = Some (b1, Inr ())" "res = Inr ()" by blast
  with assms have "b' = enqueue b1 t m"
      "find (\<lambda>sid. bu_depth b \<le> int (length (queue_of b t sid))) (subs_of b t) = None"
    by (auto simp: publish_def split: option.splits prod.splits sum.splits)
  with p persist_frame [OF p(1)] show thesis by (intro accepted [of b1]) (auto simp: find_None_iff not_le)
next
  case False
  then have "(\<exists>e. res = Inl e) \<and> (b' = b \<or> (\<exists>e. persist P b t m = Some (b', e)))"
    using assms by (auto simp: publish_def split: option.splits prod.splits sum.splits)
  then show thesis using persist_frame [of P b t m b'] by (metis refused)
qed

lemma subs_of_eq: "bu_subs b1 = bu_subs b \<Longrightarrow> subs_of b1 t = subs_of b t"
  by (simp add: subs_of_def)

lemma queue_of_eq: "bu_queues b1 = bu_queues b \<Longrightarrow> queue_of b1 t sid = queue_of b t sid"
  by (simp add: queue_of_def)

lemma publish_queues:
  assumes wf: "subs_wf b" and p: "publish P b t m = Some (b', res)"
  shows "subs_wf b'" and "bu_depth b' = bu_depth b" and "subs_of b' t' = subs_of b t'"
    and "sid \<in> set (subs_of b t') \<Longrightarrow>
      queue_of b' t' sid = queue_of b t' sid @ (if res = Inr () \<and> t' = t then [m] else [])
      \<and> int (length (queue_of b' t' sid)) \<le> max (bu_depth b) (int (length (queue_of b t' sid)))"
proof -
  have "subs_wf b' \<and> bu_depth b' = bu_depth b \<and> subs_of b' t' = subs_of b t' \<and>
      (sid \<in> set (subs_of b t') \<longrightarrow>
        queue_of b' t' sid = queue_of b t' sid @ (if res = Inr () \<and> t' = t then [m] else [])
        \<and> int (length (queue_of b' t' sid)) \<le> max (bu_depth b) (int (length (queue_of b t' sid))))"
    using p
  proof (cases rule: publish_outcome)
    case (refused e)
    have "subs_wf b'" using wf refused(2) by (simp add: subs_wf_def subs_of_eq [OF refused(3)])
    with refused(1,4) show ?thesis by (simp add: subs_of_eq [OF refused(3)] queue_of_eq [OF refused(2)])
  next
    case (accepted b1)
    have d: "distinct (subs_of b1 t)" using wf by (simp add: subs_wf_def subs_of_eq [OF accepted(4)])
    have same: "subs_of (enqueue b1 t m) t'' = subs_of b t''" for t''
      using accepted(4) by (simp add: subs_of_def)
    have q: "queue_of b' t' sid = queue_of b t' sid @ (if t' = t \<and> sid \<in> set (subs_of b t) then [m] else [])"
      using enqueue_queue(1) [OF d, of m t' sid] accepted(2) by (simp add: queue_of_eq [OF accepted(3)] subs_of_eq [OF accepted(4)])
    have "subs_wf b'"
      unfolding subs_wf_def accepted(2) same using wf enqueue_queue(2) [OF d] accepted(3)
      by (auto simp: subs_wf_def subs_of_eq [OF accepted(4)])
    moreover have "queue_of b' t' sid = queue_of b t' sid @ (if res = Inr () \<and> t' = t then [m] else [])
        \<and> int (length (queue_of b' t' sid)) \<le> max (bu_depth b) (int (length (queue_of b t' sid)))"
      if "sid \<in> set (subs_of b t')"
      using q accepted(1,8) that by (cases "t' = t") auto
    moreover have "bu_depth b' = bu_depth b" "subs_of b' t' = subs_of b t'"
      unfolding accepted(2) using same accepted(5) by simp_all
    ultimately show ?thesis by blast
  qed
  then show "subs_wf b'" "bu_depth b' = bu_depth b" "subs_of b' t' = subs_of b t'"
    "sid \<in> set (subs_of b t') \<Longrightarrow>
      queue_of b' t' sid = queue_of b t' sid @ (if res = Inr () \<and> t' = t then [m] else [])
      \<and> int (length (queue_of b' t' sid)) \<le> max (bu_depth b) (int (length (queue_of b t' sid)))"
    by auto
qed

lemma drain_queues:
  assumes wf: "subs_wf b" and "drain b t sid = Inr (b', ms)"
  shows "subs_wf b'" and "bu_depth b' = bu_depth b" and "subs_of b' t' = subs_of b t'"
    and "ms = queue_of b t sid"
    and "queue_of b' t' sid' = (if t' = t \<and> sid' = sid then [] else queue_of b t' sid')"
proof -
  from assms(2) obtain q where q: "dget (bu_queues b) (t, sid) = Some q" "ms = q"
      "b' = b\<lparr>bu_queues := dset (t, sid) [] (bu_queues b)\<rparr>"
    by (auto simp: drain_def split: option.splits)
  then show "bu_depth b' = bu_depth b" "subs_of b' t' = subs_of b t'" "ms = queue_of b t sid"
    "queue_of b' t' sid' = (if t' = t \<and> sid' = sid then [] else queue_of b t' sid')"
    by (simp_all add: subs_of_def queue_of_def dict_simps)
  have "dget (bu_queues b') k \<noteq> None \<longleftrightarrow> dget (bu_queues b) k \<noteq> None" for k
    using q by (simp add: dict_simps)
  moreover have "subs_of b' = subs_of b" using q(3) by (auto simp: subs_of_def)
  ultimately show "subs_wf b'" using wf by (simp add: subs_wf_def)
qed

datatype bus_op = BPublish string pyval | BDrain string string

text \<open>A run of publications and drains, with what was accepted and what was handed out.\<close>

fun bus_trace ::
  "'s blob_port \<Rightarrow> 's bus \<Rightarrow> bus_op list
   \<Rightarrow> ('s bus \<times> (string \<times> pyval) list \<times> ((string \<times> string) \<times> pyval) list) option" where
  "bus_trace P b [] = Some (b, [], [])"
| "bus_trace P b (BPublish t m # ops) =
     (case publish P b t m of
        None \<Rightarrow> None
      | Some (b1, res) \<Rightarrow>
          (case bus_trace P b1 ops of
             None \<Rightarrow> None
           | Some (b2, acc, out) \<Rightarrow> Some (b2, (if res = Inr () then (t, m) # acc else acc), out)))"
| "bus_trace P b (BDrain t sid # ops) =
     (case drain b t sid of
        Inl _ \<Rightarrow> bus_trace P b ops
      | Inr (b1, ms) \<Rightarrow>
          (case bus_trace P b1 ops of
             None \<Rightarrow> None
           | Some (b2, acc, out) \<Rightarrow> Some (b2, acc, map (\<lambda>m. ((t, sid), m)) ms @ out)))"

definition at_key :: "'k \<Rightarrow> ('k \<times> 'v) list \<Rightarrow> 'v list" where
  "at_key k xs = map snd (filter (\<lambda>(k', _). k' = k) xs)"

lemma at_key_simps [simp]:
  "at_key k [] = []" "at_key k ((k', v) # xs) = (if k' = k then v # at_key k xs else at_key k xs)"
  "at_key k (xs @ ys) = at_key k xs @ at_key k ys"
  by (auto simp: at_key_def)

lemma at_key_map [simp]: "at_key k (map (\<lambda>m. (k', m)) ms) = (if k' = k then ms else [])"
  by (induction ms) auto

lemma trace_queues:
  assumes "subs_wf b" and "sid \<in> set (subs_of b t)" and "bus_trace P b ops = Some (b', acc, out)"
  shows "at_key (t, sid) out @ queue_of b' t sid = queue_of b t sid @ at_key t acc
    \<and> int (length (queue_of b' t sid)) \<le> max (bu_depth b) (int (length (queue_of b t sid)))"
  using assms
proof (induction P b ops arbitrary: b' acc out rule: bus_trace.induct)
  case (1 P b)
  then show ?case by simp
next
  case (2 P b t' m ops)
  from 2(4) obtain b1 res acc1 where p: "publish P b t' m = Some (b1, res)"
      "bus_trace P b1 ops = Some (b', acc1, out)" "acc = (if res = Inr () then (t', m) # acc1 else acc1)"
    by (auto split: option.splits prod.splits)
  note q = publish_queues [OF 2(2) p(1)]
  have "sid \<in> set (subs_of b1 t)" using 2(3) q(3) by simp
  with 2(1) [OF p(1) refl q(1) _ p(2)] q(2) q(4) [OF 2(3)] p(3) show ?case by auto
next
  case (3 P b t' sid' ops)
  show ?case
  proof (cases "drain b t' sid'")
    case (Inl e)
    with 3 show ?thesis by simp
  next
    case (Inr r)
    obtain b1 ms where r: "r = (b1, ms)" by (cases r)
    with 3(5) Inr obtain out1 where p: "bus_trace P b1 ops = Some (b', acc, out1)"
        "out = map (\<lambda>m. ((t', sid'), m)) ms @ out1"
      by (auto split: option.splits prod.splits)
    note q = drain_queues [OF 3(3) Inr [unfolded r]]
    have "sid \<in> set (subs_of b1 t)" using 3(4) q(3) by simp
    with 3(2) [OF Inr r [symmetric] q(1) _ p(1)] q(2,4,5) p(2) show ?thesis by auto
  qed
qed

section \<open>Push delivery\<close>

lemma attempts_tried: "attempts f h m n = (h', Untried) \<Longrightarrow> n = 0"
  by (induction f h m n arbitrary: h' rule: attempts.induct) (auto split: prod.splits option.splits if_splits)

lemma publish_delivery:
  assumes "publish P b t m = Some (b', res)"
  shows "bu_dead b' = bu_dead b" and "bu_attempts b' = bu_attempts b"
  using assms by (cases rule: publish_outcome, simp_all)+

lemma deliver_each_counts:
  assumes "deliver_each P t sid f b h (d, k) ms = Some ((b', h'), Inr (d', k'))" and "0 < bu_attempts b"
  shows "d' + k' = d + k + length ms \<and> k \<le> k' \<and> length (bu_dead b') = length (bu_dead b) + (k' - k)"
  using assms
proof (induction ms arbitrary: b h d k)
  case Nil
  then show ?case by simp
next
  case (Cons m ms)
  obtain h1 v where a: "attempts f h m (nat (bu_attempts b)) = (h1, v)" by (metis prod.exhaust)
  show ?case
  proof (cases v)
    case Delivered
    with a Cons.prems have "deliver_each P t sid f b h1 (Suc d, k) ms = Some ((b', h'), Inr (d', k'))" by simp
    from Cons.IH [OF this Cons.prems(2)] show ?thesis by simp
  next
    case Untried
    with a attempts_tried Cons.prems(2) show ?thesis by fastforce
  next
    case (Poisoned why)
    let ?b1 = "dead_letter b t sid m why"
    from a Poisoned Cons.prems(1) obtain b2 where
      p: "publish P ?b1 delivery_failed (failed_env ?b1 t sid m why) = Some (b2, Inr ())"
      and r: "deliver_each P t sid f b2 h1 (d, Suc k) ms = Some ((b', h'), Inr (d', k'))"
      by (auto simp: Let_def split: option.splits prod.splits sum.splits)
    have b2: "length (bu_dead b2) = Suc (length (bu_dead b))" "0 < bu_attempts b2"
      using publish_delivery [OF p] Cons.prems(2) by (simp_all add: dead_letter_def)
    from Cons.IH [OF r b2(2)] b2(1) show ?thesis by auto
  qed
qed

section \<open>Properties\<close>

lemma log_topics_plain:
  "\<forall>t \<in> set (dkeys default_registry). \<forall>i. plain_key ''communication'' (log_key t i)"
proof -
  have "list_all (\<lambda>t. plain_key ''communication'' (''communication/log/'' @ t)) (dkeys default_registry)"
    by code_simp
  then show ?thesis
    using plain_digits [OF _ is_digit_nat_str nat_str_nonempty]
    by (fastforce simp: log_key_def list_all_iff)
qed

lemma log_root_plain: "plain_key ''communication'' ''communication/log''"
  by code_simp

abbreviation wire_port :: "'b publisher \<Rightarrow> store_env \<Rightarrow> 'b store blob_port" where
  "wire_port pub E \<equiv> ns_port pub E ''communication''"

lemma boot_live:
  assumes "vault_good E ''communication'' s" and "ns_keys ''communication'' s ''communication/log'' = Inr []"
  shows "vault.bus_live pub E ''communication'' (bus_init (Some s) depth n)"
    and "log_docs (wire_port pub E) (bus_init (Some s) depth n) t = []"
  using vault.fresh_live [where pub = pub, OF assms(1) log_topics_plain log_root_plain] assms(2)
  by (simp_all add: ns_port_def)

text \<open>
  C12: the log of a topic survives a restart. A fresh bus over the same storage replays, for
  every registered topic, exactly the messages whose publication returned, in order, with
  dictionary keys in canonical order.
\<close>

theorem restarted_bus_replays:
  assumes "vault_good E ''communication'' s" and "ns_keys ''communication'' s ''communication/log'' = Inr []"
    and "publish_run (wire_port pub E) (bus_init (Some s) depth n) ms = (b, acc)"
    and "\<forall>(t, m) \<in> set ms. json_wf m" and "t \<in> set (dkeys default_registry)"
  shows "\<exists>b1. replay (wire_port pub E) (bus_init (bu_store b) depth' n') t
    = Some (b1, Inr (map (json_canon \<circ> snd) (filter (\<lambda>(t', _). t' = t) acc)))"
proof -
  let ?ms = "map snd (filter (\<lambda>(t', _). t' = t) acc)"
  note live = vault.publish_run_docs [OF boot_live(1) [OF assms(1,2)] assms(3)]
  have reg: "bu_registry b = default_registry"
    using publish_run_registry [OF assms(3)] by (simp add: bus_init_def)
  note again = vault.restart_live [OF live(1) reg, of depth' n']
  have docs: "log_docs (wire_port pub E) (bus_init (bu_store b) depth' n') t = map json_dumps ?ms"
    using again(2) live(2) boot_live(2) [OF assms(1,2)] by simp
  have wf: "\<forall>m \<in> set ?ms. json_wf m" using publish_run_accepted [OF assms(3)] assms(4) by fastforce
  have "dget (bu_registry (bus_init (bu_store b) depth' n')) t \<noteq> None"
    using assms(5) by (simp add: bus_init_def map_of_eq_None_iff)
  from vault.replay_live [OF again(1) this docs wf] show ?thesis by simp
qed

definition demo_msg :: "string \<Rightarrow> string \<Rightarrow> pyval" where
  "demo_msg eid name = make_env (PyStr eid) name (PyStr ''r1'') (PyInt 0) PyNone []"

theorem restarted_bus_replays_witness:
  "\<exists>b b1. publish_run (wire_port mem_publish demo_senv) (bus_init (Some (demo_store [])) 10 3)
       [(''verify.passed'', demo_msg ''e1'' ''verify.passed''), (''no.topic'', demo_msg ''e2'' ''no.topic'')]
       = (b, [(''verify.passed'', demo_msg ''e1'' ''verify.passed'')])
     \<and> replay (wire_port mem_publish demo_senv) (bus_init (bu_store b) 10 3) ''verify.passed''
       = Some (b1, Inr [json_canon (demo_msg ''e1'' ''verify.passed'')])"
proof -
  let ?ms = "[(''verify.passed'', demo_msg ''e1'' ''verify.passed''), (''no.topic'', demo_msg ''e2'' ''no.topic'')]"
  let ?run = "publish_run (wire_port mem_publish demo_senv) (bus_init (Some (demo_store [])) 10 3) ?ms"
  have "snd ?run = [(''verify.passed'', demo_msg ''e1'' ''verify.passed'')]" by code_simp
  then obtain b where r: "?run = (b, [(''verify.passed'', demo_msg ''e1'' ''verify.passed'')])"
    by (metis prod.collapse)
  have "ns_keys ''communication'' (demo_store [] :: mem_bus store) ''communication/log'' = Inr []"
    "\<forall>(t, m) \<in> set ?ms. json_wf m" "''verify.passed'' \<in> set (dkeys default_registry)"
    by code_simp+
  from restarted_bus_replays [OF demo_store_good this(1) r this(2,3)] r show ?thesis by auto
qed

text \<open>
  C13: queues are first-in first-out and bounded. Over any run of publications and drains,
  what a subscriber was handed followed by what is still queued for it is what was queued at
  first followed by the accepted messages of its topic, in order; and no queue outgrows the
  bound.
\<close>

theorem queues_deliver_in_order:
  assumes "subs_wf b" and "sid \<in> set (subs_of b t)" and "bus_trace P b ops = Some (b', acc, out)"
  shows "at_key (t, sid) out @ queue_of b' t sid = queue_of b t sid @ at_key t acc
    \<and> int (length (queue_of b' t sid)) \<le> max (bu_depth b) (int (length (queue_of b t sid)))"
  using assms by (rule trace_queues)

definition demo_bus :: "(string \<times> string) list \<Rightarrow> mem_bus store bus" where
  "demo_bus subs = foldl (\<lambda>b (t, sid). case subscribe b t sid False of Inl _ \<Rightarrow> b | Inr b' \<Rightarrow> b')
     (bus_init None 1 2) subs"

lemma demo_bus_wf: "subs_wf (demo_bus subs)"
proof -
  have step: "subs_wf b \<Longrightarrow> subs_wf (case subscribe b t sid False of Inl _ \<Rightarrow> b | Inr b' \<Rightarrow> b')"
    for b :: "mem_bus store bus" and t sid
    using subs_wf_subscribe by (auto split: sum.splits)
  have "subs_wf b \<Longrightarrow> subs_wf (foldl (\<lambda>b (t, sid). case subscribe b t sid False of Inl _ \<Rightarrow> b | Inr b' \<Rightarrow> b') b subs)"
    for b :: "mem_bus store bus"
    by (induction subs arbitrary: b) (auto intro: step)
  then show ?thesis by (simp add: demo_bus_def subs_wf_init)
qed

theorem queues_deliver_in_order_witness:
  "\<exists>b' acc out. bus_trace (wire_port mem_publish demo_senv) (demo_bus [(''verify.passed'', ''s'')])
       [BPublish ''verify.passed'' (demo_msg ''e1'' ''verify.passed''),
        BPublish ''verify.passed'' (demo_msg ''e2'' ''verify.passed''), BDrain ''verify.passed'' ''s'']
       = Some (b', acc, out)
     \<and> length acc = 1
     \<and> at_key (''verify.passed'', ''s'') out @ queue_of b' ''verify.passed'' ''s'' = at_key ''verify.passed'' acc"
proof -
  let ?b = "demo_bus [(''verify.passed'', ''s'')]"
  let ?t = "bus_trace (wire_port mem_publish demo_senv) ?b
       [BPublish ''verify.passed'' (demo_msg ''e1'' ''verify.passed''),
        BPublish ''verify.passed'' (demo_msg ''e2'' ''verify.passed''), BDrain ''verify.passed'' ''s'']"
  have "case ?t of None \<Rightarrow> False | Some (_, acc, _) \<Rightarrow> length acc = 1" by code_simp
  then obtain b' acc out where t: "?t = Some (b', acc, out)" "length acc = 1" by (auto split: option.splits)
  have "''s'' \<in> set (subs_of ?b ''verify.passed'')" "queue_of ?b ''verify.passed'' ''s'' = []" by code_simp+
  with queues_deliver_in_order [OF demo_bus_wf this(1) t(1)] t show ?thesis by auto
qed

text \<open>
  C14: push delivery accounts for every message. When \<open>deliver_with\<close> returns, the delivered
  and the dead-lettered messages are all that were pending, and each dead letter is on
  record; the source's default of three attempts is positive.
\<close>

theorem delivery_accounts:
  assumes "deliver_with P b t sid f h = Some ((b', h'), Inr (delivered, dead))" and "0 < bu_attempts b"
  shows "delivered + dead = pending b t sid \<and> length (bu_dead b') = length (bu_dead b) + dead"
proof -
  from assms(1) obtain b1 ms where d: "drain b t sid = Inr (b1, ms)"
      "deliver_each P t sid f b1 h (0, 0) ms = Some ((b', h'), Inr (delivered, dead))"
    by (auto simp: deliver_with_def split: sum.splits)
  then have "length ms = pending b t sid" "bu_dead b1 = bu_dead b" "bu_attempts b1 = bu_attempts b"
    by (auto simp: drain_def pending_def queue_of_def split: option.splits)
  with deliver_each_counts [OF d(2)] assms(2) show ?thesis by simp
qed

text \<open>A handler that raises on every message, counting its calls.\<close>

definition bad_handler :: "nat handler" where
  "bad_handler n m = (Suc n, Some ''ValueError()'')"

definition loaded_bus :: "mem_bus store bus" where
  "loaded_bus = (demo_bus [(''verify.passed'', ''s''), (delivery_failed, ''obs'')])
     \<lparr>bu_queues := [((''verify.passed'', ''s''), [demo_msg ''e1'' ''verify.passed'']), ((delivery_failed, ''obs''), [])]\<rparr>"

theorem delivery_accounts_witness:
  "\<exists>b' h' delivered dead. deliver_with (wire_port mem_publish demo_senv) loaded_bus ''verify.passed'' ''s'' bad_handler 0
       = Some ((b', h'), Inr (delivered, dead)) \<and> delivered + dead = 1 \<and> length (bu_dead b') = 1"
proof -
  let ?t = "deliver_with (wire_port mem_publish demo_senv) loaded_bus ''verify.passed'' ''s'' bad_handler 0"
  have "map_option snd ?t = Some (Inr (0, 1))" by code_simp
  then obtain b' h' where t: "?t = Some ((b', h'), Inr (0, 1))" by auto
  have "0 < bu_attempts loaded_bus" "pending loaded_bus ''verify.passed'' ''s'' = 1" "bu_dead loaded_bus = []"
    by code_simp+
  with delivery_accounts [OF t this(1)] t show ?thesis by auto
qed

section \<open>Messages lost by push delivery\<close>

text \<open>
  The queue is emptied before the first message is tried, and a publication of
  \<open>delivery.failed\<close> that raises leaves the loop. Two messages are pending, the handler
  raises, and the observer's queue holds one message at most: the second dead letter raises
  and the third message is neither pending, nor delivered, nor a dead letter.
\<close>

lemma delivery_loses_messages:
  "let q = [demo_msg ''e1'' ''verify.passed'', demo_msg ''e2'' ''verify.passed'', demo_msg ''e3'' ''verify.passed''];
       b = loaded_bus\<lparr>bu_queues := [((''verify.passed'', ''s''), q), ((delivery_failed, ''obs''), [])]\<rparr> in
   case deliver_with (wire_port mem_publish demo_senv) b ''verify.passed'' ''s'' bad_handler 0 of
     Some ((b', _), Inl (Backpressure _)) \<Rightarrow>
       pending b' ''verify.passed'' ''s'' = 0
       \<and> map (\<lambda>d. py_get d ''message'' PyNone) (bu_dead b') = take 2 q
   | _ \<Rightarrow> False"
  by code_simp

end
