(* ===== verification/KernelWatch.thy ===== *)
theory KernelWatch
  imports Coordinator CommunicationProps
begin

text \<open>
  The event loop under observation. A publisher is extended with a list of the publications it
  accepted, which the kernel never reads: the observed run is the plain run, entry for entry
  and record for record. The list says which messages the bus acknowledged, so that a property
  can compare them with what a vault holds.
\<close>

section \<open>A publisher that notes what it accepts\<close>

definition noting :: "'b publisher \<Rightarrow> ('b \<times> (string \<times> pyval) list) publisher" where
  "noting pub b t m =
     (case pub (fst b) t m of (b', ok) \<Rightarrow> ((b', if ok then snd b @ [(t, m)] else snd b), ok))"

definition noted :: "'b \<times> (string \<times> pyval) list \<Rightarrow> string \<Rightarrow> pyval list" where
  "noted b t = map snd (filter (\<lambda>(t', _). t' = t) (snd b))"

lemma noting_fst [simp]: "fst (fst (noting pub b t m)) = fst (pub (fst b) t m)"
  by (simp add: noting_def split: prod.splits)

lemma noting_snd [simp]: "snd (noting pub b t m) = snd (pub (fst b) t m)"
  by (simp add: noting_def split: prod.splits)

lemma noted_noting:
  "noted (fst (noting pub b t m)) t' = noted b t' @ (if t' = t \<and> snd (pub (fst b) t m) then [m] else [])"
  by (auto simp: noting_def noted_def split: prod.splits)

text \<open>A lawful bus stays lawful, and what it records is what was noted, on top of what it held.\<close>

context bus_port
begin

definition agrees :: "(string \<Rightarrow> 'r list) \<Rightarrow> 'b \<times> (string \<times> pyval) list \<Rightarrow> bool" where
  "agrees held b \<longleftrightarrow> live (fst b) \<and> (\<forall>t. history (fst b) t = held t @ map render (noted b t))"

lemma agrees_noting: "agrees held b \<Longrightarrow> agrees held (fst (noting pub b t m))"
  using pub_live [of "fst b" t m] history_pub [of "fst b" t m]
  by (simp add: agrees_def noted_noting)

lemma noting_port: "bus_port (noting pub) noted (\<lambda>m. m) (agrees held)"
proof
  fix b b' t m t'
  show "noting pub b t m = (b', True) \<Longrightarrow>
      noted b' t' = (if t' = t then noted b t @ [m] else noted b t')"
    using noted_noting [of pub b t m t'] noting_snd [of pub b t m] by auto
  show "noting pub b t m = (b', False) \<Longrightarrow> noted b' t' = noted b t'"
    using noted_noting [of pub b t m t'] noting_snd [of pub b t m] by auto
  show "agrees held b \<Longrightarrow> agrees held (fst (noting pub b t m))" by (rule agrees_noting)
qed

end

section \<open>Observation changes nothing\<close>

definition watched :: "'b coord \<Rightarrow> ('b \<times> (string \<times> pyval) list) coord" where
  "watched c = \<lparr>co_bus = (co_bus c, []), co_ledger = co_ledger c, co_halted = co_halted c,
     co_log = co_log c, co_configs = co_configs c, co_config = co_config c,
     co_clock = co_clock c, co_out_seq = co_out_seq c\<rparr>"

definition unwatched :: "('b \<times> (string \<times> pyval) list) coord \<Rightarrow> 'b coord" where
  "unwatched c = \<lparr>co_bus = fst (co_bus c), co_ledger = co_ledger c, co_halted = co_halted c,
     co_log = co_log c, co_configs = co_configs c, co_config = co_config c,
     co_clock = co_clock c, co_out_seq = co_out_seq c\<rparr>"

lemma unwatched_fields [simp]:
  "co_bus (unwatched c) = fst (co_bus c)" "co_ledger (unwatched c) = co_ledger c"
  "co_halted (unwatched c) = co_halted c" "co_log (unwatched c) = co_log c"
  "co_configs (unwatched c) = co_configs c" "co_config (unwatched c) = co_config c"
  "co_clock (unwatched c) = co_clock c" "co_out_seq (unwatched c) = co_out_seq c"
  by (simp_all add: unwatched_def)

lemma unwatched_updates [simp]:
  "unwatched (c\<lparr>co_bus := b\<rparr>) = (unwatched c)\<lparr>co_bus := fst b\<rparr>"
  "unwatched (c\<lparr>co_ledger := l\<rparr>) = (unwatched c)\<lparr>co_ledger := l\<rparr>"
  "unwatched (c\<lparr>co_halted := h\<rparr>) = (unwatched c)\<lparr>co_halted := h\<rparr>"
  "unwatched (c\<lparr>co_log := rs\<rparr>) = (unwatched c)\<lparr>co_log := rs\<rparr>"
  "unwatched (c\<lparr>co_configs := cs\<rparr>) = (unwatched c)\<lparr>co_configs := cs\<rparr>"
  "unwatched (c\<lparr>co_config := cfg\<rparr>) = (unwatched c)\<lparr>co_config := cfg\<rparr>"
  "unwatched (c\<lparr>co_out_seq := n\<rparr>) = (unwatched c)\<lparr>co_out_seq := n\<rparr>"
  by (simp_all add: unwatched_def)

lemma plain_watched [simp]: "unwatched (watched c) = c"
  by (simp add: unwatched_def watched_def)

lemma watched_bus [simp]: "co_bus (watched c) = (co_bus c, [])"
  by (simp add: watched_def)

lemma plain_unavailable: "unwatched (publish_unavailable (noting pub) c) = publish_unavailable pub (unwatched c)"
  by (simp add: publish_unavailable_def fault_env_def)

lemma plain_publish [simp]: "unwatched (safe_publish (noting pub) c t m) = safe_publish pub (unwatched c) t m"
proof -
  obtain b ok where p: "pub (fst (co_bus c)) t m = (b, ok)" by (cases "pub (fst (co_bus c)) t m")
  show ?thesis
    using p by (cases ok) (auto simp: safe_publish_def noting_def plain_unavailable)
qed

lemma plain_fault [simp]: "unwatched (fault (noting pub) c why env) = fault pub (unwatched c) why env"
  by (simp add: fault_def fault_env_def)

lemma plain_emit [simp]:
  "unwatched (emit (noting pub) c n rid p cfg eid) = emit pub (unwatched c) n rid p cfg eid"
  by (simp add: emit_def)

lemma plain_log_record [simp]: "unwatched (log_record (noting pub) c r) = log_record pub (unwatched c) r"
  by (simp add: log_record_def)

lemma plain_publish_row_from:
  "unwatched (publish_row_from (noting pub) c e r d cfg info i ns) = publish_row_from pub (unwatched c) e r d cfg info i ns"
  by (induction ns arbitrary: c i) simp_all

lemma plain_transition [simp]:
  "unwatched (transition (noting pub) c k e ev eid r g cfg info) = transition pub (unwatched c) k e ev eid r g cfg info"
  by (simp add: transition_def Let_def publish_row_def plain_publish_row_from)

lemma plain_log_noop [simp]: "unwatched (log_noop (noting pub) c e eid ev v) = log_noop pub (unwatched c) e eid ev v"
  by (simp add: log_noop_def)

lemma plain_cleanup [simp]: "unwatched (cleanup_one (noting pub) c k) = cleanup_one pub (unwatched c) k"
  by (simp add: cleanup_one_def Let_def split: option.splits)

lemma plain_session [simp]: "unwatched (handle_session (noting pub) c name) = handle_session pub (unwatched c) name"
proof -
  have "unwatched (foldl (cleanup_one (noting pub)) c ks) = foldl (cleanup_one pub) (unwatched c) ks" for c ks
    by (induction ks arbitrary: c) simp_all
  then show ?thesis by (simp add: handle_session_def Let_def)
qed

abbreviation unwatch_run :: "'e + ('b \<times> (string \<times> pyval) list) coord \<Rightarrow> 'e + 'b coord" where
  "unwatch_run \<equiv> map_sum (\<lambda>e. e) unwatched"

lemma plain_apply_event: "unwatch_run (apply_event (noting pub) c k e ev env) = apply_event pub (unwatched c) k e ev env"
  by (simp add: apply_event_def entry_config_def Let_def split: option.splits sum.splits prod.splits)

lemma plain_config: "unwatch_run (handle_config (noting pub) c env pay) = handle_config pub (unwatched c) env pay"
  by (simp add: handle_config_def install_def Let_def split: sum.splits prod.splits bool.splits)

lemma plain_birth [simp]:
  "birth_entry (unwatched c) rid pay = birth_entry c rid pay"
  "birth_decision (unwatched c) pay = birth_decision c pay"
  "birth_row (unwatched c) pay rows = birth_row c pay rows"
  by (simp_all add: birth_entry_def birth_decision_def birth_row_def)

lemma plain_admitted [simp]:
  "unwatched (admitted_state (noting pub) c rid eid pay rows) = admitted_state pub (unwatched c) rid eid pay rows"
  by (simp add: admitted_state_def)

lemma plain_chain:
  "unwatch_run (admit_chain (noting pub) c rid eid ch dt cfg) = admit_chain pub (unwatched c) rid eid ch dt cfg"
  by (simp add: admit_chain_def split: option.splits prod.splits)

lemma plain_admit: "unwatch_run (admit (noting pub) c env pay) = admit pub (unwatched c) env pay"
  by (simp add: admit_def admit_known_def plain_chain Let_def split: pyval.splits list.splits sum.splits option.splits)

lemma plain_handle: "unwatch_run (handle (noting pub) c env) = handle pub (unwatched c) env"
  by (simp add: handle_def plain_config plain_admit plain_apply_event
      split: prod.splits bool.splits pyval.splits option.splits)

lemma plain_handle_all: "unwatch_run (handle_all (noting pub) c envs) = handle_all pub (unwatched c) envs"
proof (induction envs arbitrary: c)
  case Nil
  then show ?case by (simp add: handle_all_def)
next
  case (Cons env envs)
  show ?case
  proof (cases "handle (noting pub) c env")
    case (Inl ex)
    then have "handle pub (unwatched c) env = Inl ex" using plain_handle [of pub c env] by simp
    with Inl show ?thesis by (simp add: handle_all_def)
  next
    case (Inr d)
    then have "handle pub (unwatched c) env = Inr (unwatched d)" using plain_handle [of pub c env] by simp
    with Inr Cons.IH [of d] show ?thesis by (simp add: handle_all_def)
  qed
qed

text \<open>The messages of one topic that the bus accepted during a run.\<close>

definition acknowledged :: "'b publisher \<Rightarrow> 'b coord \<Rightarrow> pyval list \<Rightarrow> string \<Rightarrow> pyval list" where
  "acknowledged pub c envs t =
     (case handle_all (noting pub) (watched c) envs of Inl _ \<Rightarrow> [] | Inr d \<Rightarrow> noted (co_bus d) t)"

lemma watched_run:
  assumes "handle_all pub c envs = Inr c'"
  obtains d where "handle_all (noting pub) (watched c) envs = Inr d" and "unwatched d = c'"
    and "\<And>t. acknowledged pub c envs t = noted (co_bus d) t"
proof -
  from assms have "unwatch_run (handle_all (noting pub) (watched c) envs) = Inr c'"
    by (simp add: plain_handle_all)
  then obtain d where "handle_all (noting pub) (watched c) envs = Inr d" "unwatched d = c'"
    by (cases "handle_all (noting pub) (watched c) envs") auto
  then show thesis by (intro that [of d]) (simp_all add: acknowledged_def)
qed

end
