(* ===== verification/KernelDurability.thy ===== *)
theory KernelDurability
  imports KernelProps KernelWatch
begin

text \<open>
  The composition \<open>system.py\<close> boots: the kernel publishes on the bus, the bus persists through
  the \<open>communication\<close> namespace of the store. The bus contract that the kernel's log lemmas
  need is the one the durable bus was shown to keep.
\<close>

section \<open>The log and the bus\<close>

context bus_port
begin

text \<open>
  The records on the log's topic are a subsequence of the log (a refused publication is
  retained in memory only), and they are all of it as long as the kernel has not halted.
\<close>

definition log_agrees :: "'b coord \<Rightarrow> bool" where
  "log_agrees c \<longleftrightarrow>
     live (co_bus c)
     \<and> subseq (history (co_bus c) ''transition.log'') (map render (co_log c))
     \<and> (\<not> co_halted c \<longrightarrow> history (co_bus c) ''transition.log'' = map render (co_log c))"

lemma log_agrees_unavailable:
  assumes "live (co_bus c)" and "subseq (history (co_bus c) ''transition.log'') (map render (co_log c))"
    and "co_halted c"
  shows "log_agrees (publish_unavailable pub c)"
  using assms pub_live [OF assms(1)]
  by (simp add: log_agrees_def publish_unavailable_def history_pub)

lemma log_agrees_publish:
  assumes la: "log_agrees c" and "topic \<noteq> ''transition.log''"
  shows "log_agrees (safe_publish pub c topic m)"
proof -
  obtain b ok where p: "pub (co_bus c) topic m = (b, ok)" by (cases "pub (co_bus c) topic m")
  have lv: "live (co_bus c)" using la by (simp add: log_agrees_def)
  have "live b" "history b ''transition.log'' = history (co_bus c) ''transition.log''"
    using pub_live [OF lv, of topic m] history_pub [OF lv, of topic m "''transition.log''"] assms(2) p by simp_all
  note b = this
  show ?thesis
  proof (cases "ok \<or> co_halted c")
    case True
    then have "safe_publish pub c topic m = c\<lparr>co_bus := b\<rparr>" using p by (cases ok) (auto simp: safe_publish_def)
    then show ?thesis using la b by (simp add: log_agrees_def)
  next
    case False
    then have "safe_publish pub c topic m = publish_unavailable pub (c\<lparr>co_bus := b, co_halted := True\<rparr>)"
      using p by (simp add: safe_publish_def)
    moreover have "log_agrees (publish_unavailable pub (c\<lparr>co_bus := b, co_halted := True\<rparr>))"
      by (rule log_agrees_unavailable) (use b la in \<open>simp_all add: log_agrees_def\<close>)
    ultimately show ?thesis by simp
  qed
qed

lemma log_agrees_record:
  assumes la: "log_agrees c"
  shows "log_agrees (log_record pub c r)"
proof -
  let ?t = "''transition.log''"
  obtain b ok where p: "pub (co_bus c) ?t r = (b, ok)" by (cases "pub (co_bus c) ?t r")
  have lv: "live (co_bus c)" using la by (simp add: log_agrees_def)
  have b: "live b" "history b ?t = history (co_bus c) ?t @ (if ok then [render r] else [])"
    using pub_live [OF lv, of ?t r] history_pub [OF lv, of ?t r ?t] p by simp_all
  have sub: "subseq (history b ?t) (map render (co_log c @ [r]))"
    using la b(2) by (auto simp: log_agrees_def intro: list_emb_append_mono subseq_order.trans [OF _ list_emb_append2])
  show ?thesis
  proof (cases "ok \<or> co_halted c")
    case True
    then have "log_record pub c r = c\<lparr>co_log := co_log c @ [r], co_bus := b\<rparr>"
      using p by (cases ok) (auto simp: log_record_def safe_publish_def)
    then show ?thesis using la b sub True by (cases ok) (auto simp: log_agrees_def)
  next
    case False
    then have "log_record pub c r
        = publish_unavailable pub (c\<lparr>co_log := co_log c @ [r], co_bus := b, co_halted := True\<rparr>)"
      using p by (simp add: log_record_def safe_publish_def)
    moreover have "log_agrees (publish_unavailable pub (c\<lparr>co_log := co_log c @ [r], co_bus := b, co_halted := True\<rparr>))"
      by (rule log_agrees_unavailable) (use b sub in simp_all)
    ultimately show ?thesis by simp
  qed
qed

lemma log_agrees_fault: "log_agrees c \<Longrightarrow> log_agrees (fault pub c why env)"
proof -
  assume "log_agrees c"
  then have "log_agrees (c\<lparr>co_out_seq := Suc (co_out_seq c)\<rparr>)" by (simp add: log_agrees_def)
  then show ?thesis unfolding fault_def by (rule log_agrees_publish) simp
qed

lemma log_agrees_ledger:
  "log_agrees c \<Longrightarrow> log_agrees (c\<lparr>co_ledger := l\<rparr>)"
  "log_agrees c \<Longrightarrow> log_agrees (c\<lparr>co_configs := cs, co_config := cfg\<rparr>)"
  by (simp_all add: log_agrees_def)

lemma log_agrees_publish_row_from:
  "log_agrees c \<Longrightarrow> ''transition.log'' \<notin> set names \<Longrightarrow>
     log_agrees (publish_row_from pub c e r d cfg info i names)"
proof (induction names arbitrary: c i)
  case Nil
  then show ?case by simp
next
  case (Cons n names)
  have "log_agrees (emit pub c n (rs_request_id e) (payload_for n e d r cfg info) cfg (event_id_for e i))"
    unfolding emit_def by (rule log_agrees_publish) (use Cons.prems in auto)
  with Cons show ?case by simp
qed

lemma log_agrees_transition:
  assumes "log_agrees c" and "''transition.log'' \<notin> set (row_emit r)"
  shows "log_agrees (transition pub c k e ev eid r g cfg info)"
  unfolding transition_def Let_def publish_row_def
  by (intro log_agrees_publish_row_from log_agrees_record log_agrees_ledger assms)

lemma log_agrees_cleanup: "log_agrees c \<Longrightarrow> log_agrees (cleanup_one pub c k)"
  by (auto simp: cleanup_one_def Let_def split: option.splits intro!: log_agrees_ledger log_agrees_record)

lemma log_agrees_session: "log_agrees c \<Longrightarrow> log_agrees (handle_session pub c name)"
proof -
  have "log_agrees c \<Longrightarrow> log_agrees (foldl (cleanup_one pub) c ks)" for c ks
    by (induction ks arbitrary: c) (auto intro: log_agrees_cleanup)
  then show "log_agrees c \<Longrightarrow> ?thesis"
    by (auto simp: handle_session_def Let_def intro: log_agrees_record)
qed

lemma log_agrees_handle_config:
  assumes "log_agrees c" and "handle_config pub c env pay = Inr c'"
  shows "log_agrees c'"
  using assms(2)
  by (cases rule: handle_config_outcome) (simp_all add: assms(1) log_agrees_fault log_agrees_record log_agrees_ledger)

lemma log_agrees_apply_event:
  assumes ok: "entries_ok state_named clean_emits c" and "ledger_get (co_ledger c) k = Some e" and "log_agrees c"
    and h: "apply_event pub c k e name env = Inr c'"
  shows "log_agrees c'"
proof -
  have named: "state_named e" using assms(1,2) by (auto simp: entries_ok_def)
  have "''transition.log'' \<notin> set (row_emit r)"
    if "cfg_rows (entry_config c e) (rs_lifecycle_state e) name = Some rows"
      and "pick_row rows e (entry_config c e) = Inr (Some (r, g))" for rows r g
    using clean_rowD(1) [OF entries_ok_config [OF ok] that(1)] named pick_row_mem [OF that(2)]
    by (simp add: state_named_def)
  note clean = this
  show ?thesis
    using h
  proof (cases rule: apply_event_outcome)
    case (faulted why)
    then show ?thesis by (simp add: log_agrees_fault assms(3))
  next
    case (moved rows r g)
    then show ?thesis using log_agrees_transition [OF assms(3) clean [OF moved(1,2)]] by simp
  qed
qed

lemma log_agrees_admitted_state:
  assumes ok: "entries_ok state_named clean_emits c" and "log_agrees c"
    and rows: "cfg_rows (co_config c) ''created'' ''request.received'' = Some rows"
  shows "log_agrees (admitted_state pub c rid eid pay rows)"
proof -
  have "clean_emits (co_config c)" using ok by (simp add: entries_ok_def)
  from clean_rowD(1) [OF this rows no_bar_created]
  have "''transition.log'' \<notin> set (row_emit (birth_row c pay rows))" by (simp add: birth_row_def)
  then show ?thesis
    unfolding admitted_state_def by (intro log_agrees_transition log_agrees_ledger assms(2))
qed

lemma log_agrees_admit:
  assumes ok: "entries_ok state_named clean_emits c" and la: "log_agrees c" and h: "admit pub c env pay = Inr c'"
    and fresh: "\<forall>k. hash_key (py_get env ''request_id'' PyNone) = Some k \<longrightarrow> ledger_get (co_ledger c) k = None"
  shows "log_agrees c'"
  using h fresh
proof (cases rule: admit_outcome)
  case missing
  then show ?thesis using la by (simp add: log_agrees_fault)
next
  case (born x xs rows)
  then show ?thesis using log_agrees_admitted_state [OF ok la] by simp
next
  case (chained x xs rows y ys)
  let ?c1 = "admitted_state pub c (PyStr (x # xs)) (py_get env ''event_id'' PyNone) pay rows"
  have la1: "log_agrees ?c1" by (rule log_agrees_admitted_state [OF ok la chained(2)])
  have ok1: "entries_ok state_named clean_emits ?c1" by (rule cleanly.admitted_state_ok [OF ok chained(2)])
  from chained(5) show ?thesis
  proof (cases rule: admit_chain_outcome)
    case (1 e rows' target reason)
    have "clean_emits (co_config c)" "no_bar (rs_lifecycle_state e)"
      using ok ok1 1(1) by (auto simp: entries_ok_def state_named_def)
    from clean_rowD(1) [OF this(1) 1(2) this(2)]
    show ?thesis unfolding 1(4) by (intro log_agrees_transition la1) auto
  qed
qed

lemma log_agrees_handle:
  assumes ok: "entries_ok state_named clean_emits c" and la: "log_agrees c" and h: "handle pub c env = Inr c'"
  shows "log_agrees c'"
  using h
proof (cases rule: handle_outcome)
  case (noop k e name)
  then show ?thesis by (simp add: log_noop_def log_agrees_record la)
next
  case (admitted k pay)
  then show ?thesis using log_agrees_admit [OF ok la admitted(3)] by simp
next
  case (applied k e name)
  from log_agrees_apply_event [OF ok applied(1) la applied(6)] show ?thesis .
qed (use la ok in \<open>simp_all add: log_agrees_fault log_agrees_handle_config log_agrees_session\<close>)

lemma log_agrees_run:
  assumes "handle_all pub c envs = Inr c'" and "entries_ok state_named clean_emits c \<and> log_agrees c"
    and "\<forall>env \<in> set envs. snapshot_ok clean_emits env"
  shows "entries_ok state_named clean_emits c' \<and> log_agrees c'"
  using assms(1) unfolding handle_all_def
  by (rule foldm_invariant) (use assms(2,3) cleanly.handle_ok log_agrees_handle in blast)+

end

text \<open>Observing the bus from boot, nothing has been noted and nothing is on disk.\<close>

lemma boot_watched:
  assumes "vault_good E ''communication'' s" and "ns_keys ''communication'' s ''communication/log'' = Inr []"
    and "co_bus c0 = bus_init (Some s) depth n"
  shows "vault.wire.agrees pub E ''communication'' (\<lambda>_. []) (co_bus (watched c0))"
  using boot_live [OF assms(1,2)] by (simp add: vault.wire.agrees_def assms(3) noted_def)

text \<open>
  C8: the kernel's log is on disk. Boot the kernel on the durable bus over a vault whose
  communication log is empty, with a transition table, and only snapshots, that emit nothing on
  the log's own topic. After any run, the documents the vault holds for that topic are, in
  order and in canonical text, exactly the records the bus accepted from the kernel during the
  run; those are records of the in-memory transition log, in its order, and all of them unless
  the kernel has halted. What was acknowledged is on disk; what is missing from disk was
  refused, and the kernel has halted.
\<close>

theorem kernel_log_on_disk:
  assumes "vault_good E ''communication'' s" and "ns_keys ''communication'' s ''communication/log'' = Inr []"
    and "coord_init (bus_init (Some s) depth n) data now = Inr c0"
    and "\<forall>cfg. config_view data = Inr cfg \<longrightarrow> clean_emits cfg"
    and "\<forall>env \<in> set envs. snapshot_ok clean_emits env"
    and "handle_all (bus_pub (wire_port pub E)) c0 envs = Inr c"
    and "acked = acknowledged (bus_pub (wire_port pub E)) c0 envs ''transition.log''"
  shows "log_docs (wire_port pub E) (co_bus c) ''transition.log'' = map json_dumps acked
    \<and> subseq acked (co_log c) \<and> (\<not> co_halted c \<longrightarrow> acked = co_log c)"
proof -
  obtain d where d: "handle_all (noting (bus_pub (wire_port pub E))) (watched c0) envs = Inr d" "unwatched d = c"
      "acked = noted (co_bus d) ''transition.log''"
    using watched_run [OF assms(6)] assms(7) by metis
  note port = vault.wire.noting_port [where held = "\<lambda>_. []" and ns = "''communication''" and E = E and pub = pub]
  have boot: "vault.wire.agrees pub E ''communication'' (\<lambda>_. []) (co_bus (watched c0))"
    by (rule boot_watched [OF assms(1,2) init_bus [OF assms(3)]])
  have "entries_ok state_named clean_emits (watched c0)"
    using cleanly.init_ok [OF assms(3)] assms(4) by (simp add: entries_ok_def watched_def)
  moreover have "bus_port.log_agrees noted (\<lambda>m. m) (vault.wire.agrees pub E ''communication'' (\<lambda>_. [])) (watched c0)"
    unfolding bus_port.log_agrees_def [OF port]
    using boot init_ledger [OF assms(3)] by (simp add: watched_def noted_def)
  ultimately have "bus_port.log_agrees noted (\<lambda>m. m) (vault.wire.agrees pub E ''communication'' (\<lambda>_. [])) d"
    using bus_port.log_agrees_run [OF port d(1) _ assms(5)] by blast
  then show ?thesis
    unfolding bus_port.log_agrees_def [OF port] using d(2,3)
    by (auto simp: vault.wire.agrees_def)
qed

definition demo_durable :: "mem_bus store bus coord" where
  "demo_durable = (coord_blank (bus_init (Some (demo_store [])) 10 3) 0)
     \<lparr>co_configs := [(1, default_config)], co_config := default_config\<rparr>"

lemma demo_durable_init: "coord_init (bus_init (Some (demo_store [])) 10 3) (snapshot []) 0 = Inr demo_durable"
proof -
  have "cfg_version default_config = 1" by (simp add: default_config_def)
  then show ?thesis
    by (simp add: coord_init_def install_def demo_durable_def coord_blank_def config_view_default)
qed

definition demo_wake :: pyval where
  "demo_wake = demo_env ''e0'' ''session.wake'' []"

theorem kernel_log_on_disk_witness:
  "\<exists>c. handle_all (bus_pub (wire_port mem_publish demo_senv)) demo_durable [demo_wake] = Inr c
     \<and> length (co_log c) = 1
     \<and> acknowledged (bus_pub (wire_port mem_publish demo_senv)) demo_durable [demo_wake] ''transition.log'' = co_log c
     \<and> log_docs (wire_port mem_publish demo_senv) (co_bus c) ''transition.log'' = map json_dumps (co_log c)"
proof -
  have "case handle_all (bus_pub (wire_port mem_publish demo_senv)) demo_durable [demo_wake] of
      Inl _ \<Rightarrow> False | Inr c \<Rightarrow> length (co_log c) = 1 \<and> \<not> co_halted c"
    by code_simp
  then obtain c where c: "handle_all (bus_pub (wire_port mem_publish demo_senv)) demo_durable [demo_wake] = Inr c"
      "length (co_log c) = 1" "\<not> co_halted c" by (auto split: sum.splits)
  have keys: "ns_keys ''communication'' (demo_store [] :: mem_bus store) ''communication/log'' = Inr []" by code_simp
  have "\<forall>env \<in> set [demo_wake]. snapshot_ok clean_emits env"
    by (simp add: snapshot_ok_def demo_wake_def demo_env_def make_env_def config_view_def validate_config_def)
  from kernel_log_on_disk [OF demo_store_good keys demo_durable_init _ this c(1) refl] c
  show ?thesis by (auto simp: config_view_default clean_emits_default)
qed

end
