(* ===== verification/Execution.thy ===== *)
theory Execution
  imports StorageJournal BusPort
begin

text \<open>
  The process spawner (\<open>execution/engine.py\<close>): submission checks, the lifecycle of one
  execution, bounded retries, the journal of attempts and the events. The runner is a
  parameter with a state of its own; the engine's own runner is defined over the operating
  system's answers. Timeouts are integers (floats are not modelled). The storage namespace
  and the bus are separate parts of the state.
\<close>

section \<open>Executions\<close>

datatype xstate = Pending | Running | Completed | Failed | TimedOut | Cancelled

fun xstate_name :: "xstate \<Rightarrow> string" where
  "xstate_name Pending = ''pending''"
| "xstate_name Running = ''running''"
| "xstate_name Completed = ''completed''"
| "xstate_name Failed = ''failed''"
| "xstate_name TimedOut = ''timeout''"
| "xstate_name Cancelled = ''cancelled''"

definition terminal_xstates :: "xstate list" where
  "terminal_xstates = [Completed, Failed, TimedOut, Cancelled]"

record outcome =
  oc_state :: "xstate option"
  oc_exit :: "int option"
  oc_stdout :: string
  oc_stderr :: string

record exec_handle =
  xh_id :: string
  xh_spec :: payload
  xh_state :: xstate
  xh_attempts :: nat
  xh_result :: "outcome option"

datatype exec_exn =
    BadSpec string
  | CapsUnsupported string
  | IllegalTransition string
  | RunnerRaised string
  | StorageRaised store_exn
  | BusRaised
  | BadRecord

type_synonym 'w runner = "'w \<Rightarrow> payload \<Rightarrow> 'w \<times> (exec_exn + outcome)"

record ('s, 'b, 'w) engine =
  eg_store :: "'s option"
  eg_bus :: "'b option"
  eg_world :: 'w
  eg_handles :: "(string, exec_handle) dict"
  eg_next :: nat

text \<open>What the engine is wired to: the storage port and the handle's name, the bus, the
  runner and SHA-256.\<close>

record ('s, 'b, 'w) wiring =
  wi_port :: "'s blob_port"
  wi_ns :: string
  wi_pub :: "'b publisher"
  wi_runner :: "'w runner"
  wi_sha :: digest

definition engine_init :: "'s option \<Rightarrow> 'b option \<Rightarrow> 'w \<Rightarrow> ('s, 'b, 'w) engine" where
  "engine_init store bus w = \<lparr>eg_store = store, eg_bus = bus, eg_world = w, eg_handles = [], eg_next = 1\<rparr>"

section \<open>Submission\<close>

definition strict_int :: "pyval \<Rightarrow> int option" where
  "strict_int v = (case v of PyInt i \<Rightarrow> Some i | _ \<Rightarrow> None)"

definition check_spec :: "pyval \<Rightarrow> exec_exn + payload" where
  "check_spec spec =
     (case spec of
        PyDict d \<Rightarrow>
          (let command = py_get spec ''command'' PyNone;
               timeout = py_get spec ''timeout_seconds'' PyNone;
               retries = py_get spec ''max_retries'' (PyInt 0)
           in if (case as_strs command of None \<Rightarrow> True | Some parts \<Rightarrow> parts = [])
              then Inl (BadSpec (''execution.bad_command:'' @ py_repr command))
              else if (case strict_int timeout of None \<Rightarrow> True | Some n \<Rightarrow> n \<le> 0)
              then Inl (BadSpec (''execution.bad_timeout:'' @ py_repr timeout))
              else if (case strict_int retries of None \<Rightarrow> True | Some n \<Rightarrow> n < 0)
              then Inl (BadSpec (''execution.bad_max_retries:'' @ py_repr retries))
              else if truthy (py_get spec ''resource_caps'' PyNone)
              then Inl (CapsUnsupported (''execution.caps_unenforceable:''
                     @ py_repr (py_get spec ''resource_caps'' PyNone)))
              else Inr d)
      | _ \<Rightarrow> Inl (BadSpec (''execution.spec_not_mapping:'' @ py_repr spec)))"

definition exec_id :: "nat \<Rightarrow> string" where
  "exec_id n = ''x-'' @ pad_left 6 (nat_str n)"

definition submit :: "('s, 'b, 'w) engine \<Rightarrow> pyval \<Rightarrow> exec_exn + ('s, 'b, 'w) engine \<times> string" where
  "submit e spec =
     (case check_spec spec of
        Inl ex \<Rightarrow> Inl ex
      | Inr d \<Rightarrow>
          (let xid = exec_id (eg_next e);
               h = \<lparr>xh_id = xid, xh_spec = d, xh_state = Pending, xh_attempts = 0, xh_result = None\<rparr>
           in Inr (e\<lparr>eg_next := Suc (eg_next e), eg_handles := dset xid h (eg_handles e)\<rparr>, xid)))"

definition handle_of :: "('s, 'b, 'w) engine \<Rightarrow> string \<Rightarrow> exec_handle option" where
  "handle_of e xid = dget (eg_handles e) xid"

definition put_handle :: "('s, 'b, 'w) engine \<Rightarrow> exec_handle \<Rightarrow> ('s, 'b, 'w) engine" where
  "put_handle e h = e\<lparr>eg_handles := dset (xh_id h) h (eg_handles e)\<rparr>"

section \<open>Records and events\<close>

text \<open>\<open>doc.update(info)\<close> after the identity fields.\<close>

definition record_doc :: "exec_handle \<Rightarrow> string \<Rightarrow> payload \<Rightarrow> pyval" where
  "record_doc h kind info =
     PyDict (foldl (\<lambda>d (k, v). dset k v d) [(''execution_id'', PyStr (xh_id h)), (''kind'', PyStr kind)] info)"

definition write_record ::
  "('s, 'b, 'w) wiring \<Rightarrow> ('s, 'b, 'w) engine \<Rightarrow> exec_handle \<Rightarrow> string \<Rightarrow> payload \<Rightarrow> ('s, 'b, 'w) engine \<times> exec_exn option"
where
  "write_record X e h kind info =
     (case eg_store e of
        None \<Rightarrow> (e, None)
      | Some s \<Rightarrow>
          (case journal_open (wi_port X) s (wi_ns X) (xh_id h) of
             Inl ex \<Rightarrow> (e, Some (StorageRaised ex))
           | Inr j \<Rightarrow>
               (case journal_append (wi_port X) s j (json_dumps (record_doc h kind info)) of
                  ((s', _), Inl ex) \<Rightarrow> (e\<lparr>eg_store := Some s'\<rparr>, Some (StorageRaised ex))
                | ((s', _), Inr _) \<Rightarrow> (e\<lparr>eg_store := Some s'\<rparr>, None))))"

fun loads_all :: "string list \<Rightarrow> exec_exn + pyval list" where
  "loads_all [] = Inr []"
| "loads_all (d # ds) =
     (case json_loads d of
        None \<Rightarrow> Inl BadRecord
      | Some v \<Rightarrow> (case loads_all ds of Inl ex \<Rightarrow> Inl ex | Inr vs \<Rightarrow> Inr (v # vs)))"

definition records :: "('s, 'b, 'w) wiring \<Rightarrow> ('s, 'b, 'w) engine \<Rightarrow> string \<Rightarrow> exec_exn + pyval list" where
  "records X e xid =
     (case eg_store e of
        None \<Rightarrow> Inr []
      | Some s \<Rightarrow>
          (case journal_open (wi_port X) s (wi_ns X) xid of
             Inl ex \<Rightarrow> Inl (StorageRaised ex)
           | Inr j \<Rightarrow>
               (case journal_entries (wi_port X) s j 0 of
                  Inl ex \<Rightarrow> Inl (StorageRaised ex)
                | Inr ds \<Rightarrow> loads_all ds)))"

definition exec_event :: "exec_handle \<Rightarrow> string \<Rightarrow> nat \<Rightarrow> payload \<Rightarrow> pyval" where
  "exec_event h name attempt pay =
     PyDict [(''event_id'', PyStr (xh_id h @ '':'' @ nat_str attempt @ '':'' @ name)),
             (''event_name'', PyStr name),
             (''request_id'', py_get (PyDict (xh_spec h)) ''request_id'' PyNone),
             (''timestamp'', PyInt 0),
             (''payload'', PyDict (foldl (\<lambda>d (k, v). dset k v d) [(''execution_id'', PyStr (xh_id h))] pay))]"

definition emit_event ::
  "('s, 'b, 'w) wiring \<Rightarrow> ('s, 'b, 'w) engine \<Rightarrow> exec_handle \<Rightarrow> string \<Rightarrow> nat \<Rightarrow> payload \<Rightarrow> ('s, 'b, 'w) engine \<times> exec_exn option"
where
  "emit_event X e h name attempt pay =
     (case eg_bus e of
        None \<Rightarrow> (e, None)
      | Some b \<Rightarrow>
          (case wi_pub X b name (exec_event h name attempt pay) of
             (b', ok) \<Rightarrow> (e\<lparr>eg_bus := Some b'\<rparr>, if ok then None else Some BusRaised)))"

section \<open>Lifecycle\<close>

definition cancel_result :: outcome where
  "cancel_result = \<lparr>oc_state = Some Cancelled, oc_exit = None, oc_stdout = [], oc_stderr = []\<rparr>"

definition cancel ::
  "('s, 'b, 'w) wiring \<Rightarrow> ('s, 'b, 'w) engine \<Rightarrow> exec_handle \<Rightarrow> ('s, 'b, 'w) engine \<times> (exec_exn + outcome)" where
  "cancel X e h =
     (if xh_state h \<noteq> Pending
      then (e, Inl (IllegalTransition (''execution.cancel_illegal:'' @ xstate_name (xh_state h))))
      else
        let h' = h\<lparr>xh_state := Cancelled, xh_result := Some cancel_result\<rparr>
        in case write_record X (put_handle e h') h' ''terminal'' [(''outcome'', PyStr (xstate_name Cancelled))] of
             (e', Some ex) \<Rightarrow> (e', Inl ex)
           | (e', None) \<Rightarrow> (e', Inr cancel_result))"

definition exit_val :: "outcome \<Rightarrow> pyval" where
  "exit_val o' = (case oc_exit o' of None \<Rightarrow> PyNone | Some n \<Rightarrow> PyInt n)"

text \<open>
  The attempts still allowed, starting with attempt \<open>a\<close>; \<open>prev\<close> is what the loop leaves in
  \<open>outcome\<close> when the budget is used up.
\<close>

fun attempt_loop ::
  "('s, 'b, 'w) wiring \<Rightarrow> ('s, 'b, 'w) engine \<Rightarrow> exec_handle \<Rightarrow> nat \<Rightarrow> nat \<Rightarrow> outcome
   \<Rightarrow> ('s, 'b, 'w) engine \<times> exec_handle \<times> (exec_exn + outcome)" where
  "attempt_loop X e h a 0 prev = (e, h, Inr prev)"
| "attempt_loop X e h a (Suc n) prev =
     (let h = h\<lparr>xh_attempts := a\<rparr>; pay = [(''attempt'', PyInt (int a))] in
      case write_record X (put_handle e h) h ''attempt'' pay of
        (e, Some ex) \<Rightarrow> (e, h, Inl ex)
      | (e, None) \<Rightarrow>
          (case emit_event X e h ''exec.started'' a pay of
             (e, Some ex) \<Rightarrow> (e, h, Inl ex)
           | (e, None) \<Rightarrow>
               (case wi_runner X (eg_world e) (xh_spec h) of
                  (w, Inl ex) \<Rightarrow> (e\<lparr>eg_world := w\<rparr>, h, Inl ex)
                | (w, Inr oc) \<Rightarrow>
                    (if oc_state oc = Some TimedOut then (e\<lparr>eg_world := w\<rparr>, h, Inr oc)
                     else if oc_exit oc = Some 0
                     then (e\<lparr>eg_world := w\<rparr>, h, Inr (oc\<lparr>oc_state := Some Completed\<rparr>))
                     else attempt_loop X (e\<lparr>eg_world := w\<rparr>) h (Suc a) n (oc\<lparr>oc_state := Some Failed\<rparr>)))))"

definition retry_budget :: "exec_handle \<Rightarrow> nat" where
  "retry_budget h =
     (case strict_int (py_get (PyDict (xh_spec h)) ''max_retries'' (PyInt 0)) of None \<Rightarrow> 0 | Some n \<Rightarrow> nat n)"

fun event_by_state :: "xstate option \<Rightarrow> string" where
  "event_by_state (Some Completed) = ''exec.completed''"
| "event_by_state (Some TimedOut) = ''exec.timeout''"
| "event_by_state _ = ''exec.failed''"

definition terminal_fields :: "digest \<Rightarrow> exec_handle \<Rightarrow> outcome \<Rightarrow> payload" where
  "terminal_fields sha h oc =
     [(''outcome'', case oc_state oc of None \<Rightarrow> PyNone | Some st \<Rightarrow> PyStr (xstate_name st)),
      (''exit_code'', exit_val oc), (''attempts'', PyInt (int (xh_attempts h))),
      (''stdout_sha256'', PyStr (hexdigest sha (oc_stdout oc))),
      (''stderr_sha256'', PyStr (hexdigest sha (oc_stderr oc)))]"

definition finish ::
  "('s, 'b, 'w) wiring \<Rightarrow> ('s, 'b, 'w) engine \<Rightarrow> exec_handle \<Rightarrow> outcome
   \<Rightarrow> ('s, 'b, 'w) engine \<times> exec_handle \<times> (exec_exn + outcome)" where
  "finish X e h oc =
     (let h' = h\<lparr>xh_state := (case oc_state oc of None \<Rightarrow> Failed | Some st \<Rightarrow> st), xh_result := Some oc\<rparr> in
      case write_record X (put_handle e h') h' ''terminal'' (terminal_fields (wi_sha X) h' oc) of
        (e, Some ex) \<Rightarrow> (e, h', Inl ex)
      | (e, None) \<Rightarrow>
          (case emit_event X e h' (event_by_state (oc_state oc)) (xh_attempts h')
                  [(''exit_code'', exit_val oc), (''attempts'', PyInt (int (xh_attempts h')))] of
             (e, Some ex) \<Rightarrow> (e, h', Inl ex)
           | (e, None) \<Rightarrow> (e, h', Inr oc)))"

definition no_outcome :: outcome where
  "no_outcome = \<lparr>oc_state = None, oc_exit = None, oc_stdout = [], oc_stderr = []\<rparr>"

definition run ::
  "('s, 'b, 'w) wiring \<Rightarrow> ('s, 'b, 'w) engine \<Rightarrow> exec_handle
   \<Rightarrow> ('s, 'b, 'w) engine \<times> exec_handle \<times> (exec_exn + outcome)" where
  "run X e h =
     (if xh_state h \<noteq> Pending
      then (e, h, Inl (IllegalTransition (''execution.run_illegal:'' @ xstate_name (xh_state h))))
      else
        let h = h\<lparr>xh_state := Running\<rparr> in
        case attempt_loop X (put_handle e h) h 1 (Suc (retry_budget h)) no_outcome of
          (e, h, Inl ex) \<Rightarrow> (e, h, Inl ex)
        | (e, h, Inr oc) \<Rightarrow> finish X e h oc)"

section \<open>The engine's own runner\<close>

text \<open>What the operating system makes of a command that was passed to it.\<close>

datatype proc_result = Exited int string string | Expired string string | Unlaunchable string

text \<open>\<open>subprocess.run\<close> raises \<open>ValueError\<close> for an argument with a zero byte.\<close>

definition subprocess_runner :: "('w \<Rightarrow> string list \<Rightarrow> 'w \<times> proc_result) \<Rightarrow> 'w runner" where
  "subprocess_runner os w spec =
     (let argv = (case as_strs (py_get (PyDict spec) ''command'' PyNone) of None \<Rightarrow> [] | Some parts \<Rightarrow> parts) in
      if list_ex (\<lambda>p. CHR 0x00 \<in> set p) argv then (w, Inl (RunnerRaised ''embedded null byte''))
      else case os w argv of
        (w', Exited n out err) \<Rightarrow>
          (w', Inr \<lparr>oc_state = None, oc_exit = Some n, oc_stdout = out, oc_stderr = err\<rparr>)
      | (w', Expired out err) \<Rightarrow>
          (w', Inr \<lparr>oc_state = Some TimedOut, oc_exit = None, oc_stdout = out, oc_stderr = err\<rparr>)
      | (w', Unlaunchable msg) \<Rightarrow>
          (w', Inr \<lparr>oc_state = None, oc_exit = Some 127, oc_stdout = [], oc_stderr = msg\<rparr>))"

section \<open>Outcomes\<close>

definition decided :: "outcome \<Rightarrow> nat \<Rightarrow> nat \<Rightarrow> bool" where
  "decided oc attempts budget \<longleftrightarrow>
     oc_state oc = Some Completed \<and> oc_exit oc = Some 0
     \<or> oc_state oc = Some TimedOut
     \<or> oc_state oc = Some Failed \<and> oc_exit oc \<noteq> Some 0 \<and> attempts = budget"

lemma write_record_frame [simp]:
  "eg_handles (fst (write_record X e h k fs)) = eg_handles e"
  "eg_world (fst (write_record X e h k fs)) = eg_world e"
  "eg_bus (fst (write_record X e h k fs)) = eg_bus e"
  "eg_next (fst (write_record X e h k fs)) = eg_next e"
  by (auto simp: write_record_def split: option.splits sum.splits prod.splits)

lemma emit_event_frame [simp]:
  "eg_handles (fst (emit_event X e h n a p)) = eg_handles e"
  "eg_world (fst (emit_event X e h n a p)) = eg_world e"
  "eg_store (fst (emit_event X e h n a p)) = eg_store e"
  "eg_next (fst (emit_event X e h n a p)) = eg_next e"
  by (auto simp: emit_event_def split: option.splits prod.splits)

lemma put_handle_frame [simp]:
  "eg_store (put_handle e h) = eg_store e" "eg_bus (put_handle e h) = eg_bus e"
  "eg_world (put_handle e h) = eg_world e" "eg_next (put_handle e h) = eg_next e"
  by (simp_all add: put_handle_def)

text \<open>One turn of the loop.\<close>

lemma attempt_loop_step:
  assumes "attempt_loop X e h a (Suc n) prev = (e', h', Inr oc)"
  obtains e1 e2 w oc1 where
    "write_record X (put_handle e (h\<lparr>xh_attempts := a\<rparr>)) (h\<lparr>xh_attempts := a\<rparr>) ''attempt'' [(''attempt'', PyInt (int a))] = (e1, None)"
    and "emit_event X e1 (h\<lparr>xh_attempts := a\<rparr>) ''exec.started'' a [(''attempt'', PyInt (int a))] = (e2, None)"
    and "wi_runner X (eg_world e2) (xh_spec h) = (w, Inr oc1)"
    and "if oc_state oc1 = Some TimedOut then e' = e2\<lparr>eg_world := w\<rparr> \<and> h' = h\<lparr>xh_attempts := a\<rparr> \<and> oc = oc1
         else if oc_exit oc1 = Some 0
         then e' = e2\<lparr>eg_world := w\<rparr> \<and> h' = h\<lparr>xh_attempts := a\<rparr> \<and> oc = oc1\<lparr>oc_state := Some Completed\<rparr>
         else attempt_loop X (e2\<lparr>eg_world := w\<rparr>) (h\<lparr>xh_attempts := a\<rparr>) (Suc a) n (oc1\<lparr>oc_state := Some Failed\<rparr>)
           = (e', h', Inr oc)"
  using assms by (auto simp: Let_def split: prod.splits option.splits sum.splits if_splits)

lemma attempt_loop_decides:
  assumes "attempt_loop X e h a n prev = (e', h', Inr oc)"
    and "n = 0 \<Longrightarrow> decided prev (xh_attempts h) b \<and> 0 < a" and "a + n = Suc b"
  shows "decided oc (xh_attempts h') b \<and> (0 < n \<longrightarrow> a \<le> xh_attempts h' \<and> xh_attempts h' \<le> b)
    \<and> xh_id h' = xh_id h \<and> xh_spec h' = xh_spec h \<and> xh_state h' = xh_state h"
  using assms
proof (induction n arbitrary: e h a prev)
  case 0
  then show ?case by simp
next
  case (Suc n)
  from Suc.prems(1) show ?case
  proof (rule attempt_loop_step)
    fix e1 e2 w oc1
    let ?h = "h\<lparr>xh_attempts := a\<rparr>"
    assume r: "if oc_state oc1 = Some TimedOut then e' = e2\<lparr>eg_world := w\<rparr> \<and> h' = ?h \<and> oc = oc1
         else if oc_exit oc1 = Some 0
         then e' = e2\<lparr>eg_world := w\<rparr> \<and> h' = ?h \<and> oc = oc1\<lparr>oc_state := Some Completed\<rparr>
         else attempt_loop X (e2\<lparr>eg_world := w\<rparr>) ?h (Suc a) n (oc1\<lparr>oc_state := Some Failed\<rparr>) = (e', h', Inr oc)"
    show ?case
    proof (cases "oc_state oc1 = Some TimedOut \<or> oc_exit oc1 = Some 0")
      case True
      with r Suc.prems(3) show ?thesis by (auto simp: decided_def split: if_splits)
    next
      case False
      with r have l: "attempt_loop X (e2\<lparr>eg_world := w\<rparr>) ?h (Suc a) n (oc1\<lparr>oc_state := Some Failed\<rparr>) = (e', h', Inr oc)"
        by auto
      have d: "decided (oc1\<lparr>oc_state := Some Failed\<rparr>) (xh_attempts ?h) b \<and> 0 < Suc a" if "n = 0"
        using that False Suc.prems(3) by (simp add: decided_def)
      from Suc.IH [OF l] d Suc.prems(3) have ih: "decided oc (xh_attempts h') b"
          "0 < n \<longrightarrow> Suc a \<le> xh_attempts h' \<and> xh_attempts h' \<le> b"
          "xh_id h' = xh_id h \<and> xh_spec h' = xh_spec h \<and> xh_state h' = xh_state h"
        by auto
      have "n = 0 \<Longrightarrow> xh_attempts h' = a \<and> a = b" using l Suc.prems(3) by auto
      with ih show ?thesis by (cases "n = 0") auto
    qed
  qed
qed

lemma finish_outcome:
  assumes "finish X e h oc = (e', h', res)"
  shows "h' = h\<lparr>xh_state := (case oc_state oc of None \<Rightarrow> Failed | Some st \<Rightarrow> st), xh_result := Some oc\<rparr>"
    and "\<And>oc'. res = Inr oc' \<Longrightarrow> oc' = oc"
  using assms by (auto simp: finish_def Let_def split: prod.splits option.splits)

lemma finish_steps:
  assumes "finish X e h oc = (e', h', Inr oc')"
  obtains e2 where "write_record X (put_handle e h') h' ''terminal'' (terminal_fields (wi_sha X) h' oc) = (e2, None)"
    and "emit_event X e2 h' (event_by_state (oc_state oc)) (xh_attempts h')
      [(''exit_code'', exit_val oc), (''attempts'', PyInt (int (xh_attempts h')))] = (e', None)"
    and "oc' = oc"
proof -
  let ?h = "h\<lparr>xh_state := (case oc_state oc of None \<Rightarrow> Failed | Some st \<Rightarrow> st), xh_result := Some oc\<rparr>"
  let ?pay = "[(''exit_code'', exit_val oc), (''attempts'', PyInt (int (xh_attempts ?h)))]"
  obtain e1 r1 where w: "write_record X (put_handle e ?h) ?h ''terminal'' (terminal_fields (wi_sha X) ?h oc) = (e1, r1)"
    by (cases "write_record X (put_handle e ?h) ?h ''terminal'' (terminal_fields (wi_sha X) ?h oc)")
  obtain e2 r2 where m: "emit_event X e1 ?h (event_by_state (oc_state oc)) (xh_attempts ?h) ?pay = (e2, r2)"
    by (cases "emit_event X e1 ?h (event_by_state (oc_state oc)) (xh_attempts ?h) ?pay")
  have "r1 = None" using assms w by (cases r1) (simp_all add: finish_def Let_def)
  moreover from this have "r2 = None" using assms w m by (cases r2) (simp_all add: finish_def Let_def)
  ultimately have "h' = ?h" "e' = e2" "oc' = oc" using assms w m by (auto simp: finish_def Let_def)
  with w m \<open>r1 = None\<close> \<open>r2 = None\<close> show thesis by (intro that) simp_all
qed

lemma run_steps:
  assumes "run X e h = (e', h', Inr oc)"
  obtains e1 h1 where
    "attempt_loop X (put_handle e (h\<lparr>xh_state := Running\<rparr>)) (h\<lparr>xh_state := Running\<rparr>) 1 (Suc (retry_budget h)) no_outcome
       = (e1, h1, Inr oc)"
    and "finish X e1 h1 oc = (e', h', Inr oc)" and "xh_state h = Pending"
proof -
  have p: "xh_state h = Pending" using assms by (simp add: run_def split: if_splits)
  let ?h = "h\<lparr>xh_state := Running\<rparr>"
  have b: "retry_budget ?h = retry_budget h" by (simp add: retry_budget_def)
  obtain e1 h1 r where l: "attempt_loop X (put_handle e ?h) ?h 1 (Suc (retry_budget h)) no_outcome = (e1, h1, r)"
    by (metis prod.exhaust)
  show thesis
  proof (cases r)
    case (Inl ex)
    with assms p l b show thesis by (simp add: run_def Let_def del: attempt_loop.simps)
  next
    case (Inr oc1)
    with assms p l b have f: "finish X e1 h1 oc1 = (e', h', Inr oc)" by (simp add: run_def Let_def del: attempt_loop.simps)
    with finish_outcome(2) [OF f] l Inr p show thesis by (intro that) auto
  qed
qed

lemma run_decides:
  assumes "run X e h = (e', h', Inr oc)"
  shows "xh_state h = Pending \<and> xh_result h' = Some oc \<and> oc_state oc = Some (xh_state h')
    \<and> decided oc (xh_attempts h') (Suc (retry_budget h))
    \<and> 1 \<le> xh_attempts h' \<and> xh_attempts h' \<le> Suc (retry_budget h) \<and> xh_id h' = xh_id h"
proof -
  from assms obtain e1 h1 where l: "attempt_loop X (put_handle e (h\<lparr>xh_state := Running\<rparr>))
      (h\<lparr>xh_state := Running\<rparr>) 1 (Suc (retry_budget h)) no_outcome = (e1, h1, Inr oc)"
    and f: "finish X e1 h1 oc = (e', h', Inr oc)" and p: "xh_state h = Pending"
    by (rule run_steps)
  have "decided oc (xh_attempts h1) (Suc (retry_budget h)) \<and> 1 \<le> xh_attempts h1
      \<and> xh_attempts h1 \<le> Suc (retry_budget h) \<and> xh_id h1 = xh_id h"
    using attempt_loop_decides [OF l, of "Suc (retry_budget h)"] by simp
  with finish_outcome [OF f] p show ?thesis by (auto simp: decided_def)
qed

section \<open>Why a run raises\<close>

text \<open>Commands the operating system can be asked to launch: no argument has a zero byte.\<close>

definition launchable :: "payload \<Rightarrow> bool" where
  "launchable spec \<longleftrightarrow>
     (case as_strs (py_get (PyDict spec) ''command'' PyNone) of
        None \<Rightarrow> True
      | Some parts \<Rightarrow> list_all (\<lambda>p. CHR 0x00 \<notin> set p) parts)"

lemma subprocess_returns: "launchable spec \<Longrightarrow> \<exists>w' oc. subprocess_runner os w spec = (w', Inr oc)"
  by (auto simp: subprocess_runner_def launchable_def list_ex_iff list_all_iff Let_def
      split: option.splits prod.splits proc_result.splits)

text \<open>An exception of the storage or of the bus the engine is wired to.\<close>

definition port_raised :: "('s, 'b, 'w) engine \<Rightarrow> exec_exn \<Rightarrow> bool" where
  "port_raised e ex \<longleftrightarrow>
     eg_store e \<noteq> None \<and> (\<exists>x. ex = StorageRaised x) \<or> eg_bus e \<noteq> None \<and> ex = BusRaised"

definition same_ports :: "('s, 'b, 'w) engine \<Rightarrow> ('s, 'b, 'w) engine \<Rightarrow> bool" where
  "same_ports e e' \<longleftrightarrow> (eg_store e' = None \<longleftrightarrow> eg_store e = None) \<and> (eg_bus e' = None \<longleftrightarrow> eg_bus e = None)"

lemma same_ports_simps [simp]:
  "same_ports e e" "same_ports e (put_handle e h)" "same_ports e (e\<lparr>eg_world := w\<rparr>)"
  by (simp_all add: same_ports_def)

lemma same_ports_trans: "same_ports e e1 \<Longrightarrow> same_ports e1 e2 \<Longrightarrow> same_ports e e2"
  by (simp add: same_ports_def)

lemma port_raised_same: "same_ports e e' \<Longrightarrow> port_raised e' ex \<Longrightarrow> port_raised e ex"
  by (auto simp: same_ports_def port_raised_def)

lemma write_record_raises:
  assumes "write_record X e h k info = (e', r)"
  shows "same_ports e e'" and "r = Some ex \<Longrightarrow> port_raised e ex"
  using assms
  by (auto simp: write_record_def same_ports_def port_raised_def split: option.splits sum.splits prod.splits)

lemma emit_event_raises:
  assumes "emit_event X e h n a p = (e', r)"
  shows "same_ports e e'" and "r = Some ex \<Longrightarrow> port_raised e ex"
  using assms
  by (auto simp: emit_event_def same_ports_def port_raised_def split: option.splits prod.splits if_splits)

lemma attempt_loop_raises:
  assumes "attempt_loop X e h a n prev = (e', h', res)"
    and "\<And>w. \<exists>w' oc. wi_runner X w (xh_spec h) = (w', Inr oc)" and "0 < n"
  shows "same_ports e e' \<and> a \<le> xh_attempts h' \<and> xh_attempts h' < a + n
    \<and> (\<forall>ex. res = Inl ex \<longrightarrow> port_raised e ex)"
  using assms
proof (induction n arbitrary: e h a prev)
  case 0
  then show ?case by simp
next
  case (Suc n)
  let ?h = "h\<lparr>xh_attempts := a\<rparr>" and ?pay = "[(''attempt'', PyInt (int a))]"
  obtain e1 r1 where w: "write_record X (put_handle e ?h) ?h ''attempt'' ?pay = (e1, r1)"
    by (cases "write_record X (put_handle e ?h) ?h ''attempt'' ?pay")
  obtain e2 r2 where m: "emit_event X e1 ?h ''exec.started'' a ?pay = (e2, r2)"
    by (cases "emit_event X e1 ?h ''exec.started'' a ?pay")
  obtain v oc where v: "wi_runner X (eg_world e2) (xh_spec h) = (v, Inr oc)" using Suc.prems(2) by blast
  have p1: "same_ports e e1"
    using write_record_raises(1) [OF w] same_ports_trans [of e "put_handle e ?h"] by simp
  have p2: "same_ports e (e2\<lparr>eg_world := v\<rparr>)" "same_ports e e2"
    using p1 emit_event_raises(1) [OF m] by (auto simp: same_ports_def)
  have raised: "r1 = Some ex \<Longrightarrow> port_raised e ex" "r2 = Some ex \<Longrightarrow> port_raised e ex" for ex
    using write_record_raises(2) [OF w] emit_event_raises(2) [OF m] port_raised_same [OF p1]
    by (auto simp: port_raised_def)
  consider ex where "r1 = Some ex" | ex where "r1 = None" "r2 = Some ex" | "r1 = None" "r2 = None" by fastforce
  then show ?case
  proof cases
    case (1 ex)
    with Suc.prems(1) w p1 raised show ?thesis by (auto simp: Let_def)
  next
    case (2 ex)
    with Suc.prems(1) w m p2 raised show ?thesis by (auto simp: Let_def)
  next
    case 3
    show ?thesis
    proof (cases "oc_state oc = Some TimedOut \<or> oc_exit oc = Some 0 \<or> n = 0")
      case True
      with 3 Suc.prems(1) w m v p2 show ?thesis by (auto simp: Let_def split: if_splits)
    next
      case False
      with 3 Suc.prems(1) w m v
      have l: "attempt_loop X (e2\<lparr>eg_world := v\<rparr>) ?h (Suc a) n (oc\<lparr>oc_state := Some Failed\<rparr>) = (e', h', res)"
        by (simp add: Let_def)
      from Suc.IH [OF l] Suc.prems(2) False show ?thesis
        using same_ports_trans [OF p2(1)] port_raised_same [OF p2(1)] by auto
    qed
  qed
qed

lemma finish_raises:
  assumes "finish X e h oc = (e', h', Inl ex)"
  shows "port_raised e ex"
proof -
  let ?h = "h\<lparr>xh_state := (case oc_state oc of None \<Rightarrow> Failed | Some st \<Rightarrow> st), xh_result := Some oc\<rparr>"
  let ?pay = "[(''exit_code'', exit_val oc), (''attempts'', PyInt (int (xh_attempts ?h)))]"
  obtain e1 r1 where w: "write_record X (put_handle e ?h) ?h ''terminal'' (terminal_fields (wi_sha X) ?h oc) = (e1, r1)"
    by (cases "write_record X (put_handle e ?h) ?h ''terminal'' (terminal_fields (wi_sha X) ?h oc)")
  obtain e2 r2 where m: "emit_event X e1 ?h (event_by_state (oc_state oc)) (xh_attempts ?h) ?pay = (e2, r2)"
    by (cases "emit_event X e1 ?h (event_by_state (oc_state oc)) (xh_attempts ?h) ?pay")
  have p: "same_ports e e1"
    using write_record_raises(1) [OF w] same_ports_trans [of e "put_handle e ?h"] by simp
  have "r1 = Some ex \<or> r1 = None \<and> r2 = Some ex"
    using assms w m by (cases r1; cases r2) (auto simp: finish_def Let_def)
  moreover have "port_raised (put_handle e ?h) ex \<Longrightarrow> port_raised e ex" by (simp add: port_raised_def)
  ultimately show ?thesis
    using write_record_raises(2) [OF w] emit_event_raises(2) [OF m] port_raised_same [OF p] by blast
qed

lemma run_raises:
  assumes "run X e h = (e', h', Inl ex)" and "xh_state h = Pending"
    and "\<And>w. \<exists>w' oc. wi_runner X w (xh_spec h) = (w', Inr oc)"
  shows "port_raised e ex \<and> 1 \<le> xh_attempts h' \<and> xh_attempts h' \<le> Suc (retry_budget h)"
proof -
  let ?h = "h\<lparr>xh_state := Running\<rparr>"
  have b: "retry_budget ?h = retry_budget h" by (simp add: retry_budget_def)
  obtain e1 h1 r where l: "attempt_loop X (put_handle e ?h) ?h 1 (Suc (retry_budget h)) no_outcome = (e1, h1, r)"
    by (metis prod.exhaust)
  have "same_ports (put_handle e ?h) e1 \<and> 1 \<le> xh_attempts h1 \<and> xh_attempts h1 < 1 + Suc (retry_budget h)
      \<and> (\<forall>ex. r = Inl ex \<longrightarrow> port_raised (put_handle e ?h) ex)"
    by (rule attempt_loop_raises [OF l]) (use assms(3) in simp_all)
  then have t: "same_ports e e1" "1 \<le> xh_attempts h1" "xh_attempts h1 \<le> Suc (retry_budget h)"
      "\<And>ex. r = Inl ex \<Longrightarrow> port_raised e ex"
    by (auto simp: same_ports_def port_raised_def)
  show ?thesis
  proof (cases r)
    case (Inl ex')
    with assms(1,2) l b t show ?thesis by (simp add: run_def Let_def del: attempt_loop.simps)
  next
    case (Inr oc)
    with assms(1,2) l b have f: "finish X e1 h1 oc = (e', h', Inl ex)"
      by (simp add: run_def Let_def del: attempt_loop.simps)
    with finish_outcome(1) [OF f] finish_raises [OF f] t port_raised_same show ?thesis by auto
  qed
qed

end
