(* ===== verification/ExecutionProps.thy ===== *)
theory ExecutionProps
  imports Execution StorageProps
begin

text \<open>
  The trail an execution leaves in storage and on the bus, from the contracts of the two
  ports, and the lifecycle of handles over any sequence of engine operations.
\<close>

section \<open>The journal of an execution\<close>

definition attempt_doc :: "exec_handle \<Rightarrow> nat \<Rightarrow> pyval" where
  "attempt_doc h a = record_doc h ''attempt'' [(''attempt'', PyInt (int a))]"

definition terminal_doc :: "digest \<Rightarrow> exec_handle \<Rightarrow> outcome \<Rightarrow> pyval" where
  "terminal_doc sha h oc = record_doc h ''terminal'' (terminal_fields sha h oc)"

lemma attempt_doc_update [simp]: "attempt_doc (h\<lparr>xh_attempts := n\<rparr>) a = attempt_doc h a"
  by (simp add: attempt_doc_def record_doc_def)

context blobs
begin

definition trail :: "('s, 'b, 'w) wiring \<Rightarrow> ('s, 'b, 'w) engine \<Rightarrow> string \<Rightarrow> pyval list \<Rightarrow> bool" where
  "trail X e xid docs \<longleftrightarrow>
     wi_port X = P \<and> plain_journal (wi_ns X) xid
     \<and> (\<exists>s. eg_store e = Some s \<and> holds s (wi_ns X) xid (map json_dumps docs) (\<lambda>_. None))"

lemma trail_same: "eg_store e' = eg_store e \<Longrightarrow> trail X e' xid docs \<longleftrightarrow> trail X e xid docs"
  by (simp add: trail_def)

lemma trail_record:
  assumes t: "trail X e (xh_id h) docs" and w: "write_record X e h k info = (e', None)"
  shows "trail X e' (xh_id h) (docs @ [record_doc h k info])"
proof -
  obtain s where s: "eg_store e = Some s" "holds s (wi_ns X) (xh_id h) (map json_dumps docs) (\<lambda>_. None)"
    and p: "plain_journal (wi_ns X) (xh_id h)" "wi_port X = P"
    using t by (auto simp: trail_def)
  let ?j = "\<lparr>jr_ns = wi_ns X, jr_name = xh_id h, jr_next = length (map json_dumps docs)\<rparr>"
  have o1: "journal_open P s (wi_ns X) (xh_id h) = Inr ?j" by (rule sim_open [OF s(2) p(1)])
  obtain s' j' res where a: "journal_append P s ?j (json_dumps (record_doc h k info)) = ((s', j'), res)"
    by (metis prod.exhaust)
  with w s(1) o1 p(2) have res: "\<exists>n. res = Inr n" and e': "e' = e\<lparr>eg_store := Some s'\<rparr>"
    by (auto simp: write_record_def split: sum.splits)
  have "holds s' (wi_ns X) (xh_id h) (map json_dumps docs @ [json_dumps (record_doc h k info)]) (\<lambda>_. None)"
    using sim_append [OF s(2) p(1) refl a] res by auto
  with p show ?thesis unfolding trail_def e' by simp
qed

lemma trail_loop:
  assumes "attempt_loop X e h a n prev = (e', h', Inr oc)" and "trail X e (xh_id h) docs" and "0 < n"
  shows "trail X e' (xh_id h) (docs @ map (attempt_doc h) [a..<Suc (xh_attempts h')])"
  using assms
proof (induction n arbitrary: e h a prev docs)
  case 0
  then show ?case by simp
next
  case (Suc n)
  from Suc.prems(1) show ?case
  proof (rule attempt_loop_step)
    fix e1 e2 w oc1
    let ?h = "h\<lparr>xh_attempts := a\<rparr>"
    assume r: "write_record X (put_handle e ?h) ?h ''attempt'' [(''attempt'', PyInt (int a))] = (e1, None)"
      "emit_event X e1 ?h ''exec.started'' a [(''attempt'', PyInt (int a))] = (e2, None)"
      and l: "if oc_state oc1 = Some TimedOut then e' = e2\<lparr>eg_world := w\<rparr> \<and> h' = ?h \<and> oc = oc1
         else if oc_exit oc1 = Some 0
         then e' = e2\<lparr>eg_world := w\<rparr> \<and> h' = ?h \<and> oc = oc1\<lparr>oc_state := Some Completed\<rparr>
         else attempt_loop X (e2\<lparr>eg_world := w\<rparr>) ?h (Suc a) n (oc1\<lparr>oc_state := Some Failed\<rparr>) = (e', h', Inr oc)"
    have "trail X (put_handle e ?h) (xh_id ?h) docs" using Suc.prems(2) by (simp add: trail_same [of "put_handle e ?h" e])
    from trail_record [OF this r(1)] have t1: "trail X e1 (xh_id h) (docs @ [attempt_doc h a])"
      by (simp add: attempt_doc_def record_doc_def)
    have "eg_store e2 = eg_store e1" using emit_event_frame(3) [of X e1 ?h "''exec.started''" a "[(''attempt'', PyInt (int a))]"] r(2) by simp
    with t1 have t2: "trail X (e2\<lparr>eg_world := w\<rparr>) (xh_id h) (docs @ [attempt_doc h a])"
      by (simp add: trail_def)
    show ?case
    proof (cases "oc_state oc1 = Some TimedOut \<or> oc_exit oc1 = Some 0 \<or> n = 0")
      case True
      with l t2 show ?thesis by (auto split: if_splits)
    next
      case False
      with l have l': "attempt_loop X (e2\<lparr>eg_world := w\<rparr>) ?h (Suc a) n (oc1\<lparr>oc_state := Some Failed\<rparr>) = (e', h', Inr oc)"
        by auto
      have "Suc a \<le> xh_attempts h'"
        using attempt_loop_decides [OF l', of "a + n"] False by simp
      then have "[a..<Suc (xh_attempts h')] = a # [Suc a..<Suc (xh_attempts h')]" by (simp add: upt_conv_Cons)
      with Suc.IH [OF l', of "docs @ [attempt_doc h a]"] t2 False show ?thesis by (simp add: attempt_doc_def record_doc_def)
    qed
  qed
qed

lemma trail_run:
  assumes "run X e h = (e', h', Inr oc)" and "trail X e (xh_id h) []"
  shows "trail X e' (xh_id h) (map (attempt_doc h) [1..<Suc (xh_attempts h')] @ [terminal_doc (wi_sha X) h' oc])"
proof -
  let ?h = "h\<lparr>xh_state := Running\<rparr>"
  from assms(1) obtain e1 h1 where
      l: "attempt_loop X (put_handle e ?h) ?h 1 (Suc (retry_budget h)) no_outcome = (e1, h1, Inr oc)"
    and f: "finish X e1 h1 oc = (e', h', Inr oc)" by (rule run_steps)
  have id: "xh_id h1 = xh_id h" using attempt_loop_decides [OF l, of "Suc (retry_budget h)"] by simp
  have "trail X (put_handle e ?h) (xh_id ?h) []" using assms(2) by (simp add: trail_same [of "put_handle e ?h" e])
  from trail_loop [OF l this] have t1: "trail X e1 (xh_id h) (map (attempt_doc ?h) [1..<Suc (xh_attempts h1)])" by simp
  from f obtain e2 where r: "write_record X (put_handle e1 h') h' ''terminal'' (terminal_fields (wi_sha X) h' oc) = (e2, None)"
    and m: "emit_event X e2 h' (event_by_state (oc_state oc)) (xh_attempts h')
      [(''exit_code'', exit_val oc), (''attempts'', PyInt (int (xh_attempts h')))] = (e', None)"
    by (rule finish_steps)
  have h': "xh_id h' = xh_id h" "xh_attempts h' = xh_attempts h1" using finish_outcome(1) [OF f] id by simp_all
  have "trail X (put_handle e1 h') (xh_id h') (map (attempt_doc ?h) [1..<Suc (xh_attempts h1)])"
    using t1 h' by (simp add: trail_same [of "put_handle e1 h'" e1])
  from trail_record [OF this r] have t2: "trail X e2 (xh_id h)
      (map (attempt_doc ?h) [1..<Suc (xh_attempts h1)] @ [terminal_doc (wi_sha X) h' oc])"
    by (simp add: h' terminal_doc_def)
  have "eg_store e' = eg_store e2" using m by (metis emit_event_frame(3) fst_conv)
  moreover have "attempt_doc ?h = attempt_doc h" by (rule ext) (simp add: attempt_doc_def record_doc_def)
  ultimately show ?thesis using t2 h'(2) by (simp only: trail_same [of e' e2])
qed

lemma loads_all_dumps: "\<forall>v \<in> set vs. json_wf v \<Longrightarrow> loads_all (map json_dumps vs) = Inr (map json_canon vs)"
  by (induction vs) (auto simp: json_loads_dumps)

lemma trail_records:
  assumes t: "trail X e xid docs" and wf: "\<forall>v \<in> set docs. json_wf v"
  shows "records X e xid = Inr (map json_canon docs)"
proof -
  obtain s where s: "eg_store e = Some s" "holds s (wi_ns X) xid (map json_dumps docs) (\<lambda>_. None)"
    and p: "plain_journal (wi_ns X) xid" "wi_port X = P"
    using t by (auto simp: trail_def)
  let ?j = "\<lparr>jr_ns = wi_ns X, jr_name = xid, jr_next = length (map json_dumps docs)\<rparr>"
  have "journal_open P s (wi_ns X) xid = Inr ?j" by (rule sim_open [OF s(2) p(1)])
  moreover have "journal_entries P s ?j 0 = Inr (map json_dumps docs)" using sim_entries [OF s(2) p(1) refl, of 0] by simp
  ultimately show ?thesis using s(1) p(2) loads_all_dumps [OF wf] by (simp add: records_def)
qed

end

section \<open>The events of an execution\<close>

definition started_event :: "exec_handle \<Rightarrow> nat \<Rightarrow> pyval" where
  "started_event h a = exec_event h ''exec.started'' a [(''attempt'', PyInt (int a))]"

definition terminal_event :: "exec_handle \<Rightarrow> outcome \<Rightarrow> pyval" where
  "terminal_event h oc = exec_event h (event_by_state (oc_state oc)) (xh_attempts h)
     [(''exit_code'', exit_val oc), (''attempts'', PyInt (int (xh_attempts h)))]"

lemma exec_event_cong: "xh_id h' = xh_id h \<Longrightarrow> xh_spec h' = xh_spec h \<Longrightarrow> exec_event h' n a p = exec_event h n a p"
  by (simp add: exec_event_def)

lemma event_not_started: "event_by_state st \<noteq> ''exec.started''"
  by (cases st rule: event_by_state.cases) simp_all

context bus_port
begin

definition heard :: "('s, 'b, 'w) wiring \<Rightarrow> ('s, 'b, 'w) engine \<Rightarrow> (string \<Rightarrow> 'r list) \<Rightarrow> bool" where
  "heard X e hist \<longleftrightarrow> wi_pub X = pub \<and> (\<exists>b. eg_bus e = Some b \<and> live b \<and> history b = hist)"

lemma heard_event:
  assumes "heard X e hist" and "emit_event X e h name a p = (e', None)"
  shows "heard X e' (\<lambda>t. hist t @ (if t = name then [render (exec_event h name a p)] else []))"
proof -
  obtain b where b: "eg_bus e = Some b" "live b" "history b = hist" "wi_pub X = pub"
    using assms(1) by (auto simp: heard_def)
  obtain b' where p: "pub b name (exec_event h name a p) = (b', True)" "e' = e\<lparr>eg_bus := Some b'\<rparr>"
    using assms(2) b(1,4) by (auto simp: emit_event_def split: prod.splits if_splits)
  have "live b'" using pub_live [OF b(2), of name "exec_event h name a p"] p(1) by simp
  moreover have "history b' = (\<lambda>t. hist t @ (if t = name then [render (exec_event h name a p)] else []))"
    using history_pub [OF b(2), of name "exec_event h name a p"] p(1) b(3) by (auto intro!: ext)
  ultimately show ?thesis using b(4) p(2) by (simp add: heard_def)
qed

lemma heard_record:
  assumes "heard X e hist" and "write_record X (put_handle e h) h k info = (e', r)"
  shows "heard X e' hist"
  using assms write_record_frame(3) [of X "put_handle e h" h k info] by (simp add: heard_def)

lemma heard_loop:
  assumes "attempt_loop X e h a n prev = (e', h', Inr oc)" and "heard X e hist" and "0 < n"
  shows "heard X e' (\<lambda>t. hist t @ (if t = ''exec.started''
    then map (render \<circ> started_event h) [a..<Suc (xh_attempts h')] else []))"
  using assms
proof (induction n arbitrary: e h a prev hist)
  case 0
  then show ?case by simp
next
  case (Suc n)
  from Suc.prems(1) show ?case
  proof (rule attempt_loop_step)
    fix e1 e2 w oc1
    let ?h = "h\<lparr>xh_attempts := a\<rparr>" and ?start = "''exec.started''"
    assume r: "write_record X (put_handle e ?h) ?h ''attempt'' [(''attempt'', PyInt (int a))] = (e1, None)"
      "emit_event X e1 ?h ?start a [(''attempt'', PyInt (int a))] = (e2, None)"
      and l: "if oc_state oc1 = Some TimedOut then e' = e2\<lparr>eg_world := w\<rparr> \<and> h' = ?h \<and> oc = oc1
         else if oc_exit oc1 = Some 0
         then e' = e2\<lparr>eg_world := w\<rparr> \<and> h' = ?h \<and> oc = oc1\<lparr>oc_state := Some Completed\<rparr>
         else attempt_loop X (e2\<lparr>eg_world := w\<rparr>) ?h (Suc a) n (oc1\<lparr>oc_state := Some Failed\<rparr>) = (e', h', Inr oc)"
    let ?hist = "\<lambda>t. hist t @ (if t = ?start then [render (started_event h a)] else [])"
    have ev: "exec_event ?h ?start a [(''attempt'', PyInt (int a))] = started_event h a"
      unfolding started_event_def by (rule exec_event_cong) simp_all
    have "heard X e2 ?hist" using heard_event [OF heard_record [OF Suc.prems(2) r(1)] r(2)] unfolding ev .
    then have h2: "heard X (e2\<lparr>eg_world := w\<rparr>) ?hist" by (simp add: heard_def)
    show ?case
    proof (cases "oc_state oc1 = Some TimedOut \<or> oc_exit oc1 = Some 0 \<or> n = 0")
      case True
      with l have e': "e' = e2\<lparr>eg_world := w\<rparr>" "xh_attempts h' = a" by (auto split: if_splits)
      have "(\<lambda>t. hist t @ (if t = ?start then map (render \<circ> started_event h) [a..<Suc a] else [])) = ?hist"
        by (rule ext) simp
      with h2 show ?thesis unfolding e' by simp
    next
      case False
      with l have l': "attempt_loop X (e2\<lparr>eg_world := w\<rparr>) ?h (Suc a) n (oc1\<lparr>oc_state := Some Failed\<rparr>) = (e', h', Inr oc)"
        by auto
      have "Suc a \<le> xh_attempts h'" using attempt_loop_decides [OF l', of "a + n"] False by simp
      then have up: "[a..<Suc (xh_attempts h')] = a # [Suc a..<Suc (xh_attempts h')]" by (simp add: upt_conv_Cons)
      have st: "started_event ?h = started_event h"
        by (rule ext) (simp add: started_event_def exec_event_def)
      have "(\<lambda>t. hist t @ (if t = ?start then map (render \<circ> started_event h) [a..<Suc (xh_attempts h')] else []))
          = (\<lambda>t. ?hist t @ (if t = ?start then map (render \<circ> started_event ?h) [Suc a..<Suc (xh_attempts h')] else []))"
        unfolding up st by (rule ext) simp
      with Suc.IH [OF l' h2] False show ?thesis by simp
    qed
  qed
qed

lemma heard_run:
  assumes "run X e h = (e', h', Inr oc)" and "heard X e hist"
  shows "heard X e' (\<lambda>t. hist t
    @ (if t = ''exec.started'' then map (render \<circ> started_event h) [1..<Suc (xh_attempts h')]
       else if t = event_by_state (oc_state oc) then [render (terminal_event h' oc)] else []))"
proof -
  let ?h = "h\<lparr>xh_state := Running\<rparr>"
  from assms(1) obtain e1 h1 where
      l: "attempt_loop X (put_handle e ?h) ?h 1 (Suc (retry_budget h)) no_outcome = (e1, h1, Inr oc)"
    and f: "finish X e1 h1 oc = (e', h', Inr oc)" by (rule run_steps)
  from f obtain e2 where r: "write_record X (put_handle e1 h') h' ''terminal'' (terminal_fields (wi_sha X) h' oc) = (e2, None)"
    and m: "emit_event X e2 h' (event_by_state (oc_state oc)) (xh_attempts h')
      [(''exit_code'', exit_val oc), (''attempts'', PyInt (int (xh_attempts h')))] = (e', None)"
    by (rule finish_steps)
  have n: "xh_attempts h' = xh_attempts h1" using finish_outcome(1) [OF f] by simp
  have "heard X (put_handle e ?h) hist" using assms(2) by (simp add: heard_def)
  from heard_loop [OF l this] have "heard X e1 (\<lambda>t. hist t @ (if t = ''exec.started''
      then map (render \<circ> started_event ?h) [1..<Suc (xh_attempts h1)] else []))" by simp
  note heard_event [OF heard_record [OF this r] m]
  then have "heard X e' (\<lambda>t. (hist t @ (if t = ''exec.started''
      then map (render \<circ> started_event ?h) [1..<Suc (xh_attempts h1)] else []))
      @ (if t = event_by_state (oc_state oc) then [render (terminal_event h' oc)] else []))"
    unfolding terminal_event_def .
  moreover have "started_event ?h = started_event h"
    by (rule ext) (simp add: started_event_def exec_event_def)
  moreover have "event_by_state (oc_state oc) \<noteq> ''exec.started''" by (rule event_not_started)
  ultimately show ?thesis unfolding n by (elim back_subst [of "heard X e'"]) (auto intro!: ext)
qed

end

section \<open>Engine runs\<close>

datatype engine_op = Submit pyval | RunIt string | CancelIt string

definition engine_step :: "('s, 'b, 'w) wiring \<Rightarrow> ('s, 'b, 'w) engine \<Rightarrow> engine_op \<Rightarrow> ('s, 'b, 'w) engine" where
  "engine_step X e op =
     (case op of
        Submit spec \<Rightarrow> (case submit e spec of Inl _ \<Rightarrow> e | Inr (e', _) \<Rightarrow> e')
      | RunIt xid \<Rightarrow> (case handle_of e xid of None \<Rightarrow> e | Some h \<Rightarrow> fst (run X e h))
      | CancelIt xid \<Rightarrow> (case handle_of e xid of None \<Rightarrow> e | Some h \<Rightarrow> fst (cancel X e h)))"

definition engine_run :: "('s, 'b, 'w) wiring \<Rightarrow> ('s, 'b, 'w) engine \<Rightarrow> engine_op list \<Rightarrow> ('s, 'b, 'w) engine" where
  "engine_run X e ops = foldl (engine_step X) e ops"

definition engine_ok :: "('s, 'b, 'w) engine \<Rightarrow> bool" where
  "engine_ok e \<longleftrightarrow> (\<forall>k h. handle_of e k = Some h \<longrightarrow> xh_id h = k \<and> (\<exists>n < eg_next e. k = exec_id n))"

lemma exec_id_inject [simp]: "exec_id m = exec_id n \<longleftrightarrow> m = n"
  by (simp add: exec_id_def pad_left_def) (metis str_nat_nat_str str_nat_replicate)

text \<open>An operation on one handle touches no other entry.\<close>

definition only_touches :: "string \<Rightarrow> ('s, 'b, 'w) engine \<Rightarrow> ('s, 'b, 'w) engine \<Rightarrow> bool" where
  "only_touches xid e e' \<longleftrightarrow> eg_next e' = eg_next e \<and> (\<forall>k. k \<noteq> xid \<longrightarrow> handle_of e' k = handle_of e k)
     \<and> (\<forall>h. handle_of e' xid = Some h \<longrightarrow> xh_id h = xid \<or> handle_of e xid = Some h)"

lemma touches_refl: "only_touches xid e e"
  by (simp add: only_touches_def)

lemma touches_trans: "only_touches xid e e1 \<Longrightarrow> only_touches xid e1 e2 \<Longrightarrow> only_touches xid e e2"
  by (auto simp: only_touches_def)

lemma touches_put: "only_touches (xh_id h) e (put_handle e h)"
  by (simp add: only_touches_def put_handle_def handle_of_def dict_simps)

lemma touches_record: "only_touches xid e (fst (write_record X e h k info))"
  by (simp add: only_touches_def handle_of_def)

lemma touches_emit: "only_touches xid e (fst (emit_event X e h n a p))"
  by (simp add: only_touches_def handle_of_def)

lemma touches_world: "only_touches xid e (e\<lparr>eg_world := w\<rparr>)"
  by (simp add: only_touches_def handle_of_def)

lemmas touches = touches_refl touches_put touches_record touches_emit touches_world

lemma attempt_loop_touches:
  "only_touches (xh_id h) e (fst (attempt_loop X e h a n prev)) \<and> xh_id (fst (snd (attempt_loop X e h a n prev))) = xh_id h"
proof (induction n arbitrary: e h a prev)
  case 0
  then show ?case by (simp add: touches_refl)
next
  case (Suc n)
  let ?h = "h\<lparr>xh_attempts := a\<rparr>" and ?pay = "[(''attempt'', PyInt (int a))]"
  obtain e1 r1 where w: "write_record X (put_handle e ?h) ?h ''attempt'' ?pay = (e1, r1)"
    by (cases "write_record X (put_handle e ?h) ?h ''attempt'' ?pay")
  obtain e2 r2 where m: "emit_event X e1 ?h ''exec.started'' a ?pay = (e2, r2)"
    by (cases "emit_event X e1 ?h ''exec.started'' a ?pay")
  obtain w' r3 where x: "wi_runner X (eg_world e2) (xh_spec ?h) = (w', r3)"
    by (cases "wi_runner X (eg_world e2) (xh_spec ?h)")
  have t1: "only_touches (xh_id h) e e1"
    using touches_trans [OF touches_put [of ?h e, simplified] touches_record [of _ _ X ?h]] w by (metis fst_conv)
  have t2: "only_touches (xh_id h) e e2" using touches_trans [OF t1 touches_emit] m by (metis fst_conv)
  have t3: "only_touches (xh_id h) e (e2\<lparr>eg_world := w'\<rparr>)" by (rule touches_trans [OF t2 touches_world])
  have t4: "only_touches (xh_id h) e (fst (attempt_loop X (e2\<lparr>eg_world := w'\<rparr>) ?h (Suc a) n p))
      \<and> xh_id (fst (snd (attempt_loop X (e2\<lparr>eg_world := w'\<rparr>) ?h (Suc a) n p))) = xh_id h" for p
    using Suc.IH [of ?h "e2\<lparr>eg_world := w'\<rparr>" "Suc a" p] touches_trans [OF t3] by simp
  show ?case
  proof (cases "r1 = None \<and> r2 = None")
    case False
    with w m t1 t2 show ?thesis by (cases r1; cases r2) (simp_all add: Let_def)
  next
    case True
    with w m x t3 t4 show ?thesis by (cases r3) (simp_all add: Let_def)
  qed
qed

lemma finish_touches: "only_touches (xh_id h) e (fst (finish X e h oc))"
proof -
  let ?h = "h\<lparr>xh_state := (case oc_state oc of None \<Rightarrow> Failed | Some st \<Rightarrow> st), xh_result := Some oc\<rparr>"
  let ?pay = "[(''exit_code'', exit_val oc), (''attempts'', PyInt (int (xh_attempts ?h)))]"
  obtain e1 r1 where w: "write_record X (put_handle e ?h) ?h ''terminal'' (terminal_fields (wi_sha X) ?h oc) = (e1, r1)"
    by (cases "write_record X (put_handle e ?h) ?h ''terminal'' (terminal_fields (wi_sha X) ?h oc)")
  obtain e2 r2 where m: "emit_event X e1 ?h (event_by_state (oc_state oc)) (xh_attempts ?h) ?pay = (e2, r2)"
    by (cases "emit_event X e1 ?h (event_by_state (oc_state oc)) (xh_attempts ?h) ?pay")
  have t1: "only_touches (xh_id h) e e1"
    using touches_trans [OF touches_put [of ?h e, simplified] touches_record [of _ _ X ?h]] w by (metis fst_conv)
  have "only_touches (xh_id h) e e2" using touches_trans [OF t1 touches_emit] m by (metis fst_conv)
  with t1 w m show ?thesis by (cases r1; cases r2) (simp_all add: finish_def Let_def)
qed

lemma run_touches: "only_touches (xh_id h) e (fst (run X e h))"
proof (cases "xh_state h = Pending")
  case False
  then show ?thesis by (simp add: run_def touches_refl)
next
  case True
  let ?h = "h\<lparr>xh_state := Running\<rparr>"
  obtain e1 h1 r where l: "attempt_loop X (put_handle e ?h) ?h 1 (Suc (retry_budget ?h)) no_outcome = (e1, h1, r)"
    by (metis prod.exhaust)
  have t: "only_touches (xh_id h) e e1" "xh_id h1 = xh_id h"
    using attempt_loop_touches [of ?h "put_handle e ?h" X 1 "Suc (retry_budget ?h)" no_outcome]
      touches_trans [OF touches_put [of ?h e, simplified]] l by auto
  show ?thesis
  proof (cases r)
    case (Inl ex)
    with True l t show ?thesis by (simp add: run_def Let_def del: attempt_loop.simps)
  next
    case (Inr oc)
    with True l t finish_touches [of h1 e1 X oc] touches_trans [OF t(1)] show ?thesis
      by (simp add: run_def Let_def del: attempt_loop.simps)
  qed
qed

lemma cancel_touches: "only_touches (xh_id h) e (fst (cancel X e h))"
proof -
  let ?h = "h\<lparr>xh_state := Cancelled, xh_result := Some cancel_result\<rparr>"
  obtain e1 r where w: "write_record X (put_handle e ?h) ?h ''terminal'' [(''outcome'', PyStr (xstate_name Cancelled))] = (e1, r)"
    by (cases "write_record X (put_handle e ?h) ?h ''terminal'' [(''outcome'', PyStr (xstate_name Cancelled))]")
  have "only_touches (xh_id h) e e1"
    using touches_trans [OF touches_put [of ?h e, simplified] touches_record [of _ _ X ?h]] w by (metis fst_conv)
  with w show ?thesis by (cases r) (simp_all add: cancel_def Let_def touches_refl)
qed

lemma engine_ok_touches:
  assumes "engine_ok e" and "only_touches xid e e'" and "handle_of e xid \<noteq> None"
  shows "engine_ok e'"
  unfolding engine_ok_def
proof (intro allI impI)
  fix k h
  assume h: "handle_of e' k = Some h"
  from assms(1,3) have x: "\<exists>n < eg_next e. xid = exec_id n" by (auto simp: engine_ok_def)
  show "xh_id h = k \<and> (\<exists>n < eg_next e'. k = exec_id n)"
  proof (cases "k = xid")
    case True
    with h assms(1,2) x show ?thesis by (auto simp: only_touches_def engine_ok_def)
  next
    case False
    with h assms(1,2) show ?thesis by (auto simp: only_touches_def engine_ok_def)
  qed
qed

lemma engine_step_ok:
  assumes ok: "engine_ok e"
  shows "engine_ok (engine_step X e op)"
proof (cases op)
  case (Submit spec)
  have "engine_ok e'" if "submit e spec = Inr (e', xid)" for e' xid
  proof -
    from that obtain h where e': "e' = e\<lparr>eg_next := Suc (eg_next e), eg_handles := dset (exec_id (eg_next e)) h (eg_handles e)\<rparr>"
      and "xh_id h = exec_id (eg_next e)"
      by (auto simp: submit_def Let_def split: sum.splits)
    with ok show ?thesis
      by (auto simp: engine_ok_def handle_of_def dict_simps) (meson less_SucI)
  qed
  with Submit ok show ?thesis by (auto simp: engine_step_def split: sum.splits)
next
  case (RunIt xid)
  show ?thesis
  proof (cases "handle_of e xid")
    case (Some h)
    then have "xh_id h = xid" using ok by (simp add: engine_ok_def)
    with Some RunIt engine_ok_touches [OF ok, of xid] run_touches [of h e X] show ?thesis by (simp add: engine_step_def)
  qed (simp add: engine_step_def RunIt ok)
next
  case (CancelIt xid)
  show ?thesis
  proof (cases "handle_of e xid")
    case (Some h)
    then have "xh_id h = xid" using ok by (simp add: engine_ok_def)
    with Some CancelIt engine_ok_touches [OF ok, of xid] cancel_touches [of h e X] show ?thesis by (simp add: engine_step_def)
  qed (simp add: engine_step_def CancelIt ok)
qed

lemma engine_step_terminal:
  assumes ok: "engine_ok e" and h: "handle_of e k = Some h" and t: "xh_state h \<in> set terminal_xstates"
  shows "handle_of (engine_step X e op) k = Some h"
proof -
  have np: "xh_state h \<noteq> Pending" using t by (auto simp: terminal_xstates_def)
  show ?thesis
  proof (cases op)
    case (Submit spec)
    obtain n where "k = exec_id n" "n < eg_next e" using ok h by (auto simp: engine_ok_def)
    then have "k \<noteq> exec_id (eg_next e)" by simp
    with h Submit show ?thesis
      by (auto simp: engine_step_def submit_def Let_def handle_of_def dict_simps split: sum.splits)
  next
    case (RunIt xid)
    show ?thesis
    proof (cases "handle_of e xid")
      case (Some hx)
      then have "xh_id hx = xid" using ok by (simp add: engine_ok_def)
      with Some h np RunIt run_touches [of hx e X] show ?thesis
        by (cases "xid = k") (auto simp: engine_step_def only_touches_def run_def)
    qed (simp add: engine_step_def RunIt h)
  next
    case (CancelIt xid)
    show ?thesis
    proof (cases "handle_of e xid")
      case (Some hx)
      then have "xh_id hx = xid" using ok by (simp add: engine_ok_def)
      with Some h np CancelIt cancel_touches [of hx e X] show ?thesis
        by (cases "xid = k") (auto simp: engine_step_def only_touches_def cancel_def)
    qed (simp add: engine_step_def CancelIt h)
  qed
qed

lemma engine_run_ok: "engine_ok e \<Longrightarrow> engine_ok (engine_run X e ops)"
  unfolding engine_run_def by (induction ops arbitrary: e) (simp_all add: engine_step_ok)

lemma engine_run_terminal:
  "engine_ok e \<Longrightarrow> handle_of e k = Some h \<Longrightarrow> xh_state h \<in> set terminal_xstates \<Longrightarrow>
     handle_of (engine_run X e ops) k = Some h"
  unfolding engine_run_def
  by (induction ops arbitrary: e) (simp_all add: engine_step_ok engine_step_terminal)

section \<open>Properties\<close>

text \<open>A world that answers from a script of process results.\<close>

definition scripted :: "proc_result list \<Rightarrow> string list \<Rightarrow> proc_result list \<times> proc_result" where
  "scripted w argv = (case w of [] \<Rightarrow> ([], Exited 0 [] []) | r # rs \<Rightarrow> (rs, r))"

definition demo_wiring :: "(mem_bus store, mem_bus, proc_result list) wiring" where
  "demo_wiring = \<lparr>wi_port = ns_port mem_publish demo_senv ''execution'', wi_ns = ''execution'',
     wi_pub = mem_publish, wi_runner = subprocess_runner scripted, wi_sha = length\<rparr>"

definition demo_handle :: exec_handle where
  "demo_handle = \<lparr>xh_id = ''x-000001'',
     xh_spec = [(''command'', PyList [PyStr ''tool'']), (''timeout_seconds'', PyInt 5), (''max_retries'', PyInt 1)],
     xh_state = Pending, xh_attempts = 0, xh_result = None\<rparr>"

definition demo_engine :: "proc_result list \<Rightarrow> (mem_bus store, mem_bus, proc_result list) engine" where
  "demo_engine w = (engine_init (Some (demo_store [])) (Some mem_bus_init) w)
     \<lparr>eg_next := 2, eg_handles := [(''x-000001'', demo_handle)]\<rparr>"

lemma demo_run:
  assumes "case run demo_wiring (demo_engine w) demo_handle of (_, _, Inl _) \<Rightarrow> False | (_, h, Inr oc) \<Rightarrow> Q h oc"
  obtains e h oc where "run demo_wiring (demo_engine w) demo_handle = (e, h, Inr oc)" and "Q h oc"
  using assms by (auto split: prod.splits sum.splits)



text \<open>
  The journal tells the run. After a run that returns, the execution's records are one
  per attempt, in order, and one terminal record with the outcome, the exit code, the number
  of attempts and the digests of the outputs.
\<close>

theorem run_is_journaled:
  assumes "run X e h = (e', h', Inr oc)"
    and "wi_port X = ns_port pub E ns" and "wi_ns X = ns" and "eg_store e = Some s"
    and "vault_good E ns s" and "plain_key ns (entry_prefix ns (xh_id h))"
    and "ns_keys ns s (entry_prefix ns (xh_id h)) = Inr []" and "ns_keys ns s (check_prefix ns (xh_id h)) = Inr []"
  shows "records X e' (xh_id h)
    = Inr (map json_canon (map (attempt_doc h) [1..<Suc (xh_attempts h')] @ [terminal_doc (wi_sha X) h' oc]))"
proof -
  have p: "vault.plain_journal ns ns (xh_id h)" using assms(6) by (rule vault_plain_journal)
  have "vault.holds pub E ns s ns (xh_id h) [] (\<lambda>_. None)"
    by (rule vault.holds_fresh [OF assms(5) p]) (use assms(7,8) in \<open>simp_all add: ns_port_def\<close>)
  with p assms(2,3,4) have "vault.trail pub E ns X e (xh_id h) []" by (simp add: vault.trail_def)
  from vault.trail_records [OF vault.trail_run [OF assms(1) this]] show ?thesis
    by (auto simp: attempt_doc_def terminal_doc_def terminal_fields_def record_doc_def exit_val_def split: option.splits)
qed

theorem run_is_journaled_witness:
  "\<exists>e h oc. run demo_wiring (demo_engine [Exited 3 [] []]) demo_handle = (e, h, Inr oc)
     \<and> xh_attempts h = 2 \<and> records demo_wiring e ''x-000001''
       = Inr (map json_canon [attempt_doc demo_handle 1, attempt_doc demo_handle 2, terminal_doc length h oc])"
proof -
  have "case run demo_wiring (demo_engine [Exited 3 [] []]) demo_handle of
      (_, _, Inl _) \<Rightarrow> False | (_, h, Inr oc) \<Rightarrow> xh_attempts h = 2"
    by code_simp
  then obtain e h oc where r: "run demo_wiring (demo_engine [Exited 3 [] []]) demo_handle = (e, h, Inr oc)"
    "xh_attempts h = 2" by (rule demo_run) auto
  have x: "wi_port demo_wiring = ns_port mem_publish demo_senv ''execution''" "wi_ns demo_wiring = ''execution''"
    "wi_sha demo_wiring = length" "eg_store (demo_engine [Exited 3 [] []]) = Some (demo_store [])"
    "xh_id demo_handle = ''x-000001''"
    by (simp_all add: demo_wiring_def demo_engine_def engine_init_def demo_handle_def)
  have k: "plain_key ''execution'' (entry_prefix ''execution'' (xh_id demo_handle))"
    "ns_keys ''execution'' (demo_store [] :: mem_bus store) (entry_prefix ''execution'' (xh_id demo_handle)) = Inr []"
    "ns_keys ''execution'' (demo_store [] :: mem_bus store) (check_prefix ''execution'' (xh_id demo_handle)) = Inr []"
    by code_simp+
  have "[1..<Suc 2] = [1, 2 :: nat]" by (simp add: upt_rec)
  with run_is_journaled [OF r(1) x(1,2,4) demo_store_good k] r x(3,5) show ?thesis by auto
qed



text \<open>
  A terminal execution is history. Over any sequence of submissions, runs and
  cancellations, the entry of an execution that is completed, failed, timed out or cancelled
  never changes: no new submission takes its id, and no operation moves it.
\<close>

theorem terminal_executions_final:
  assumes "engine_run X (engine_init store bus w) before = e" and "handle_of e k = Some h"
    and "xh_state h \<in> set terminal_xstates"
  shows "handle_of (engine_run X e after) k = Some h"
proof -
  have "engine_ok (engine_init store bus w)" by (simp add: engine_ok_def handle_of_def engine_init_def)
  then have "engine_ok e" using assms(1) engine_run_ok by blast
  then show ?thesis using assms(2,3) by (rule engine_run_terminal)
qed

definition demo_spec :: pyval where
  "demo_spec = PyDict [(''command'', PyList [PyStr ''tool'']), (''timeout_seconds'', PyInt 5)]"

theorem terminal_executions_final_witness:
  "\<exists>h. handle_of (engine_run demo_wiring (engine_run demo_wiring (engine_init None None []) [Submit demo_spec, RunIt ''x-000001''])
       [RunIt ''x-000001'', CancelIt ''x-000001'', Submit demo_spec]) ''x-000001'' = Some h
     \<and> xh_state h = Completed"
proof -
  let ?e = "engine_run demo_wiring (engine_init None None []) [Submit demo_spec, RunIt ''x-000001'']"
  have "map_option xh_state (handle_of ?e ''x-000001'') = Some Completed" by code_simp
  then obtain h where h: "handle_of ?e ''x-000001'' = Some h" "xh_state h = Completed" by auto
  then have "xh_state h \<in> set terminal_xstates" by (simp add: terminal_xstates_def)
  from terminal_executions_final [OF refl h(1) this] h(2) show ?thesis by auto
qed

section \<open>A run that raises\<close>

text \<open>
  A command with a zero byte passes the specification check, makes the runner raise, and
  leaves the handle running for good: it can be neither run again nor cancelled.
\<close>

lemma zero_byte_leaves_running:
  "let spec = PyDict [(''command'', PyList [PyStr [CHR ''a'', CHR 0x00]]), (''timeout_seconds'', PyInt 5)];
       e = engine_run demo_wiring (engine_init None None []) [Submit spec, RunIt ''x-000001''] in
   map_option xh_state (handle_of e ''x-000001'') = Some Running
   \<and> map_option xh_state (handle_of (engine_run demo_wiring e [RunIt ''x-000001'', CancelIt ''x-000001'']) ''x-000001'')
     = Some Running"
  by code_simp

end
