(* ===== verification/Workflow.thy ===== *)
theory Workflow
  imports Storage "HOL-Library.Product_Lexorder" "HOL-Library.Multiset"
begin

text \<open>
  The workflow compiler (\<open>ws/compiler.py\<close>): a sealed capability graph becomes an immutable
  workflow with one unit per node, the edges of the plan over unit ids, a canonical total
  order by levels, the ranked alternative groups and a content hash. \<open>Workflow\<close> artifacts are
  records; SHA-256 is a parameter. Python sequences of the graph are lists.
\<close>

section \<open>Artifacts\<close>

datatype ws_exn = WorkflowRejected string | GraphRaised string

record ws_unit =
  un_id :: string
  un_node :: string
  un_cap :: string
  un_band :: string
  un_gate :: bool
  un_group :: "string option"
  un_rank :: "int option"

record workflow =
  wf_id :: string
  wf_plan :: string
  wf_version :: pyval
  wf_config :: int
  wf_units :: "(string, ws_unit) dict"
  wf_edges :: "(string \<times> string) list"
  wf_order :: "string list"
  wf_levels :: "string list list"
  wf_groups :: "(string, string list) dict"
  wf_hash :: string

definition bands :: "string list" where
  "bands = [''CRITICAL'', ''REQUIRED'', ''OPTIONAL'', ''DEFERRED'']"

definition predecessors :: "workflow \<Rightarrow> string \<Rightarrow> string list" where
  "predecessors flow uid = sort (map fst (filter (\<lambda>(p, c). c = uid) (wf_edges flow)))"

definition successors :: "workflow \<Rightarrow> string \<Rightarrow> string list" where
  "successors flow uid = sort (map snd (filter (\<lambda>(p, c). p = uid) (wf_edges flow)))"

definition unit_id :: "digest \<Rightarrow> string \<Rightarrow> string \<Rightarrow> string" where
  "unit_id sha wid nid = ''u-'' @ take 16 (hexdigest sha (wid @ '':'' @ nid))"

definition workflow_id :: "digest \<Rightarrow> string \<Rightarrow> int \<Rightarrow> int \<Rightarrow> string" where
  "workflow_id sha plan version config =
     ''wf-'' @ take 16 (hexdigest sha (plan @ '':'' @ int_str version @ '':'' @ int_str config))"

section \<open>Nodes\<close>

text \<open>What the loop over the nodes builds up.\<close>

record ws_build =
  bd_units :: "(string, ws_unit) dict"
  bd_nodes :: "(string, string) dict"
  bd_groups :: "(string, string list) dict"

definition no_build :: ws_build where
  "no_build = \<lparr>bd_units = [], bd_nodes = [], bd_groups = []\<rparr>"

definition occurs_in :: "string \<Rightarrow> string \<Rightarrow> bool" where
  "occurs_in w s \<longleftrightarrow> list_ex (\<lambda>n. take (length w) (drop n s) = w) [0..<Suc (length s)]"

definition names_provider :: "pyval \<Rightarrow> bool" where
  "names_provider node \<longleftrightarrow>
     list_ex (\<lambda>k. occurs_in ''plugin'' k \<or> occurs_in ''provider'' k) (dkeys (fields_of node))"

definition nonempty_str :: "pyval \<Rightarrow> string option" where
  "nonempty_str v = (case v of PyStr s \<Rightarrow> if s = [] then None else Some s | _ \<Rightarrow> None)"

definition check_node :: "ws_build \<Rightarrow> pyval \<Rightarrow> ws_exn + string \<times> string \<times> string" where
  "check_node b node =
     (let nid = py_get node ''node_id'' PyNone;
          cap = py_get node ''capability_id'' PyNone;
          band = py_get node ''priority_band'' PyNone
      in case nonempty_str nid of
           None \<Rightarrow> Inl (WorkflowRejected (''ws.bad_or_duplicate_node:'' @ py_repr nid))
         | Some n \<Rightarrow>
             (if dget (bd_nodes b) n \<noteq> None
              then Inl (WorkflowRejected (''ws.bad_or_duplicate_node:'' @ py_repr nid))
              else case nonempty_str cap of
                None \<Rightarrow> Inl (WorkflowRejected (''ws.bad_capability:'' @ n))
              | Some c \<Rightarrow>
                  (if band \<notin> set (map PyStr bands)
                   then Inl (WorkflowRejected (''ws.bad_band:'' @ n @ '':'' @ py_repr band))
                   else if names_provider node then Inl (WorkflowRejected (''ws.provider_id_in_graph:'' @ n))
                   else Inr (n, c, py_str band))))"

text \<open>The alternative group of a node and its rank; \<open>bool\<close> is not a rank.\<close>

definition check_group :: "string \<Rightarrow> pyval \<Rightarrow> ws_exn + (string \<times> int) option" where
  "check_group n node =
     (case py_get node ''group_id'' PyNone of
        PyNone \<Rightarrow> Inr None
      | g \<Rightarrow> (case py_get node ''rank'' PyNone of
                PyInt r \<Rightarrow> Inr (Some (py_str g, r))
              | _ \<Rightarrow> Inl (WorkflowRejected (''ws.group_without_rank:'' @ n))))"

definition add_node :: "digest \<Rightarrow> string \<Rightarrow> ws_build \<Rightarrow> pyval \<Rightarrow> ws_exn + ws_build" where
  "add_node sha wid b node =
     (case check_node b node of
        Inl e \<Rightarrow> Inl e
      | Inr (n, cap, band) \<Rightarrow>
          (case check_group n node of
             Inl e \<Rightarrow> Inl e
           | Inr grp \<Rightarrow>
               (let uid = unit_id sha wid n;
                    u = \<lparr>un_id = uid, un_node = n, un_cap = cap, un_band = band, un_gate = True,
                         un_group = map_option fst grp, un_rank = map_option snd grp\<rparr>
                in Inr \<lparr>bd_units = dset uid u (bd_units b), bd_nodes = dset n uid (bd_nodes b),
                        bd_groups = (case grp of
                            None \<Rightarrow> bd_groups b
                          | Some (g, _) \<Rightarrow>
                              dset g ((case dget (bd_groups b) g of None \<Rightarrow> [] | Some us \<Rightarrow> us) @ [uid])
                                (bd_groups b))\<rparr>)))"

definition node_key :: "pyval \<Rightarrow> string" where
  "node_key node = py_str (py_get node ''node_id'' PyNone)"

text \<open>\<open>sorted\<close> evaluates \<open>n.get("node_id")\<close> of every node first.\<close>

definition read_nodes :: "digest \<Rightarrow> string \<Rightarrow> pyval list \<Rightarrow> ws_exn + ws_build" where
  "read_nodes sha wid nodes =
     (if list_ex (\<lambda>n. \<not> is_dict n) nodes then Inl (GraphRaised ''AttributeError'')
      else foldm (add_node sha wid) no_build (sort_key node_key nodes))"

section \<open>Edges\<close>

text \<open>What \<open>for edge in edges\<close> visits; \<open>None\<close> where it raises \<open>TypeError\<close>.\<close>

fun iterated :: "pyval \<Rightarrow> pyval list option" where
  "iterated (PyList xs) = Some xs"
| "iterated (PyStr s) = Some (map (\<lambda>c. PyStr [c]) s)"
| "iterated (PyDict d) = Some (map (PyStr \<circ> fst) d)"
| "iterated _ = None"

definition node_ref :: "(string, string) dict \<Rightarrow> pyval \<Rightarrow> ws_exn + string option" where
  "node_ref nodes v =
     (case hash_key v of
        None \<Rightarrow> Inl (GraphRaised ''TypeError'')
      | Some k \<Rightarrow> Inr (case k of PyStr s \<Rightarrow> dget nodes s | _ \<Rightarrow> None))"

definition resolve_edge :: "(string, string) dict \<Rightarrow> pyval \<Rightarrow> ws_exn + string \<times> string" where
  "resolve_edge nodes edge =
     (let bad = Inl (WorkflowRejected (''ws.bad_edge:'' @ py_repr edge)) in
      case edge of
        PyList [a, b] \<Rightarrow>
          (case node_ref nodes a of
             Inl e \<Rightarrow> Inl e
           | Inr None \<Rightarrow> bad
           | Inr (Some p) \<Rightarrow>
               (case node_ref nodes b of
                  Inl e \<Rightarrow> Inl e
                | Inr None \<Rightarrow> bad
                | Inr (Some c) \<Rightarrow> Inr (p, c)))
      | _ \<Rightarrow> bad)"

definition add_edge :: "(string, string) dict \<Rightarrow> (string \<times> string) list \<Rightarrow> pyval \<Rightarrow> ws_exn + (string \<times> string) list" where
  "add_edge nodes seen edge =
     (case resolve_edge nodes edge of
        Inl e \<Rightarrow> Inl e
      | Inr (p, c) \<Rightarrow>
          (if (p, c) \<in> set seen \<or> p = c
           then Inl (WorkflowRejected (''ws.duplicate_or_self_edge:'' @ py_repr edge))
           else Inr (seen @ [(p, c)])))"

definition read_edges :: "(string, string) dict \<Rightarrow> pyval \<Rightarrow> ws_exn + (string \<times> string) list" where
  "read_edges nodes edges =
     (case iterated edges of
        None \<Rightarrow> Inl (GraphRaised ''TypeError'')
      | Some es \<Rightarrow>
          (case foldm (add_edge nodes) [] es of Inl e \<Rightarrow> Inl e | Inr ps \<Rightarrow> Inr (sort ps)))"

section \<open>Levels\<close>

type_synonym pending_units = "(string, string list) dict"

definition incoming :: "string list \<Rightarrow> (string \<times> string) list \<Rightarrow> pending_units" where
  "incoming uids edges = map (\<lambda>u. (u, map fst (filter (\<lambda>(p, c). c = u) edges))) uids"

definition frontier :: "pending_units \<Rightarrow> string list" where
  "frontier rest = sort (map fst (filter (\<lambda>(u, deps). deps = []) rest))"

definition release :: "string list \<Rightarrow> pending_units \<Rightarrow> pending_units" where
  "release front rest =
     map (\<lambda>(u, deps). (u, filter (\<lambda>d. d \<notin> set front) deps)) (filter (\<lambda>(u, deps). u \<notin> set front) rest)"

lemma length_release:
  assumes "frontier rest \<noteq> []"
  shows "length (release (frontier rest) rest) < length rest"
proof -
  have "set (frontier rest) \<subseteq> fst ` set rest" by (auto simp: frontier_def)
  moreover have "hd (frontier rest) \<in> set (frontier rest)" using assms by simp
  ultimately obtain u deps where u: "(u, deps) \<in> set rest" "u \<in> set (frontier rest)" by auto
  have "length (filter (\<lambda>(u, deps). u \<notin> set (frontier rest)) rest) < length rest"
    using u by (intro length_filter_less [of "(u, deps)"]) auto
  then show ?thesis by (simp add: release_def)
qed

function kahn :: "pending_units \<Rightarrow> string list list option" where
  "kahn rest =
     (if rest = [] then Some []
      else if frontier rest = [] then None
      else map_option (Cons (frontier rest)) (kahn (release (frontier rest) rest)))"
  by pat_completeness auto

termination
  by (relation "measure length") (auto intro: length_release)

declare kahn.simps [simp del]

section \<open>Compilation\<close>

definition unit_doc :: "ws_unit \<Rightarrow> pyval" where
  "unit_doc u = PyDict ([(''unit_id'', PyStr (un_id u)), (''node_id'', PyStr (un_node u)),
     (''capability_id'', PyStr (un_cap u)), (''priority_band'', PyStr (un_band u)),
     (''gate_required'', PyBool (un_gate u))]
     @ (case un_group u of None \<Rightarrow> [] | Some g \<Rightarrow> [(''group_id'', PyStr g)])
     @ (case un_rank u of None \<Rightarrow> [] | Some r \<Rightarrow> [(''rank'', PyInt r)]))"

abbreviation strs_doc :: "string list \<Rightarrow> pyval" where
  "strs_doc ss \<equiv> PyList (map PyStr ss)"

definition canonical_doc :: "workflow \<Rightarrow> pyval" where
  "canonical_doc flow = PyDict
     [(''workflow_id'', PyStr (wf_id flow)),
      (''provenance'', PyDict [(''plan_artifact_id'', PyStr (wf_plan flow)),
         (''plan_version'', wf_version flow), (''ws_config_version'', PyInt (wf_config flow))]),
      (''units'', PyDict (map (\<lambda>(uid, u). (uid, unit_doc u)) (sort_key fst (wf_units flow)))),
      (''edges'', PyList (map (\<lambda>(p, c). strs_doc [p, c]) (wf_edges flow))),
      (''canonical_order'', strs_doc (wf_order flow)),
      (''levels'', PyList (map strs_doc (wf_levels flow))),
      (''groups'', PyDict (map (\<lambda>(g, us). (g, strs_doc us)) (sort_key fst (wf_groups flow))))]"

definition rank_of :: "(string, ws_unit) dict \<Rightarrow> string \<Rightarrow> int" where
  "rank_of units uid = (case dget units uid of None \<Rightarrow> 0 | Some u \<Rightarrow> (case un_rank u of None \<Rightarrow> 0 | Some r \<Rightarrow> r))"

definition ranked :: "(string, ws_unit) dict \<Rightarrow> string list \<Rightarrow> string list" where
  "ranked units members = sort_key (\<lambda>uid. (rank_of units uid, uid)) members"

definition plan_ids :: "pyval \<Rightarrow> ws_exn + string \<times> pyval \<times> int" where
  "plan_ids graph =
     (case nonempty_str (py_get graph ''plan_artifact_id'' PyNone) of
        None \<Rightarrow> Inl (WorkflowRejected ''ws.bad_provenance'')
      | Some plan \<Rightarrow>
          (case as_int (py_get graph ''plan_version'' PyNone) of
             None \<Rightarrow> Inl (WorkflowRejected ''ws.bad_provenance'')
           | Some v \<Rightarrow> Inr (plan, py_get graph ''plan_version'' PyNone, v)))"

text \<open>Everything before the ordering: provenance, nodes and edges.\<close>

definition read_graph :: "digest \<Rightarrow> pyval \<Rightarrow> int \<Rightarrow> ws_exn + (string \<times> pyval \<times> string) \<times> ws_build \<times> (string \<times> string) list" where
  "read_graph sha graph config =
     (if \<not> is_dict graph then Inl (WorkflowRejected ''ws.graph_not_mapping'')
      else case plan_ids graph of
        Inl e \<Rightarrow> Inl e
      | Inr (plan, version, v) \<Rightarrow>
          (case py_get graph ''nodes'' PyNone of
             PyList (n # ns) \<Rightarrow>
               (let wid = workflow_id sha plan v config in
                case read_nodes sha wid (n # ns) of
                  Inl e \<Rightarrow> Inl e
                | Inr b \<Rightarrow>
                    (case read_edges (bd_nodes b) (py_get graph ''requires_edges'' (PyList [])) of
                       Inl e \<Rightarrow> Inl e
                     | Inr es \<Rightarrow> Inr ((plan, version, wid), b, es)))
           | _ \<Rightarrow> Inl (WorkflowRejected ''ws.no_nodes'')))"

definition assemble :: "digest \<Rightarrow> int \<Rightarrow> string \<times> pyval \<times> string \<Rightarrow> ws_build \<Rightarrow> (string \<times> string) list
    \<Rightarrow> string list list \<Rightarrow> workflow" where
  "assemble sha config origin b es levels =
     (case origin of (plan, version, wid) \<Rightarrow>
        let flow = \<lparr>wf_id = wid, wf_plan = plan, wf_version = version, wf_config = config,
                  wf_units = bd_units b, wf_edges = es, wf_order = concat levels, wf_levels = levels,
                  wf_groups = map (\<lambda>(g, us). (g, ranked (bd_units b) us)) (bd_groups b), wf_hash = []\<rparr>
        in flow\<lparr>wf_hash := hexdigest sha (json_dumps (canonical_doc flow))\<rparr>)"

definition compile_workflow :: "digest \<Rightarrow> pyval \<Rightarrow> int \<Rightarrow> ws_exn + workflow" where
  "compile_workflow sha graph config =
     (case read_graph sha graph config of
        Inl e \<Rightarrow> Inl e
      | Inr (origin, b, es) \<Rightarrow>
          (case kahn (incoming (dkeys (bd_units b)) es) of
             None \<Rightarrow> Inl (WorkflowRejected ''ws.cycle_detected'')
           | Some levels \<Rightarrow> Inr (assemble sha config origin b es levels)))"

end
