(* ===== verification/Scheduler.thy ===== *)
theory Scheduler
  imports Execution Workflow
begin

text \<open>
  The workflow runtime (\<open>ws/runtime.py\<close>): the state of a run over a compiled workflow, its
  operations with the journal record and the events of each, and replay. A method is a
  sequence of statements, each of which may raise and leaves the effects of the earlier ones.
  The binder and the engine are one parameter, \<open>bound_engine\<close> is its instance on the engine
  of \<open>execution\<close>; the run and the engine publish on one bus and journal through separate
  namespace handles.
\<close>

section \<open>Statements that may raise\<close>

fun do_all :: "('r \<Rightarrow> 'r \<times> 'e option) list \<Rightarrow> 'r \<Rightarrow> 'r \<times> 'e option" where
  "do_all [] r = (r, None)"
| "do_all (m # ms) r = (case m r of (r', None) \<Rightarrow> do_all ms r' | (r', Some e) \<Rightarrow> (r', Some e))"

definition assign :: "('r \<Rightarrow> 'r) \<Rightarrow> 'r \<Rightarrow> 'r \<times> 'e option" where
  "assign f r = (f r, None)"

definition refuse :: "'e \<Rightarrow> 'r \<Rightarrow> 'r \<times> 'e option" where
  "refuse e r = (r, Some e)"

section \<open>The state of a run\<close>

datatype unit_state = UPending | UExecuting | USucceeded | UFailed | UNotExecuted

fun unit_state_name :: "unit_state \<Rightarrow> string" where
  "unit_state_name UPending = ''pending''"
| "unit_state_name UExecuting = ''executing''"
| "unit_state_name USucceeded = ''succeeded''"
| "unit_state_name UFailed = ''failed''"
| "unit_state_name UNotExecuted = ''not-executed''"

definition unit_terminal :: "unit_state \<Rightarrow> bool" where
  "unit_terminal st \<longleftrightarrow> st \<in> {USucceeded, UFailed, UNotExecuted}"

datatype run_status = WfActive | WfCompleted | WfStalled | WfCancelled

fun run_status_name :: "run_status \<Rightarrow> string" where
  "run_status_name WfActive = ''active''"
| "run_status_name WfCompleted = ''completed''"
| "run_status_name WfStalled = ''failed''"
| "run_status_name WfCancelled = ''cancelled''"

definition status_str :: "run_status option \<Rightarrow> string" where
  "status_str st = (case st of None \<Rightarrow> ''None'' | Some s \<Rightarrow> run_status_name s)"

definition blocking_bands :: "string list" where
  "blocking_bands = [''CRITICAL'', ''REQUIRED'']"

text \<open>The part of a run that replay rebuilds, and the whole run.\<close>

record sched =
  sc_status :: "run_status option"
  sc_units :: "(string, unit_state) dict"
  sc_execok :: "string list"
  sc_selected :: "(string, string) dict"

record ('s, 'b, 'w) ws_run = sched +
  wr_flow :: workflow
  wr_store :: "'s option"
  wr_bus :: "'b option"
  wr_world :: 'w
  wr_journal :: "journal option"

datatype sched_exn =
    Refused string
  | NoKey string
  | JournalRaised store_exn
  | PublishRaised
  | EngineRaised exec_exn
  | BadJournal

type_synonym ('b, 'w) bound = "'b option \<Rightarrow> 'w \<Rightarrow> ws_unit \<Rightarrow> ('b option \<times> 'w) \<times> (exec_exn + outcome)"

record ('s, 'b, 'w) ws_wiring =
  ww_port :: "'s blob_port"
  ww_ns :: string
  ww_pub :: "'b publisher"
  ww_exec :: "('b, 'w) bound option"

definition sched_init :: "workflow \<Rightarrow> sched" where
  "sched_init flow = \<lparr>sc_status = None, sc_units = map (\<lambda>uid. (uid, UPending)) (dkeys (wf_units flow)),
     sc_execok = [], sc_selected = []\<rparr>"

definition ws_init :: "workflow \<Rightarrow> 's option \<Rightarrow> 'b option \<Rightarrow> 'w \<Rightarrow> ('s, 'b, 'w) ws_run" where
  "ws_init flow store bus w = sched.extend (sched_init flow)
     (ws_run.fields flow store bus w None)"

type_synonym ('s, 'b, 'w) ws_stmt = "('s, 'b, 'w) ws_run \<Rightarrow> ('s, 'b, 'w) ws_run \<times> sched_exn option"

section \<open>Records and events\<close>

definition ws_doc :: "string \<Rightarrow> payload \<Rightarrow> pyval" where
  "ws_doc kind info = PyDict ((''kind'', PyStr kind) # info)"

definition ws_record :: "('s, 'b, 'w) ws_wiring \<Rightarrow> string \<Rightarrow> payload \<Rightarrow> ('s, 'b, 'w) ws_stmt" where
  "ws_record W kind info r =
     (case wr_store r of
        None \<Rightarrow> (r, None)
      | Some s \<Rightarrow>
          (case (case wr_journal r of
                   Some j \<Rightarrow> Inr j
                 | None \<Rightarrow> journal_open (ww_port W) s (ww_ns W) (wf_id (wr_flow r))) of
             Inl ex \<Rightarrow> (r, Some (JournalRaised ex))
           | Inr j \<Rightarrow>
               (case journal_append (ww_port W) s j (json_dumps (ws_doc kind info)) of
                  ((s', j'), Inl ex) \<Rightarrow> (r\<lparr>wr_store := Some s', wr_journal := Some j'\<rparr>, Some (JournalRaised ex))
                | ((s', j'), Inr _) \<Rightarrow> (r\<lparr>wr_store := Some s', wr_journal := Some j'\<rparr>, None))))"

definition ws_event :: "workflow \<Rightarrow> string \<Rightarrow> payload \<Rightarrow> string option \<Rightarrow> pyval" where
  "ws_event flow name pay uid = PyDict
     [(''event_id'', PyStr (wf_id flow @ '':'' @ (case uid of None \<Rightarrow> ''wf'' | Some u \<Rightarrow> if u = [] then ''wf'' else u)
         @ '':'' @ name)),
      (''event_name'', PyStr name), (''request_id'', PyNone), (''timestamp'', PyInt 0),
      (''payload'', PyDict ((''workflow_id'', PyStr (wf_id flow)) # pay))]"

definition ws_emit :: "('s, 'b, 'w) ws_wiring \<Rightarrow> string \<Rightarrow> payload \<Rightarrow> string option \<Rightarrow> ('s, 'b, 'w) ws_stmt" where
  "ws_emit W name pay uid r =
     (case wr_bus r of
        None \<Rightarrow> (r, None)
      | Some b \<Rightarrow>
          (case ww_pub W b name (ws_event (wr_flow r) name pay uid) of
             (b', ok) \<Rightarrow> (r\<lparr>wr_bus := Some b'\<rparr>, if ok then None else Some PublishRaised)))"

section \<open>Outcomes\<close>

definition blocking_units :: "workflow \<Rightarrow> string list" where
  "blocking_units flow = map fst (filter (\<lambda>(uid, u). un_band u \<in> set blocking_bands) (wf_units flow))"

definition some_blocking_failed :: "workflow \<Rightarrow> 'x sched_scheme \<Rightarrow> bool" where
  "some_blocking_failed flow r \<longleftrightarrow> list_ex (\<lambda>uid. dget (sc_units r) uid = Some UFailed) (blocking_units flow)"

definition unit_done :: "'x sched_scheme \<Rightarrow> string \<Rightarrow> bool" where
  "unit_done r uid \<longleftrightarrow> (case dget (sc_units r) uid of None \<Rightarrow> False | Some st \<Rightarrow> unit_terminal st)"

definition ws_settle :: "('s, 'b, 'w) ws_wiring \<Rightarrow> ('s, 'b, 'w) ws_stmt" where
  "ws_settle W r =
     (if sc_status r \<noteq> Some WfActive then (r, None)
      else if some_blocking_failed (wr_flow r) r
      then ws_record W ''workflow_terminal'' [(''status'', PyStr (run_status_name WfStalled))]
             (r\<lparr>sc_status := Some WfStalled\<rparr>)
      else if list_all (unit_done r) (dkeys (wf_units (wr_flow r)))
      then ws_record W ''workflow_terminal'' [(''status'', PyStr (run_status_name WfCompleted))]
             (r\<lparr>sc_status := Some WfCompleted\<rparr>)
      else (r, None))"

definition ws_terminal :: "('s, 'b, 'w) ws_wiring \<Rightarrow> string \<Rightarrow> unit_state \<Rightarrow> ('s, 'b, 'w) ws_stmt" where
  "ws_terminal W uid result r =
     (case dget (sc_units r) uid of
        None \<Rightarrow> (r, Some (NoKey uid))
      | Some st \<Rightarrow>
          (if unit_terminal st then (r, Some (Refused (''ws.double_terminal:'' @ uid)))
           else do_all
             [assign (\<lambda>r. r\<lparr>sc_units := dset uid result (sc_units r)\<rparr>),
              ws_record W ''terminal'' [(''unit'', PyStr uid), (''outcome'', PyStr (unit_state_name result))],
              if result = UNotExecuted then assign id
              else ws_emit W (if result = USucceeded then ''task.completed'' else ''task.failed'')
                     [(''unit_id'', PyStr uid), (''outcome'', PyStr (unit_state_name result))] (Some uid),
              ws_settle W] r))"

section \<open>Lifecycle\<close>

definition select_branch :: "('s, 'b, 'w) ws_wiring \<Rightarrow> string \<Rightarrow> string \<Rightarrow> ('s, 'b, 'w) ws_stmt" where
  "select_branch W gid uid r =
     (case dget (wf_groups (wr_flow r)) gid of
        None \<Rightarrow> (r, Some (Refused (''ws.bad_selection:'' @ gid @ '':'' @ uid)))
      | Some members \<Rightarrow>
          (if uid \<notin> set members then (r, Some (Refused (''ws.bad_selection:'' @ gid @ '':'' @ uid)))
           else if dget (sc_selected r) gid \<noteq> None then (r, Some (Refused (''ws.reselection:'' @ gid)))
           else do_all
             (assign (\<lambda>r. r\<lparr>sc_selected := dset gid uid (sc_selected r)\<rparr>)
              # ws_record W ''selected'' [(''group'', PyStr gid), (''unit'', PyStr uid)]
              # map (\<lambda>m. if m \<noteq> uid then ws_terminal W m UNotExecuted else assign id) members) r))"

definition band_of :: "workflow \<Rightarrow> string \<Rightarrow> string" where
  "band_of flow uid = (case dget (wf_units flow) uid of None \<Rightarrow> [] | Some u \<Rightarrow> un_band u)"

definition first_member :: "workflow \<Rightarrow> string \<Rightarrow> string" where
  "first_member flow gid = (case dget (wf_groups flow) gid of Some (u # _) \<Rightarrow> u | _ \<Rightarrow> [])"

definition activate :: "('s, 'b, 'w) ws_wiring \<Rightarrow> ('s, 'b, 'w) ws_stmt" where
  "activate W r =
     (if sc_status r \<noteq> None then (r, Some (Refused ''ws.activate_twice''))
      else let flow = wr_flow r in do_all
        ([assign (\<lambda>r. r\<lparr>sc_status := Some WfActive\<rparr>),
          ws_record W ''activated'' [],
          ws_emit W ''workflow.created'' [(''content_hash'', PyStr (wf_hash flow))] None]
         @ map (\<lambda>uid. ws_emit W ''task.scheduled''
                  [(''unit_id'', PyStr uid), (''priority_band'', PyStr (band_of flow uid))] (Some uid)) (wf_order flow)
         @ map (\<lambda>gid. select_branch W gid (first_member flow gid)) (sort (dkeys (wf_groups flow)))) r)"

definition cancel_run :: "('s, 'b, 'w) ws_wiring \<Rightarrow> ('s, 'b, 'w) ws_stmt" where
  "cancel_run W r =
     (if sc_status r \<noteq> Some WfActive then (r, Some (Refused (''ws.cancel_illegal:'' @ status_str (sc_status r))))
      else ws_record W ''cancelled'' [] (r\<lparr>sc_status := Some WfCancelled\<rparr>))"

section \<open>Readiness and dispatch\<close>

definition branch_allows :: "workflow \<Rightarrow> 'x sched_scheme \<Rightarrow> string \<Rightarrow> bool" where
  "branch_allows flow r uid \<longleftrightarrow>
     (case dget (wf_units flow) uid of
        None \<Rightarrow> False
      | Some u \<Rightarrow> (case un_group u of None \<Rightarrow> True | Some g \<Rightarrow> dget (sc_selected r) g = Some uid))"

definition unit_ready :: "workflow \<Rightarrow> 'x sched_scheme \<Rightarrow> string \<Rightarrow> bool" where
  "unit_ready flow r uid \<longleftrightarrow>
     dget (sc_units r) uid = Some UPending \<and> branch_allows flow r uid
     \<and> list_all (\<lambda>p. dget (sc_units r) p = Some USucceeded) (predecessors flow uid)"

definition ready :: "workflow \<Rightarrow> 'x sched_scheme \<Rightarrow> string list" where
  "ready flow r =
     (if sc_status r \<noteq> Some WfActive then [] else filter (unit_ready flow r) (wf_order flow))"

definition on_exec_result :: "('s, 'b, 'w) ws_wiring \<Rightarrow> string \<Rightarrow> bool \<Rightarrow> ('s, 'b, 'w) ws_stmt" where
  "on_exec_result W uid ok r =
     (case dget (sc_units r) uid of
        None \<Rightarrow> (r, Some (NoKey uid))
      | Some st \<Rightarrow>
          (if st \<noteq> UExecuting then (r, Some (Refused (''ws.exec_result_illegal:'' @ unit_state_name st)))
           else do_all
             (ws_record W ''exec_result'' [(''unit'', PyStr uid), (''ok'', PyBool ok)]
              # (if \<not> ok then [ws_terminal W uid UFailed]
                 else [assign (\<lambda>r. r\<lparr>sc_execok := List.insert uid (sc_execok r)\<rparr>),
                       ws_emit W ''verify.requested'' [(''unit_id'', PyStr uid)] (Some uid)])) r))"

definition on_verdict :: "('s, 'b, 'w) ws_wiring \<Rightarrow> string \<Rightarrow> bool \<Rightarrow> ('s, 'b, 'w) ws_stmt" where
  "on_verdict W uid passed r =
     (if uid \<notin> set (sc_execok r) then (r, Some (Refused (''ws.verdict_without_execution:'' @ uid)))
      else do_all
        [assign (\<lambda>r. r\<lparr>sc_execok := removeAll uid (sc_execok r)\<rparr>),
         ws_record W ''verdict'' [(''unit'', PyStr uid), (''passed'', PyBool passed)],
         ws_terminal W uid (if passed then USucceeded else UFailed)] r)"

text \<open>The call of the engine; an exception leaves the unit executing.\<close>

definition dispatch_next ::
  "('s, 'b, 'w) ws_wiring \<Rightarrow> ('s, 'b, 'w) ws_run \<Rightarrow> ('s, 'b, 'w) ws_run \<times> (sched_exn + (string \<times> outcome) option)" where
  "dispatch_next W r =
     (case ready (wr_flow r) r of
        [] \<Rightarrow> (r, Inr None)
      | uid # _ \<Rightarrow>
          (case (ww_exec W, dget (wf_units (wr_flow r)) uid) of
             (Some exec, Some u) \<Rightarrow>
               (case do_all
                   [assign (\<lambda>r. r\<lparr>sc_units := dset uid UExecuting (sc_units r)\<rparr>),
                    ws_record W ''dispatched'' [(''unit'', PyStr uid)],
                    ws_emit W ''task.started'' [(''unit_id'', PyStr uid)] (Some uid)] r of
                  (r1, Some e) \<Rightarrow> (r1, Inl e)
                | (r1, None) \<Rightarrow>
                    (case exec (wr_bus r1) (wr_world r1) u of
                       ((b, w), Inl ex) \<Rightarrow> (r1\<lparr>wr_bus := b, wr_world := w\<rparr>, Inl (EngineRaised ex))
                     | ((b, w), Inr oc) \<Rightarrow>
                         (case on_exec_result W uid (oc_state oc = Some Completed) (r1\<lparr>wr_bus := b, wr_world := w\<rparr>) of
                            (r2, Some e) \<Rightarrow> (r2, Inl e)
                          | (r2, None) \<Rightarrow> (r2, Inr (Some (uid, oc))))))
           | _ \<Rightarrow> (r, Inl (Refused ''ws.no_binder_or_engine''))))"

text \<open>The binder and the engine of \<open>execution\<close>, on the bus of the run.\<close>

definition bound_engine ::
  "(ws_unit \<Rightarrow> pyval) \<Rightarrow> ('s, 'b, 'v) wiring \<Rightarrow> ('b, ('s, 'b, 'v) engine) bound" where
  "bound_engine binder X bus e u =
     (let e = e\<lparr>eg_bus := bus\<rparr> in
      case submit e (binder u) of
        Inl ex \<Rightarrow> ((bus, e), Inl ex)
      | Inr (e, xid) \<Rightarrow>
          (case handle_of e xid of
             None \<Rightarrow> ((bus, e), Inl BadRecord)
           | Some h \<Rightarrow> (case run X e h of (e, _, res) \<Rightarrow> ((eg_bus e, e), res))))"

section \<open>Replay\<close>

text \<open>
  One journal record. A record that is not a mapping, lacks a field or names an unknown state
  is none the program writes; it stands for the exception or the foreign value it would give.
\<close>

fun unit_state_of :: "string \<Rightarrow> unit_state option" where
  "unit_state_of s =
     (if s = ''succeeded'' then Some USucceeded else if s = ''failed'' then Some UFailed
      else if s = ''not-executed'' then Some UNotExecuted else None)"

fun run_status_of :: "string \<Rightarrow> run_status option" where
  "run_status_of s =
     (if s = ''completed'' then Some WfCompleted else if s = ''failed'' then Some WfStalled else None)"

definition str_field :: "pyval \<Rightarrow> string \<Rightarrow> sched_exn + string" where
  "str_field doc k = (case dget (fields_of doc) k of Some (PyStr s) \<Rightarrow> Inr s | _ \<Rightarrow> Inl BadJournal)"

definition replay_record :: "sched \<Rightarrow> pyval \<Rightarrow> sched_exn + sched" where
  "replay_record r doc =
     (case str_field doc ''kind'' of
        Inl e \<Rightarrow> Inl e
      | Inr kind \<Rightarrow>
          (if kind = ''activated'' then Inr (r\<lparr>sc_status := Some WfActive\<rparr>)
           else if kind = ''cancelled'' then Inr (r\<lparr>sc_status := Some WfCancelled\<rparr>)
           else if kind = ''selected''
           then (case (str_field doc ''group'', str_field doc ''unit'') of
                   (Inr g, Inr u) \<Rightarrow> Inr (r\<lparr>sc_selected := dset g u (sc_selected r)\<rparr>)
                 | _ \<Rightarrow> Inl BadJournal)
           else if kind = ''dispatched''
           then (case str_field doc ''unit'' of
                   Inr u \<Rightarrow> Inr (r\<lparr>sc_units := dset u UExecuting (sc_units r)\<rparr>) | Inl e \<Rightarrow> Inl e)
           else if kind = ''exec_result''
           then (case dget (fields_of doc) ''ok'' of
                   None \<Rightarrow> Inl BadJournal
                 | Some v \<Rightarrow>
                     (if \<not> truthy v then Inr r
                      else case str_field doc ''unit'' of
                        Inr u \<Rightarrow> Inr (r\<lparr>sc_execok := List.insert u (sc_execok r)\<rparr>) | Inl e \<Rightarrow> Inl e))
           else if kind = ''verdict''
           then (case str_field doc ''unit'' of
                   Inr u \<Rightarrow> Inr (r\<lparr>sc_execok := removeAll u (sc_execok r)\<rparr>) | Inl e \<Rightarrow> Inl e)
           else if kind = ''terminal''
           then (case (str_field doc ''unit'', str_field doc ''outcome'') of
                   (Inr u, Inr oc) \<Rightarrow>
                     (case unit_state_of oc of
                        None \<Rightarrow> Inl BadJournal
                      | Some st \<Rightarrow> Inr (r\<lparr>sc_units := dset u st (sc_units r)\<rparr>))
                 | _ \<Rightarrow> Inl BadJournal)
           else if kind = ''workflow_terminal''
           then (case str_field doc ''status'' of
                   Inl e \<Rightarrow> Inl e
                 | Inr s \<Rightarrow> (case run_status_of s of
                       None \<Rightarrow> Inl BadJournal
                     | Some st \<Rightarrow> Inr (r\<lparr>sc_status := Some st\<rparr>)))
           else Inr r))"

definition ws_entries :: "'s blob_port \<Rightarrow> string \<Rightarrow> string \<Rightarrow> 's \<Rightarrow> sched_exn + pyval list" where
  "ws_entries P ns wid s =
     (case journal_open P s ns wid of
        Inl ex \<Rightarrow> Inl (JournalRaised ex)
      | Inr j \<Rightarrow>
          (case journal_entries P s j 0 of
             Inl ex \<Rightarrow> Inl (JournalRaised ex)
           | Inr ds \<Rightarrow> (case loads_all ds of Inl _ \<Rightarrow> Inl BadJournal | Inr docs \<Rightarrow> Inr docs)))"

definition ws_replay :: "'s blob_port \<Rightarrow> string \<Rightarrow> workflow \<Rightarrow> 's \<Rightarrow> sched_exn + sched" where
  "ws_replay P ns flow s =
     (case ws_entries P ns (wf_id flow) s of
        Inl e \<Rightarrow> Inl e
      | Inr docs \<Rightarrow> foldm replay_record (sched_init flow) docs)"

section \<open>Operations of a run\<close>

datatype ws_op =
    Activate
  | CancelRun
  | Select string string
  | DispatchNext
  | ExecResult string bool
  | Verdict string bool

fun ws_apply :: "('s, 'b, 'w) ws_wiring \<Rightarrow> ('s, 'b, 'w) ws_run \<Rightarrow> ws_op \<Rightarrow> ('s, 'b, 'w) ws_run \<times> sched_exn option" where
  "ws_apply W r Activate = activate W r"
| "ws_apply W r CancelRun = cancel_run W r"
| "ws_apply W r (Select g u) = select_branch W g u r"
| "ws_apply W r DispatchNext =
     (case dispatch_next W r of (r', Inl e) \<Rightarrow> (r', Some e) | (r', Inr _) \<Rightarrow> (r', None))"
| "ws_apply W r (ExecResult u ok) = on_exec_result W u ok r"
| "ws_apply W r (Verdict u ok) = on_verdict W u ok r"

text \<open>Whatever raises on the way, the caller may go on.\<close>

definition ws_ops :: "('s, 'b, 'w) ws_wiring \<Rightarrow> ('s, 'b, 'w) ws_run \<Rightarrow> ws_op list \<Rightarrow> ('s, 'b, 'w) ws_run" where
  "ws_ops W r ops = foldl (\<lambda>r x. fst (ws_apply W r x)) r ops"

end
