(* ===== verification/SchedulerSpec.thy ===== *)
theory SchedulerSpec
  imports Scheduler
begin

text \<open>
  What the workflow runtime promises, as a step relation on the state that replay rebuilds,
  and the simulation: every operation of the runtime, raising or not, is a sequence of these
  steps. The invariants of runs are proved on the steps.
\<close>

section \<open>The steps\<close>

abbreviation core :: "('s, 'b, 'w) ws_run \<Rightarrow> sched" where
  "core r \<equiv> sched.truncate r"

inductive sched_step :: "workflow \<Rightarrow> ws_op \<Rightarrow> sched \<Rightarrow> sched \<Rightarrow> bool" for flow lab where
  act_activate: "sc_status s = None \<Longrightarrow> sched_step flow lab s (s\<lparr>sc_status := Some WfActive\<rparr>)"
| act_cancel: "sc_status s = Some WfActive \<Longrightarrow> sched_step flow lab s (s\<lparr>sc_status := Some WfCancelled\<rparr>)"
| act_select: "dget (wf_groups flow) g = Some ms \<Longrightarrow> u \<in> set ms \<Longrightarrow> dget (sc_selected s) g = None \<Longrightarrow>
    sched_step flow lab s (s\<lparr>sc_selected := dset g u (sc_selected s)\<rparr>)"
| act_skip: "dget (wf_groups flow) g = Some ms \<Longrightarrow> m \<in> set ms \<Longrightarrow> dget (sc_selected s) g = Some u \<Longrightarrow> m \<noteq> u \<Longrightarrow>
    dget (sc_units s) m = Some st \<Longrightarrow> \<not> unit_terminal st \<Longrightarrow>
    sched_step flow lab s (s\<lparr>sc_units := dset m UNotExecuted (sc_units s)\<rparr>)"
| act_dispatch: "lab = DispatchNext \<Longrightarrow> sc_status s = Some WfActive \<Longrightarrow> unit_ready flow s u \<Longrightarrow>
    sched_step flow lab s (s\<lparr>sc_units := dset u UExecuting (sc_units s)\<rparr>)"
| act_exec_ok: "dget (sc_units s) u = Some UExecuting \<Longrightarrow>
    sched_step flow lab s (s\<lparr>sc_execok := List.insert u (sc_execok s)\<rparr>)"
| act_exec_failed: "dget (sc_units s) u = Some UExecuting \<Longrightarrow>
    sched_step flow lab s (s\<lparr>sc_units := dset u UFailed (sc_units s)\<rparr>)"
| act_spent: "u \<in> set (sc_execok s) \<Longrightarrow>
    sched_step flow lab s (s\<lparr>sc_execok := removeAll u (sc_execok s)\<rparr>)"
| act_verdict: "u \<in> set (sc_execok s) \<Longrightarrow> dget (sc_units s) u = Some st \<Longrightarrow> \<not> unit_terminal st \<Longrightarrow>
    res = (if ok then USucceeded else UFailed) \<Longrightarrow> lab = Verdict u ok \<Longrightarrow>
    sched_step flow lab s (s\<lparr>sc_execok := removeAll u (sc_execok s), sc_units := dset u res (sc_units s)\<rparr>)"
| act_stall: "sc_status s = Some WfActive \<Longrightarrow> some_blocking_failed flow s \<Longrightarrow>
    sched_step flow lab s (s\<lparr>sc_status := Some WfStalled\<rparr>)"
| act_complete: "sc_status s = Some WfActive \<Longrightarrow> \<not> some_blocking_failed flow s \<Longrightarrow>
    list_all (unit_done s) (dkeys (wf_units flow)) \<Longrightarrow>
    sched_step flow lab s (s\<lparr>sc_status := Some WfCompleted\<rparr>)"

abbreviation sched_steps :: "workflow \<Rightarrow> ws_op \<Rightarrow> sched \<Rightarrow> sched \<Rightarrow> bool" where
  "sched_steps flow lab \<equiv> (sched_step flow lab)\<^sup>*\<^sup>*"

lemma core_fields [simp]:
  "sc_status (core r) = sc_status r" "sc_units (core r) = sc_units r"
  "sc_execok (core r) = sc_execok r" "sc_selected (core r) = sc_selected r"
  by (simp_all add: sched.defs)

lemma core_updates [simp]:
  "core (r\<lparr>sc_status := a\<rparr>) = (core r)\<lparr>sc_status := a\<rparr>"
  "core (r\<lparr>sc_units := b\<rparr>) = (core r)\<lparr>sc_units := b\<rparr>"
  "core (r\<lparr>sc_execok := c\<rparr>) = (core r)\<lparr>sc_execok := c\<rparr>"
  "core (r\<lparr>sc_selected := d\<rparr>) = (core r)\<lparr>sc_selected := d\<rparr>"
  "core (r\<lparr>wr_store := e\<rparr>) = core r" "core (r\<lparr>wr_bus := f\<rparr>) = core r"
  "core (r\<lparr>wr_world := g\<rparr>) = core r" "core (r\<lparr>wr_journal := j\<rparr>) = core r"
  by (simp_all add: sched.defs)

lemma core_guards [simp]:
  "some_blocking_failed flow (core r) = some_blocking_failed flow r"
  "unit_done (core r) = unit_done r" "branch_allows flow (core r) = branch_allows flow r"
  "unit_ready flow (core r) = unit_ready flow r"
  by (rule ext | simp add: some_blocking_failed_def unit_done_def branch_allows_def unit_ready_def
        cong: option.case_cong)+

lemma ready_core [simp]: "ready flow (core r) = ready flow r"
  by (simp add: ready_def)

text \<open>The rules at the state of a run.\<close>

lemmas core_acts =
  act_activate [where s = "core r" for r, simplified] act_cancel [where s = "core r" for r, simplified]
  act_select [where s = "core r" for r, simplified] act_skip [where s = "core r" for r, simplified]
  act_dispatch [where s = "core r" for r, simplified] act_exec_ok [where s = "core r" for r, simplified]
  act_exec_failed [where s = "core r" for r, simplified] act_spent [where s = "core r" for r, simplified]
  act_verdict [where s = "core r" for r, simplified]

section \<open>Statements and the steps\<close>

lemma ws_record_frame [simp]:
  "core (fst (ws_record W k i r)) = core r" "wr_flow (fst (ws_record W k i r)) = wr_flow r"
  "wr_bus (fst (ws_record W k i r)) = wr_bus r" "wr_world (fst (ws_record W k i r)) = wr_world r"
  by (auto simp: ws_record_def split: option.splits sum.splits prod.splits)

lemma ws_emit_frame [simp]:
  "core (fst (ws_emit W n p u r)) = core r" "wr_flow (fst (ws_emit W n p u r)) = wr_flow r"
  "wr_store (fst (ws_emit W n p u r)) = wr_store r" "wr_journal (fst (ws_emit W n p u r)) = wr_journal r"
  by (auto simp: ws_emit_def split: option.splits prod.splits)

lemma do_all_preserves:
  "(\<And>m r. m \<in> set ms \<Longrightarrow> P r \<Longrightarrow> P (fst (m r))) \<Longrightarrow> P r \<Longrightarrow> P (fst (do_all ms r))"
proof (induction ms arbitrary: r)
  case (Cons m ms)
  have p: "P (fst (m r))" using Cons.prems by simp
  show ?case
  proof (cases "m r")
    case (Pair r' e)
    with p have "P r'" by simp
    with Pair show ?thesis using Cons.IH [of r'] Cons.prems(1) by (cases e) auto
  qed
qed simp

lemma fst_assign [simp]: "fst (assign f r) = f r"
  by (simp add: assign_def)

text \<open>From a state on, over one workflow.\<close>

definition reaches :: "workflow \<Rightarrow> ws_op \<Rightarrow> sched \<Rightarrow> ('s, 'b, 'w) ws_run \<Rightarrow> bool" where
  "reaches flow lab s r \<longleftrightarrow> wr_flow r = flow \<and> sched_steps flow lab s (core r)"

lemma reaches_refl: "reaches (wr_flow r) lab (core r) r"
  by (simp add: reaches_def)

lemma reaches_same [intro]: "reaches flow lab s r \<Longrightarrow> wr_flow r' = wr_flow r \<Longrightarrow> core r' = core r \<Longrightarrow> reaches flow lab s r'"
  by (simp add: reaches_def)

lemma reaches_step: "reaches flow lab s r \<Longrightarrow> wr_flow r' = wr_flow r \<Longrightarrow> sched_step flow lab (core r) (core r') \<Longrightarrow> reaches flow lab s r'"
  by (auto simp: reaches_def intro: rtranclp.rtrancl_into_rtrancl)

lemma reaches_trans: "sched_steps flow lab s s' \<Longrightarrow> reaches flow lab s' r \<Longrightarrow> reaches flow lab s r"
  by (auto simp: reaches_def)

lemma reaches_record [intro]: "reaches flow lab s r \<Longrightarrow> reaches flow lab s (fst (ws_record W k i r))"
  by (rule reaches_same) simp_all

lemma reaches_emit [intro]: "reaches flow lab s r \<Longrightarrow> reaches flow lab s (fst (ws_emit W n p u r))"
  by (rule reaches_same) simp_all

lemma settle_steps: "sched_steps (wr_flow r) lab (core r) (core (fst (ws_settle W r)))"
  unfolding ws_settle_def by (auto intro!: r_into_rtranclp intro: act_stall act_complete)

lemma settle_flow [simp]: "wr_flow (fst (ws_settle W r)) = wr_flow r"
  unfolding ws_settle_def by simp

lemma reaches_settle: "reaches flow lab s r \<Longrightarrow> reaches flow lab s (fst (ws_settle W r))"
  using settle_steps [of r lab W] by (auto simp: reaches_def)

lemma settle_selected [simp]: "sc_selected (fst (ws_settle W r)) = sc_selected r"
  using ws_record_frame(1) [of W] unfolding ws_settle_def
  by (auto simp: sched.defs)

lemma terminal_outcome:
  obtains (refused) e where "ws_terminal W u res r = (r, Some e)"
      "\<forall>st. dget (sc_units r) u = Some st \<longrightarrow> unit_terminal st"
  | (marked) st where "dget (sc_units r) u = Some st" "\<not> unit_terminal st"
      "reaches (wr_flow r) lab ((core r)\<lparr>sc_units := dset u res (sc_units r)\<rparr>) (fst (ws_terminal W u res r))"
      "sc_selected (fst (ws_terminal W u res r)) = sc_selected r"
proof (cases "\<exists>st. dget (sc_units r) u = Some st \<and> \<not> unit_terminal st")
  case True
  then obtain st where st: "dget (sc_units r) u = Some st" "\<not> unit_terminal st" by blast
  let ?r1 = "r\<lparr>sc_units := dset u res (sc_units r)\<rparr>"
  let ?P = "\<lambda>r'. reaches (wr_flow r) lab (core ?r1) r' \<and> sc_selected r' = sc_selected r"
  define ms where "ms = [ws_record W ''terminal'' [(''unit'', PyStr u), (''outcome'', PyStr (unit_state_name res))],
      if res = UNotExecuted then assign id
      else ws_emit W (if res = USucceeded then ''task.completed'' else ''task.failed'')
             [(''unit_id'', PyStr u), (''outcome'', PyStr (unit_state_name res))] (Some u),
      ws_settle W]"
  have eq: "ws_terminal W u res r = do_all ms ?r1"
    using st by (simp add: ws_terminal_def ms_def assign_def)
  have "?P ?r1" using reaches_refl [of ?r1] by simp
  moreover have "?P (fst (m r'))" if "m \<in> set ms" "?P r'" for m r'
    using that reaches_settle [of "wr_flow r" lab "core ?r1" r' W] ws_record_frame(1) [of W] ws_emit_frame(1) [of W]
    by (auto simp: ms_def sched.defs split: if_splits)
  ultimately have "?P (fst (do_all ms ?r1))" by (rule do_all_preserves [rotated])
  with st eq show ?thesis by (intro marked) simp_all
next
  case False
  then show ?thesis
    by (cases "dget (sc_units r) u") (auto intro: refused simp: ws_terminal_def)
qed

section \<open>Operations and the steps\<close>

lemma terminal_reaches:
  assumes "reaches flow lab s r"
    and "\<And>st. dget (sc_units r) u = Some st \<Longrightarrow> \<not> unit_terminal st \<Longrightarrow>
      sched_step flow lab (core r) ((core r)\<lparr>sc_units := dset u res (sc_units r)\<rparr>)"
  shows "reaches flow lab s (fst (ws_terminal W u res r))"
proof (cases rule: terminal_outcome [where W = W and u = u and res = res and r = r and lab = lab])
  case (refused e)
  with assms(1) show ?thesis by simp
next
  case (marked st)
  have f: "wr_flow r = flow" "sched_steps flow lab s (core r)" using assms(1) by (simp_all add: reaches_def)
  with assms(2) [OF marked(1,2)] have "sched_steps flow lab s ((core r)\<lparr>sc_units := dset u res (sc_units r)\<rparr>)"
    by (blast intro: rtranclp.rtrancl_into_rtrancl)
  with marked(3) f show ?thesis by (auto intro: reaches_trans)
qed

lemma terminal_selected: "sc_selected (fst (ws_terminal W u res r)) = sc_selected r"
  by (cases rule: terminal_outcome [where W = W and u = u and res = res and r = r and lab = lab]) simp_all

lemma select_reaches: "reaches (wr_flow r) lab (core r) (fst (select_branch W g u r))"
proof (cases "\<exists>ms. dget (wf_groups (wr_flow r)) g = Some ms \<and> u \<in> set ms \<and> dget (sc_selected r) g = None")
  case True
  then obtain ms where ms: "dget (wf_groups (wr_flow r)) g = Some ms" "u \<in> set ms" "dget (sc_selected r) g = None"
    by blast
  let ?r1 = "r\<lparr>sc_selected := dset g u (sc_selected r)\<rparr>"
  let ?P = "\<lambda>r'. reaches (wr_flow r) lab (core r) r' \<and> dget (sc_selected r') g = Some u"
  let ?ms = "ws_record W ''selected'' [(''group'', PyStr g), (''unit'', PyStr u)]
      # map (\<lambda>m. if m \<noteq> u then ws_terminal W m UNotExecuted else assign id) ms"
  have eq: "select_branch W g u r = do_all ?ms ?r1"
    using ms by (simp add: select_branch_def assign_def)
  have "?P ?r1"
    using ms by (auto intro!: reaches_step [OF reaches_refl] core_acts(3) simp: dict_simps)
  moreover have "?P (fst (m r'))" if m: "m \<in> set ?ms" and P: "?P r'" for m r'
  proof -
    consider "m = ws_record W ''selected'' [(''group'', PyStr g), (''unit'', PyStr u)]"
      | "m = assign id" | x where "x \<in> set ms" "x \<noteq> u" "m = ws_terminal W x UNotExecuted"
      using m by (auto split: if_splits)
    then show ?thesis
    proof cases
      case 1
      have "sc_selected (fst (ws_record W k i r')) = sc_selected r'" for k i
        using ws_record_frame(1) [of W k i r'] by (metis core_fields(4))
      with 1 P show ?thesis by auto
    next
      case 2
      with P show ?thesis by simp
    next
      case 3
      have "reaches (wr_flow r) lab (core r) (fst (ws_terminal W x UNotExecuted r'))"
        using P 3 ms(1) by (intro terminal_reaches) (auto intro: core_acts(4))
      with 3 P show ?thesis by (simp add: terminal_selected)
    qed
  qed
  ultimately have "?P (fst (do_all ?ms ?r1))" by (rule do_all_preserves [rotated])
  with eq show ?thesis by simp
next
  case False
  then have "fst (select_branch W g u r) = r"
    by (auto simp: select_branch_def split: option.splits)
  then show ?thesis by (simp add: reaches_refl)
qed

lemma activate_reaches: "reaches (wr_flow r) lab (core r) (fst (activate W r))"
proof (cases "sc_status r = None")
  case True
  let ?P = "reaches (wr_flow r) lab (core r)"
  have "?P (r\<lparr>sc_status := Some WfActive\<rparr>)"
    using True by (auto intro!: reaches_step [OF reaches_refl] core_acts(1))
  moreover have "?P (fst (select_branch W g u r'))" if "?P r'" for r' g u
    using that select_reaches [where r = r' and W = W and g = g and u = u and lab = lab] by (auto simp: reaches_def)
  moreover define ms where "ms = [ws_record W ''activated'' [],
      ws_emit W ''workflow.created'' [(''content_hash'', PyStr (wf_hash (wr_flow r)))] None]
    @ map (\<lambda>uid. ws_emit W ''task.scheduled''
        [(''unit_id'', PyStr uid), (''priority_band'', PyStr (band_of (wr_flow r) uid))] (Some uid)) (wf_order (wr_flow r))
    @ map (\<lambda>gid. select_branch W gid (first_member (wr_flow r) gid)) (sort (dkeys (wf_groups (wr_flow r))))"
  moreover have "activate W r = do_all ms (r\<lparr>sc_status := Some WfActive\<rparr>)"
    using True by (simp add: activate_def assign_def ms_def Let_def)
  moreover have "?P (fst (do_all ms (r\<lparr>sc_status := Some WfActive\<rparr>)))"
    by (rule do_all_preserves [where P = ?P]) (use calculation in \<open>auto simp: ms_def\<close>)
  ultimately show ?thesis by simp
next
  case False
  then show ?thesis by (auto simp: activate_def reaches_refl)
qed

lemma cancel_reaches: "reaches (wr_flow r) lab (core r) (fst (cancel_run W r))"
  by (auto simp: cancel_run_def reaches_refl intro!: reaches_record reaches_step [OF reaches_refl] core_acts(2))

lemma exec_result_reaches: "reaches (wr_flow r) lab (core r) (fst (on_exec_result W u ok r))"
proof (cases "dget (sc_units r) u = Some UExecuting")
  case True
  let ?P = "\<lambda>r'. reaches (wr_flow r) lab (core r) r' \<and> (dget (sc_units r') u = Some UExecuting)"
  let ?rec = "ws_record W ''exec_result'' [(''unit'', PyStr u), (''ok'', PyBool ok)]"
  have same: "sc_units (fst (?rec r)) = sc_units r" using ws_record_frame(1) [of W _ _ r] by (metis core_fields(2))
  have rec: "?P (fst (?rec r))" using True same by (auto intro: reaches_refl)
  obtain r1 e where r1: "?rec r = (r1, e)" by fastforce
  show ?thesis
  proof (cases e)
    case (Some x)
    with r1 rec True show ?thesis by (simp add: on_exec_result_def)
  next
    case None
    have P1: "?P r1" using rec r1 by simp
    show ?thesis
    proof (cases ok)
      case True
      let ?r2 = "r1\<lparr>sc_execok := List.insert u (sc_execok r1)\<rparr>"
      have "sched_step (wr_flow r) lab (core r1) (core ?r2)" using P1 core_acts(6) [where r = r1 and u = u] by simp
      with P1 have "reaches (wr_flow r) lab (core r) ?r2"
        using reaches_step [of "wr_flow r" lab "core r" r1 ?r2] by simp
      then have "reaches (wr_flow r) lab (core r) (fst (ws_emit W ''verify.requested'' [(''unit_id'', PyStr u)] (Some u) ?r2))"
        by (rule reaches_emit)
      moreover have "fst (on_exec_result W u ok r) = fst (ws_emit W ''verify.requested'' [(''unit_id'', PyStr u)] (Some u) ?r2)"
        using None True r1 \<open>dget (sc_units r) u = Some UExecuting\<close>
        by (simp add: on_exec_result_def assign_def split: prod.split option.split)
      ultimately show ?thesis by simp
    next
      case False
      have "reaches (wr_flow r) lab (core r) (fst (ws_terminal W u UFailed r1))"
        using P1 by (intro terminal_reaches) (auto intro: core_acts(7))
      with None False r1 \<open>dget (sc_units r) u = Some UExecuting\<close> show ?thesis
        by (auto simp: on_exec_result_def split: prod.splits option.splits)
    qed
  qed
next
  case False
  then have "fst (on_exec_result W u ok r) = r"
    by (auto simp: on_exec_result_def split: option.splits)
  then show ?thesis by (simp add: reaches_refl)
qed

lemma verdict_reaches:
  assumes lab: "lab = Verdict u ok"
  shows "reaches (wr_flow r) lab (core r) (fst (on_verdict W u ok r))"
proof (cases "u \<in> set (sc_execok r)")
  case True
  let ?r1 = "r\<lparr>sc_execok := removeAll u (sc_execok r)\<rparr>"
  let ?res = "if ok then USucceeded else UFailed"
  obtain r2 e where r2: "ws_record W ''verdict'' [(''unit'', PyStr u), (''passed'', PyBool ok)] ?r1 = (r2, e)"
    by fastforce
  have c2: "core r2 = (core r)\<lparr>sc_execok := removeAll u (sc_execok r)\<rparr>" "wr_flow r2 = wr_flow r"
    using ws_record_frame(1,2) [of W "''verdict''" "[(''unit'', PyStr u), (''passed'', PyBool ok)]" ?r1] r2 by simp_all
  have "sc_units (core r2) = sc_units (core r)" using c2(1) by simp
  then have u2: "sc_units r2 = sc_units r" by simp
  have spent: "reaches (wr_flow r) lab (core r) r2"
    using True c2 by (intro reaches_step [OF reaches_refl]) (auto intro: core_acts(8))
  show ?thesis
  proof (cases e)
    case (Some x)
    with True r2 spent show ?thesis by (simp add: on_verdict_def assign_def)
  next
    case None
    then have eq: "fst (on_verdict W u ok r) = fst (ws_terminal W u ?res r2)"
      using True r2 by (auto simp: on_verdict_def assign_def split: prod.splits option.splits)
    show ?thesis
    proof (cases rule: terminal_outcome [where W = W and u = u and res = ?res and r = r2 and lab = lab])
      case (refused x)
      with spent eq show ?thesis by simp
    next
      case (marked st)
      have "sched_step (wr_flow r) lab (core r) ((core r2)\<lparr>sc_units := dset u ?res (sc_units r2)\<rparr>)"
        using True marked(1,2) core_acts(9) [where r = r and u = u and st = st and res = ?res and ok = ok and lab = lab and flow = "wr_flow r"] lab by (simp add: c2 u2)
      with marked(3) c2(2) eq show ?thesis
        by (metis (no_types, lifting) r_into_rtranclp reaches_trans)
    qed
  qed
next
  case False
  then show ?thesis by (simp add: on_verdict_def reaches_refl)
qed

lemma ready_unit:
  "ready flow r = u # us \<Longrightarrow> sc_status r = Some WfActive \<and> unit_ready flow r u \<and> u \<in> set (wf_order flow)"
  by (auto simp: ready_def filter_eq_Cons_iff split: if_splits)

lemma reaches_world [intro]: "reaches flow lab s r \<Longrightarrow> reaches flow lab s (r\<lparr>wr_bus := b, wr_world := w\<rparr>)"
  by (rule reaches_same) simp_all

lemma dispatch_reaches:
  assumes lab: "lab = DispatchNext"
  shows "reaches (wr_flow r) lab (core r) (fst (dispatch_next W r))"
proof (cases "ready (wr_flow r) r")
  case Nil
  then show ?thesis by (simp add: dispatch_next_def reaches_refl)
next
  case (Cons u us)
  note rd = ready_unit [OF Cons]
  let ?ms = "[ws_record W ''dispatched'' [(''unit'', PyStr u)], ws_emit W ''task.started'' [(''unit_id'', PyStr u)] (Some u)]"
  let ?r0 = "r\<lparr>sc_units := dset u UExecuting (sc_units r)\<rparr>"
  let ?P = "reaches (wr_flow r) lab (core r)"
  have "?P ?r0" using rd core_acts(5) [where lab = lab and r = r and flow = "wr_flow r" and u = u] lab by (intro reaches_step [OF reaches_refl]) simp_all
  then have started: "?P (fst (do_all ?ms ?r0))"
    by (rule do_all_preserves [where P = ?P, rotated]) auto
  obtain r1 e where r1: "do_all ?ms ?r0 = (r1, e)" by fastforce
  with started have P1: "?P r1" by simp
  have eval: "dispatch_next W r =
      (case (ww_exec W, dget (wf_units (wr_flow r)) u) of
         (Some exec, Some x) \<Rightarrow>
           (case e of
              Some ex \<Rightarrow> (r1, Inl ex)
            | None \<Rightarrow>
                (case exec (wr_bus r1) (wr_world r1) x of
                   ((b, w), Inl ex) \<Rightarrow> (r1\<lparr>wr_bus := b, wr_world := w\<rparr>, Inl (EngineRaised ex))
                 | ((b, w), Inr oc) \<Rightarrow>
                     (case on_exec_result W u (oc_state oc = Some Completed) (r1\<lparr>wr_bus := b, wr_world := w\<rparr>) of
                        (r2, Some ex) \<Rightarrow> (r2, Inl ex)
                      | (r2, None) \<Rightarrow> (r2, Inr (Some (u, oc))))))
       | _ \<Rightarrow> (r, Inl (Refused ''ws.no_binder_or_engine'')))"
  proof -
    have "do_all (assign (\<lambda>r. r\<lparr>sc_units := dset u UExecuting (sc_units r)\<rparr>) # ?ms) r = (r1, e)"
      using r1 by (simp add: assign_def)
    then show ?thesis unfolding dispatch_next_def Cons by (auto split: option.splits)
  qed
  have result: "?P (fst (on_exec_result W u ok (r1\<lparr>wr_bus := b, wr_world := w\<rparr>)))" for ok b w
    using reaches_world [OF P1, where b = b and w = w] exec_result_reaches [where r = "r1\<lparr>wr_bus := b, wr_world := w\<rparr>" and W = W and u = u and ok = ok and lab = lab]
    by (auto simp: reaches_def)
  show ?thesis unfolding eval
    using P1 result reaches_world [OF P1]
    by (auto split: option.splits prod.splits sum.splits simp: reaches_refl) (metis fst_conv)+
qed

theorem ws_apply_reaches: "reaches (wr_flow r) x (core r) (fst (ws_apply W r x))"
proof (cases x)
  case DispatchNext
  have "fst (ws_apply W r DispatchNext) = fst (dispatch_next W r)"
    by (auto split: prod.splits sum.splits)
  with DispatchNext dispatch_reaches [where lab = x and r = r and W = W] show ?thesis by simp
qed (simp_all add: activate_reaches cancel_reaches select_reaches exec_result_reaches verdict_reaches)

end
