(* ===== verification/SchedulerInv.thy ===== *)
theory SchedulerInv
  imports SchedulerSpec
begin

text \<open>
  Invariants of workflow runs, by rule induction on the steps and lifted to every sequence of
  operations through the simulation.
\<close>

section \<open>Unit states only move forward\<close>

fun unit_rank :: "unit_state \<Rightarrow> nat" where
  "unit_rank UPending = 0"
| "unit_rank UExecuting = 1"
| "unit_rank _ = 2"

lemma unit_rank_terminal: "unit_terminal st \<longleftrightarrow> unit_rank st = 2"
  by (cases st) (auto simp: unit_terminal_def)

lemma unit_rank_le: "unit_rank st \<le> 2"
  by (cases st) auto

definition moves_on :: "unit_state \<Rightarrow> unit_state \<Rightarrow> bool" where
  "moves_on st st' \<longleftrightarrow> st' = st \<or> unit_rank st < unit_rank st'"

lemma moves_on_refl [simp]: "moves_on st st"
  by (simp add: moves_on_def)

lemma moves_on_trans: "moves_on a b \<Longrightarrow> moves_on b c \<Longrightarrow> moves_on a c"
  by (auto simp: moves_on_def)

lemma moves_on_terminal: "moves_on st st' \<Longrightarrow> unit_terminal st \<Longrightarrow> st' = st"
  using unit_rank_le [of st'] by (auto simp: moves_on_def unit_rank_terminal)

definition units_move_on :: "'x sched_scheme \<Rightarrow> 'y sched_scheme \<Rightarrow> bool" where
  "units_move_on s s' \<longleftrightarrow>
     (\<forall>u st. dget (sc_units s) u = Some st \<longrightarrow> (\<exists>st'. dget (sc_units s') u = Some st' \<and> moves_on st st'))"

lemma units_move_on_refl: "units_move_on s s"
  by (simp add: units_move_on_def)

lemma units_move_on_trans: "units_move_on s t \<Longrightarrow> units_move_on t u \<Longrightarrow> units_move_on s u"
  unfolding units_move_on_def by (meson moves_on_trans)

lemma units_move_on_set:
  assumes "dget (sc_units s) u = Some st" and "moves_on st st'" and "sc_units s' = dset u st' (sc_units s)"
  shows "units_move_on s s'"
  using assms by (auto simp: units_move_on_def dict_simps)

lemma units_move_on_same: "sc_units s' = sc_units s \<Longrightarrow> units_move_on s s'"
  by (simp add: units_move_on_def)

lemma step_moves_on: "sched_step flow lab s s' \<Longrightarrow> units_move_on s s'"
proof (induction rule: sched_step.induct)
  case (act_skip g ms m s u st)
  then show ?case
    using unit_rank_le [of st]
    by (intro units_move_on_set [of s m st UNotExecuted]) (auto simp: moves_on_def unit_rank_terminal)
next
  case (act_dispatch s u)
  then show ?case by (intro units_move_on_set [of s u UPending UExecuting]) (auto simp: moves_on_def unit_ready_def)
next
  case (act_exec_failed s u)
  then show ?case by (intro units_move_on_set [of s u UExecuting UFailed]) (auto simp: moves_on_def)
next
  case (act_verdict u s st res ok)
  then show ?case
    using unit_rank_le [of st]
    by (intro units_move_on_set [of s u st res]) (auto simp: moves_on_def unit_rank_terminal)
qed (simp_all add: units_move_on_same)

lemma steps_move_on: "sched_steps flow lab s s' \<Longrightarrow> units_move_on s s'"
  by (induction rule: rtranclp.induct) (auto intro: units_move_on_refl units_move_on_trans step_moves_on)

lemma apply_moves_on: "units_move_on r (fst (ws_apply W r x))"
  using ws_apply_reaches [of r x W] steps_move_on
  by (fastforce simp: reaches_def units_move_on_def)

lemma apply_flow [simp]: "wr_flow (fst (ws_apply W r x)) = wr_flow r"
  using ws_apply_reaches [of r x W] by (simp add: reaches_def)

lemma ws_ops_Nil [simp]: "ws_ops W r [] = r"
  by (simp add: ws_ops_def)

lemma ws_ops_Cons [simp]: "ws_ops W r (x # xs) = ws_ops W (fst (ws_apply W r x)) xs"
  by (simp add: ws_ops_def)

lemma ws_ops_append: "ws_ops W r (xs @ ys) = ws_ops W (ws_ops W r xs) ys"
  by (simp add: ws_ops_def)

lemma ops_flow [simp]: "wr_flow (ws_ops W r xs) = wr_flow r"
  by (induction xs arbitrary: r) simp_all

lemma ops_move_on: "units_move_on r (ws_ops W r xs)"
  by (induction xs arbitrary: r) (auto intro: units_move_on_refl units_move_on_trans apply_moves_on)

section \<open>Dependencies, branches and the status of a run\<close>

definition started :: "unit_state \<Rightarrow> bool" where
  "started st \<longleftrightarrow> st \<in> {UExecuting, USucceeded, UFailed}"

definition sched_inv :: "workflow \<Rightarrow> sched \<Rightarrow> bool" where
  "sched_inv flow s \<longleftrightarrow>
     set (dkeys (sc_units s)) = set (dkeys (wf_units flow))
     \<and> (\<forall>u st. dget (sc_units s) u = Some st \<longrightarrow> started st \<longrightarrow>
          branch_allows flow s u \<and> (\<forall>p \<in> set (predecessors flow u). dget (sc_units s) p = Some USucceeded))
     \<and> (\<forall>u \<in> set (sc_execok s). dget (sc_units s) u \<in> Some ` {UExecuting, UFailed, UNotExecuted})
     \<and> (sc_status s = Some WfCompleted \<longrightarrow>
          \<not> some_blocking_failed flow s \<and> list_all (unit_done s) (dkeys (wf_units flow)))
     \<and> (sc_status s = Some WfStalled \<longrightarrow> some_blocking_failed flow s)"

lemma sched_invD:
  assumes "sched_inv flow s"
  shows "dget (sc_units s) u = Some st \<Longrightarrow> started st \<Longrightarrow>
      branch_allows flow s u \<and> (\<forall>p \<in> set (predecessors flow u). dget (sc_units s) p = Some USucceeded)"
    and "u \<in> set (sc_execok s) \<Longrightarrow> dget (sc_units s) u \<in> Some ` {UExecuting, UFailed, UNotExecuted}"
  using assms unfolding sched_inv_def by blast+

lemma branch_allows_cong:
  "sc_selected s' = sc_selected s \<Longrightarrow> branch_allows flow s' u = branch_allows flow s u"
  by (simp add: branch_allows_def cong: option.case_cong)

lemma failed_stays:
  "units_move_on s s' \<Longrightarrow> dget (sc_units s) u = Some UFailed \<Longrightarrow> dget (sc_units s') u = Some UFailed"
  "units_move_on s s' \<Longrightarrow> dget (sc_units s) u = Some USucceeded \<Longrightarrow> dget (sc_units s') u = Some USucceeded"
  unfolding units_move_on_def using moves_on_terminal by (force simp: unit_terminal_def)+

lemma blocking_failed_stays:
  "units_move_on s s' \<Longrightarrow> some_blocking_failed flow s \<Longrightarrow> some_blocking_failed flow s'"
  unfolding some_blocking_failed_def list_ex_iff using failed_stays(1) by blast

lemma done_cong:
  assumes "sc_units s' = sc_units s"
  shows "unit_done s' = unit_done s" and "some_blocking_failed flow s' = some_blocking_failed flow s"
  using assms by (auto simp: unit_done_def some_blocking_failed_def)

text \<open>A state in which only unit \<open>u\<close> has changed, from an unfinished state.\<close>

lemma sched_inv_unit:
  assumes i: "sched_inv flow s" and u: "dget (sc_units s) u = Some st" "\<not> unit_terminal st"
    and s': "sc_units s' = dset u st' (sc_units s)" "sc_selected s' = sc_selected s" "sc_status s' = sc_status s"
    and mv: "moves_on st st'"
    and ok: "started st' \<Longrightarrow> branch_allows flow s u \<and> (\<forall>p \<in> set (predecessors flow u). dget (sc_units s) p = Some USucceeded)"
    and ex: "set (sc_execok s') \<subseteq> set (sc_execok s)" "u \<in> set (sc_execok s') \<Longrightarrow> st' \<in> {UExecuting, UFailed, UNotExecuted}"
  shows "sched_inv flow s'"
proof -
  have mo: "units_move_on s s'" using u(1) mv s'(1) by (rule units_move_on_set)
  have "u \<in> set (dkeys (sc_units s))" using map_of_SomeD [OF u(1)] by force
  then have keys: "u \<in> set (dkeys (wf_units flow))" using i by (simp add: sched_inv_def)
  have "\<not> unit_done s u" using u by (simp add: unit_done_def)
  with keys have undone: "\<not> list_all (unit_done s) (dkeys (wf_units flow))" by (metis list_all_iff)
  have "set (dkeys (sc_units s')) = set (dkeys (wf_units flow))"
    using i keys s'(1) by (auto simp: sched_inv_def dom_update)
  moreover have "branch_allows flow s' v \<and> (\<forall>p \<in> set (predecessors flow v). dget (sc_units s') p = Some USucceeded)"
    if v: "dget (sc_units s') v = Some x" "started x" for v x
  proof -
    have "branch_allows flow s v \<and> (\<forall>p \<in> set (predecessors flow v). dget (sc_units s) p = Some USucceeded)"
    proof (cases "v = u")
      case True
      with v s'(1) have "x = st'" by (simp add: dict_simps)
      with True v(2) ok show ?thesis by simp
    next
      case False
      with v s'(1) i show ?thesis by (simp add: dict_simps sched_inv_def)
    qed
    then show ?thesis using branch_allows_cong [OF s'(2)] failed_stays(2) [OF mo] by blast
  qed
  moreover have "\<forall>v \<in> set (sc_execok s'). dget (sc_units s') v \<in> Some ` {UExecuting, UFailed, UNotExecuted}"
    using i ex s'(1) by (auto simp: sched_inv_def dict_simps)
  moreover have "sc_status s' \<noteq> Some WfCompleted"
    using i undone s'(3) by (auto simp: sched_inv_def)
  moreover have "sc_status s' = Some WfStalled \<longrightarrow> some_blocking_failed flow s'"
    using i s'(3) blocking_failed_stays [OF mo] by (auto simp: sched_inv_def)
  ultimately show ?thesis by (simp add: sched_inv_def)
qed

text \<open>A state in which no unit has changed.\<close>

lemma sched_inv_frame:
  assumes i: "sched_inv flow s" and s': "sc_units s' = sc_units s"
    and br: "\<And>u. branch_allows flow s u \<Longrightarrow> branch_allows flow s' u"
    and ex: "\<forall>u \<in> set (sc_execok s'). dget (sc_units s) u \<in> Some ` {UExecuting, UFailed, UNotExecuted}"
    and st: "sc_status s' = sc_status s \<or> sc_status s' = Some WfActive \<or> sc_status s' = Some WfCancelled
      \<or> sc_status s' = Some WfStalled \<and> some_blocking_failed flow s
      \<or> sc_status s' = Some WfCompleted \<and> \<not> some_blocking_failed flow s \<and> list_all (unit_done s) (dkeys (wf_units flow))"
  shows "sched_inv flow s'"
proof -
  note inv = i [unfolded sched_inv_def]
  have "sc_status s' = Some WfCompleted \<Longrightarrow>
      \<not> some_blocking_failed flow s \<and> list_all (unit_done s) (dkeys (wf_units flow))"
    and "sc_status s' = Some WfStalled \<Longrightarrow> some_blocking_failed flow s"
    using inv st by (elim disjE; simp)+
  moreover have "branch_allows flow s' u \<and> (\<forall>p \<in> set (predecessors flow u). dget (sc_units s) p = Some USucceeded)"
    if "dget (sc_units s) u = Some st" "started st" for u st
    using sched_invD(1) [OF i that] br by simp
  moreover have "set (dkeys (sc_units s)) = set (dkeys (wf_units flow))" using inv by simp
  ultimately show ?thesis using ex unfolding sched_inv_def done_cong [OF s'] s' by simp
qed

lemma sched_inv_same:
  assumes i: "sched_inv flow s" and s': "sc_units s' = sc_units s" "sc_selected s' = sc_selected s"
    and ex: "set (sc_execok s') \<subseteq> set (sc_execok s)
      \<or> (\<exists>u. sc_execok s' = List.insert u (sc_execok s) \<and> dget (sc_units s) u = Some UExecuting)"
    and st: "sc_status s' = sc_status s \<or> sc_status s' = Some WfActive \<or> sc_status s' = Some WfCancelled
      \<or> sc_status s' = Some WfStalled \<and> some_blocking_failed flow s
      \<or> sc_status s' = Some WfCompleted \<and> \<not> some_blocking_failed flow s \<and> list_all (unit_done s) (dkeys (wf_units flow))"
  shows "sched_inv flow s'"
proof (rule sched_inv_frame [OF i s'(1) _ _ st])
  show "branch_allows flow s u \<Longrightarrow> branch_allows flow s' u" for u
    using branch_allows_cong [OF s'(2)] by blast
  show "\<forall>u \<in> set (sc_execok s'). dget (sc_units s) u \<in> Some ` {UExecuting, UFailed, UNotExecuted}"
    using ex sched_invD(2) [OF i] by fastforce
qed

lemma step_inv:
  assumes "sched_step flow lab s s'" and i: "sched_inv flow s"
  shows "sched_inv flow s'"
  using assms
proof (induction rule: sched_step.induct)
  case (act_activate s)
  then show ?case by (intro sched_inv_same [OF act_activate(2)]) auto
next
  case (act_cancel s)
  then show ?case by (intro sched_inv_same [OF act_cancel(2)]) auto
next
  case (act_select g ms u s)
  then show ?case
    by (intro sched_inv_frame [OF act_select(4)])
      (auto simp: branch_allows_def dict_simps dest: sched_invD(2) split: option.splits)
next
  case (act_skip g ms m s u st)
  have "moves_on st UNotExecuted" using act_skip(6) unit_rank_le [of st] by (simp add: moves_on_def unit_rank_terminal)
  then show ?case
    using act_skip by (intro sched_inv_unit [OF act_skip(7,5,6), where st' = UNotExecuted]) (auto simp: started_def)
next
  case (act_dispatch s u)
  then show ?case
    by (intro sched_inv_unit [OF act_dispatch(4), of u UPending _ UExecuting])
      (simp_all add: moves_on_def unit_ready_def list_all_iff unit_terminal_def)
next
  case (act_exec_ok s u)
  then show ?case
    by (intro sched_inv_same [OF act_exec_ok(2)]) auto
next
  case (act_exec_failed s u)
  then show ?case
    using sched_invD(1) [OF act_exec_failed(2), of u UExecuting]
    by (intro sched_inv_unit [OF act_exec_failed(2), of u UExecuting _ UFailed])
      (simp_all add: moves_on_def unit_terminal_def started_def)
next
  case (act_spent u s)
  then show ?case
    by (intro sched_inv_same [OF act_spent(2)]) auto
next
  case (act_verdict u s st res ok)
  then have st: "st = UExecuting" using sched_invD(2) [OF act_verdict(6), of u] by (auto simp: unit_terminal_def)
  with act_verdict show ?case
    using sched_invD(1) [OF act_verdict(6), of u UExecuting]
    by (intro sched_inv_unit [OF act_verdict(6,2,3), where st' = res]) (auto simp: moves_on_def started_def)
next
  case (act_stall s)
  then show ?case
    by (intro sched_inv_same [OF act_stall(3)]) auto
next
  case (act_complete s)
  then show ?case
    by (intro sched_inv_same [OF act_complete(4)]) auto
qed

lemma steps_inv: "sched_steps flow lab s s' \<Longrightarrow> sched_inv flow s \<Longrightarrow> sched_inv flow s'"
  by (induction rule: rtranclp.induct) (auto intro: step_inv)

lemma apply_inv: "sched_inv (wr_flow r) (core r) \<Longrightarrow> sched_inv (wr_flow r) (core (fst (ws_apply W r x)))"
  using ws_apply_reaches [of r x W] steps_inv by (fastforce simp: reaches_def)

lemma ops_inv: "sched_inv (wr_flow r) (core r) \<Longrightarrow> sched_inv (wr_flow r) (core (ws_ops W r xs))"
proof (induction xs arbitrary: r)
  case (Cons x xs)
  from Cons.IH [of "fst (ws_apply W r x)"] apply_inv [OF Cons.prems] show ?case by simp
qed simp

lemma ws_init_core [simp]: "core (ws_init flow store bus w) = sched_init flow"
  "wr_flow (ws_init flow store bus w) = flow" "wr_store (ws_init flow store bus w) = store"
  "wr_bus (ws_init flow store bus w) = bus" "wr_world (ws_init flow store bus w) = w"
  "wr_journal (ws_init flow store bus w) = None"
  by (simp_all add: ws_init_def sched_init_def sched.defs ws_run.defs)

lemma init_pending: "dget (sc_units (sched_init flow)) u = Some st \<Longrightarrow> st = UPending"
  by (auto simp: sched_init_def dest!: map_of_SomeD)

lemma init_fields [simp]:
  "sc_status (sched_init flow) = None" "sc_execok (sched_init flow) = []" "sc_selected (sched_init flow) = []"
  "dkeys (sc_units (sched_init flow)) = dkeys (wf_units flow)"
  by (simp_all add: sched_init_def comp_def)

lemma init_inv: "sched_inv flow (sched_init flow)"
  unfolding sched_inv_def started_def using init_pending [of flow] by fastforce

section \<open>Success comes from a verdict\<close>

text \<open>Only a verdict that passed, of a unit whose execution succeeded, makes a unit succeed.\<close>

lemma step_success:
  "sched_step flow lab s s' \<Longrightarrow> dget (sc_units s') u = Some USucceeded \<Longrightarrow>
     dget (sc_units s) u = Some USucceeded \<or> lab = Verdict u True"
  by (induction rule: sched_step.induct) (auto simp: dict_simps split: if_splits)

lemma steps_success:
  "sched_steps flow lab s s' \<Longrightarrow> dget (sc_units s') u = Some USucceeded \<Longrightarrow>
     dget (sc_units s) u = Some USucceeded \<or> lab = Verdict u True"
  by (induction rule: rtranclp.induct) (auto dest: step_success)

lemma ops_success:
  "dget (sc_units (ws_ops W r xs)) u = Some USucceeded \<Longrightarrow>
     dget (sc_units r) u = Some USucceeded \<or> Verdict u True \<in> set xs"
proof (induction xs arbitrary: r)
  case (Cons x xs)
  have "sched_steps (wr_flow r) x (core r) (core (fst (ws_apply W r x)))"
    using ws_apply_reaches [of r x W] by (simp add: reaches_def)
  with Cons.IH [of "fst (ws_apply W r x)"] Cons.prems steps_success show ?case by fastforce
qed simp

end
