(* ===== verification/SchedulerReplay.thy ===== *)
theory SchedulerReplay
  imports SchedulerInv ExecutionProps EventSourcing
begin

text \<open>
  The journal of a workflow run: operations that do not raise append exactly the records from
  which replay rebuilds the state, so that a run replayed from storage is the live run.
\<close>

section \<open>Replay reads the documents as they were written\<close>

lemma dget_map_snd: "dget (map (\<lambda>(k, v). (k, f v)) d) k = map_option f (dget d k)"
  by (induction d) auto

lemma dget_canon:
  assumes "json_wf (PyDict d)"
  shows "dget (fields_of (json_canon (PyDict d))) k = map_option json_canon (dget d k)"
proof -
  have "distinct (map fst (map (\<lambda>(k, v). (k, json_canon v)) d))"
    using assms by (simp add: comp_def case_prod_beta)
  then have "dget (sort_key fst (map (\<lambda>(k, v). (k, json_canon v)) d)) k = dget (map (\<lambda>(k, v). (k, json_canon v)) d) k"
    by (rule dget_sort_key)
  also have "\<dots> = map_option json_canon (dget d k)" by (rule dget_map_snd)
  finally show ?thesis by simp
qed

lemma canon_truthy [simp]: "truthy (json_canon v) = truthy v"
  by (cases v) (simp_all, metis length_0_conv length_map length_sort)

lemma canon_str [simp]: "json_canon v = PyStr s \<longleftrightarrow> v = PyStr s"
  by (cases v) auto

lemma str_field_canon:
  assumes "json_wf (PyDict d)"
  shows "str_field (json_canon (PyDict d)) k = str_field (PyDict d) k"
proof (cases "dget d k")
  case None
  then show ?thesis using dget_canon [OF assms, of k] by (simp add: str_field_def)
next
  case (Some v)
  then show ?thesis using dget_canon [OF assms, of k]
    by (cases v) (simp_all add: str_field_def)
qed

lemma replay_record_canon:
  assumes "json_wf (PyDict d)"
  shows "replay_record s (json_canon (PyDict d)) = replay_record s (PyDict d)"
proof -
  have ok: "(case dget (fields_of (json_canon (PyDict d))) ''ok'' of None \<Rightarrow> x | Some v \<Rightarrow> if \<not> truthy v then y else z)
      = (case dget (fields_of (PyDict d)) ''ok'' of None \<Rightarrow> x | Some v \<Rightarrow> if \<not> truthy v then y else z)" for x y z :: "sched_exn + sched"
    unfolding dget_canon [OF assms] by (cases "dget d ''ok''") simp_all
  show ?thesis unfolding replay_record_def str_field_canon [OF assms] ok ..
qed

section \<open>What an operation adds\<close>

context blobs
begin

definition run_log :: "('s, 'b, 'w) ws_wiring \<Rightarrow> ('s, 'b, 'w) ws_run \<Rightarrow> pyval list \<Rightarrow> bool" where
  "run_log W r docs \<longleftrightarrow>
     ww_port W = P \<and> plain_journal (ww_ns W) (wf_id (wr_flow r)) \<and> list_all json_wf docs \<and> list_all is_dict docs
     \<and> (\<exists>s. wr_store r = Some s \<and> holds s (ww_ns W) (wf_id (wr_flow r)) (map json_dumps docs) (\<lambda>_. None))
     \<and> (wr_journal r = None
        \<or> wr_journal r = Some \<lparr>jr_ns = ww_ns W, jr_name = wf_id (wr_flow r), jr_next = length docs\<rparr>)"

definition grows :: "('s, 'b, 'w) ws_wiring \<Rightarrow> ('s, 'b, 'w) ws_run \<Rightarrow> ('s, 'b, 'w) ws_run \<Rightarrow> bool" where
  "grows W r r' \<longleftrightarrow>
     (\<forall>docs. run_log W r docs \<longrightarrow>
        (\<exists>ds. run_log W r' (docs @ ds) \<and> foldm replay_record (core r) ds = Inr (core r')))"

lemma grows_refl: "grows W r r"
  by (auto simp: grows_def intro: exI [of _ "[]"])

lemma grows_trans: "grows W r r1 \<Longrightarrow> grows W r1 r2 \<Longrightarrow> grows W r r2"
  unfolding grows_def by (metis append.assoc fold_simps(1) foldm_append sum.simps(6))

lemma log_record:
  assumes l: "run_log W r docs" and w: "ws_record W k i r = (r', None)" and wf: "json_wf (ws_doc k i)"
  shows "run_log W r' (docs @ [ws_doc k i])"
proof -
  obtain s where s: "wr_store r = Some s" "holds s (ww_ns W) (wf_id (wr_flow r)) (map json_dumps docs) (\<lambda>_. None)"
    and p: "plain_journal (ww_ns W) (wf_id (wr_flow r))" "ww_port W = P"
    using l by (auto simp: run_log_def)
  let ?j = "\<lparr>jr_ns = ww_ns W, jr_name = wf_id (wr_flow r), jr_next = length (map json_dumps docs)\<rparr>"
  have o1: "(case wr_journal r of Some j \<Rightarrow> Inr j | None \<Rightarrow> journal_open P s (ww_ns W) (wf_id (wr_flow r))) = Inr ?j"
    using l sim_open [OF s(2) p(1)] by (auto simp: run_log_def)
  obtain s' j' res where a: "journal_append P s ?j (json_dumps (ws_doc k i)) = ((s', j'), res)"
    by (metis prod.exhaust)
  have "\<exists>n. res = Inr n" and r': "r' = r\<lparr>wr_store := Some s', wr_journal := Some j'\<rparr>"
    using w s(1) o1 p(2) a by (auto simp: ws_record_def split: sum.splits)
  then obtain n where res: "res = Inr n" by blast
  from sim_append [OF s(2) p(1) refl a] res
  have "j' = ?j\<lparr>jr_next := length (map json_dumps docs @ [json_dumps (ws_doc k i)])\<rparr>"
    "holds s' (ww_ns W) (wf_id (wr_flow r)) (map json_dumps docs @ [json_dumps (ws_doc k i)]) (\<lambda>_. None)"
    by simp_all
  moreover have "list_all json_wf docs" "list_all is_dict docs" using l by (simp_all add: run_log_def)
  ultimately show ?thesis using p wf by (simp add: run_log_def r' ws_doc_def)
qed

lemma run_log_same:
  "wr_store r' = wr_store r \<Longrightarrow> wr_journal r' = wr_journal r \<Longrightarrow> wr_flow r' = wr_flow r \<Longrightarrow>
     run_log W r' docs = run_log W r docs"
  by (simp add: run_log_def)

text \<open>A change of the state together with its record.\<close>

lemma grows_record:
  assumes w: "ws_record W k i r1 = (r', None)" and wf: "json_wf (ws_doc k i)"
    and same: "wr_store r1 = wr_store r" "wr_journal r1 = wr_journal r" "wr_flow r1 = wr_flow r"
    and fold: "replay_record (core r) (ws_doc k i) = Inr (core r1)"
  shows "grows W r r'"
proof -
  have "core r' = core r1" using w ws_record_frame(1) [of W k i r1] by simp
  then have "foldm replay_record (core r) [ws_doc k i] = Inr (core r')" by (simp add: fold)
  then show ?thesis
    using log_record [OF _ w wf] unfolding grows_def run_log_same [OF same] by blast
qed

lemma grows_emit: "ws_emit W n p u r = (r', None) \<Longrightarrow> grows W r r'"
  using ws_emit_frame [of W n p u r]
  by (auto simp: grows_def run_log_same [of r' r] intro!: exI [of _ "[]"])

lemma grows_do_all:
  "do_all ms r = (r', None) \<Longrightarrow> (\<And>m x y. m \<in> set ms \<Longrightarrow> m x = (y, None) \<Longrightarrow> grows W x y) \<Longrightarrow> grows W r r'"
proof (induction ms arbitrary: r)
  case (Cons m ms)
  from Cons.prems(1) obtain x where x: "m r = (x, None)" "do_all ms x = (r', None)"
    by (auto split: prod.splits option.splits)
  have "grows W r x" using Cons.prems(2) [of m r x] x(1) by simp
  moreover have "grows W x r'" by (rule Cons.IH [OF x(2)]) (use Cons.prems(2) in auto)
  ultimately show ?case by (rule grows_trans)
qed (simp add: grows_refl)

lemma grows_settle: "ws_settle W r = (r', None) \<Longrightarrow> grows W r r'"
  unfolding ws_settle_def
  by (auto split: if_splits simp: grows_refl
        elim!: grows_record simp: ws_doc_def replay_record_def str_field_def)

lemma grows_terminal:
  assumes w: "ws_terminal W u res r = (r', None)" and res: "res \<in> {USucceeded, UFailed, UNotExecuted}"
  shows "grows W r r'"
proof -
  let ?rec = "ws_record W ''terminal'' [(''unit'', PyStr u), (''outcome'', PyStr (unit_state_name res))]"
  let ?r1 = "r\<lparr>sc_units := dset u res (sc_units r)\<rparr>"
  let ?rest = "[if res = UNotExecuted then assign id
      else ws_emit W (if res = USucceeded then ''task.completed'' else ''task.failed'')
             [(''unit_id'', PyStr u), (''outcome'', PyStr (unit_state_name res))] (Some u),
      ws_settle W]"
  have "do_all (?rec # ?rest) ?r1 = (r', None)"
    using w by (auto simp: ws_terminal_def assign_def split: option.splits if_splits)
  then obtain x where x: "?rec ?r1 = (x, None)" "do_all ?rest x = (r', None)"
    by (cases "?rec ?r1") (auto split: option.splits)
  have "unit_state_of (unit_state_name res) = Some res" using res by auto
  then have "grows W r x"
    by (intro grows_record [OF x(1)]) (simp_all add: ws_doc_def replay_record_def str_field_def)
  moreover have "grows W x r'"
    by (rule grows_do_all [OF x(2)]) (auto split: if_splits intro: grows_emit grows_settle grows_refl simp: assign_def)
  ultimately show ?thesis by (rule grows_trans)
qed

lemma grows_select:
  assumes w: "select_branch W g u r = (r', None)"
  shows "grows W r r'"
proof -
  obtain ms where ms: "dget (wf_groups (wr_flow r)) g = Some ms"
    using w by (auto simp: select_branch_def split: option.splits)
  let ?rec = "ws_record W ''selected'' [(''group'', PyStr g), (''unit'', PyStr u)]"
  let ?r1 = "r\<lparr>sc_selected := dset g u (sc_selected r)\<rparr>"
  let ?rest = "map (\<lambda>m. if m \<noteq> u then ws_terminal W m UNotExecuted else assign id) ms"
  have "do_all (?rec # ?rest) ?r1 = (r', None)"
    using w ms by (auto simp: select_branch_def assign_def split: option.splits if_splits)
  then obtain x where x: "?rec ?r1 = (x, None)" "do_all ?rest x = (r', None)"
    by (cases "?rec ?r1") (auto split: option.splits)
  have "grows W r x"
    by (intro grows_record [OF x(1)]) (simp_all add: ws_doc_def replay_record_def str_field_def)
  moreover have "grows W x r'"
    by (rule grows_do_all [OF x(2)]) (auto split: if_splits intro: grows_terminal grows_refl simp: assign_def)
  ultimately show ?thesis by (rule grows_trans)
qed

lemma grows_activate:
  assumes w: "activate W r = (r', None)"
  shows "grows W r r'"
proof -
  let ?rec = "ws_record W ''activated'' []"
  let ?r1 = "r\<lparr>sc_status := Some WfActive\<rparr>"
  let ?rest = "ws_emit W ''workflow.created'' [(''content_hash'', PyStr (wf_hash (wr_flow r)))] None
    # map (\<lambda>uid. ws_emit W ''task.scheduled''
         [(''unit_id'', PyStr uid), (''priority_band'', PyStr (band_of (wr_flow r) uid))] (Some uid)) (wf_order (wr_flow r))
    @ map (\<lambda>gid. select_branch W gid (first_member (wr_flow r) gid)) (sort (dkeys (wf_groups (wr_flow r))))"
  have "do_all (?rec # ?rest) ?r1 = (r', None)"
    using w by (auto simp: activate_def assign_def Let_def split: if_splits)
  then obtain x where x: "?rec ?r1 = (x, None)" "do_all ?rest x = (r', None)"
    by (cases "?rec ?r1") (auto split: option.splits)
  have "grows W r x"
    by (intro grows_record [OF x(1)]) (simp_all add: ws_doc_def replay_record_def str_field_def)
  moreover have "grows W x r'"
    by (rule grows_do_all [OF x(2)]) (auto intro: grows_emit grows_select)
  ultimately show ?thesis by (rule grows_trans)
qed

lemma grows_cancel: "cancel_run W r = (r', None) \<Longrightarrow> grows W r r'"
  unfolding cancel_run_def
  by (auto split: if_splits elim!: grows_record simp: ws_doc_def replay_record_def str_field_def)

lemma grows_assign:
  assumes "ws_record W k i r = (x, None)" and "json_wf (ws_doc k i)"
    and "y = f x" and "wr_store y = wr_store x" "wr_journal y = wr_journal x" "wr_flow y = wr_flow x"
    and "replay_record (core x) (ws_doc k i) = Inr (core y)"
  shows "grows W r y"
proof -
  have c: "core x = core r" using assms(1) ws_record_frame(1) [of W k i r] by simp
  have "run_log W y (docs @ [ws_doc k i])" if "run_log W r docs" for docs
    using log_record [OF that assms(1,2)] run_log_same [OF assms(4,5,6)] by simp
  moreover have "foldm replay_record (core r) [ws_doc k i] = Inr (core y)" using assms(7) c by simp
  ultimately show ?thesis unfolding grows_def by blast
qed

lemma grows_exec_result:
  assumes w: "on_exec_result W u ok r = (r', None)"
  shows "grows W r r'"
proof -
  let ?k = "''exec_result''" and ?i = "[(''unit'', PyStr u), (''ok'', PyBool ok)]"
  let ?rest = "if \<not> ok then [ws_terminal W u UFailed]
     else [assign (\<lambda>r. r\<lparr>sc_execok := List.insert u (sc_execok r)\<rparr>),
           ws_emit W ''verify.requested'' [(''unit_id'', PyStr u)] (Some u)]"
  have "do_all (ws_record W ?k ?i # ?rest) r = (r', None)"
    using w by (auto simp: on_exec_result_def split: option.splits if_splits)
  then obtain x where x: "ws_record W ?k ?i r = (x, None)" "do_all ?rest x = (r', None)"
    by (cases "ws_record W ?k ?i r") (auto split: option.splits)
  have wf: "json_wf (ws_doc ?k ?i)" by (simp add: ws_doc_def)
  show ?thesis
  proof (cases ok)
    case True
    let ?y = "x\<lparr>sc_execok := List.insert u (sc_execok x)\<rparr>"
    have "grows W r ?y"
      by (rule grows_assign [OF x(1) wf refl]) (simp_all add: True ws_doc_def replay_record_def str_field_def)
    moreover have "ws_emit W ''verify.requested'' [(''unit_id'', PyStr u)] (Some u) ?y = (r', None)"
      using x(2) True by (auto simp: assign_def split: prod.splits option.splits)
    ultimately show ?thesis by (blast intro: grows_trans grows_emit)
  next
    case False
    have "grows W r x"
      by (rule grows_assign [OF x(1) wf, of _ "\<lambda>x. x"]) (simp_all add: False ws_doc_def replay_record_def str_field_def)
    moreover have "ws_terminal W u UFailed x = (r', None)"
      using x(2) False by (auto split: prod.splits option.splits)
    ultimately show ?thesis by (blast intro: grows_trans grows_terminal)
  qed
qed

lemma grows_verdict:
  assumes w: "on_verdict W u ok r = (r', None)"
  shows "grows W r r'"
proof -
  let ?rec = "ws_record W ''verdict'' [(''unit'', PyStr u), (''passed'', PyBool ok)]"
  let ?r1 = "r\<lparr>sc_execok := removeAll u (sc_execok r)\<rparr>"
  have "do_all [?rec, ws_terminal W u (if ok then USucceeded else UFailed)] ?r1 = (r', None)"
    using w by (auto simp: on_verdict_def assign_def split: if_splits)
  then obtain x where x: "?rec ?r1 = (x, None)" "ws_terminal W u (if ok then USucceeded else UFailed) x = (r', None)"
    by (cases "?rec ?r1") (auto split: option.splits prod.splits)
  have "grows W r x"
    by (intro grows_record [OF x(1)]) (simp_all add: ws_doc_def replay_record_def str_field_def)
  moreover have "grows W x r'" by (rule grows_terminal [OF x(2)]) simp
  ultimately show ?thesis by (rule grows_trans)
qed

lemma grows_world: "grows W r (r\<lparr>wr_bus := b, wr_world := w\<rparr>)"
  by (auto simp: grows_def run_log_def intro!: exI [of _ "[]"])

lemma grows_dispatch:
  assumes w: "dispatch_next W r = (r', Inr res)"
  shows "grows W r r'"
proof (cases "ready (wr_flow r) r")
  case Nil
  with w show ?thesis by (simp add: dispatch_next_def grows_refl)
next
  case (Cons u us)
  let ?rec = "ws_record W ''dispatched'' [(''unit'', PyStr u)]"
  let ?emit = "ws_emit W ''task.started'' [(''unit_id'', PyStr u)] (Some u)"
  let ?r1 = "r\<lparr>sc_units := dset u UExecuting (sc_units r)\<rparr>"
  obtain y b v and oc :: outcome where y: "do_all [?rec, ?emit] ?r1 = (y, None)"
    and r: "on_exec_result W u (oc_state oc = Some Completed) (y\<lparr>wr_bus := b, wr_world := v\<rparr>) = (r', None)"
    using w Cons
    by (auto simp: dispatch_next_def assign_def split: option.splits prod.splits sum.splits)
  from y obtain x where x: "?rec ?r1 = (x, None)" "?emit x = (y, None)"
    by (cases "?rec ?r1") (auto split: option.splits prod.splits)
  have "grows W r x"
    by (intro grows_record [OF x(1)]) (simp_all add: ws_doc_def replay_record_def str_field_def)
  then show ?thesis
    by (rule grows_trans [OF _ grows_trans [OF grows_emit [OF x(2)] grows_trans [OF grows_world grows_exec_result [OF r]]]])
qed

lemma grows_apply:
  assumes "ws_apply W r x = (r', None)"
  shows "grows W r r'"
proof (cases x)
  case DispatchNext
  with assms obtain res where "dispatch_next W r = (r', Inr res)" by (auto split: prod.splits sum.splits)
  then show ?thesis by (rule grows_dispatch)
qed (use assms in \<open>auto intro: grows_activate grows_cancel grows_select grows_exec_result grows_verdict\<close>)

lemma log_entries:
  assumes "run_log W r docs"
  obtains s where "wr_store r = Some s"
    and "ws_entries P (ww_ns W) (wf_id (wr_flow r)) s = Inr (map json_canon docs)"
proof -
  obtain s where s: "wr_store r = Some s" "holds s (ww_ns W) (wf_id (wr_flow r)) (map json_dumps docs) (\<lambda>_. None)"
    and p: "plain_journal (ww_ns W) (wf_id (wr_flow r))" and wf: "\<forall>v \<in> set docs. json_wf v"
    using assms by (auto simp: run_log_def list_all_iff)
  have "ws_entries P (ww_ns W) (wf_id (wr_flow r)) s = Inr (map json_canon docs)"
    using sim_open [OF s(2) p] sim_entries [OF s(2) p refl, of 0] loads_all_dumps [OF wf]
    by (simp add: ws_entries_def)
  with s(1) show thesis by (rule that)
qed

lemma replay_canon:
  "list_all json_wf docs \<Longrightarrow> list_all is_dict docs \<Longrightarrow>
     foldm replay_record s (map json_canon docs) = foldm replay_record s docs"
proof (induction docs arbitrary: s)
  case (Cons v docs)
  then obtain d where v: "v = PyDict d" by (cases v) auto
  have "replay_record s (json_canon v) = replay_record s v"
    using Cons.prems(1) replay_record_canon [of d s] unfolding v by simp
  with Cons show ?case by (simp split: sum.splits)
qed simp

end

end
