(* ===== verification/WorkflowOrder.thy ===== *)
theory WorkflowOrder
  imports Workflow
begin

text \<open>
  What the ordering of the workflow compiler computes: the levels are the layers of the
  dependency graph, the canonical order lists every unit once and after its predecessors,
  and compilation fails at this stage exactly for a cyclic graph.
\<close>

section \<open>Precedence in a list\<close>

fun precedes :: "'a list \<Rightarrow> 'a \<Rightarrow> 'a \<Rightarrow> bool" where
  "precedes [] a b = False"
| "precedes (x # xs) a b = (if x = a then b \<in> set xs else precedes xs a b)"

lemma precedes_append: "a \<in> set us \<Longrightarrow> b \<in> set vs \<Longrightarrow> precedes (us @ vs) a b"
  by (induction us) auto

lemma precedes_appendR: "a \<notin> set us \<Longrightarrow> precedes vs a b \<Longrightarrow> precedes (us @ vs) a b"
  by (induction us) auto

lemma precedes_set: "precedes xs a b \<Longrightarrow> a \<in> set xs \<and> b \<in> set xs"
  by (induction xs) (auto split: if_splits)

lemma precedes_irrefl: "distinct xs \<Longrightarrow> \<not> precedes xs a a"
  by (induction xs) auto

lemma precedes_trans: "distinct xs \<Longrightarrow> precedes xs a b \<Longrightarrow> precedes xs b c \<Longrightarrow> precedes xs a c"
  by (induction xs) (auto split: if_splits dest: precedes_set)

lemma precedes_levels:
  assumes "i < j" and "j < length ls" and "a \<in> set (ls ! i)" and "b \<in> set (ls ! j)"
  shows "precedes (concat ls) a b"
proof -
  have "concat ls = concat (take j ls) @ concat (drop j ls)"
    by (metis append_take_drop_id concat_append)
  moreover have "ls ! i \<in> set (take j ls)"
    using assms by (auto simp: in_set_conv_nth intro!: exI [of _ i])
  then have "a \<in> set (concat (take j ls))" using assms(3) by auto
  moreover have "ls ! j \<in> set (drop j ls)"
    using assms(2) by (metis Cons_nth_drop_Suc list.set_intros(1))
  then have "b \<in> set (concat (drop j ls))" using assms(4) by auto
  ultimately show ?thesis by (metis precedes_append)
qed

lemma precedes_acyclic:
  assumes "distinct xs" and "\<And>a b. (a, b) \<in> r \<Longrightarrow> precedes xs a b"
  shows "acyclic r"
proof -
  have "precedes xs a b" if "(a, b) \<in> r\<^sup>+" for a b
    using that by induction (use assms in \<open>auto intro: precedes_trans\<close>)
  with precedes_irrefl [OF assms(1)] show ?thesis by (auto simp: acyclic_def)
qed

section \<open>Releasing a frontier\<close>

definition closed_deps :: "pending_units \<Rightarrow> bool" where
  "closed_deps rest \<longleftrightarrow> wf_dict rest \<and> (\<forall>(u, deps) \<in> set rest. set deps \<subseteq> set (dkeys rest))"

lemma set_frontier: "set (frontier rest) = {u. (u, []) \<in> set rest}"
  by (force simp: frontier_def)

lemma distinct_frontier: "wf_dict rest \<Longrightarrow> distinct (frontier rest)"
  by (simp add: frontier_def wf_dict_def distinct_map_filter)

lemma set_release:
  "(u, deps) \<in> set (release front rest) \<longleftrightarrow>
     u \<notin> set front \<and> (\<exists>ds. (u, ds) \<in> set rest \<and> deps = filter (\<lambda>d. d \<notin> set front) ds)"
  by (force simp: release_def)

lemma dkeys_release: "dkeys (release front rest) = filter (\<lambda>u. u \<notin> set front) (dkeys rest)"
  by (induction rest) (auto simp: release_def)

lemma closed_release: "closed_deps rest \<Longrightarrow> closed_deps (release front rest)"
  by (fastforce simp: closed_deps_def wf_dict_def dkeys_release set_release)

lemma frontier_keys: "set (frontier rest) \<subseteq> set (dkeys rest)"
  by (force simp: set_frontier)

section \<open>The levels\<close>

text \<open>
  Every unit once; a unit's dependencies are in earlier levels; and a unit sits as early as it
  can, one level after one of its dependencies.
\<close>

definition layered :: "pending_units \<Rightarrow> string list list \<Rightarrow> bool" where
  "layered rest ls \<longleftrightarrow>
     distinct (concat ls) \<and> set (concat ls) = set (dkeys rest)
     \<and> (\<forall>i < length ls. \<forall>(u, deps) \<in> set rest. u \<in> set (ls ! i) \<longrightarrow>
          (\<forall>d \<in> set deps. \<exists>j < i. d \<in> set (ls ! j))
          \<and> (0 < i \<longrightarrow> (\<exists>d \<in> set deps. d \<in> set (ls ! (i - 1)))))"

lemma layered_Cons:
  assumes c: "closed_deps rest" and l: "layered (release (frontier rest) rest) ls"
  shows "layered rest (frontier rest # ls)"
proof -
  let ?F = "frontier rest" and ?R = "release (frontier rest) rest"
  have wf: "wf_dict rest" using c by (simp add: closed_deps_def)
  have keys: "set (concat ls) = set (dkeys rest) - set ?F" and dis: "distinct (concat ls)"
    using l by (auto simp: layered_def dkeys_release)
  have lev: "(\<forall>d \<in> set deps. \<exists>j < i. d \<in> set ((?F # ls) ! j))
      \<and> (0 < i \<longrightarrow> (\<exists>d \<in> set deps. d \<in> set ((?F # ls) ! (i - 1))))"
    if i: "i < Suc (length ls)" and u: "(u, deps) \<in> set rest" "u \<in> set ((?F # ls) ! i)" for i u deps
  proof (cases i)
    case 0
    with u(2) have "(u, []) \<in> set rest" by (simp add: set_frontier)
    with wf u(1) have "deps = []" by (metis option.inject wf_dict_dget)
    with 0 show ?thesis by simp
  next
    case (Suc k)
    have "u \<in> set (ls ! k)" and k: "k < length ls" using Suc u(2) i by auto
    then have "u \<in> set (concat ls)" by (force simp: in_set_conv_nth)
    with keys have nF: "u \<notin> set ?F" by auto
    define ds where "ds = filter (\<lambda>d. d \<notin> set ?F) deps"
    have "(u, ds) \<in> set ?R" using nF u(1) by (auto simp: set_release ds_def)
    with l k \<open>u \<in> set (ls ! k)\<close> have ds: "\<forall>d \<in> set ds. \<exists>j < k. d \<in> set (ls ! j)"
        and near: "0 < k \<Longrightarrow> \<exists>d \<in> set ds. d \<in> set (ls ! (k - 1))"
      by (fastforce simp: layered_def)+
    have "\<exists>j < i. d \<in> set ((?F # ls) ! j)" if "d \<in> set deps" for d
    proof (cases "d \<in> set ?F")
      case True
      with Suc show ?thesis by (intro exI [of _ 0]) simp
    next
      case False
      with that ds obtain j where "j < k" "d \<in> set (ls ! j)" by (auto simp: ds_def)
      with Suc show ?thesis by (intro exI [of _ "Suc j"]) simp
    qed
    moreover have "\<exists>d \<in> set deps. d \<in> set ((?F # ls) ! k)"
    proof (cases k)
      case 0
      with ds have "ds = []" by (cases ds) auto
      moreover have "deps \<noteq> []" using nF u(1) by (auto simp: set_frontier)
      ultimately show ?thesis using 0 by (cases deps) (auto simp: ds_def split: if_splits)
    next
      case (Suc m)
      with near show ?thesis by (auto simp: ds_def)
    qed
    ultimately show ?thesis using Suc by simp
  qed
  show ?thesis
    using dis keys distinct_frontier [OF wf] frontier_keys [of rest] lev
    by (auto simp: layered_def)
qed

lemma kahn_layers: "kahn rest = Some ls \<Longrightarrow> closed_deps rest \<Longrightarrow> layered rest ls"
proof (induction rest arbitrary: ls rule: kahn.induct)
  case (1 rest)
  show ?case
  proof (cases "rest = []")
    case True
    with "1.prems" show ?thesis by (simp add: kahn.simps [of "[]"] layered_def)
  next
    case False
    with "1.prems"(1) have f: "frontier rest \<noteq> []" by (auto simp: kahn.simps [of rest] split: if_splits)
    with False "1.prems"(1) obtain ls' where ls': "kahn (release (frontier rest) rest) = Some ls'"
        "ls = frontier rest # ls'"
      by (auto simp: kahn.simps [of rest])
    from "1.IH" [OF False f ls'(1)] "1.prems"(2) ls'(2) show ?thesis
      by (simp add: closed_release layered_Cons)
  qed
qed

text \<open>Without a frontier every open unit waits for an open one.\<close>

lemma kahn_stuck:
  "kahn rest = None \<Longrightarrow> closed_deps rest \<Longrightarrow>
     \<exists>open \<subseteq> set (dkeys rest). open \<noteq> {} \<and> (\<forall>u \<in> open. \<exists>deps. (u, deps) \<in> set rest \<and> set deps \<inter> open \<noteq> {})"
proof (induction rest rule: kahn.induct)
  case (1 rest)
  then have ne: "rest \<noteq> []" by (auto simp: kahn.simps [of "[]"])
  show ?case
  proof (cases "frontier rest = []")
    case True
    then have "deps \<noteq> []" if "(u, deps) \<in> set rest" for u deps
      using that set_frontier [of rest] by auto
    moreover have "set deps \<subseteq> set (dkeys rest)" if "(u, deps) \<in> set rest" for u deps
      using that "1.prems"(2) by (auto simp: closed_deps_def)
    ultimately have "\<forall>u \<in> set (dkeys rest). \<exists>deps. (u, deps) \<in> set rest \<and> set deps \<inter> set (dkeys rest) \<noteq> {}"
      by (metis (no_types, lifting) Int_absorb2 imageE list.set_map prod.collapse set_empty)
    with ne show ?thesis by (intro exI [of _ "set (dkeys rest)"]) auto
  next
    case False
    with ne "1.prems"(1) have "kahn (release (frontier rest) rest) = None"
      by (simp add: kahn.simps [of rest])
    from "1.IH" [OF ne False this] "1.prems"(2) obtain S where S: "S \<noteq> {}"
        "S \<subseteq> set (dkeys (release (frontier rest) rest))"
        "\<forall>u \<in> S. \<exists>deps. (u, deps) \<in> set (release (frontier rest) rest) \<and> set deps \<inter> S \<noteq> {}"
      by (auto simp: closed_release)
    show ?thesis
    proof (intro exI [of _ S] conjI ballI)
      show "S \<subseteq> set (dkeys rest)" using S(2) by (auto simp: dkeys_release)
      show "\<exists>deps. (u, deps) \<in> set rest \<and> set deps \<inter> S \<noteq> {}" if "u \<in> S" for u
        using S(3) that by (fastforce simp: set_release)
    qed (rule S(1))
  qed
qed

section \<open>Over the edges of a workflow\<close>

lemma dkeys_incoming [simp]: "dkeys (incoming uids edges) = uids"
  by (induction uids) (auto simp: incoming_def)

lemma set_incoming: "(u, deps) \<in> set (incoming uids edges) \<Longrightarrow> u \<in> set uids \<and> set deps = {p. (p, u) \<in> set edges}"
  by (force simp: incoming_def)

lemma incoming_closed:
  assumes "distinct uids" and "set edges \<subseteq> set uids \<times> set uids"
  shows "closed_deps (incoming uids edges)"
  using assms by (auto simp: closed_deps_def wf_dict_def dest!: set_incoming)

lemma kahn_topological:
  assumes "kahn (incoming uids edges) = Some ls" and d: "distinct uids" and e: "set edges \<subseteq> set uids \<times> set uids"
  shows "distinct (concat ls)" and "set (concat ls) = set uids"
    and "(p, c) \<in> set edges \<Longrightarrow> i < length ls \<Longrightarrow> c \<in> set (ls ! i) \<Longrightarrow> \<exists>j < i. p \<in> set (ls ! j)"
    and "0 < i \<Longrightarrow> i < length ls \<Longrightarrow> c \<in> set (ls ! i) \<Longrightarrow> \<exists>p. (p, c) \<in> set edges \<and> p \<in> set (ls ! (i - 1))"
    and "(p, c) \<in> set edges \<Longrightarrow> precedes (concat ls) p c"
proof -
  have l: "layered (incoming uids edges) ls"
    using kahn_layers [OF assms(1)] incoming_closed [OF d e] by blast
  then show "distinct (concat ls)" and set: "set (concat ls) = set uids"
    by (simp_all add: layered_def)
  have mem: "(u, map fst (filter (\<lambda>(p, c). c = u) edges)) \<in> set (incoming uids edges)" if "u \<in> set uids" for u
    using that by (auto simp: incoming_def)
  have earlier: "\<exists>j < i. p \<in> set (ls ! j)" if "(p, c) \<in> set edges" "i < length ls" "c \<in> set (ls ! i)" for i p c
  proof -
    have "c \<in> set uids" using that(1) e by auto
    from l that(2,3) mem [OF this] that(1) show ?thesis by (force simp: layered_def)
  qed
  then show "(p, c) \<in> set edges \<Longrightarrow> i < length ls \<Longrightarrow> c \<in> set (ls ! i) \<Longrightarrow> \<exists>j < i. p \<in> set (ls ! j)"
    by blast
  show "\<exists>p. (p, c) \<in> set edges \<and> p \<in> set (ls ! (i - 1))" if "0 < i" "i < length ls" "c \<in> set (ls ! i)"
  proof -
    have "c \<in> set (concat ls)" using that(2,3) by (force simp: in_set_conv_nth)
    with set have "c \<in> set uids" by simp
    from l that mem [OF this] show ?thesis by (force simp: layered_def)
  qed
  show "precedes (concat ls) p c" if pc: "(p, c) \<in> set edges"
  proof -
    have "c \<in> set (concat ls)" using pc e set by auto
    then obtain i where i: "i < length ls" "c \<in> set (ls ! i)"
      by (metis UN_E in_set_conv_nth set_concat)
    with earlier [OF pc this] show ?thesis by (blast intro: precedes_levels)
  qed
qed

lemma kahn_cyclic:
  assumes d: "distinct uids" and e: "set edges \<subseteq> set uids \<times> set uids"
  shows "kahn (incoming uids edges) = None \<longleftrightarrow> \<not> acyclic (set edges)"
proof
  assume "kahn (incoming uids edges) = None"
  from kahn_stuck [OF this incoming_closed [OF d e]] obtain S where
    S: "S \<noteq> {}" "\<forall>u \<in> S. \<exists>deps. (u, deps) \<in> set (incoming uids edges) \<and> set deps \<inter> S \<noteq> {}"
    by auto
  have "\<exists>p \<in> S. (p, u) \<in> set edges" if u: "u \<in> S" for u
  proof -
    from S(2) u obtain deps where deps: "(u, deps) \<in> set (incoming uids edges)" "set deps \<inter> S \<noteq> {}"
      by blast
    with set_incoming [OF deps(1)] show ?thesis by auto
  qed
  note S = S(1) this
  show "\<not> acyclic (set edges)"
  proof
    assume "acyclic (set edges)"
    then have "wf (set edges)" by (simp add: finite_acyclic_wf)
    with S(1) obtain z where "z \<in> S" "\<And>y. (y, z) \<in> set edges \<Longrightarrow> y \<notin> S" by (metis ex_in_conv wfE_min)
    with S(2) show False by blast
  qed
next
  assume cyc: "\<not> acyclic (set edges)"
  show "kahn (incoming uids edges) = None"
  proof (cases "kahn (incoming uids edges)")
    case (Some ls)
    note t = kahn_topological [OF this d e]
    have "acyclic (set edges)" using t(1,5) by (rule precedes_acyclic)
    with cyc show ?thesis by simp
  qed
qed

end
