(* ===== verification/WorkflowProps.thy ===== *)
theory WorkflowProps
  imports WorkflowOrder
begin

text \<open>
  Correctness of the workflow compiler: the canonical order and the levels, rejection of
  exactly the cyclic graphs, one unit per node, and independence of the artifact from the
  order in which a plan lists its nodes and edges.
\<close>

section \<open>Nodes become units\<close>

lemma nonempty_str_Some: "nonempty_str v = Some s \<longleftrightarrow> v = PyStr s \<and> s \<noteq> []"
  by (cases v) (auto simp: nonempty_str_def)

definition unit_of :: "digest \<Rightarrow> string \<Rightarrow> pyval \<Rightarrow> ws_unit" where
  "unit_of sha wid node =
     (let nid = node_key node; grp = projr (check_group nid node) in
      \<lparr>un_id = unit_id sha wid nid, un_node = nid, un_cap = py_str (py_get node ''capability_id'' PyNone),
       un_band = py_str (py_get node ''priority_band'' PyNone), un_gate = True,
       un_group = map_option fst grp, un_rank = map_option snd grp\<rparr>)"

lemma check_node_Inr:
  assumes "check_node b node = Inr (n, cap, band)"
  shows "py_get node ''node_id'' PyNone = PyStr n" and "n \<noteq> []" and "dget (bd_nodes b) n = None"
    and "py_get node ''capability_id'' PyNone = PyStr cap" and "cap \<noteq> []"
    and "py_get node ''priority_band'' PyNone = PyStr band" and "band \<in> set bands"
    and "\<not> names_provider node"
  using assms
  by (auto simp: check_node_def Let_def nonempty_str_Some split: option.splits if_splits)

lemma check_node_unique: "check_node b node = Inr (n, x) \<Longrightarrow> node_key node = n"
  by (cases x) (auto simp: node_key_def dest: check_node_Inr)

lemma add_node_Inr:
  assumes "add_node sha wid b node = Inr b'"
  shows "dget (bd_nodes b) (node_key node) = None"
    and "bd_nodes b' = bd_nodes b @ [(node_key node, unit_id sha wid (node_key node))]"
    and "bd_units b' = dset (unit_id sha wid (node_key node)) (unit_of sha wid node) (bd_units b)"
    and "node_key node \<noteq> []" and "py_get node ''node_id'' PyNone = PyStr (node_key node)"
    and "un_band (unit_of sha wid node) \<in> set bands"
proof -
  from assms obtain n cap band grp where c: "check_node b node = Inr (n, cap, band)" "check_group n node = Inr grp"
    and b': "bd_units b' = dset (unit_id sha wid n) \<lparr>un_id = unit_id sha wid n, un_node = n, un_cap = cap, un_band = band,
        un_gate = True, un_group = map_option fst grp, un_rank = map_option snd grp\<rparr> (bd_units b)"
      "bd_nodes b' = dset n (unit_id sha wid n) (bd_nodes b)"
    by (auto simp: add_node_def Let_def split: sum.splits prod.splits)
  note f = check_node_Inr [OF c(1)] and k = check_node_unique [OF c(1)]
  show "dget (bd_nodes b) (node_key node) = None" using f k by simp
  then show "bd_nodes b' = bd_nodes b @ [(node_key node, unit_id sha wid (node_key node))]"
    using b' k by (simp add: dset_fresh)
  show "bd_units b' = dset (unit_id sha wid (node_key node)) (unit_of sha wid node) (bd_units b)"
    using b' k f c(2) by (simp add: unit_of_def Let_def)
  show "node_key node \<noteq> []" using f k by simp
  show "py_get node ''node_id'' PyNone = PyStr (node_key node)" using f k by simp
  show "un_band (unit_of sha wid node) \<in> set bands" using f by (simp add: unit_of_def Let_def)
qed

text \<open>What the loop has built after a list of nodes.\<close>

definition built :: "digest \<Rightarrow> string \<Rightarrow> pyval list \<Rightarrow> ws_build \<Rightarrow> bool" where
  "built sha wid ns b \<longleftrightarrow>
     bd_nodes b = map (\<lambda>n. (node_key n, unit_id sha wid (node_key n))) ns \<and> distinct (map node_key ns)
     \<and> wf_dict (bd_units b) \<and> set (dkeys (bd_units b)) = unit_id sha wid ` node_key ` set ns
     \<and> (\<forall>n \<in> set ns. py_get n ''node_id'' PyNone = PyStr (node_key n) \<and> node_key n \<noteq> []
          \<and> un_band (unit_of sha wid n) \<in> set bands)
     \<and> (inj_on (unit_id sha wid) (node_key ` set ns) \<longrightarrow>
          (\<forall>n \<in> set ns. dget (bd_units b) (unit_id sha wid (node_key n)) = Some (unit_of sha wid n)))"

lemma built_add:
  assumes b: "built sha wid ns b" and a: "add_node sha wid b node = Inr b'"
  shows "built sha wid (ns @ [node]) b'"
proof -
  note s = add_node_Inr [OF a]
  have fresh: "node_key node \<notin> node_key ` set ns"
    using s(1) b by (auto simp: built_def map_of_eq_None_iff image_image)
  have old: "dget (bd_units b') (unit_id sha wid (node_key n)) = Some (unit_of sha wid n)"
    if i: "inj_on (unit_id sha wid) (node_key ` set (ns @ [node]))" and n: "n \<in> set (ns @ [node])" for n
  proof (cases "n \<in> set ns")
    case True
    have "inj_on (unit_id sha wid) (node_key ` set ns)" using i by (rule inj_on_subset) auto
    with b True have "dget (bd_units b) (unit_id sha wid (node_key n)) = Some (unit_of sha wid n)"
      by (simp add: built_def)
    moreover have "unit_id sha wid (node_key n) \<noteq> unit_id sha wid (node_key node)"
    proof
      assume "unit_id sha wid (node_key n) = unit_id sha wid (node_key node)"
      from i this have "node_key n = node_key node" by (rule inj_onD) (use True in auto)
      with fresh True show False by (metis imageI)
    qed
    ultimately show ?thesis by (simp add: s(3) dict_simps)
  next
    case False
    with n have "n = node" by simp
    then show ?thesis by (simp add: s(3) dict_simps)
  qed
  have w: "wf_dict (bd_units b')" and k: "set (dkeys (bd_units b')) = unit_id sha wid ` node_key ` set (ns @ [node])"
    using b by (simp_all add: built_def s(3) dom_update image_insert)
  show ?thesis
    unfolding built_def using b fresh w k old s by (auto simp: built_def)
qed

lemma built_foldm:
  "foldm (add_node sha wid) b ns = Inr b' \<Longrightarrow> built sha wid ms b \<Longrightarrow> built sha wid (ms @ ns) b'"
proof (induction ns arbitrary: b ms)
  case (Cons n ns)
  from Cons.prems(1) obtain b1 where b1: "add_node sha wid b n = Inr b1" "foldm (add_node sha wid) b1 ns = Inr b'"
    by (auto split: sum.splits)
  from Cons.IH [OF b1(2) built_add [OF Cons.prems(2) b1(1)]] show ?case by simp
qed simp

lemma built_none: "built sha wid [] no_build"
  by (simp add: built_def no_build_def)

lemma read_nodes_built:
  assumes "read_nodes sha wid ns = Inr b"
  shows "built sha wid (sort_key node_key ns) b" and "list_all is_dict ns"
  using assms built_foldm [OF _ built_none, of sha wid "sort_key node_key ns" b]
  by (auto simp: read_nodes_def list_ex_iff list_all_iff split: if_splits)

section \<open>Edges\<close>

lemma node_ref_Inr: "node_ref nodes v = Inr (Some u) \<longleftrightarrow> (\<exists>a. v = PyStr a \<and> dget nodes a = Some u)"
  by (cases v) (auto simp: node_ref_def split: if_splits)

lemma resolve_edge_Inr:
  "resolve_edge nodes edge = Inr (p, c) \<longleftrightarrow>
     (\<exists>a b. edge = PyList [PyStr a, PyStr b] \<and> dget nodes a = Some p \<and> dget nodes b = Some c)"
proof (cases "\<exists>x y. edge = PyList [x, y]")
  case True
  then obtain x y where e: "edge = PyList [x, y]" by blast
  then show ?thesis
    using node_ref_Inr [of nodes x p] node_ref_Inr [of nodes y c]
    by (simp add: resolve_edge_def Let_def split: sum.splits option.splits) auto
next
  case False
  then have "\<exists>e. resolve_edge nodes edge = Inl e"
    by (auto simp: resolve_edge_def Let_def split: pyval.splits list.splits)
  with False show ?thesis by auto
qed

lemma add_edges_Inr:
  "foldm (add_edge nodes) seen es = Inr ps \<longleftrightarrow>
     (\<exists>qs. map (resolve_edge nodes) es = map Inr qs \<and> ps = seen @ qs \<and> distinct qs
        \<and> set qs \<inter> set seen = {} \<and> (\<forall>(p, c) \<in> set qs. p \<noteq> c))"
proof (induction es arbitrary: seen)
  case (Cons e es)
  show ?case
  proof (cases "resolve_edge nodes e")
    case (Inl x)
    then show ?thesis by (auto simp: add_edge_def Cons_eq_map_conv)
  next
    case (Inr pc)
    obtain p c where pc: "pc = (p, c)" by fastforce
    show ?thesis
    proof (cases "(p, c) \<in> set seen \<or> p = c")
      case True
      with Inr pc show ?thesis by (auto simp: add_edge_def Cons_eq_map_conv)
    next
      case False
      then have "foldm (add_edge nodes) seen (e # es) = Inr ps \<longleftrightarrow>
          foldm (add_edge nodes) (seen @ [(p, c)]) es = Inr ps"
        using Inr pc by (simp add: add_edge_def)
      also have "\<dots> \<longleftrightarrow> (\<exists>qs. map (resolve_edge nodes) es = map Inr qs \<and> ps = (seen @ [(p, c)]) @ qs
          \<and> distinct qs \<and> set qs \<inter> set (seen @ [(p, c)]) = {} \<and> (\<forall>(p, c) \<in> set qs. p \<noteq> c))"
        by (rule Cons.IH)
      also have "\<dots> \<longleftrightarrow> (\<exists>qs. map (resolve_edge nodes) (e # es) = map Inr ((p, c) # qs) \<and> ps = seen @ ((p, c) # qs)
          \<and> distinct ((p, c) # qs) \<and> set ((p, c) # qs) \<inter> set seen = {} \<and> (\<forall>(p, c) \<in> set ((p, c) # qs). p \<noteq> c))"
        using False Inr pc by auto
      also have "\<dots> \<longleftrightarrow> (\<exists>qs. map (resolve_edge nodes) (e # es) = map Inr qs \<and> ps = seen @ qs
          \<and> distinct qs \<and> set qs \<inter> set seen = {} \<and> (\<forall>(p, c) \<in> set qs. p \<noteq> c))"
        using Inr pc by (auto simp: Cons_eq_map_conv)
      finally show ?thesis .
    qed
  qed
qed auto

lemma read_edges_Inr:
  "read_edges nodes edges = Inr ps \<longleftrightarrow>
     (\<exists>es qs. iterated edges = Some es \<and> map (resolve_edge nodes) es = map Inr qs \<and> distinct qs
        \<and> (\<forall>(p, c) \<in> set qs. p \<noteq> c) \<and> ps = sort qs)"
proof -
  have "read_edges nodes edges = Inr ps \<longleftrightarrow>
      (\<exists>es qs. iterated edges = Some es \<and> foldm (add_edge nodes) [] es = Inr qs \<and> ps = sort qs)"
    by (auto simp: read_edges_def split: option.splits sum.splits)
  then show ?thesis by (simp add: add_edges_Inr)
qed

section \<open>What reading a graph gives\<close>

lemma read_graph_Inr:
  assumes "read_graph sha graph config = Inr ((plan, version, wid), b, es)"
  obtains ns where "py_get graph ''nodes'' PyNone = PyList ns" and "built sha wid (sort_key node_key ns) b"
    and "list_all is_dict ns"
    and "read_edges (bd_nodes b) (py_get graph ''requires_edges'' (PyList [])) = Inr es"
proof -
  from assms obtain n ns where ns: "py_get graph ''nodes'' PyNone = PyList (n # ns)"
      and b: "read_nodes sha wid (n # ns) = Inr b"
      and es: "read_edges (bd_nodes b) (py_get graph ''requires_edges'' (PyList [])) = Inr es"
    by (auto simp: read_graph_def Let_def split: if_splits sum.splits pyval.splits list.splits prod.splits)
  show thesis by (rule that [OF ns read_nodes_built [OF b] es])
qed

lemma read_graph_edges:
  assumes "read_graph sha graph config = Inr (origin, b, es)"
  shows "distinct (dkeys (bd_units b))"
    and "set es \<subseteq> set (dkeys (bd_units b)) \<times> set (dkeys (bd_units b))"
proof -
  obtain plan version wid where o: "origin = (plan, version, wid)" by (cases origin)
  from assms [unfolded o] obtain ns where ns: "built sha wid (sort_key node_key ns) b"
      "read_edges (bd_nodes b) (py_get graph ''requires_edges'' (PyList [])) = Inr es"
    by (rule read_graph_Inr)
  then show "distinct (dkeys (bd_units b))" by (simp add: built_def wf_dict_def)
  have known: "u \<in> set (dkeys (bd_units b))" if "dget (bd_nodes b) a = Some u" for a u
    using map_of_SomeD [OF that] ns(1) by (auto simp: built_def)
  have "p \<in> set (dkeys (bd_units b)) \<and> c \<in> set (dkeys (bd_units b))" if pc: "(p, c) \<in> set es" for p c
  proof -
    from ns(2) obtain xs qs where "map (resolve_edge (bd_nodes b)) xs = map Inr qs" "es = sort qs"
      by (auto simp: read_edges_Inr)
    with pc have "Inr (p, c) \<in> resolve_edge (bd_nodes b) ` set xs"
      by (metis image_eqI list.set_map set_sort)
    then obtain e where "resolve_edge (bd_nodes b) e = Inr (p, c)" by (metis imageE)
    then show ?thesis by (metis known resolve_edge_Inr)
  qed
  then show "set es \<subseteq> set (dkeys (bd_units b)) \<times> set (dkeys (bd_units b))" by auto
qed

lemma compile_Inr:
  assumes "compile_workflow sha graph config = Inr flow"
  obtains origin b es where "read_graph sha graph config = Inr (origin, b, es)"
    and "kahn (incoming (dkeys (bd_units b)) es) = Some (wf_levels flow)"
    and "flow = assemble sha config origin b es (wf_levels flow)"
  using assms by (auto simp: compile_workflow_def assemble_def Let_def split: sum.splits prod.splits option.splits)

lemma assemble_fields [simp]:
  "wf_units (assemble sha config origin b es ls) = bd_units b"
  "wf_edges (assemble sha config origin b es ls) = es"
  "wf_order (assemble sha config origin b es ls) = concat ls"
  "wf_levels (assemble sha config origin b es ls) = ls"
  "wf_id (assemble sha config origin b es ls) = snd (snd origin)"
  "wf_groups (assemble sha config origin b es ls) = map (\<lambda>(g, us). (g, ranked (bd_units b) us)) (bd_groups b)"
  by (simp_all add: assemble_def Let_def split: prod.splits)

section \<open>Order of the plan\<close>

text \<open>A graph as a mapping whose node and edge lists are given.\<close>

definition graph_with :: "payload \<Rightarrow> pyval list \<Rightarrow> pyval list \<Rightarrow> pyval" where
  "graph_with d ns es = PyDict (dset ''requires_edges'' (PyList es) (dset ''nodes'' (PyList ns) d))"

lemma graph_with_get [simp]:
  "py_get (graph_with d ns es) ''nodes'' v = PyList ns"
  "py_get (graph_with d ns es) ''requires_edges'' v = PyList es"
  "is_dict (graph_with d ns es)"
  by (simp_all add: graph_with_def dict_simps)

lemma graph_with_ids [simp]: "plan_ids (graph_with d ns es) = plan_ids (PyDict d)"
proof -
  have *: "py_get (graph_with d ns es) ''plan_artifact_id'' v = py_get (PyDict d) ''plan_artifact_id'' v"
    "py_get (graph_with d ns es) ''plan_version'' v = py_get (PyDict d) ''plan_version'' v" for v
    by (simp_all add: graph_with_def dict_simps)
  show ?thesis unfolding plan_ids_def * ..
qed

lemma distinct_filter_single:
  assumes "inj_on f (set xs)" and "distinct xs" and "k \<in> set xs"
  shows "filter (\<lambda>x. f k = f x) xs = [k]"
proof -
  have "filter (\<lambda>x. f k = f x) xs = filter (\<lambda>x. k = x) xs"
    using assms(1,3) by (intro filter_cong) (auto dest: inj_onD)
  also have "\<dots> = [k]" using assms(2,3) by (induction xs) (auto simp: filter_empty_conv)
  finally show ?thesis .
qed

lemma sort_key_mset:
  assumes "mset ns' = mset ns" and "distinct (map f ns)"
  shows "sort_key f ns' = sort_key f ns"
proof (rule properties_for_sort_key)
  show "mset (sort_key f ns) = mset ns'" using assms(1) by simp
  have "distinct ns" and "inj_on f (set ns)" using assms(2) by (simp_all add: distinct_map)
  moreover have "set ns' = set ns" using assms(1) by (rule mset_eq_setD)
  moreover have "distinct ns'" using assms(1) \<open>distinct ns\<close> by (metis mset_eq_imp_distinct_iff)
  ultimately have d: "filter (\<lambda>x. f k = f x) xs = [k]" if "k \<in> set ns" "mset xs = mset ns" for k xs
    using that distinct_filter_single [of f xs k]
    by (metis mset_eq_imp_distinct_iff mset_eq_setD)
  show "filter (\<lambda>x. f k = f x) (sort_key f ns) = filter (\<lambda>x. f k = f x) ns'" if "k \<in> set (sort_key f ns)" for k
    using that d [of k "sort_key f ns"] d [of k ns'] assms(1) by simp
qed simp

lemma read_graph_with:
  "read_graph sha (graph_with d ns es) config =
     (case plan_ids (PyDict d) of
        Inl e \<Rightarrow> Inl e
      | Inr (plan, version, v) \<Rightarrow>
          (if ns = [] then Inl (WorkflowRejected ''ws.no_nodes'')
           else case read_nodes sha (workflow_id sha plan v config) ns of
             Inl e \<Rightarrow> Inl e
           | Inr b \<Rightarrow> (case read_edges (bd_nodes b) (PyList es) of
                 Inl e \<Rightarrow> Inl e
               | Inr ps \<Rightarrow> Inr ((plan, version, workflow_id sha plan v config), b, ps))))"
  unfolding read_graph_def graph_with_get graph_with_ids by (cases ns) (auto split: sum.splits)

lemma read_nodes_mset:
  assumes "read_nodes sha wid ns = Inr b" and m: "mset ns' = mset ns"
  shows "read_nodes sha wid ns' = Inr b"
proof -
  have "distinct (map node_key (sort_key node_key ns))"
    using read_nodes_built(1) [OF assms(1)] by (simp add: built_def)
  then have "distinct (map node_key ns)"
    by (metis mset_eq_imp_distinct_iff mset_map mset_sort)
  from sort_key_mset [OF m this] assms mset_eq_setD [OF m] show ?thesis
    by (simp add: read_nodes_def list_ex_iff split: if_splits)
qed

lemma read_edges_mset:
  assumes "read_edges nodes (PyList es) = Inr ps" and m: "mset es' = mset es"
  shows "read_edges nodes (PyList es') = Inr ps"
proof -
  from assms(1) obtain qs where q: "map (resolve_edge nodes) es = map Inr qs" "distinct qs"
      "\<forall>(p, c) \<in> set qs. p \<noteq> c" "ps = sort qs"
    by (auto simp: read_edges_Inr)
  define qs' where "qs' = map (projr \<circ> resolve_edge nodes) es'"
  have "resolve_edge nodes e \<in> Inr ` set qs" if "e \<in> set es'" for e
    using that q(1) mset_eq_setD [OF m] by (metis image_eqI list.set_map)
  then have m1: "map (resolve_edge nodes) es' = map Inr qs'"
    by (force simp: qs'_def)
  have "mset (map Inr qs') = (mset (map Inr qs) :: (ws_exn + _) multiset)"
    using m1 q(1) m by (metis mset_map)
  then have m2: "mset qs' = mset qs"
    by (metis inj_Inr mset_map multiset.inj_map_strong injD)
  have "sort qs' = sort qs"
    by (rule properties_for_sort) (simp_all add: m2)
  moreover have "distinct qs'" "set qs' = set qs"
    using q(2) m2 by (metis mset_eq_imp_distinct_iff, metis mset_eq_setD)
  ultimately show ?thesis using q m1 by (auto simp: read_edges_Inr)
qed

lemma read_graph_mset:
  assumes "read_graph sha (graph_with d ns es) config = Inr r" and "mset ns' = mset ns" and "mset es' = mset es"
  shows "read_graph sha (graph_with d ns' es') config = Inr r"
proof -
  from assms(1) obtain plan version v b ps where "plan_ids (PyDict d) = Inr (plan, version, v)" "ns \<noteq> []"
      "read_nodes sha (workflow_id sha plan v config) ns = Inr b" "read_edges (bd_nodes b) (PyList es) = Inr ps"
      "r = ((plan, version, workflow_id sha plan v config), b, ps)"
    by (auto simp: read_graph_with split: sum.splits prod.splits if_splits)
  moreover from this(2) assms(2) have "ns' \<noteq> []" by auto
  ultimately show ?thesis
    using read_nodes_mset [OF _ assms(2)] read_edges_mset [OF _ assms(3)] by (simp add: read_graph_with)
qed

section \<open>A small plan\<close>

definition demo_sha :: digest where
  "demo_sha s = of_char (last s) mod 16 * 16 ^ 63"

lemma hex_str_shift: "0 < n \<Longrightarrow> hex_str (n * 16 ^ k) = hex_str n @ replicate k (CHR ''0'')"
proof (induction k)
  case (Suc k)
  have "hex_digit 0 = CHR ''0''" by code_simp
  moreover have "\<not> n * 16 ^ Suc k < 16" using Suc.prems by simp
  moreover have "n * 16 ^ Suc k div 16 = n * 16 ^ k" "n * 16 ^ Suc k mod 16 = 0" by simp_all
  ultimately show ?case
    using Suc by (simp only: hex_str.simps [of "n * 16 ^ Suc k"] if_False) (simp add: replicate_append_same)
qed simp

lemma demo_hexdigest:
  assumes "0 < (of_char (last s) :: nat) mod 16"
  shows "take 16 (hexdigest demo_sha s) = hex_digit (of_char (last s) mod 16) # replicate 15 (CHR ''0'')"
proof -
  have "hex_str (of_char (last s) mod 16) = [hex_digit (of_char (last s) mod 16)]"
    by (simp add: hex_str.simps [of "of_char (last s) mod 16"])
  with hex_str_shift [OF assms, of 63] show ?thesis
    by (simp add: hexdigest_def demo_sha_def pad_left_def)
qed

lemma demo_unit_ids [simp]:
  "unit_id demo_sha w ''n1'' = ''u-1000000000000000''"
  "unit_id demo_sha w ''n2'' = ''u-2000000000000000''"
  "unit_id demo_sha w ''n3'' = ''u-3000000000000000''"
proof -
  have "hex_digit 1 = CHR ''1''" "hex_digit 2 = CHR ''2''" "hex_digit 3 = CHR ''3''"
    "replicate 15 (CHR ''0'') = ''000000000000000''" by code_simp+
  then show "unit_id demo_sha w ''n1'' = ''u-1000000000000000''"
    "unit_id demo_sha w ''n2'' = ''u-2000000000000000''"
    "unit_id demo_sha w ''n3'' = ''u-3000000000000000''"
    by (simp_all add: unit_id_def demo_hexdigest)
qed

definition demo_node :: "string \<Rightarrow> string \<Rightarrow> pyval" where
  "demo_node n band = PyDict [(''node_id'', PyStr n), (''capability_id'', PyStr ''cap.build''), (''priority_band'', PyStr band)]"

definition demo_plan :: payload where
  "demo_plan = [(''plan_artifact_id'', PyStr ''plan-1''), (''plan_version'', PyInt 1)]"

definition demo_edge :: "string \<Rightarrow> string \<Rightarrow> pyval" where
  "demo_edge a b = PyList [PyStr a, PyStr b]"

lemma demo_checks:
  "check_group n (demo_node m band) = Inr None" "node_key (demo_node m band) = m"
  "\<not> names_provider (demo_node m band)"
  "is_dict (demo_node m band)"
  by (simp_all add: check_group_def demo_node_def node_key_def names_provider_def) code_simp

lemma demo_check_node:
  "m \<noteq> [] \<Longrightarrow> dget (bd_nodes b) m = None \<Longrightarrow> band \<in> set bands \<Longrightarrow> check_node b (demo_node m band) = Inr (m, ''cap.build'', band)"
  using demo_checks(3) [of m band] 
  by (auto simp: check_node_def demo_node_def nonempty_str_def)


lemma demo_fields:
  "py_get (demo_node m band) ''capability_id'' PyNone = PyStr ''cap.build''"
  "py_get (demo_node m band) ''priority_band'' PyNone = PyStr band"
  "py_get (demo_node m band) ''group_id'' PyNone = PyNone"
  by (simp_all add: demo_node_def)

lemma demo_add_node:
  assumes "m \<noteq> []" and "dget (bd_nodes b) m = None" and "band \<in> set bands"
  shows "add_node sha wid b (demo_node m band) =
    Inr \<lparr>bd_units = dset (unit_id sha wid m) (unit_of sha wid (demo_node m band)) (bd_units b),
         bd_nodes = dset m (unit_id sha wid m) (bd_nodes b), bd_groups = bd_groups b\<rparr>"
  using demo_check_node [OF assms] demo_checks(1) [of m m band] demo_checks(2) [of m band] demo_fields [of m band]
  by (simp add: add_node_def unit_of_def Let_def)

definition demo_nodes :: "pyval list" where
  "demo_nodes = [demo_node ''n2'' ''REQUIRED'', demo_node ''n1'' ''CRITICAL'', demo_node ''n3'' ''OPTIONAL'']"

definition demo_edges :: "pyval list" where
  "demo_edges = [demo_edge ''n1'' ''n3'', demo_edge ''n1'' ''n2'']"

lemma demo_sorted: "sort_key node_key demo_nodes =
    [demo_node ''n1'' ''CRITICAL'', demo_node ''n2'' ''REQUIRED'', demo_node ''n3'' ''OPTIONAL'']"
  by code_simp

lemma demo_bands: "''CRITICAL'' \<in> set bands" "''REQUIRED'' \<in> set bands" "''OPTIONAL'' \<in> set bands"
  by (simp_all add: bands_def)

lemma demo_read_nodes:
  "\<exists>b. read_nodes demo_sha wid demo_nodes = Inr b
     \<and> bd_nodes b = [(''n1'', ''u-1000000000000000''), (''n2'', ''u-2000000000000000''), (''n3'', ''u-3000000000000000'')]
     \<and> bd_units b = map (\<lambda>n. (unit_id demo_sha wid (node_key n), unit_of demo_sha wid n)) (sort_key node_key demo_nodes)
     \<and> bd_groups b = []"
  unfolding read_nodes_def demo_sorted
  by (simp add: demo_nodes_def demo_checks demo_add_node demo_bands no_build_def)

lemma demo_read_edges:
  assumes "bd_nodes b = [(''n1'', ''u-1000000000000000''), (''n2'', ''u-2000000000000000''), (''n3'', ''u-3000000000000000'')]"
  shows "read_edges (bd_nodes b) (PyList demo_edges) =
    Inr [(''u-1000000000000000'', ''u-2000000000000000''), (''u-1000000000000000'', ''u-3000000000000000'')]"
  unfolding assms by code_simp

lemma demo_kahn: "kahn (incoming [''u-1000000000000000'', ''u-2000000000000000'', ''u-3000000000000000'']
     [(''u-1000000000000000'', ''u-2000000000000000''), (''u-1000000000000000'', ''u-3000000000000000'')])
   = Some [[''u-1000000000000000''], [''u-2000000000000000'', ''u-3000000000000000'']]"
  by code_simp

lemma demo_compiles:
  obtains flow where "compile_workflow demo_sha (graph_with demo_plan demo_nodes demo_edges) 1 = Inr flow"
    and "wf_order flow = [''u-1000000000000000'', ''u-2000000000000000'', ''u-3000000000000000'']"
    and "wf_edges flow = [(''u-1000000000000000'', ''u-2000000000000000''), (''u-1000000000000000'', ''u-3000000000000000'')]"
    and "wf_units flow = map (\<lambda>n. (unit_id demo_sha (wf_id flow) (node_key n), unit_of demo_sha (wf_id flow) n)) (sort_key node_key demo_nodes)"
    and "wf_groups flow = []"
proof -
  obtain wid where wid: "plan_ids (PyDict demo_plan) = Inr (''plan-1'', PyInt 1, 1)" "wid = workflow_id demo_sha ''plan-1'' 1 1"
    by (simp add: plan_ids_def demo_plan_def nonempty_str_def)
  obtain b where b: "read_nodes demo_sha wid demo_nodes = Inr b"
     "bd_nodes b = [(''n1'', ''u-1000000000000000''), (''n2'', ''u-2000000000000000''), (''n3'', ''u-3000000000000000'')]"
     "bd_units b = map (\<lambda>n. (unit_id demo_sha wid (node_key n), unit_of demo_sha wid n)) (sort_key node_key demo_nodes)"
     "bd_groups b = []"
    using demo_read_nodes by blast
  have "dkeys (bd_units b) = [''u-1000000000000000'', ''u-2000000000000000'', ''u-3000000000000000'']"
    by (simp add: b(3) demo_sorted demo_checks)
  moreover have "demo_nodes \<noteq> []" by (simp add: demo_nodes_def)
  ultimately have c: "compile_workflow demo_sha (graph_with demo_plan demo_nodes demo_edges) 1 =
      Inr (assemble demo_sha 1 (''plan-1'', PyInt 1, wid) b
        [(''u-1000000000000000'', ''u-2000000000000000''), (''u-1000000000000000'', ''u-3000000000000000'')]
        [[''u-1000000000000000''], [''u-2000000000000000'', ''u-3000000000000000'']])"
    using wid b(1) demo_read_edges [OF b(2)] demo_kahn
    by (simp add: compile_workflow_def read_graph_with)
  show thesis by (rule that [OF c]) (simp_all add: b(3,4))
qed

section \<open>The properties\<close>

text \<open>
  C17: the canonical order of a compiled workflow lists every unit exactly once and after all
  its predecessors; it is the concatenation of the levels, every predecessor is in an earlier
  level, and a unit beyond the first level has a predecessor in the level just before.
\<close>

theorem compiled_order_topological:
  assumes "compile_workflow sha graph config = Inr flow"
  shows "distinct (wf_order flow) \<and> set (wf_order flow) = set (dkeys (wf_units flow))
    \<and> wf_order flow = concat (wf_levels flow)
    \<and> (\<forall>(p, c) \<in> set (wf_edges flow). precedes (wf_order flow) p c)
    \<and> (\<forall>i < length (wf_levels flow). \<forall>c \<in> set (wf_levels flow ! i).
         (\<forall>p. (p, c) \<in> set (wf_edges flow) \<longrightarrow> (\<exists>j < i. p \<in> set (wf_levels flow ! j)))
         \<and> (0 < i \<longrightarrow> (\<exists>p. (p, c) \<in> set (wf_edges flow) \<and> p \<in> set (wf_levels flow ! (i - 1)))))"
proof -
  from assms obtain origin b es where r: "read_graph sha graph config = Inr (origin, b, es)"
      and k: "kahn (incoming (dkeys (bd_units b)) es) = Some (wf_levels flow)"
      and f: "flow = assemble sha config origin b es (wf_levels flow)"
    by (rule compile_Inr)
  have "wf_units flow = bd_units b" "wf_edges flow = es" "wf_order flow = concat (wf_levels flow)"
    using f by (metis assemble_fields)+
  then show ?thesis using kahn_topological [OF k read_graph_edges [OF r]] by auto
qed

lemma plan_errors:
  "plan_ids graph = Inl e \<Longrightarrow> e \<noteq> WorkflowRejected ''ws.cycle_detected''"
  by (auto simp: plan_ids_def split: option.splits)

lemma node_errors:
  "add_node sha wid b node = Inl e \<Longrightarrow> e \<noteq> WorkflowRejected ''ws.cycle_detected''"
  by (auto simp: add_node_def check_node_def check_group_def Let_def
        split: option.splits if_splits pyval.splits sum.splits prod.splits)

lemma edge_errors:
  "add_edge nodes seen edge = Inl e \<Longrightarrow> e \<noteq> WorkflowRejected ''ws.cycle_detected''"
  by (auto simp: add_edge_def resolve_edge_def node_ref_def Let_def
        split: option.splits if_splits pyval.splits sum.splits prod.splits list.splits)

lemma foldm_error:
  "foldm f s xs = Inl e \<Longrightarrow> \<exists>t x. f t x = Inl e"
  by (induction xs arbitrary: s) (auto split: sum.splits)

lemma read_graph_errors: "read_graph sha graph config \<noteq> Inl (WorkflowRejected ''ws.cycle_detected'')"
  by (auto simp: read_graph_def read_nodes_def read_edges_def Let_def
        dest!: foldm_error dest: plan_errors node_errors edge_errors
        split: option.splits if_splits pyval.splits sum.splits prod.splits list.splits)

text \<open>
  Compilation stops with a cycle exactly for the graphs whose nodes and edges are
  accepted and whose edges have a cycle.
\<close>

theorem cyclic_plans_rejected:
  "compile_workflow sha graph config = Inl (WorkflowRejected ''ws.cycle_detected'') \<longleftrightarrow>
     (\<exists>origin b es. read_graph sha graph config = Inr (origin, b, es) \<and> \<not> acyclic (set es))"
proof (cases "read_graph sha graph config")
  case (Inl e)
  with read_graph_errors show ?thesis by (auto simp: compile_workflow_def)
next
  case (Inr r)
  obtain plan version wid b es where r: "r = ((plan, version, wid), b, es)" by (metis surj_pair)
  show ?thesis
    using kahn_cyclic [OF read_graph_edges [OF Inr [unfolded r]]] Inr
    by (auto simp: compile_workflow_def r split: option.splits)
qed

text \<open>
  C18: when the sixteen hexadecimal digits keep the node ids apart, a compiled workflow has
  exactly one unit per node, made of that node's own fields, and exactly the plan's edges over
  the unit ids.
\<close>

theorem units_match_plan:
  assumes "compile_workflow sha (graph_with d ns es) config = Inr flow"
    and "inj_on (unit_id sha (wf_id flow)) (node_key ` set ns)"
  shows "length (wf_units flow) = length ns
    \<and> (\<forall>n \<in> set ns. dget (wf_units flow) (unit_id sha (wf_id flow) (node_key n)) = Some (unit_of sha (wf_id flow) n))
    \<and> length (wf_edges flow) = length es
    \<and> (\<forall>e \<in> set es. \<exists>a b. e = PyList [PyStr a, PyStr b]
         \<and> (unit_id sha (wf_id flow) a, unit_id sha (wf_id flow) b) \<in> set (wf_edges flow))"
proof -
  from assms(1) obtain origin b ps where r: "read_graph sha (graph_with d ns es) config = Inr (origin, b, ps)"
      and f: "flow = assemble sha config origin b ps (wf_levels flow)"
    by (rule compile_Inr)
  obtain plan version wid where o: "origin = (plan, version, wid)" by (cases origin)
  have flow: "wf_units flow = bd_units b" "wf_edges flow = ps" "wf_id flow = wid"
    using f o by (metis assemble_fields(1), metis assemble_fields(2), metis assemble_fields(5) snd_conv)
  from r [unfolded o] have b: "built sha wid (sort_key node_key ns) b"
      and e: "read_edges (bd_nodes b) (PyList es) = Inr ps"
    by (auto elim!: read_graph_Inr)
  have inj: "inj_on (unit_id sha wid) (node_key ` set ns)" using assms(2) flow(3) by simp
  from e obtain qs where q: "map (resolve_edge (bd_nodes b)) es = map Inr qs" "ps = sort qs"
    by (auto simp: read_edges_Inr)
  have "length qs = length es" using q(1) by (metis length_map)
  then have "length ps = length es" using q(2) by simp
  moreover have "\<exists>x y. e = PyList [PyStr x, PyStr y] \<and> (unit_id sha wid x, unit_id sha wid y) \<in> set ps"
    if "e \<in> set es" for e
  proof -
    have "resolve_edge (bd_nodes b) e \<in> Inr ` set qs" using that q(1) by (metis image_eqI list.set_map)
    then obtain p c where pc: "resolve_edge (bd_nodes b) e = Inr (p, c)" "(p, c) \<in> set ps" using q(2) by auto
    from pc(1) obtain x y where xy: "e = PyList [PyStr x, PyStr y]" "dget (bd_nodes b) x = Some p" "dget (bd_nodes b) y = Some c"
      by (auto simp: resolve_edge_Inr)
    have "dget (bd_nodes b) a = Some u \<Longrightarrow> u = unit_id sha wid a" for a u
      using b by (auto simp: built_def dest: map_of_SomeD)
    with pc xy show ?thesis by auto
  qed
  moreover have "length (bd_units b) = length ns"
  proof -
    have "distinct (dkeys (bd_units b))" using b by (simp add: built_def wf_dict_def)
    then have "card (set (dkeys (bd_units b))) = length (bd_units b)" by (metis distinct_card length_map)
    then have "length (bd_units b) = card (set (dkeys (bd_units b)))" ..
    also have "\<dots> = card (node_key ` set ns)" using b inj by (simp add: built_def card_image)
    also have "\<dots> = card (set (map node_key (sort_key node_key ns)))" by simp
    also have "\<dots> = length (map node_key (sort_key node_key ns))"
      using b by (intro distinct_card) (simp add: built_def)
    finally show ?thesis by simp
  qed
  moreover have "\<forall>n \<in> set ns. dget (bd_units b) (unit_id sha wid (node_key n)) = Some (unit_of sha wid n)"
    using b inj by (simp add: built_def)
  ultimately show ?thesis by (simp add: flow)
qed

text \<open>
  C19: the artifact, its hash included, does not depend on the order in which the plan lists
  its nodes and its edges.
\<close>

theorem artifact_ignores_listing_order:
  assumes "compile_workflow sha (graph_with d ns es) config = Inr flow"
    and "mset ns' = mset ns" and "mset es' = mset es"
  shows "compile_workflow sha (graph_with d ns' es') config = Inr flow"
proof -
  from assms(1) obtain origin b ps where r: "read_graph sha (graph_with d ns es) config = Inr (origin, b, ps)"
    by (rule compile_Inr)
  from read_graph_mset [OF this assms(2,3)] r assms(1) show ?thesis by (simp add: compile_workflow_def)
qed


text \<open>The properties at the small plan.\<close>

lemma demo_kinds: "inj_on (unit_id demo_sha w) (node_key ` set demo_nodes)"
  by (auto simp: inj_on_def demo_nodes_def demo_checks)

theorem compiled_order_topological_witness:
  "\<exists>flow. compile_workflow demo_sha (graph_with demo_plan demo_nodes demo_edges) 1 = Inr flow
     \<and> set (wf_order flow) = set (dkeys (wf_units flow)) \<and> length (wf_edges flow) = 2
     \<and> (\<forall>(p, c) \<in> set (wf_edges flow). precedes (wf_order flow) p c)"
proof -
  obtain flow where f: "compile_workflow demo_sha (graph_with demo_plan demo_nodes demo_edges) 1 = Inr flow"
      "length (wf_edges flow) = 2"
    by (rule demo_compiles) auto
  from f compiled_order_topological [OF f(1)] show ?thesis by blast
qed

theorem units_match_plan_witness:
  "\<exists>flow. compile_workflow demo_sha (graph_with demo_plan demo_nodes demo_edges) 1 = Inr flow
     \<and> length (wf_units flow) = 3
     \<and> dget (wf_units flow) (unit_id demo_sha (wf_id flow) ''n1'') = Some (unit_of demo_sha (wf_id flow) (demo_node ''n1'' ''CRITICAL''))"
proof -
  obtain flow where f: "compile_workflow demo_sha (graph_with demo_plan demo_nodes demo_edges) 1 = Inr flow"
    by (rule demo_compiles)
  have "demo_node ''n1'' ''CRITICAL'' \<in> set demo_nodes" "length demo_nodes = 3" by (simp_all add: demo_nodes_def)
  with f units_match_plan [OF f demo_kinds] demo_checks(2) show ?thesis by metis
qed

theorem artifact_ignores_listing_order_witness:
  "\<exists>flow. compile_workflow demo_sha (graph_with demo_plan (rev demo_nodes) (rev demo_edges)) 1 = Inr flow
     \<and> wf_order flow = [''u-1000000000000000'', ''u-2000000000000000'', ''u-3000000000000000'']"
proof -
  obtain flow where f: "compile_workflow demo_sha (graph_with demo_plan demo_nodes demo_edges) 1 = Inr flow"
      "wf_order flow = [''u-1000000000000000'', ''u-2000000000000000'', ''u-3000000000000000'']"
    by (rule demo_compiles)
  have "mset (rev demo_nodes) = mset demo_nodes" "mset (rev demo_edges) = mset demo_edges" by simp_all
  from artifact_ignores_listing_order [OF f(1) this] f(2) show ?thesis by blast
qed

end
