(* ===== verification/SchedulerDrive.thy ===== *)
theory SchedulerDrive
  imports SchedulerInv WorkflowProps
begin

text \<open>
  The loop of \<open>system.py\<close> that drives a run to its end, and its progress: when the journal and
  the bus accept, every execution completes and every verdict passes, a compiled workflow
  without alternative groups completes after as many dispatches as it has units.
\<close>

text \<open>\<open>while run.status == ACTIVE\<close>, with the verdict on each completed execution (\<open>_verdict\<close>
  returns at once for any other: the dispatch has already failed the unit); fuel bounds the
  dispatches.\<close>

fun drive :: "('s, 'b, 'w) ws_wiring \<Rightarrow> (string \<Rightarrow> outcome \<Rightarrow> bool) \<Rightarrow> nat \<Rightarrow> ('s, 'b, 'w) ws_run
    \<Rightarrow> ('s, 'b, 'w) ws_run \<times> sched_exn option" where
  "drive W judge 0 r = (r, None)"
| "drive W judge (Suc n) r =
     (if sc_status r \<noteq> Some WfActive then (r, None)
      else case dispatch_next W r of
        (r', Inl e) \<Rightarrow> (r', Some e)
      | (r', Inr None) \<Rightarrow> (r', None)
      | (r', Inr (Some (uid, oc))) \<Rightarrow>
          (if oc_state oc \<noteq> Some Completed then drive W judge n r'
           else case on_verdict W uid (judge uid oc) r' of
             (r'', Some e) \<Rightarrow> (r'', Some e)
           | (r'', None) \<Rightarrow> drive W judge n r''))"

definition accepts :: "('s, 'b, 'w) ws_wiring \<Rightarrow> bool" where
  "accepts W \<longleftrightarrow>
     (\<forall>k i r. snd (ws_record W k i r) = None) \<and> (\<forall>n p u r. snd (ws_emit W n p u r) = None)"

definition completes :: "('s, 'b, 'w) ws_wiring \<Rightarrow> bool" where
  "completes W \<longleftrightarrow>
     (\<exists>exec. ww_exec W = Some exec \<and> (\<forall>b w u. \<exists>bw oc. exec b w u = (bw, Inr oc) \<and> oc_state oc = Some Completed))"

text \<open>The first \<open>k\<close> units of the canonical order have succeeded, the others are pending.\<close>

definition progress :: "workflow \<Rightarrow> nat \<Rightarrow> sched \<Rightarrow> bool" where
  "progress flow k r \<longleftrightarrow>
     sc_execok r = []
     \<and> sc_status r = Some (if k < length (wf_order flow) then WfActive else WfCompleted)
     \<and> (\<forall>u. dget (sc_units r) u =
          (if u \<in> set (take k (wf_order flow)) then Some USucceeded
           else if u \<in> set (wf_order flow) then Some UPending else None))"

definition plain_flow :: "workflow \<Rightarrow> bool" where
  "plain_flow flow \<longleftrightarrow>
     wf_order flow \<noteq> [] \<and> distinct (wf_order flow) \<and> set (wf_order flow) = set (dkeys (wf_units flow))
     \<and> (\<forall>(p, c) \<in> set (wf_edges flow). precedes (wf_order flow) p c)
     \<and> wf_groups flow = [] \<and> (\<forall>u \<in> set (wf_units flow). un_group (snd u) = None)"

lemma accepts_record: "accepts W \<Longrightarrow> \<exists>r'. ws_record W k i r = (r', None) \<and> core r' = core r \<and> wr_flow r' = wr_flow r"
  using ws_record_frame [of W k i r] unfolding accepts_def by (metis prod.collapse)

lemma accepts_emit: "accepts W \<Longrightarrow> \<exists>r'. ws_emit W n p u r = (r', None) \<and> core r' = core r \<and> wr_flow r' = wr_flow r"
  using ws_emit_frame [of W n p u r] unfolding accepts_def by (metis prod.collapse)

text \<open>What settling makes of the state when nothing raises.\<close>

definition settled :: "workflow \<Rightarrow> sched \<Rightarrow> sched" where
  "settled flow s =
    (if sc_status s \<noteq> Some WfActive then s
     else if some_blocking_failed flow s then s\<lparr>sc_status := Some WfStalled\<rparr>
     else if list_all (unit_done s) (dkeys (wf_units flow)) then s\<lparr>sc_status := Some WfCompleted\<rparr>
     else s)"

lemma accepts_settle:
  assumes "accepts W"
  shows "\<exists>r'. ws_settle W r = (r', None) \<and> wr_flow r' = wr_flow r \<and> core r' = settled (wr_flow r) (core r)"
  using accepts_record [OF assms, of "''workflow_terminal''" _ "r\<lparr>sc_status := Some WfStalled\<rparr>"]
    accepts_record [OF assms, of "''workflow_terminal''" _ "r\<lparr>sc_status := Some WfCompleted\<rparr>"]
  unfolding ws_settle_def settled_def by auto

lemma accepts_succeeded:
  assumes a: "accepts W" and u: "dget (sc_units r) u = Some UExecuting"
  obtains r' where "ws_terminal W u USucceeded r = (r', None)" and "wr_flow r' = wr_flow r"
    and "core r' = settled (wr_flow r) ((core r)\<lparr>sc_units := dset u USucceeded (sc_units r)\<rparr>)"
proof -
  let ?r0 = "r\<lparr>sc_units := dset u USucceeded (sc_units r)\<rparr>"
  obtain r1 where r1: "ws_record W ''terminal'' [(''unit'', PyStr u), (''outcome'', PyStr (unit_state_name USucceeded))] ?r0 = (r1, None)"
      "core r1 = core ?r0" "wr_flow r1 = wr_flow r"
    using accepts_record [OF a, of "''terminal''" _ ?r0] by auto
  obtain r2 where r2: "ws_emit W ''task.completed'' [(''unit_id'', PyStr u), (''outcome'', PyStr (unit_state_name USucceeded))] (Some u) r1 = (r2, None)"
      "core r2 = core ?r0" "wr_flow r2 = wr_flow r"
    using accepts_emit [OF a, of _ _ _ r1] r1(2,3) by metis
  obtain r3 where r3: "ws_settle W r2 = (r3, None)" "wr_flow r3 = wr_flow r" "core r3 = settled (wr_flow r) (core ?r0)"
    using accepts_settle [OF a, of r2] r2(2,3) by metis
  have "ws_terminal W u USucceeded r = (r3, None)"
    using u r1(1) r2(1) r3(1) by (simp add: ws_terminal_def unit_terminal_def assign_def)
  with r3(2,3) show thesis by (intro that) simp_all
qed

section \<open>One round\<close>

lemma precedes_take: "distinct xs \<Longrightarrow> k < length xs \<Longrightarrow> precedes xs p (xs ! k) \<Longrightarrow> p \<in> set (take k xs)"
proof (induction xs arbitrary: k)
  case (Cons x xs)
  show ?case
  proof (cases k)
    case 0
    with Cons.prems show ?thesis using precedes_set [of xs p x] by (auto split: if_splits)
  next
    case (Suc m)
    with Cons show ?thesis by (auto split: if_splits)
  qed
qed simp

lemma take_Suc_set: "k < length xs \<Longrightarrow> set (take (Suc k) xs) = insert (xs ! k) (set (take k xs))"
  by (simp add: take_Suc_conv_app_nth)

lemma nth_not_take: "distinct xs \<Longrightarrow> k < length xs \<Longrightarrow> xs ! k \<notin> set (take k xs)"
  by (metis Cons_nth_drop_Suc append_take_drop_id disjoint_insert(1) distinct_append list.simps(15))

lemma progress_ready:
  assumes f: "plain_flow flow" and p: "progress flow k s" and k: "k < length (wf_order flow)"
  obtains us where "ready flow s = wf_order flow ! k # us"
proof -
  let ?o = "wf_order flow" and ?u = "wf_order flow ! k"
  have d: "distinct ?o" and e: "\<forall>(p, c) \<in> set (wf_edges flow). precedes ?o p c"
    and un: "set ?o = set (dkeys (wf_units flow))" "\<forall>u \<in> set (wf_units flow). un_group (snd u) = None"
    using f by (simp_all add: plain_flow_def)
  have st: "dget (sc_units s) u = (if u \<in> set (take k ?o) then Some USucceeded
      else if u \<in> set ?o then Some UPending else None)" for u
    using p by (simp add: progress_def)
  have before: "filter (unit_ready flow s) (take k ?o) = []"
    using st by (auto simp: filter_empty_conv unit_ready_def)
  have "unit_ready flow s ?u"
  proof -
    have "dget (sc_units s) ?u = Some UPending" using st k nth_not_take [OF d k] by simp
    moreover have "branch_allows flow s ?u"
    proof -
      have "?u \<in> set (dkeys (wf_units flow))" using un(1) k by (metis nth_mem)
      then obtain x where x: "dget (wf_units flow) ?u = Some x"
        by (metis map_of_eq_None_iff not_None_eq list.set_map)
      with un(2) have "un_group x = None" by (metis map_of_SomeD snd_conv)
      with x show ?thesis by (simp add: branch_allows_def)
    qed
    moreover have "dget (sc_units s) q = Some USucceeded" if "q \<in> set (predecessors flow ?u)" for q
    proof -
      from that have "(q, ?u) \<in> set (wf_edges flow)" by (auto simp: predecessors_def)
      with e have "precedes ?o q ?u" by blast
      with st precedes_take [OF d k] show ?thesis by simp
    qed
    ultimately show ?thesis by (simp add: unit_ready_def list_all_iff)
  qed
  then have "filter (unit_ready flow s) (?u # drop (Suc k) ?o) = ?u # filter (unit_ready flow s) (drop (Suc k) ?o)"
    by simp
  with before k have "filter (unit_ready flow s) ?o = ?u # filter (unit_ready flow s) (drop (Suc k) ?o)"
    by (metis append_Nil append_take_drop_id Cons_nth_drop_Suc filter_append)
  moreover have "sc_status s = Some WfActive" using p k by (simp add: progress_def)
  ultimately show thesis by (intro that) (simp add: ready_def)
qed

lemma accepts_executed:
  assumes a: "accepts W" and u: "dget (sc_units r) u = Some UExecuting"
  obtains r' where "on_exec_result W u True r = (r', None)" and "wr_flow r' = wr_flow r"
    and "core r' = (core r)\<lparr>sc_execok := List.insert u (sc_execok r)\<rparr>"
proof -
  obtain r1 where r1: "ws_record W ''exec_result'' [(''unit'', PyStr u), (''ok'', PyBool True)] r = (r1, None)"
      "core r1 = core r" "wr_flow r1 = wr_flow r"
    using accepts_record [OF a] by blast
  let ?r2 = "r1\<lparr>sc_execok := List.insert u (sc_execok r1)\<rparr>"
  obtain r3 where r3: "ws_emit W ''verify.requested'' [(''unit_id'', PyStr u)] (Some u) ?r2 = (r3, None)"
      "core r3 = core ?r2" "wr_flow r3 = wr_flow ?r2"
    using accepts_emit [OF a] by blast
  have "sc_execok r1 = sc_execok r" using r1(2) by (metis core_fields(3))
  with r1 r3 u show thesis by (intro that [of r3]) (simp_all add: on_exec_result_def assign_def)
qed

lemma accepts_judged:
  assumes a: "accepts W" and u: "dget (sc_units r) u = Some UExecuting" and ok: "u \<in> set (sc_execok r)"
  obtains r' where "on_verdict W u True r = (r', None)" and "wr_flow r' = wr_flow r"
    and "core r' = settled (wr_flow r)
      ((core r)\<lparr>sc_execok := removeAll u (sc_execok r), sc_units := dset u USucceeded (sc_units r)\<rparr>)"
proof -
  let ?r0 = "r\<lparr>sc_execok := removeAll u (sc_execok r)\<rparr>"
  obtain r1 where r1: "ws_record W ''verdict'' [(''unit'', PyStr u), (''passed'', PyBool True)] ?r0 = (r1, None)"
      "core r1 = core ?r0" "wr_flow r1 = wr_flow ?r0"
    using accepts_record [OF a] by blast
  have "sc_units r1 = sc_units ?r0" using r1(2) by (metis core_fields(2))
  then have u1: "sc_units r1 = sc_units r" by simp
  from accepts_succeeded [OF a, of r1 u] u u1 obtain r2 where r2: "ws_terminal W u USucceeded r1 = (r2, None)"
      "wr_flow r2 = wr_flow r1" "core r2 = settled (wr_flow r1) ((core r1)\<lparr>sc_units := dset u USucceeded (sc_units r1)\<rparr>)"
    by auto
  with r1 u1 ok show thesis by (intro that [of r2]) (simp_all add: on_verdict_def assign_def)
qed

lemma accepts_dispatched:
  assumes a: "accepts W" and c: "completes W" and rd: "ready (wr_flow r) r = u # us"
    and un: "dget (wf_units (wr_flow r)) u = Some x"
  obtains r' oc where "dispatch_next W r = (r', Inr (Some (u, oc)))" and "oc_state oc = Some Completed"
    and "wr_flow r' = wr_flow r"
    and "core r' = (core r)\<lparr>sc_units := dset u UExecuting (sc_units r), sc_execok := List.insert u (sc_execok r)\<rparr>"
proof -
  let ?r0 = "r\<lparr>sc_units := dset u UExecuting (sc_units r)\<rparr>"
  obtain r1 where r1: "ws_record W ''dispatched'' [(''unit'', PyStr u)] ?r0 = (r1, None)"
      "core r1 = core ?r0" "wr_flow r1 = wr_flow ?r0"
    using accepts_record [OF a] by blast
  obtain r2 where r2: "ws_emit W ''task.started'' [(''unit_id'', PyStr u)] (Some u) r1 = (r2, None)"
      "core r2 = core r1" "wr_flow r2 = wr_flow r1"
    using accepts_emit [OF a] by blast
  obtain exec b w oc where e: "ww_exec W = Some exec" "exec (wr_bus r2) (wr_world r2) x = ((b, w), Inr oc)"
      "oc_state oc = Some Completed"
    using c unfolding completes_def by (metis prod.collapse)
  let ?r3 = "r2\<lparr>wr_bus := b, wr_world := w\<rparr>"
  have core3: "core ?r3 = (core r)\<lparr>sc_units := dset u UExecuting (sc_units r)\<rparr>" using r1 r2 by simp
  then have "sc_units (core ?r3) = dset u UExecuting (sc_units r)" by simp
  then have "dget (sc_units ?r3) u = Some UExecuting" by (simp add: dict_simps)
  from accepts_executed [OF a this] obtain r4 where r4: "on_exec_result W u True ?r3 = (r4, None)" "wr_flow r4 = wr_flow ?r3"
      "core r4 = (core ?r3)\<lparr>sc_execok := List.insert u (sc_execok ?r3)\<rparr>"
    by blast
  have "sc_execok (core ?r3) = sc_execok r" unfolding core3 by simp
  then have x3: "sc_execok ?r3 = sc_execok r" by simp
  have "dispatch_next W r = (r4, Inr (Some (u, oc)))"
    using rd un e r1(1) r2(1) r4(1) by (simp add: dispatch_next_def assign_def)
  moreover have "core r4 = (core r)\<lparr>sc_units := dset u UExecuting (sc_units r), sc_execok := List.insert u (sc_execok r)\<rparr>"
    unfolding r4(3) core3 x3 by simp
  ultimately show thesis using e(3) r1(3) r2(3) r4(2) by (intro that) simp_all
qed

lemma settled_progress:
  assumes f: "plain_flow flow" and p: "progress flow k s" and k: "k < length (wf_order flow)"
  shows "progress flow (Suc k) (settled flow
    (s\<lparr>sc_execok := [], sc_units := dset (wf_order flow ! k) USucceeded (dset (wf_order flow ! k) st (sc_units s))\<rparr>))"
proof -
  let ?o = "wf_order flow" and ?u = "wf_order flow ! k"
  let ?t = "s\<lparr>sc_execok := [], sc_units := dset ?u USucceeded (dset ?u st (sc_units s))\<rparr>"
  have d: "distinct ?o" and un: "set ?o = set (dkeys (wf_units flow))" using f by (simp_all add: plain_flow_def)
  have t: "dget (sc_units ?t) u = (if u \<in> set (take (Suc k) ?o) then Some USucceeded
      else if u \<in> set ?o then Some UPending else None)" for u
    using p k by (simp add: progress_def dict_simps take_Suc_set)
  have "\<not> some_blocking_failed flow ?t"
    using t by (auto simp: some_blocking_failed_def list_ex_iff)
  moreover have "list_all (unit_done ?t) (dkeys (wf_units flow)) \<longleftrightarrow> \<not> Suc k < length ?o"
  proof
    assume all: "list_all (unit_done ?t) (dkeys (wf_units flow))"
    show "\<not> Suc k < length ?o"
    proof
      assume lt: "Suc k < length ?o"
      then have "?o ! Suc k \<in> set (dkeys (wf_units flow))" using un by (metis nth_mem)
      with all have "unit_done ?t (?o ! Suc k)" by (metis list_all_iff)
      moreover have "?o ! Suc k \<notin> set (take (Suc k) ?o)" by (rule nth_not_take [OF d lt])
      ultimately show False using t [of "?o ! Suc k"] by (auto simp: unit_done_def unit_terminal_def split: if_splits)
    qed
  next
    assume "\<not> Suc k < length ?o"
    then have "set (take (Suc k) ?o) = set ?o" by simp
    with t have "dget (sc_units ?t) u = Some USucceeded" if "u \<in> set ?o" for u using that by simp
    then have "\<forall>u \<in> set ?o. unit_done ?t u" by (simp add: unit_done_def unit_terminal_def)
    with un show "list_all (unit_done ?t) (dkeys (wf_units flow))" by (metis list_all_iff)
  qed
  moreover have "sc_status ?t = Some WfActive" using p k by (simp add: progress_def)
  ultimately show ?thesis using t by (auto simp: settled_def progress_def)
qed

lemma round_progress:
  assumes f: "plain_flow flow" and a: "accepts W" and c: "completes W"
    and flow: "wr_flow r = flow" and p: "progress flow k (core r)" and k: "k < length (wf_order flow)"
  obtains r1 oc r2 where "dispatch_next W r = (r1, Inr (Some (wf_order flow ! k, oc)))"
    and "oc_state oc = Some Completed"
    and "on_verdict W (wf_order flow ! k) True r1 = (r2, None)"
    and "wr_flow r2 = flow" and "progress flow (Suc k) (core r2)"
proof -
  let ?u = "wf_order flow ! k"
  obtain us where rd: "ready flow (core r) = ?u # us" by (rule progress_ready [OF f p k])
  have "?u \<in> set (dkeys (wf_units flow))" using f k by (metis nth_mem plain_flow_def)
  then obtain x where x: "dget (wf_units flow) ?u = Some x"
    by (metis map_of_eq_None_iff not_None_eq list.set_map)
  from rd have "ready (wr_flow r) r = ?u # us" by (simp add: flow)
  from accepts_dispatched [OF a c this] x flow obtain r1 oc where r1: "dispatch_next W r = (r1, Inr (Some (?u, oc)))"
      "wr_flow r1 = flow" "core r1 = (core r)\<lparr>sc_units := dset ?u UExecuting (sc_units r), sc_execok := List.insert ?u (sc_execok r)\<rparr>"
      "oc_state oc = Some Completed"
    by metis
  have e0: "sc_execok r = []" using p by (simp add: progress_def)
  have "sc_units (core r1) = dset ?u UExecuting (sc_units r)" "sc_execok (core r1) = [?u]"
    unfolding r1(3) by (simp_all add: e0)
  then have u1: "sc_units r1 = dset ?u UExecuting (sc_units r)" "sc_execok r1 = [?u]" by simp_all
  have "dget (sc_units r1) ?u = Some UExecuting" "?u \<in> set (sc_execok r1)" by (simp_all add: u1 dict_simps)
  from accepts_judged [OF a this] obtain r2 where r2: "on_verdict W ?u True r1 = (r2, None)" "wr_flow r2 = wr_flow r1"
      "core r2 = settled (wr_flow r1) ((core r1)\<lparr>sc_execok := removeAll ?u (sc_execok r1), sc_units := dset ?u USucceeded (sc_units r1)\<rparr>)"
    by blast
  have "core r2 = settled flow ((core r)\<lparr>sc_execok := [], sc_units := dset ?u USucceeded (dset ?u UExecuting (sc_units (core r)))\<rparr>)"
    unfolding r2(3) r1(2,3) u1 by simp
  with settled_progress [OF f p k, of UExecuting] have "progress flow (Suc k) (core r2)" by simp
  with r1 r2 show thesis by (intro that [of r1 oc r2]) simp_all
qed

lemma drive_completes:
  assumes f: "plain_flow flow" and a: "accepts W" and c: "completes W"
  shows "wr_flow r = flow \<Longrightarrow> progress flow k (core r) \<Longrightarrow> k \<le> length (wf_order flow) \<Longrightarrow>
    length (wf_order flow) - k \<le> n \<Longrightarrow>
    \<exists>r'. drive W (\<lambda>_ _. True) n r = (r', None) \<and> progress flow (length (wf_order flow)) (core r')"
proof (induction n arbitrary: r k)
  case 0
  then show ?case by simp
next
  case (Suc n)
  show ?case
  proof (cases "k < length (wf_order flow)")
    case True
    obtain r1 oc r2 where r: "dispatch_next W r = (r1, Inr (Some (wf_order flow ! k, oc)))"
        "on_verdict W (wf_order flow ! k) True r1 = (r2, None)" "wr_flow r2 = flow" "progress flow (Suc k) (core r2)"
        "oc_state oc = Some Completed"
      by (rule round_progress [OF f a c Suc.prems(1,2) True])
    have "sc_status r = Some WfActive" using Suc.prems(2) True by (simp add: progress_def)
    with r(1,2,5) have "drive W (\<lambda>_ _. True) (Suc n) r = drive W (\<lambda>_ _. True) n r2" by simp
    with Suc.IH [OF r(3,4)] Suc.prems(4) True show ?thesis by simp
  next
    case False
    with Suc.prems have "k = length (wf_order flow)" "sc_status r \<noteq> Some WfActive" by (auto simp: progress_def)
    with Suc.prems(2) show ?thesis by simp
  qed
qed

lemma do_all_accepts:
  "(\<And>m x. m \<in> set ms \<Longrightarrow> \<exists>y. m x = (y, None) \<and> core y = core x \<and> wr_flow y = wr_flow x) \<Longrightarrow>
     \<exists>r'. do_all ms r = (r', None) \<and> core r' = core r \<and> wr_flow r' = wr_flow r"
proof (induction ms arbitrary: r)
  case (Cons m ms)
  obtain y where y: "m r = (y, None)" "core y = core r" "wr_flow y = wr_flow r" using Cons.prems [of m r] by auto
  obtain r' where "do_all ms y = (r', None)" "core r' = core y" "wr_flow r' = wr_flow y"
    using Cons.IH [of y] Cons.prems by (meson list.set_intros(2))
  with y show ?case by simp
qed simp

lemma activate_accepts:
  assumes a: "accepts W" and g: "wf_groups (wr_flow r) = []" and s: "sc_status r = None"
  obtains r' where "activate W r = (r', None)" and "core r' = (core r)\<lparr>sc_status := Some WfActive\<rparr>"
    and "wr_flow r' = wr_flow r"
proof -
  let ?ms = "[ws_record W ''activated'' [],
      ws_emit W ''workflow.created'' [(''content_hash'', PyStr (wf_hash (wr_flow r)))] None]
    @ map (\<lambda>uid. ws_emit W ''task.scheduled''
        [(''unit_id'', PyStr uid), (''priority_band'', PyStr (band_of (wr_flow r) uid))] (Some uid)) (wf_order (wr_flow r))"
  have "\<exists>r'. do_all ?ms (r\<lparr>sc_status := Some WfActive\<rparr>) = (r', None)
      \<and> core r' = core (r\<lparr>sc_status := Some WfActive\<rparr>) \<and> wr_flow r' = wr_flow (r\<lparr>sc_status := Some WfActive\<rparr>)"
    by (rule do_all_accepts) (auto intro: accepts_record [OF a] accepts_emit [OF a])
  moreover have "activate W r = do_all ?ms (r\<lparr>sc_status := Some WfActive\<rparr>)"
    using s g by (simp add: activate_def assign_def Let_def)
  ultimately show thesis using that by auto
qed

section \<open>Compiled workflows\<close>

lemma built_ungrouped:
  "foldm (add_node sha wid) b ns = Inr b' \<Longrightarrow> bd_groups b' = [] \<Longrightarrow>
     bd_groups b = [] \<and> ((\<forall>u \<in> set (bd_units b). un_group (snd u) = None) \<longrightarrow> (\<forall>u \<in> set (bd_units b'). un_group (snd u) = None))"
proof (induction ns arbitrary: b)
  case (Cons n ns)
  from Cons.prems(1) obtain b1 where b1: "add_node sha wid b n = Inr b1" "foldm (add_node sha wid) b1 ns = Inr b'"
    by (auto split: sum.splits)
  from Cons.IH [OF b1(2) Cons.prems(2)] have ih: "bd_groups b1 = []"
    "(\<forall>u \<in> set (bd_units b1). un_group (snd u) = None) \<longrightarrow> (\<forall>u \<in> set (bd_units b'). un_group (snd u) = None)"
    by simp_all
  from b1(1) obtain m cap band grp where g: "check_group m n = Inr grp"
      "bd_groups b1 = (case grp of None \<Rightarrow> bd_groups b
        | Some (g, _) \<Rightarrow> dset g ((case dget (bd_groups b) g of None \<Rightarrow> [] | Some us \<Rightarrow> us) @ [unit_id sha wid m]) (bd_groups b))"
      "bd_units b1 = dset (unit_id sha wid m) \<lparr>un_id = unit_id sha wid m, un_node = m, un_cap = cap, un_band = band,
        un_gate = True, un_group = map_option fst grp, un_rank = map_option snd grp\<rparr> (bd_units b)"
    by (auto simp: add_node_def Let_def split: sum.splits prod.splits)
  have ne: "dset k v d \<noteq> []" "[] \<noteq> dset k v d" for k :: string and v :: "string list" and d by (cases d; auto)+
  then have "grp = None" using g(2) ih(1) by (cases grp) (auto split: prod.splits)
  with g have "bd_groups b = []" "(\<forall>u \<in> set (bd_units b). un_group (snd u) = None) \<longrightarrow> (\<forall>u \<in> set (bd_units b1). un_group (snd u) = None)"
    using ih(1) set_dset_subset by (simp, fastforce)
  with ih(2) show ?case by blast
qed simp

lemma compiled_plain:
  assumes c: "compile_workflow sha graph config = Inr flow" and g: "wf_groups flow = []"
  shows "plain_flow flow"
proof -
  from c obtain origin b es where r: "read_graph sha graph config = Inr (origin, b, es)"
      and k: "kahn (incoming (dkeys (bd_units b)) es) = Some (wf_levels flow)"
      and f: "flow = assemble sha config origin b es (wf_levels flow)"
    by (rule compile_Inr)
  have fields: "wf_units flow = bd_units b" "wf_edges flow = es" "wf_order flow = concat (wf_levels flow)"
      "wf_groups flow = map (\<lambda>(g, us). (g, ranked (bd_units b) us)) (bd_groups b)"
    using f by (metis assemble_fields(1), metis assemble_fields(2), metis assemble_fields(3,4), metis assemble_fields(6))
  note t = kahn_topological [OF k read_graph_edges [OF r]]
  obtain plan version wid where o: "origin = (plan, version, wid)" by (cases origin)
  obtain n ns where ns: "read_nodes sha wid (n # ns) = Inr b"
    using r unfolding o by (auto simp: read_graph_def Let_def split: if_splits sum.splits pyval.splits list.splits prod.splits)
  then have "foldm (add_node sha wid) no_build (sort_key node_key (n # ns)) = Inr b"
    by (simp add: read_nodes_def split: if_splits)
  with g fields(4) have "\<forall>u \<in> set (bd_units b). un_group (snd u) = None"
    using built_ungrouped [of sha wid no_build _ b] by (force simp: no_build_def)
  moreover have "set (dkeys (bd_units b)) \<noteq> {}"
    using read_nodes_built(1) [OF ns] by (simp add: built_def)
  with t(2) have "wf_order flow \<noteq> []" unfolding fields by (metis list.set(1))
  ultimately show ?thesis using t g by (auto simp: plain_flow_def fields)
qed

lemma init_progress:
  assumes "plain_flow flow"
  shows "progress flow 0 ((sched_init flow)\<lparr>sc_status := Some WfActive\<rparr>)"
proof -
  have "dget (sc_units (sched_init flow)) u = (if u \<in> set (wf_order flow) then Some UPending else None)" for u
  proof (cases "dget (sc_units (sched_init flow)) u")
    case None
    then have "u \<notin> set (dkeys (wf_units flow))"
      by (metis init_fields(4) list.set_map map_of_eq_None_iff)
    with None assms show ?thesis by (simp add: plain_flow_def)
  next
    case (Some st)
    then have "u \<in> set (dkeys (wf_units flow))"
      by (metis init_fields(4) list.set_map map_of_eq_None_iff option.distinct(1))
    with Some init_pending [OF Some] assms show ?thesis by (simp add: plain_flow_def)
  qed
  with assms show ?thesis by (simp add: progress_def plain_flow_def)
qed

end
