(* ===== verification/SchedulerProps.thy ===== *)
theory SchedulerProps
  imports SchedulerReplay SchedulerDrive
begin

text \<open>
  Correctness of workflow runs: replay from the vault, dependencies and verdicts, final unit
  outcomes, what a finished run means, and completion of the loop that drives a run.
\<close>

section \<open>Journaled runs in a vault\<close>

definition in_vault :: "'b publisher \<Rightarrow> store_env \<Rightarrow> string \<Rightarrow> ('b store, 'c, 'w) ws_wiring \<Rightarrow> ('b store, 'c, 'w) ws_wiring" where
  "in_vault pub E ns W = W\<lparr>ww_port := ns_port pub E ns, ww_ns := ns\<rparr>"

definition ws_step :: "('s, 'b, 'w) ws_wiring \<Rightarrow> ('s, 'b, 'w) ws_run \<Rightarrow> ws_op \<Rightarrow> sched_exn + ('s, 'b, 'w) ws_run" where
  "ws_step W r x = (case ws_apply W r x of (r', None) \<Rightarrow> Inr r' | (r', Some e) \<Rightarrow> Inl e)"

definition ws_docs :: "('s, 'b, 'w) ws_wiring \<Rightarrow> ('s, 'b, 'w) ws_run \<Rightarrow> pyval list" where
  "ws_docs W r =
     (case wr_store r of
        None \<Rightarrow> []
      | Some s \<Rightarrow> (case ws_entries (ww_port W) (ww_ns W) (wf_id (wr_flow r)) s of Inl _ \<Rightarrow> [] | Inr ds \<Rightarrow> ds))"

lemma vault_log_docs:
  assumes "vault.run_log pub E ns (in_vault pub E ns W) r docs"
  shows "ws_docs (in_vault pub E ns W) r = map json_canon docs"
proof -
  from assms obtain s where "wr_store r = Some s"
      "ws_entries (ns_port pub E ns) (ww_ns (in_vault pub E ns W)) (wf_id (wr_flow r)) s = Inr (map json_canon docs)"
    by (rule vault.log_entries)
  then show ?thesis by (simp add: ws_docs_def in_vault_def)
qed

lemma ws_step_Inr: "ws_step W r x = Inr r' \<longleftrightarrow> ws_apply W r x = (r', None)"
  by (auto simp: ws_step_def split: prod.splits option.splits)

text \<open>The workflow runtime is event sourced: its journal folds to the live state.\<close>

interpretation wsrun: event_sourced "ws_step (in_vault pub E ns W)" "ws_docs (in_vault pub E ns W)" replay_record core
    "\<lambda>r. \<exists>docs. vault.run_log pub E ns (in_vault pub E ns W) r docs" "\<lambda>_ _. True" for pub E ns W
proof
  fix s s' and i
  assume "\<exists>docs. vault.run_log pub E ns (in_vault pub E ns W) s docs"
    and st: "ws_step (in_vault pub E ns W) s i = Inr s'"
  then obtain docs where docs: "vault.run_log pub E ns (in_vault pub E ns W) s docs" by blast
  from st have "vault.grows pub E ns (in_vault pub E ns W) s s'"
    unfolding ws_step_Inr by (rule vault.grows_apply)
  with docs obtain ds where ds: "vault.run_log pub E ns (in_vault pub E ns W) s' (docs @ ds)"
      "foldm replay_record (core s) ds = Inr (core s')"
    unfolding vault.grows_def by blast
  then show "\<exists>docs. vault.run_log pub E ns (in_vault pub E ns W) s' docs" by blast
  have "list_all json_wf ds" "list_all is_dict ds" using ds(1) by (simp_all add: vault.run_log_def)
  then have "foldm replay_record (core s) (map json_canon ds) = Inr (core s')"
    using vault.replay_canon ds(2) by simp
  with vault_log_docs [OF docs] vault_log_docs [OF ds(1)]
  show "\<exists>rs. ws_docs (in_vault pub E ns W) s' = ws_docs (in_vault pub E ns W) s @ rs
      \<and> foldm replay_record (core s) rs = Inr (core s')"
    by (intro exI [of _ "map json_canon ds"]) simp
qed

lemma wsrun_adm: "wsrun.adm_all pub E ns W s xs"
  by (induction xs arbitrary: s) (auto split: sum.splits)

lemma vault_fresh_log:
  assumes g: "vault_good E ns s" and k: "plain_key ns (entry_prefix ns (wf_id flow))"
    and "ns_keys ns s (entry_prefix ns (wf_id flow)) = Inr []" and "ns_keys ns s (check_prefix ns (wf_id flow)) = Inr []"
  shows "vault.run_log pub E ns (in_vault pub E ns W) (ws_init flow (Some s) bus w) []"
proof -
  have p: "vault.plain_journal ns ns (wf_id flow)" using k by (rule vault_plain_journal)
  have "vault.holds pub E ns s ns (wf_id flow) [] (\<lambda>_. None)"
    by (rule vault.holds_fresh [OF g p]) (use assms(3,4) in \<open>simp_all add: ns_port_def\<close>)
  with p show ?thesis by (simp add: vault.run_log_def in_vault_def)
qed

text \<open>
  C20: a run whose operations did not raise, journaled in a fresh part of the vault, is rebuilt
  by replay from the vault alone: the status, every unit state, the executions that await a
  verdict and the branch selections are those of the live run.
\<close>

theorem replay_rebuilds_run:
  assumes "foldm (ws_step (in_vault pub E ns W)) (ws_init flow (Some s) bus w) ops = Inr r"
    and "vault_good E ns s" and "plain_key ns (entry_prefix ns (wf_id flow))"
    and "ns_keys ns s (entry_prefix ns (wf_id flow)) = Inr []" and "ns_keys ns s (check_prefix ns (wf_id flow)) = Inr []"
  shows "\<exists>s'. wr_store r = Some s' \<and> ws_replay (ns_port pub E ns) ns flow s' = Inr (core r)"
proof -
  let ?W = "in_vault pub E ns W" and ?init = "ws_init flow (Some s) bus w"
  have log: "vault.run_log pub E ns ?W ?init []" by (rule vault_fresh_log [OF assms(2-5)])
  have runs: "wsrun.runs pub E ns W ?init r" by (rule wsrun.foldm_runs [OF wsrun_adm assms(1)])
  from wsrun.runs_inv [OF this] log obtain docs where docs: "vault.run_log pub E ns ?W r docs" by blast
  have "foldm replay_record (core ?init) (ws_docs ?W r) = Inr (core r)"
    by (rule wsrun.journal_rebuilds [OF runs]) (use log vault_log_docs [OF log] in auto)
  moreover from docs obtain s' where s': "wr_store r = Some s'"
      "ws_entries (ns_port pub E ns) ns (wf_id (wr_flow r)) s' = Inr (map json_canon docs)"
    by (rule vault.log_entries) (simp add: in_vault_def)
  moreover have "wr_flow r = flow"
    by (rule foldm_invariant [OF assms(1)]) (auto simp: ws_step_Inr dest!: arg_cong [where f = fst] simp del: ws_apply.simps)
  ultimately show ?thesis using vault_log_docs [OF docs] by (simp add: ws_replay_def)
qed

text \<open>
  C21: whatever the sequence of operations and whatever raised in it, a unit that is executing
  or was executed has all its predecessors succeeded, each by a passed verdict, and belongs to
  no branch that was not selected.
\<close>

theorem execution_respects_dependencies:
  assumes "dget (sc_units (ws_ops W (ws_init flow store bus w) ops)) u = Some st" and "started st"
  shows "branch_allows flow (ws_ops W (ws_init flow store bus w) ops) u
    \<and> (\<forall>p \<in> set (predecessors flow u).
         dget (sc_units (ws_ops W (ws_init flow store bus w) ops)) p = Some USucceeded \<and> Verdict p True \<in> set ops)"
proof -
  let ?init = "ws_init flow store bus w"
  let ?r = "ws_ops W ?init ops"
  have "sched_inv (wr_flow ?init) (core ?init)" by (simp add: init_inv)
  from ops_inv [OF this, of W ops] have "sched_inv flow (core ?r)" by simp
  from sched_invD(1) [OF this, of u st] assms have i: "branch_allows flow ?r u"
    "\<forall>p \<in> set (predecessors flow u). dget (sc_units ?r) p = Some USucceeded"
    by simp_all
  have "Verdict p True \<in> set ops" if "dget (sc_units ?r) p = Some USucceeded" for p
  proof -
    have "sc_units ?init = sc_units (sched_init flow)" by (metis core_fields(2) ws_init_core(1))
    then have "dget (sc_units ?init) p \<noteq> Some USucceeded" using init_pending [of flow p] by auto
    with ops_success [OF that] show ?thesis by blast
  qed
  with i show ?thesis by blast
qed

text \<open>
  Unit outcomes are final. Over any further operations a unit keeps its state or moves
  forward, from pending to executing to an outcome, and an outcome never changes.
\<close>

theorem unit_outcomes_final:
  assumes "dget (sc_units r) u = Some st"
  shows "\<exists>st'. dget (sc_units (ws_ops W r ops)) u = Some st'
    \<and> (st' = st \<or> unit_rank st < unit_rank st') \<and> (unit_terminal st \<longrightarrow> st' = st)"
proof -
  from ops_move_on [of r W ops] assms obtain st' where "dget (sc_units (ws_ops W r ops)) u = Some st'" "moves_on st st'"
    unfolding units_move_on_def by blast
  then show ?thesis using moves_on_terminal [of st st'] by (auto simp: moves_on_def)
qed

text \<open>
  C22: a run is marked completed only when every unit has an outcome and every critical or
  required unit has succeeded or lies on a branch that was not selected; it is marked failed
  only when a critical or required unit has failed.
\<close>

theorem run_status_sound:
  fixes W :: "('s, 'b, 'w) ws_wiring"
  defines "after \<equiv> \<lambda>flow store bus w ops. ws_ops W (ws_init flow store bus w) ops"
  assumes "sc_status (after flow store bus w ops) = Some status"
  shows "(status = WfCompleted \<longrightarrow>
      (\<forall>u \<in> set (dkeys (wf_units flow)). unit_done (after flow store bus w ops) u)
      \<and> (\<forall>u \<in> set (blocking_units flow).
           dget (sc_units (after flow store bus w ops)) u \<in> Some ` {USucceeded, UNotExecuted}))
    \<and> (status = WfStalled \<longrightarrow>
      (\<exists>u \<in> set (blocking_units flow). dget (sc_units (after flow store bus w ops)) u = Some UFailed))"
proof -
  let ?r = "after flow store bus w ops"
  have "sched_inv (wr_flow (ws_init flow store bus w)) (core (ws_init flow store bus w))" by (simp add: init_inv)
  from ops_inv [OF this, of W ops] have i: "sched_inv flow (core ?r)" by (simp add: after_def)
  have sub: "set (blocking_units flow) \<subseteq> set (dkeys (wf_units flow))" by (auto simp: blocking_units_def)
  have comp: "\<not> some_blocking_failed flow ?r \<and> list_all (unit_done ?r) (dkeys (wf_units flow))" if "status = WfCompleted"
    using i assms(2) that by (simp add: sched_inv_def)
  have stall: "some_blocking_failed flow ?r" if "status = WfStalled"
    using i assms(2) that by (simp add: sched_inv_def)
  have "dget (sc_units ?r) u \<in> Some ` {USucceeded, UNotExecuted}"
    if "status = WfCompleted" "u \<in> set (blocking_units flow)" for u
  proof -
    have "unit_done ?r u" using comp [OF that(1)] sub that(2) by (metis list_all_iff subsetD)
    moreover have "dget (sc_units ?r) u \<noteq> Some UFailed"
      using comp [OF that(1)] that(2) by (auto simp: some_blocking_failed_def list_ex_iff)
    ultimately show ?thesis by (auto simp: unit_done_def unit_terminal_def split: option.splits)
  qed
  with comp stall show ?thesis by (auto simp: some_blocking_failed_def list_ex_iff list_all_iff)
qed

text \<open>
  C23: when the journal and the bus accept, every execution completes and every verdict
  passes, the loop that drives a compiled workflow without alternative groups ends after as
  many dispatches as there are units, with the run completed and every unit succeeded.
\<close>

theorem accepted_workflows_complete:
  assumes "compile_workflow sha graph config = Inr flow" and "wf_groups flow = []"
    and "accepts W" and "completes W"
  shows "\<exists>r r'. activate W (ws_init flow store bus w) = (r, None)
    \<and> drive W (\<lambda>_ _. True) (length (wf_order flow)) r = (r', None)
    \<and> sc_status r' = Some WfCompleted
    \<and> (\<forall>u \<in> set (dkeys (wf_units flow)). dget (sc_units r') u = Some USucceeded)"
proof -
  have f: "plain_flow flow" by (rule compiled_plain [OF assms(1,2)])
  obtain r where r: "activate W (ws_init flow store bus w) = (r, None)"
      "core r = (sched_init flow)\<lparr>sc_status := Some WfActive\<rparr>" "wr_flow r = flow"
  proof -
    have "sc_status (ws_init flow store bus w) = sc_status (core (ws_init flow store bus w))" by (rule core_fields(1) [symmetric])
    then have "sc_status (ws_init flow store bus w) = None" by simp
    with assms(2) obtain r where "activate W (ws_init flow store bus w) = (r, None)"
        "core r = (core (ws_init flow store bus w))\<lparr>sc_status := Some WfActive\<rparr>" "wr_flow r = wr_flow (ws_init flow store bus w)"
      using activate_accepts [OF assms(3), of "ws_init flow store bus w"] by auto
    then show thesis by (intro that) simp_all
  qed
  from drive_completes [OF f assms(3,4) r(3), of 0 "length (wf_order flow)"] init_progress [OF f] r(2)
  obtain r' where r': "drive W (\<lambda>_ _. True) (length (wf_order flow)) r = (r', None)"
      "progress flow (length (wf_order flow)) (core r')"
    by auto
  from r'(2) f have "sc_status r' = Some WfCompleted"
      "\<forall>u \<in> set (dkeys (wf_units flow)). dget (sc_units r') u = Some USucceeded"
    by (simp_all add: progress_def plain_flow_def)
  with r(1) r'(1) show ?thesis by blast
qed

section \<open>Witnesses\<close>

definition demo_unit :: "string \<Rightarrow> string \<Rightarrow> (string \<times> int) option \<Rightarrow> string \<times> ws_unit" where
  "demo_unit uid band grp = (uid, \<lparr>un_id = uid, un_node = uid, un_cap = ''cap'', un_band = band, un_gate = True,
     un_group = map_option fst grp, un_rank = map_option snd grp\<rparr>)"

definition demo_flow :: workflow where
  "demo_flow = \<lparr>wf_id = ''wf-1'', wf_plan = ''plan-1'', wf_version = PyInt 1, wf_config = 1,
     wf_units = [demo_unit ''u1'' ''REQUIRED'' None, demo_unit ''u2'' ''OPTIONAL'' (Some (''g'', 1)),
                 demo_unit ''u3'' ''OPTIONAL'' (Some (''g'', 2))],
     wf_edges = [(''u1'', ''u2''), (''u1'', ''u3'')], wf_order = [''u1'', ''u2'', ''u3''],
     wf_levels = [[''u1''], [''u2'', ''u3'']], wf_groups = [(''g'', [''u2'', ''u3''])], wf_hash = ''h''\<rparr>"

definition demo_outcome :: outcome where
  "demo_outcome = \<lparr>oc_state = Some Completed, oc_exit = Some 0, oc_stdout = [], oc_stderr = []\<rparr>"

definition demo_ww :: "(mem_bus store, mem_bus, unit) ws_wiring" where
  "demo_ww = \<lparr>ww_port = ns_port mem_publish demo_senv ''ws'', ww_ns = ''ws'', ww_pub = mem_publish,
     ww_exec = Some (\<lambda>b w u. ((b, w), Inr demo_outcome))\<rparr>"

definition demo_ws_ops :: "ws_op list" where
  "demo_ws_ops = [Activate, DispatchNext, Verdict ''u1'' True, DispatchNext, Verdict ''u2'' False]"

definition demo_run0 :: "(mem_bus store, mem_bus, unit) ws_run" where
  "demo_run0 = ws_init demo_flow (Some (demo_store [])) None ()"

lemma demo_in_vault: "in_vault mem_publish demo_senv ''ws'' demo_ww = demo_ww"
  by (simp add: in_vault_def demo_ww_def)

lemma demo_ws_runs:
  "(case foldm (ws_step demo_ww) demo_run0 demo_ws_ops of
      Inl _ \<Rightarrow> False
    | Inr r \<Rightarrow> sc_status r = Some WfCompleted
        \<and> sc_units r = [(''u1'', USucceeded), (''u2'', UFailed), (''u3'', UNotExecuted)])"
  by code_simp

lemma ws_ops_foldm: "foldm (ws_step W) r xs = Inr r' \<Longrightarrow> ws_ops W r xs = r'"
  by (induction xs arbitrary: r) (auto simp: ws_step_Inr split: sum.splits simp del: ws_apply.simps)

lemma demo_ws_run:
  obtains r where "foldm (ws_step demo_ww) demo_run0 demo_ws_ops = Inr r" and "sc_status r = Some WfCompleted"
    and "sc_units r = [(''u1'', USucceeded), (''u2'', UFailed), (''u3'', UNotExecuted)]"
    and "ws_ops demo_ww demo_run0 demo_ws_ops = r"
  using demo_ws_runs by (auto split: sum.splits dest: ws_ops_foldm)

theorem replay_rebuilds_run_witness:
  "\<exists>r s'. foldm (ws_step demo_ww) demo_run0 demo_ws_ops = Inr r \<and> wr_store r = Some s'
     \<and> ws_replay (ns_port mem_publish demo_senv ''ws'') ''ws'' demo_flow s' = Inr (core r)
     \<and> sc_units r = [(''u1'', USucceeded), (''u2'', UFailed), (''u3'', UNotExecuted)]"
proof -
  obtain r where r: "foldm (ws_step demo_ww) demo_run0 demo_ws_ops = Inr r"
      "sc_units r = [(''u1'', USucceeded), (''u2'', UFailed), (''u3'', UNotExecuted)]"
    by (rule demo_ws_run)
  have k: "plain_key ''ws'' (entry_prefix ''ws'' (wf_id demo_flow))"
    "ns_keys ''ws'' (demo_store []) (entry_prefix ''ws'' (wf_id demo_flow)) = Inr []"
    "ns_keys ''ws'' (demo_store []) (check_prefix ''ws'' (wf_id demo_flow)) = Inr []"
    by code_simp+
  have run: "foldm (ws_step (in_vault mem_publish demo_senv ''ws'' demo_ww))
      (ws_init demo_flow (Some (demo_store [])) None ()) demo_ws_ops = Inr r"
    using r(1) by (simp only: demo_in_vault demo_run0_def)
  from replay_rebuilds_run [OF run demo_store_good k] r show ?thesis by blast
qed

theorem execution_respects_dependencies_witness:
  "dget (sc_units (ws_ops demo_ww demo_run0 demo_ws_ops)) ''u1'' = Some USucceeded
     \<and> Verdict ''u1'' True \<in> set demo_ws_ops"
proof -
  obtain r where r: "sc_units r = [(''u1'', USucceeded), (''u2'', UFailed), (''u3'', UNotExecuted)]"
      "ws_ops demo_ww demo_run0 demo_ws_ops = r"
    by (rule demo_ws_run)
  have "dget (sc_units (ws_ops demo_ww demo_run0 demo_ws_ops)) ''u2'' = Some UFailed" "started UFailed"
    by (simp_all add: r started_def)
  moreover have "''u1'' \<in> set (predecessors demo_flow ''u2'')" by code_simp
  ultimately show ?thesis
    using execution_respects_dependencies [of demo_ww demo_flow _ _ _ demo_ws_ops "''u2''" UFailed, folded demo_run0_def]
    unfolding demo_run0_def by blast
qed

theorem unit_outcomes_final_witness:
  "dget (sc_units (ws_ops demo_ww (ws_ops demo_ww demo_run0 demo_ws_ops) [Verdict ''u2'' True, Activate])) ''u2'' = Some UFailed"
proof -
  obtain r where r: "sc_units r = [(''u1'', USucceeded), (''u2'', UFailed), (''u3'', UNotExecuted)]"
      "ws_ops demo_ww demo_run0 demo_ws_ops = r"
    by (rule demo_ws_run)
  have "dget (sc_units (ws_ops demo_ww demo_run0 demo_ws_ops)) ''u2'' = Some UFailed" "unit_terminal UFailed"
    by (simp_all add: r unit_terminal_def)
  with unit_outcomes_final [OF this(1), of demo_ww "[Verdict ''u2'' True, Activate]"] show ?thesis by auto
qed

theorem run_status_sound_witness:
  "sc_status (ws_ops demo_ww demo_run0 demo_ws_ops) = Some WfCompleted
     \<and> dget (sc_units (ws_ops demo_ww demo_run0 demo_ws_ops)) ''u1'' \<in> Some ` {USucceeded, UNotExecuted}"
proof -
  have c: "sc_status (ws_ops demo_ww demo_run0 demo_ws_ops) = Some WfCompleted"
    by (rule demo_ws_run) simp
  moreover have "''u1'' \<in> set (blocking_units demo_flow)" by code_simp
  ultimately show ?thesis
    using run_status_sound [OF c [unfolded demo_run0_def]] unfolding demo_run0_def by blast
qed

text \<open>A port that accepts every write, no bus, and executions that complete.\<close>

definition quiet_ww :: "(unit, unit, unit) ws_wiring" where
  "quiet_ww = \<lparr>ww_port = \<lparr>bp_write = (\<lambda>s k d. (s, Inr ''committed'')), bp_write_once = (\<lambda>s k d. (s, Inr ''committed'')),
       bp_read = (\<lambda>s k. Inr []), bp_keys = (\<lambda>s k. Inr [])\<rparr>,
     ww_ns = ''ws'', ww_pub = (\<lambda>b n m. (b, True)), ww_exec = Some (\<lambda>b w u. ((b, w), Inr demo_outcome))\<rparr>"

lemma quiet_accepts: "accepts quiet_ww"
  by (auto simp: accepts_def quiet_ww_def ws_record_def ws_emit_def journal_open_def journal_append_def
      split: option.splits)

lemma quiet_completes: "completes quiet_ww"
  by (simp add: completes_def quiet_ww_def demo_outcome_def)

theorem accepted_workflows_complete_witness:
  "\<exists>flow r r'. compile_workflow demo_sha (graph_with demo_plan demo_nodes demo_edges) 1 = Inr flow
     \<and> activate quiet_ww (ws_init flow (Some ()) None ()) = (r, None)
     \<and> drive quiet_ww (\<lambda>_ _. True) 3 r = (r', None) \<and> sc_status r' = Some WfCompleted"
proof -
  obtain flow where f: "compile_workflow demo_sha (graph_with demo_plan demo_nodes demo_edges) 1 = Inr flow"
      "wf_groups flow = []" "length (wf_order flow) = 3"
    by (rule demo_compiles) auto
  from accepted_workflows_complete [OF f(1,2) quiet_accepts quiet_completes, of "Some ()" None "()"] f(1,3)
  show ?thesis by auto
qed

section \<open>Failures of optional units\<close>

text \<open>
  An optional unit that fails keeps its optional successor pending for ever: the run neither
  completes nor fails, and nothing is ready, although optional failures are documented not to
  block completion (\<open>WS/02\<close>, resolution b).
\<close>

definition optional_flow :: workflow where
  "optional_flow = demo_flow\<lparr>wf_units := [demo_unit ''u1'' ''OPTIONAL'' None, demo_unit ''u2'' ''OPTIONAL'' None],
     wf_edges := [(''u1'', ''u2'')], wf_order := [''u1'', ''u2''], wf_levels := [[''u1''], [''u2'']], wf_groups := []\<rparr>"

lemma optional_failure_blocks:
  "(let r = ws_ops quiet_ww (ws_init optional_flow None None ()) [Activate, DispatchNext, Verdict ''u1'' False] in
     sc_status r = Some WfActive \<and> ready optional_flow r = []
     \<and> sc_units r = [(''u1'', UFailed), (''u2'', UPending)])"
  by code_simp

end
