(* ===== verification/Rsm.thy ===== *)
theory Rsm
  imports BusPort BlobPort Json
begin

text \<open>
  The request-state manager, its pure part: the transition table (\<open>rsm/transitions.py\<close>), the
  request record (\<open>rsm/record.py\<close>) and the reducers (\<open>rsm/reducers.py\<close>). An event is a
  Python \<open>dict\<close> with arbitrary values, and so are the fields a reducer copies; the
  keys a reducer takes from a payload (task ids, exec ids, steps, gates) are values too, so the
  dictionaries they index are lists of pairs compared the way Python compares keys.
\<close>

section \<open>The transition table\<close>

datatype mat = Absent | Active | Terminal | Persisted | Retained | Evicted

definition terminal_like :: "mat list" where
  "terminal_like = [Terminal, Persisted, Retained]"

definition birth_family :: string where
  "birth_family = ''request.received''"

definition terminal_families :: "string list" where
  "terminal_families = [''request.completed'', ''request.failed'', ''request.rejected'', ''request.cancelled'']"

definition late_tolerant_families :: "string list" where
  "late_tolerant_families = [''cost.recorded'']"

definition contributing_families :: "string list" where
  "contributing_families =
     [''intent.classified'', ''plan.created'', ''plan.revised'', ''plan.validated'',
      ''plan.rejected'', ''task.scheduled'', ''task.started'', ''task.preempted'',
      ''task.completed'', ''task.failed'', ''exec.started'', ''exec.completed'',
      ''exec.timeout'', ''exec.failed'', ''context.assembled'', ''verify.requested'',
      ''verify.passed'', ''verify.failed'', ''storage.committed'', ''storage.rejected'',
      ''fault.recorded'']"

definition registered_families :: "string list" where
  "registered_families =
     birth_family # contributing_families @ terminal_families @ late_tolerant_families"

datatype mat_action = Create | Apply | ApplyTerminal | Fault | Drop | Unregistered

record mat_row =
  mat_action :: mat_action
  mat_next :: mat

text \<open>The family reaches the table as a hashable value; only strings are registered.\<close>

definition in_families :: "pyval \<Rightarrow> string list \<Rightarrow> bool" where
  "in_families family fs \<longleftrightarrow> (case family of PyStr f \<Rightarrow> f \<in> set fs | _ \<Rightarrow> False)"

definition lookup_row :: "mat \<Rightarrow> pyval \<Rightarrow> bool \<Rightarrow> bool \<Rightarrow> mat_row" where
  "lookup_row state family duplicate malformed =
     (if duplicate \<and> state \<in> set (Active # terminal_like) then \<lparr>mat_action = Drop, mat_next = state\<rparr>
      else if \<not> in_families family registered_families then \<lparr>mat_action = Unregistered, mat_next = state\<rparr>
      else if state = Evicted then \<lparr>mat_action = Fault, mat_next = Evicted\<rparr>
      else if state = Absent then
        (if family \<noteq> PyStr birth_family then \<lparr>mat_action = Fault, mat_next = Absent\<rparr>
         else if malformed then \<lparr>mat_action = Fault, mat_next = Absent\<rparr>
         else \<lparr>mat_action = Create, mat_next = Active\<rparr>)
      else if state = Active then
        (if family = PyStr birth_family then \<lparr>mat_action = Fault, mat_next = Active\<rparr>
         else if malformed then \<lparr>mat_action = Fault, mat_next = Active\<rparr>
         else if in_families family terminal_families then \<lparr>mat_action = ApplyTerminal, mat_next = Terminal\<rparr>
         else \<lparr>mat_action = Apply, mat_next = Active\<rparr>)
      else if family = PyStr birth_family then \<lparr>mat_action = Fault, mat_next = state\<rparr>
      else if in_families family late_tolerant_families then
        (if malformed then \<lparr>mat_action = Fault, mat_next = state\<rparr> else \<lparr>mat_action = Apply, mat_next = state\<rparr>)
      else \<lparr>mat_action = Fault, mat_next = state\<rparr>)"

section \<open>Keyed dictionaries\<close>

text \<open>
  A \<open>dict\<close> whose keys are values: \<open>True\<close> and \<open>1\<close> are one key, and an overwritten entry
  keeps its first key. A lookup with an unhashable key raises \<open>TypeError\<close>.
\<close>

type_synonym 'v keyed = "(pyval \<times> 'v) list"

fun kget :: "'v keyed \<Rightarrow> pyval \<Rightarrow> 'v option" where
  "kget [] k = None"
| "kget ((k', v) # d) k = (if hkey k' = hkey k then Some v else kget d k)"

fun kset :: "pyval \<Rightarrow> 'v \<Rightarrow> 'v keyed \<Rightarrow> 'v keyed" where
  "kset k v [] = [(k, v)]"
| "kset k v ((k', v') # d) = (if hkey k' = hkey k then (k', v) # d else (k', v') # kset k v d)"

lemma kget_kset [dict_simps]: "kget (kset k v d) k' = (if hkey k' = hkey k then Some v else kget d k')"
  by (induction d) auto

section \<open>Exceptions\<close>

datatype rsm_exn =
    ReducerFault string
  | ValueError string
  | TypeError
  | KeyError
  | AttributeError
  | ReplayMismatch string
  | Recovering
  | BusRaised
  | StoreRaised store_exn
  | BadDocument

text \<open>\<open>ValueError(prefix + v)\<close>; a \<open>v\<close> that is no string makes the concatenation raise.\<close>

definition value_error :: "string \<Rightarrow> pyval \<Rightarrow> rsm_exn" where
  "value_error pre v = (case v of PyStr s \<Rightarrow> ValueError (pre @ s) | _ \<Rightarrow> TypeError)"

section \<open>Request records\<close>

text \<open>The work block has three keys, each absent until the first write to it.\<close>

record work_block =
  wk_tasks :: "payload keyed option"
  wk_execs :: "payload keyed option"
  wk_commit :: "pyval option"

definition no_work :: work_block where
  "no_work = \<lparr>wk_tasks = None, wk_execs = None, wk_commit = None\<rparr>"

record request =
  rq_id :: pyval
  rq_version :: nat
  rq_identity :: payload
  rq_lifecycle :: payload
  rq_plan :: payload
  rq_work :: work_block
  rq_context :: "pyval keyed"
  rq_verification :: "payload keyed"
  rq_budget :: payload
  rq_failure :: "payload list"
  rq_meta :: payload

text \<open>The blocks named in a call of \<open>evolve\<close> are the ones its argument updates.\<close>

definition evolve :: "request \<Rightarrow> (request \<Rightarrow> request) \<Rightarrow> request" where
  "evolve r upd = (upd r)\<lparr>rq_version := Suc (rq_version r)\<rparr>"

definition birth_record :: "pyval \<Rightarrow> payload \<Rightarrow> request" where
  "birth_record rid identity_fields =
     \<lparr>rq_id = rid, rq_version = 0, rq_identity = identity_fields, rq_lifecycle = [], rq_plan = [],
      rq_work = no_work, rq_context = [], rq_verification = [], rq_budget = [], rq_failure = [],
      rq_meta = [(''seq'', PyInt 0), (''last_event_id'', PyNone), (''reducer_version'', PyInt 1)]\<rparr>"

section \<open>Schemas\<close>

definition schemas :: "(string \<times> string list) list" where
  "schemas =
     [(birth_family, [''declared_type'', ''origin'']),
      (''intent.classified'', [''classification_ref'']),
      (''plan.created'', [''plan_id'', ''revision'']),
      (''plan.revised'', [''plan_id'', ''revision'']),
      (''plan.validated'', [''verdict_ref'']),
      (''plan.rejected'', [''verdict_ref'', ''reason'']),
      (''task.scheduled'', [''task_id'', ''budget_granted'']),
      (''task.started'', [''task_id'']),
      (''task.preempted'', [''task_id'']),
      (''task.completed'', [''task_id'']),
      (''task.failed'', [''task_id'', ''reason'']),
      (''exec.started'', [''exec_id'', ''task_id'']),
      (''exec.completed'', [''exec_id'', ''outcome_ref'']),
      (''exec.timeout'', [''exec_id'']),
      (''exec.failed'', [''exec_id'', ''reason'']),
      (''context.assembled'', [''step'', ''context_package_id'']),
      (''verify.requested'', [''gate'']),
      (''verify.passed'', [''gate'', ''verdict_ref'']),
      (''verify.failed'', [''gate'', ''verdict_ref'']),
      (''storage.committed'', [''commit_ref'']),
      (''storage.rejected'', [''reason'']),
      (''cost.recorded'', [''amount'']),
      (''fault.recorded'', [''reason'']),
      (''request.completed'', []),
      (''request.failed'', [''reason'']),
      (''request.rejected'', [''reason'']),
      (''request.cancelled'', [])]"

text \<open>\<open>event.get(k)\<close>, and \<open>payload[k]\<close> of a key the schema check found.\<close>

definition fld :: "payload \<Rightarrow> string \<Rightarrow> pyval" where
  "fld d k = (case dget d k of None \<Rightarrow> PyNone | Some v \<Rightarrow> v)"

text \<open>Every family has the one schema version 1.\<close>

definition validate :: "string \<Rightarrow> payload \<Rightarrow> rsm_exn + payload" where
  "validate family event =
     (let version = fld event ''schema_version'' in
      case hash_key version of
        None \<Rightarrow> Inl TypeError
      | Some v \<Rightarrow>
          (case (if v = PyInt 1 then dget schemas family else None) of
             None \<Rightarrow> Inl (ReducerFault (''reducer.schema_mismatch:'' @ family @ '':'' @ py_str version))
           | Some schema \<Rightarrow>
               (case fld event ''payload'' of
                  PyDict payload \<Rightarrow>
                    (let missing = filter (\<lambda>f. dget payload f = None) schema in
                     if missing \<noteq> [] then
                       Inl (ReducerFault (''reducer.malformed:'' @ family @ '':'' @ join_with '','' missing))
                     else Inr payload)
                | _ \<Rightarrow> Inl (ReducerFault (''reducer.malformed:'' @ family @ '':no_payload'')))))"

definition failure_entry :: "string \<Rightarrow> payload \<Rightarrow> pyval \<Rightarrow> request \<Rightarrow> payload" where
  "failure_entry family event ref r =
     [(''source_event_id'', fld event ''event_id''), (''family'', PyStr family), (''ref'', ref),
      (''seq'', PyInt (int (length (rq_failure r))))]"

definition add_failure :: "payload \<Rightarrow> request \<Rightarrow> request" where
  "add_failure entry r = r\<lparr>rq_failure := rq_failure r @ [entry]\<rparr>"

definition or_empty :: "'a list option \<Rightarrow> 'a list" where
  "or_empty x = (case x of None \<Rightarrow> [] | Some d \<Rightarrow> d)"

definition task_state :: "work_block \<Rightarrow> pyval \<Rightarrow> string \<Rightarrow> rsm_exn + work_block" where
  "task_state work task_id state =
     (if \<not> hashable task_id then Inl TypeError
      else
        let tasks = or_empty (wk_tasks work);
            entry = dset ''state'' (PyStr state) (or_empty (kget tasks task_id))
        in Inr (work\<lparr>wk_tasks := Some (kset task_id entry tasks)\<rparr>))"

definition exec_state :: "work_block \<Rightarrow> pyval \<Rightarrow> payload \<Rightarrow> rsm_exn + work_block" where
  "exec_state work exec_id new =
     (if \<not> hashable exec_id then Inl TypeError
      else
        let execs = or_empty (wk_execs work);
            entry = foldl (\<lambda>d (k, v). dset k v d) (or_empty (kget execs exec_id)) new
        in Inr (work\<lparr>wk_execs := Some (kset exec_id entry execs)\<rparr>))"

text \<open>\<open>+\<close> and \<open>-\<close> of two values; \<open>None\<close> is the \<open>TypeError\<close>.\<close>

fun py_add :: "pyval \<Rightarrow> pyval \<Rightarrow> pyval option" where
  "py_add (PyStr a) (PyStr b) = Some (PyStr (a @ b))"
| "py_add (PyList a) (PyList b) = Some (PyList (a @ b))"
| "py_add a b = (case (as_int a, as_int b) of (Some i, Some j) \<Rightarrow> Some (PyInt (i + j)) | _ \<Rightarrow> None)"

definition py_sub :: "pyval \<Rightarrow> pyval \<Rightarrow> pyval option" where
  "py_sub a b = (case (as_int a, as_int b) of (Some i, Some j) \<Rightarrow> Some (PyInt (i - j)) | _ \<Rightarrow> None)"

definition get_or_zero :: "payload \<Rightarrow> string \<Rightarrow> pyval" where
  "get_or_zero d k = (case dget d k of None \<Rightarrow> PyInt 0 | Some v \<Rightarrow> v)"

definition add_budget :: "payload \<Rightarrow> string \<Rightarrow> pyval \<Rightarrow> rsm_exn + payload" where
  "add_budget budget k x =
     (case py_add (get_or_zero budget k) x of
        None \<Rightarrow> Inl TypeError
      | Some t \<Rightarrow> Inr (dset k t budget))"

end
