(* ===== verification/RsmReducers.thy ===== *)
theory RsmReducers
  imports Rsm
begin

text \<open>
  The reducers of \<open>rsm/reducers.py\<close>, one per registered family but birth, and the registry
  that dispatches on the family. A reducer checks its schema, builds the blocks it replaces and
  returns the next version of the record; it raises \<open>ReducerFault\<close> on a schema mismatch, and
  \<open>TypeError\<close> where Python would, on an unhashable key or a sum of unlike values.
\<close>

type_synonym reducer = "request \<Rightarrow> payload \<Rightarrow> rsm_exn + request"

definition birth_reducer :: "payload \<Rightarrow> rsm_exn + payload" where
  "birth_reducer event =
     (case validate birth_family event of
        Inl e \<Rightarrow> Inl e
      | Inr p \<Rightarrow> Inr [(''declared_type'', fld p ''declared_type''), (''origin'', fld p ''origin'')])"

section \<open>Plan block\<close>

definition reduce_intent_classified :: reducer where
  "reduce_intent_classified r event =
     (case validate ''intent.classified'' event of
        Inl e \<Rightarrow> Inl e
      | Inr p \<Rightarrow> Inr (evolve r (\<lambda>r. r\<lparr>rq_plan := dset ''classification_ref'' (fld p ''classification_ref'') (rq_plan r)\<rparr>)))"

definition reduce_plan_created :: reducer where
  "reduce_plan_created r event =
     (case validate ''plan.created'' event of
        Inl e \<Rightarrow> Inl e
      | Inr p \<Rightarrow> Inr (evolve r (\<lambda>r. r\<lparr>rq_plan := dset ''revision'' (fld p ''revision'') (dset ''plan_id'' (fld p ''plan_id'') (rq_plan r))\<rparr>)))"

definition reduce_plan_revised :: reducer where
  "reduce_plan_revised r event =
     (case validate ''plan.revised'' event of
        Inl e \<Rightarrow> Inl e
      | Inr p \<Rightarrow> Inr (evolve r (\<lambda>r. r\<lparr>rq_plan := dset ''revision'' (fld p ''revision'') (dset ''plan_id'' (fld p ''plan_id'') (rq_plan r))\<rparr>)))"

definition reduce_plan_validated :: reducer where
  "reduce_plan_validated r event =
     (case validate ''plan.validated'' event of
        Inl e \<Rightarrow> Inl e
      | Inr p \<Rightarrow> Inr (evolve r (\<lambda>r. r\<lparr>rq_plan := dset ''verdict_ref'' (fld p ''verdict_ref'') (dset ''status'' (PyStr ''validated'') (rq_plan r))\<rparr>)))"

definition reduce_plan_rejected :: reducer where
  "reduce_plan_rejected r event =
     (case validate ''plan.rejected'' event of
        Inl e \<Rightarrow> Inl e
      | Inr p \<Rightarrow> Inr (evolve r (\<lambda>r. 
          add_failure (failure_entry ''plan.rejected'' event PyNone r)
            (r\<lparr>rq_plan := dset ''verdict_ref'' (fld p ''verdict_ref'') (dset ''status'' (PyStr ''rejected'') (rq_plan r))\<rparr>))))"

section \<open>Work and budget blocks\<close>

definition reduce_task_scheduled :: reducer where
  "reduce_task_scheduled r event =
     (case validate ''task.scheduled'' event of
        Inl e \<Rightarrow> Inl e
      | Inr p \<Rightarrow>
          (case task_state (rq_work r) (fld p ''task_id'') ''scheduled'' of
             Inl e \<Rightarrow> Inl e
           | Inr w \<Rightarrow>
               (case add_budget (rq_budget r) ''granted'' (fld p ''budget_granted'') of
                  Inl e \<Rightarrow> Inl e
                | Inr b \<Rightarrow> Inr (evolve r (\<lambda>r. r\<lparr>rq_work := w, rq_budget := b\<rparr>)))))"

definition reduce_task_started :: reducer where
  "reduce_task_started r event =
     (case validate ''task.started'' event of
        Inl e \<Rightarrow> Inl e
      | Inr p \<Rightarrow>
          (case task_state (rq_work r) (fld p ''task_id'') ''started'' of
             Inl e \<Rightarrow> Inl e
           | Inr w \<Rightarrow> Inr (evolve r (\<lambda>r. r\<lparr>rq_work := w\<rparr>))))"

definition reduce_task_preempted :: reducer where
  "reduce_task_preempted r event =
     (case validate ''task.preempted'' event of
        Inl e \<Rightarrow> Inl e
      | Inr p \<Rightarrow>
          (case task_state (rq_work r) (fld p ''task_id'') ''preempted'' of
             Inl e \<Rightarrow> Inl e
           | Inr w \<Rightarrow> Inr (evolve r (\<lambda>r. r\<lparr>rq_work := w\<rparr>))))"

definition reduce_task_completed :: reducer where
  "reduce_task_completed r event =
     (case validate ''task.completed'' event of
        Inl e \<Rightarrow> Inl e
      | Inr p \<Rightarrow>
          (case task_state (rq_work r) (fld p ''task_id'') ''completed'' of
             Inl e \<Rightarrow> Inl e
           | Inr w \<Rightarrow> Inr (evolve r (\<lambda>r. r\<lparr>rq_work := w\<rparr>))))"

definition reduce_task_failed :: reducer where
  "reduce_task_failed r event =
     (case validate ''task.failed'' event of
        Inl e \<Rightarrow> Inl e
      | Inr p \<Rightarrow>
          (case task_state (rq_work r) (fld p ''task_id'') ''failed'' of
             Inl e \<Rightarrow> Inl e
           | Inr w \<Rightarrow> Inr (evolve r (\<lambda>r. 
               add_failure (failure_entry ''task.failed'' event (fld p ''task_id'') r) (r\<lparr>rq_work := w\<rparr>)))))"

definition reduce_exec_started :: reducer where
  "reduce_exec_started r event =
     (case validate ''exec.started'' event of
        Inl e \<Rightarrow> Inl e
      | Inr p \<Rightarrow>
          (case exec_state (rq_work r) (fld p ''exec_id'') [(''state'', PyStr ''started''), (''task_id'', fld p ''task_id'')] of
             Inl e \<Rightarrow> Inl e
           | Inr w \<Rightarrow> Inr (evolve r (\<lambda>r. r\<lparr>rq_work := w\<rparr>))))"

definition reduce_exec_completed :: reducer where
  "reduce_exec_completed r event =
     (case validate ''exec.completed'' event of
        Inl e \<Rightarrow> Inl e
      | Inr p \<Rightarrow>
          (case exec_state (rq_work r) (fld p ''exec_id'') [(''state'', PyStr ''completed''), (''outcome_ref'', fld p ''outcome_ref'')] of
             Inl e \<Rightarrow> Inl e
           | Inr w \<Rightarrow> Inr (evolve r (\<lambda>r. r\<lparr>rq_work := w\<rparr>))))"

definition reduce_exec_timeout :: reducer where
  "reduce_exec_timeout r event =
     (case validate ''exec.timeout'' event of
        Inl e \<Rightarrow> Inl e
      | Inr p \<Rightarrow>
          (case exec_state (rq_work r) (fld p ''exec_id'') [(''state'', PyStr ''timeout'')] of
             Inl e \<Rightarrow> Inl e
           | Inr w \<Rightarrow> Inr (evolve r (\<lambda>r. 
               add_failure (failure_entry ''exec.timeout'' event (fld p ''exec_id'') r) (r\<lparr>rq_work := w\<rparr>)))))"

definition reduce_exec_failed :: reducer where
  "reduce_exec_failed r event =
     (case validate ''exec.failed'' event of
        Inl e \<Rightarrow> Inl e
      | Inr p \<Rightarrow>
          (case exec_state (rq_work r) (fld p ''exec_id'') [(''state'', PyStr ''failed'')] of
             Inl e \<Rightarrow> Inl e
           | Inr w \<Rightarrow> Inr (evolve r (\<lambda>r. 
               add_failure (failure_entry ''exec.failed'' event (fld p ''exec_id'') r) (r\<lparr>rq_work := w\<rparr>)))))"

section \<open>Context and verification blocks\<close>

definition reduce_context_assembled :: reducer where
  "reduce_context_assembled r event =
     (case validate ''context.assembled'' event of
        Inl e \<Rightarrow> Inl e
      | Inr p \<Rightarrow>
          (if \<not> hashable (fld p ''step'') then Inl TypeError
           else Inr (evolve r (\<lambda>r. r\<lparr>rq_context := kset (fld p ''step'') (fld p ''context_package_id'') (rq_context r)\<rparr>))))"

text \<open>The assignment \<open>verification[payload["gate"]] = entry\<close>.\<close>

definition set_gate :: "request \<Rightarrow> pyval \<Rightarrow> payload \<Rightarrow> rsm_exn + payload keyed" where
  "set_gate r gate entry =
     (if \<not> hashable gate then Inl TypeError else Inr (kset gate entry (rq_verification r)))"

definition reduce_verify_requested :: reducer where
  "reduce_verify_requested r event =
     (case validate ''verify.requested'' event of
        Inl e \<Rightarrow> Inl e
      | Inr p \<Rightarrow>
          (case set_gate r (fld p ''gate'') [(''state'', PyStr ''requested'')] of
             Inl e \<Rightarrow> Inl e
           | Inr w \<Rightarrow> Inr (evolve r (\<lambda>r. r\<lparr>rq_verification := w\<rparr>))))"

definition reduce_verify_passed :: reducer where
  "reduce_verify_passed r event =
     (case validate ''verify.passed'' event of
        Inl e \<Rightarrow> Inl e
      | Inr p \<Rightarrow>
          (case set_gate r (fld p ''gate'')
                 [(''state'', PyStr ''passed''), (''verdict_ref'', fld p ''verdict_ref'')] of
             Inl e \<Rightarrow> Inl e
           | Inr w \<Rightarrow> Inr (evolve r (\<lambda>r. r\<lparr>rq_verification := w\<rparr>))))"

definition reduce_verify_failed :: reducer where
  "reduce_verify_failed r event =
     (case validate ''verify.failed'' event of
        Inl e \<Rightarrow> Inl e
      | Inr p \<Rightarrow>
          (case set_gate r (fld p ''gate'')
                 [(''state'', PyStr ''failed''), (''verdict_ref'', fld p ''verdict_ref'')] of
             Inl e \<Rightarrow> Inl e
           | Inr w \<Rightarrow> Inr (evolve r (\<lambda>r. 
               add_failure (failure_entry ''verify.failed'' event (fld p ''gate'') r) (r\<lparr>rq_verification := w\<rparr>)))))"

section \<open>Storage, cost, fault and lifecycle families\<close>

definition reduce_storage_committed :: reducer where
  "reduce_storage_committed r event =
     (case validate ''storage.committed'' event of
        Inl e \<Rightarrow> Inl e
      | Inr p \<Rightarrow> Inr (evolve r (\<lambda>r. r\<lparr>rq_work := (rq_work r)\<lparr>wk_commit := Some (fld p ''commit_ref'')\<rparr>\<rparr>)))"

definition reduce_storage_rejected :: reducer where
  "reduce_storage_rejected r event =
     (case validate ''storage.rejected'' event of
        Inl e \<Rightarrow> Inl e
      | Inr p \<Rightarrow> Inr (evolve r (\<lambda>r. 
          add_failure (failure_entry ''storage.rejected'' event PyNone r)
            (r\<lparr>rq_work := (rq_work r)\<lparr>wk_commit := Some PyNone\<rparr>\<rparr>))))"

definition reduce_cost_recorded :: reducer where
  "reduce_cost_recorded r event =
     (case validate ''cost.recorded'' event of
        Inl e \<Rightarrow> Inl e
      | Inr p \<Rightarrow>
          (case add_budget (rq_budget r) ''consumed'' (fld p ''amount'') of
             Inl e \<Rightarrow> Inl e
           | Inr w \<Rightarrow> Inr (evolve r (\<lambda>r. r\<lparr>rq_budget := w\<rparr>))))"

definition reduce_fault_recorded :: reducer where
  "reduce_fault_recorded r event =
     (case validate ''fault.recorded'' event of
        Inl e \<Rightarrow> Inl e
      | Inr p \<Rightarrow> Inr (evolve r (\<lambda>r. add_failure (failure_entry ''fault.recorded'' event (fld p ''reason'') r) r)))"

definition reduce_request_completed :: reducer where
  "reduce_request_completed r event =
     (case validate ''request.completed'' event of
        Inl e \<Rightarrow> Inl e
      | Inr p \<Rightarrow> Inr (evolve r (\<lambda>r. r\<lparr>rq_lifecycle := [(''state'', PyStr ''completed'')]\<rparr>)))"

definition reduce_request_rejected :: reducer where
  "reduce_request_rejected r event =
     (case validate ''request.rejected'' event of
        Inl e \<Rightarrow> Inl e
      | Inr p \<Rightarrow> Inr (evolve r (\<lambda>r. 
          r\<lparr>rq_lifecycle := [(''state'', PyStr ''rejected''), (''reason'', fld p ''reason'')]\<rparr>)))"

definition reduce_request_cancelled :: reducer where
  "reduce_request_cancelled r event =
     (case validate ''request.cancelled'' event of
        Inl e \<Rightarrow> Inl e
      | Inr p \<Rightarrow> Inr (evolve r (\<lambda>r. r\<lparr>rq_lifecycle := [(''state'', PyStr ''cancelled'')]\<rparr>)))"

definition reduce_request_failed :: reducer where
  "reduce_request_failed r event =
     (case validate ''request.failed'' event of
        Inl e \<Rightarrow> Inl e
      | Inr p \<Rightarrow> Inr (evolve r (\<lambda>r. 
          add_failure (failure_entry ''request.failed'' event PyNone r)
            (r\<lparr>rq_lifecycle := [(''state'', PyStr ''failed''), (''reason'', fld p ''reason'')]\<rparr>))))"

section \<open>The registry\<close>

definition reducer_registry :: "(string \<times> reducer) list" where
  "reducer_registry =
     [(''intent.classified'', reduce_intent_classified),
      (''plan.created'', reduce_plan_created),
      (''plan.revised'', reduce_plan_revised),
      (''plan.validated'', reduce_plan_validated),
      (''plan.rejected'', reduce_plan_rejected),
      (''task.scheduled'', reduce_task_scheduled),
      (''task.started'', reduce_task_started),
      (''task.preempted'', reduce_task_preempted),
      (''task.completed'', reduce_task_completed),
      (''task.failed'', reduce_task_failed),
      (''exec.started'', reduce_exec_started),
      (''exec.completed'', reduce_exec_completed),
      (''exec.timeout'', reduce_exec_timeout),
      (''exec.failed'', reduce_exec_failed),
      (''context.assembled'', reduce_context_assembled),
      (''verify.requested'', reduce_verify_requested),
      (''verify.passed'', reduce_verify_passed),
      (''verify.failed'', reduce_verify_failed),
      (''storage.committed'', reduce_storage_committed),
      (''storage.rejected'', reduce_storage_rejected),
      (''cost.recorded'', reduce_cost_recorded),
      (''fault.recorded'', reduce_fault_recorded),
      (''request.completed'', reduce_request_completed),
      (''request.failed'', reduce_request_failed),
      (''request.rejected'', reduce_request_rejected),
      (''request.cancelled'', reduce_request_cancelled)]"

lemmas reducer_defs =
  reduce_intent_classified_def
  reduce_plan_created_def
  reduce_plan_revised_def
  reduce_plan_validated_def
  reduce_plan_rejected_def
  reduce_task_scheduled_def
  reduce_task_started_def
  reduce_task_preempted_def
  reduce_task_completed_def
  reduce_task_failed_def
  reduce_exec_started_def
  reduce_exec_completed_def
  reduce_exec_timeout_def
  reduce_exec_failed_def
  reduce_context_assembled_def
  reduce_verify_requested_def
  reduce_verify_passed_def
  reduce_verify_failed_def
  reduce_storage_committed_def
  reduce_storage_rejected_def
  reduce_cost_recorded_def
  reduce_fault_recorded_def
  reduce_request_completed_def
  reduce_request_failed_def
  reduce_request_rejected_def
  reduce_request_cancelled_def

definition reducible :: "string list" where
  "reducible =
     [''intent.classified'', ''plan.created'', ''plan.revised'', ''plan.validated'', ''plan.rejected'', ''task.scheduled'', ''task.started'', ''task.preempted'', ''task.completed'', ''task.failed'', ''exec.started'', ''exec.completed'', ''exec.timeout'', ''exec.failed'', ''context.assembled'', ''verify.requested'', ''verify.passed'', ''verify.failed'', ''storage.committed'', ''storage.rejected'', ''cost.recorded'', ''fault.recorded'', ''request.completed'', ''request.failed'', ''request.rejected'', ''request.cancelled'']"

lemma registry_keys: "map fst reducer_registry = reducible"
  by (simp add: reducer_registry_def reducible_def)

lemma reducible_families: "set reducible = set registered_families - {birth_family}"
  by code_simp

lemma registry_total:
  assumes "f \<in> set registered_families" and "f \<noteq> birth_family"
  shows "\<exists>g. dget reducer_registry f = Some g"
  using assms reducible_families registry_keys
  by (metis DiffI empty_iff insert_iff map_of_eq_None_iff image_set not_None_eq)

end
