(* ===== verification/RsmPipeline.thy ===== *)
theory RsmPipeline
  imports RsmReducers
begin

text \<open>
  The mutable part of the request-state manager: the applied-event journal
  (\<open>rsm/journal.py\<close>, \<open>rsm/dedup.py\<close>), the record store (\<open>rsm/store.py\<close>), telemetry
  (\<open>rsm/telemetry.py\<close>) and the ingest pipeline (\<open>rsm/ingest.py\<close>). The clock is read by the
  caller of an operation: \<open>now\<close> is its value. A request id is compared as a dictionary key.
\<close>

section \<open>Journal\<close>

type_synonym journal_entry = "pyval \<times> nat \<times> int"

record rsm_journal =
  jr_entries :: "journal_entry list keyed"
  jr_ids :: "pyval list keyed"

definition empty_journal :: rsm_journal where
  "empty_journal = \<lparr>jr_entries = [], jr_ids = []\<rparr>"

definition journal_has :: "rsm_journal \<Rightarrow> pyval \<Rightarrow> pyval \<Rightarrow> rsm_exn + bool" where
  "journal_has j rid eid =
     (if \<not> hashable rid then Inl TypeError
      else case kget (jr_ids j) rid of
        None \<Rightarrow> Inr False
      | Some ids \<Rightarrow> if \<not> hashable eid then Inl TypeError else Inr (hkey eid \<in> set ids))"

definition applied_entries :: "rsm_journal \<Rightarrow> pyval \<Rightarrow> journal_entry list" where
  "applied_entries j rid = or_empty (kget (jr_entries j) rid)"

text \<open>The two \<open>setdefault\<close> calls take effect before the checks raise.\<close>

definition applied_append ::
  "rsm_journal \<Rightarrow> pyval \<Rightarrow> pyval \<Rightarrow> int \<Rightarrow> rsm_journal \<times> (rsm_exn + nat)" where
  "applied_append j rid eid version =
     (if \<not> hashable rid then (j, Inl TypeError)
      else
        let es = applied_entries j rid;
            ids = or_empty (kget (jr_ids j) rid);
            j0 = \<lparr>jr_entries = kset rid es (jr_entries j), jr_ids = kset rid ids (jr_ids j)\<rparr>
        in if \<not> hashable eid then (j0, Inl TypeError)
           else if hkey eid \<in> set ids then (j0, Inl (value_error ''journal.duplicate_append:'' eid))
           else (\<lparr>jr_entries = kset rid (es @ [(eid, length es, version)]) (jr_entries j),
                  jr_ids = kset rid (hkey eid # ids) (jr_ids j)\<rparr>, Inr (length es)))"

definition is_duplicate :: "rsm_journal \<Rightarrow> pyval \<Rightarrow> pyval \<Rightarrow> rsm_exn + bool" where
  "is_duplicate j rid eid = journal_has j rid eid"

section \<open>Store\<close>

record rsm_store =
  rs_active :: "(pyval, request) dict"
  rs_retained :: "(pyval, request) dict"
  rs_state :: "(pyval, mat) dict"
  rs_evicted :: "pyval list"
  rs_persisted :: "(pyval, int) dict"

definition empty_rsm_store :: rsm_store where
  "empty_rsm_store = \<lparr>rs_active = [], rs_retained = [], rs_state = [], rs_evicted = [], rs_persisted = []\<rparr>"

definition state_of :: "rsm_store \<Rightarrow> pyval \<Rightarrow> mat" where
  "state_of s rid =
     (if hkey rid \<in> set (rs_evicted s) then Evicted
      else case dget (rs_state s) (hkey rid) of None \<Rightarrow> Absent | Some m \<Rightarrow> m)"

definition store_get :: "rsm_store \<Rightarrow> pyval \<Rightarrow> request option" where
  "store_get s rid =
     (case dget (rs_active s) (hkey rid) of Some r \<Rightarrow> Some r | None \<Rightarrow> dget (rs_retained s) (hkey rid))"

definition store_contains :: "rsm_store \<Rightarrow> pyval \<Rightarrow> bool" where
  "store_contains s rid \<longleftrightarrow> dget (rs_state s) (hkey rid) \<noteq> None"

definition store_ids :: "rsm_store \<Rightarrow> pyval list" where
  "store_ids s = dkeys (rs_state s)"

definition store_create :: "rsm_store \<Rightarrow> pyval \<Rightarrow> payload \<Rightarrow> rsm_exn + rsm_store" where
  "store_create s rid identity_fields =
     (if state_of s rid \<noteq> Absent then Inl (value_error ''store.duplicate_create:'' rid)
      else Inr (s\<lparr>rs_active := dset (hkey rid) (birth_record rid identity_fields) (rs_active s),
                  rs_state := dset (hkey rid) Active (rs_state s)\<rparr>))"

definition store_apply :: "rsm_store \<Rightarrow> pyval \<Rightarrow> request \<Rightarrow> rsm_exn + rsm_store" where
  "store_apply s rid new =
     (if dget (rs_active s) (hkey rid) \<noteq> None then
        Inr (s\<lparr>rs_active := dset (hkey rid) new (rs_active s)\<rparr>)
      else if dget (rs_retained s) (hkey rid) \<noteq> None then
        Inr (s\<lparr>rs_retained := dset (hkey rid) new (rs_retained s)\<rparr>)
      else Inl (value_error ''store.not_found:'' rid))"

definition store_apply_terminal :: "rsm_store \<Rightarrow> pyval \<Rightarrow> request \<Rightarrow> rsm_exn + rsm_store" where
  "store_apply_terminal s rid new =
     (if state_of s rid \<noteq> Active then Inl (value_error ''store.not_active:'' rid)
      else Inr (s\<lparr>rs_active := dset (hkey rid) new (rs_active s),
                  rs_state := dset (hkey rid) Terminal (rs_state s)\<rparr>))"

definition mark_persisted :: "rsm_store \<Rightarrow> pyval \<Rightarrow> int \<Rightarrow> rsm_exn + rsm_store" where
  "mark_persisted s rid now =
     (if state_of s rid \<noteq> Terminal then Inl (value_error ''store.not_terminal:'' rid)
      else Inr (s\<lparr>rs_state := dset (hkey rid) Persisted (rs_state s),
                  rs_persisted := dset (hkey rid) now (rs_persisted s)\<rparr>))"

definition mark_evicted :: "rsm_store \<Rightarrow> pyval \<Rightarrow> rsm_store" where
  "mark_evicted s rid =
     s\<lparr>rs_active := ddel (hkey rid) (rs_active s), rs_retained := ddel (hkey rid) (rs_retained s),
       rs_state := ddel (hkey rid) (rs_state s), rs_persisted := ddel (hkey rid) (rs_persisted s),
       rs_evicted := List.insert (hkey rid) (rs_evicted s)\<rparr>"

definition store_seed :: "rsm_store \<Rightarrow> pyval \<Rightarrow> request \<Rightarrow> rsm_exn + rsm_store" where
  "store_seed s rid r =
     (if state_of s rid \<noteq> Absent then Inl (value_error ''store.seed_conflict:'' rid)
      else Inr (s\<lparr>rs_active := dset (hkey rid) r (rs_active s),
                  rs_state := dset (hkey rid) Active (rs_state s)\<rparr>))"

definition eviction_allowed :: "bool \<Rightarrow> bool \<Rightarrow> bool \<Rightarrow> bool" where
  "eviction_allowed is_terminal is_persisted elapsed \<longleftrightarrow> is_terminal \<and> is_persisted \<and> elapsed"

definition evict_gate :: "rsm_store \<Rightarrow> pyval \<Rightarrow> int \<Rightarrow> int \<Rightarrow> rsm_store \<times> bool" where
  "evict_gate s rid now window =
     (let at = dget (rs_persisted s) (hkey rid) in
      if eviction_allowed (state_of s rid \<in> set terminal_like) (at \<noteq> None)
           (case at of None \<Rightarrow> False | Some t \<Rightarrow> window \<le> now - t)
      then (mark_evicted s rid, True) else (s, False))"

section \<open>Telemetry\<close>

record 'b telemetry =
  tm_bus :: 'b
  tm_interval :: int
  tm_last :: "(pyval, int) dict"
  tm_updated :: nat
  tm_evicted :: nat
  tm_faults :: nat
  tm_backlog :: nat

text \<open>An emission; an exception of the bus leaves the rest of the call undone.\<close>

definition tm_emit ::
  "'b publisher \<Rightarrow> 'b telemetry \<Rightarrow> string \<Rightarrow> payload \<Rightarrow> 'b telemetry \<times> bool" where
  "tm_emit pub t topic msg = (case pub (tm_bus t) topic (PyDict msg) of (b, ok) \<Rightarrow> (t\<lparr>tm_bus := b\<rparr>, ok))"

definition state_updated ::
  "'b publisher \<Rightarrow> 'b telemetry \<Rightarrow> int \<Rightarrow> pyval \<Rightarrow> pyval \<Rightarrow> bool \<Rightarrow> 'b telemetry \<times> (rsm_exn + bool)" where
  "state_updated pub t now rid family immediate =
     (if \<not> immediate \<and> (case dget (tm_last t) (hkey rid) of
                            None \<Rightarrow> False | Some prev \<Rightarrow> now - prev < tm_interval t)
      then (t\<lparr>tm_backlog := Suc (tm_backlog t)\<rparr>, Inr False)
      else case tm_emit pub t ''state.updated''
               [(''request_id'', rid), (''family'', family), (''at'', PyInt now)] of
        (t', False) \<Rightarrow> (t', Inl BusRaised)
      | (t', True) \<Rightarrow> (t'\<lparr>tm_last := dset (hkey rid) now (tm_last t'),
                          tm_updated := Suc (tm_updated t')\<rparr>, Inr True))"

definition state_evicted ::
  "'b publisher \<Rightarrow> 'b telemetry \<Rightarrow> int \<Rightarrow> pyval \<Rightarrow> 'b telemetry \<times> (rsm_exn + unit)" where
  "state_evicted pub t now rid =
     (case tm_emit pub t ''state.evicted'' [(''request_id'', rid), (''at'', PyInt now)] of
        (t', False) \<Rightarrow> (t', Inl BusRaised)
      | (t', True) \<Rightarrow> (t'\<lparr>tm_evicted := Suc (tm_evicted t')\<rparr>, Inr ()))"

definition fault_recorded ::
  "'b publisher \<Rightarrow> 'b telemetry \<Rightarrow> int \<Rightarrow> pyval \<Rightarrow> pyval \<Rightarrow> pyval \<Rightarrow> 'b telemetry \<times> (rsm_exn + unit)" where
  "fault_recorded pub t now rid family reason =
     (case tm_emit pub t ''fault.recorded''
             [(''request_id'', rid), (''family'', family), (''reason'', reason), (''at'', PyInt now)] of
        (t', False) \<Rightarrow> (t', Inl BusRaised)
      | (t', True) \<Rightarrow> (t'\<lparr>tm_faults := Suc (tm_faults t')\<rparr>, Inr ()))"

text \<open>The second clock reading is the one of the notification.\<close>

definition evict_and_notify ::
  "'b publisher \<Rightarrow> rsm_store \<Rightarrow> 'b telemetry \<Rightarrow> pyval \<Rightarrow> int \<Rightarrow> int \<Rightarrow> int
     \<Rightarrow> rsm_store \<times> 'b telemetry \<times> (rsm_exn + bool)" where
  "evict_and_notify pub s t rid now now' window =
     (case evict_gate s rid now window of
        (s', False) \<Rightarrow> (s', t, Inr False)
      | (s', True) \<Rightarrow>
          (case state_evicted pub t now' rid of
             (t', Inl e) \<Rightarrow> (s', t', Inl e)
           | (t', Inr _) \<Rightarrow> (s', t', Inr True)))"

section \<open>Ingest\<close>

datatype ingest_result = Applied | Dropped | Faulted | UnregisteredOut

record 'b ingest =
  ig_store :: rsm_store
  ig_journal :: rsm_journal
  ig_applied :: nat
  ig_dedup :: nat
  ig_fault :: nat
  ig_unregistered :: nat
  ig_telemetry :: "'b telemetry option"

definition new_ingest :: "rsm_store \<Rightarrow> rsm_journal \<Rightarrow> 'b telemetry option \<Rightarrow> 'b ingest" where
  "new_ingest s j t = \<lparr>ig_store = s, ig_journal = j, ig_applied = 0, ig_dedup = 0, ig_fault = 0,
     ig_unregistered = 0, ig_telemetry = t\<rparr>"

definition telemetry_health :: "'b ingest \<Rightarrow> 'b telemetry \<Rightarrow> (string \<times> nat) list" where
  "telemetry_health g t =
     [(''applied'', ig_applied g), (''dedup_drop'', ig_dedup g), (''fault'', ig_fault g),
      (''unregistered'', ig_unregistered g), (''coalescing_backlog'', tm_backlog t)]"

definition make_event :: "pyval \<Rightarrow> pyval \<Rightarrow> pyval \<Rightarrow> pyval \<Rightarrow> payload \<Rightarrow> payload" where
  "make_event event_id family rid version p =
     [(''event_id'', event_id), (''family'', family), (''request_id'', rid),
      (''schema_version'', version), (''payload'', PyDict p)]"

definition tell_fault ::
  "'b publisher \<Rightarrow> 'b ingest \<Rightarrow> int \<Rightarrow> pyval \<Rightarrow> pyval \<Rightarrow> pyval \<Rightarrow> 'b ingest \<times> (rsm_exn + ingest_result)" where
  "tell_fault pub g now rid family reason =
     (case ig_telemetry g of
        None \<Rightarrow> (g, Inr Faulted)
      | Some t \<Rightarrow>
          (case fault_recorded pub t now rid family reason of
             (t', Inl e) \<Rightarrow> (g\<lparr>ig_telemetry := Some t'\<rparr>, Inl e)
           | (t', Inr _) \<Rightarrow> (g\<lparr>ig_telemetry := Some t'\<rparr>, Inr Faulted)))"

definition tell_update ::
  "'b publisher \<Rightarrow> 'b ingest \<Rightarrow> int \<Rightarrow> pyval \<Rightarrow> pyval \<Rightarrow> bool \<Rightarrow> 'b ingest \<times> (rsm_exn + ingest_result)" where
  "tell_update pub g now rid family immediate =
     (case ig_telemetry g of
        None \<Rightarrow> (g, Inr Applied)
      | Some t \<Rightarrow>
          (case state_updated pub t now rid family immediate of
             (t', Inl e) \<Rightarrow> (g\<lparr>ig_telemetry := Some t'\<rparr>, Inl e)
           | (t', Inr _) \<Rightarrow> (g\<lparr>ig_telemetry := Some t'\<rparr>, Inr Applied)))"

text \<open>The step of the pipeline that changes the store: birth, or the family's reducer.\<close>

definition ingest_apply :: "rsm_store \<Rightarrow> mat_action \<Rightarrow> payload \<Rightarrow> rsm_exn + rsm_store" where
  "ingest_apply s act event =
     (let rid = fld event ''request_id'' in
      if act = Create then
        (case birth_reducer event of Inl e \<Rightarrow> Inl e | Inr fs \<Rightarrow> store_create s rid fs)
      else
        case Option.bind (as_str (fld event ''family'')) (dget reducer_registry) of
          None \<Rightarrow> Inl KeyError
        | Some reducer \<Rightarrow>
            (case store_get s rid of
               None \<Rightarrow> Inl AttributeError
             | Some current \<Rightarrow>
                 (case reducer current event of
                    Inl e \<Rightarrow> Inl e
                  | Inr new \<Rightarrow>
                      (if act = ApplyTerminal then store_apply_terminal s rid new
                       else store_apply s rid new))))"

definition process ::
  "'b publisher \<Rightarrow> int \<Rightarrow> 'b ingest \<Rightarrow> payload \<Rightarrow> 'b ingest \<times> (rsm_exn + ingest_result)" where
  "process pub now g event =
     (let rid = fld event ''request_id''; eid = fld event ''event_id''; family = fld event ''family'' in
      if \<not> truthy rid \<or> \<not> truthy eid \<or> \<not> truthy family then
        tell_fault pub (g\<lparr>ig_fault := Suc (ig_fault g)\<rparr>) now PyNone PyNone (PyStr ''envelope_malformed'')
      else case journal_has (ig_journal g) rid eid of
        Inl e \<Rightarrow> (g, Inl e)
      | Inr True \<Rightarrow> (g\<lparr>ig_dedup := Suc (ig_dedup g)\<rparr>, Inr Dropped)
      | Inr False \<Rightarrow>
          (if \<not> hashable family then (g, Inl TypeError)
           else
             let act = mat_action (lookup_row (state_of (ig_store g) rid) family False False) in
             if act = Unregistered then
               (g\<lparr>ig_unregistered := Suc (ig_unregistered g)\<rparr>, Inr UnregisteredOut)
             else if act = Fault then
               tell_fault pub (g\<lparr>ig_fault := Suc (ig_fault g)\<rparr>) now rid family PyNone
             else case ingest_apply (ig_store g) act event of
               Inl (ReducerFault reason) \<Rightarrow>
                 tell_fault pub (g\<lparr>ig_fault := Suc (ig_fault g)\<rparr>) now rid family (PyStr reason)
             | Inl e \<Rightarrow> (g, Inl e)
             | Inr s \<Rightarrow>
                 (case applied_append (ig_journal g) rid eid 1 of
                    (j, Inl e) \<Rightarrow> (g\<lparr>ig_store := s, ig_journal := j\<rparr>, Inl e)
                  | (j, Inr _) \<Rightarrow>
                      tell_update pub
                        (g\<lparr>ig_store := s, ig_journal := j, ig_applied := Suc (ig_applied g)\<rparr>)
                        now rid family (act \<in> {Create, ApplyTerminal}))))"

end
