(* ===== verification/RsmInv.thy ===== *)
theory RsmInv
  imports RsmPipeline
begin

text \<open>
  Facts about the request-state manager: what one reducer may change, what one event may change
  in the store and the journal, the invariant of the store, and the steps of the manager as a
  relation with the order in which a request's record moves through its states.
\<close>

lemma as_str_eq: "as_str v = Some s \<longleftrightarrow> v = PyStr s"
  by (cases v) auto

section \<open>What a reducer changes\<close>

definition grown :: "request \<Rightarrow> request \<Rightarrow> bool" where
  "grown r r' \<longleftrightarrow> rq_id r' = rq_id r \<and> rq_identity r' = rq_identity r \<and> rq_meta r' = rq_meta r
     \<and> rq_version r \<le> rq_version r' \<and> (\<exists>more. rq_failure r' = rq_failure r @ more)"

definition budget_only :: "request \<Rightarrow> request \<Rightarrow> bool" where
  "budget_only r r' \<longleftrightarrow> r'\<lparr>rq_budget := rq_budget r, rq_version := rq_version r\<rparr> = r"

lemma grown_refl [intro, simp]: "grown r r"
  by (simp add: grown_def)

lemma grown_trans: "grown r s \<Longrightarrow> grown s t \<Longrightarrow> grown r t"
  by (auto simp: grown_def)

lemma settled_refl [intro, simp]: "budget_only r r"
  by (simp add: budget_only_def)

lemma settled_fields:
  "budget_only r r' \<longleftrightarrow> rq_id r' = rq_id r \<and> rq_identity r' = rq_identity r \<and> rq_lifecycle r' = rq_lifecycle r
     \<and> rq_plan r' = rq_plan r \<and> rq_work r' = rq_work r \<and> rq_context r' = rq_context r
     \<and> rq_verification r' = rq_verification r \<and> rq_failure r' = rq_failure r \<and> rq_meta r' = rq_meta r"
  by (cases r; cases r') (auto simp: budget_only_def)

lemma settled_trans: "budget_only r s \<Longrightarrow> budget_only s t \<Longrightarrow> budget_only r t"
  by (simp add: settled_fields)

lemma evolve_version [simp]: "rq_version (evolve r upd) = Suc (rq_version r)"
  by (simp add: evolve_def)

lemma reducer_grown:
  assumes "dget reducer_registry f = Some red" and "red r event = Inr r'"
  shows "grown r r' \<and> rq_version r' = Suc (rq_version r)"
proof -
  from assms(1) have "(f, red) \<in> set reducer_registry" by (rule map_of_SomeD)
  with assms(2) show ?thesis
    unfolding reducer_registry_def
    by (simp only: set_simps insert_iff empty_iff prod.inject)
      (elim disjE conjE; auto simp: reducer_defs evolve_def add_failure_def grown_def
        split: sum.splits if_splits)
qed

lemma cost_settled: "reduce_cost_recorded r event = Inr r' \<Longrightarrow> budget_only r r'"
  by (auto simp: reduce_cost_recorded_def evolve_def settled_fields split: sum.splits)

lemma registry_cost: "dget reducer_registry ''cost.recorded'' = Some reduce_cost_recorded"
  by (simp add: reducer_registry_def)

section \<open>What an event changes\<close>

definition event_rid :: "payload \<Rightarrow> pyval" where
  "event_rid event = fld event ''request_id''"

definition event_eid :: "payload \<Rightarrow> pyval" where
  "event_eid event = fld event ''event_id''"

text \<open>The store before and after the step that applies an event.\<close>

lemma apply_event_cases [consumes 1, case_names born changed]:
  assumes "ingest_apply s act event = Inr s'"
  obtains fs where "act = Create" "birth_reducer event = Inr fs" "state_of s (event_rid event) = Absent"
      "store_create s (event_rid event) fs = Inr s'"
  | f red r r' where "act \<noteq> Create" "fld event ''family'' = PyStr f" "dget reducer_registry f = Some red"
      "store_get s (event_rid event) = Some r" "red r event = Inr r'"
      "(if act = ApplyTerminal then store_apply_terminal s (event_rid event) r'
        else store_apply s (event_rid event) r') = Inr s'"
proof (cases "act = Create")
  case True
  with assms obtain fs where "birth_reducer event = Inr fs" "store_create s (event_rid event) fs = Inr s'"
    by (auto simp: ingest_apply_def event_rid_def [symmetric] Let_def split: sum.splits)
  with True that(1) show ?thesis by (auto simp: store_create_def split: if_splits)
next
  case False
  with assms obtain f red r r' where "fld event ''family'' = PyStr f" "dget reducer_registry f = Some red"
      "store_get s (event_rid event) = Some r" "red r event = Inr r'"
      "(if act = ApplyTerminal then store_apply_terminal s (event_rid event) r'
        else store_apply s (event_rid event) r') = Inr s'"
    by (auto simp: ingest_apply_def event_rid_def [symmetric] Let_def as_str_eq split: sum.splits option.splits Option.bind_splits)
  with False that(2) show ?thesis by blast
qed

text \<open>
  An event is idle (store and journal as they were), applied (the store changed, the journal
  grew by its entry) or torn (the store changed and the journal's append raised).
\<close>

definition event_act :: "'b ingest \<Rightarrow> payload \<Rightarrow> mat_action" where
  "event_act g event = mat_action (lookup_row (state_of (ig_store g) (event_rid event)) (fld event ''family'') False False)"

lemma tell_fault_frame:
  "tell_fault pub g now rid family reason = (g', res) \<Longrightarrow>
     ig_store g' = ig_store g \<and> ig_journal g' = ig_journal g \<and> ig_applied g' = ig_applied g
     \<and> (res = Inr Faulted \<or> res = Inl BusRaised) \<and> (ig_telemetry g = None \<longrightarrow> g' = g \<and> res = Inr Faulted)"
  by (auto simp: tell_fault_def fault_recorded_def split: option.splits prod.splits sum.splits bool.splits)

lemma tell_update_frame:
  "tell_update pub g now rid family imm = (g', res) \<Longrightarrow>
     ig_store g' = ig_store g \<and> ig_journal g' = ig_journal g \<and> ig_applied g' = ig_applied g
     \<and> (res = Inr Applied \<or> res = Inl BusRaised) \<and> (ig_telemetry g = None \<longrightarrow> g' = g \<and> res = Inr Applied)"
  by (auto simp: tell_update_def state_updated_def split: option.splits prod.splits sum.splits bool.splits if_splits)

lemma process_cases [consumes 1, case_names idle applied torn]:
  assumes "process pub now g event = (g', res)"
  obtains "ig_store g' = ig_store g" "ig_journal g' = ig_journal g" "ig_applied g' = ig_applied g" "res \<noteq> Inr Applied"
  | s j n where "truthy (event_rid event)" "truthy (event_eid event)" "truthy (fld event ''family'')"
      "hashable (fld event ''family'')"
      "journal_has (ig_journal g) (event_rid event) (event_eid event) = Inr False"
      "event_act g event \<notin> {Fault, Unregistered}"
      "ingest_apply (ig_store g) (event_act g event) event = Inr s"
      "applied_append (ig_journal g) (event_rid event) (event_eid event) 1 = (j, Inr n)"
      "ig_store g' = s" "ig_journal g' = j" "ig_applied g' = Suc (ig_applied g)"
      "res = Inr Applied \<or> res = Inl BusRaised"
  | s j e where "journal_has (ig_journal g) (event_rid event) (event_eid event) = Inr False"
      "event_act g event \<notin> {Fault, Unregistered}"
      "ingest_apply (ig_store g) (event_act g event) event = Inr s"
      "applied_append (ig_journal g) (event_rid event) (event_eid event) 1 = (j, Inl e)"
      "ig_store g' = s" "ig_journal g' = j" "res = Inl e"
proof -
  note folds = event_rid_def [symmetric] event_eid_def [symmetric]
  show ?thesis
    using assms that unfolding process_def Let_def folds event_act_def [symmetric]
    by (auto split: if_splits sum.splits bool.splits rsm_exn.splits prod.splits
        dest!: tell_fault_frame tell_update_frame)
qed

end
