(* ===== verification/RsmLifecycle.thy ===== *)
theory RsmLifecycle
  imports RsmInv
begin

text \<open>
  The life of one request, as a specification: the steps its state and record may take. The
  invariant of the store, and the operations of the manager refine that specification for
  every request at once.
\<close>

section \<open>The specification\<close>

type_synonym life = "mat \<times> request option"

inductive life_step :: "life \<Rightarrow> life \<Rightarrow> bool" where
  stutter: "life_step x x"
| born: "life_step (Absent, None) (Active, Some (birth_record rid fs))"
| work: "grown r r' \<Longrightarrow> life_step (Active, Some r) (Active, Some r')"
| finish: "grown r r' \<Longrightarrow> life_step (Active, Some r) (Terminal, Some r')"
| late: "m \<in> {Terminal, Persisted} \<Longrightarrow> grown r r' \<Longrightarrow> budget_only r r' \<Longrightarrow> life_step (m, Some r) (m, Some r')"
| persist: "life_step (Terminal, Some r) (Persisted, Some r)"
| evict: "life_step (Persisted, Some r) (Evicted, None)"

inductive_cases life_stepE: "life_step x y"

definition life_ok :: "life \<Rightarrow> bool" where
  "life_ok x \<longleftrightarrow> (case x of (m, r) \<Rightarrow> m \<noteq> Retained \<and> (r = None \<longleftrightarrow> m \<in> {Absent, Evicted}))"

fun mat_rank :: "mat \<Rightarrow> nat" where
  "mat_rank Absent = 0" | "mat_rank Active = 1" | "mat_rank Terminal = 2"
| "mat_rank Persisted = 3" | "mat_rank Retained = 4" | "mat_rank Evicted = 5"

definition outlives :: "life \<Rightarrow> life \<Rightarrow> bool" where
  "outlives x y \<longleftrightarrow>
     mat_rank (fst x) \<le> mat_rank (fst y)
     \<and> (\<forall>r r'. snd x = Some r \<longrightarrow> snd y = Some r' \<longrightarrow>
          grown r r' \<and> (fst x \<in> {Terminal, Persisted} \<longrightarrow> budget_only r r'))
     \<and> (fst x \<in> {Terminal, Persisted} \<longrightarrow> fst y \<in> {Terminal, Persisted, Evicted})
     \<and> (fst x = Evicted \<longrightarrow> y = x)"

lemma life_step_ok: "life_step x y \<Longrightarrow> life_ok x \<Longrightarrow> life_ok y"
  by (erule life_stepE) (auto simp: life_ok_def)

lemma life_step_outlives: "life_step x y \<Longrightarrow> life_ok x \<Longrightarrow> outlives x y"
  by (erule life_stepE) (auto simp: life_ok_def outlives_def)

lemma life_ok_between:
  assumes "life_ok x" and "life_ok y" and "outlives x y" and "outlives y z"
    and "snd x = Some r" and "snd z = Some t"
  shows "\<exists>q. snd y = Some q"
proof (rule ccontr)
  assume none: "\<not> ?thesis"
  then have "fst y \<in> {Absent, Evicted}" using assms(2) by (cases y) (auto simp: life_ok_def)
  moreover have "fst y \<noteq> Evicted" using assms(4,6) none by (auto simp: outlives_def)
  moreover have "fst x \<noteq> Absent" using assms(1,5) by (cases x) (auto simp: life_ok_def)
  then have "0 < mat_rank (fst x)" by (cases "fst x") auto
  then have "fst y \<noteq> Absent" using assms(3) by (auto simp: outlives_def)
  ultimately show False by blast
qed

lemma outlives_trans:
  assumes "life_ok x" and "life_ok y" and "outlives x y" and "outlives y z"
  shows "outlives x z"
proof -
  have "grown r t \<and> (fst x \<in> {Terminal, Persisted} \<longrightarrow> budget_only r t)"
    if "snd x = Some r" "snd z = Some t" for r t
  proof -
    from life_ok_between [OF assms that] obtain q where q: "snd y = Some q" by blast
    have "fst y \<noteq> Evicted" using assms(2) q by (cases y) (auto simp: life_ok_def)
    then have "fst x \<in> {Terminal, Persisted} \<longrightarrow> fst y \<in> {Terminal, Persisted}"
      using assms(3) by (auto simp: outlives_def)
    with assms(3,4) that q show ?thesis
      unfolding outlives_def using grown_trans settled_trans by blast
  qed
  then show ?thesis using assms(3,4) by (auto simp: outlives_def)
qed

lemma life_steps_outlive:
  assumes "life_step\<^sup>*\<^sup>* x y" and "life_ok x"
  shows "life_ok y \<and> outlives x y"
  using assms
proof (induction rule: rtranclp_induct)
  case base
  then show ?case by (auto simp: outlives_def)
next
  case (step y z)
  then show ?case using life_step_ok life_step_outlives outlives_trans by blast
qed

section \<open>The store's invariant\<close>

definition slot_ok :: "rsm_store \<Rightarrow> pyval \<Rightarrow> bool" where
  "slot_ok s k \<longleftrightarrow>
     (k \<in> set (rs_evicted s) \<longrightarrow> dget (rs_state s) k = None)
     \<and> (case dget (rs_state s) k of
          None \<Rightarrow> dget (rs_active s) k = None \<and> dget (rs_persisted s) k = None
        | Some m \<Rightarrow> dget (rs_active s) k \<noteq> None \<and> m \<in> {Active, Terminal, Persisted}
            \<and> (dget (rs_persisted s) k \<noteq> None \<longleftrightarrow> m = Persisted))"

definition store_inv :: "rsm_store \<Rightarrow> bool" where
  "store_inv s \<longleftrightarrow> rs_retained s = [] \<and> (\<forall>k. slot_ok s k)"

lemma store_inv_slot: "store_inv s \<Longrightarrow> slot_ok s k"
  by (simp add: store_inv_def)

lemma store_invI: "rs_retained s = [] \<Longrightarrow> (\<And>k. slot_ok s k) \<Longrightarrow> store_inv s"
  by (simp add: store_inv_def)

lemma store_inv_retained: "store_inv s \<Longrightarrow> rs_retained s = []"
  by (simp add: store_inv_def)

lemma store_inv_empty: "store_inv empty_rsm_store"
  by (simp add: store_inv_def slot_ok_def empty_rsm_store_def)

lemmas store_reads = state_of_def store_get_def dict_simps

lemma store_create_effect:
  assumes "store_create s rid fs = Inr s'" and "store_inv s"
  shows "store_inv s'"
    and "state_of s' x = (if hkey x = hkey rid then Active else state_of s x)"
    and "store_get s' x = (if hkey x = hkey rid then Some (birth_record rid fs) else store_get s x)"
    and "state_of s rid = Absent"
proof -
  from assms(1) have absent: "state_of s rid = Absent"
      and s': "s' = s\<lparr>rs_active := dset (hkey rid) (birth_record rid fs) (rs_active s),
                rs_state := dset (hkey rid) Active (rs_state s)\<rparr>"
    by (auto simp: store_create_def split: if_splits)
  show "state_of s rid = Absent" by fact
  have "hkey rid \<notin> set (rs_evicted s)" using absent by (auto simp: state_of_def)
  moreover from this have "dget (rs_state s) (hkey rid) = None"
    using absent store_inv_slot [OF assms(2), of "hkey rid"] by (auto simp: state_of_def slot_ok_def split: option.splits)
  ultimately show "state_of s' x = (if hkey x = hkey rid then Active else state_of s x)"
    and "store_get s' x = (if hkey x = hkey rid then Some (birth_record rid fs) else store_get s x)"
    by (simp_all add: s' store_reads split: option.split)
  show "store_inv s'"
  proof (rule store_invI)
    fix k
    show "slot_ok s' k"
      using store_inv_slot [OF assms(2), of k] \<open>hkey rid \<notin> _\<close> \<open>dget (rs_state s) (hkey rid) = None\<close>
      by (auto simp: s' slot_ok_def dict_simps split: option.splits)
  qed (simp add: s' store_inv_retained [OF assms(2)])
qed

lemma store_apply_effect:
  assumes "store_apply s rid r = Inr s'" and "store_inv s"
  shows "store_inv s'"
    and "state_of s' x = state_of s x"
    and "store_get s' x = (if hkey x = hkey rid then Some r else store_get s x)"
proof -
  from assms store_inv_retained [OF assms(2)] have present: "dget (rs_active s) (hkey rid) \<noteq> None"
      and s': "s' = s\<lparr>rs_active := dset (hkey rid) r (rs_active s)\<rparr>"
    by (auto simp: store_apply_def split: if_splits)
  show "state_of s' x = state_of s x"
    and "store_get s' x = (if hkey x = hkey rid then Some r else store_get s x)"
    by (simp_all add: s' store_reads split: option.split)
  show "store_inv s'"
  proof (rule store_invI)
    fix k
    show "slot_ok s' k"
      using store_inv_slot [OF assms(2), of k] present
      by (auto simp: s' slot_ok_def dict_simps split: option.splits)
  qed (simp add: s' store_inv_retained [OF assms(2)])
qed

lemma state_of_held:
  assumes "state_of s rid = m" and "m \<notin> {Absent, Evicted}"
  shows "hkey rid \<notin> set (rs_evicted s)" and "dget (rs_state s) (hkey rid) = Some m"
  using assms by (auto simp: state_of_def split: if_splits option.splits)

lemma store_terminal_effect:
  assumes "store_apply_terminal s rid r = Inr s'" and "store_inv s"
  shows "store_inv s'"
    and "state_of s' x = (if hkey x = hkey rid then Terminal else state_of s x)"
    and "store_get s' x = (if hkey x = hkey rid then Some r else store_get s x)"
    and "state_of s rid = Active"
proof -
  from assms(1) show active: "state_of s rid = Active" by (auto simp: store_apply_terminal_def split: if_splits)
  from assms(1) have s': "s' = s\<lparr>rs_active := dset (hkey rid) r (rs_active s),
                rs_state := dset (hkey rid) Terminal (rs_state s)\<rparr>"
    by (auto simp: store_apply_terminal_def split: if_splits)
  note held = state_of_held [OF active, simplified]
  show "state_of s' x = (if hkey x = hkey rid then Terminal else state_of s x)"
    and "store_get s' x = (if hkey x = hkey rid then Some r else store_get s x)"
    using held by (simp_all add: s' store_reads split: option.split)
  show "store_inv s'"
  proof (rule store_invI)
    fix k
    show "slot_ok s' k"
      using store_inv_slot [OF assms(2), of k] held
      by (auto simp: s' slot_ok_def dict_simps split: option.splits)
  qed (simp add: s' store_inv_retained [OF assms(2)])
qed

lemma mark_persisted_effect:
  assumes "mark_persisted s rid now = Inr s'" and "store_inv s"
  shows "store_inv s'"
    and "state_of s' x = (if hkey x = hkey rid then Persisted else state_of s x)"
    and "store_get s' x = store_get s x"
    and "state_of s rid = Terminal"
proof -
  from assms(1) show ended: "state_of s rid = Terminal" by (auto simp: mark_persisted_def split: if_splits)
  from assms(1) have s': "s' = s\<lparr>rs_state := dset (hkey rid) Persisted (rs_state s),
                rs_persisted := dset (hkey rid) now (rs_persisted s)\<rparr>"
    by (auto simp: mark_persisted_def split: if_splits)
  note held = state_of_held [OF ended, simplified]
  show "state_of s' x = (if hkey x = hkey rid then Persisted else state_of s x)"
    and "store_get s' x = store_get s x"
    using held by (simp_all add: s' store_reads split: option.split)
  show "store_inv s'"
  proof (rule store_invI)
    fix k
    show "slot_ok s' k"
      using store_inv_slot [OF assms(2), of k] held
      by (auto simp: s' slot_ok_def dict_simps split: option.splits)
  qed (simp add: s' store_inv_retained [OF assms(2)])
qed

lemma mark_evicted_effect:
  assumes "store_inv s"
  shows "store_inv (mark_evicted s rid)"
    and "state_of (mark_evicted s rid) x = (if hkey x = hkey rid then Evicted else state_of s x)"
    and "store_get (mark_evicted s rid) x = (if hkey x = hkey rid then None else store_get s x)"
proof -
  show "state_of (mark_evicted s rid) x = (if hkey x = hkey rid then Evicted else state_of s x)"
    and "store_get (mark_evicted s rid) x = (if hkey x = hkey rid then None else store_get s x)"
    by (simp_all add: mark_evicted_def store_reads split: option.split)
  show "store_inv (mark_evicted s rid)"
  proof (rule store_invI)
    fix k
    show "slot_ok (mark_evicted s rid) k"
      using store_inv_slot [OF assms, of k] by (auto simp: mark_evicted_def slot_ok_def dict_simps split: option.splits)
  qed (simp add: mark_evicted_def store_inv_retained [OF assms])
qed

lemma store_life_ok:
  assumes "store_inv s"
  shows "life_ok (state_of s x, store_get s x)"
  using store_inv_slot [OF assms, of "hkey x"] store_inv_retained [OF assms]
  by (auto simp: life_ok_def state_of_def store_get_def slot_ok_def split: option.splits)

lemma evict_gate_iff:
  assumes "store_inv s"
  shows "snd (evict_gate s rid now window) \<longleftrightarrow>
    state_of s rid = Persisted \<and> (\<exists>t. dget (rs_persisted s) (hkey rid) = Some t \<and> window \<le> now - t)"
  using store_inv_slot [OF assms, of "hkey rid"]
  by (auto simp: evict_gate_def eviction_allowed_def state_of_def terminal_like_def slot_ok_def Let_def
      split: option.splits if_splits)

section \<open>The manager refines the specification\<close>

datatype rsm_op =
    Ingested int payload
  | Persisting pyval int
  | Evicting pyval int int int

text \<open>One call, whatever it returns or raises.\<close>

definition rsm_do :: "'b publisher \<Rightarrow> 'b ingest \<Rightarrow> rsm_op \<Rightarrow> 'b ingest" where
  "rsm_do pub g x =
     (case x of
        Ingested now event \<Rightarrow> fst (process pub now g event)
      | Persisting rid now \<Rightarrow>
          (case mark_persisted (ig_store g) rid now of Inl _ \<Rightarrow> g | Inr s \<Rightarrow> g\<lparr>ig_store := s\<rparr>)
      | Evicting rid now now' window \<Rightarrow>
          (case ig_telemetry g of
             None \<Rightarrow> g\<lparr>ig_store := fst (evict_gate (ig_store g) rid now window)\<rparr>
           | Some t \<Rightarrow>
               (case evict_and_notify pub (ig_store g) t rid now now' window of
                  (s, t', _) \<Rightarrow> g\<lparr>ig_store := s, ig_telemetry := Some t'\<rparr>)))"

abbreviation rsm_run :: "'b publisher \<Rightarrow> 'b ingest \<Rightarrow> rsm_op list \<Rightarrow> 'b ingest" where
  "rsm_run pub \<equiv> foldl (rsm_do pub)"

definition life_of :: "rsm_store \<Rightarrow> pyval \<Rightarrow> life" where
  "life_of s rid = (state_of s rid, store_get s rid)"

definition live_act :: "rsm_store \<Rightarrow> payload \<Rightarrow> mat_action" where
  "live_act s event = mat_action (lookup_row (state_of s (event_rid event)) (fld event ''family'') False False)"

lemma lookup_row_act:
  "mat_action (lookup_row m family False False) = Create \<longleftrightarrow> m = Absent \<and> family = PyStr birth_family"
  "mat_action (lookup_row m family False False) = ApplyTerminal \<longleftrightarrow> m = Active \<and> in_families family terminal_families"
  "mat_action (lookup_row m family False False) = Apply \<longleftrightarrow>
     m = Active \<and> in_families family registered_families \<and> family \<noteq> PyStr birth_family \<and> \<not> in_families family terminal_families
     \<or> m \<in> {Terminal, Persisted, Retained} \<and> in_families family late_tolerant_families"
  "mat_action (lookup_row m family False False) \<noteq> Drop"
proof -
  have late: "in_families f late_tolerant_families \<Longrightarrow> in_families f registered_families \<and> f \<noteq> PyStr birth_family"
    for f by (auto simp: in_families_def late_tolerant_families_def registered_families_def birth_family_def split: pyval.splits)
  have ended: "in_families f terminal_families \<Longrightarrow> in_families f registered_families \<and> f \<noteq> PyStr birth_family"
    for f by (auto simp: in_families_def terminal_families_def registered_families_def birth_family_def split: pyval.splits)
  have birth: "in_families (PyStr birth_family) registered_families"
    by (simp add: in_families_def registered_families_def)
  show "mat_action (lookup_row m family False False) = Create \<longleftrightarrow> m = Absent \<and> family = PyStr birth_family"
    using birth by (auto simp: lookup_row_def)
  show "mat_action (lookup_row m family False False) = ApplyTerminal \<longleftrightarrow> m = Active \<and> in_families family terminal_families"
    using ended by (auto simp: lookup_row_def)
  show "mat_action (lookup_row m family False False) = Apply \<longleftrightarrow>
     m = Active \<and> in_families family registered_families \<and> family \<noteq> PyStr birth_family \<and> \<not> in_families family terminal_families
     \<or> m \<in> {Terminal, Persisted, Retained} \<and> in_families family late_tolerant_families"
    using late by (cases m) (auto simp: lookup_row_def)
  show "mat_action (lookup_row m family False False) \<noteq> Drop" by (auto simp: lookup_row_def)
qed

lemma life_step_cong: "hkey x = hkey y \<Longrightarrow> life_of s x = life_of s y"
  by (simp add: life_of_def state_of_def store_get_def split: option.split)

lemma apply_event_life:
  assumes a: "ingest_apply s (live_act s event) event = Inr s'"
    and act: "live_act s event \<notin> {Fault, Unregistered}" and inv: "store_inv s"
  shows "store_inv s' \<and> life_step (life_of s x) (life_of s' x)"
  using a
proof (cases rule: apply_event_cases)
  case (born fs)
  note eff = store_create_effect [OF born(4) inv]
  have "store_get s (event_rid event) = None"
    using store_life_ok [OF inv, of "event_rid event"] born(3) by (simp add: life_ok_def)
  then show ?thesis
    using eff born(3) life_step_cong [of x "event_rid event" s]
    by (cases "hkey x = hkey (event_rid event)") (auto simp: life_of_def intro: life_step.intros)
next
  case (changed f red r r')
  let ?rid = "event_rid event"
  have g: "grown r r'" using reducer_grown [OF changed(3,5)] by blast
  have kinds: "live_act s event = Apply \<or> live_act s event = ApplyTerminal"
    using act changed(1) lookup_row_act(4) [of "state_of s ?rid" "fld event ''family''"]
    by (cases "live_act s event") (auto simp: live_act_def)
  show ?thesis
  proof (cases "live_act s event = ApplyTerminal")
    case True
    with changed(6) have t: "store_apply_terminal s ?rid r' = Inr s'" by simp
    note eff = store_terminal_effect [OF t inv]
    show ?thesis
      using eff changed(4) g life_step_cong [of x ?rid s]
      by (cases "hkey x = hkey ?rid") (auto simp: life_of_def intro: life_step.intros)
  next
    case False
    with kinds changed(6) have t: "store_apply s ?rid r' = Inr s'" and app: "live_act s event = Apply" by auto
    note eff = store_apply_effect [OF t inv]
    have m: "state_of s ?rid = Active \<or> state_of s ?rid \<in> {Terminal, Persisted} \<and> budget_only r r'"
    proof (cases "state_of s ?rid = Active")
      case False
      with app have "state_of s ?rid \<in> {Terminal, Persisted, Retained}" "in_families (PyStr f) late_tolerant_families"
        by (auto simp: live_act_def lookup_row_act changed(2))
      moreover have "state_of s ?rid \<noteq> Retained" using store_life_ok [OF inv, of ?rid] by (simp add: life_ok_def)
      moreover from calculation(2) have "f = ''cost.recorded''"
        by (simp add: in_families_def late_tolerant_families_def)
      ultimately show ?thesis
        using cost_settled changed(3,5) registry_cost by auto
    qed simp
    show ?thesis
      using eff changed(4) g m life_step_cong [of x ?rid s]
      by (cases "hkey x = hkey ?rid") (auto simp: life_of_def intro: life_step.intros)
  qed
qed

lemma process_life:
  assumes p: "process pub now g event = (g', res)" and inv: "store_inv (ig_store g)"
  shows "store_inv (ig_store g') \<and> life_step (life_of (ig_store g) x) (life_of (ig_store g') x)"
proof -
  have act: "event_act g event = live_act (ig_store g) event" by (simp add: event_act_def live_act_def)
  from p show ?thesis
  proof (cases rule: process_cases)
    case idle
    then show ?thesis using inv by (simp add: stutter)
  next
    case (applied s j n)
    from apply_event_life [OF applied(7) [unfolded act] applied(6) [unfolded act] inv] applied(9)
    show ?thesis by simp
  next
    case (torn s j e)
    from apply_event_life [OF torn(3) [unfolded act] torn(2) [unfolded act] inv] torn(5)
    show ?thesis by simp
  qed
qed

lemma evict_gate_life:
  assumes inv: "store_inv s" and e: "evict_gate s rid now window = (s', b)"
  shows "store_inv s' \<and> life_step (life_of s x) (life_of s' x)"
proof (cases b)
  case False
  with e have "s' = s" by (auto simp: evict_gate_def Let_def split: if_splits)
  then show ?thesis using inv by (simp add: stutter)
next
  case True
  with e have s': "s' = mark_evicted s rid" by (auto simp: evict_gate_def Let_def split: if_splits)
  have "state_of s rid = Persisted" using evict_gate_iff [OF inv, of rid now window] e True by simp
  moreover from this obtain r where "store_get s rid = Some r"
    using store_life_ok [OF inv, of rid] by (auto simp: life_ok_def)
  ultimately show ?thesis
    using mark_evicted_effect [OF inv, of rid] life_step_cong [of x rid s]
    by (cases "hkey x = hkey rid") (auto simp: s' life_of_def intro: life_step.intros)
qed

lemma mark_persisted_life:
  assumes inv: "store_inv s" and e: "mark_persisted s rid now = Inr s'"
  shows "store_inv s' \<and> life_step (life_of s x) (life_of s' x)"
proof -
  note eff = mark_persisted_effect [OF e inv]
  obtain r where "store_get s rid = Some r"
    using store_life_ok [OF inv, of rid] eff(4) by (auto simp: life_ok_def)
  then show ?thesis
    using eff life_step_cong [of x rid s]
    by (cases "hkey x = hkey rid") (auto simp: life_of_def intro: life_step.intros)
qed

lemma rsm_do_life:
  assumes "store_inv (ig_store g)"
  shows "store_inv (ig_store (rsm_do pub g a)) \<and> life_step (life_of (ig_store g) x) (life_of (ig_store (rsm_do pub g a)) x)"
proof (cases a)
  case (Ingested now event)
  obtain g' res where "process pub now g event = (g', res)" by (cases "process pub now g event")
  with process_life [OF this assms] Ingested show ?thesis by (simp add: rsm_do_def)
next
  case (Persisting rid now)
  then show ?thesis
    using mark_persisted_life [OF assms] assms by (auto simp: rsm_do_def stutter split: sum.splits)
next
  case (Evicting rid now now' window)
  obtain s b where e: "evict_gate (ig_store g) rid now window = (s, b)"
    by (cases "evict_gate (ig_store g) rid now window")
  then have "ig_store (rsm_do pub g a) = s"
    by (auto simp: Evicting rsm_do_def evict_and_notify_def split: option.splits prod.splits bool.splits sum.splits)
  with evict_gate_life [OF assms e] show ?thesis by simp
qed

lemma rsm_run_life:
  assumes "store_inv (ig_store g)"
  shows "store_inv (ig_store (rsm_run pub g as)) \<and> life_step\<^sup>*\<^sup>* (life_of (ig_store g) x) (life_of (ig_store (rsm_run pub g as)) x)"
  using assms
proof (induction "as" arbitrary: g)
  case Nil
  then show ?case by simp
next
  case (Cons a "as")
  note d = rsm_do_life [OF Cons.prems, of pub a]
  from Cons.IH [of "rsm_do pub g a"] d show ?case
    by (auto intro: converse_rtranclp_into_rtranclp)
qed

end
