(* ===== verification/RsmRecovery.thy ===== *)
theory RsmRecovery
  imports RsmLifecycle
begin

text \<open>
  Recovery (\<open>rsm/recovery.py\<close>), its part without storage: the read gate and the replay of a
  journal through the ingest pipeline. The proofs follow one request: what an event does to it
  depends on nothing else, so the replay of its own journal mirrors the live run.
\<close>

section \<open>Definitions\<close>

record recovery_gate =
  rg_recovering :: bool

definition new_gate :: recovery_gate where
  "new_gate = \<lparr>rg_recovering = True\<rparr>"

definition gate_guard :: "recovery_gate \<Rightarrow> rsm_exn + unit" where
  "gate_guard g = (if rg_recovering g then Inl Recovering else Inr ())"

definition gate_open :: "recovery_gate \<Rightarrow> recovery_gate" where
  "gate_open g = g\<lparr>rg_recovering := False\<rparr>"

text \<open>An event source is a mapping or a callable.\<close>

type_synonym event_source = "pyval \<Rightarrow> rsm_exn + payload"

definition source_of :: "payload keyed \<Rightarrow> event_source" where
  "source_of d eid =
     (if \<not> hashable eid then Inl TypeError
      else case kget d eid of None \<Rightarrow> Inl KeyError | Some event \<Rightarrow> Inr event)"

text \<open>The replaying pipeline has no telemetry, so no bus either.\<close>

definition silent :: "unit publisher" where
  "silent b topic msg = (b, True)"

definition replay_event :: "event_source \<Rightarrow> unit ingest \<Rightarrow> pyval \<Rightarrow> rsm_exn + unit ingest" where
  "replay_event src g eid =
     (case src eid of
        Inl e \<Rightarrow> Inl e
      | Inr event \<Rightarrow>
          (if dget event ''request_id'' = None then Inl KeyError
           else case process silent 0 g event of (_, Inl e) \<Rightarrow> Inl e | (g', Inr _) \<Rightarrow> Inr g'))"

definition replay_journal ::
  "event_source \<Rightarrow> rsm_store \<Rightarrow> rsm_journal \<Rightarrow> pyval list \<Rightarrow> rsm_exn + rsm_store \<times> rsm_journal \<times> request option" where
  "replay_journal src s j eids =
     (case foldm (replay_event src) (new_ingest s j None) eids of
        Inl e \<Rightarrow> Inl e
      | Inr g \<Rightarrow>
          Inr (ig_store g, ig_journal g,
               (if eids = [] then None
                else case src (last eids) of Inl _ \<Rightarrow> None | Inr event \<Rightarrow> store_get (ig_store g) (event_rid event))))"

section \<open>Journals\<close>

lemma journal_append_ok:
  assumes "journal_has j rid eid = Inr False" and "applied_append j rid eid v = (j', Inr n)"
  shows "hashable eid" and "applied_entries j' x = (if hkey x = hkey rid then applied_entries j rid @ [(eid, n, v)] else applied_entries j x)"
    and "n = length (applied_entries j rid)"
    and "kget (jr_ids j') x = (if hkey x = hkey rid then Some (hkey eid # or_empty (kget (jr_ids j) rid)) else kget (jr_ids j) x)"
    and "kget (jr_entries j') x = (if hkey x = hkey rid then Some (applied_entries j rid @ [(eid, n, v)]) else kget (jr_entries j) x)"
  using assms by (auto simp: applied_append_def applied_entries_def or_empty_def Let_def dict_simps split: if_splits)

lemma journal_append_total:
  assumes "journal_has j rid eid = Inr False" and "hashable eid"
  shows "\<exists>j'. applied_append j rid eid v = (j', Inr (length (applied_entries j rid)))"
  using assms
  by (auto simp: journal_has_def applied_append_def or_empty_def Let_def split: if_splits option.splits)

lemma journal_has_cong:
  "kget (jr_ids j) rid = kget (jr_ids j') rid \<Longrightarrow> journal_has j rid eid = journal_has j' rid eid"
  by (simp add: journal_has_def)

lemma kget_cong: "hkey x = hkey y \<Longrightarrow> kget d x = kget d y"
  by (induction d) auto

lemma journal_entries_cong: "hkey x = hkey y \<Longrightarrow> applied_entries j x = applied_entries j y"
  using kget_cong by (metis applied_entries_def)

section \<open>One request seen from two runs\<close>

definition mat_class :: "mat \<Rightarrow> mat" where
  "mat_class m = (if m = Persisted then Terminal else m)"

lemma mat_class_simps [simp]:
  "mat_class m = Absent \<longleftrightarrow> m = Absent" "mat_class m = Active \<longleftrightarrow> m = Active" "mat_class m = Evicted \<longleftrightarrow> m = Evicted"
  "Absent = mat_class m \<longleftrightarrow> m = Absent" "Active = mat_class m \<longleftrightarrow> m = Active" "Evicted = mat_class m \<longleftrightarrow> m = Evicted"
  "mat_class Persisted = Terminal" "mat_class Terminal = Terminal" "mat_class Active = Active" "mat_class Absent = Absent"
  by (auto simp: mat_class_def)

lemma lookup_row_class:
  "mat_class m = mat_class m' \<Longrightarrow> mat_action (lookup_row m f False False) = mat_action (lookup_row m' f False False)"
  by (cases m; cases m') (auto simp: lookup_row_def mat_class_def)

definition same_request :: "pyval \<Rightarrow> 'b ingest \<Rightarrow> 'c ingest \<Rightarrow> bool" where
  "same_request rid g h \<longleftrightarrow>
     mat_class (state_of (ig_store g) rid) = mat_class (state_of (ig_store h) rid)
     \<and> store_get (ig_store g) rid = store_get (ig_store h) rid
     \<and> kget (jr_entries (ig_journal g)) rid = kget (jr_entries (ig_journal h)) rid
     \<and> kget (jr_ids (ig_journal g)) rid = kget (jr_ids (ig_journal h)) rid"

lemma same_view_cong: "hkey x = hkey y \<Longrightarrow> same_request x g h \<Longrightarrow> same_request y g h"
  using kget_cong [of x y] life_step_cong [of x y] unfolding same_request_def life_of_def by (metis prod.inject)

lemma same_view_entries: "same_request rid g h \<Longrightarrow> applied_entries (ig_journal g) rid = applied_entries (ig_journal h) rid"
  by (simp add: same_request_def applied_entries_def)

definition quiet :: "unit ingest \<Rightarrow> bool" where
  "quiet h \<longleftrightarrow> ig_telemetry h = None \<and> store_inv (ig_store h)"

lemma store_apply_mirror:
  assumes "store_inv s" and "store_inv s2" and "store_get s rid = Some r" and "store_get s2 rid = Some r"
  shows "\<exists>s2'. store_apply s2 rid r' = Inr s2'"
proof -
  have "dget (rs_active s2) (hkey rid) \<noteq> None"
    using assms(4) store_inv_retained [OF assms(2)] by (auto simp: store_get_def split: option.splits)
  then show ?thesis by (auto simp: store_apply_def)
qed

text \<open>The step that applies an event sees only the state and the record of its request.\<close>

lemma apply_event_mirror:
  assumes a: "ingest_apply s act event = Inr s'" and inv: "store_inv s" and inv2: "store_inv s2"
    and act: "act = live_act s event" "act \<notin> {Fault, Unregistered}"
    and m: "mat_class (state_of s (event_rid event)) = mat_class (state_of s2 (event_rid event))"
    and r: "store_get s (event_rid event) = store_get s2 (event_rid event)"
  shows "\<exists>s2'. ingest_apply s2 act event = Inr s2'
    \<and> mat_class (state_of s' (event_rid event)) = mat_class (state_of s2' (event_rid event))
    \<and> store_get s' (event_rid event) = store_get s2' (event_rid event)"
  using a
proof (cases rule: apply_event_cases)
  case (born fs)
  let ?rid = "event_rid event"
  have "state_of s2 ?rid = Absent" using m born(3) by simp
  then obtain s2' where c: "store_create s2 ?rid fs = Inr s2'" by (auto simp: store_create_def)
  have "ingest_apply s2 act event = Inr s2'"
    using born(1,2) c by (simp add: ingest_apply_def event_rid_def)
  then show ?thesis
    using store_create_effect(2,3) [OF born(4) inv, of ?rid] store_create_effect(2,3) [OF c inv2, of ?rid] by auto
next
  case (changed f red q q')
  let ?rid = "event_rid event"
  have q: "store_get s2 ?rid = Some q" using changed(4) r by simp
  have run: "ingest_apply s2 act event =
      (if act = ApplyTerminal then store_apply_terminal s2 ?rid q' else store_apply s2 ?rid q')"
    using changed(1-3,5) q by (simp add: ingest_apply_def event_rid_def Let_def)
  show ?thesis
  proof (cases "act = ApplyTerminal")
    case True
    with changed(6) have t: "store_apply_terminal s ?rid q' = Inr s'" by simp
    then have "state_of s2 ?rid = Active" using m by (auto simp: store_apply_terminal_def split: if_splits)
    then obtain s2' where t2: "store_apply_terminal s2 ?rid q' = Inr s2'" by (auto simp: store_apply_terminal_def)
    then show ?thesis
      using run True store_terminal_effect(2,3) [OF t inv, of ?rid] store_terminal_effect(2,3) [OF t2 inv2, of ?rid] by auto
  next
    case False
    with changed(6) have t: "store_apply s ?rid q' = Inr s'" by simp
    obtain s2' where t2: "store_apply s2 ?rid q' = Inr s2'"
      using store_apply_mirror [OF inv inv2 changed(4)] changed(4) r by metis
    then show ?thesis
      using run False m store_apply_effect(2,3) [OF t inv, of ?rid] store_apply_effect(2,3) [OF t2 inv2, of ?rid] by auto
  qed
qed

lemma process_intro:
  assumes "truthy (event_rid event)" and "truthy (event_eid event)" and "truthy (fld event ''family'')"
    and "hashable (fld event ''family'')"
    and "journal_has (ig_journal h) (event_rid event) (event_eid event) = Inr False"
    and "event_act h event \<notin> {Fault, Unregistered}"
    and "ingest_apply (ig_store h) (event_act h event) event = Inr s"
    and "applied_append (ig_journal h) (event_rid event) (event_eid event) 1 = (j, Inr n)"
    and "ig_telemetry h = None"
  shows "process pub now h event = (h\<lparr>ig_store := s, ig_journal := j, ig_applied := Suc (ig_applied h)\<rparr>, Inr Applied)"
proof -
  note facts = assms [unfolded event_rid_def event_eid_def]
  have act: "event_act h event \<noteq> Fault" "event_act h event \<noteq> Unregistered" using assms(6) by auto
  have mat_row: "mat_action (lookup_row (state_of (ig_store h) (fld event ''request_id'')) (fld event ''family'') False False)
      = event_act h event"
    by (simp add: event_act_def event_rid_def)
  let ?h = "h\<lparr>ig_store := s, ig_journal := j, ig_applied := Suc (ig_applied h)\<rparr>"
  have tel: "ig_telemetry ?h = None" using facts(9) by simp
  have tell: "tell_update pub ?h now r f b = (?h, Inr Applied)" for r f b
    unfolding tell_update_def tel by (simp only: option.case)
  show ?thesis
    unfolding process_def Let_def mat_row
    by (simp only: facts(1-4) act simp_thms if_False facts(5,7,8) sum.case bool.case prod.case tell)
qed

lemma applied_mirror:
  assumes p: "process pub now g event = (g', res)" and grew: "ig_applied g' \<noteq> ig_applied g"
    and ok: "hashable (event_eid event)"
    and view: "same_request (event_rid event) g h" and inv: "store_inv (ig_store g)" and q: "quiet h"
  shows "\<exists>h' n. process silent 0 h event = (h', Inr Applied) \<and> same_request (event_rid event) g' h' \<and> quiet h'
    \<and> applied_entries (ig_journal g') (event_rid event) =
        applied_entries (ig_journal g) (event_rid event) @ [(event_eid event, n, 1)]"
  using p
proof (cases rule: process_cases)
  case idle
  with grew show ?thesis by simp
next
  case (torn s j e)
  with journal_append_total [OF torn(1) ok, of 1] show ?thesis by auto
next
  case (applied s j n)
  let ?rid = "event_rid event" and ?eid = "event_eid event"
  have act: "event_act h event = event_act g event"
    using view lookup_row_class [of "state_of (ig_store h) ?rid" "state_of (ig_store g) ?rid" "fld event ''family''"]
    by (simp add: event_act_def same_request_def)
  have live: "event_act g event = live_act (ig_store g) event" by (simp add: event_act_def live_act_def)
  from q have inv2: "store_inv (ig_store h)" and tel: "ig_telemetry h = None" by (simp_all add: quiet_def)
  have has: "journal_has (ig_journal h) ?rid ?eid = Inr False"
    using applied(5) journal_has_cong [of "ig_journal g" ?rid "ig_journal h"] view by (simp add: same_request_def)
  obtain s2 where s2: "ingest_apply (ig_store h) (event_act g event) event = Inr s2"
      "mat_class (state_of s ?rid) = mat_class (state_of s2 ?rid)" "store_get s ?rid = store_get s2 ?rid"
    using apply_event_mirror [OF applied(7) inv inv2 live applied(6)] view by (auto simp: same_request_def)
  obtain j2 where j2: "applied_append (ig_journal h) ?rid ?eid 1 = (j2, Inr (length (applied_entries (ig_journal h) ?rid)))"
    using journal_append_total [OF has ok] by blast
  let ?h = "h\<lparr>ig_store := s2, ig_journal := j2, ig_applied := Suc (ig_applied h)\<rparr>"
  have run: "process silent 0 h event = (?h, Inr Applied)"
    by (rule process_intro) (use applied act has s2 j2 tel in auto)
  note ja = journal_append_ok [OF applied(5,8)] and jb = journal_append_ok [OF has j2]
  have "same_request ?rid g' ?h"
    using s2 applied(9,10) ja(3,4,5) jb(4,5) view same_view_entries [OF view]
    by (simp add: same_request_def)
  moreover have "quiet ?h"
    using process_life [OF run inv2, of PyNone] tel by (simp add: quiet_def)
  moreover have "applied_entries (ig_journal g') ?rid = applied_entries (ig_journal g) ?rid @ [(?eid, n, 1)]"
    using ja(2) applied(10) by simp
  ultimately show ?thesis using run by blast
qed

lemma apply_event_other:
  assumes a: "ingest_apply s act event = Inr s'" and inv: "store_inv s" and x: "hkey x \<noteq> hkey (event_rid event)"
  shows "state_of s' x = state_of s x \<and> store_get s' x = store_get s x"
  using a
proof (cases rule: apply_event_cases)
  case (born fs)
  from store_create_effect(2,3) [OF born(4) inv, of x] x show ?thesis by simp
next
  case (changed f red r r')
  then show ?thesis
    using store_terminal_effect(2,3) [OF _ inv, of "event_rid event" r' s' x]
      store_apply_effect(2,3) [OF _ inv, of "event_rid event" r' s' x] x
    by (auto split: if_splits)
qed

text \<open>The operations whose events the source archives under their ids.\<close>

definition archived :: "event_source \<Rightarrow> rsm_op \<Rightarrow> bool" where
  "archived src a \<longleftrightarrow> (case a of
     Ingested now event \<Rightarrow> hashable (event_eid event) \<and> src (event_eid event) = Inr event
   | _ \<Rightarrow> True)"

definition owned_by :: "event_source \<Rightarrow> pyval \<Rightarrow> journal_entry list \<Rightarrow> bool" where
  "owned_by src rid news \<longleftrightarrow>
     (\<forall>e \<in> set news. \<exists>event. src (fst e) = Inr event \<and> hkey (event_rid event) = hkey rid)"

definition mirrored :: "event_source \<Rightarrow> pyval \<Rightarrow> 'b ingest \<Rightarrow> 'b ingest \<Rightarrow> unit ingest \<Rightarrow> bool" where
  "mirrored src rid g g' h \<longleftrightarrow> (\<exists>h' news.
     applied_entries (ig_journal g') rid = applied_entries (ig_journal g) rid @ news
     \<and> foldm (replay_event src) h (map fst news) = Inr h'
     \<and> same_request rid g' h' \<and> quiet h' \<and> owned_by src rid news)"

lemma mirrored_still:
  assumes "quiet h" and "same_request rid g' h"
    and "kget (jr_entries (ig_journal g')) rid = kget (jr_entries (ig_journal g)) rid"
  shows "mirrored src rid g g' h"
  unfolding mirrored_def
  using assms by (intro exI [of _ h] exI [of _ "[]"]) (simp add: owned_by_def applied_entries_def)

lemma mirrored_trans:
  assumes "mirrored src rid g g1 h"
    and "\<And>h1. quiet h1 \<Longrightarrow> same_request rid g1 h1 \<Longrightarrow> mirrored src rid g1 g2 h1"
  shows "mirrored src rid g g2 h"
proof -
  from assms(1) obtain h1 ns where h1: "applied_entries (ig_journal g1) rid = applied_entries (ig_journal g) rid @ ns"
      "foldm (replay_event src) h (map fst ns) = Inr h1" "same_request rid g1 h1" "quiet h1" "owned_by src rid ns"
    by (auto simp: mirrored_def)
  from assms(2) [OF h1(4,3)] obtain h2 ms where h2: "applied_entries (ig_journal g2) rid = applied_entries (ig_journal g1) rid @ ms"
      "foldm (replay_event src) h1 (map fst ms) = Inr h2" "same_request rid g2 h2" "quiet h2" "owned_by src rid ms"
    by (auto simp: mirrored_def)
  show ?thesis
    unfolding mirrored_def
    using h1 h2 by (intro exI [of _ h2] exI [of _ "ns @ ms"]) (auto simp: foldm_append owned_by_def)
qed

lemma process_mirrored:
  assumes p: "process pub now g event = (g', res)"
    and arch: "hashable (event_eid event)" "src (event_eid event) = Inr event"
    and view: "same_request rid g h" and inv: "store_inv (ig_store g)" and q: "quiet h"
  shows "mirrored src rid g g' h"
  using p
proof (cases rule: process_cases)
  case idle
  then show ?thesis using view q by (intro mirrored_still) (simp_all add: same_request_def)
next
  case (torn s j e)
  with journal_append_total [OF torn(1) arch(1), of 1] show ?thesis by auto
next
  case (applied s j n)
  show ?thesis
  proof (cases "hkey rid = hkey (event_rid event)")
    case False
    then show ?thesis
      using apply_event_other [OF applied(7) inv False] journal_append_ok(4,5) [OF applied(5,8), of rid] applied(9,10) view q
      by (intro mirrored_still) (simp_all add: same_request_def)
  next
    case True
    have "ig_applied g' \<noteq> ig_applied g" using applied(11) by simp
    from applied_mirror [OF p this arch(1) same_view_cong [OF True view] inv q]
    obtain h' n where h': "process silent 0 h event = (h', Inr Applied)" "same_request (event_rid event) g' h'" "quiet h'"
        "applied_entries (ig_journal g') (event_rid event) =
          applied_entries (ig_journal g) (event_rid event) @ [(event_eid event, n, 1)]"
      by blast
    have "dget event ''request_id'' \<noteq> None"
      using applied(1) by (auto simp: event_rid_def fld_def split: option.splits)
    then have "foldm (replay_event src) h (map fst [(event_eid event, n, 1)]) = Inr h'"
      using h'(1) arch(2) by (simp add: replay_event_def)
    moreover have "applied_entries (ig_journal g') rid = applied_entries (ig_journal g) rid @ [(event_eid event, n, 1)]"
      using h'(4) journal_entries_cong [OF True] by simp
    moreover have "same_request rid g' h'" using same_view_cong [OF True [symmetric] h'(2)] .
    ultimately show ?thesis
      unfolding mirrored_def
      using h'(3) arch(2) True
      by (intro exI [of _ h'] exI [of _ "[(event_eid event, n, 1)]"]) (simp add: owned_by_def)
  qed
qed

lemma rsm_do_mirrored:
  assumes arch: "archived src a" and view: "same_request rid g h" and inv: "store_inv (ig_store g)" and q: "quiet h"
    and alive: "state_of (ig_store (rsm_do pub g a)) rid \<noteq> Evicted"
  shows "mirrored src rid g (rsm_do pub g a) h"
proof (cases a)
  case (Ingested now event)
  obtain g' res where "process pub now g event = (g', res)" by (cases "process pub now g event")
  with process_mirrored [OF this _ _ view inv q] arch Ingested show ?thesis
    by (simp add: rsm_do_def archived_def)
next
  case (Persisting x now)
  show ?thesis
  proof (cases "mark_persisted (ig_store g) x now")
    case (Inl e)
    then show ?thesis using view q by (intro mirrored_still) (simp_all add: Persisting rsm_do_def)
  next
    case (Inr s)
    note eff = mark_persisted_effect [OF Inr inv]
    have "same_request rid (g\<lparr>ig_store := s\<rparr>) h"
      using view eff life_step_cong [of rid x "ig_store g"] by (auto simp: same_request_def life_of_def)
    then show ?thesis using q by (intro mirrored_still) (simp_all add: Persisting rsm_do_def Inr)
  qed
next
  case (Evicting x now now' window)
  obtain s b where e: "evict_gate (ig_store g) x now window = (s, b)"
    by (cases "evict_gate (ig_store g) x now window")
  then have do: "ig_store (rsm_do pub g a) = s" "ig_journal (rsm_do pub g a) = ig_journal g"
    by (auto simp: Evicting rsm_do_def evict_and_notify_def split: option.splits prod.splits bool.splits sum.splits)
  have "state_of s rid = state_of (ig_store g) rid \<and> store_get s rid = store_get (ig_store g) rid"
  proof (cases b)
    case False
    with e show ?thesis by (auto simp: evict_gate_def Let_def split: if_splits)
  next
    case True
    with e have "s = mark_evicted (ig_store g) x" by (auto simp: evict_gate_def Let_def split: if_splits)
    then show ?thesis using mark_evicted_effect [OF inv, of x] alive do by auto
  qed
  with do view have "same_request rid (rsm_do pub g a) h" by (simp add: same_request_def)
  then show ?thesis using q do by (intro mirrored_still) simp_all
qed

lemma evicted_stays:
  assumes "store_inv (ig_store g)" and "state_of (ig_store (rsm_run pub g as)) x \<noteq> Evicted"
  shows "state_of (ig_store g) x \<noteq> Evicted"
proof
  assume ev: "state_of (ig_store g) x = Evicted"
  from rsm_run_life [OF assms(1), of pub "as" x] life_steps_outlive store_life_ok [OF assms(1), of x]
  have "outlives (life_of (ig_store g) x) (life_of (ig_store (rsm_run pub g as)) x)" unfolding life_of_def by blast
  with ev assms(2) show False by (simp add: outlives_def life_of_def)
qed

lemma rsm_run_mirrored:
  assumes "\<forall>a \<in> set as. archived src a" and "same_request rid g h" and "store_inv (ig_store g)" and "quiet h"
    and "state_of (ig_store (rsm_run pub g as)) rid \<noteq> Evicted"
  shows "mirrored src rid g (rsm_run pub g as) h"
  using assms
proof (induction "as" arbitrary: g h)
  case Nil
  then show ?case by (simp add: mirrored_still)
next
  case (Cons a "as")
  have inv: "store_inv (ig_store (rsm_do pub g a))" using rsm_do_life [OF Cons.prems(3)] by blast
  have "state_of (ig_store (rsm_do pub g a)) rid \<noteq> Evicted"
    using evicted_stays [OF inv] Cons.prems(5) by simp
  then have "mirrored src rid g (rsm_do pub g a) h"
    using rsm_do_mirrored [OF _ Cons.prems(2-4)] Cons.prems(1) by simp
  moreover have "mirrored src rid (rsm_do pub g a) (rsm_run pub (rsm_do pub g a) as) h1"
    if "quiet h1" "same_request rid (rsm_do pub g a) h1" for h1
    using Cons.IH [OF _ that(2) inv that(1)] Cons.prems(1,5) by simp
  ultimately show ?case unfolding foldl_Cons by (rule mirrored_trans)
qed

end
