(* ===== verification/RsmQuery.thy ===== *)
theory RsmQuery
  imports RsmRecovery
begin

text \<open>
  The read side of the request-state manager (\<open>rsm/query.py\<close>) and its configuration snapshot
  (\<open>rsm/config_view.py\<close>). Readers compute from the store and the journal and change neither.
\<close>

section \<open>Configuration\<close>

record rsm_config =
  rc_retention :: int
  rc_checkpoint_n :: int
  rc_coalescing :: int

text \<open>A number that is no Boolean and not negative; floats are not modelled.\<close>

definition plain_number :: "pyval \<Rightarrow> int option" where
  "plain_number v = (case v of PyInt i \<Rightarrow> if i < 0 then None else Some i | _ \<Rightarrow> None)"

definition rsm_config_view :: "pyval \<Rightarrow> pyval \<Rightarrow> pyval \<Rightarrow> rsm_exn + rsm_config" where
  "rsm_config_view window every interval =
     (case plain_number window of
        None \<Rightarrow> Inl (ValueError ''config_view.bad_retention_window'')
      | Some w \<Rightarrow>
          (case plain_number every of
             None \<Rightarrow> Inl (ValueError ''config_view.bad_checkpoint_n'')
           | Some n \<Rightarrow>
               (if n = 0 then Inl (ValueError ''config_view.bad_checkpoint_n'')
                else case plain_number interval of
                  None \<Rightarrow> Inl (ValueError ''config_view.bad_coalescing_interval'')
                | Some c \<Rightarrow> Inr \<lparr>rc_retention = w, rc_checkpoint_n = n, rc_coalescing = c\<rparr>)))"

section \<open>Queries\<close>

definition query_status :: "rsm_store \<Rightarrow> pyval \<Rightarrow> mat" where
  "query_status s rid = state_of s rid"

definition query_snapshot :: "rsm_store \<Rightarrow> pyval \<Rightarrow> request option" where
  "query_snapshot s rid = (if query_status s rid \<in> {Absent, Evicted} then None else store_get s rid)"

definition query_budget :: "rsm_store \<Rightarrow> pyval \<Rightarrow> rsm_exn + payload option" where
  "query_budget s rid =
     (case query_snapshot s rid of
        None \<Rightarrow> Inr None
      | Some r \<Rightarrow>
          (let granted = get_or_zero (rq_budget r) ''granted'';
               consumed = get_or_zero (rq_budget r) ''consumed''
           in case py_sub granted consumed of
                None \<Rightarrow> Inl TypeError
              | Some left \<Rightarrow> Inr (Some [(''granted'', granted), (''consumed'', consumed), (''remaining'', left)])))"

datatype block =
    Fields payload
  | WorkBlock work_block
  | ContextBlock "pyval keyed"
  | VerificationBlock "payload keyed"
  | FailureBlock "payload list"

definition block_of :: "request \<Rightarrow> string \<Rightarrow> block option" where
  "block_of r name =
     map_of [(''identity'', Fields (rq_identity r)), (''lifecycle'', Fields (rq_lifecycle r)),
             (''plan'', Fields (rq_plan r)), (''work'', WorkBlock (rq_work r)),
             (''context'', ContextBlock (rq_context r)),
             (''verification'', VerificationBlock (rq_verification r)),
             (''failure'', FailureBlock (rq_failure r)), (''journal_meta'', Fields (rq_meta r))] name"

definition block_names :: "string list" where
  "block_names = [''identity'', ''lifecycle'', ''plan'', ''work'', ''context'',
     ''verification'', ''budget'', ''failure'', ''journal_meta'']"

definition query_block :: "rsm_store \<Rightarrow> pyval \<Rightarrow> string \<Rightarrow> rsm_exn + block option" where
  "query_block s rid name =
     (if name \<notin> set block_names then Inl (ValueError (''query.unknown_block:'' @ name))
      else if name = ''budget'' then
        (case query_budget s rid of Inl e \<Rightarrow> Inl e | Inr b \<Rightarrow> Inr (map_option Fields b))
      else Inr (Option.bind (query_snapshot s rid) (\<lambda>r. block_of r name)))"

definition query_failures :: "rsm_store \<Rightarrow> pyval \<Rightarrow> (payload list \<times> pyval) option" where
  "query_failures s rid =
     map_option (\<lambda>r. (rq_failure r, get_or_zero (rq_plan r) ''revision'')) (query_snapshot s rid)"

definition enumerate_active :: "rsm_store \<Rightarrow> pyval list" where
  "enumerate_active s = filter (\<lambda>rid. state_of s rid = Active) (store_ids s)"

definition journal_read :: "rsm_journal \<Rightarrow> rsm_store \<Rightarrow> pyval \<Rightarrow> pyval list option" where
  "journal_read j s rid =
     (if query_status s rid \<in> {Absent, Evicted} then None else Some (map fst (applied_entries j rid)))"

section \<open>Budgets\<close>

text \<open>The sum of a numeric field over the events of a family.\<close>

definition numbers :: "string \<Rightarrow> string \<Rightarrow> payload list \<Rightarrow> int list" where
  "numbers family k events =
     map (\<lambda>e. case as_int (fld (fields_of (fld e ''payload'')) k) of None \<Rightarrow> 0 | Some i \<Rightarrow> i)
       (filter (\<lambda>e. fld e ''family'' = PyStr family) events)"

end
