(* ===== verification/JsonText.thy ===== *)
theory JsonText
  imports Json
begin

text \<open>
  \<open>json.dumps(obj)\<close> with its default separators, which keeps the order of the keys and puts a
  blank after each comma and colon, and \<open>json.loads\<close> on texts with white space between the
  tokens: the blanks outside strings are dropped, unless one separates two tokens that are
  both numbers or words, which no document allows. A value reads back as itself.
\<close>

section \<open>White space\<close>

definition is_ws :: "char \<Rightarrow> bool" where
  "is_ws c \<longleftrightarrow> c \<in> {CHR 0x20, CHR 0x09, CHR 0x0A, CHR 0x0D}"

definition json_delim :: "char \<Rightarrow> bool" where
  "json_delim c \<longleftrightarrow> c \<in> {CHR ''['', CHR '']'', CHR ''{'', CHR ''}'', CHR '','', CHR '':'', CHR 0x22}"

text \<open>The rest of a string token with its closing quote, and what follows.\<close>

fun raw_str :: "string \<Rightarrow> (string \<times> string) option" where
  "raw_str [] = None"
| "raw_str (c # r) =
     (if c = CHR 0x22 then Some ([c], r)
      else if c = CHR 0x5C then
        (case r of
           [] \<Rightarrow> None
         | e # r' \<Rightarrow> map_option (\<lambda>(t, rest). (c # e # t, rest)) (raw_str r'))
      else map_option (\<lambda>(t, rest). (c # t, rest)) (raw_str r))"

lemma raw_str_length: "raw_str s = Some (t, rest) \<Longrightarrow> length rest < length s"
  by (induction s arbitrary: t rest rule: raw_str.induct)
    (fastforce split: if_splits list.splits)+

function unspace :: "bool \<Rightarrow> string \<Rightarrow> string option" where
  "unspace w [] = Some []"
| "unspace w (c # r) =
     (if is_ws c then
        (if w \<and> (case dropWhile is_ws r of [] \<Rightarrow> False | d # _ \<Rightarrow> \<not> json_delim d) then None else unspace w r)
      else if c = CHR 0x22 then
        (case raw_str r of
           None \<Rightarrow> None
         | Some (t, rest) \<Rightarrow> map_option (\<lambda>u. c # t @ u) (unspace False rest))
      else map_option (Cons c) (unspace (\<not> json_delim c) r))"
  by pat_completeness auto
termination
  by (relation "measure (\<lambda>(w, s). length s)") (auto dest: raw_str_length)

declare unspace.simps(2) [simp del]

definition json_read :: "string \<Rightarrow> pyval option" where
  "json_read s = Option.bind (unspace False s) json_loads"

section \<open>The two printers\<close>

fun json_text :: "pyval \<Rightarrow> string" where
  "json_text PyNone = ''null''"
| "json_text (PyBool b) = (if b then ''true'' else ''false'')"
| "json_text (PyInt i) = int_str i"
| "json_text (PyStr s) = json_str s"
| "json_text (PyList xs) = ''['' @ join_with '', '' (map json_text xs) @ '']''"
| "json_text (PyDict d) =
     ''{'' @ join_with '', '' (map (\<lambda>(k, v). json_str k @ '': '' @ json_text v) d) @ ''}''"

fun json_plain :: "pyval \<Rightarrow> string" where
  "json_plain PyNone = ''null''"
| "json_plain (PyBool b) = (if b then ''true'' else ''false'')"
| "json_plain (PyInt i) = int_str i"
| "json_plain (PyStr s) = json_str s"
| "json_plain (PyList xs) = ''['' @ join_with '','' (map json_plain xs) @ '']''"
| "json_plain (PyDict d) =
     ''{'' @ join_with '','' (map (\<lambda>(k, v). json_str k @ '':'' @ json_plain v) d) @ ''}''"

lemma plain_reads_as: "json_wf v \<Longrightarrow> reads_as (json_plain v) v"
proof (induction v)
  case (PyList vs)
  then have "list_all2 reads_as (map json_plain vs) vs"
    by (auto simp: list_all2_map1 list_all2_same list_all_iff)
  then show ?case using reads_as_list by simp
next
  case (PyDict d)
  then have "list_all2 reads_member (map (\<lambda>(k, v). json_str k @ '':'' @ json_plain v) d) d"
    by (fastforce simp: list_all2_map1 list_all2_same list_all_iff reads_member_def)
  then show ?case using reads_as_dict PyDict.prems by simp
qed (auto intro: reads_as_int reads_as_str reads_as_scalar)

section \<open>Dropping the blanks\<close>

definition prepend :: "string \<Rightarrow> string option \<Rightarrow> string option" where
  "prepend p x = map_option (append p) x"

lemma prepend_simps [simp]:
  "prepend p (prepend q x) = prepend (p @ q) x" "prepend [] x = x" "prepend p (Some t) = Some (p @ t)"
  by (cases x; simp add: prepend_def)+

lemma unspace_Cons:
  "unspace w (c # r) =
     (if is_ws c then
        (if w \<and> (case dropWhile is_ws r of [] \<Rightarrow> False | d # _ \<Rightarrow> \<not> json_delim d) then None else unspace w r)
      else if c = CHR 0x22 then
        (case raw_str r of None \<Rightarrow> None | Some (t, rest) \<Rightarrow> prepend (c # t) (unspace False rest))
      else prepend [c] (unspace (\<not> json_delim c) r))"
  by (simp add: unspace.simps prepend_def option.map_comp comp_def split: option.split prod.split)
    (auto intro!: option.map_cong)

definition squeezes :: "string \<Rightarrow> string \<Rightarrow> bool \<Rightarrow> bool" where
  "squeezes t p b \<longleftrightarrow> (\<forall>w rest. unspace w (t @ rest) = prepend p (unspace b rest))"

definition scalar_char :: "char \<Rightarrow> bool" where
  "scalar_char c \<longleftrightarrow> \<not> is_ws c \<and> \<not> json_delim c"

lemma scalar_not_quote: "scalar_char c \<Longrightarrow> c \<noteq> CHR 0x22"
  by (auto simp: scalar_char_def json_delim_def)

lemma squeezes_scalar:
  assumes "list_all scalar_char s" and "s \<noteq> []"
  shows "squeezes s s True"
proof -
  have "unspace w (s @ rest) = prepend s (unspace (w \<and> s = [] \<or> s \<noteq> []) rest)" for w rest
    using assms(1)
  proof (induction s arbitrary: w)
    case (Cons c s)
    then have "unspace w ((c # s) @ rest) = prepend [c] (unspace True (s @ rest))"
      using scalar_not_quote [of c] by (simp add: unspace_Cons scalar_char_def)
    also have "unspace True (s @ rest) = prepend s (unspace True rest)"
      using Cons.IH [of True] Cons.prems by (cases s) simp_all
    finally show ?case by simp
  qed simp
  with assms(2) show ?thesis by (simp add: squeezes_def)
qed

lemma scalar_digit: "is_digit c \<Longrightarrow> scalar_char c"
  by (auto simp: is_digit_def scalar_char_def is_ws_def json_delim_def)

lemma scalar_int: "list_all scalar_char (int_str i)"
proof -
  have "list_all scalar_char (nat_str n)" for n
    using is_digit_nat_str [of n] scalar_digit by (auto simp: list_all_iff)
  moreover have "scalar_char (CHR ''-'')" by (simp add: scalar_char_def is_ws_def json_delim_def)
  ultimately show ?thesis by (simp add: int_str_def)
qed

lemma int_str_nonempty: "int_str i \<noteq> []"
  by (simp add: int_str_def)

lemma hex_digit_plain: "n < 16 \<Longrightarrow> hex_digit n \<noteq> CHR 0x22 \<and> hex_digit n \<noteq> CHR 0x5C"
  using hex_val_digit [of n] by (auto simp: hex_val_def is_digit_def)

lemma raw_json_char: "raw_str (json_char c @ r) = map_option (\<lambda>(t, rest). (json_char c @ t, rest)) (raw_str r)"
proof (cases "c = CHR 0x22 \<or> c = CHR 0x5C \<or> c = CHR 0x0A \<or> c = CHR 0x0D \<or> c = CHR 0x09 \<or> c = CHR 0x08 \<or> c = CHR 0x0C")
  case True
  then show ?thesis by (elim disjE) (simp_all add: json_char_def)
next
  case False
  have "(of_char c :: nat) < 256" by (simp add: of_char_less_256)
  then have "of_char c div 16 < (16 :: nat)" by (simp add: div_less_iff_less_mult)
  with False show ?thesis
    using hex_digit_plain [of "of_char c div 16"] hex_digit_plain [of "of_char c mod 16"]
    by (cases "printable c")
      (auto simp: json_char_def hex2_def option.map_comp comp_def case_prod_beta' intro!: option.map_cong)
qed

lemma raw_json_str: "raw_str (concat (map json_char s) @ CHR 0x22 # rest) = Some (concat (map json_char s) @ [CHR 0x22], rest)"
  by (induction s) (simp_all add: raw_json_char)

lemma unspace_json_str: "unspace w (json_str s @ rest) = prepend (json_str s) (unspace False rest)"
  by (simp add: json_str_def unspace_Cons is_ws_def raw_json_str)

lemma squeezes_str: "squeezes (json_str s) (json_str s) False"
  by (simp add: squeezes_def unspace_json_str)

lemma unspace_delim:
  "json_delim c \<Longrightarrow> c \<noteq> CHR 0x22 \<Longrightarrow> unspace w (c # r) = prepend [c] (unspace False r)"
  by (auto simp: unspace_Cons is_ws_def json_delim_def)

lemma unspace_blank: "unspace False (CHR '' '' # r) = unspace False r"
  by (simp add: unspace_Cons is_ws_def)

lemma delims [simp]:
  "json_delim (CHR '','')" "json_delim (CHR '':'')" "json_delim (CHR ''['')" "json_delim (CHR '']'')"
  "json_delim (CHR ''{'')" "json_delim (CHR ''}'')"
  by (simp_all add: json_delim_def)

definition squeezed :: "string \<Rightarrow> string \<Rightarrow> bool" where
  "squeezed t p \<longleftrightarrow> (\<exists>b. squeezes t p b)"

lemma squeezed_then:
  assumes "squeezed t p" and "json_delim c" and "c \<noteq> CHR 0x22"
  shows "unspace w (t @ c # rest) = prepend (p @ [c]) (unspace False rest)"
  using assms unspace_delim [OF assms(2,3)]
  by (auto simp: squeezed_def squeezes_def)

lemma squeezed_join:
  assumes "list_all2 squeezed ts ps" and "json_delim c" and "c \<noteq> CHR 0x22"
  shows "unspace False (join_with '', '' ts @ c # rest) = prepend (join_with '','' ps @ [c]) (unspace False rest)"
  using assms(1)
proof (induction ts arbitrary: ps)
  case Nil
  then show ?case using unspace_delim [OF assms(2,3)] by simp
next
  case (Cons t ts)
  then obtain p qs where ps: "ps = p # qs" "squeezed t p" "list_all2 squeezed ts qs" by (cases ps) auto
  show ?case
  proof (cases "ts = []")
    case True
    with ps squeezed_then [OF ps(2) assms(2,3)] show ?thesis by simp
  next
    case False
    then have "qs \<noteq> []" using ps(3) by auto
    have "unspace False (join_with '', '' (t # ts) @ c # rest)
        = unspace False (t @ CHR '','' # CHR '' '' # join_with '', '' ts @ c # rest)"
      using False by (simp add: join_with_Cons)
    also have "\<dots> = prepend (p @ '','') (unspace False (join_with '', '' ts @ c # rest))"
      by (simp add: squeezed_then [OF ps(2)] unspace_blank)
    also have "\<dots> = prepend (join_with '','' ps @ [c]) (unspace False rest)"
      using Cons.IH [OF ps(3)] \<open>qs \<noteq> []\<close> by (simp add: ps(1) join_with_Cons)
    finally show ?thesis .
  qed
qed

lemma squeezed_bracket:
  assumes "list_all2 squeezed ts ps" and "json_delim a" "a \<noteq> CHR 0x22" and "json_delim c" "c \<noteq> CHR 0x22"
  shows "squeezed ([a] @ join_with '', '' ts @ [c]) ([a] @ join_with '','' ps @ [c])"
  unfolding squeezed_def squeezes_def
  by (intro exI [of _ False] allI)
    (simp add: unspace_delim [OF assms(2,3)] squeezed_join [OF assms(1,4,5)])

lemma squeezed_member:
  assumes "squeezed t p"
  shows "squeezed (json_str k @ '': '' @ t) (json_str k @ '':'' @ p)"
proof -
  from assms obtain b where b: "unspace w (t @ rest) = prepend p (unspace b rest)" for w rest
    by (auto simp: squeezed_def squeezes_def)
  show ?thesis
    unfolding squeezed_def squeezes_def
    by (intro exI [of _ b] allI)
      (simp add: unspace_json_str unspace_delim unspace_blank b)
qed

lemma json_text_squeezed: "squeezed (json_text v) (json_plain v)"
proof (induction v)
  case (PyList vs)
  then have "list_all2 squeezed (map json_text vs) (map json_plain vs)"
    by (simp add: list_all2_map1 list_all2_map2 list_all2_same)
  from squeezed_bracket [OF this] show ?case by simp
next
  case (PyDict d)
  then have "list_all2 squeezed (map (\<lambda>(k, v). json_str k @ '': '' @ json_text v) d)
      (map (\<lambda>(k, v). json_str k @ '':'' @ json_plain v) d)"
    by (auto simp: list_all2_map1 list_all2_map2 list_all2_same intro!: squeezed_member [simplified])
  from squeezed_bracket [OF this] show ?case by simp
next
  case (PyInt i)
  then show ?case using squeezes_scalar [OF scalar_int int_str_nonempty] by (auto simp: squeezed_def)
next
  case (PyStr s)
  then show ?case using squeezes_str by (auto simp: squeezed_def)
qed (auto simp: squeezed_def scalar_char_def is_ws_def json_delim_def intro!: exI [of _ True] squeezes_scalar)

lemma json_read_text:
  assumes "json_wf v"
  shows "json_read (json_text v) = Some v"
proof -
  from json_text_squeezed [of v] obtain b where "unspace w (json_text v @ rest) = prepend (json_plain v) (unspace b rest)" for w rest
    by (auto simp: squeezed_def squeezes_def)
  from this [of False "[]"] have "unspace False (json_text v) = Some (json_plain v)" by simp
  then show ?thesis using reads_as_loads [OF plain_reads_as [OF assms]] by (simp add: json_read_def)
qed

end
