(* ===== verification/RsmPersist.thy ===== *)
theory RsmPersist
  imports RsmRecovery JsonText
begin

text \<open>
  Persistence (\<open>rsm/persistence.py\<close>) and the recovery paths that read it
  (\<open>rsm/recovery.py\<close>), over the storage port. A record becomes a JSON document and back; JSON
  object keys are strings, so a key of another type is written as its text. The order of the
  three keys of the work block, which nothing reads, is fixed here. A document that no writer
  of this module produces reads back as \<open>BadDocument\<close>.
\<close>

section \<open>Documents\<close>

fun key_text :: "pyval \<Rightarrow> string" where
  "key_text (PyStr s) = s"
| "key_text (PyInt i) = int_str i"
| "key_text (PyBool b) = (if b then ''true'' else ''false'')"
| "key_text _ = ''null''"

definition keyed_doc :: "('v \<Rightarrow> pyval) \<Rightarrow> 'v keyed \<Rightarrow> pyval" where
  "keyed_doc f d = PyDict (map (\<lambda>(k, v). (key_text k, f v)) d)"

definition opt_entry :: "string \<Rightarrow> ('a \<Rightarrow> pyval) \<Rightarrow> 'a option \<Rightarrow> payload" where
  "opt_entry k f x = (case x of None \<Rightarrow> [] | Some v \<Rightarrow> [(k, f v)])"

definition work_doc :: "work_block \<Rightarrow> pyval" where
  "work_doc w = PyDict (opt_entry ''tasks'' (keyed_doc PyDict) (wk_tasks w)
     @ opt_entry ''execs'' (keyed_doc PyDict) (wk_execs w)
     @ opt_entry ''commit_ref'' (\<lambda>v. v) (wk_commit w))"

definition record_to_dict :: "request \<Rightarrow> pyval" where
  "record_to_dict r = PyDict
     [(''request_id'', rq_id r), (''version'', PyInt (int (rq_version r))),
      (''identity'', PyDict (rq_identity r)), (''lifecycle'', PyDict (rq_lifecycle r)),
      (''plan'', PyDict (rq_plan r)), (''work'', work_doc (rq_work r)),
      (''context'', keyed_doc (\<lambda>v. v) (rq_context r)),
      (''verification'', keyed_doc PyDict (rq_verification r)),
      (''budget'', PyDict (rq_budget r)), (''failure'', PyList (map PyDict (rq_failure r))),
      (''journal_meta'', PyDict (rq_meta r))]"

fun as_dict :: "pyval \<Rightarrow> payload option" where
  "as_dict (PyDict d) = Some d"
| "as_dict _ = None"

definition keyed_read :: "(pyval \<Rightarrow> 'v option) \<Rightarrow> pyval \<Rightarrow> 'v keyed option" where
  "keyed_read f v =
     Option.bind (as_dict v) (\<lambda>d. opt_all (map (\<lambda>(k, x). map_option (Pair (PyStr k)) (f x)) d))"

definition opt_read :: "(pyval \<Rightarrow> 'a option) \<Rightarrow> payload \<Rightarrow> string \<Rightarrow> 'a option option" where
  "opt_read f d k = (case dget d k of None \<Rightarrow> Some None | Some v \<Rightarrow> map_option Some (f v))"

definition work_read :: "pyval \<Rightarrow> work_block option" where
  "work_read v = Option.bind (as_dict v) (\<lambda>d.
     Option.bind (opt_read (keyed_read as_dict) d ''tasks'') (\<lambda>t.
     Option.bind (opt_read (keyed_read as_dict) d ''execs'') (\<lambda>e.
     Option.bind (opt_read Some d ''commit_ref'') (\<lambda>c.
       Some \<lparr>wk_tasks = t, wk_execs = e, wk_commit = c\<rparr>))))"

definition version_read :: "pyval \<Rightarrow> nat option" where
  "version_read v = (case v of PyInt i \<Rightarrow> if 0 \<le> i then Some (nat i) else None | _ \<Rightarrow> None)"

definition dict_to_record :: "pyval \<Rightarrow> request option" where
  "dict_to_record v = Option.bind (as_dict v) (\<lambda>d.
     Option.bind (dget d ''request_id'') (\<lambda>rid.
     Option.bind (Option.bind (dget d ''version'') version_read) (\<lambda>version.
     Option.bind (Option.bind (dget d ''identity'') as_dict) (\<lambda>ident.
     Option.bind (Option.bind (dget d ''lifecycle'') as_dict) (\<lambda>lifecycle.
     Option.bind (Option.bind (dget d ''plan'') as_dict) (\<lambda>plan.
     Option.bind (Option.bind (dget d ''work'') work_read) (\<lambda>work.
     Option.bind (Option.bind (dget d ''context'') (keyed_read Some)) (\<lambda>context.
     Option.bind (Option.bind (dget d ''verification'') (keyed_read as_dict)) (\<lambda>verification.
     Option.bind (Option.bind (dget d ''budget'') as_dict) (\<lambda>budget.
     Option.bind (Option.bind (Option.bind (dget d ''failure'') as_list) (\<lambda>xs. opt_all (map as_dict xs))) (\<lambda>failure.
     Option.bind (Option.bind (dget d ''journal_meta'') as_dict) (\<lambda>meta.
       Some \<lparr>rq_id = rid, rq_version = version, rq_identity = ident, rq_lifecycle = lifecycle,
             rq_plan = plan, rq_work = work, rq_context = context, rq_verification = verification,
             rq_budget = budget, rq_failure = failure, rq_meta = meta\<rparr>))))))))))))"

definition entry_doc :: "journal_entry \<Rightarrow> pyval" where
  "entry_doc e = (case e of (eid, seq, version) \<Rightarrow> PyList [eid, PyInt (int seq), PyInt version])"

section \<open>Writing and reading\<close>

definition rsm_key :: "string \<Rightarrow> pyval \<Rightarrow> rsm_exn + string" where
  "rsm_key pre rid = (case rid of PyStr r \<Rightarrow> Inr (pre @ r) | _ \<Rightarrow> Inl TypeError)"

definition journal_key :: "pyval \<Rightarrow> rsm_exn + string" where
  "journal_key = rsm_key ''rsm/journal/''"

definition terminal_key :: "pyval \<Rightarrow> rsm_exn + string" where
  "terminal_key = rsm_key ''rsm/terminal/''"

definition rsm_checkpoint_key :: "pyval \<Rightarrow> int \<Rightarrow> string" where
  "rsm_checkpoint_key rid seq = ''rsm/checkpoint/'' @ py_str rid @ ''/'' @ int_str seq"

definition checkpoint_index_key :: "pyval \<Rightarrow> rsm_exn + string" where
  "checkpoint_index_key = rsm_key ''rsm/checkpoint_index/''"

definition write_doc :: "'s blob_port \<Rightarrow> 's \<Rightarrow> rsm_exn + string \<Rightarrow> pyval \<Rightarrow> 's \<times> (rsm_exn + pyval)" where
  "write_doc P s key doc =
     (case key of
        Inl e \<Rightarrow> (s, Inl e)
      | Inr k \<Rightarrow>
          (case bp_write P s k (json_text doc) of
             (s', Inl e) \<Rightarrow> (s', Inl (StoreRaised e))
           | (s', Inr _) \<Rightarrow> (s', Inr doc)))"

definition read_doc :: "'s blob_port \<Rightarrow> 's \<Rightarrow> rsm_exn + string \<Rightarrow> rsm_exn + pyval" where
  "read_doc P s key =
     (case key of
        Inl e \<Rightarrow> Inl e
      | Inr k \<Rightarrow>
          (case bp_read P s k of
             Inl e \<Rightarrow> Inl (StoreRaised e)
           | Inr text \<Rightarrow> (case json_read text of None \<Rightarrow> Inl (ValueError ''json'') | Some v \<Rightarrow> Inr v)))"

definition doc_field :: "pyval \<Rightarrow> string \<Rightarrow> rsm_exn + pyval" where
  "doc_field v k =
     (case as_dict v of
        None \<Rightarrow> Inl BadDocument
      | Some d \<Rightarrow> (case dget d k of None \<Rightarrow> Inl KeyError | Some x \<Rightarrow> Inr x))"

definition write_journal_index :: "'s blob_port \<Rightarrow> 's \<Rightarrow> pyval \<Rightarrow> rsm_journal \<Rightarrow> 's \<times> (rsm_exn + pyval)" where
  "write_journal_index P s rid j =
     write_doc P s (journal_key rid)
       (PyDict [(''format_version'', PyInt 1), (''request_id'', rid),
                (''entries'', PyList (map entry_doc (applied_entries j rid)))])"

definition read_journal_index :: "'s blob_port \<Rightarrow> 's \<Rightarrow> pyval \<Rightarrow> rsm_exn + pyval" where
  "read_journal_index P s rid = read_doc P s (journal_key rid)"

definition write_terminal_snapshot :: "'s blob_port \<Rightarrow> 's \<Rightarrow> pyval \<Rightarrow> request \<Rightarrow> 's \<times> (rsm_exn + pyval)" where
  "write_terminal_snapshot P s rid r =
     write_doc P s (terminal_key rid)
       (PyDict [(''format_version'', PyInt 1), (''record'', record_to_dict r)])"

definition record_from_checkpoint :: "pyval \<Rightarrow> rsm_exn + request" where
  "record_from_checkpoint doc =
     (case doc_field doc ''record'' of
        Inl e \<Rightarrow> Inl e
      | Inr v \<Rightarrow> (case dict_to_record v of None \<Rightarrow> Inl BadDocument | Some r \<Rightarrow> Inr r))"

definition read_terminal_snapshot :: "'s blob_port \<Rightarrow> 's \<Rightarrow> pyval \<Rightarrow> rsm_exn + request" where
  "read_terminal_snapshot P s rid =
     (case read_doc P s (terminal_key rid) of Inl e \<Rightarrow> Inl e | Inr doc \<Rightarrow> record_from_checkpoint doc)"

definition write_checkpoint ::
  "'s blob_port \<Rightarrow> 's \<Rightarrow> rsm_journal \<Rightarrow> rsm_store \<Rightarrow> pyval \<Rightarrow> 's \<times> (rsm_exn + pyval)" where
  "write_checkpoint P s j st rid =
     (let es = applied_entries j rid;
          seq = (if es = [] then -1 else int (fst (snd (last es))))
      in case store_get st rid of
           None \<Rightarrow> (s, Inl AttributeError)
         | Some r \<Rightarrow>
             (case write_doc P s (Inr (rsm_checkpoint_key rid seq))
                     (PyDict [(''format_version'', PyInt 1), (''request_id'', rid), (''seq'', PyInt seq),
                        (''journal_prefix'', PyList (map entry_doc es)), (''record'', record_to_dict r)]) of
                (s1, Inl e) \<Rightarrow> (s1, Inl e)
              | (s1, Inr doc) \<Rightarrow>
                  (case write_doc P s1 (checkpoint_index_key rid) (PyDict [(''latest_seq'', PyInt seq)]) of
                     (s2, Inl e) \<Rightarrow> (s2, Inl e)
                   | (s2, Inr _) \<Rightarrow> (s2, Inr doc))))"

definition read_checkpoint :: "'s blob_port \<Rightarrow> 's \<Rightarrow> pyval \<Rightarrow> int option \<Rightarrow> rsm_exn + pyval" where
  "read_checkpoint P s rid seq =
     (case seq of
        Some n \<Rightarrow> read_doc P s (Inr (rsm_checkpoint_key rid n))
      | None \<Rightarrow>
          (case read_doc P s (checkpoint_index_key rid) of
             Inl e \<Rightarrow> Inl e
           | Inr idx \<Rightarrow>
               (case doc_field idx ''latest_seq'' of
                  Inl e \<Rightarrow> Inl e
                | Inr (PyInt n) \<Rightarrow> read_doc P s (Inr (rsm_checkpoint_key rid n))
                | Inr _ \<Rightarrow> Inl BadDocument)))"

definition maybe_checkpoint ::
  "'s blob_port \<Rightarrow> 's \<Rightarrow> rsm_journal \<Rightarrow> rsm_store \<Rightarrow> pyval \<Rightarrow> int \<Rightarrow> 's \<times> (rsm_exn + pyval option)" where
  "maybe_checkpoint P s j st rid every =
     (let n = int (length (applied_entries j rid)) in
      if n = 0 \<or> every \<le> 0 \<or> n mod every \<noteq> 0 then (s, Inr None)
      else case write_checkpoint P s j st rid of
        (s', Inl e) \<Rightarrow> (s', Inl e)
      | (s', Inr doc) \<Rightarrow> (s', Inr (Some doc)))"

definition persist_terminal ::
  "'s blob_port \<Rightarrow> 's \<Rightarrow> rsm_journal \<Rightarrow> rsm_store \<Rightarrow> pyval \<Rightarrow> int \<Rightarrow> 's \<times> (rsm_exn + rsm_store)" where
  "persist_terminal P s j st rid now =
     (if state_of st rid \<noteq> Terminal then (s, Inl (value_error ''persistence.not_terminal:'' rid))
      else case write_journal_index P s rid j of
        (s1, Inl e) \<Rightarrow> (s1, Inl e)
      | (s1, Inr _) \<Rightarrow>
          (case store_get st rid of
             None \<Rightarrow> (s1, Inl AttributeError)
           | Some r \<Rightarrow>
               (case write_terminal_snapshot P s1 rid r of
                  (s2, Inl e) \<Rightarrow> (s2, Inl e)
                | (s2, Inr _) \<Rightarrow> (s2, mark_persisted st rid now))))"

definition reapply_journal_index :: "'s blob_port \<Rightarrow> 's \<Rightarrow> rsm_journal \<Rightarrow> pyval \<Rightarrow> 's \<times> (rsm_exn + pyval)" where
  "reapply_journal_index P s j rid = write_journal_index P s rid j"

section \<open>Recovery from storage\<close>

definition entry_read :: "pyval \<Rightarrow> journal_entry option" where
  "entry_read v =
     (case v of PyList [eid, PyInt seq, PyInt version] \<Rightarrow> Some (eid, nat seq, version) | _ \<Rightarrow> None)"

definition entries_field :: "pyval \<Rightarrow> string \<Rightarrow> rsm_exn + journal_entry list" where
  "entries_field doc k =
     (case doc_field doc k of
        Inl e \<Rightarrow> Inl e
      | Inr v \<Rightarrow>
          (case Option.bind (as_list v) (\<lambda>xs. opt_all (map entry_read xs)) of
             None \<Rightarrow> Inl BadDocument
           | Some es \<Rightarrow> Inr es))"

definition replay_from_journal_index ::
  "'s blob_port \<Rightarrow> 's \<Rightarrow> pyval \<Rightarrow> event_source \<Rightarrow> rsm_exn + rsm_store \<times> rsm_journal \<times> request option" where
  "replay_from_journal_index P s rid src =
     (case read_journal_index P s rid of
        Inl e \<Rightarrow> Inl e
      | Inr doc \<Rightarrow>
          (case entries_field doc ''entries'' of
             Inl e \<Rightarrow> Inl e
           | Inr es \<Rightarrow> replay_journal src empty_rsm_store empty_journal (map fst es)))"

definition reappend :: "pyval \<Rightarrow> rsm_journal \<Rightarrow> journal_entry \<Rightarrow> rsm_exn + rsm_journal" where
  "reappend rid j e =
     (case e of (eid, _, version) \<Rightarrow>
        (case applied_append j rid eid version of (_, Inl x) \<Rightarrow> Inl x | (j', Inr _) \<Rightarrow> Inr j'))"

definition replay_from_checkpoint ::
  "'s blob_port \<Rightarrow> 's \<Rightarrow> pyval \<Rightarrow> pyval list \<Rightarrow> event_source \<Rightarrow> int option
     \<Rightarrow> rsm_exn + rsm_store \<times> rsm_journal \<times> request option" where
  "replay_from_checkpoint P s rid tail src seq =
     (case read_checkpoint P s rid seq of
        Inl e \<Rightarrow> Inl e
      | Inr doc \<Rightarrow>
          (case record_from_checkpoint doc of
             Inl e \<Rightarrow> Inl e
           | Inr r \<Rightarrow>
               (case store_seed empty_rsm_store rid r of
                  Inl e \<Rightarrow> Inl e
                | Inr st \<Rightarrow>
                    (case entries_field doc ''journal_prefix'' of
                       Inl e \<Rightarrow> Inl e
                     | Inr es \<Rightarrow>
                         (case foldm (reappend rid) empty_journal es of
                            Inl e \<Rightarrow> Inl e
                          | Inr j \<Rightarrow> replay_journal src st j tail)))))"

text \<open>\<open>==\<close> of values and of records; a \<open>dict\<close> compares by key.\<close>

definition keyed_eq :: "('v \<Rightarrow> 'v \<Rightarrow> bool) \<Rightarrow> 'v keyed \<Rightarrow> 'v keyed \<Rightarrow> bool" where
  "keyed_eq eq d e \<longleftrightarrow> length d = length e
     \<and> list_all (\<lambda>(k, v). case kget e k of None \<Rightarrow> False | Some x \<Rightarrow> eq v x) d"

definition payload_eq :: "payload \<Rightarrow> payload \<Rightarrow> bool" where
  "payload_eq d e = py_eq (PyDict d) (PyDict e)"

definition work_eq :: "work_block \<Rightarrow> work_block \<Rightarrow> bool" where
  "work_eq w w' \<longleftrightarrow> rel_option (keyed_eq payload_eq) (wk_tasks w) (wk_tasks w')
     \<and> rel_option (keyed_eq payload_eq) (wk_execs w) (wk_execs w')
     \<and> rel_option py_eq (wk_commit w) (wk_commit w')"

definition request_eq :: "request \<Rightarrow> request \<Rightarrow> bool" where
  "request_eq r r' \<longleftrightarrow> py_eq (rq_id r) (rq_id r') \<and> rq_version r = rq_version r'
     \<and> payload_eq (rq_identity r) (rq_identity r') \<and> payload_eq (rq_lifecycle r) (rq_lifecycle r')
     \<and> payload_eq (rq_plan r) (rq_plan r') \<and> work_eq (rq_work r) (rq_work r')
     \<and> keyed_eq py_eq (rq_context r) (rq_context r')
     \<and> keyed_eq payload_eq (rq_verification r) (rq_verification r')
     \<and> payload_eq (rq_budget r) (rq_budget r') \<and> list_all2 payload_eq (rq_failure r) (rq_failure r')
     \<and> payload_eq (rq_meta r) (rq_meta r')"

definition verify_byte_identical :: "request \<Rightarrow> request \<Rightarrow> rsm_exn + bool" where
  "verify_byte_identical replayed reference =
     (if request_eq replayed reference then Inr True
      else Inl (ReplayMismatch (''recovery.mismatch:'' @ py_str (rq_id replayed))))"

end
