(* ===== verification/RsmPlain.thy ===== *)
theory RsmPlain
  imports RsmPersist
begin

text \<open>
  Records that survive a document: string keys, values that JSON keeps. The reducers keep a
  record so when the events carry such values, and the document of such a record reads back as
  the record itself.
\<close>

section \<open>Plain values\<close>

definition plain_payload :: "payload \<Rightarrow> bool" where
  "plain_payload d \<longleftrightarrow> json_wf (PyDict d)"

definition plain_keyed :: "('v \<Rightarrow> bool) \<Rightarrow> 'v keyed \<Rightarrow> bool" where
  "plain_keyed ok d \<longleftrightarrow> distinct (map fst d) \<and> list_all (\<lambda>(k, v). is_str k \<and> ok v) d"

definition plain_work :: "work_block \<Rightarrow> bool" where
  "plain_work w \<longleftrightarrow> pred_option (plain_keyed plain_payload) (wk_tasks w)
     \<and> pred_option (plain_keyed plain_payload) (wk_execs w) \<and> pred_option json_wf (wk_commit w)"

definition plain_record :: "request \<Rightarrow> bool" where
  "plain_record r \<longleftrightarrow> json_wf (rq_id r) \<and> plain_payload (rq_identity r) \<and> plain_payload (rq_lifecycle r)
     \<and> plain_payload (rq_plan r) \<and> plain_work (rq_work r) \<and> plain_keyed json_wf (rq_context r)
     \<and> plain_keyed plain_payload (rq_verification r) \<and> plain_payload (rq_budget r)
     \<and> list_all plain_payload (rq_failure r) \<and> plain_payload (rq_meta r)"

definition key_fields :: "string list" where
  "key_fields = [''task_id'', ''exec_id'', ''step'', ''gate'']"

definition plain_event :: "payload \<Rightarrow> bool" where
  "plain_event event \<longleftrightarrow> plain_payload event
     \<and> (\<forall>p. fld event ''payload'' = PyDict p \<longrightarrow>
          list_all (\<lambda>k. dget p k = None \<or> is_str (fld p k)) key_fields)"

lemma json_wf_fld: "plain_payload d \<Longrightarrow> json_wf (fld d k)"
  by (auto simp: plain_payload_def fld_def list_all_iff split: option.splits dest!: map_of_SomeD)

lemma plain_payload_Nil [simp]: "plain_payload []"
  by (simp add: plain_payload_def)

lemma plain_payload_iff: "plain_payload d \<longleftrightarrow> distinct (map fst d) \<and> (\<forall>x \<in> set d. json_wf (snd x))"
  by (auto simp: plain_payload_def list_all_iff)

lemma plain_payload_dset:
  assumes "plain_payload d" and "json_wf v"
  shows "plain_payload (dset k v d)"
proof -
  have "\<forall>x \<in> set (dset k v d). json_wf (snd x)"
    using set_dset_subset [of k v d] assms by (auto simp: plain_payload_iff)
  moreover have "distinct (map fst (dset k v d))"
    using assms(1) by (simp add: plain_payload_iff distinct_update)
  ultimately show ?thesis by (simp add: plain_payload_iff)
qed

lemma plain_payload_get: "plain_payload d \<Longrightarrow> dget d k = Some v \<Longrightarrow> json_wf v"
  using json_wf_fld [of d k] by (simp add: fld_def)

lemma in_kset: "x \<in> set (kset k v d) \<Longrightarrow> snd x = v \<and> (fst x = k \<or> fst x \<in> fst ` set d) \<or> x \<in> set d"
proof (induction d)
  case (Cons y d)
  obtain a b where y: "y = (a, b)" by (cases y)
  from Cons show ?case by (cases "hkey a = hkey k") (auto simp: y)
qed simp

lemma hkey_str: "is_str k \<Longrightarrow> is_str k' \<Longrightarrow> hkey k = hkey k' \<longleftrightarrow> k = k'"
  by (cases k; cases k') (auto simp: hkey_def)

lemma keys_kset:
  "is_str k \<Longrightarrow> list_all (\<lambda>(k, v). is_str k) d \<Longrightarrow>
     map fst (kset k v d) = (if k \<in> set (map fst d) then map fst d else map fst d @ [k])"
  by (induction d) (auto simp del: set_map simp: hkey_str)

lemma plain_keyed_kset:
  assumes "plain_keyed ok d" and "is_str k" and "ok v"
  shows "plain_keyed ok (kset k v d)"
proof -
  have "list_all (\<lambda>(k, v). is_str k) d" using assms(1) by (auto simp: plain_keyed_def list_all_iff)
  then have "distinct (map fst (kset k v d))"
    using assms keys_kset [OF assms(2), of d v] by (auto simp: plain_keyed_def)
  moreover have "is_str (fst x) \<and> ok (snd x)" if "x \<in> set (kset k v d)" for x
    using in_kset [OF that] assms by (auto simp: plain_keyed_def list_all_iff)
  ultimately show ?thesis by (auto simp: plain_keyed_def list_all_iff)
qed

lemma plain_keyed_Nil [simp]: "plain_keyed ok []"
  by (simp add: plain_keyed_def)

lemma plain_keyed_kget: "plain_keyed ok d \<Longrightarrow> kget d k = Some v \<Longrightarrow> ok v"
proof (induction d)
  case (Cons x d)
  then show ?case by (cases x) (auto simp: plain_keyed_def split: if_splits)
qed simp

section \<open>The reducers keep records plain\<close>

lemma validate_payload:
  assumes "validate f event = Inr p" and "plain_event event" and "dget schemas f = Some ks"
  shows "plain_payload p" and "fld event ''payload'' = PyDict p"
    and "k \<in> set key_fields \<Longrightarrow> k \<in> set ks \<Longrightarrow> is_str (fld p k)"
proof -
  from assms(1,3) show p: "fld event ''payload'' = PyDict p"
    by (auto simp: validate_def Let_def split: option.splits pyval.splits if_splits)
  from assms(1,3) p have all: "\<forall>k \<in> set ks. dget p k \<noteq> None"
    by (auto simp: validate_def Let_def filter_empty_conv split: option.splits if_splits)
  show "plain_payload p"
    using assms(2) p json_wf_fld [of event "''payload''"] by (auto simp: plain_event_def plain_payload_def)
  show "k \<in> set key_fields \<Longrightarrow> k \<in> set ks \<Longrightarrow> is_str (fld p k)"
  proof -
    assume k: "k \<in> set key_fields" "k \<in> set ks"
    have "list_all (\<lambda>k. dget p k = None \<or> is_str (fld p k)) key_fields"
      using assms(2) p by (simp add: plain_event_def)
    with k all show "is_str (fld p k)" unfolding list_all_iff by blast
  qed
qed

lemma task_state_plain:
  assumes "task_state w t st = Inr w'" and "plain_work w" and "is_str t"
  shows "plain_work w'"
proof -
  have tasks: "plain_keyed plain_payload (or_empty (wk_tasks w))"
    using assms(2) by (cases "wk_tasks w") (auto simp: plain_work_def or_empty_def)
  then have "plain_payload (or_empty (kget (or_empty (wk_tasks w)) t))"
    by (cases "kget (or_empty (wk_tasks w)) t") (auto simp: or_empty_def dest: plain_keyed_kget)
  with tasks assms show ?thesis
    by (auto simp: task_state_def plain_work_def Let_def split: if_splits
        intro!: plain_keyed_kset plain_payload_dset)
qed

lemma foldl_dset_plain:
  "plain_payload d \<Longrightarrow> list_all (\<lambda>(k, v). json_wf v) new \<Longrightarrow> plain_payload (foldl (\<lambda>d (k, v). dset k v d) d new)"
  by (induction new arbitrary: d) (auto intro: plain_payload_dset)

lemma exec_state_plain:
  assumes "exec_state w t new = Inr w'" and "plain_work w" and "is_str t" and "list_all (\<lambda>(k, v). json_wf v) new"
  shows "plain_work w'"
proof -
  have execs: "plain_keyed plain_payload (or_empty (wk_execs w))"
    using assms(2) by (cases "wk_execs w") (auto simp: plain_work_def or_empty_def)
  then have "plain_payload (or_empty (kget (or_empty (wk_execs w)) t))"
    by (cases "kget (or_empty (wk_execs w)) t") (auto simp: or_empty_def dest: plain_keyed_kget)
  with execs assms show ?thesis
    by (auto simp: exec_state_def plain_work_def Let_def split: if_splits
        intro!: plain_keyed_kset foldl_dset_plain)
qed

lemma py_add_plain: "py_add v w = Some t \<Longrightarrow> json_wf v \<Longrightarrow> json_wf w \<Longrightarrow> json_wf t"
  by (cases v; cases w) auto

lemma add_budget_plain:
  assumes "add_budget b k x = Inr b'" and "plain_payload b" and "json_wf x"
  shows "plain_payload b'"
proof -
  from assms(1) obtain t where t: "py_add (get_or_zero b k) x = Some t" "b' = dset k t b"
    by (auto simp: add_budget_def split: option.splits)
  have "json_wf (get_or_zero b k)"
    using plain_payload_get [OF assms(2)] by (auto simp: get_or_zero_def split: option.splits)
  from py_add_plain [OF t(1) this assms(3)] assms(2) show ?thesis by (simp add: t(2) plain_payload_dset)
qed

lemma plain_failure:
  "plain_event event \<Longrightarrow> json_wf ref \<Longrightarrow> plain_payload (failure_entry f event ref r)"
  using json_wf_fld [of event "''event_id''"]
  by (simp add: failure_entry_def plain_payload_def plain_event_def)

lemma json_wf_is_str: "is_str v \<Longrightarrow> json_wf v"
  by (cases v) auto

lemma set_gate_plain:
  "set_gate r gate entry = Inr d \<Longrightarrow> plain_record r \<Longrightarrow> is_str gate \<Longrightarrow> plain_payload entry \<Longrightarrow> plain_keyed plain_payload d"
  by (auto simp: set_gate_def plain_record_def split: if_splits intro!: plain_keyed_kset)

definition keyed_by :: "string \<Rightarrow> string \<Rightarrow> bool" where
  "keyed_by f k \<longleftrightarrow> k \<in> set key_fields \<and> (case dget schemas f of None \<Rightarrow> False | Some ks \<Rightarrow> k \<in> set ks)"

lemma keyed_by_task [simp]:
  "keyed_by ''task.scheduled'' ''task_id''" "keyed_by ''task.started'' ''task_id''" "keyed_by ''task.preempted'' ''task_id''"
  "keyed_by ''task.completed'' ''task_id''" "keyed_by ''task.failed'' ''task_id''"
  by code_simp+

lemma keyed_by_exec [simp]:
  "keyed_by ''exec.started'' ''exec_id''" "keyed_by ''exec.completed'' ''exec_id''" "keyed_by ''exec.timeout'' ''exec_id''"
  "keyed_by ''exec.failed'' ''exec_id''"
  by code_simp+

lemma keyed_by_step_gate [simp]:
  "keyed_by ''context.assembled'' ''step''" "keyed_by ''verify.requested'' ''gate''" "keyed_by ''verify.passed'' ''gate''"
  "keyed_by ''verify.failed'' ''gate''"
  by code_simp+

lemma validated_schema: "validate f event = Inr p \<Longrightarrow> \<exists>ks. dget schemas f = Some ks"
  by (auto simp: validate_def Let_def split: option.splits if_splits)

lemma validated_plain:
  assumes "validate f event = Inr p" and "plain_event event"
  shows "plain_payload p" and "json_wf (fld p k)" and "keyed_by f k \<Longrightarrow> is_str (fld p k)"
proof -
  from validated_schema [OF assms(1)] obtain ks where ks: "dget schemas f = Some ks" by blast
  show p: "plain_payload p" by (rule validate_payload(1) [OF assms ks])
  then show "json_wf (fld p k)" by (rule json_wf_fld)
  show "keyed_by f k \<Longrightarrow> is_str (fld p k)"
    using validate_payload(3) [OF assms ks] ks by (simp add: keyed_by_def)
qed

lemma plain_record_blocks:
  assumes "plain_record r"
  shows "plain_payload (rq_plan r)" "plain_work (rq_work r)" "plain_payload (rq_budget r)"
    "plain_keyed json_wf (rq_context r)" "plain_keyed plain_payload (rq_verification r)"
  using assms by (simp_all add: plain_record_def)

lemma plain_record_updates:
  assumes "plain_record r"
  shows "plain_payload d \<Longrightarrow> plain_record (r\<lparr>rq_plan := d\<rparr>)"
    "plain_work w \<Longrightarrow> plain_record (r\<lparr>rq_work := w\<rparr>)"
    "plain_payload d \<Longrightarrow> plain_record (r\<lparr>rq_budget := d\<rparr>)"
    "plain_payload d \<Longrightarrow> plain_record (r\<lparr>rq_lifecycle := d\<rparr>)"
    "plain_keyed json_wf c \<Longrightarrow> plain_record (r\<lparr>rq_context := c\<rparr>)"
    "plain_keyed plain_payload v \<Longrightarrow> plain_record (r\<lparr>rq_verification := v\<rparr>)"
    "plain_payload d \<Longrightarrow> plain_record (add_failure d r)"
    "plain_record (r\<lparr>rq_version := n\<rparr>)"
  using assms by (simp_all add: plain_record_def add_failure_def)

lemma plain_work_commit: "plain_work w \<Longrightarrow> json_wf v \<Longrightarrow> plain_work (w\<lparr>wk_commit := Some v\<rparr>)"
  by (simp add: plain_work_def)

lemma plain_states [simp]: "plain_payload [(a, PyStr b)]"
  by (simp add: plain_payload_def)

lemma plain_states2: "a \<noteq> c \<Longrightarrow> json_wf v \<Longrightarrow> plain_payload [(a, PyStr b), (c, v)]"
  by (simp add: plain_payload_def)

lemma validated_case:
  assumes "(case validate f event of Inl e \<Rightarrow> Inl e | Inr p \<Rightarrow> F p) = Inr r'" and "plain_event event"
    and "\<And>p. \<lbrakk>plain_payload p; \<And>k. json_wf (fld p k); \<And>k. keyed_by f k \<Longrightarrow> is_str (fld p k); F p = Inr r'\<rbrakk> \<Longrightarrow> Q"
  shows Q
proof (cases "validate f event")
  case (Inr p)
  show ?thesis by (rule assms(3) [of p]) (use assms(1,2) Inr validated_plain [OF Inr] in auto)
qed (use assms(1) in simp)

lemma task_case:
  assumes "(case task_state (rq_work r) t st of Inl e \<Rightarrow> Inl e | Inr w \<Rightarrow> F w) = Inr r'"
    and "plain_record r" and "is_str t" and "\<And>w. \<lbrakk>plain_work w; F w = Inr r'\<rbrakk> \<Longrightarrow> Q"
  shows Q
proof (cases "task_state (rq_work r) t st")
  case (Inr w)
  show ?thesis
    by (rule assms(4) [of w]) (use assms(1) Inr task_state_plain [OF Inr plain_record_blocks(2) [OF assms(2)] assms(3)] in auto)
qed (use assms(1) in simp)

lemma exec_case:
  assumes "(case exec_state (rq_work r) t new of Inl e \<Rightarrow> Inl e | Inr w \<Rightarrow> F w) = Inr r'"
    and "plain_record r" and "is_str t" and "list_all (\<lambda>(k, v). json_wf v) new"
    and "\<And>w. \<lbrakk>plain_work w; F w = Inr r'\<rbrakk> \<Longrightarrow> Q"
  shows Q
proof (cases "exec_state (rq_work r) t new")
  case (Inr w)
  show ?thesis
    by (rule assms(5) [of w])
      (use assms(1) Inr exec_state_plain [OF Inr plain_record_blocks(2) [OF assms(2)] assms(3,4)] in auto)
qed (use assms(1) in simp)

lemma budget_case:
  assumes "(case add_budget (rq_budget r) k x of Inl e \<Rightarrow> Inl e | Inr b \<Rightarrow> F b) = Inr r'"
    and "plain_record r" and "json_wf x" and "\<And>b. \<lbrakk>plain_payload b; F b = Inr r'\<rbrakk> \<Longrightarrow> Q"
  shows Q
proof (cases "add_budget (rq_budget r) k x")
  case (Inr b)
  show ?thesis
    by (rule assms(4) [of b])
      (use assms(1) Inr add_budget_plain [OF Inr plain_record_blocks(3) [OF assms(2)] assms(3)] in auto)
qed (use assms(1) in simp)

lemma gate_case:
  assumes "(case set_gate r g entry of Inl e \<Rightarrow> Inl e | Inr d \<Rightarrow> F d) = Inr r'"
    and "plain_record r" and "is_str g" and "plain_payload entry"
    and "\<And>d. \<lbrakk>plain_keyed plain_payload d; F d = Inr r'\<rbrakk> \<Longrightarrow> Q"
  shows Q
proof (cases "set_gate r g entry")
  case (Inr d)
  show ?thesis
    by (rule assms(5) [of d]) (use assms(1) Inr set_gate_plain [OF Inr assms(2-4)] in auto)
qed (use assms(1) in simp)

lemmas plain_simps =
  plain_record_updates plain_record_blocks plain_payload_dset plain_failure
  plain_keyed_kset plain_work_commit plain_states2 json_wf_is_str

lemmas plain_cases = validated_case task_case exec_case budget_case gate_case

lemma reducer_plain_plan:
  assumes "plain_record r" and "plain_event event"
  shows "reduce_intent_classified r event = Inr r' \<Longrightarrow> plain_record r'"
    "reduce_plan_created r event = Inr r' \<Longrightarrow> plain_record r'"
    "reduce_plan_revised r event = Inr r' \<Longrightarrow> plain_record r'"
    "reduce_plan_validated r event = Inr r' \<Longrightarrow> plain_record r'"
    "reduce_plan_rejected r event = Inr r' \<Longrightarrow> plain_record r'"
  using assms
  unfolding reduce_intent_classified_def
    reduce_plan_created_def
    reduce_plan_revised_def
    reduce_plan_validated_def
    reduce_plan_rejected_def
  by (elim plain_cases; auto simp: evolve_def plain_simps split: if_splits)+

lemma reducer_plain_task:
  assumes "plain_record r" and "plain_event event"
  shows "reduce_task_scheduled r event = Inr r' \<Longrightarrow> plain_record r'"
    "reduce_task_started r event = Inr r' \<Longrightarrow> plain_record r'"
    "reduce_task_preempted r event = Inr r' \<Longrightarrow> plain_record r'"
    "reduce_task_completed r event = Inr r' \<Longrightarrow> plain_record r'"
    "reduce_task_failed r event = Inr r' \<Longrightarrow> plain_record r'"
  using assms
  unfolding reduce_task_scheduled_def
    reduce_task_started_def
    reduce_task_preempted_def
    reduce_task_completed_def
    reduce_task_failed_def
  by (elim plain_cases; auto simp: evolve_def plain_simps split: if_splits)+

lemma reducer_plain_exec:
  assumes "plain_record r" and "plain_event event"
  shows "reduce_exec_started r event = Inr r' \<Longrightarrow> plain_record r'"
    "reduce_exec_completed r event = Inr r' \<Longrightarrow> plain_record r'"
    "reduce_exec_timeout r event = Inr r' \<Longrightarrow> plain_record r'"
    "reduce_exec_failed r event = Inr r' \<Longrightarrow> plain_record r'"
  using assms
  unfolding reduce_exec_started_def
    reduce_exec_completed_def
    reduce_exec_timeout_def
    reduce_exec_failed_def
  by (elim plain_cases; auto simp: evolve_def plain_simps split: if_splits)+

lemma reducer_plain_keyed:
  assumes "plain_record r" and "plain_event event"
  shows "reduce_context_assembled r event = Inr r' \<Longrightarrow> plain_record r'"
    "reduce_verify_requested r event = Inr r' \<Longrightarrow> plain_record r'"
    "reduce_verify_passed r event = Inr r' \<Longrightarrow> plain_record r'"
    "reduce_verify_failed r event = Inr r' \<Longrightarrow> plain_record r'"
  using assms
  unfolding reduce_context_assembled_def
    reduce_verify_requested_def
    reduce_verify_passed_def
    reduce_verify_failed_def
  by (elim plain_cases; auto simp: evolve_def plain_simps split: if_splits)+

lemma reducer_plain_store:
  assumes "plain_record r" and "plain_event event"
  shows "reduce_storage_committed r event = Inr r' \<Longrightarrow> plain_record r'"
    "reduce_storage_rejected r event = Inr r' \<Longrightarrow> plain_record r'"
    "reduce_cost_recorded r event = Inr r' \<Longrightarrow> plain_record r'"
    "reduce_fault_recorded r event = Inr r' \<Longrightarrow> plain_record r'"
  using assms
  unfolding reduce_storage_committed_def
    reduce_storage_rejected_def
    reduce_cost_recorded_def
    reduce_fault_recorded_def
  by (elim plain_cases; auto simp: evolve_def plain_simps split: if_splits)+

lemma reducer_plain_life:
  assumes "plain_record r" and "plain_event event"
  shows "reduce_request_completed r event = Inr r' \<Longrightarrow> plain_record r'"
    "reduce_request_rejected r event = Inr r' \<Longrightarrow> plain_record r'"
    "reduce_request_cancelled r event = Inr r' \<Longrightarrow> plain_record r'"
    "reduce_request_failed r event = Inr r' \<Longrightarrow> plain_record r'"
  using assms
  unfolding reduce_request_completed_def
    reduce_request_rejected_def
    reduce_request_cancelled_def
    reduce_request_failed_def
  by (elim plain_cases; auto simp: evolve_def plain_simps split: if_splits)+

lemmas reducer_plain_all =
  reducer_plain_plan reducer_plain_task reducer_plain_exec reducer_plain_keyed reducer_plain_store reducer_plain_life

lemma reducer_plain:
  assumes "dget reducer_registry f = Some red" and "red r event = Inr r'" and "plain_record r" and "plain_event event"
  shows "plain_record r'"
proof -
  from assms(1) have "(f, red) \<in> set reducer_registry" by (rule map_of_SomeD)
  with assms(2-4) show ?thesis
    unfolding reducer_registry_def
    by (simp only: set_simps insert_iff empty_iff prod.inject)
      (elim disjE conjE FalseE; hypsubst; erule reducer_plain_all [OF assms(3,4)])
qed

lemma birth_plain:
  assumes "birth_reducer event = Inr fs" and "plain_event event" and "json_wf rid"
  shows "plain_record (birth_record rid fs)"
proof -
  from assms(1) obtain p where "validate birth_family event = Inr p"
      and fs: "fs = [(''declared_type'', fld p ''declared_type''), (''origin'', fld p ''origin'')]"
    by (auto simp: birth_reducer_def split: sum.splits)
  from validated_plain(2) [OF this(1) assms(2)] assms(3) show ?thesis
    by (simp add: birth_record_def plain_record_def plain_payload_def plain_work_def no_work_def fs)
qed

section \<open>Documents read back\<close>

lemma opt_all_map_Some: "(\<And>x. x \<in> set xs \<Longrightarrow> f x = Some (g x)) \<Longrightarrow> opt_all (map f xs) = Some (map g xs)"
  by (induction xs) auto

lemma key_text_str: "is_str k \<Longrightarrow> PyStr (key_text k) = k"
  by (cases k) auto

lemma keyed_read_doc:
  assumes "plain_keyed ok d" and "\<And>v. ok v \<Longrightarrow> g (f v) = Some v"
  shows "keyed_read g (keyed_doc f d) = Some d"
proof -
  have "opt_all (map (\<lambda>(k, x). map_option (Pair (PyStr k)) (g x)) (map (\<lambda>(k, v). (key_text k, f v)) d)) = Some (map id d)"
    unfolding map_map
    by (rule opt_all_map_Some) (use assms in \<open>auto simp: plain_keyed_def list_all_iff key_text_str\<close>)
  then show ?thesis by (simp add: keyed_read_def keyed_doc_def)
qed

lemma keyed_doc_wf:
  assumes "plain_keyed ok d" and "\<And>v. ok v \<Longrightarrow> json_wf (f v)"
  shows "json_wf (keyed_doc f d)"
proof -
  have str: "is_str (fst x)" if "x \<in> set d" for x
    using assms(1) that by (auto simp: plain_keyed_def list_all_iff)
  have "inj_on key_text (fst ` set d)"
  proof (rule inj_onI)
    fix k k' assume "k \<in> fst ` set d" "k' \<in> fst ` set d" and eq: "key_text k = key_text k'"
    then have "is_str k" "is_str k'" using str by auto
    with eq key_text_str show "k = k'" by metis
  qed
  then have "distinct (map key_text (map fst d))"
    using assms(1) unfolding map_map by (auto simp: plain_keyed_def distinct_map intro: comp_inj_on)
  then show ?thesis
    using assms by (auto simp: keyed_doc_def list_all_iff plain_keyed_def comp_def case_prod_beta')
qed

lemma opt_read_entry:
  "dget (opt_entry k f x) k' = (if k' = k then map_option f x else None)"
  by (simp add: opt_entry_def split: option.splits)

lemma keyed_payload_read: "plain_keyed plain_payload d \<Longrightarrow> keyed_read as_dict (keyed_doc PyDict d) = Some d"
  by (rule keyed_read_doc) simp_all

lemma work_read_doc: "plain_work w \<Longrightarrow> work_read (work_doc w) = Some w"
  using keyed_payload_read
  by (cases "wk_tasks w"; cases "wk_execs w"; cases "wk_commit w")
    (auto simp: work_read_def work_doc_def opt_read_def plain_work_def opt_entry_def)

lemma json_wf_dict: "json_wf (PyDict d) \<longleftrightarrow> plain_payload d"
  by (simp add: plain_payload_def)

lemma keyed_payload_wf: "plain_keyed plain_payload d \<Longrightarrow> json_wf (keyed_doc PyDict d)"
  by (rule keyed_doc_wf [where ok = plain_payload]) (simp_all add: plain_payload_def)

lemma work_doc_wf: "plain_work w \<Longrightarrow> json_wf (work_doc w)"
  using keyed_payload_wf
  by (cases "wk_tasks w"; cases "wk_execs w"; cases "wk_commit w") (auto simp: work_doc_def plain_work_def opt_entry_def)

lemma dict_to_record_to_dict:
  assumes "plain_record r"
  shows "dict_to_record (record_to_dict r) = Some r"
proof -
  have "keyed_read Some (keyed_doc (\<lambda>v. v) (rq_context r)) = Some (rq_context r)"
    and "keyed_read as_dict (keyed_doc PyDict (rq_verification r)) = Some (rq_verification r)"
    using assms by (auto simp: plain_record_def intro!: keyed_read_doc)
  moreover have "opt_all (map as_dict (map PyDict (rq_failure r))) = Some (map id (rq_failure r))"
    unfolding map_map by (rule opt_all_map_Some) simp
  moreover have "work_read (work_doc (rq_work r)) = Some (rq_work r)"
    using assms by (simp add: plain_record_def work_read_doc)
  ultimately show ?thesis by (simp add: dict_to_record_def record_to_dict_def version_read_def comp_def)
qed

lemma record_to_dict_wf: "plain_record r \<Longrightarrow> json_wf (record_to_dict r)"
  using keyed_doc_wf [of json_wf "rq_context r" "\<lambda>v. v"] keyed_doc_wf [of plain_payload "rq_verification r" PyDict]
    work_doc_wf [of "rq_work r"]
  by (auto simp: record_to_dict_def plain_record_def plain_payload_def list_all_iff)

end
