(* ===== verification/RsmCheckpoint.thy ===== *)
theory RsmCheckpoint
  imports RsmPlain StoragePort
begin

text \<open>
  Checkpoints: a run on plain events keeps its records and journals plain, what a checkpoint
  wrote through a storage port reads back, and the store and journal seeded from it show the
  request as the live run did at the time.
\<close>

section \<open>Plain runs\<close>

definition plain_op :: "rsm_op \<Rightarrow> bool" where
  "plain_op a \<longleftrightarrow> (case a of Ingested now event \<Rightarrow> plain_event event | _ \<Rightarrow> True)"

definition plain_ingest :: "'b ingest \<Rightarrow> bool" where
  "plain_ingest g \<longleftrightarrow> (\<forall>rid. pred_option plain_record (store_get (ig_store g) rid)
     \<and> list_all (json_wf \<circ> fst) (applied_entries (ig_journal g) rid))"

lemma plain_ingestD:
  assumes "plain_ingest g"
  shows "store_get (ig_store g) rid = Some r \<Longrightarrow> plain_record r"
    and "list_all (json_wf \<circ> fst) (applied_entries (ig_journal g) rid)"
proof -
  have "pred_option plain_record (store_get (ig_store g) rid)
     \<and> list_all (json_wf \<circ> fst) (applied_entries (ig_journal g) rid)"
    using assms by (simp add: plain_ingest_def)
  then show "store_get (ig_store g) rid = Some r \<Longrightarrow> plain_record r"
    and "list_all (json_wf \<circ> fst) (applied_entries (ig_journal g) rid)" by simp_all
qed

lemma plain_ingestI:
  assumes "\<And>rid r. store_get (ig_store g) rid = Some r \<Longrightarrow> plain_record r"
    and "\<And>rid. list_all (json_wf \<circ> fst) (applied_entries (ig_journal g) rid)"
  shows "plain_ingest g"
  using assms by (simp add: plain_ingest_def pred_option_def)

lemma apply_event_plain:
  assumes a: "ingest_apply s act event = Inr s'" and inv: "store_inv s" and ev: "plain_event event"
    and plain: "\<And>x r. store_get s x = Some r \<Longrightarrow> plain_record r" and r: "store_get s' x = Some r"
  shows "plain_record r"
proof -
  have rid: "json_wf (event_rid event)"
    using ev json_wf_fld [of event "''request_id''"] by (simp add: plain_event_def event_rid_def)
  show ?thesis
    using a
  proof (cases rule: apply_event_cases)
    case (born fs)
    from store_create_effect(3) [OF born(4) inv, of x] r birth_plain [OF born(2) ev rid] plain
    show ?thesis by (auto split: if_splits)
  next
    case (changed f red q q')
    have "plain_record q'" using reducer_plain [OF changed(3,5) plain [OF changed(4)] ev] .
    moreover have "store_get s' x = (if hkey x = hkey (event_rid event) then Some q' else store_get s x)"
      using changed(6) store_terminal_effect(3) [OF _ inv] store_apply_effect(3) [OF _ inv]
      by (auto split: if_splits)
    ultimately show ?thesis using r plain by (auto split: if_splits)
  qed
qed

lemma journal_append_entries:
  "applied_append j rid eid v = (j', res) \<Longrightarrow> \<exists>news. set news \<subseteq> {eid}
     \<and> map fst (applied_entries j' x) = map fst (applied_entries j x) @ news"
  by (auto simp: applied_append_def applied_entries_def or_empty_def Let_def dict_simps kget_cong [of x rid]
      split: if_splits intro: exI [of _ "[]"] exI [of _ "[eid]"])

lemma process_plain:
  assumes p: "process pub now g event = (g', res)" and inv: "store_inv (ig_store g)"
    and ev: "plain_event event" and plain: "plain_ingest g"
  shows "plain_ingest g'"
proof -
  have eid: "json_wf (event_eid event)"
    using ev json_wf_fld [of event "''event_id''"] by (simp add: plain_event_def event_eid_def)
  have grow: "plain_ingest g'" if a: "ingest_apply (ig_store g) act event = Inr (ig_store g')"
    and j: "applied_append (ig_journal g) (event_rid event) (event_eid event) 1 = (ig_journal g', out)" for act out
  proof (rule plain_ingestI)
    fix rid r assume "store_get (ig_store g') rid = Some r"
    with apply_event_plain [OF a inv ev _ this] plain_ingestD(1) [OF plain] show "plain_record r" by blast
  next
    fix rid
    from journal_append_entries [OF j, of rid] obtain news where "set news \<subseteq> {event_eid event}"
      "map fst (applied_entries (ig_journal g') rid) = map fst (applied_entries (ig_journal g) rid) @ news" by blast
    then have "list_all json_wf (map fst (applied_entries (ig_journal g') rid))"
      using plain_ingestD(2) [OF plain, of rid] eid by (auto simp: list_all_iff)
    then show "list_all (json_wf \<circ> fst) (applied_entries (ig_journal g') rid)"
      by (simp add: list.pred_map)
  qed
  from p show ?thesis
  proof (cases rule: process_cases)
    case idle
    then show ?thesis using plain by (simp add: plain_ingest_def)
  next
    case (applied s j n)
    then show ?thesis using grow by blast
  next
    case (torn s j e)
    then show ?thesis using grow by blast
  qed
qed

lemma rsm_do_plain:
  assumes "plain_op a" and "store_inv (ig_store g)" and "plain_ingest g"
  shows "plain_ingest (rsm_do pub g a)"
proof (cases a)
  case (Ingested now event)
  obtain g' res where "process pub now g event = (g', res)" by (cases "process pub now g event")
  with process_plain [OF this assms(2) _ assms(3)] assms(1) Ingested show ?thesis
    by (simp add: rsm_do_def plain_op_def)
next
  case (Persisting rid now)
  then show ?thesis
    using assms(3) mark_persisted_effect(3) [OF _ assms(2)]
    by (auto simp: rsm_do_def plain_ingest_def split: sum.splits)
next
  case (Evicting rid now now' window)
  obtain s b where e: "evict_gate (ig_store g) rid now window = (s, b)"
    by (cases "evict_gate (ig_store g) rid now window")
  then have do: "ig_store (rsm_do pub g a) = s" "ig_journal (rsm_do pub g a) = ig_journal g"
    by (auto simp: Evicting rsm_do_def evict_and_notify_def split: option.splits prod.splits bool.splits sum.splits)
  have "store_get s x = Some r \<Longrightarrow> store_get (ig_store g) x = Some r" for x r
    using e mark_evicted_effect(3) [OF assms(2), of rid x]
    by (auto simp: evict_gate_def Let_def split: if_splits)
  then show ?thesis
    using assms(3) do by (auto intro!: plain_ingestI dest: plain_ingestD)
qed

lemma rsm_run_plain:
  assumes "\<forall>a \<in> set as. plain_op a" and "store_inv (ig_store g)" and "plain_ingest g"
  shows "plain_ingest (rsm_run pub g as)"
  using assms
proof (induction "as" arbitrary: g)
  case Nil
  then show ?case by simp
next
  case (Cons a "as")
  from Cons.prems have "plain_ingest (rsm_do pub g a)" by (simp add: rsm_do_plain)
  with Cons.IH rsm_do_life [OF Cons.prems(2)] Cons.prems(1) show ?case by simp
qed

lemma plain_ingest_new: "plain_ingest (new_ingest empty_rsm_store empty_journal t)"
  by (rule plain_ingestI)
    (simp_all add: new_ingest_def empty_rsm_store_def empty_journal_def store_get_def applied_entries_def or_empty_def)

section \<open>A written checkpoint reads back\<close>

definition checkpoint_doc :: "pyval \<Rightarrow> journal_entry list \<Rightarrow> int \<Rightarrow> request \<Rightarrow> pyval" where
  "checkpoint_doc rid es seq r =
     PyDict [(''format_version'', PyInt 1), (''request_id'', rid), (''seq'', PyInt seq),
       (''journal_prefix'', PyList (map entry_doc es)), (''record'', record_to_dict r)]"

lemma entry_doc_wf: "json_wf (fst e) \<Longrightarrow> json_wf (entry_doc e)"
  by (cases e) (simp add: entry_doc_def)

lemma checkpoint_doc_wf:
  "json_wf rid \<Longrightarrow> list_all (json_wf \<circ> fst) es \<Longrightarrow> plain_record r \<Longrightarrow> json_wf (checkpoint_doc rid es seq r)"
  by (auto simp: checkpoint_doc_def list_all_iff record_to_dict_wf intro!: entry_doc_wf)

lemma checkpoint_doc_fields:
  assumes "plain_record r"
  shows "record_from_checkpoint (checkpoint_doc rid es seq r) = Inr r"
    and "entries_field (checkpoint_doc rid es seq r) ''journal_prefix'' = Inr es"
proof -
  show "record_from_checkpoint (checkpoint_doc rid es seq r) = Inr r"
    using dict_to_record_to_dict [OF assms]
    by (simp add: record_from_checkpoint_def doc_field_def checkpoint_doc_def)
  have "opt_all (map entry_read (map entry_doc es)) = Some (map id es)"
    unfolding map_map by (rule opt_all_map_Some) (auto simp: entry_doc_def entry_read_def split: prod.splits)
  then show "entries_field (checkpoint_doc rid es seq r) ''journal_prefix'' = Inr es"
    by (simp add: entries_field_def doc_field_def checkpoint_doc_def)
qed

context blobs begin

lemma write_doc_reads:
  assumes "good s" and "plain k" and "json_wf doc" and "write_doc P s (Inr k) doc = (s', Inr d)"
  shows "good s'" and "read_doc P s' (Inr k) = Inr doc"
    and "plain k' \<Longrightarrow> k' \<noteq> k \<Longrightarrow> blob_at P s' k' = blob_at P s k'"
proof -
  from assms(4) obtain x where w: "bp_write P s k (json_text doc) = (s', Inr x)"
    by (auto simp: write_doc_def split: prod.splits sum.splits)
  show "good s'" by (rule write_good [OF assms(1,2) w])
  have "bp_read P s' k = Inr (json_text doc)"
    using write_ok [OF assms(1,2) w assms(2)] by (simp add: read_blob_at)
  then show "read_doc P s' (Inr k) = Inr doc"
    using json_read_text [OF assms(3)] by (simp add: read_doc_def)
  show "plain k' \<Longrightarrow> k' \<noteq> k \<Longrightarrow> blob_at P s' k' = blob_at P s k'"
    using write_ok [OF assms(1,2) w] by simp
qed

lemma read_doc_cong: "blob_at P s k = blob_at P s' k \<Longrightarrow> read_doc P s (Inr k) = Inr doc \<Longrightarrow> read_doc P s' (Inr k) = Inr doc"
proof -
  assume eq: "blob_at P s k = blob_at P s' k" and r: "read_doc P s (Inr k) = Inr doc"
  from r obtain t where t: "bp_read P s k = Inr t" "json_read t = Some doc"
    by (auto simp: read_doc_def split: sum.splits option.splits)
  then have "bp_read P s' k = Inr t" using eq read_blob_at by metis
  with t(2) show "read_doc P s' (Inr k) = Inr doc" by (simp add: read_doc_def)
qed

lemma checkpoint_reads_back:
  assumes good: "good s" and w: "write_checkpoint P s j st rid = (s', Inr doc)"
    and rid: "rid = PyStr name" and r: "store_get st rid = Some r" and pr: "plain_record r"
    and es: "list_all (json_wf \<circ> fst) (applied_entries j rid)"
    and keys: "\<And>seq. plain (rsm_checkpoint_key rid seq)" "\<And>k. checkpoint_index_key rid = Inr k \<Longrightarrow> plain k"
  shows "\<exists>seq. read_checkpoint P s' rid None = Inr (checkpoint_doc rid (applied_entries j rid) seq r)"
proof -
  define es where "es = applied_entries j rid"
  define seq where "seq = (if es = [] then -1 else int (fst (snd (last es))))"
  define ik where "ik = ''rsm/checkpoint_index/'' @ name"
  have ik: "checkpoint_index_key rid = Inr ik" by (simp add: checkpoint_index_key_def rsm_key_def rid ik_def)
  obtain s1 d1 where w1: "write_doc P s (Inr (rsm_checkpoint_key rid seq)) (checkpoint_doc rid es seq r) = (s1, Inr d1)"
    and w2: "\<exists>d2. write_doc P s1 (Inr ik) (PyDict [(''latest_seq'', PyInt seq)]) = (s', Inr d2)"
    using w r unfolding write_checkpoint_def Let_def es_def [symmetric] seq_def [symmetric] checkpoint_doc_def [symmetric] ik
    by (auto split: prod.splits sum.splits)
  from w2 obtain d2 where w2: "write_doc P s1 (Inr ik) (PyDict [(''latest_seq'', PyInt seq)]) = (s', Inr d2)" by blast
  have wf: "json_wf (checkpoint_doc rid es seq r)"
    using checkpoint_doc_wf pr assms(6) by (simp add: es_def rid)
  note r1 = write_doc_reads [OF good keys(1) wf w1]
  note r2 = write_doc_reads [OF r1(1) keys(2) [OF ik] _ w2]
  have idx: "read_doc P s' (Inr ik) = Inr (PyDict [(''latest_seq'', PyInt seq)])" using r2(2) by simp
  have "rsm_checkpoint_key rid seq \<noteq> ik" by (simp add: rsm_checkpoint_key_def ik_def)
  then have "blob_at P s' (rsm_checkpoint_key rid seq) = blob_at P s1 (rsm_checkpoint_key rid seq)"
    using r2(3) keys(1) by simp
  then have "read_doc P s' (Inr (rsm_checkpoint_key rid seq)) = Inr (checkpoint_doc rid es seq r)"
    using read_doc_cong r1(2) by metis
  with idx show ?thesis
    by (intro exI [of _ seq]) (simp add: read_checkpoint_def ik doc_field_def es_def)
qed

end

section \<open>The journal's invariant\<close>

definition slot_journaled :: "rsm_journal \<Rightarrow> pyval \<Rightarrow> bool" where
  "slot_journaled j rid \<longleftrightarrow>
     (case kget (jr_entries j) rid of
        None \<Rightarrow> kget (jr_ids j) rid = None
      | Some es \<Rightarrow> es \<noteq> [] \<and> kget (jr_ids j) rid = Some (rev (map (hkey \<circ> fst) es))
          \<and> distinct (map (hkey \<circ> fst) es) \<and> list_all (hashable \<circ> fst) es
          \<and> map (fst \<circ> snd) es = [0..<length es])"

definition journal_inv :: "rsm_journal \<Rightarrow> bool" where
  "journal_inv j \<longleftrightarrow> (\<forall>rid. slot_journaled j rid)"

lemma journal_inv_empty: "journal_inv empty_journal"
  by (simp add: journal_inv_def slot_journaled_def empty_journal_def)

lemma journal_append_inv:
  assumes "journal_has j rid eid = Inr False" and "applied_append j rid eid v = (j', Inr n)" and "journal_inv j"
  shows "journal_inv j'"
  unfolding journal_inv_def
proof
  fix x
  note ok = journal_append_ok [OF assms(1,2)]
  show "slot_journaled j' x"
  proof (cases "hkey x = hkey rid")
    case False
    then have "kget (jr_ids j') x = kget (jr_ids j) x" "kget (jr_entries j') x = kget (jr_entries j) x"
      using ok(4,5) [of x] by simp_all
    moreover have "slot_journaled j x" using assms(3) by (simp add: journal_inv_def)
    ultimately show ?thesis unfolding slot_journaled_def by presburger
  next
    case True
    have slot: "slot_journaled j rid" using assms(3) by (simp add: journal_inv_def)
    have fresh: "hkey eid \<notin> set (or_empty (kget (jr_ids j) rid))"
      using assms(1) ok(1) by (auto simp: journal_has_def or_empty_def split: option.splits if_splits)
    show ?thesis
      using ok(1,3) ok(4,5) [of x] True slot fresh
      by (cases "kget (jr_entries j) rid") (auto simp: slot_journaled_def applied_entries_def or_empty_def)
  qed
qed

definition hashable_op :: "rsm_op \<Rightarrow> bool" where
  "hashable_op a \<longleftrightarrow> (case a of Ingested now event \<Rightarrow> hashable (event_eid event) | _ \<Rightarrow> True)"

lemma rsm_do_journal:
  assumes "hashable_op a" and "journal_inv (ig_journal g)"
  shows "journal_inv (ig_journal (rsm_do pub g a))"
proof (cases a)
  case (Ingested now event)
  obtain g' res where p: "process pub now g event = (g', res)" by (cases "process pub now g event")
  then have do: "rsm_do pub g a = g'" by (simp add: Ingested rsm_do_def)
  have eid: "hashable (event_eid event)" using assms(1) by (simp add: hashable_op_def Ingested)
  from p show ?thesis
  proof (cases rule: process_cases)
    case idle
    then show ?thesis using assms(2) do by simp
  next
    case (applied s j n)
    from journal_append_inv [OF applied(5,8) assms(2)] applied(10) do show ?thesis by simp
  next
    case (torn s j e)
    with journal_append_total [OF torn(1) eid, of 1] show ?thesis by auto
  qed
qed (use assms(2) in \<open>auto simp: rsm_do_def evict_and_notify_def split: sum.splits option.splits prod.splits bool.splits\<close>)

lemma rsm_run_journal:
  "\<forall>a \<in> set as. hashable_op a \<Longrightarrow> journal_inv (ig_journal g) \<Longrightarrow> journal_inv (ig_journal (rsm_run pub g as))"
  by (induction "as" arbitrary: g) (auto intro: rsm_do_journal)

lemma journal_inv_has:
  assumes "journal_inv j" and "hashable rid" and "hashable eid"
  shows "journal_has j rid eid = Inr (hkey eid \<in> (hkey \<circ> fst) ` set (applied_entries j rid))"
proof -
  have "slot_journaled j rid" using assms(1) by (simp add: journal_inv_def)
  with assms(2,3) show ?thesis
    by (auto simp: slot_journaled_def journal_has_def applied_entries_def or_empty_def split: option.splits)
qed

section \<open>Seeding from a checkpoint\<close>

lemma reappend_snoc:
  assumes "foldm (reappend rid) empty_journal es = Inr j" and "journal_has j rid (fst e) = Inr False" and "hashable (fst e)"
    and "fst (snd e) = length (applied_entries j rid)"
  shows "\<exists>j'. foldm (reappend rid) empty_journal (es @ [e]) = Inr j' \<and> applied_append j rid (fst e) (snd (snd e)) = (j', Inr (fst (snd e)))"
proof -
  obtain j' where j': "applied_append j rid (fst e) (snd (snd e)) = (j', Inr (length (applied_entries j rid)))"
    using journal_append_total [OF assms(2,3)] by blast
  then show ?thesis using assms(1,4) by (cases e) (auto simp: foldm_append reappend_def)
qed

lemma reappend_all:
  assumes "hashable rid" and "distinct (map (hkey \<circ> fst) es)" and "list_all (hashable \<circ> fst) es"
    and "map (fst \<circ> snd) es = [0..<length es]"
  shows "\<exists>j. foldm (reappend rid) empty_journal es = Inr j \<and> applied_entries j rid = es \<and> journal_inv j"
  using assms(2-4)
proof (induction es rule: rev_induct)
  case Nil
  then show ?case
    by (intro exI [of _ empty_journal]) (simp add: journal_inv_empty, simp add: applied_entries_def empty_journal_def or_empty_def)
next
  case (snoc e es)
  then obtain j where j: "foldm (reappend rid) empty_journal es = Inr j" "applied_entries j rid = es" "journal_inv j"
    by auto
  have he: "hashable (fst e)" using snoc.prems(2) by simp
  have has: "journal_has j rid (fst e) = Inr False"
    using journal_inv_has [OF j(3) assms(1) he] snoc.prems(1) j(2) by auto
  have "fst (snd e) = length (applied_entries j rid)" using snoc.prems(3) j(2) by simp
  from reappend_snoc [OF j(1) has he this] obtain j' where
    "foldm (reappend rid) empty_journal (es @ [e]) = Inr j'"
    and a: "applied_append j rid (fst e) (snd (snd e)) = (j', Inr (fst (snd e)))" by blast
  moreover have "applied_entries j' rid = es @ [e]"
    using journal_append_ok(2) [OF has a, of rid] j(2) by (cases e) simp
  moreover have "journal_inv j'" by (rule journal_append_inv [OF has a j(3)])
  ultimately show ?case by blast
qed

lemma journal_inv_slots:
  assumes "journal_inv i" and "journal_inv j" and "applied_entries i rid = applied_entries j rid"
  shows "kget (jr_entries i) rid = kget (jr_entries j) rid" and "kget (jr_ids i) rid = kget (jr_ids j) rid"
proof -
  have "slot_journaled i rid" "slot_journaled j rid" using assms(1,2) by (simp_all add: journal_inv_def)
  with assms(3) show "kget (jr_entries i) rid = kget (jr_entries j) rid" "kget (jr_ids i) rid = kget (jr_ids j) rid"
    by (auto simp: slot_journaled_def applied_entries_def or_empty_def split: option.splits)
qed

lemma seeded_view:
  assumes active: "state_of (ig_store g) rid = Active" and r: "store_get (ig_store g) rid = Some r"
    and j: "journal_inv (ig_journal g)" and rid: "hashable rid"
  shows "\<exists>st i. store_seed empty_rsm_store rid r = Inr st
    \<and> foldm (reappend rid) empty_journal (applied_entries (ig_journal g) rid) = Inr i
    \<and> same_request rid g (new_ingest st i None) \<and> quiet (new_ingest st i None)
    \<and> applied_entries i rid = applied_entries (ig_journal g) rid"
proof -
  let ?es = "applied_entries (ig_journal g) rid"
  have slot: "slot_journaled (ig_journal g) rid" using j by (simp add: journal_inv_def)
  then have "distinct (map (hkey \<circ> fst) ?es)" "list_all (hashable \<circ> fst) ?es" "map (fst \<circ> snd) ?es = [0..<length ?es]"
    by (auto simp: slot_journaled_def applied_entries_def or_empty_def split: option.splits)
  from reappend_all [OF rid this] obtain i where i: "foldm (reappend rid) empty_journal ?es = Inr i"
    "applied_entries i rid = ?es" "journal_inv i" by blast
  have "state_of empty_rsm_store rid = Absent" by (simp add: state_of_def empty_rsm_store_def)
  then obtain st where st: "store_seed empty_rsm_store rid r = Inr st"
      "st = empty_rsm_store\<lparr>rs_active := [(hkey rid, r)], rs_state := [(hkey rid, Active)]\<rparr>"
    by (simp add: store_seed_def empty_rsm_store_def)
  have "store_inv st"
    by (rule store_invI) (auto simp: st(2) slot_ok_def empty_rsm_store_def)
  moreover have "state_of st rid = Active" "store_get st rid = Some r"
    by (simp_all add: st(2) state_of_def store_get_def empty_rsm_store_def)
  moreover note journal_inv_slots [OF j i(3) i(2) [symmetric]]
  ultimately have "same_request rid g (new_ingest st i None)" "quiet (new_ingest st i None)"
    using active r by (simp_all add: same_request_def quiet_def new_ingest_def)
  with st(1) i(1,2) show ?thesis by blast
qed

end
