(* ===== verification/RsmBudget.thy ===== *)
theory RsmBudget
  imports RsmQuery RsmCheckpoint
begin

text \<open>
  The budget block as a function of the journal: what is granted and what is consumed are the
  sums of the amounts the applied events carry.
\<close>

definition budget_is :: "request \<Rightarrow> payload list \<Rightarrow> bool" where
  "budget_is r events \<longleftrightarrow>
     get_or_zero (rq_budget r) ''granted'' = PyInt (sum_list (numbers ''task.scheduled'' ''budget_granted'' events))
     \<and> get_or_zero (rq_budget r) ''consumed'' = PyInt (sum_list (numbers ''cost.recorded'' ''amount'' events))"

lemma get_or_zero_dset: "get_or_zero (dset k v d) k' = (if k' = k then v else get_or_zero d k')"
  by (simp add: get_or_zero_def dict_simps)

lemma numbers_snoc:
  "numbers f k (es @ [e]) = numbers f k es
     @ (if fld e ''family'' = PyStr f then [case as_int (fld (fields_of (fld e ''payload'')) k) of None \<Rightarrow> 0 | Some i \<Rightarrow> i] else [])"
  by (simp add: numbers_def)

lemma add_budget_int:
  assumes "add_budget b k x = Inr b'" and "get_or_zero b k = PyInt a"
  shows "\<exists>i. as_int x = Some i \<and> b' = dset k (PyInt (a + i)) b"
  using assms by (cases x) (auto simp: add_budget_def split: option.splits)

lemma validated_fields: "validate f event = Inr p \<Longrightarrow> fields_of (fld event ''payload'') = p"
  by (auto simp: validate_def Let_def split: option.splits pyval.splits if_splits)

lemma scheduled_budget:
  assumes "reduce_task_scheduled r event = Inr r'" and "budget_is r es" and "fld event ''family'' = PyStr ''task.scheduled''"
  shows "budget_is r' (es @ [event])"
proof -
  from assms(1) obtain p w b where p: "validate ''task.scheduled'' event = Inr p"
      and b: "add_budget (rq_budget r) ''granted'' (fld p ''budget_granted'') = Inr b"
      and r': "rq_budget r' = b"
    by (auto simp: reduce_task_scheduled_def evolve_def split: sum.splits)
  from add_budget_int [OF b] assms(2) obtain i where i: "as_int (fld p ''budget_granted'') = Some i"
      "b = dset ''granted'' (PyInt (sum_list (numbers ''task.scheduled'' ''budget_granted'' es) + i)) (rq_budget r)"
    by (auto simp: budget_is_def)
  show ?thesis
    using assms(2,3) i validated_fields [OF p] by (simp add: budget_is_def r' get_or_zero_dset numbers_snoc)
qed

lemma cost_budget:
  assumes "reduce_cost_recorded r event = Inr r'" and "budget_is r es" and "fld event ''family'' = PyStr ''cost.recorded''"
  shows "budget_is r' (es @ [event])"
proof -
  from assms(1) obtain p b where p: "validate ''cost.recorded'' event = Inr p"
      and b: "add_budget (rq_budget r) ''consumed'' (fld p ''amount'') = Inr b"
      and r': "rq_budget r' = b"
    by (auto simp: reduce_cost_recorded_def evolve_def split: sum.splits)
  from add_budget_int [OF b] assms(2) obtain i where i: "as_int (fld p ''amount'') = Some i"
      "b = dset ''consumed'' (PyInt (sum_list (numbers ''cost.recorded'' ''amount'' es) + i)) (rq_budget r)"
    by (auto simp: budget_is_def)
  show ?thesis
    using assms(2,3) i validated_fields [OF p] by (simp add: budget_is_def r' get_or_zero_dset numbers_snoc)
qed

lemma other_budget:
  assumes "dget reducer_registry f = Some red" and "red r event = Inr r'" and "f \<noteq> ''task.scheduled''" and "f \<noteq> ''cost.recorded''"
  shows "rq_budget r' = rq_budget r"
proof -
  from assms(1) have "(f, red) \<in> set reducer_registry" by (rule map_of_SomeD)
  with assms(2-4) show ?thesis
    unfolding reducer_registry_def
    by (simp only: set_simps insert_iff empty_iff prod.inject)
      (elim disjE conjE FalseE; auto simp: reducer_defs evolve_def add_failure_def split: sum.splits if_splits)
qed

lemma registry_scheduled: "dget reducer_registry ''task.scheduled'' = Some reduce_task_scheduled"
  by (simp add: reducer_registry_def)

lemma reducer_budget:
  assumes "dget reducer_registry f = Some red" and "red r event = Inr r'" and "budget_is r es" and "fld event ''family'' = PyStr f"
  shows "budget_is r' (es @ [event])"
proof (cases "f = ''task.scheduled''")
  case True
  with assms registry_scheduled scheduled_budget show ?thesis by auto
next
  case False
  show ?thesis
  proof (cases "f = ''cost.recorded''")
    case True
    with assms registry_cost cost_budget show ?thesis by auto
  next
    case False
    with \<open>f \<noteq> ''task.scheduled''\<close> other_budget [OF assms(1,2)] assms(3,4) show ?thesis
      by (simp add: budget_is_def numbers_snoc)
  qed
qed

definition budget_ok :: "event_source \<Rightarrow> pyval \<Rightarrow> 'b ingest \<Rightarrow> bool" where
  "budget_ok src rid g \<longleftrightarrow>
     (state_of (ig_store g) rid = Absent \<longrightarrow> applied_entries (ig_journal g) rid = [])
     \<and> (\<forall>r. store_get (ig_store g) rid = Some r \<longrightarrow>
          (\<exists>es. map (src \<circ> fst) (applied_entries (ig_journal g) rid) = map Inr es \<and> budget_is r es))"

lemma budget_ok_mono:
  assumes "budget_ok src rid g" and "applied_entries (ig_journal g') rid = applied_entries (ig_journal g) rid"
    and "state_of (ig_store g') rid = Absent \<Longrightarrow> state_of (ig_store g) rid = Absent"
    and "\<And>r. store_get (ig_store g') rid = Some r \<Longrightarrow> store_get (ig_store g) rid = Some r"
  shows "budget_ok src rid g'"
  using assms by (auto simp: budget_ok_def)

lemma process_budget:
  assumes p: "process pub now g event = (g', res)"
    and arch: "hashable (event_eid event)" "src (event_eid event) = Inr event"
    and inv: "store_inv (ig_store g)" and ok: "budget_ok src rid g"
  shows "budget_ok src rid g'"
  using p
proof (cases rule: process_cases)
  case idle
  then show ?thesis by (intro budget_ok_mono [OF ok]) simp_all
next
  case (torn s j e)
  with journal_append_total [OF torn(1) arch(1), of 1] show ?thesis by auto
next
  case (applied s j n)
  note ja = journal_append_ok(2) [OF applied(5,8), of rid]
  show ?thesis
  proof (cases "hkey rid = hkey (event_rid event)")
    case False
    with ja applied(9,10) apply_event_other [OF applied(7) inv False] show ?thesis
      by (intro budget_ok_mono [OF ok]) simp_all
  next
    case True
    let ?x = "event_rid event"
    have entries: "applied_entries j rid = applied_entries (ig_journal g) rid @ [(event_eid event, n, 1)]"
      using ja True journal_entries_cong [OF True] by simp
    have both: "state_of s rid \<noteq> Absent \<and> (\<forall>r. store_get s rid = Some r \<longrightarrow>
        (\<exists>es. map (src \<circ> fst) (applied_entries (ig_journal g) rid) = map Inr es \<and> budget_is r (es @ [event])))"
      using applied(7)
    proof (cases rule: apply_event_cases)
      case (born fs)
      have "fld event ''family'' = PyStr birth_family"
        using born(1) lookup_row_act(1) by (auto simp: event_act_def)
      then have "budget_is (birth_record ?x fs) ([] @ [event])"
        by (simp add: budget_is_def birth_record_def get_or_zero_def numbers_def birth_family_def)
      moreover have "applied_entries (ig_journal g) rid = []"
        using ok born(3) life_step_cong [OF True, of "ig_store g"] by (simp add: budget_ok_def life_of_def)
      ultimately show "state_of s rid \<noteq> Absent \<and> (\<forall>r. store_get s rid = Some r \<longrightarrow>
        (\<exists>es. map (src \<circ> fst) (applied_entries (ig_journal g) rid) = map Inr es \<and> budget_is r (es @ [event])))"
        using store_create_effect(2,3) [OF born(4) inv, of rid] True by auto
    next
      case (changed f red q q')
      have "store_get (ig_store g) rid = Some q"
        using changed(4) life_step_cong [OF True, of "ig_store g"] by (simp add: life_of_def)
      then obtain es where es: "map (src \<circ> fst) (applied_entries (ig_journal g) rid) = map Inr es" "budget_is q es"
        and "state_of (ig_store g) rid \<noteq> Absent"
        using ok store_life_ok [OF inv, of rid] by (auto simp: budget_ok_def life_ok_def)
      moreover have "store_get s rid = Some q'" "state_of s rid \<in> {Terminal, state_of (ig_store g) rid}"
        using changed(6) store_terminal_effect(2,3) [OF _ inv, of ?x q' s rid]
          store_apply_effect(2,3) [OF _ inv, of ?x q' s rid] True by (auto split: if_splits)
      moreover note reducer_budget [OF changed(3,5) es(2) changed(2)]
      ultimately show "state_of s rid \<noteq> Absent \<and> (\<forall>r. store_get s rid = Some r \<longrightarrow>
        (\<exists>es. map (src \<circ> fst) (applied_entries (ig_journal g) rid) = map Inr es \<and> budget_is r (es @ [event])))"
        by auto
    qed
    have "\<exists>es. map (src \<circ> fst) (applied_entries j rid) = map Inr es \<and> budget_is r es" if "store_get s rid = Some r" for r
    proof -
      from both that obtain es where "map (src \<circ> fst) (applied_entries (ig_journal g) rid) = map Inr es" "budget_is r (es @ [event])"
        by blast
      then show ?thesis using arch(2) entries by (intro exI [of _ "es @ [event]"]) simp
    qed
    with both applied(9,10) show ?thesis by (simp add: budget_ok_def)
  qed
qed

lemma rsm_do_budget:
  assumes "archived src a" and "store_inv (ig_store g)" and "budget_ok src rid g"
  shows "budget_ok src rid (rsm_do pub g a)"
proof (cases a)
  case (Ingested now event)
  obtain g' res where "process pub now g event = (g', res)" by (cases "process pub now g event")
  with process_budget [OF this _ _ assms(2,3)] assms(1) Ingested show ?thesis
    by (simp add: rsm_do_def archived_def)
next
  case (Persisting x now)
  show ?thesis
  proof (cases "mark_persisted (ig_store g) x now")
    case (Inl e)
    then show ?thesis using assms(3) by (simp add: Persisting rsm_do_def)
  next
    case (Inr s)
    with mark_persisted_effect(2,3) [OF Inr assms(2), of rid] show ?thesis
      by (intro budget_ok_mono [OF assms(3)]) (auto simp: Persisting rsm_do_def split: if_splits)
  qed
next
  case (Evicting x now now' window)
  obtain s b where e: "evict_gate (ig_store g) x now window = (s, b)"
    by (cases "evict_gate (ig_store g) x now window")
  then have do: "ig_store (rsm_do pub g a) = s" "ig_journal (rsm_do pub g a) = ig_journal g"
    by (auto simp: Evicting rsm_do_def evict_and_notify_def split: option.splits prod.splits bool.splits sum.splits)
  have "s = ig_store g \<or> s = mark_evicted (ig_store g) x"
    using e by (auto simp: evict_gate_def Let_def split: if_splits)
  then show ?thesis
    using mark_evicted_effect(2,3) [OF assms(2), of x rid] do
    by (intro budget_ok_mono [OF assms(3)]) (auto split: if_splits)
qed

lemma rsm_run_budget:
  assumes "\<forall>a \<in> set as. archived src a" and "store_inv (ig_store g)" and "budget_ok src rid g"
  shows "budget_ok src rid (rsm_run pub g as)"
  using assms
proof (induction "as" arbitrary: g)
  case Nil
  then show ?case by simp
next
  case (Cons a "as")
  from Cons.prems have "budget_ok src rid (rsm_do pub g a)" by (simp add: rsm_do_budget)
  with Cons.IH rsm_do_life [OF Cons.prems(2)] Cons.prems(1) show ?case by simp
qed

end
