(* ===== verification/RsmProps.thy ===== *)
theory RsmProps
  imports RsmBudget StorageProps
begin

text \<open>
  The properties of the request-state manager: its operations refine the life of a request,
  application is exactly once, replay of a request's journal and resumption from a checkpoint
  rebuild its record, and budgets are sums over the journal.
\<close>

section \<open>Runs from a fresh manager\<close>

abbreviation fresh_rsm :: "'b telemetry option \<Rightarrow> 'b ingest" where
  "fresh_rsm t \<equiv> new_ingest empty_rsm_store empty_journal t"

lemma fresh_inv [simp]: "store_inv (ig_store (fresh_rsm t))" "journal_inv (ig_journal (fresh_rsm t))"
  by (simp_all add: new_ingest_def store_inv_empty journal_inv_empty)

lemma run_inv: "store_inv (ig_store (rsm_run pub (fresh_rsm t) as))"
  using rsm_run_life [OF fresh_inv(1)] by blast

lemma archived_hashable: "archived src a \<Longrightarrow> hashable_op a"
  by (cases a) (simp_all add: archived_def hashable_op_def)

lemma run_journal: "\<forall>a \<in> set as. hashable_op a \<Longrightarrow> journal_inv (ig_journal (rsm_run pub (fresh_rsm t) as))"
  by (rule rsm_run_journal) simp_all

lemma same_fresh: "same_request rid (fresh_rsm t) (fresh_rsm None)" "quiet (fresh_rsm None)"
  by (simp_all add: same_request_def quiet_def new_ingest_def store_inv_empty)

text \<open>
  C24: whatever events arrive, whatever is persisted or evicted, and whatever raises, the state
  and the record of every request change only by the steps of \<open>life_step\<close>: birth, grown
  records while active, one terminal step, then budget changes only, persistence, eviction.
\<close>

theorem manager_refines_lifecycle:
  "life_step\<^sup>*\<^sup>*
     (life_of (ig_store (rsm_run pub (fresh_rsm t) as)) rid)
     (life_of (ig_store (rsm_run pub (fresh_rsm t) (as @ bs))) rid)"
  using rsm_run_life [OF run_inv, of pub pub t "as" bs rid] by (simp add: foldl_append)

text \<open>
  C25: a record that reached a terminal state keeps every block but the budget for as long as it
  exists, an evicted request stays evicted and has no record, and failures are never removed
  or reordered.
\<close>

theorem terminal_records_settle:
  assumes "g = rsm_run pub (fresh_rsm t) as" and "g' = rsm_run pub (fresh_rsm t) (as @ bs)"
  shows "(state_of (ig_store g) rid \<in> {Terminal, Persisted} \<longrightarrow>
            state_of (ig_store g') rid \<in> {Terminal, Persisted, Evicted}
            \<and> (\<forall>r r'. store_get (ig_store g) rid = Some r \<longrightarrow> store_get (ig_store g') rid = Some r' \<longrightarrow>
                 r' = r\<lparr>rq_budget := rq_budget r', rq_version := rq_version r'\<rparr>))
    \<and> (state_of (ig_store g) rid = Evicted \<longrightarrow>
         state_of (ig_store g') rid = Evicted \<and> store_get (ig_store g') rid = None)
    \<and> (\<forall>r r'. store_get (ig_store g) rid = Some r \<longrightarrow> store_get (ig_store g') rid = Some r' \<longrightarrow>
         (\<exists>more. rq_failure r' = rq_failure r @ more))"
proof -
  have ok: "life_ok (life_of (ig_store g) rid)" "life_ok (life_of (ig_store g') rid)"
    unfolding assms life_of_def by (rule store_life_ok [OF run_inv])+
  have "life_step\<^sup>*\<^sup>* (life_of (ig_store g) rid) (life_of (ig_store g') rid)"
    using rsm_run_life [OF run_inv, of pub pub t "as" bs rid] by (simp add: assms foldl_append)
  from life_steps_outlive [OF this ok(1)] have out: "outlives (life_of (ig_store g) rid) (life_of (ig_store g') rid)" by blast
  have "budget_only r r' \<Longrightarrow> r' = r\<lparr>rq_budget := rq_budget r', rq_version := rq_version r'\<rparr>" for r r' :: request
    by (cases r; cases r') (simp add: settled_fields)
  then have kept: "r' = r\<lparr>rq_budget := rq_budget r', rq_version := rq_version r'\<rparr>"
    if "state_of (ig_store g) rid \<in> {Terminal, Persisted}" "store_get (ig_store g) rid = Some r"
      "store_get (ig_store g') rid = Some r'" for r r'
    using out that by (simp only: outlives_def life_of_def fst_conv snd_conv)
  have "\<exists>more. rq_failure r' = rq_failure r @ more"
    if "store_get (ig_store g) rid = Some r" "store_get (ig_store g') rid = Some r'" for r r'
    using out that by (simp add: outlives_def life_of_def grown_def)
  moreover have "state_of (ig_store g') rid \<in> {Terminal, Persisted, Evicted}"
    if "state_of (ig_store g) rid \<in> {Terminal, Persisted}"
    using out that by (simp only: outlives_def life_of_def fst_conv)
  moreover have "state_of (ig_store g') rid = Evicted \<and> store_get (ig_store g') rid = None"
    if "state_of (ig_store g) rid = Evicted"
    using out ok that by (simp add: outlives_def life_of_def life_ok_def)
  ultimately show ?thesis using kept by blast
qed

text \<open>
  C26: an event is applied at most once. After any run, an event that is in its request's
  journal is dropped on redelivery: store, journal and telemetry stay as they are, and only the
  drop counter moves. No journal holds an id twice.
\<close>

theorem application_exactly_once:
  assumes "g = rsm_run pub (fresh_rsm t) as" and "\<forall>a \<in> set as. hashable_op a"
    and "truthy (event_rid event)" "truthy (event_eid event)" "truthy (fld event ''family'')"
    and "hashable (event_rid event)" "hashable (event_eid event)"
    and "hkey (event_eid event) \<in> (hkey \<circ> fst) ` set (applied_entries (ig_journal g) (event_rid event))"
  shows "process pub now g event = (g\<lparr>ig_dedup := Suc (ig_dedup g)\<rparr>, Inr Dropped)
    \<and> distinct (map (hkey \<circ> fst) (applied_entries (ig_journal g) rid))"
proof
  have inv: "journal_inv (ig_journal g)" using run_journal assms(1,2) by blast
  have "journal_has (ig_journal g) (event_rid event) (event_eid event) = Inr True"
    using journal_inv_has [OF inv assms(6,7)] assms(8) by simp
  with assms(3-5) show "process pub now g event = (g\<lparr>ig_dedup := Suc (ig_dedup g)\<rparr>, Inr Dropped)"
    by (simp add: process_def event_rid_def event_eid_def Let_def)
  have "slot_journaled (ig_journal g) rid" using inv by (simp add: journal_inv_def)
  then show "distinct (map (hkey \<circ> fst) (applied_entries (ig_journal g) rid))"
    by (auto simp: slot_journaled_def applied_entries_def or_empty_def split: option.splits)
qed

lemma replay_last:
  assumes "owned_by src rid news" and "news \<noteq> []"
  shows "\<exists>event. src (last (map fst news)) = Inr event \<and> hkey (event_rid event) = hkey rid"
  using assms last_in_set [OF assms(2)] by (auto simp: owned_by_def last_map)

lemma mirrored_replay:
  assumes "mirrored src rid g g' (new_ingest s j None)"
  shows "\<exists>news s' j'. applied_entries (ig_journal g') rid = applied_entries (ig_journal g) rid @ news
    \<and> replay_journal src s j (map fst news) =
        Inr (s', j', if news = [] then None else store_get (ig_store g') rid)
    \<and> store_get s' rid = store_get (ig_store g') rid
    \<and> applied_entries j' rid = applied_entries (ig_journal g') rid"
proof -
  from assms obtain h news where h: "applied_entries (ig_journal g') rid = applied_entries (ig_journal g) rid @ news"
      "foldm (replay_event src) (new_ingest s j None) (map fst news) = Inr h"
      "same_request rid g' h" "owned_by src rid news"
    by (auto simp: mirrored_def)
  have get: "store_get (ig_store h) x = store_get (ig_store g') rid" if "hkey x = hkey rid" for x
    using h(3) life_step_cong [OF that, of "ig_store h"] by (simp add: same_request_def life_of_def)
  have "replay_journal src s j (map fst news) =
      Inr (ig_store h, ig_journal h, if news = [] then None else store_get (ig_store g') rid)"
    using h(2) replay_last [OF h(4)] get by (auto simp: replay_journal_def)
  with h(1) same_view_entries [OF h(3)] get [of rid] show ?thesis by auto
qed

text \<open>
  C27: replaying the ids in a request's journal through a fresh pipeline, with the events an
  archive returns for them, succeeds and rebuilds the request's record and journal as the live
  run has them, whatever other requests, drops, faults, persistence and evictions the run had.
\<close>

theorem replay_rebuilds_request:
  assumes "g = rsm_run pub (fresh_rsm t) as" and "\<forall>a \<in> set as. archived src a"
    and "state_of (ig_store g) rid \<noteq> Evicted"
  shows "\<exists>s j. replay_journal src empty_rsm_store empty_journal (map fst (applied_entries (ig_journal g) rid))
      = Inr (s, j, store_get (ig_store g) rid)
    \<and> applied_entries j rid = applied_entries (ig_journal g) rid"
proof -
  have "mirrored src rid (fresh_rsm t) g (fresh_rsm None)"
    using rsm_run_mirrored [OF assms(2) same_fresh(1) _ same_fresh(2)] assms(1,3) by simp
  from mirrored_replay [OF this] obtain news s j where
    news: "applied_entries (ig_journal g) rid = news"
    and r: "replay_journal src empty_rsm_store empty_journal (map fst news)
      = Inr (s, j, if news = [] then None else store_get (ig_store g) rid)"
    and j: "store_get s rid = store_get (ig_store g) rid" "applied_entries j rid = applied_entries (ig_journal g) rid"
    by (auto simp: new_ingest_def applied_entries_def empty_journal_def or_empty_def)
  have "store_get (ig_store g) rid = None" if "news = []"
    using r j that by (auto simp: replay_journal_def new_ingest_def store_get_def empty_rsm_store_def)
  with news r j show ?thesis by auto
qed

definition plain_name :: "string \<Rightarrow> bool" where
  "plain_name name \<longleftrightarrow> name \<noteq> [] \<and> list_all (\<lambda>c. alnum c \<or> c \<in> set ''_-'') name"

lemma plain_name_chars:
  assumes "plain_name name" and "c \<in> set name"
  shows "alnum c \<or> c \<in> set ''_-''" and "c \<noteq> CHR ''/''" and "c \<noteq> CHR ''.''" and "c \<noteq> CHR 0x5C"
proof -
  show a: "alnum c \<or> c \<in> set ''_-''" using assms by (auto simp: plain_name_def list_all_iff)
  have "\<not> alnum (CHR ''/'')" "\<not> alnum (CHR ''.'')" "\<not> alnum (CHR 0x5C)" by code_simp+
  with a show "c \<noteq> CHR ''/''" "c \<noteq> CHR ''.''" "c \<noteq> CHR 0x5C" by auto
qed

lemma plain_name_int: "plain_name (int_str i)"
proof -
  have "list_all (\<lambda>c. alnum c \<or> c \<in> set ''_-'') (nat_str n)" for n
  proof -
    have "\<forall>c \<in> set ''0123456789''. alnum c" by code_simp
    then show ?thesis using set_nat_str [of n] unfolding list_all_iff by blast
  qed
  then show ?thesis by (simp add: plain_name_def int_str_def)
qed

lemma has_dotdot_dots: "CHR ''.'' \<notin> set s \<Longrightarrow> \<not> has_dotdot s"
  by (induction s rule: has_dotdot.induct) auto

lemma no_tmp_suffix: "CHR ''.'' \<notin> set s \<Longrightarrow> \<not> ends_with tmp_suffix s"
proof
  assume dot: "CHR ''.'' \<notin> set s" and "ends_with tmp_suffix s"
  then have "set tmp_suffix \<subseteq> set s" unfolding ends_with_def by (metis set_drop_subset)
  with dot show False by (simp add: tmp_suffix_def)
qed

text \<open>A key of plain components below a namespace is a plain key.\<close>

lemma plain_path_key:
  assumes "list_all plain_name (ns # cs)" and "cs \<noteq> []"
  shows "plain_key ns (join_with ''/'' (ns # cs))"
proof -
  let ?k = "join_with ''/'' (ns # cs)"
  have slash: "list_all (\<lambda>c. CHR ''/'' \<notin> set c) ws \<Longrightarrow> ws \<noteq> [] \<Longrightarrow> split_on (CHR ''/'') (join_with ''/'' ws) = ws" for ws
  proof (induction ws)
    case (Cons w ws)
    then show ?case by (cases ws) (simp_all add: split_on_fresh join_with_Cons split_on_append)
  qed simp
  have comps: "key_comps ?k = ns # cs"
    unfolding key_comps_def
    by (rule slash) (use assms(1) plain_name_chars(2) in \<open>auto simp: list_all_iff\<close>)
  have chars: "c = CHR ''/'' \<or> alnum c \<or> c \<in> set ''_-''" if "c \<in> set ?k" for c
  proof -
    have "c \<in> set (join_with ''/'' ws) \<Longrightarrow> c = CHR ''/'' \<or> (\<exists>w \<in> set ws. c \<in> set w)" for ws
    proof (induction ws)
      case (Cons w ws)
      then show ?case by (cases ws) (auto simp: join_with_Cons)
    qed simp
    with that assms(1) plain_name_chars(1) show ?thesis by (metis list_all_iff)
  qed
  have other: "\<not> alnum (CHR ''.'')" "\<not> alnum (CHR 0x5C)" by code_simp+
  have "CHR ''.'' \<notin> set ?k" "CHR 0x5C \<notin> set ?k" using chars other by auto
  moreover have "hd ?k = hd ns" "ns \<noteq> []"
    using assms by (auto simp: join_with_Cons plain_name_def)
  moreover have "hd ns \<noteq> CHR ''/''" using assms(1) plain_name_chars(2) [of ns "hd ns"] \<open>ns \<noteq> []\<close> by simp
  moreover have "list_all (\<lambda>c. alnum c \<or> c \<in> set ''/._-'') ?k"
    using chars unfolding list_all_iff by auto
  ultimately have "check_key ?k"
    using has_dotdot_dots assms(2) by (auto simp: check_key_def join_with_Cons)
  moreover have "plain_comps ns (ns # cs)"
  proof -
    have "plain_name (last cs)" using assms by (simp add: list_all_iff)
    then have dots: "CHR ''.'' \<notin> set (last cs)" using plain_name_chars(3) by blast
    have "list_all (\<lambda>c. c \<noteq> [] \<and> c \<noteq> ''.'') (ns # cs)"
      unfolding list_all_iff
    proof
      fix c assume "c \<in> set (ns # cs)"
      then have c: "plain_name c" using assms(1) unfolding list_all_iff by blast
      then have "CHR ''.'' \<notin> set c" using plain_name_chars(3) by blast
      with c show "c \<noteq> [] \<and> c \<noteq> ''.''" by (auto simp: plain_name_def)
    qed
    moreover have "last cs \<noteq> lock_name" using dots by (auto simp: lock_name_def)
    ultimately show ?thesis using dots assms(2) no_tmp_suffix by (cases cs) (auto simp: plain_comps_def)
  qed
  ultimately show ?thesis by (simp add: plain_key_def comps)
qed

lemma plain_rsm_keys:
  assumes "plain_name name"
  shows "plain_key ''rsm'' (rsm_checkpoint_key (PyStr name) seq)"
    and "checkpoint_index_key (PyStr name) = Inr k \<Longrightarrow> plain_key ''rsm'' k"
proof -
  have names: "plain_name ''rsm''" "plain_name ''checkpoint''" "plain_name ''checkpoint_index''" by code_simp+
  have "list_all plain_name [''rsm'', ''checkpoint'', name, int_str seq]"
    using assms names plain_name_int by simp
  from plain_path_key [OF this] show "plain_key ''rsm'' (rsm_checkpoint_key (PyStr name) seq)"
    by (simp add: rsm_checkpoint_key_def)
  have "list_all plain_name [''rsm'', ''checkpoint_index'', name]"
    using assms names by simp
  from plain_path_key [OF this] show "checkpoint_index_key (PyStr name) = Inr k \<Longrightarrow> plain_key ''rsm'' k"
    by (auto simp: checkpoint_index_key_def rsm_key_def)
qed

text \<open>
  C28: resuming from a checkpoint is replaying everything. A checkpoint of an active request,
  written through a vault namespace at some point of a run on plain events, gives with the
  events journaled since the record the run has at its end. (The code returns no record
  when nothing was journaled since; the store it returns holds it.)
\<close>

theorem checkpoint_resumes_run:
  assumes "g = rsm_run pub (fresh_rsm t) as" and "g' = rsm_run pub (fresh_rsm t) (as @ bs)"
    and "\<forall>a \<in> set (as @ bs). archived src a \<and> plain_op a" and "plain_name name"
    and "state_of (ig_store g) (PyStr name) = Active" and "state_of (ig_store g') (PyStr name) \<noteq> Evicted"
    and "vault_good E ''rsm'' s"
    and "write_checkpoint (ns_port spub E ''rsm'') s (ig_journal g) (ig_store g) (PyStr name) = (s', Inr doc)"
  shows "\<exists>st j tail. applied_entries (ig_journal g') (PyStr name) = applied_entries (ig_journal g) (PyStr name) @ tail
    \<and> replay_from_checkpoint (ns_port spub E ''rsm'') s' (PyStr name) (map fst tail) src None
      = Inr (st, j, if tail = [] then None else store_get (ig_store g') (PyStr name))
    \<and> store_get st (PyStr name) = store_get (ig_store g') (PyStr name)
    \<and> applied_entries j (PyStr name) = applied_entries (ig_journal g') (PyStr name)"
proof -
  let ?rid = "PyStr name" and ?es = "applied_entries (ig_journal g) (PyStr name)"
  have inv: "store_inv (ig_store g)" unfolding assms(1) by (rule run_inv)
  obtain r where r: "store_get (ig_store g) ?rid = Some r"
    using store_life_ok [OF inv, of ?rid] assms(5) by (auto simp: life_ok_def)
  have arch: "\<forall>a \<in> set as. archived src a" "\<forall>a \<in> set bs. archived src a" using assms(3) by auto
  have plain: "plain_ingest g"
    unfolding assms(1) using assms(3) plain_ingest_new by (intro rsm_run_plain) auto
  have jinv: "journal_inv (ig_journal g)"
    unfolding assms(1) using arch(1) archived_hashable by (intro run_journal) blast
  note wrote = vault.checkpoint_reads_back [OF assms(7,8) refl r plain_ingestD(1) [OF plain r]
      plain_ingestD(2) [OF plain] plain_rsm_keys [OF assms(4)]]
  from wrote obtain seq where rb: "read_checkpoint (ns_port spub E ''rsm'') s' ?rid None
      = Inr (checkpoint_doc ?rid ?es seq r)" by blast
  obtain st i where seed: "store_seed empty_rsm_store ?rid r = Inr st" "foldm (reappend ?rid) empty_journal ?es = Inr i"
      "same_request ?rid g (new_ingest st i None :: unit ingest)" "quiet (new_ingest st i None)"
    using seeded_view [OF assms(5) r jinv] by (auto simp: hashable_def)
  have "mirrored src ?rid g (rsm_run pub g bs) (new_ingest st i None)"
    using rsm_run_mirrored [OF arch(2) seed(3) inv seed(4)] assms(1,2,6) by (simp add: foldl_append)
  then have "mirrored src ?rid g g' (new_ingest st i None)"
    by (simp add: assms(1,2) foldl_append)
  note replayed = mirrored_replay [OF this]
  have "replay_from_checkpoint (ns_port spub E ''rsm'') s' ?rid ids src None = replay_journal src st i ids" for ids
    using rb checkpoint_doc_fields [OF plain_ingestD(1) [OF plain r], of ?rid ?es seq] seed(1,2)
    by (simp add: replay_from_checkpoint_def)
  with replayed show ?thesis by metis
qed

text \<open>
  C29: what a record says was granted and consumed are the sums of the amounts of the
  \<open>task.scheduled\<close> and \<open>cost.recorded\<close> events in its journal, each counted once, and a budget
  query reports their difference.
\<close>

theorem budget_sums_journal:
  assumes "g = rsm_run pub (fresh_rsm t) as" and "\<forall>a \<in> set as. archived src a"
    and "store_get (ig_store g) rid = Some r"
  shows "\<exists>es. map (src \<circ> fst) (applied_entries (ig_journal g) rid) = map Inr es
    \<and> query_budget (ig_store g) rid = Inr (Some
        (let granted = sum_list (numbers ''task.scheduled'' ''budget_granted'' es);
             consumed = sum_list (numbers ''cost.recorded'' ''amount'' es)
         in [(''granted'', PyInt granted), (''consumed'', PyInt consumed), (''remaining'', PyInt (granted - consumed))]))"
proof -
  have "budget_ok src rid (fresh_rsm t)"
    by (simp add: budget_ok_def new_ingest_def applied_entries_def empty_journal_def or_empty_def
        store_get_def empty_rsm_store_def)
  from rsm_run_budget [OF assms(2) fresh_inv(1) this] have "budget_ok src rid g" by (simp add: assms(1))
  with assms(3) obtain es where es: "map (src \<circ> fst) (applied_entries (ig_journal g) rid) = map Inr es" "budget_is r es"
    by (auto simp: budget_ok_def)
  have "query_snapshot (ig_store g) rid = Some r"
    using assms(3) store_life_ok [OF run_inv, of pub t "as" rid]
    by (auto simp: query_snapshot_def query_status_def life_ok_def assms(1))
  with es show ?thesis
    by (auto simp: query_budget_def budget_is_def py_sub_def Let_def)
qed

section \<open>A request at work\<close>

definition ev_birth :: payload where
  "ev_birth = make_event (PyStr ''e0'') (PyStr ''request.received'') (PyStr ''r1'') (PyInt 1)
     [(''declared_type'', PyStr ''alpha''), (''origin'', PyStr ''frontend'')]"

definition ev_task :: payload where
  "ev_task = make_event (PyStr ''e1'') (PyStr ''task.scheduled'') (PyStr ''r1'') (PyInt 1)
     [(''task_id'', PyStr ''t1''), (''budget_granted'', PyInt 10)]"

definition ev_cost :: payload where
  "ev_cost = make_event (PyStr ''e2'') (PyStr ''cost.recorded'') (PyStr ''r1'') (PyInt 1) [(''amount'', PyInt 4)]"

definition ev_done :: payload where
  "ev_done = make_event (PyStr ''e3'') (PyStr ''request.completed'') (PyStr ''r1'') (PyInt 1) []"

definition ev_late :: payload where
  "ev_late = make_event (PyStr ''e4'') (PyStr ''cost.recorded'') (PyStr ''r1'') (PyInt 1) [(''amount'', PyInt 3)]"

definition demo_archive :: event_source where
  "demo_archive = source_of [(PyStr ''e0'', ev_birth), (PyStr ''e1'', ev_task), (PyStr ''e2'', ev_cost),
     (PyStr ''e3'', ev_done), (PyStr ''e4'', ev_late)]"

definition demo_start :: "rsm_op list" where
  "demo_start = [Ingested 0 ev_birth, Ingested 1 ev_task, Ingested 2 ev_task]"

definition demo_finish :: "rsm_op list" where
  "demo_finish = [Ingested 3 ev_cost, Ingested 4 ev_done, Persisting (PyStr ''r1'') 5, Ingested 6 ev_task]"

abbreviation demo_rsm :: "rsm_op list \<Rightarrow> unit ingest" where
  "demo_rsm as \<equiv> rsm_run silent (fresh_rsm None) as"

lemma demo_archived: "\<forall>a \<in> set (demo_start @ demo_finish @ [Ingested 7 ev_late]). archived demo_archive a \<and> plain_op a"
proof -
  have "list_all (\<lambda>a. archived demo_archive a) (demo_start @ demo_finish @ [Ingested 7 ev_late])"
    by code_simp
  moreover have "plain_event ev_birth" "plain_event ev_task" "plain_event ev_cost" "plain_event ev_done" "plain_event ev_late"
    by (simp_all add: plain_event_def plain_payload_def ev_birth_def ev_task_def ev_cost_def ev_done_def ev_late_def
        make_event_def fld_def key_fields_def)
  then have "list_all plain_op (demo_start @ demo_finish @ [Ingested 7 ev_late])"
    by (simp add: plain_op_def demo_start_def demo_finish_def)
  ultimately show ?thesis by (simp only: list_all_iff) blast
qed

theorem terminal_records_settle_witness:
  "let g = demo_rsm (demo_start @ demo_finish); g' = demo_rsm ((demo_start @ demo_finish) @ [Ingested 7 ev_late]) in
     state_of (ig_store g) (PyStr ''r1'') = Persisted
     \<and> map_option rq_budget (store_get (ig_store g) (PyStr ''r1'')) \<noteq> map_option rq_budget (store_get (ig_store g') (PyStr ''r1''))
     \<and> state_of (ig_store g') (PyStr ''r1'') \<in> {Terminal, Persisted, Evicted}"
proof -
  have "state_of (ig_store (demo_rsm (demo_start @ demo_finish))) (PyStr ''r1'') = Persisted" by code_simp
  moreover have "map_option rq_budget (store_get (ig_store (demo_rsm (demo_start @ demo_finish))) (PyStr ''r1''))
      \<noteq> map_option rq_budget (store_get (ig_store (demo_rsm ((demo_start @ demo_finish) @ [Ingested 7 ev_late]))) (PyStr ''r1''))"
    by code_simp
  ultimately show ?thesis
    using terminal_records_settle [OF refl refl, of silent None "demo_start @ demo_finish" "PyStr ''r1''" "[Ingested 7 ev_late]"]
    unfolding Let_def by blast
qed

theorem application_exactly_once_witness:
  "process silent 9 (demo_rsm demo_start) ev_task
     = ((demo_rsm demo_start)\<lparr>ig_dedup := Suc (ig_dedup (demo_rsm demo_start))\<rparr>, Inr Dropped)"
proof -
  have "list_all hashable_op demo_start" by code_simp
  then have h: "\<forall>a \<in> set demo_start. hashable_op a" by (simp add: list_all_iff)
  have "truthy (event_rid ev_task)" "truthy (event_eid ev_task)" "truthy (fld ev_task ''family'')"
    "hashable (event_rid ev_task)" "hashable (event_eid ev_task)"
    "hkey (event_eid ev_task) \<in> (hkey \<circ> fst) ` set (applied_entries (ig_journal (demo_rsm demo_start)) (event_rid ev_task))"
    by code_simp+
  from application_exactly_once [OF refl h this] show ?thesis by blast
qed

theorem replay_rebuilds_request_witness:
  "\<exists>s j r. replay_journal demo_archive empty_rsm_store empty_journal [PyStr ''e0'', PyStr ''e1'', PyStr ''e2'', PyStr ''e3''] = Inr (s, j, Some r)
     \<and> store_get (ig_store (demo_rsm (demo_start @ demo_finish))) (PyStr ''r1'') = Some r"
proof -
  let ?g = "demo_rsm (demo_start @ demo_finish)"
  have arch: "\<forall>a \<in> set (demo_start @ demo_finish). archived demo_archive a" using demo_archived by auto
  have "state_of (ig_store ?g) (PyStr ''r1'') \<noteq> Evicted" "store_get (ig_store ?g) (PyStr ''r1'') \<noteq> None"
    and "map fst (applied_entries (ig_journal ?g) (PyStr ''r1'')) = [PyStr ''e0'', PyStr ''e1'', PyStr ''e2'', PyStr ''e3'']"
    by code_simp+
  with replay_rebuilds_request [OF refl arch this(1)] show ?thesis by auto
qed

theorem checkpoint_resumes_run_witness:
  "\<exists>s' doc st j. write_checkpoint (ns_port mem_publish demo_senv ''rsm'') (demo_store []) (ig_journal (demo_rsm demo_start))
       (ig_store (demo_rsm demo_start)) (PyStr ''r1'') = (s', Inr doc)
     \<and> replay_from_checkpoint (ns_port mem_publish demo_senv ''rsm'') s' (PyStr ''r1'') [PyStr ''e2'', PyStr ''e3''] demo_archive None
       = Inr (st, j, store_get (ig_store (demo_rsm (demo_start @ demo_finish))) (PyStr ''r1''))"
proof -
  let ?P = "ns_port mem_publish demo_senv ''rsm''" and ?g = "demo_rsm demo_start" and ?g' = "demo_rsm (demo_start @ demo_finish)"
  let ?w = "write_checkpoint ?P (demo_store []) (ig_journal ?g) (ig_store ?g) (PyStr ''r1'')"
  have "\<not> isl (snd ?w)" by code_simp
  then obtain s' doc where w: "?w = (s', Inr doc)" by (cases ?w; cases "snd ?w") auto
  have arch: "\<forall>a \<in> set (demo_start @ demo_finish). archived demo_archive a \<and> plain_op a" using demo_archived by auto
  have st: "plain_name ''r1''" "state_of (ig_store ?g) (PyStr ''r1'') = Active" "state_of (ig_store ?g') (PyStr ''r1'') \<noteq> Evicted"
    by code_simp+
  have ids: "map fst (applied_entries (ig_journal ?g) (PyStr ''r1'')) = [PyStr ''e0'', PyStr ''e1'']"
    "map fst (applied_entries (ig_journal ?g') (PyStr ''r1'')) = [PyStr ''e0'', PyStr ''e1'', PyStr ''e2'', PyStr ''e3'']"
    by code_simp+
  from checkpoint_resumes_run [OF refl refl arch st demo_store_good w] obtain tail st' j where
    t: "applied_entries (ig_journal ?g') (PyStr ''r1'') = applied_entries (ig_journal ?g) (PyStr ''r1'') @ tail"
    and r: "replay_from_checkpoint ?P s' (PyStr ''r1'') (map fst tail) demo_archive None
      = Inr (st', j, if tail = [] then None else store_get (ig_store ?g') (PyStr ''r1''))" by blast
  from t ids have "map fst tail = [PyStr ''e2'', PyStr ''e3'']" "tail \<noteq> []" by auto
  with r w show ?thesis by auto
qed

theorem budget_sums_journal_witness:
  "query_budget (ig_store (demo_rsm (demo_start @ demo_finish))) (PyStr ''r1'')
     = Inr (Some [(''granted'', PyInt 10), (''consumed'', PyInt 4), (''remaining'', PyInt 6)])"
proof -
  let ?g = "demo_rsm (demo_start @ demo_finish)"
  have arch: "\<forall>a \<in> set (demo_start @ demo_finish). archived demo_archive a" using demo_archived by auto
  have "store_get (ig_store ?g) (PyStr ''r1'') \<noteq> None" by code_simp
  then obtain r where r: "store_get (ig_store ?g) (PyStr ''r1'') = Some r" by blast
  have evs: "map (demo_archive \<circ> fst) (applied_entries (ig_journal ?g) (PyStr ''r1'')) = map Inr [ev_birth, ev_task, ev_cost, ev_done]"
    by code_simp
  have "numbers ''task.scheduled'' ''budget_granted'' [ev_birth, ev_task, ev_cost, ev_done] = [10]"
    "numbers ''cost.recorded'' ''amount'' [ev_birth, ev_task, ev_cost, ev_done] = [4]" by code_simp+
  with budget_sums_journal [OF refl arch r] show ?thesis
    unfolding evs by (auto simp: Let_def dest: map_injective simp del: list.map(2))
qed

text \<open>An unhashable event id: the record is born and the journal's append raises.\<close>

lemma unhashable_event_id_tears:
  "case process silent 0 (fresh_rsm None)
       (make_event (PyList [PyInt 1]) (PyStr ''request.received'') (PyStr ''r1'') (PyInt 1)
          [(''declared_type'', PyStr ''alpha''), (''origin'', PyStr ''frontend'')]) of
     (g, res) \<Rightarrow> res = Inl TypeError \<and> state_of (ig_store g) (PyStr ''r1'') = Active
       \<and> applied_entries (ig_journal g) (PyStr ''r1'') = []"
  by code_simp

end
