(* ===== verification/SgpeCondition.thy ===== *)
theory SgpeCondition
  imports PyVal
begin

text \<open>
  The policy engine's condition grammar (\<open>sgpe/condition.py\<close>) and the refusals of the
  package. A condition is one of three node kinds. The constructors validate their arguments,
  which arrive as arbitrary values when a document is read back; operands are typed as
  conditions, so the refusal of an operand that is no built node cannot arise. The modules
  name their refusals by class; every constructor of \<open>sgpe_exn\<close> is one such class, with its
  message where the code's message is determined.
\<close>

section \<open>Refusals\<close>

datatype sgpe_exn =
    MalformedConditionError string
  | MalformedEffectError string
  | MalformedTargetError string
  | MalformedRuleError string
  | MalformedProvenanceError string
  | MalformedHeaderError string
  | DuplicateRuleIdError string
  | VocabularyRefusal string
  | MalformedManifestError string
  | MalformedActivationFactError string
  | CatalogRefusal string
  | StoreRefusal string
  | EventRefusal string
  | CompilerRefusal string
  | EvaluatorRefusal string
  | SnapshotIntegrityError string
  | MalformedQuestionError string
  | IncomparableCondition string
  | LedgerRefusal string
  | ResolverRefusal string
  | PyTypeError
  | PyKeyError string
  | PyAttributeError
  | PyLookupError
  | BusDown
  | StorageDown

type_synonym 'a refusing = "sgpe_exn + 'a"

section \<open>Reading a value\<close>

text \<open>\<open>data["k"]\<close>, on a value that is expected to be a \<open>dict\<close>.\<close>

definition item :: "pyval \<Rightarrow> string \<Rightarrow> pyval refusing" where
  "item data k =
     (case data of
        PyDict d \<Rightarrow> (case dget d k of None \<Rightarrow> Inl (PyKeyError k) | Some v \<Rightarrow> Inr v)
      | _ \<Rightarrow> Inl PyTypeError)"

text \<open>\<open>data.get("k")\<close> exists on a \<open>dict\<close> only.\<close>

definition get_item :: "pyval \<Rightarrow> string \<Rightarrow> pyval refusing" where
  "get_item data k =
     (case data of
        PyDict d \<Rightarrow> Inr (case dget d k of None \<Rightarrow> PyNone | Some v \<Rightarrow> v)
      | _ \<Rightarrow> Inl PyAttributeError)"

text \<open>\<open>tuple(v)\<close>: the characters of a string, the keys of a \<open>dict\<close>.\<close>

definition py_tuple :: "pyval \<Rightarrow> pyval list refusing" where
  "py_tuple v =
     (case v of
        PyList xs \<Rightarrow> Inr xs
      | PyStr s \<Rightarrow> Inr (map (\<lambda>c. PyStr [c]) s)
      | PyDict d \<Rightarrow> Inr (map (PyStr \<circ> fst) d)
      | _ \<Rightarrow> Inl PyTypeError)"

lemma item_PyDict [simp]:
  "item (PyDict d) k = (case dget d k of None \<Rightarrow> Inl (PyKeyError k) | Some v \<Rightarrow> Inr v)"
  by (simp add: item_def)

lemma get_item_PyDict [simp]:
  "get_item (PyDict d) k = Inr (case dget d k of None \<Rightarrow> PyNone | Some v \<Rightarrow> v)"
  by (simp add: get_item_def)

lemma py_tuple_PyList [simp]: "py_tuple (PyList xs) = Inr xs"
  by (simp add: py_tuple_def)

lemma item_size:
  assumes "item data k = Inr v"
  shows "size v < size data"
proof -
  from assms obtain d where d: "data = PyDict d" "dget d k = Some v"
    by (auto simp: item_def split: pyval.splits option.splits)
  then have "(k, v) \<in> set d" by (auto dest: map_of_SomeD)
  then have "size_prod (\<lambda>x. 0) size (k, v) \<le> size_list (size_prod (\<lambda>x. 0) size) d"
    by (intro size_list_estimation' [OF _ order_refl])
  with d show ?thesis by simp
qed

lemma item_list_size:
  assumes "item data k = Inr (PyList xs)" and "x \<in> set xs"
  shows "size x < size data"
proof -
  have "size x \<le> size_list size xs" using assms(2) by (intro size_list_estimation') auto
  also have "\<dots> < size (PyList xs)" by simp
  also have "\<dots> < size data" by (rule item_size) (rule assms(1))
  finally show ?thesis .
qed

text \<open>\<open>isinstance(v, str) and v\<close>.\<close>

fun as_name :: "pyval \<Rightarrow> string option" where
  "as_name (PyStr s) = (if s = [] then None else Some s)"
| "as_name _ = None"

lemma as_name_Some [simp]: "as_name v = Some s \<longleftrightarrow> v = PyStr s \<and> s \<noteq> []"
  by (cases v) auto

text \<open>\<open>isinstance(v, int) and not isinstance(v, bool)\<close>.\<close>

fun as_count :: "pyval \<Rightarrow> int option" where
  "as_count (PyInt i) = Some i"
| "as_count _ = None"

lemma as_count_Some [simp]: "as_count v = Some i \<longleftrightarrow> v = PyInt i"
  by (cases v) auto

fun is_scalar :: "pyval \<Rightarrow> bool" where
  "is_scalar (PyList _) = False"
| "is_scalar (PyDict _) = False"
| "is_scalar _ = True"

section \<open>The grammar\<close>

definition comparison_ops :: "string list" where
  "comparison_ops = [''eq'', ''ne'', ''lt'', ''lte'', ''gt'', ''gte'']"

definition set_ops :: "string list" where
  "set_ops = [''in'', ''not_in'']"

definition bool_ops :: "string list" where
  "bool_ops = [''and'', ''or'', ''not'']"

datatype cond =
    Comparison string string pyval
  | SetMembership string string "pyval list"
  | BooleanComposition string "cond list"

text \<open>\<open>value in NAMES\<close>, for a tuple of names.\<close>

fun among :: "string list \<Rightarrow> pyval \<Rightarrow> string option" where
  "among names (PyStr s) = (if s \<in> set names then Some s else None)"
| "among names _ = None"

lemma among_Some [simp]: "among names v = Some s \<longleftrightarrow> v = PyStr s \<and> s \<in> set names"
  by (cases v) auto

definition validate_fact_name :: "pyval \<Rightarrow> string refusing" where
  "validate_fact_name fname =
     (case as_name fname of
        None \<Rightarrow> Inl (MalformedConditionError (''condition.bad_fact_name:'' @ py_repr fname))
      | Some s \<Rightarrow> Inr s)"

definition validate_scalar :: "pyval \<Rightarrow> unit refusing" where
  "validate_scalar v =
     (if is_scalar v then Inr ()
      else Inl (MalformedConditionError (''condition.value_not_scalar:'' @ py_repr v)))"

definition build_comparison :: "pyval \<Rightarrow> pyval \<Rightarrow> pyval \<Rightarrow> cond refusing" where
  "build_comparison fname op v =
     bind_sum (validate_fact_name fname) (\<lambda>f.
       case among comparison_ops op of
         None \<Rightarrow> Inl (MalformedConditionError (''condition.unknown_comparison_op:'' @ py_repr op))
       | Some o' \<Rightarrow> bind_sum (validate_scalar v) (\<lambda>_. Inr (Comparison f o' v)))"

definition build_set_membership :: "pyval \<Rightarrow> pyval \<Rightarrow> pyval list \<Rightarrow> cond refusing" where
  "build_set_membership fname op vs =
     bind_sum (validate_fact_name fname) (\<lambda>f.
       case among set_ops op of
         None \<Rightarrow> Inl (MalformedConditionError (''condition.unknown_set_op:'' @ py_repr op))
       | Some o' \<Rightarrow>
           if vs = [] then Inl (MalformedConditionError ''condition.empty_or_bad_values:()'')
           else bind_sum (mapm validate_scalar vs) (\<lambda>_. Inr (SetMembership f o' vs)))"

definition build_boolean :: "pyval \<Rightarrow> cond list \<Rightarrow> cond refusing" where
  "build_boolean op operands =
     (case among bool_ops op of
        None \<Rightarrow> Inl (MalformedConditionError (''condition.unknown_bool_op:'' @ py_repr op))
      | Some o' \<Rightarrow>
          if o' = ''not'' \<and> length operands \<noteq> 1 then
            Inl (MalformedConditionError (''condition.not_requires_exactly_one_operand:'' @ nat_str (length operands)))
          else if o' \<noteq> ''not'' \<and> length operands < 2 then
            Inl (MalformedConditionError (''condition.and_or_require_at_least_two_operands:'' @ nat_str (length operands)))
          else Inr (BooleanComposition o' operands))"

section \<open>Serialization\<close>

fun cond_to_dict :: "cond \<Rightarrow> pyval" where
  "cond_to_dict (Comparison fname op v) =
     PyDict [(''node'', PyStr ''comparison''), (''fact'', PyStr fname), (''op'', PyStr op), (''value'', v)]"
| "cond_to_dict (SetMembership fname op vs) =
     PyDict [(''node'', PyStr ''set_membership''), (''fact'', PyStr fname), (''op'', PyStr op), (''values'', PyList vs)]"
| "cond_to_dict (BooleanComposition op operands) =
     PyDict [(''node'', PyStr ''boolean''), (''op'', PyStr op), (''operands'', PyList (map cond_to_dict operands))]"

text \<open>
  The operands of a Boolean node are iterated; the characters of a string or the keys of a
  \<open>dict\<close> are strings, on which the recursive call raises.
\<close>

definition operand_values :: "pyval \<Rightarrow> pyval list refusing" where
  "operand_values v =
     (case v of
        PyList xs \<Rightarrow> Inr xs
      | PyStr s \<Rightarrow> (if s = [] then Inr [] else Inl PyAttributeError)
      | PyDict d \<Rightarrow> (if d = [] then Inr [] else Inl PyAttributeError)
      | _ \<Rightarrow> Inl PyTypeError)"

lemma operand_values_size:
  "item data k = Inr v \<Longrightarrow> operand_values v = Inr xs \<Longrightarrow> x \<in> set xs \<Longrightarrow> size x < size data"
  by (auto simp: operand_values_def item_list_size split: pyval.splits if_splits)

function (sequential) cond_from_dict :: "pyval \<Rightarrow> cond refusing" where
  "cond_from_dict data =
     bind_sum (get_item data ''node'') (\<lambda>kind.
       if kind = PyStr ''comparison'' then
         bind_sum (item data ''fact'') (\<lambda>fname. bind_sum (item data ''op'') (\<lambda>op.
           bind_sum (item data ''value'') (\<lambda>v. build_comparison fname op v)))
       else if kind = PyStr ''set_membership'' then
         bind_sum (item data ''fact'') (\<lambda>fname. bind_sum (item data ''op'') (\<lambda>op.
           bind_sum (item data ''values'') (\<lambda>v. bind_sum (py_tuple v) (\<lambda>vs. build_set_membership fname op vs))))
       else if kind = PyStr ''boolean'' then
         bind_sum (item data ''op'') (\<lambda>op. bind_sum (item data ''operands'') (\<lambda>v.
           bind_sum (operand_values v) (\<lambda>xs. bind_sum (mapm cond_from_dict xs) (\<lambda>cs. build_boolean op cs))))
       else Inl (MalformedConditionError (''condition.unknown_node_type:'' @ py_repr data)))"
  by pat_completeness auto
termination
  by (relation "measure size") (auto intro: operand_values_size)

declare cond_from_dict.simps [simp del]

section \<open>Well-formed conditions\<close>

text \<open>What the constructors guarantee of a built condition.\<close>

fun built_cond :: "cond \<Rightarrow> bool" where
  "built_cond (Comparison fname op v) \<longleftrightarrow> fname \<noteq> [] \<and> op \<in> set comparison_ops \<and> is_scalar v"
| "built_cond (SetMembership fname op vs) \<longleftrightarrow> fname \<noteq> [] \<and> op \<in> set set_ops \<and> vs \<noteq> [] \<and> list_all is_scalar vs"
| "built_cond (BooleanComposition op operands) \<longleftrightarrow> op \<in> set bool_ops
     \<and> (if op = ''not'' then length operands = 1 else 2 \<le> length operands) \<and> list_all built_cond operands"

lemma validate_scalar_ok [simp]: "validate_scalar v = Inr u \<longleftrightarrow> is_scalar v"
  by (simp add: validate_scalar_def)

lemma mapm_validate_scalarD: "mapm validate_scalar vs = Inr us \<Longrightarrow> list_all is_scalar vs"
  by (induction vs arbitrary: us) (auto simp: validate_scalar_def split: sum.splits if_splits)

lemma mapm_validate_scalar: "list_all is_scalar vs \<Longrightarrow> mapm validate_scalar vs = Inr (map (\<lambda>_. ()) vs)"
  by (induction vs) (auto simp: validate_scalar_def)

lemma build_comparison_built: "build_comparison fname op v = Inr c \<Longrightarrow> built_cond c"
  by (auto simp: build_comparison_def validate_fact_name_def split: sum.splits option.splits)

lemma build_set_membership_built: "build_set_membership fname op vs = Inr c \<Longrightarrow> built_cond c"
  by (auto simp: build_set_membership_def validate_fact_name_def dest: mapm_validate_scalarD
      split: sum.splits option.splits if_splits)

lemma build_boolean_built: "build_boolean op cs = Inr c \<Longrightarrow> list_all built_cond cs \<Longrightarrow> built_cond c"
  by (auto simp: build_boolean_def split: option.splits if_splits)

lemma cond_from_dict_built: "cond_from_dict data = Inr c \<Longrightarrow> built_cond c"
proof (induction data arbitrary: c rule: measure_induct_rule [where f = size])
  case (less data)
  from less.prems obtain kind where kind: "get_item data ''node'' = Inr kind"
    by (subst (asm) cond_from_dict.simps) (auto split: sum.splits)
  have "\<exists>fname op v. build_comparison fname op v = Inr c" if "kind = PyStr ''comparison''"
    using less.prems kind that by (subst (asm) cond_from_dict.simps) (auto split: sum.splits)
  moreover have "\<exists>fname op vs. build_set_membership fname op vs = Inr c" if "kind = PyStr ''set_membership''"
    using less.prems kind that by (subst (asm) cond_from_dict.simps) (auto split: sum.splits)
  moreover have "built_cond c" if "kind = PyStr ''boolean''"
  proof -
    from less.prems kind that obtain op v xs cs where b: "item data ''operands'' = Inr v"
        "operand_values v = Inr xs" "mapm cond_from_dict xs = Inr cs" "build_boolean op cs = Inr c"
      by (subst (asm) cond_from_dict.simps) (auto split: sum.splits)
    have "\<forall>y \<in> set cs. built_cond y"
      by (rule mapm_all [OF b(3)]) (rule less.IH [OF operand_values_size [OF b(1,2)]])
    with b(4) show ?thesis by (intro build_boolean_built) (simp_all add: list_all_iff)
  qed
  moreover have "kind = PyStr ''comparison'' \<or> kind = PyStr ''set_membership'' \<or> kind = PyStr ''boolean''"
    using less.prems kind by (subst (asm) cond_from_dict.simps) (auto split: if_splits)
  ultimately show ?case by (auto intro: build_comparison_built build_set_membership_built)
qed

theorem cond_round_trip: "built_cond c \<Longrightarrow> cond_from_dict (cond_to_dict c) = Inr c"
proof (induction c)
  case (Comparison fname op v)
  then show ?case
    by (simp add: cond_from_dict.simps build_comparison_def validate_fact_name_def validate_scalar_def)
next
  case (SetMembership fname op vs)
  then have "mapm validate_scalar vs = Inr (map (\<lambda>_. ()) vs)" by (simp add: mapm_validate_scalar)
  with SetMembership show ?case
    by (simp add: cond_from_dict.simps build_set_membership_def validate_fact_name_def)
next
  case (BooleanComposition op operands)
  then have "mapm cond_from_dict (map cond_to_dict operands) = Inr operands"
    by (intro mapm_ok) (auto simp: list_all_iff)
  with BooleanComposition.prems show ?case
    by (subst cond_from_dict.simps) (auto simp: operand_values_def build_boolean_def split: if_splits)
qed

end
