(* ===== verification/SgpeDocument.thy ===== *)
theory SgpeDocument
  imports SgpeCondition
begin

text \<open>
  Rules, policy documents and the vocabulary (\<open>sgpe/rule.py\<close>, \<open>sgpe/document.py\<close>,
  \<open>sgpe/vocabulary.py\<close>). Arguments the code requires to be built objects (a target, an
  effect, a provenance, a header, rules) are typed as such; all other arguments are values
  and are validated. A \<open>frozenset\<close> of terms is a set; the message of a refused term set names
  the axis only, since the code reports whichever term it meets first.
\<close>

section \<open>Rules\<close>

definition effect_kinds :: "string list" where
  "effect_kinds = [''ALLOW'', ''DENY'', ''REQUIRE_APPROVAL'', ''LIMIT'']"

record effect =
  ef_kind :: string
  ef_value :: pyval

definition build_effect :: "pyval \<Rightarrow> pyval \<Rightarrow> effect refusing" where
  "build_effect kind v =
     (case among effect_kinds kind of
        None \<Rightarrow> Inl (MalformedEffectError (''rule.unknown_effect_kind:'' @ py_repr kind))
      | Some k \<Rightarrow>
          if k = ''LIMIT'' \<and> v = PyNone then Inl (MalformedEffectError ''rule.limit_requires_a_value'')
          else if k \<noteq> ''LIMIT'' \<and> v \<noteq> PyNone then
            Inl (MalformedEffectError (''rule.non_limit_effect_carries_a_value:'' @ py_repr kind @ '':'' @ py_repr v))
          else Inr \<lparr>ef_kind = k, ef_value = v\<rparr>)"

record target =
  tg_domain :: string
  tg_operation :: string
  tg_selector :: string

definition target_part :: "string \<Rightarrow> pyval \<Rightarrow> string refusing" where
  "target_part label v =
     (case as_name v of
        None \<Rightarrow> Inl (MalformedTargetError (''rule.bad_'' @ label @ '':'' @ py_repr v))
      | Some s \<Rightarrow> Inr s)"

definition build_target :: "pyval \<Rightarrow> pyval \<Rightarrow> pyval \<Rightarrow> target refusing" where
  "build_target d op sel =
     bind_sum (target_part ''domain'' d) (\<lambda>d'. bind_sum (target_part ''operation'' op) (\<lambda>op'.
       bind_sum (target_part ''resource_selector'' sel) (\<lambda>sel'.
         Inr \<lparr>tg_domain = d', tg_operation = op', tg_selector = sel'\<rparr>)))"

record rule =
  ru_id :: string
  ru_target :: target
  ru_effect :: effect
  ru_cond :: "cond option"
  ru_final :: bool

definition build_rule :: "pyval \<Rightarrow> target \<Rightarrow> effect \<Rightarrow> cond option \<Rightarrow> pyval \<Rightarrow> rule refusing" where
  "build_rule rid t e c fin =
     (case as_name rid of
        None \<Rightarrow> Inl (MalformedRuleError (''rule.bad_rule_id:'' @ py_repr rid))
      | Some s \<Rightarrow>
          (case fin of
             PyBool b \<Rightarrow> Inr \<lparr>ru_id = s, ru_target = t, ru_effect = e, ru_cond = c, ru_final = b\<rparr>
           | _ \<Rightarrow> Inl (MalformedRuleError (''rule.final_not_bool:'' @ py_repr fin))))"

definition effect_to_dict :: "effect \<Rightarrow> pyval" where
  "effect_to_dict e = PyDict [(''kind'', PyStr (ef_kind e)), (''value'', ef_value e)]"

definition effect_from_dict :: "pyval \<Rightarrow> effect refusing" where
  "effect_from_dict data =
     bind_sum (item data ''kind'') (\<lambda>k. bind_sum (get_item data ''value'') (\<lambda>v. build_effect k v))"

definition target_to_dict :: "target \<Rightarrow> pyval" where
  "target_to_dict t = PyDict [(''domain'', PyStr (tg_domain t)), (''operation'', PyStr (tg_operation t)),
     (''resource_selector'', PyStr (tg_selector t))]"

definition target_from_dict :: "pyval \<Rightarrow> target refusing" where
  "target_from_dict data =
     bind_sum (item data ''domain'') (\<lambda>d. bind_sum (item data ''operation'') (\<lambda>op.
       bind_sum (item data ''resource_selector'') (\<lambda>sel. build_target d op sel)))"

definition opt_cond_to_dict :: "cond option \<Rightarrow> pyval" where
  "opt_cond_to_dict c = (case c of None \<Rightarrow> PyNone | Some c' \<Rightarrow> cond_to_dict c')"

definition rule_to_dict :: "rule \<Rightarrow> pyval" where
  "rule_to_dict r = PyDict [(''rule_id'', PyStr (ru_id r)), (''target'', target_to_dict (ru_target r)),
     (''effect'', effect_to_dict (ru_effect r)), (''condition'', opt_cond_to_dict (ru_cond r)),
     (''final'', PyBool (ru_final r))]"

definition opt_cond_from :: "pyval \<Rightarrow> cond option refusing" where
  "opt_cond_from v = (if v = PyNone then Inr None else bind_sum (cond_from_dict v) (\<lambda>c. Inr (Some c)))"

definition rule_from_dict :: "pyval \<Rightarrow> rule refusing" where
  "rule_from_dict data =
     bind_sum (get_item data ''condition'') (\<lambda>cv. bind_sum (opt_cond_from cv) (\<lambda>c.
       bind_sum (item data ''rule_id'') (\<lambda>rid.
       bind_sum (item data ''target'') (\<lambda>tv. bind_sum (target_from_dict tv) (\<lambda>t.
       bind_sum (item data ''effect'') (\<lambda>ev. bind_sum (effect_from_dict ev) (\<lambda>e.
         build_rule rid t e c
           (case item data ''final'' of Inl _ \<Rightarrow> PyBool False | Inr f \<Rightarrow> f))))))))"

section \<open>Documents\<close>

definition scopes :: "string list" where
  "scopes = [''system'', ''project'', ''user'']"

record provenance =
  pv_author :: string
  pv_timestamp :: pyval
  pv_reason :: string

definition build_provenance :: "pyval \<Rightarrow> pyval \<Rightarrow> pyval \<Rightarrow> provenance refusing" where
  "build_provenance author ts reason =
     (case as_name author of
        None \<Rightarrow> Inl (MalformedProvenanceError (''document.bad_author_principal:'' @ py_repr author))
      | Some a \<Rightarrow>
          if ts = PyNone then Inl (MalformedProvenanceError ''document.missing_authoring_timestamp'')
          else (case as_name reason of
                  None \<Rightarrow> Inl (MalformedProvenanceError (''document.bad_reason:'' @ py_repr reason))
                | Some r \<Rightarrow> Inr \<lparr>pv_author = a, pv_timestamp = ts, pv_reason = r\<rparr>))"

record header =
  hd_scope :: string
  hd_name :: string
  hd_refs :: "string list"
  hd_prov :: provenance
  hd_vocab :: int
  hd_schema :: pyval

definition domain_ref :: "pyval \<Rightarrow> string refusing" where
  "domain_ref d =
     (case as_name d of
        None \<Rightarrow> Inl (MalformedHeaderError (''document.bad_domain_ref:'' @ py_repr d))
      | Some s \<Rightarrow> Inr s)"

text \<open>\<open>schema_version not in (1,)\<close>: \<open>True\<close> equals 1.\<close>

definition build_header :: "pyval \<Rightarrow> pyval \<Rightarrow> pyval list \<Rightarrow> provenance \<Rightarrow> pyval \<Rightarrow> pyval \<Rightarrow> header refusing" where
  "build_header scope name refs prov vv sv =
     (case among scopes scope of
        None \<Rightarrow> Inl (MalformedHeaderError (''document.unknown_scope:'' @ py_repr scope))
      | Some s \<Rightarrow>
     (case as_name name of
        None \<Rightarrow> Inl (MalformedHeaderError (''document.bad_name:'' @ py_repr name))
      | Some n \<Rightarrow> bind_sum (mapm domain_ref refs) (\<lambda>ds.
     (case as_count vv of
        None \<Rightarrow> Inl (MalformedHeaderError (''document.bad_vocabulary_version:'' @ py_repr vv))
      | Some v \<Rightarrow>
          if v < 1 then Inl (MalformedHeaderError (''document.bad_vocabulary_version:'' @ py_repr vv))
          else if \<not> py_eq sv (PyInt 1) then
            Inl (MalformedHeaderError (''document.unknown_schema_version:'' @ py_repr sv))
          else Inr \<lparr>hd_scope = s, hd_name = n, hd_refs = ds, hd_prov = prov, hd_vocab = v, hd_schema = sv\<rparr>))))"

record document =
  do_header :: header
  do_rules :: "rule list"

text \<open>The loop over the rules, with the identifiers seen so far.\<close>

fun duplicate_id :: "string list \<Rightarrow> rule list \<Rightarrow> string option" where
  "duplicate_id seen [] = None"
| "duplicate_id seen (r # rs) = (if ru_id r \<in> set seen then Some (ru_id r) else duplicate_id (ru_id r # seen) rs)"

definition build_document :: "header \<Rightarrow> rule list \<Rightarrow> document refusing" where
  "build_document h rs =
     (case duplicate_id [] rs of
        Some i \<Rightarrow> Inl (DuplicateRuleIdError (''document.duplicate_rule_id:'' @ i))
      | None \<Rightarrow> Inr \<lparr>do_header = h, do_rules = rs\<rparr>)"

type_synonym doc_id = "string \<times> string"

definition doc_id_of :: "document \<Rightarrow> doc_id" where
  "doc_id_of d = (hd_scope (do_header d), hd_name (do_header d))"

definition provenance_to_dict :: "provenance \<Rightarrow> pyval" where
  "provenance_to_dict p = PyDict [(''author_principal'', PyStr (pv_author p)),
     (''authoring_timestamp'', pv_timestamp p), (''reason'', PyStr (pv_reason p))]"

definition provenance_from_dict :: "pyval \<Rightarrow> provenance refusing" where
  "provenance_from_dict data =
     bind_sum (item data ''author_principal'') (\<lambda>a. bind_sum (item data ''authoring_timestamp'') (\<lambda>t.
       bind_sum (item data ''reason'') (\<lambda>r. build_provenance a t r)))"

definition header_to_dict :: "header \<Rightarrow> pyval" where
  "header_to_dict h = PyDict [(''scope'', PyStr (hd_scope h)), (''name'', PyStr (hd_name h)),
     (''domain_refs'', PyList (map PyStr (hd_refs h))), (''provenance'', provenance_to_dict (hd_prov h)),
     (''vocabulary_version'', PyInt (hd_vocab h)), (''schema_version'', hd_schema h)]"

definition header_from_dict :: "pyval \<Rightarrow> header refusing" where
  "header_from_dict data =
     bind_sum (item data ''scope'') (\<lambda>s. bind_sum (item data ''name'') (\<lambda>n.
       bind_sum (item data ''domain_refs'') (\<lambda>rv. bind_sum (py_tuple rv) (\<lambda>refs.
       bind_sum (item data ''provenance'') (\<lambda>pv. bind_sum (provenance_from_dict pv) (\<lambda>p.
       bind_sum (item data ''vocabulary_version'') (\<lambda>vv. bind_sum (item data ''schema_version'') (\<lambda>sv.
         build_header s n refs p vv sv))))))))"

definition document_to_dict :: "document \<Rightarrow> pyval" where
  "document_to_dict d = PyDict [(''header'', header_to_dict (do_header d)),
     (''rules'', PyList (map rule_to_dict (do_rules d)))]"

text \<open>
  The rules are iterated; the characters of a string or the keys of a \<open>dict\<close> have no
  \<open>get\<close>, so \<open>operand_values\<close> describes the iteration here too.
\<close>

definition document_from_dict :: "pyval \<Rightarrow> document refusing" where
  "document_from_dict data =
     bind_sum (item data ''header'') (\<lambda>hv. bind_sum (header_from_dict hv) (\<lambda>h.
       bind_sum (item data ''rules'') (\<lambda>v. bind_sum (operand_values v) (\<lambda>xs.
         bind_sum (mapm rule_from_dict xs) (\<lambda>rs. build_document h rs)))))"

text \<open>The canonical text of a document, and its SHA-256, which is a parameter.\<close>

type_synonym digest_fn = "string \<Rightarrow> string"

definition canonical :: "document \<Rightarrow> string" where
  "canonical d = json_dumps (document_to_dict d)"

definition document_hash :: "digest_fn \<Rightarrow> document \<Rightarrow> string" where
  "document_hash sha d = sha (canonical d)"

section \<open>The vocabulary\<close>

definition initial_domains :: "string list" where
  "initial_domains = [''execution'', ''plugin'', ''filesystem'', ''repository'', ''network'', ''shell'', ''model'',
     ''token-budget'', ''context-limit'', ''resource-limit'', ''retry-limit'', ''persistence'', ''approval'']"

record vocabulary =
  vo_version :: int
  vo_domains :: "string set"
  vo_operations :: "string set"
  vo_facts :: "string set"

definition term_set :: "string \<Rightarrow> pyval list \<Rightarrow> string set refusing" where
  "term_set label ts =
     (if \<not> list_all (\<lambda>t. hash_key t \<noteq> None) ts then Inl PyTypeError
      else case opt_all (map as_name ts) of
        None \<Rightarrow> Inl (VocabularyRefusal (''vocabulary.bad_'' @ label @ ''_term''))
      | Some names \<Rightarrow> Inr (set names))"

definition build_vocabulary :: "pyval \<Rightarrow> pyval list \<Rightarrow> pyval list \<Rightarrow> pyval list \<Rightarrow> vocabulary refusing" where
  "build_vocabulary version ds ops fs =
     (case as_count version of
        None \<Rightarrow> Inl (VocabularyRefusal (''vocabulary.bad_version:'' @ py_repr version))
      | Some v \<Rightarrow>
          if v < 1 then Inl (VocabularyRefusal (''vocabulary.bad_version:'' @ py_repr version))
          else bind_sum (term_set ''domains'' ds) (\<lambda>d.
            if d = {} then Inl (VocabularyRefusal ''vocabulary.empty_domains'')
            else bind_sum (term_set ''operations'' ops) (\<lambda>o'. bind_sum (term_set ''fact_names'' fs) (\<lambda>f.
              Inr \<lparr>vo_version = v, vo_domains = d, vo_operations = o', vo_facts = f\<rparr>))))"

definition default_v1 :: "vocabulary refusing" where
  "default_v1 = build_vocabulary (PyInt 1) (map PyStr initial_domains) [] []"

definition axis :: "string \<Rightarrow> pyval list option \<Rightarrow> string set \<Rightarrow> string set refusing" where
  "axis label proposed current =
     (case proposed of None \<Rightarrow> Inr current | Some ts \<Rightarrow> term_set label ts)"

definition axis_kept :: "string \<Rightarrow> string set \<Rightarrow> string set \<Rightarrow> unit refusing" where
  "axis_kept label current proposed =
     (if current \<subseteq> proposed then Inr ()
      else Inl (VocabularyRefusal (''vocabulary.not_additive:'' @ label @ '':removed_or_renamed=''
        @ py_repr (PyList (map PyStr (sorted_list_of_set (current - proposed)))))))"

definition evolve_vocabulary ::
  "vocabulary \<Rightarrow> pyval list option \<Rightarrow> pyval list option \<Rightarrow> pyval list option \<Rightarrow> vocabulary refusing" where
  "evolve_vocabulary v ds ops fs =
     bind_sum (axis ''domains'' ds (vo_domains v)) (\<lambda>d.
     bind_sum (axis ''operations'' ops (vo_operations v)) (\<lambda>o'.
     bind_sum (axis ''fact_names'' fs (vo_facts v)) (\<lambda>f.
     bind_sum (axis_kept ''domains'' (vo_domains v) d) (\<lambda>_.
     bind_sum (axis_kept ''operations'' (vo_operations v) o') (\<lambda>_.
     bind_sum (axis_kept ''fact_names'' (vo_facts v) f) (\<lambda>_.
       if d = vo_domains v \<and> o' = vo_operations v \<and> f = vo_facts v then
         Inl (VocabularyRefusal (''vocabulary.no_new_terms:version='' @ int_str (vo_version v)))
       else Inr \<lparr>vo_version = vo_version v + 1, vo_domains = d, vo_operations = o', vo_facts = f\<rparr>))))))"

definition term_list :: "string set \<Rightarrow> pyval" where
  "term_list ts = PyList (map PyStr (sorted_list_of_set ts))"

definition vocabulary_to_dict :: "vocabulary \<Rightarrow> pyval" where
  "vocabulary_to_dict v = PyDict [(''version'', PyInt (vo_version v)), (''domains'', term_list (vo_domains v)),
     (''operations'', term_list (vo_operations v)), (''fact_names'', term_list (vo_facts v))]"

definition vocabulary_from_dict :: "pyval \<Rightarrow> vocabulary refusing" where
  "vocabulary_from_dict data =
     bind_sum (item data ''version'') (\<lambda>ver.
     bind_sum (item data ''domains'') (\<lambda>dv. bind_sum (py_tuple dv) (\<lambda>ds.
     bind_sum (item data ''operations'') (\<lambda>ov. bind_sum (py_tuple ov) (\<lambda>ops.
     bind_sum (item data ''fact_names'') (\<lambda>fv. bind_sum (py_tuple fv) (\<lambda>fs.
       build_vocabulary ver ds ops fs)))))))"

section \<open>What the constructors guarantee\<close>

definition built_effect :: "effect \<Rightarrow> bool" where
  "built_effect e \<longleftrightarrow> ef_kind e \<in> set effect_kinds \<and> (ef_kind e = ''LIMIT'' \<longleftrightarrow> ef_value e \<noteq> PyNone)"

definition built_target :: "target \<Rightarrow> bool" where
  "built_target t \<longleftrightarrow> tg_domain t \<noteq> [] \<and> tg_operation t \<noteq> [] \<and> tg_selector t \<noteq> []"

definition built_rule :: "rule \<Rightarrow> bool" where
  "built_rule r \<longleftrightarrow> ru_id r \<noteq> [] \<and> built_target (ru_target r) \<and> built_effect (ru_effect r)
     \<and> (case ru_cond r of None \<Rightarrow> True | Some c \<Rightarrow> built_cond c)"

definition built_provenance :: "provenance \<Rightarrow> bool" where
  "built_provenance p \<longleftrightarrow> pv_author p \<noteq> [] \<and> pv_timestamp p \<noteq> PyNone \<and> pv_reason p \<noteq> []"

definition built_header :: "header \<Rightarrow> bool" where
  "built_header h \<longleftrightarrow> hd_scope h \<in> set scopes \<and> hd_name h \<noteq> [] \<and> list_all (\<lambda>d. d \<noteq> []) (hd_refs h)
     \<and> built_provenance (hd_prov h) \<and> 1 \<le> hd_vocab h \<and> py_eq (hd_schema h) (PyInt 1)"

definition built_document :: "document \<Rightarrow> bool" where
  "built_document d \<longleftrightarrow> built_header (do_header d) \<and> list_all built_rule (do_rules d)
     \<and> distinct (map ru_id (do_rules d))"

definition built_vocabulary :: "vocabulary \<Rightarrow> bool" where
  "built_vocabulary v \<longleftrightarrow> 1 \<le> vo_version v \<and> vo_domains v \<noteq> {}
     \<and> finite (vo_domains v) \<and> finite (vo_operations v) \<and> finite (vo_facts v)
     \<and> [] \<notin> vo_domains v \<union> vo_operations v \<union> vo_facts v"

lemma build_effect_built: "build_effect k v = Inr e \<Longrightarrow> built_effect e"
  by (auto simp: build_effect_def built_effect_def split: option.splits if_splits)

lemma build_target_built: "build_target d op sel = Inr t \<Longrightarrow> built_target t"
  by (auto simp: build_target_def target_part_def built_target_def split: option.splits sum.splits)

lemma build_rule_built:
  "build_rule rid t e c fin = Inr r \<Longrightarrow> built_target t \<Longrightarrow> built_effect e \<Longrightarrow>
     (case c of None \<Rightarrow> True | Some c' \<Rightarrow> built_cond c') \<Longrightarrow> built_rule r"
  by (auto simp: build_rule_def built_rule_def split: option.splits pyval.splits)

lemma build_provenance_built: "build_provenance a t r = Inr p \<Longrightarrow> built_provenance p"
  by (auto simp: build_provenance_def built_provenance_def split: option.splits if_splits)

lemma mapm_domain_ref_built: "mapm domain_ref refs = Inr ds \<Longrightarrow> list_all (\<lambda>d. d \<noteq> []) ds"
  unfolding list_all_iff
  by (erule mapm_all) (auto simp: domain_ref_def split: option.splits)

lemma build_header_built:
  assumes "build_header s n refs p vv sv = Inr h" and "built_provenance p"
  shows "built_header h"
proof -
  from assms(1) obtain s' n' ds v where h: "among scopes s = Some s'" "as_name n = Some n'"
      "mapm domain_ref refs = Inr ds" "as_count vv = Some v" "\<not> v < 1" "py_eq sv (PyInt 1)"
      "h = \<lparr>hd_scope = s', hd_name = n', hd_refs = ds, hd_prov = p, hd_vocab = v, hd_schema = sv\<rparr>"
    unfolding build_header_def
    by (cases "among scopes s"; cases "as_name n"; cases "mapm domain_ref refs"; cases "as_count vv")
      (simp_all split: if_splits del: among_Some as_name_Some as_count_Some)
  with mapm_domain_ref_built [OF h(3)] assms(2) show ?thesis by (simp add: built_header_def)
qed

lemma duplicate_id_None: "duplicate_id seen rs = None \<longleftrightarrow> distinct (map ru_id rs) \<and> set seen \<inter> ru_id ` set rs = {}"
  by (induction rs arbitrary: seen) auto

lemma build_document_built:
  "build_document h rs = Inr d \<Longrightarrow> built_header h \<Longrightarrow> list_all built_rule rs \<Longrightarrow> built_document d"
  by (auto simp: build_document_def built_document_def duplicate_id_None split: option.splits)

lemma opt_cond_from_built:
  "opt_cond_from v = Inr c \<Longrightarrow> case c of None \<Rightarrow> True | Some c' \<Rightarrow> built_cond c'"
  by (auto simp: opt_cond_from_def intro: cond_from_dict_built split: if_splits sum.splits)

lemma target_from_dict_built: "target_from_dict v = Inr t \<Longrightarrow> built_target t"
  by (auto simp: target_from_dict_def intro: build_target_built split: sum.splits)

lemma effect_from_dict_built: "effect_from_dict v = Inr t \<Longrightarrow> built_effect t"
  by (auto simp: effect_from_dict_def intro: build_effect_built split: sum.splits)

lemma provenance_from_dict_built: "provenance_from_dict v = Inr t \<Longrightarrow> built_provenance t"
  by (auto simp: provenance_from_dict_def intro: build_provenance_built split: sum.splits)

lemma rule_from_dict_built:
  assumes "rule_from_dict v = Inr r"
  shows "built_rule r"
proof -
  from assms obtain cv c rid tv t ev e fin where
    "opt_cond_from cv = Inr c" "target_from_dict tv = Inr t" "effect_from_dict ev = Inr e"
    "build_rule rid t e c fin = Inr r"
    unfolding rule_from_dict_def by (auto split: sum.splits)
  then show ?thesis
    by (meson build_rule_built target_from_dict_built effect_from_dict_built opt_cond_from_built)
qed

lemma header_from_dict_built: "header_from_dict v = Inr t \<Longrightarrow> built_header t"
  by (auto simp: header_from_dict_def intro: build_header_built provenance_from_dict_built split: sum.splits)

theorem document_from_dict_built:
  assumes "document_from_dict v = Inr d"
  shows "built_document d"
proof -
  from assms obtain hv h xs rs where d: "header_from_dict hv = Inr h" "mapm rule_from_dict xs = Inr rs"
    "build_document h rs = Inr d"
    by (auto simp: document_from_dict_def split: sum.splits)
  have "\<forall>r \<in> set rs. built_rule r"
    by (rule mapm_all [OF d(2)]) (rule rule_from_dict_built)
  then show ?thesis
    using build_document_built [OF d(3) header_from_dict_built [OF d(1)]] by (simp add: list_all_iff)
qed

section \<open>Round trips\<close>

lemma effect_round_trip: "built_effect e \<Longrightarrow> effect_from_dict (effect_to_dict e) = Inr e"
  by (auto simp: effect_from_dict_def effect_to_dict_def build_effect_def built_effect_def)

lemma target_round_trip: "built_target t \<Longrightarrow> target_from_dict (target_to_dict t) = Inr t"
  by (simp add: target_from_dict_def target_to_dict_def build_target_def target_part_def built_target_def)

lemma cond_to_dict_not_None [simp]: "cond_to_dict c \<noteq> PyNone"
  by (cases c) simp_all

lemma opt_cond_round_trip:
  "(case c of None \<Rightarrow> True | Some c' \<Rightarrow> built_cond c') \<Longrightarrow> opt_cond_from (opt_cond_to_dict c) = Inr c"
  by (auto simp: opt_cond_from_def opt_cond_to_dict_def cond_round_trip split: option.splits)

lemma rule_round_trip: "built_rule r \<Longrightarrow> rule_from_dict (rule_to_dict r) = Inr r"
  by (simp add: rule_from_dict_def rule_to_dict_def built_rule_def opt_cond_round_trip
      target_round_trip effect_round_trip build_rule_def)

lemma provenance_round_trip: "built_provenance p \<Longrightarrow> provenance_from_dict (provenance_to_dict p) = Inr p"
  by (simp add: provenance_from_dict_def provenance_to_dict_def build_provenance_def built_provenance_def)

lemma mapm_domain_ref: "list_all (\<lambda>d. d \<noteq> []) ds \<Longrightarrow> mapm domain_ref (map PyStr ds) = Inr ds"
  by (rule mapm_ok) (simp add: domain_ref_def list_all_iff)

lemma header_round_trip: "built_header h \<Longrightarrow> header_from_dict (header_to_dict h) = Inr h"
  by (simp add: header_from_dict_def header_to_dict_def build_header_def built_header_def
      provenance_round_trip mapm_domain_ref)

theorem document_round_trip:
  assumes "built_document d"
  shows "document_from_dict (document_to_dict d) = Inr d"
proof -
  have "mapm rule_from_dict (map rule_to_dict (do_rules d)) = Inr (do_rules d)"
    using assms by (intro mapm_ok rule_round_trip) (simp add: built_document_def list_all_iff)
  moreover have "duplicate_id [] (do_rules d) = None"
    using assms by (simp add: built_document_def duplicate_id_None)
  ultimately show ?thesis using assms
    by (simp add: document_from_dict_def document_to_dict_def header_round_trip built_document_def
        operand_values_def build_document_def)
qed

lemma opt_all_names: "(\<forall>n \<in> set ns. n \<noteq> []) \<Longrightarrow> opt_all (map (as_name \<circ> PyStr) ns) = Some ns"
  by (induction ns) auto

lemma term_set_sorted:
  "finite ts \<Longrightarrow> [] \<notin> ts \<Longrightarrow> term_set label (map PyStr (sorted_list_of_set ts)) = Inr ts"
proof -
  assume "finite ts" and "[] \<notin> ts"
  moreover from this have "\<forall>n \<in> set (sorted_list_of_set ts). n \<noteq> []" by auto
  ultimately show ?thesis
    using opt_all_names [of "sorted_list_of_set ts"] by (simp add: term_set_def list_all_iff comp_def)
qed

lemma vocabulary_round_trip: "built_vocabulary v \<Longrightarrow> vocabulary_from_dict (vocabulary_to_dict v) = Inr v"
  by (simp add: vocabulary_from_dict_def vocabulary_to_dict_def build_vocabulary_def built_vocabulary_def
      term_list_def term_set_sorted)

text \<open>A vocabulary evolves by adding terms only, one version at a time.\<close>

lemma evolve_vocabulary_additive:
  "evolve_vocabulary v ds ops fs = Inr w \<Longrightarrow> vo_version w = vo_version v + 1
     \<and> vo_domains v \<subseteq> vo_domains w \<and> vo_operations v \<subseteq> vo_operations w \<and> vo_facts v \<subseteq> vo_facts w"
  by (auto simp: evolve_vocabulary_def axis_kept_def split: sum.splits if_splits)

end
