(* ===== verification/SgpeStore.thy ===== *)
theory SgpeStore
  imports SgpeDocument BlobPort BusPort "HOL-Library.Product_Lexorder"
begin

text \<open>
  The policy store: the event canon (\<open>sgpe/events.py\<close>), the catalog (\<open>sgpe/catalog.py\<close>),
  snapshot manifests and activation facts (\<open>sgpe/manifest.py\<close>) and the store over them
  (\<open>sgpe/store.py\<close>). The storage handle is the \<open>write\<close> of a namespace, the bus is optional;
  both live in a world that every append threads. An append writes to storage, then changes
  the store, then announces, so a failing announcement leaves the append in place.

  A document identifier is a pair of strings and a version an integer, as the typed records of
  the code have them. A replayed log entry that breaks this is not followed further: its
  result is the constructor \<open>Unmodelled\<close> below.
\<close>

section \<open>Events\<close>

record ('s, 'b) world =
  wd_store :: 's
  wd_bus :: "'b option"

definition published_events :: "string list" where
  "published_events = [''policy.authored'', ''policy.deprecated'', ''policy.compiled'', ''policy.rejected'',
     ''policy.activated'', ''policy.decided'', ''policy.illposed'', ''grant.recorded'', ''grant.revoked'']"

definition build_policy_event :: "string \<Rightarrow> string \<Rightarrow> string \<Rightarrow> pyval \<Rightarrow> pyval refusing" where
  "build_policy_event name eid subject p =
     (if name \<notin> set published_events then
        Inl (EventRefusal (''events.unknown_event:'' @ name))
      else (case p of
        PyDict d \<Rightarrow> Inr (PyDict [(''event_name'', PyStr name), (''event_id'', PyStr eid),
          (''subject_ref'', PyStr subject), (''payload'', PyDict d)])
      | _ \<Rightarrow> Inl (EventRefusal (''events.payload_not_a_mapping:'' @ py_repr p))))"

text \<open>\<open>if bus is not None: emit(...)\<close>.\<close>

definition emit_policy_event ::
  "'b publisher \<Rightarrow> 'b option \<Rightarrow> string \<Rightarrow> string \<Rightarrow> string \<Rightarrow> pyval \<Rightarrow> 'b option \<times> unit refusing" where
  "emit_policy_event pub bus name eid subject p =
     (case bus of
        None \<Rightarrow> (None, Inr ())
      | Some b \<Rightarrow>
          (case build_policy_event name eid subject p of
             Inl e \<Rightarrow> (Some b, Inl e)
           | Inr env \<Rightarrow>
               (case pub b name env of (b', ok) \<Rightarrow> (Some b', if ok then Inr () else Inl BusDown))))"

section \<open>Manifests and activation facts\<close>

record manifest =
  mf_version :: int
  mf_position :: int
  mf_vocab :: int
  mf_ruleset :: int
  mf_refs :: "(doc_id \<times> int) list"
  mf_hash :: string

definition checked_count :: "string \<Rightarrow> int \<Rightarrow> pyval \<Rightarrow> int refusing" where
  "checked_count label least v =
     (case as_count v of
        None \<Rightarrow> Inl (MalformedManifestError (''manifest.bad_'' @ label @ '':'' @ py_repr v))
      | Some i \<Rightarrow>
          if i < least then Inl (MalformedManifestError (''manifest.bad_'' @ label @ '':'' @ py_repr v)) else Inr i)"

definition build_manifest ::
  "pyval \<Rightarrow> pyval \<Rightarrow> pyval \<Rightarrow> pyval \<Rightarrow> (doc_id \<times> int) list \<Rightarrow> pyval \<Rightarrow> manifest refusing" where
  "build_manifest sv pos vv rv refs h =
     bind_sum (checked_count ''snapshot_version'' 1 sv) (\<lambda>s.
     bind_sum (checked_count ''catalog_position'' 0 pos) (\<lambda>p.
     bind_sum (checked_count ''vocabulary_version'' 1 vv) (\<lambda>v.
     bind_sum (checked_count ''compiler_ruleset_version'' 1 rv) (\<lambda>r.
       case as_name h of
         None \<Rightarrow> Inl (MalformedManifestError (''manifest.bad_content_hash:'' @ py_repr h))
       | Some h' \<Rightarrow> Inr \<lparr>mf_version = s, mf_position = p, mf_vocab = v, mf_ruleset = r, mf_refs = refs, mf_hash = h'\<rparr>))))"

record activation =
  av_previous :: "int option"
  av_version :: int

definition build_activation :: "pyval \<Rightarrow> pyval \<Rightarrow> activation refusing" where
  "build_activation prev v =
     (if prev \<noteq> PyNone \<and> as_count prev = None then
        Inl (MalformedActivationFactError (''activation.bad_previous_snapshot_version:'' @ py_repr prev))
      else (case as_count v of
        None \<Rightarrow> Inl (MalformedActivationFactError (''activation.bad_snapshot_version:'' @ py_repr v))
      | Some i \<Rightarrow>
          if i < 1 then Inl (MalformedActivationFactError (''activation.bad_snapshot_version:'' @ py_repr v))
          else Inr \<lparr>av_previous = as_count prev, av_version = i\<rparr>))"

definition doc_id_list :: "doc_id \<Rightarrow> pyval" where
  "doc_id_list did = PyList [PyStr (fst did), PyStr (snd did)]"

definition repr_doc_id :: "doc_id \<Rightarrow> string" where
  "repr_doc_id did = ''('' @ repr_str (fst did) @ '', '' @ repr_str (snd did) @ '')''"

definition repr_ref :: "doc_id \<times> int \<Rightarrow> string" where
  "repr_ref r = ''('' @ repr_doc_id (fst r) @ '', '' @ int_str (snd r) @ '')''"

definition ref_list :: "doc_id \<times> int \<Rightarrow> pyval" where
  "ref_list r = PyList [doc_id_list (fst r), PyInt (snd r)]"

definition manifest_to_dict :: "manifest \<Rightarrow> pyval" where
  "manifest_to_dict m = PyDict [(''snapshot_version'', PyInt (mf_version m)),
     (''catalog_position'', PyInt (mf_position m)), (''vocabulary_version'', PyInt (mf_vocab m)),
     (''compiler_ruleset_version'', PyInt (mf_ruleset m)),
     (''document_refs'', PyList (map ref_list (mf_refs m))), (''content_hash'', PyStr (mf_hash m))]"

definition Unmodelled :: sgpe_exn where
  "Unmodelled = StoreRefusal ''unmodelled log entry''"

definition doc_id_from :: "pyval \<Rightarrow> doc_id refusing" where
  "doc_id_from v = (case v of PyList [PyStr s, PyStr n] \<Rightarrow> Inr (s, n) | _ \<Rightarrow> Inl Unmodelled)"

definition int_from :: "pyval \<Rightarrow> int refusing" where
  "int_from v = (case v of PyInt i \<Rightarrow> Inr i | _ \<Rightarrow> Inl Unmodelled)"

definition ref_from :: "pyval \<Rightarrow> (doc_id \<times> int) refusing" where
  "ref_from v =
     (case v of
        PyList [d, i] \<Rightarrow> bind_sum (doc_id_from d) (\<lambda>did. bind_sum (int_from i) (\<lambda>n. Inr (did, n)))
      | _ \<Rightarrow> Inl Unmodelled)"

definition manifest_from_dict :: "pyval \<Rightarrow> manifest refusing" where
  "manifest_from_dict data =
     bind_sum (item data ''document_refs'') (\<lambda>rv. bind_sum (py_tuple rv) (\<lambda>rs.
     bind_sum (mapm ref_from rs) (\<lambda>refs.
     bind_sum (item data ''snapshot_version'') (\<lambda>sv. bind_sum (item data ''catalog_position'') (\<lambda>p.
     bind_sum (item data ''vocabulary_version'') (\<lambda>vv. bind_sum (item data ''compiler_ruleset_version'') (\<lambda>cv.
     bind_sum (item data ''content_hash'') (\<lambda>h. build_manifest sv p vv cv refs h))))))))"

definition opt_int :: "int option \<Rightarrow> pyval" where
  "opt_int i = (case i of None \<Rightarrow> PyNone | Some n \<Rightarrow> PyInt n)"

definition activation_to_dict :: "activation \<Rightarrow> pyval" where
  "activation_to_dict a = PyDict [(''previous_snapshot_version'', opt_int (av_previous a)),
     (''snapshot_version'', PyInt (av_version a))]"

definition activation_from_dict :: "pyval \<Rightarrow> activation refusing" where
  "activation_from_dict data =
     bind_sum (item data ''previous_snapshot_version'') (\<lambda>p. bind_sum (item data ''snapshot_version'') (\<lambda>v.
       build_activation p v))"

section \<open>The catalog\<close>

definition entry_kinds :: "string list" where
  "entry_kinds = [''document_version'', ''vocabulary_version'', ''deprecation'', ''manifest'', ''activation'']"

record deprecation =
  dp_doc :: doc_id
  dp_version :: int
  dp_prov :: provenance

datatype cat_payload =
    DocumentVersion doc_id int document
  | VocabularyVersion vocabulary
  | DeprecationMark deprecation
  | ManifestFact manifest
  | ActivationFact activation

record cat_entry =
  ce_position :: nat
  ce_kind :: string
  ce_payload :: cat_payload
  ce_dict :: pyval

definition catalog_append ::
  "'s blob_writer \<Rightarrow> 's \<Rightarrow> cat_entry list \<Rightarrow> string \<Rightarrow> cat_payload \<Rightarrow> pyval \<Rightarrow> 's \<times> cat_entry refusing" where
  "catalog_append wr s entries kind p d =
     (if kind \<notin> set entry_kinds then (s, Inl (CatalogRefusal (''catalog.unknown_entry_kind:'' @ repr_str kind)))
      else
        let pos = length entries + 1;
            doc = PyDict [(''position'', PyInt (int pos)), (''kind'', PyStr kind), (''payload'', d)]
        in case wr s (''sgpe/catalog/'' @ nat_str pos) (json_dumps doc) of
             (s', Inl e) \<Rightarrow> (s', Inl StorageDown)
           | (s', Inr outcome) \<Rightarrow>
               if outcome = ''rejected'' then (s', Inl (CatalogRefusal (''catalog.append_rejected:'' @ nat_str pos)))
               else if outcome \<noteq> ''committed'' then
                 (s', Inl (CatalogRefusal (''catalog.unknown_storage_outcome:'' @ repr_str outcome)))
               else (s', Inr \<lparr>ce_position = pos, ce_kind = kind, ce_payload = p, ce_dict = doc\<rparr>))"

definition by_position :: "cat_entry list \<Rightarrow> int \<Rightarrow> cat_entry option" where
  "by_position entries pos =
     (if pos < 1 \<or> int (length entries) < pos then None else Some (entries ! nat (pos - 1)))"

definition catalog_as_of :: "cat_entry list \<Rightarrow> int \<Rightarrow> string option \<Rightarrow> cat_entry list" where
  "catalog_as_of entries pos kind =
     filter (\<lambda>e. int (ce_position e) \<le> pos \<and> (case kind of None \<Rightarrow> True | Some k \<Rightarrow> ce_kind e = k)) entries"

section \<open>The store\<close>

record policy_store =
  ps_catalog :: "cat_entry list"
  ps_versions :: "(doc_id, int) dict"
  ps_content :: "(doc_id \<times> int, document) dict"
  ps_hash :: "(doc_id \<times> int, string) dict"
  ps_deprecated :: "(doc_id \<times> int) set"
  ps_vocabs :: "(int, vocabulary) dict"
  ps_vocab :: int
  ps_manifests :: "manifest list"
  ps_activations :: "activation list"

definition empty_policy_store :: policy_store where
  "empty_policy_store = \<lparr>ps_catalog = [], ps_versions = [], ps_content = [], ps_hash = [], ps_deprecated = {},
     ps_vocabs = [], ps_vocab = 0, ps_manifests = [], ps_activations = []\<rparr>"

definition deprecation_to_dict :: "deprecation \<Rightarrow> pyval" where
  "deprecation_to_dict m = PyDict [(''target_doc_id'', doc_id_list (dp_doc m)),
     (''target_version'', PyInt (dp_version m)), (''provenance'', provenance_to_dict (dp_prov m))]"

definition deprecation_from_dict :: "pyval \<Rightarrow> deprecation refusing" where
  "deprecation_from_dict data =
     bind_sum (item data ''target_doc_id'') (\<lambda>d. bind_sum (doc_id_from d) (\<lambda>did.
     bind_sum (item data ''target_version'') (\<lambda>v. bind_sum (int_from v) (\<lambda>n.
     bind_sum (item data ''provenance'') (\<lambda>p. bind_sum (provenance_from_dict p) (\<lambda>pv.
       Inr \<lparr>dp_doc = did, dp_version = n, dp_prov = pv\<rparr>))))))"

definition document_payload :: "doc_id \<Rightarrow> int \<Rightarrow> document \<Rightarrow> pyval" where
  "document_payload did version doc = PyDict [(''doc_id'', doc_id_list did), (''version'', PyInt version),
     (''document'', document_to_dict doc)]"

text \<open>One append to the catalog of the store.\<close>

type_synonym ('s, 'b) stored = "('s, 'b) world \<times> policy_store"

definition store_append ::
  "'s blob_writer \<Rightarrow> ('s, 'b) stored \<Rightarrow> string \<Rightarrow> cat_payload \<Rightarrow> pyval \<Rightarrow> ('s, 'b) stored \<times> cat_entry refusing" where
  "store_append wr ws kind p d =
     (case ws of (w, st) \<Rightarrow>
        (case catalog_append wr (wd_store w) (ps_catalog st) kind p d of
           (s', Inl e) \<Rightarrow> ((w\<lparr>wd_store := s'\<rparr>, st), Inl e)
         | (s', Inr entry) \<Rightarrow> ((w\<lparr>wd_store := s'\<rparr>, st\<lparr>ps_catalog := ps_catalog st @ [entry]\<rparr>), Inr entry)))"

definition announce ::
  "'b publisher \<Rightarrow> ('s, 'b) stored \<Rightarrow> cat_entry \<Rightarrow> string \<Rightarrow> string \<Rightarrow> string \<Rightarrow> pyval
     \<Rightarrow> ('s, 'b) stored \<times> cat_entry refusing" where
  "announce pub ws entry name eid subject p =
     (case ws of (w, st) \<Rightarrow>
        (case emit_policy_event pub (wd_bus w) name eid subject p of
           (b', Inl e) \<Rightarrow> ((w\<lparr>wd_bus := b'\<rparr>, st), Inl e)
         | (b', Inr _) \<Rightarrow> ((w\<lparr>wd_bus := b'\<rparr>, st), Inr entry)))"

definition current_version :: "policy_store \<Rightarrow> doc_id \<Rightarrow> int" where
  "current_version st did = (case dget (ps_versions st) did of None \<Rightarrow> 0 | Some v \<Rightarrow> v)"

definition document_event :: "doc_id \<Rightarrow> int \<Rightarrow> cat_entry \<Rightarrow> pyval" where
  "document_event did version entry = PyDict [(''doc_id'', doc_id_list did), (''version'', PyInt version),
     (''catalog_position'', PyInt (int (ce_position entry)))]"

definition apply_document_version ::
  "digest_fn \<Rightarrow> 's blob_writer \<Rightarrow> 'b publisher \<Rightarrow> ('s, 'b) stored \<Rightarrow> doc_id \<Rightarrow> int \<Rightarrow> document
     \<Rightarrow> ('s, 'b) stored \<times> cat_entry refusing" where
  "apply_document_version sha wr pub ws did version doc =
     (if version \<noteq> current_version (snd ws) did + 1 then
        (ws, Inl (StoreRefusal (''store.non_monotonic_version:'' @ repr_doc_id did @ '':expected=''
          @ int_str (current_version (snd ws) did + 1) @ '':got='' @ int_str version)))
      else (case store_append wr ws ''document_version'' (DocumentVersion did version doc) (document_payload did version doc) of
        (ws', Inl e) \<Rightarrow> (ws', Inl e)
      | ((w', st'), Inr entry) \<Rightarrow>
          announce pub (w', st'\<lparr>ps_versions := dset did version (ps_versions st'),
              ps_content := dset (did, version) doc (ps_content st'),
              ps_hash := dset (did, version) (document_hash sha doc) (ps_hash st')\<rparr>) entry
            ''policy.authored'' (''authored:'' @ fst did @ '':'' @ snd did @ '':'' @ int_str version)
            (fst did @ ''/'' @ snd did) (document_event did version entry)))"

definition append_document ::
  "digest_fn \<Rightarrow> 's blob_writer \<Rightarrow> 'b publisher \<Rightarrow> ('s, 'b) stored \<Rightarrow> document \<Rightarrow> bool
     \<Rightarrow> ('s, 'b) stored \<times> cat_entry refusing" where
  "append_document sha wr pub ws doc expect_new =
     (let st = snd ws; did = doc_id_of doc in
      if dget (ps_vocabs st) (hd_vocab (do_header doc)) = None then
        (ws, Inl (StoreRefusal (''store.unknown_vocabulary_version:'' @ int_str (hd_vocab (do_header doc)))))
      else if expect_new \<and> current_version st did \<noteq> 0 then (ws, Inl (StoreRefusal (''store.identity_collision:'' @ repr_doc_id did)))
      else apply_document_version sha wr pub ws did (current_version st did + 1) doc)"

definition document_version :: "policy_store \<Rightarrow> doc_id \<Rightarrow> int \<Rightarrow> document option" where
  "document_version st did version = dget (ps_content st) (did, version)"

definition latest_version :: "policy_store \<Rightarrow> doc_id \<Rightarrow> int option" where
  "latest_version st did = dget (ps_versions st) did"

definition stored_hash :: "policy_store \<Rightarrow> doc_id \<Rightarrow> int \<Rightarrow> string option" where
  "stored_hash st did version = dget (ps_hash st) (did, version)"

definition is_deprecated :: "policy_store \<Rightarrow> doc_id \<Rightarrow> int \<Rightarrow> bool" where
  "is_deprecated st did version \<longleftrightarrow> (did, version) \<in> ps_deprecated st"

definition vocabulary_lineage :: "policy_store \<Rightarrow> vocabulary \<Rightarrow> unit refusing" where
  "vocabulary_lineage st v =
     (if ps_vocab st = 0 then
        (if vo_version v \<noteq> 1 then
           Inl (StoreRefusal (''store.vocabulary_must_start_at_1:got='' @ int_str (vo_version v)))
         else Inr ())
      else (case dget (ps_vocabs st) (ps_vocab st) of
        None \<Rightarrow> Inl PyLookupError
      | Some current \<Rightarrow>
          if vo_version v \<noteq> vo_version current + 1 then
            Inl (StoreRefusal (''store.non_monotonic_vocabulary_version:expected='' @ int_str (vo_version current + 1)
              @ '':got='' @ int_str (vo_version v)))
          else if \<not> (vo_domains current \<subseteq> vo_domains v \<and> vo_operations current \<subseteq> vo_operations v
              \<and> vo_facts current \<subseteq> vo_facts v) then Inl (VocabularyRefusal ''store.vocabulary_not_additive'')
          else Inr ()))"

definition append_vocabulary ::
  "'s blob_writer \<Rightarrow> ('s, 'b) stored \<Rightarrow> vocabulary \<Rightarrow> ('s, 'b) stored \<times> cat_entry refusing" where
  "append_vocabulary wr ws v =
     (case vocabulary_lineage (snd ws) v of
        Inl e \<Rightarrow> (ws, Inl e)
      | Inr _ \<Rightarrow>
          (case store_append wr ws ''vocabulary_version'' (VocabularyVersion v) (vocabulary_to_dict v) of
             (ws', Inl e) \<Rightarrow> (ws', Inl e)
           | ((w', st'), Inr entry) \<Rightarrow>
               ((w', st'\<lparr>ps_vocabs := dset (vo_version v) v (ps_vocabs st'), ps_vocab := vo_version v\<rparr>), Inr entry)))"

definition vocabulary_of :: "policy_store \<Rightarrow> int option \<Rightarrow> vocabulary option" where
  "vocabulary_of st version = dget (ps_vocabs st) (case version of None \<Rightarrow> ps_vocab st | Some v \<Rightarrow> v)"

definition apply_deprecation ::
  "'s blob_writer \<Rightarrow> 'b publisher \<Rightarrow> ('s, 'b) stored \<Rightarrow> deprecation \<Rightarrow> ('s, 'b) stored \<times> cat_entry refusing" where
  "apply_deprecation wr pub ws m =
     (case store_append wr ws ''deprecation'' (DeprecationMark m) (deprecation_to_dict m) of
        (ws', Inl e) \<Rightarrow> (ws', Inl e)
      | ((w', st'), Inr entry) \<Rightarrow>
          announce pub (w', st'\<lparr>ps_deprecated := insert (dp_doc m, dp_version m) (ps_deprecated st')\<rparr>) entry
            ''policy.deprecated''
            (''deprecated:'' @ fst (dp_doc m) @ '':'' @ snd (dp_doc m) @ '':'' @ int_str (dp_version m))
            (fst (dp_doc m) @ ''/'' @ snd (dp_doc m)) (document_event (dp_doc m) (dp_version m) entry))"

definition append_deprecation ::
  "'s blob_writer \<Rightarrow> 'b publisher \<Rightarrow> ('s, 'b) stored \<Rightarrow> doc_id \<Rightarrow> int \<Rightarrow> provenance
     \<Rightarrow> ('s, 'b) stored \<times> cat_entry refusing" where
  "append_deprecation wr pub ws did version prov =
     (if dget (ps_content (snd ws)) (did, version) = None then
        (ws, Inl (StoreRefusal (''store.unknown_document_version:'' @ repr_ref (did, version))))
      else apply_deprecation wr pub ws \<lparr>dp_doc = did, dp_version = version, dp_prov = prov\<rparr>)"

definition append_manifest ::
  "'s blob_writer \<Rightarrow> ('s, 'b) stored \<Rightarrow> manifest \<Rightarrow> ('s, 'b) stored \<times> cat_entry refusing" where
  "append_manifest wr ws m =
     (case find (\<lambda>r. dget (ps_content (snd ws)) r = None) (mf_refs m) of
        Some r \<Rightarrow> (ws, Inl (StoreRefusal (''store.manifest_cites_unknown_document_version:'' @ repr_ref r)))
      | None \<Rightarrow> (case store_append wr ws ''manifest'' (ManifestFact m) (manifest_to_dict m) of
        (ws', Inl e) \<Rightarrow> (ws', Inl e)
      | ((w', st'), Inr entry) \<Rightarrow> ((w', st'\<lparr>ps_manifests := ps_manifests st' @ [m]\<rparr>), Inr entry)))"

definition append_activation ::
  "'s blob_writer \<Rightarrow> ('s, 'b) stored \<Rightarrow> activation \<Rightarrow> ('s, 'b) stored \<times> cat_entry refusing" where
  "append_activation wr ws a =
     (case store_append wr ws ''activation'' (ActivationFact a) (activation_to_dict a) of
        (ws', Inl e) \<Rightarrow> (ws', Inl e)
      | ((w', st'), Inr entry) \<Rightarrow> ((w', st'\<lparr>ps_activations := ps_activations st' @ [a]\<rparr>), Inr entry))"

text \<open>The latest version of each document in a catalog prefix, sorted.\<close>

definition catalog_position :: "policy_store \<Rightarrow> int" where
  "catalog_position st = int (length (ps_catalog st))"

definition note_latest :: "(doc_id, int \<times> document) dict \<Rightarrow> cat_entry \<Rightarrow> (doc_id, int \<times> document) dict" where
  "note_latest latest e =
     (case ce_payload e of DocumentVersion did version doc \<Rightarrow> dset did (version, doc) latest | _ \<Rightarrow> latest)"

definition documents_as_of :: "policy_store \<Rightarrow> int \<Rightarrow> string option \<Rightarrow> string option \<Rightarrow> (doc_id \<times> int) list" where
  "documents_as_of st pos scope domn =
     sort (map (\<lambda>(did, version, doc). (did, version))
       (filter (\<lambda>(did, version, doc).
           (case scope of None \<Rightarrow> True | Some s \<Rightarrow> fst did = s)
           \<and> (case domn of None \<Rightarrow> True | Some d \<Rightarrow> d \<in> set (hd_refs (do_header doc))))
         (foldl note_latest [] (catalog_as_of (ps_catalog st) pos (Some ''document_version'')))))"

definition vocabulary_as_of :: "policy_store \<Rightarrow> int \<Rightarrow> vocabulary option" where
  "vocabulary_as_of st pos =
     (case catalog_as_of (ps_catalog st) pos (Some ''vocabulary_version'') of
        [] \<Rightarrow> None
      | es \<Rightarrow> (case ce_payload (last es) of VocabularyVersion v \<Rightarrow> Some v | _ \<Rightarrow> None))"

section \<open>Replay\<close>

definition export_catalog :: "policy_store \<Rightarrow> pyval list" where
  "export_catalog st = map ce_dict (ps_catalog st)"

definition ignore_entry :: "'w \<times> 'a refusing \<Rightarrow> sgpe_exn + 'w" where
  "ignore_entry r = (case r of (w, Inl e) \<Rightarrow> Inl e | (w, Inr _) \<Rightarrow> Inr w)"

definition replay_entry ::
  "digest_fn \<Rightarrow> 's blob_writer \<Rightarrow> 'b publisher \<Rightarrow> ('s, 'b) stored \<Rightarrow> pyval \<Rightarrow> sgpe_exn + ('s, 'b) stored" where
  "replay_entry sha wr pub ws rec =
     bind_sum (item rec ''kind'') (\<lambda>kind. bind_sum (item rec ''payload'') (\<lambda>p.
       if kind = PyStr ''document_version'' then
         bind_sum (item p ''doc_id'') (\<lambda>d. bind_sum (doc_id_from d) (\<lambda>did.
         bind_sum (item p ''document'') (\<lambda>dv. bind_sum (document_from_dict dv) (\<lambda>doc.
         bind_sum (item p ''version'') (\<lambda>v. bind_sum (int_from v) (\<lambda>version.
           ignore_entry (apply_document_version sha wr pub ws did version doc)))))))
       else if kind = PyStr ''vocabulary_version'' then
         bind_sum (vocabulary_from_dict p) (\<lambda>v. ignore_entry (append_vocabulary wr ws v))
       else if kind = PyStr ''deprecation'' then
         bind_sum (deprecation_from_dict p) (\<lambda>m. ignore_entry (apply_deprecation wr pub ws m))
       else if kind = PyStr ''manifest'' then
         bind_sum (manifest_from_dict p) (\<lambda>m. ignore_entry (append_manifest wr ws m))
       else if kind = PyStr ''activation'' then
         bind_sum (activation_from_dict p) (\<lambda>a. ignore_entry (append_activation wr ws a))
       else Inl (StoreRefusal (''store.replay_unknown_kind:'' @ py_repr kind))))"

definition rebuild_catalog ::
  "digest_fn \<Rightarrow> 's blob_writer \<Rightarrow> 'b publisher \<Rightarrow> ('s, 'b) world \<Rightarrow> pyval list \<Rightarrow> sgpe_exn + ('s, 'b) stored" where
  "rebuild_catalog sha wr pub w log = foldm (replay_entry sha wr pub) (w, empty_policy_store) log"

end
