(* ===== verification/SgpeCompiler.thy ===== *)
theory SgpeCompiler
  imports SgpeStore "HOL-Library.Option_ord"
begin

text \<open>
  The admission compiler (\<open>sgpe/compiler.py\<close>): from a catalog position to a snapshot whose
  entries are totally decided, or to a rejection with its findings. Conditions hold scalars, as
  their constructors guarantee, so collecting their values in a set cannot raise; a header's
  scope is one of the three and an effect's kind one of the four, so the two rank tables always
  have an entry. The section sign in two messages is the character 0xA7.
\<close>

section \<open>Findings, reports, snapshots\<close>

type_synonym citation = "doc_id \<times> int \<times> string option"

record finding =
  fi_stage :: string
  fi_severity :: string
  fi_class :: "string option"
  fi_code :: string
  fi_message :: string
  fi_citations :: "citation list"
  fi_witness :: pyval

record compile_report =
  cr_outcome :: string
  cr_position :: int
  cr_vocab :: int
  cr_ruleset :: pyval
  cr_echo :: "(doc_id \<times> int) list"
  cr_errors :: "finding list"
  cr_warnings :: "finding list"
  cr_hash :: "string option"

record index_entry =
  ie_domain :: string
  ie_operation :: string
  ie_scope :: string
  ie_selector :: string
  ie_kind :: string
  ie_value :: pyval
  ie_cond :: "cond option"
  ie_final :: bool
  ie_citation :: citation
  ie_decided :: "string list"
  ie_shadows :: "citation list"

record compiled_snapshot =
  sn_position :: int
  sn_vocab :: int
  sn_ruleset :: pyval
  sn_refs :: "(doc_id \<times> int) list"
  sn_entries :: "index_entry list"
  sn_facts :: "((string \<times> string) \<times> string list) list"
  sn_hash :: string

record compile_result =
  co_outcome :: string
  co_report :: compile_report
  co_snapshot :: "compiled_snapshot option"

fun repr_tuple :: "string list \<Rightarrow> string" where
  "repr_tuple [] = ''()''"
| "repr_tuple [x] = ''('' @ x @ '',)''"
| "repr_tuple (x # y # xs) = ''('' @ join_with '', '' (x # y # xs) @ '')''"

definition opt_name :: "string option \<Rightarrow> pyval" where
  "opt_name s = (case s of None \<Rightarrow> PyNone | Some x \<Rightarrow> PyStr x)"

definition repr_citation :: "citation \<Rightarrow> string" where
  "repr_citation c = (case c of (did, v, rid) \<Rightarrow> repr_tuple [repr_doc_id did, int_str v, py_repr (opt_name rid)])"

definition finding_sort_key :: "finding \<Rightarrow> string \<times> string \<times> string \<times> string \<times> string \<times> string" where
  "finding_sort_key f = (fi_stage f, fi_severity f, fi_code f, repr_tuple (map repr_citation (fi_citations f)),
     py_repr (fi_witness f), fi_message f)"

definition sort_findings :: "finding list \<Rightarrow> finding list" where
  "sort_findings fs = sort_key finding_sort_key fs"

definition citation_to_list :: "citation \<Rightarrow> pyval" where
  "citation_to_list c = (case c of (did, v, rid) \<Rightarrow> PyList [doc_id_list did, PyInt v, opt_name rid])"

definition finding_to_dict :: "finding \<Rightarrow> pyval" where
  "finding_to_dict f = PyDict [(''stage'', PyStr (fi_stage f)), (''severity'', PyStr (fi_severity f)),
     (''error_class'', opt_name (fi_class f)), (''code'', PyStr (fi_code f)), (''message'', PyStr (fi_message f)),
     (''citations'', PyList (map citation_to_list (fi_citations f))), (''witness'', fi_witness f)]"

definition report_to_dict :: "compile_report \<Rightarrow> pyval" where
  "report_to_dict r = PyDict [(''outcome'', PyStr (cr_outcome r)), (''catalog_position'', PyInt (cr_position r)),
     (''vocabulary_version'', PyInt (cr_vocab r)), (''compiler_ruleset_version'', cr_ruleset r),
     (''manifest_echo'', PyList (map ref_list (cr_echo r))), (''errors'', PyList (map finding_to_dict (cr_errors r))),
     (''warnings'', PyList (map finding_to_dict (cr_warnings r))), (''content_hash'', opt_name (cr_hash r))]"

definition entry_to_dict :: "index_entry \<Rightarrow> pyval" where
  "entry_to_dict e = PyDict [(''domain'', PyStr (ie_domain e)), (''operation'', PyStr (ie_operation e)),
     (''scope'', PyStr (ie_scope e)), (''resource_selector'', PyStr (ie_selector e)),
     (''effect_kind'', PyStr (ie_kind e)), (''effect_value'', ie_value e),
     (''condition'', opt_cond_to_dict (ie_cond e)), (''final'', PyBool (ie_final e)),
     (''citation'', citation_to_list (ie_citation e)), (''decided_by'', PyList (map PyStr (ie_decided e))),
     (''shadows'', PyList (map citation_to_list (ie_shadows e)))]"

definition facts_list :: "((string \<times> string) \<times> string list) list \<Rightarrow> pyval" where
  "facts_list fs = PyList (map (\<lambda>(key, names). PyList [PyList [PyStr (fst key), PyStr (snd key)],
     PyList (map PyStr names)]) fs)"

definition snapshot_body ::
  "int \<Rightarrow> int \<Rightarrow> pyval \<Rightarrow> (doc_id \<times> int) list \<Rightarrow> index_entry list
     \<Rightarrow> ((string \<times> string) \<times> string list) list \<Rightarrow> pyval" where
  "snapshot_body pos vv rv refs es fs = PyDict [(''catalog_position'', PyInt pos), (''vocabulary_version'', PyInt vv),
     (''compiler_ruleset_version'', rv), (''document_refs'', PyList (map ref_list refs)),
     (''entries'', PyList (map entry_to_dict es)), (''declared_facts'', facts_list fs)]"

definition snapshot_to_dict :: "compiled_snapshot \<Rightarrow> pyval" where
  "snapshot_to_dict s = snapshot_body (sn_position s) (sn_vocab s) (sn_ruleset s) (sn_refs s) (sn_entries s) (sn_facts s)"

section \<open>Overlap\<close>

definition selectors_overlap :: "string \<Rightarrow> string \<Rightarrow> bool" where
  "selectors_overlap a b \<longleftrightarrow> a = b \<or> a = ''*'' \<or> b = ''*''"

definition overlap_witness_selector :: "string \<Rightarrow> string \<Rightarrow> string" where
  "overlap_witness_selector a b = (if a = b then a else if a = ''*'' then b else a)"

datatype endpoint = NegInf | Fin int | PosInf

fun bound_less :: "endpoint \<Rightarrow> endpoint \<Rightarrow> bool" where
  "bound_less NegInf b = (b \<noteq> NegInf)"
| "bound_less (Fin i) b = (case b of NegInf \<Rightarrow> False | Fin j \<Rightarrow> i < j | PosInf \<Rightarrow> True)"
| "bound_less PosInf b = False"

text \<open>Lower end, whether it is open, upper end, whether it is open.\<close>

type_synonym interval = "endpoint \<times> bool \<times> endpoint \<times> bool"

definition interval :: "string \<Rightarrow> int \<Rightarrow> interval" where
  "interval op v =
     (if op = ''lt'' then (NegInf, True, Fin v, True)
      else if op = ''lte'' then (NegInf, True, Fin v, False)
      else if op = ''gt'' then (Fin v, True, PosInf, True)
      else (Fin v, False, PosInf, True))"

definition intervals_disjoint :: "interval \<Rightarrow> interval \<Rightarrow> bool" where
  "intervals_disjoint a b =
     (case (a, b) of ((lo_a, lo_a_open, hi_a, hi_a_open), (lo_b, lo_b_open, hi_b, hi_b_open)) \<Rightarrow>
        bound_less hi_a lo_b \<or> (hi_a = lo_b \<and> (hi_a_open \<or> lo_b_open))
        \<or> bound_less hi_b lo_a \<or> (hi_b = lo_a \<and> (hi_b_open \<or> lo_a_open)))"

definition range_ops :: "string list" where
  "range_ops = [''lt'', ''lte'', ''gt'', ''gte'']"

text \<open>A set of scalars holds them under their hash keys.\<close>

fun finite_constraint :: "cond \<Rightarrow> (string \<times> pyval set) option" where
  "finite_constraint (Comparison fname op v) =
     (if op = ''eq'' then Some (''in'', {hkey v}) else if op = ''ne'' then Some (''not_in'', {hkey v}) else None)"
| "finite_constraint (SetMembership fname op vs) = Some (op, set (map hkey vs))"
| "finite_constraint _ = None"

fun range_of :: "cond \<Rightarrow> interval option" where
  "range_of (Comparison fname op v) =
     (if op \<in> set range_ops then map_option (interval op) (as_count v) else None)"
| "range_of _ = None"

definition same_fact_disjoint :: "cond \<Rightarrow> cond \<Rightarrow> bool" where
  "same_fact_disjoint a b =
     (case (range_of a, range_of b) of
        (Some i, Some j) \<Rightarrow> intervals_disjoint i j
      | _ \<Rightarrow>
          (case (finite_constraint a, finite_constraint b) of
             (Some (ka, va), Some (kb, vb)) \<Rightarrow>
               if ka = ''in'' \<and> kb = ''in'' then va \<inter> vb = {}
               else if ka = ''in'' \<and> kb = ''not_in'' then va \<subseteq> vb
               else if ka = ''not_in'' \<and> kb = ''in'' then vb \<subseteq> va
               else False
           | _ \<Rightarrow> False))"

fun single_fact :: "cond \<Rightarrow> string option" where
  "single_fact (Comparison fname _ _) = Some fname"
| "single_fact (SetMembership fname _ _) = Some fname"
| "single_fact (BooleanComposition _ _) = None"

definition conditions_provably_disjoint :: "cond option \<Rightarrow> cond option \<Rightarrow> bool" where
  "conditions_provably_disjoint ca cb =
     (case (ca, cb) of
        (Some a, Some b) \<Rightarrow>
          (case (single_fact a, single_fact b) of
             (Some fa, Some fb) \<Rightarrow> fa = fb \<and> same_fact_disjoint a b
           | _ \<Rightarrow> False)
      | _ \<Rightarrow> False)"

fun cond_fact_names :: "cond \<Rightarrow> string list" where
  "cond_fact_names (Comparison fname _ _) = [fname]"
| "cond_fact_names (SetMembership fname _ _) = [fname]"
| "cond_fact_names (BooleanComposition _ operands) = concat (map cond_fact_names operands)"

definition walk_fact_names :: "cond option \<Rightarrow> string list" where
  "walk_fact_names c = (case c of None \<Rightarrow> [] | Some c' \<Rightarrow> cond_fact_names c')"

definition effects_equal :: "effect \<Rightarrow> effect \<Rightarrow> bool" where
  "effects_equal a b \<longleftrightarrow> ef_kind a = ef_kind b \<and> py_eq (ef_value a) (ef_value b)"

definition targets_overlap :: "target \<Rightarrow> target \<Rightarrow> bool" where
  "targets_overlap a b \<longleftrightarrow> tg_domain a = tg_domain b \<and> tg_operation a = tg_operation b
     \<and> selectors_overlap (tg_selector a) (tg_selector b)"

section \<open>The checks before conflict detection\<close>

type_synonym assembled = "(doc_id \<times> int \<times> document) list"

text \<open>All rules of the assembled documents, each with its document.\<close>

definition rules_of :: "assembled \<Rightarrow> (doc_id \<times> int \<times> document \<times> rule) list" where
  "rules_of ds = concat (map (\<lambda>(did, v, doc). map (\<lambda>r. (did, v, doc, r)) (do_rules doc)) ds)"

definition error_finding :: "string \<Rightarrow> string \<Rightarrow> string \<Rightarrow> string \<Rightarrow> citation list \<Rightarrow> pyval \<Rightarrow> finding" where
  "error_finding stage cls code msg cs w = \<lparr>fi_stage = stage, fi_severity = ''error'', fi_class = Some cls,
     fi_code = code, fi_message = msg, fi_citations = cs, fi_witness = w\<rparr>"

definition warning_finding :: "string \<Rightarrow> string \<Rightarrow> string \<Rightarrow> citation list \<Rightarrow> pyval \<Rightarrow> finding" where
  "warning_finding stage code msg cs w = \<lparr>fi_stage = stage, fi_severity = ''warning'', fi_class = None,
     fi_code = code, fi_message = msg, fi_citations = cs, fi_witness = w\<rparr>"

definition check_rule_vocabulary :: "vocabulary \<Rightarrow> doc_id \<times> int \<times> document \<times> rule \<Rightarrow> finding list" where
  "check_rule_vocabulary voc x =
     (case x of (did, v, doc, r) \<Rightarrow>
        let cite = [(did, v, Some (ru_id r))]; d = tg_domain (ru_target r); op = tg_operation (ru_target r) in
        if d \<notin> vo_domains voc then
          [error_finding ''vocabulary'' ''corruption'' ''vocabulary_domain_unresolved''
             ''rule targets a domain absent from the compile vocabulary -- impossible under PS-8 additivity; indicates Store-integrity corruption, not an authoring error''
             cite (PyDict [(''domain'', PyStr d)])]
        else
          (if vo_operations voc \<noteq> {} \<and> d @ ''.'' @ op \<notin> vo_operations voc then
             [error_finding ''vocabulary'' ''corruption'' ''vocabulary_operation_unresolved''
                ''rule targets an operation absent from the compile vocabulary''
                cite (PyDict [(''domain'', PyStr d), (''operation'', PyStr op)])]
           else [])
          @ map (\<lambda>f. error_finding ''vocabulary'' ''corruption'' ''vocabulary_fact_unresolved''
                ''rule condition references a fact name absent from the compile vocabulary''
                cite (PyDict [(''fact'', PyStr f)]))
              (filter (\<lambda>f. f \<notin> vo_facts voc) (walk_fact_names (ru_cond r))))"

definition check_vocabulary :: "assembled \<Rightarrow> vocabulary \<Rightarrow> finding list" where
  "check_vocabulary ds voc = sort_findings (concat (map (check_rule_vocabulary voc) (rules_of ds)))"

definition final_illegal :: "assembled \<Rightarrow> finding list" where
  "final_illegal ds = concat (map (\<lambda>(did, v, doc, r).
     if ru_final r \<and> hd_scope (do_header doc) \<noteq> ''system'' then
       [error_finding ''scope_modifier'' ''authoring'' ''final_illegal_scope''
          (''`final` is legal at system scope only (SGPE/00 '' @ [CHR 0xA7] @ ''6)'')
          [(did, v, Some (ru_id r))] (PyDict [(''scope'', PyStr (hd_scope (do_header doc)))])]
     else []) (rules_of ds))"

definition final_contradicted :: "assembled \<Rightarrow> finding list" where
  "final_contradicted ds =
     concat (map (\<lambda>(fdid, fv, fdoc, fr).
       if ru_final fr \<and> hd_scope (do_header fdoc) = ''system'' then
         concat (map (\<lambda>(did, v, doc, r).
           if hd_scope (do_header doc) \<noteq> ''system'' \<and> targets_overlap (ru_target fr) (ru_target r)
               \<and> \<not> effects_equal (ru_effect fr) (ru_effect r) then
             [error_finding ''scope_modifier'' ''authoring'' ''final_contradicted''
                ''a higher-scope rule contradicts a system-scope `final` rule''
                [(fdid, fv, Some (ru_id fr)), (did, v, Some (ru_id r))]
                (PyDict [(''domain'', PyStr (tg_domain (ru_target fr))), (''operation'', PyStr (tg_operation (ru_target fr)))])]
           else []) (rules_of ds))
       else []) (rules_of ds))"

definition check_scope_and_modifier :: "assembled \<Rightarrow> finding list" where
  "check_scope_and_modifier ds =
     (if final_illegal ds \<noteq> [] then sort_findings (final_illegal ds) else sort_findings (final_contradicted ds))"

definition versions_witness :: "document \<Rightarrow> vocabulary \<Rightarrow> pyval" where
  "versions_witness doc voc = PyDict [(''document_vocabulary_version'', PyInt (hd_vocab (do_header doc))),
     (''compile_vocabulary_version'', PyInt (vo_version voc))]"

definition check_dependency :: "assembled \<Rightarrow> vocabulary \<Rightarrow> finding list" where
  "check_dependency ds voc =
     sort_findings (map (\<lambda>(did, v, doc). error_finding ''dependency'' ''corruption'' ''vocabulary_version_ahead_of_compile''
         ''document references a vocabulary version newer than the compile vocabulary -- impossible through the Store's own append checks; indicates Store-integrity corruption''
         [(did, v, None)] (versions_witness doc voc))
       (filter (\<lambda>(did, v, doc). vo_version voc < hd_vocab (do_header doc)) ds))"

text \<open>\<open>operation_term.partition(".")\<close>.\<close>

definition partition_dot :: "string \<Rightarrow> string \<times> string" where
  "partition_dot s = (takeWhile (\<lambda>c. c \<noteq> CHR ''.'') s, drop 1 (dropWhile (\<lambda>c. c \<noteq> CHR ''.'') s))"

definition covered :: "assembled \<Rightarrow> (string \<times> string) set" where
  "covered ds = set (map (\<lambda>(did, v, doc, r). (tg_domain (ru_target r), tg_operation (ru_target r)))
     (filter (\<lambda>(did, v, doc, r). hd_scope (do_header doc) = ''system'' \<and> tg_selector (ru_target r) = ''*'') (rules_of ds)))"

definition check_totality :: "assembled \<Rightarrow> vocabulary \<Rightarrow> finding list" where
  "check_totality ds voc =
     map (\<lambda>t. error_finding ''totality'' ''authoring'' ''totality_gap''
         ''system-default scope has no universal (resource selector '*') rule for this domain/operation -- INV-12 requires the system scope to answer every declared operation''
         [] (PyDict [(''domain'', PyStr (fst (partition_dot t))), (''operation'', PyStr (snd (partition_dot t)))]))
       (filter (\<lambda>t. partition_dot t \<notin> covered ds) (sorted_list_of_set (vo_operations voc)))"

section \<open>Conflict detection\<close>

definition scope_ranks :: "(string, nat) dict" where
  "scope_ranks = [(''system'', 0), (''project'', 1), (''user'', 2)]"

definition scope_rank :: "string \<Rightarrow> nat" where
  "scope_rank s = (case dget scope_ranks s of None \<Rightarrow> 0 | Some n \<Rightarrow> n)"

definition effect_priorities :: "(string, nat) dict" where
  "effect_priorities = [(''DENY'', 3), (''REQUIRE_APPROVAL'', 2), (''ALLOW'', 1)]"

definition effect_priority :: "string \<Rightarrow> nat" where
  "effect_priority k = (case dget effect_priorities k of None \<Rightarrow> 0 | Some n \<Rightarrow> n)"

text \<open>Winner, loser, the rule that decided, and whether anything is eclipsed.\<close>

type_synonym pair_decision = "citation \<times> citation \<times> string \<times> bool"

definition decide_pair ::
  "string \<Rightarrow> effect \<Rightarrow> citation \<Rightarrow> string \<Rightarrow> effect \<Rightarrow> citation \<Rightarrow> pair_decision option" where
  "decide_pair scope_a ea ca scope_b eb cb =
     (if scope_rank scope_a \<noteq> scope_rank scope_b then
        Some (if scope_rank scope_b < scope_rank scope_a then (ca, cb, ''scope-precedence'', True)
              else (cb, ca, ''scope-precedence'', True))
      else if (ef_kind ea = ''LIMIT'') \<noteq> (ef_kind eb = ''LIMIT'') then None
      else if ef_kind ea = ''LIMIT'' then
        (case (as_count (ef_value ea), as_count (ef_value eb)) of
           (Some va, Some vb) \<Rightarrow>
             Some (if va = vb then (ca, cb, ''minimum-limit'', False)
                   else if va < vb then (ca, cb, ''minimum-limit'', True)
                   else (cb, ca, ''minimum-limit'', True))
         | _ \<Rightarrow> None)
      else
        Some (if effect_priority (ef_kind ea) = effect_priority (ef_kind eb) then (ca, cb, ''deny-overrides'', False)
              else if effect_priority (ef_kind eb) < effect_priority (ef_kind ea) then (ca, cb, ''deny-overrides'', True)
              else (cb, ca, ''deny-overrides'', True)))"

record decided_entry =
  de_by :: "string set"
  de_shadows :: "citation set"

type_synonym decisions = "(citation, decided_entry) dict"

definition decided_at :: "decisions \<Rightarrow> citation \<Rightarrow> decided_entry" where
  "decided_at dec c = (case dget dec c of None \<Rightarrow> \<lparr>de_by = {}, de_shadows = {}\<rparr> | Some d \<Rightarrow> d)"

definition record_decision :: "decisions \<Rightarrow> citation \<Rightarrow> string \<Rightarrow> decisions" where
  "record_decision dec c by' =
     dset c ((decided_at dec c)\<lparr>de_by := insert by' (de_by (decided_at dec c))\<rparr>) dec"

definition add_shadow :: "decisions \<Rightarrow> citation \<Rightarrow> citation \<Rightarrow> decisions" where
  "add_shadow dec w l =
     dset w ((decided_at dec w)\<lparr>de_shadows := insert l (de_shadows (decided_at dec w))\<rparr>) dec"

type_synonym cited_rule = "doc_id \<times> int \<times> string \<times> rule"

definition cite :: "cited_rule \<Rightarrow> citation" where
  "cite x = (case x of (did, v, scope, r) \<Rightarrow> (did, v, Some (ru_id r)))"

definition rule_key :: "cited_rule \<Rightarrow> string \<times> string" where
  "rule_key x = (case x of (did, v, scope, r) \<Rightarrow> (tg_domain (ru_target r), tg_operation (ru_target r)))"

definition all_rules :: "assembled \<Rightarrow> cited_rule list" where
  "all_rules ds = sort_key (\<lambda>(did, v, scope, r). (did, v, ru_id r))
     (map (\<lambda>(did, v, doc, r). (did, v, hd_scope (do_header doc), r)) (rules_of ds))"

fun pairs :: "'a list \<Rightarrow> ('a \<times> 'a) list" where
  "pairs [] = []"
| "pairs (x # xs) = map (Pair x) xs @ pairs xs"

definition group_pairs :: "cited_rule list \<Rightarrow> (cited_rule \<times> cited_rule) list" where
  "group_pairs rs =
     concat (map (\<lambda>key. pairs (filter (\<lambda>x. rule_key x = key) rs)) (sort (remdups (map rule_key rs))))"

text \<open>The findings and decisions of the loop over the pairs.\<close>

record conflicts =
  cf_errors :: "finding list"
  cf_decisions :: decisions
  cf_warnings :: "finding list"

definition overlapping :: "rule \<Rightarrow> rule \<Rightarrow> bool" where
  "overlapping ra rb \<longleftrightarrow> selectors_overlap (tg_selector (ru_target ra)) (tg_selector (ru_target rb))
     \<and> \<not> conditions_provably_disjoint (ru_cond ra) (ru_cond rb)"

definition check_pair :: "conflicts \<Rightarrow> cited_rule \<times> cited_rule \<Rightarrow> conflicts" where
  "check_pair cf p =
     (case p of ((da, va, sa, ra), (db, vb, sb, rb)) \<Rightarrow>
        let ca = (da, va, Some (ru_id ra)); cb = (db, vb, Some (ru_id rb)) in
        if \<not> overlapping ra rb then cf
        else (case decide_pair sa (ru_effect ra) ca sb (ru_effect rb) cb of
          None \<Rightarrow> cf\<lparr>cf_errors := cf_errors cf @
            [error_finding ''conflict'' ''authoring'' ''undecidable_conflict''
               (''overlapping rule pair cannot be decided by the SGPE/00 '' @ [CHR 0xA7] @ ''6 three-rule procedure (scope precedence / deny-overrides / minimum-limit)'')
               [ca, cb]
               (PyDict [(''domain'', PyStr (tg_domain (ru_target ra))), (''operation'', PyStr (tg_operation (ru_target ra))),
                 (''resource'', PyStr (overlap_witness_selector (tg_selector (ru_target ra)) (tg_selector (ru_target rb))))])]\<rparr>
        | Some (w, l, by', shadow) \<Rightarrow>
            let dec = record_decision (record_decision (cf_decisions cf) w by') l by' in
            if shadow then
              cf\<lparr>cf_decisions := add_shadow dec w l,
                 cf_warnings := cf_warnings cf @
                   [warning_finding ''conflict'' ''shadowed_by_precedence''
                      ''rule fully eclipsed by precedence -- kept in the snapshot but never wins''
                      [w, l] (PyDict [(''decided_by'', PyStr by')])]\<rparr>
            else cf\<lparr>cf_decisions := dec\<rparr>))"

definition detect_conflicts :: "assembled \<Rightarrow> finding list \<times> decisions \<times> finding list" where
  "detect_conflicts ds =
     (let cf = foldl check_pair \<lparr>cf_errors = [], cf_decisions = [], cf_warnings = []\<rparr> (group_pairs (all_rules ds))
      in (sort_findings (cf_errors cf), cf_decisions cf, sort_findings (cf_warnings cf)))"

section \<open>Construction\<close>

definition check_stale_vocabulary :: "assembled \<Rightarrow> vocabulary \<Rightarrow> finding list" where
  "check_stale_vocabulary ds voc =
     sort_findings (map (\<lambda>(did, v, doc). warning_finding ''construction'' ''stale_vocabulary_version''
         ''document authored against an older vocabulary version than the compile vocabulary''
         [(did, v, None)] (versions_witness doc voc))
       (filter (\<lambda>(did, v, doc). hd_vocab (do_header doc) < vo_version voc) ds))"

definition make_entry :: "decisions \<Rightarrow> doc_id \<times> int \<times> document \<times> rule \<Rightarrow> index_entry" where
  "make_entry dec x =
     (case x of (did, v, doc, r) \<Rightarrow>
        let c = (did, v, Some (ru_id r)) in
        \<lparr>ie_domain = tg_domain (ru_target r), ie_operation = tg_operation (ru_target r),
         ie_scope = hd_scope (do_header doc), ie_selector = tg_selector (ru_target r),
         ie_kind = ef_kind (ru_effect r), ie_value = ef_value (ru_effect r), ie_cond = ru_cond r,
         ie_final = ru_final r, ie_citation = c,
         ie_decided = sorted_list_of_set (de_by (decided_at dec c)),
         ie_shadows = sorted_list_of_set (de_shadows (decided_at dec c))\<rparr>)"

definition declare_facts ::
  "(string \<times> string, string set) dict \<Rightarrow> doc_id \<times> int \<times> document \<times> rule \<Rightarrow> (string \<times> string, string set) dict" where
  "declare_facts fs x =
     (case x of (did, v, doc, r) \<Rightarrow>
        let key = (tg_domain (ru_target r), tg_operation (ru_target r)) in
        dset key ((case dget fs key of None \<Rightarrow> {} | Some s \<Rightarrow> s) \<union> set (walk_fact_names (ru_cond r))) fs)"

definition construct_snapshot ::
  "digest_fn \<Rightarrow> assembled \<Rightarrow> decisions \<Rightarrow> int \<Rightarrow> vocabulary \<Rightarrow> pyval \<Rightarrow> compiled_snapshot" where
  "construct_snapshot sha ds dec pos voc rv =
     (let es = sort_key (\<lambda>e. (ie_domain e, ie_operation e, ie_scope e, ie_selector e, ie_citation e))
                 (map (make_entry dec) (rules_of ds));
          fs = map (\<lambda>(key, names). (key, sorted_list_of_set names))
                 (sort_key fst (foldl declare_facts [] (rules_of ds)));
          refs = map (\<lambda>(did, v, doc). (did, v)) ds
      in \<lparr>sn_position = pos, sn_vocab = vo_version voc, sn_ruleset = rv, sn_refs = refs, sn_entries = es,
          sn_facts = fs, sn_hash = sha (json_dumps (snapshot_body pos (vo_version voc) rv refs es fs))\<rparr>)"

section \<open>The pipeline\<close>

definition assemble_documents :: "policy_store \<Rightarrow> int \<Rightarrow> assembled" where
  "assemble_documents st pos =
     sort_key (\<lambda>(did, v, doc). (did, v))
       (concat (map (\<lambda>(did, v).
           if is_deprecated st did v then []
           else (case document_version st did v of None \<Rightarrow> [] | Some doc \<Rightarrow> [(did, v, doc)]))
         (documents_as_of st pos None None)))"

text \<open>Stages 2 to 7 on the assembled documents: the errors and warnings, and the snapshot.\<close>

definition compile_stages ::
  "digest_fn \<Rightarrow> assembled \<Rightarrow> int \<Rightarrow> vocabulary \<Rightarrow> pyval \<Rightarrow> finding list \<times> finding list \<times> compiled_snapshot option" where
  "compile_stages sha ds pos voc rv =
     (if check_vocabulary ds voc \<noteq> [] then (check_vocabulary ds voc, [], None)
      else if check_scope_and_modifier ds \<noteq> [] then (check_scope_and_modifier ds, [], None)
      else if check_dependency ds voc \<noteq> [] then (check_dependency ds voc, [], None)
      else if check_totality ds voc \<noteq> [] then (check_totality ds voc, [], None)
      else (case detect_conflicts ds of (errors, dec, shadows) \<Rightarrow>
        if errors \<noteq> [] then (errors, shadows, None)
        else ([], shadows @ check_stale_vocabulary ds voc, Some (construct_snapshot sha ds dec pos voc rv))))"

definition finish_compile ::
  "'b publisher \<Rightarrow> 'b option \<Rightarrow> int \<Rightarrow> vocabulary \<Rightarrow> pyval \<Rightarrow> (doc_id \<times> int) list
     \<Rightarrow> finding list \<times> finding list \<times> compiled_snapshot option \<Rightarrow> 'b option \<times> compile_result refusing" where
  "finish_compile pub bus pos voc rv echo r =
     (case r of (errors, warnings, sn) \<Rightarrow>
        let outcome = (if sn = None then ''rejected'' else ''compiled'');
            rep = \<lparr>cr_outcome = outcome, cr_position = pos, cr_vocab = vo_version voc, cr_ruleset = rv,
                   cr_echo = echo, cr_errors = sort_findings errors, cr_warnings = sort_findings warnings,
                   cr_hash = map_option sn_hash sn\<rparr>;
            name = (if sn = None then ''policy.rejected'' else ''policy.compiled'')
        in case emit_policy_event pub bus name (name @ '':'' @ int_str pos @ '':'' @ py_str rv) ''sgpe/compile'' (report_to_dict rep) of
             (bus', Inl e) \<Rightarrow> (bus', Inl e)
           | (bus', Inr _) \<Rightarrow> (bus', Inr \<lparr>co_outcome = outcome, co_report = rep, co_snapshot = sn\<rparr>))"

definition compile_snapshot ::
  "digest_fn \<Rightarrow> 'b publisher \<Rightarrow> 'b option \<Rightarrow> policy_store \<Rightarrow> pyval \<Rightarrow> pyval \<Rightarrow> 'b option \<times> compile_result refusing" where
  "compile_snapshot sha pub bus st position rv =
     (case as_count position of
        None \<Rightarrow> (bus, Inl (CompilerRefusal (''compiler.bad_catalog_position:'' @ py_repr position)))
      | Some pos \<Rightarrow>
          if pos < 0 then (bus, Inl (CompilerRefusal (''compiler.bad_catalog_position:'' @ py_repr position)))
          else if catalog_position st < pos then
            (bus, Inl (CompilerRefusal (''compiler.position_beyond_catalog:'' @ py_repr position)))
          else if \<not> py_eq rv (PyInt 1) then
            (bus, Inl (CompilerRefusal (''compiler.unsupported_ruleset_version:'' @ py_repr rv)))
          else (case vocabulary_as_of st pos of
            None \<Rightarrow> (bus, Inl (CompilerRefusal (''compiler.no_vocabulary_as_of_position:'' @ py_repr position)))
          | Some voc \<Rightarrow>
              finish_compile pub bus pos voc rv (map (\<lambda>(did, v, doc). (did, v)) (assemble_documents st pos))
                (compile_stages sha (assemble_documents st pos) pos voc rv)))"

section \<open>Regeneration, activation, rollback\<close>

definition regenerate :: "digest_fn \<Rightarrow> 'b publisher \<Rightarrow> policy_store \<Rightarrow> manifest \<Rightarrow> compiled_snapshot refusing" where
  "regenerate sha pub st m =
     (case snd (compile_snapshot sha pub None st (PyInt (mf_position m)) (PyInt (mf_ruleset m))) of
        Inl e \<Rightarrow> Inl e
      | Inr r \<Rightarrow>
          (case co_snapshot r of
             None \<Rightarrow> Inl (CompilerRefusal ''compiler.regeneration_rejected'')
           | Some sn \<Rightarrow>
               if sn_hash sn \<noteq> mf_hash m then
                 Inl (CompilerRefusal (''compiler.regeneration_hash_mismatch:expected='' @ mf_hash m @ '':got='' @ sn_hash sn))
               else Inr sn))"

definition activate_snapshot ::
  "'s blob_writer \<Rightarrow> 'b publisher \<Rightarrow> 'b option \<Rightarrow> ('s, 'b) stored \<Rightarrow> compile_result
     \<Rightarrow> 'b option \<times> ('s, 'b) stored \<times> (manifest \<times> activation) refusing" where
  "activate_snapshot wr pub bus ws res =
     (case co_snapshot res of
        None \<Rightarrow> (bus, ws, Inl (CompilerRefusal ''compiler.activation_requires_zero_error_compiled_result''))
      | Some sn \<Rightarrow>
          if co_outcome res \<noteq> ''compiled'' \<or> cr_errors (co_report res) \<noteq> [] then
            (bus, ws, Inl (CompilerRefusal ''compiler.activation_requires_zero_error_compiled_result''))
          else
            let acts = ps_activations (snd ws);
                prev = (if acts = [] then None else Some (av_version (last acts)));
                nxt = (case prev of None \<Rightarrow> 0 | Some v \<Rightarrow> v) + 1
            in case build_manifest (PyInt nxt) (PyInt (sn_position sn)) (PyInt (sn_vocab sn)) (sn_ruleset sn)
                 (sn_refs sn) (PyStr (sn_hash sn)) of
               Inl e \<Rightarrow> (bus, ws, Inl e)
             | Inr m \<Rightarrow>
                 (case append_manifest wr ws m of
                    (ws1, Inl e) \<Rightarrow> (bus, ws1, Inl e)
                  | (ws1, Inr _) \<Rightarrow>
                      (case build_activation (opt_int prev) (PyInt nxt) of
                         Inl e \<Rightarrow> (bus, ws1, Inl e)
                       | Inr a \<Rightarrow>
                           (case append_activation wr ws1 a of
                              (ws2, Inl e) \<Rightarrow> (bus, ws2, Inl e)
                            | (ws2, Inr _) \<Rightarrow>
                                (case emit_policy_event pub bus ''policy.activated'' (''activated:'' @ int_str nxt) ''sgpe/snapshot''
                                   (PyDict [(''previous_snapshot_version'', opt_int prev), (''snapshot_version'', PyInt nxt),
                                     (''catalog_position'', PyInt (sn_position sn))]) of
                                   (bus', Inl e) \<Rightarrow> (bus', ws2, Inl e)
                                 | (bus', Inr _) \<Rightarrow> (bus', ws2, Inr (m, a)))))))"

definition rollback ::
  "digest_fn \<Rightarrow> 's blob_writer \<Rightarrow> 'b publisher \<Rightarrow> 'b option \<Rightarrow> ('s, 'b) stored \<Rightarrow> manifest
     \<Rightarrow> 'b option \<times> ('s, 'b) stored \<times> (manifest \<times> activation) refusing" where
  "rollback sha wr pub bus ws m =
     (case snd (compile_snapshot sha pub None (snd ws) (PyInt (mf_position m)) (PyInt (mf_ruleset m))) of
        Inl e \<Rightarrow> (bus, ws, Inl e)
      | Inr r \<Rightarrow>
          if co_outcome r \<noteq> ''compiled'' \<or> cr_errors (co_report r) \<noteq> [] then
            (bus, ws, Inl (CompilerRefusal ''compiler.rollback_recompile_rejected''))
          else activate_snapshot wr pub bus ws r)"

end
