(* ===== verification/SgpeEvaluator.thy ===== *)
theory SgpeEvaluator
  imports SgpeCompiler
begin

text \<open>
  The evaluator (\<open>sgpe/evaluator.py\<close>): a question about one action against a compiled snapshot
  and a slice of grants, answered by a decision or an ill-posed verdict. The digest is a
  parameter; the memo is the caller's dictionary, threaded through the calls. The argument
  \<open>question\<close> is a built question or any other value.
\<close>

section \<open>Questions\<close>

record question =
  qu_subsystem :: string
  qu_request :: string
  qu_principal :: string
  qu_domain :: string
  qu_operation :: string
  qu_resource :: string
  qu_facts :: payload

definition question_part :: "string \<Rightarrow> pyval \<Rightarrow> string refusing" where
  "question_part label v =
     (case as_name v of
        None \<Rightarrow> Inl (MalformedQuestionError (''evaluator.bad_'' @ label @ '':'' @ py_repr v))
      | Some s \<Rightarrow> Inr s)"

definition question_fact :: "string \<times> pyval \<Rightarrow> (string \<times> pyval) refusing" where
  "question_fact f =
     (if fst f = [] then Inl (MalformedQuestionError (''evaluator.bad_fact_name:'' @ repr_str (fst f)))
      else if \<not> is_scalar (snd f) then
        Inl (MalformedQuestionError (''evaluator.fact_value_not_scalar:'' @ fst f @ '':'' @ py_repr (snd f)))
      else Inr f)"

definition build_question ::
  "pyval \<Rightarrow> pyval \<Rightarrow> pyval \<Rightarrow> pyval \<Rightarrow> pyval \<Rightarrow> pyval \<Rightarrow> pyval \<Rightarrow> question refusing" where
  "build_question sub rid pri domn op res facts =
     bind_sum (question_part ''subsystem'' sub) (\<lambda>s. bind_sum (question_part ''request_id'' rid) (\<lambda>r.
     bind_sum (question_part ''principal'' pri) (\<lambda>p. bind_sum (question_part ''domain'' domn) (\<lambda>d.
     bind_sum (question_part ''operation'' op) (\<lambda>o'. bind_sum (question_part ''resource'' res) (\<lambda>re.
       case facts of
         PyDict fs \<Rightarrow> bind_sum (mapm question_fact (sort_key fst fs)) (\<lambda>items.
           Inr \<lparr>qu_subsystem = s, qu_request = r, qu_principal = p, qu_domain = d, qu_operation = o',
                qu_resource = re, qu_facts = items\<rparr>)
       | _ \<Rightarrow> Inl (MalformedQuestionError (''evaluator.facts_not_a_mapping:'' @ py_repr facts))))))))"

definition question_to_dict :: "question \<Rightarrow> pyval" where
  "question_to_dict q = PyDict [(''subsystem'', PyStr (qu_subsystem q)), (''request_id'', PyStr (qu_request q)),
     (''principal'', PyStr (qu_principal q)), (''domain'', PyStr (qu_domain q)),
     (''operation'', PyStr (qu_operation q)), (''resource'', PyStr (qu_resource q)),
     (''facts'', PyList (map (\<lambda>(n, v). PyList [PyStr n, v]) (qu_facts q)))]"

text \<open>\<open>dict(pairs)\<close>: a later pair overwrites.\<close>

definition dict_of :: "payload \<Rightarrow> payload" where
  "dict_of ps = foldl (\<lambda>d (k, v). dset k v d) [] ps"

definition question_hash :: "digest_fn \<Rightarrow> question \<Rightarrow> string" where
  "question_hash sha q = sha (json_dumps (question_to_dict q))"

definition ask_signature :: "digest_fn \<Rightarrow> question \<Rightarrow> string" where
  "ask_signature sha q = sha (json_dumps (PyDict [(''principal'', PyStr (qu_principal q)),
     (''domain'', PyStr (qu_domain q)), (''operation'', PyStr (qu_operation q)), (''resource'', PyStr (qu_resource q))]))"

section \<open>Grants, decisions, verdicts\<close>

record grant =
  gr_kind :: string
  gr_id :: string
  gr_signature :: string

definition grant_part :: "string \<Rightarrow> pyval \<Rightarrow> string refusing" where
  "grant_part label v =
     (case as_name v of
        None \<Rightarrow> Inl (EvaluatorRefusal (''evaluator.bad_'' @ label @ '':'' @ py_repr v))
      | Some s \<Rightarrow> Inr s)"

definition build_grant_record :: "pyval \<Rightarrow> pyval \<Rightarrow> pyval \<Rightarrow> grant refusing" where
  "build_grant_record kind gid sig =
     (case among [''grant'', ''revocation''] kind of
        None \<Rightarrow> Inl (EvaluatorRefusal (''evaluator.unknown_grant_record_kind:'' @ py_repr kind))
      | Some k \<Rightarrow> bind_sum (grant_part ''grant_id'' gid) (\<lambda>g. bind_sum (grant_part ''ask_signature'' sig) (\<lambda>s.
          Inr \<lparr>gr_kind = k, gr_id = g, gr_signature = s\<rparr>)))"

record decision =
  dc_kind :: string
  dc_value :: pyval
  dc_signature :: "string option"
  dc_constraints :: "(string \<times> pyval \<times> citation) list"
  dc_explanation :: "pyval list"
  dc_snapshot :: int
  dc_position :: int
  dc_ruleset :: pyval
  dc_question :: string

record illposed =
  il_code :: string
  il_detail :: string
  il_snapshot :: int
  il_position :: int
  il_ruleset :: pyval

datatype eval_outcome = Decided decision | IllPosed illposed

definition decision_to_dict :: "decision \<Rightarrow> pyval" where
  "decision_to_dict d = PyDict [(''effect_kind'', PyStr (dc_kind d)), (''effect_value'', dc_value d),
     (''ask_signature'', opt_name (dc_signature d)),
     (''constraints'', PyList (map (\<lambda>(domn, v, c). PyList [PyStr domn, v, citation_to_list c]) (dc_constraints d))),
     (''explanation'', PyList (dc_explanation d)), (''snapshot_version'', PyInt (dc_snapshot d)),
     (''grant_slice_position'', PyInt (dc_position d)), (''evaluation_ruleset_version'', dc_ruleset d),
     (''question_hash'', PyStr (dc_question d))]"

definition decision_bytes :: "decision \<Rightarrow> string" where
  "decision_bytes d = json_dumps (decision_to_dict d)"

definition illposed_to_dict :: "illposed \<Rightarrow> pyval" where
  "illposed_to_dict v = PyDict [(''code'', PyStr (il_code v)), (''detail'', PyStr (il_detail v)),
     (''snapshot_version'', PyInt (il_snapshot v)), (''grant_slice_position'', PyInt (il_position v)),
     (''evaluation_ruleset_version'', il_ruleset v)]"

section \<open>Conditions\<close>

definition compare_fact :: "string \<Rightarrow> string \<Rightarrow> pyval \<Rightarrow> pyval \<Rightarrow> bool refusing" where
  "compare_fact fname op fv v =
     (if op = ''eq'' then Inr (py_eq fv v)
      else if op = ''ne'' then Inr (\<not> py_eq fv v)
      else (case (as_count fv, as_count v) of
        (Some i, Some j) \<Rightarrow>
          Inr (if op = ''lt'' then i < j else if op = ''lte'' then i \<le> j else if op = ''gt'' then j < i else j \<le> i)
      | _ \<Rightarrow> Inl (IncomparableCondition (''fact '' @ repr_str fname @ '' op '' @ op @ '': non-numeric operand ''
               @ py_repr fv @ '' vs '' @ py_repr v))))"

definition fact_value :: "payload \<Rightarrow> string \<Rightarrow> pyval refusing" where
  "fact_value facts fname = (case dget facts fname of None \<Rightarrow> Inl (PyKeyError fname) | Some v \<Rightarrow> Inr v)"

text \<open>Every operand is evaluated, so the first that is incomparable surfaces.\<close>

fun condition_satisfied :: "payload \<Rightarrow> cond \<Rightarrow> bool refusing" where
  "condition_satisfied facts (Comparison fname op v) =
     bind_sum (fact_value facts fname) (\<lambda>fv. compare_fact fname op fv v)"
| "condition_satisfied facts (SetMembership fname op vs) =
     bind_sum (fact_value facts fname) (\<lambda>fv.
       let contained = list_ex (py_eq fv) vs in Inr (if op = ''in'' then contained else \<not> contained))"
| "condition_satisfied facts (BooleanComposition op operands) =
     bind_sum (mapm (condition_satisfied facts) operands) (\<lambda>results.
       if op = ''and'' then Inr (list_all id results)
       else if op = ''or'' then Inr (list_ex id results)
       else (case results of [] \<Rightarrow> Inl PyLookupError | r # _ \<Rightarrow> Inr (\<not> r)))"

section \<open>Retrieval\<close>

definition selector_matches :: "string \<Rightarrow> string \<Rightarrow> bool" where
  "selector_matches selector resource \<longleftrightarrow> selector = resource \<or> selector = ''*''"

definition entry_matches :: "string \<Rightarrow> string \<Rightarrow> string \<Rightarrow> payload \<Rightarrow> index_entry \<Rightarrow> bool refusing" where
  "entry_matches domn op resource facts e =
     (if ie_domain e = domn \<and> ie_operation e = op \<and> selector_matches (ie_selector e) resource then
        (case ie_cond e of None \<Rightarrow> Inr True | Some c \<Rightarrow> condition_satisfied facts c)
      else Inr False)"

text \<open>A filter whose test may raise.\<close>

fun filterm :: "('a \<Rightarrow> 'e + bool) \<Rightarrow> 'a list \<Rightarrow> 'e + 'a list" where
  "filterm f [] = Inr []"
| "filterm f (x # xs) =
     bind_sum (f x) (\<lambda>keep. bind_sum (filterm f xs) (\<lambda>ys. Inr (if keep then x # ys else ys)))"

definition undominated :: "index_entry list \<Rightarrow> index_entry list" where
  "undominated matched = filter (\<lambda>e. ie_citation e \<notin> set (concat (map ie_shadows matched))) matched"

definition match_and_win ::
  "compiled_snapshot \<Rightarrow> string \<Rightarrow> string \<Rightarrow> string \<Rightarrow> payload \<Rightarrow> (index_entry \<times> citation list \<times> bool) refusing" where
  "match_and_win sn domn op resource facts =
     bind_sum (filterm (entry_matches domn op resource facts) (sn_entries sn)) (\<lambda>matched.
       if matched = [] then
         Inl (SnapshotIntegrityError (''evaluator.totality_hole:'' @ domn @ ''.'' @ op @ '':'' @ resource))
       else (case undominated matched of
         [] \<Rightarrow> Inl (SnapshotIntegrityError (''evaluator.no_undominated_winner:'' @ domn @ ''.'' @ op @ '':'' @ resource))
       | w # others \<Rightarrow>
           (case find (\<lambda>e. ie_kind e \<noteq> ie_kind w \<or> \<not> py_eq (ie_value e) (ie_value w)) others of
              Some e \<Rightarrow> Inl (SnapshotIntegrityError (''evaluator.divergent_cowinners:'' @ repr_citation (ie_citation w)
                 @ '':'' @ repr_citation (ie_citation e)))
            | None \<Rightarrow> Inr (w, map ie_citation matched,
                ie_scope w = ''system'' \<and> ie_selector w = ''*'' \<and> length matched = 1))))"

definition required_fact_names :: "compiled_snapshot \<Rightarrow> string \<Rightarrow> string set" where
  "required_fact_names sn op = set (concat (map snd (filter (\<lambda>(key, names). snd key = op) (sn_facts sn))))"

definition operation_domains :: "compiled_snapshot \<Rightarrow> string \<Rightarrow> string list" where
  "operation_domains sn op = sort (map (fst \<circ> fst) (filter (\<lambda>(key, names). snd key = op) (sn_facts sn)))"

section \<open>Evaluation\<close>

type_synonym memo_key = "int \<times> int \<times> pyval \<times> string"
type_synonym memo = "(memo_key, decision) dict"

definition check_inputs :: "pyval \<Rightarrow> pyval \<Rightarrow> pyval \<Rightarrow> (int \<times> int) refusing" where
  "check_inputs sv pos rv =
     (case as_count sv of
        None \<Rightarrow> Inl (EvaluatorRefusal (''evaluator.bad_snapshot_version:'' @ py_repr sv))
      | Some s \<Rightarrow>
          if s < 1 then Inl (EvaluatorRefusal (''evaluator.bad_snapshot_version:'' @ py_repr sv))
          else (case as_count pos of
            None \<Rightarrow> Inl (EvaluatorRefusal (''evaluator.bad_grant_slice_position:'' @ py_repr pos))
          | Some p \<Rightarrow>
              if p < 0 then Inl (EvaluatorRefusal (''evaluator.bad_grant_slice_position:'' @ py_repr pos))
              else if \<not> py_eq rv (PyInt 1) then
                Inl (EvaluatorRefusal (''evaluator.unsupported_ruleset_version:'' @ py_repr rv))
              else Inr (s, p)))"

definition ill_posed ::
  "'b publisher \<Rightarrow> 'b option \<Rightarrow> int \<Rightarrow> int \<Rightarrow> pyval \<Rightarrow> string \<Rightarrow> string \<Rightarrow> 'b option \<times> eval_outcome refusing" where
  "ill_posed pub bus sv pos rv code detail =
     (let v = \<lparr>il_code = code, il_detail = detail, il_snapshot = sv, il_position = pos, il_ruleset = rv\<rparr> in
      case emit_policy_event pub bus ''policy.illposed'' (''illposed:'' @ code @ '':'' @ int_str sv @ '':'' @ int_str pos)
        ''sgpe/evaluate'' (illposed_to_dict v) of
        (bus', Inl e) \<Rightarrow> (bus', Inl e)
      | (bus', Inr _) \<Rightarrow> (bus', Inr (IllPosed v)))"

definition emit_decided :: "'b publisher \<Rightarrow> 'b option \<Rightarrow> decision \<Rightarrow> 'b option \<times> unit refusing" where
  "emit_decided pub bus d =
     emit_policy_event pub bus ''policy.decided''
       (''decided:'' @ int_str (dc_snapshot d) @ '':'' @ int_str (dc_position d) @ '':'' @ dc_question d)
       ''sgpe/evaluate'' (decision_to_dict d)"

text \<open>Step 1: why a question is ill-posed, if it is.\<close>

definition well_formedness :: "compiled_snapshot \<Rightarrow> question \<Rightarrow> (string \<times> string) option" where
  "well_formedness sn q =
     (case build_question (PyStr (qu_subsystem q)) (PyStr (qu_request q)) (PyStr (qu_principal q)) (PyStr (qu_domain q))
        (PyStr (qu_operation q)) (PyStr (qu_resource q)) (PyDict (dict_of (qu_facts q))) of
        Inl (MalformedQuestionError msg) \<Rightarrow> Some (''non_canonical_facts'', ''MalformedQuestionError('' @ repr_str msg @ '')'')
      | Inl _ \<Rightarrow> Some (''non_canonical_facts'', ''TypeError()'')
      | Inr rebuilt \<Rightarrow>
          if rebuilt \<noteq> q then Some (''non_canonical_facts'', ''facts_not_in_canonical_order'')
          else if (qu_domain q, qu_operation q) \<notin> set (map fst (sn_facts sn)) then
            Some (''unknown_action'', qu_domain q @ ''.'' @ qu_operation q)
          else
            let supplied = set (map fst (qu_facts q)); required = required_fact_names sn (qu_operation q) in
            if required - supplied \<noteq> {} then
              Some (''missing_declared_facts'', py_repr (PyList (map PyStr (sorted_list_of_set (required - supplied)))))
            else if supplied - required \<noteq> {} then
              Some (''undeclared_facts'', py_repr (PyList (map PyStr (sorted_list_of_set (supplied - required)))))
            else None)"

text \<open>Steps 4 and 5: the first grant of the slice that covers the signature and is not revoked.\<close>

definition covering_grant :: "grant list \<Rightarrow> string \<Rightarrow> grant option" where
  "covering_grant slice sig =
     (let revoked = set (map gr_id (filter (\<lambda>g. gr_kind g = ''revocation'') slice)) in
      find (\<lambda>g. gr_kind g = ''grant'' \<and> gr_signature g = sig \<and> gr_id g \<notin> revoked) slice)"

text \<open>Step 6: the ceilings of the sibling domains; one that matches nothing binds nothing.\<close>

type_synonym binding = "string \<times> pyval \<times> citation"

fun attach_constraints ::
  "compiled_snapshot \<Rightarrow> question \<Rightarrow> payload \<Rightarrow> string list \<Rightarrow> binding list refusing" where
  "attach_constraints sn q facts [] = Inr []"
| "attach_constraints sn q facts (d # ds) =
     (if d = qu_domain q then attach_constraints sn q facts ds
      else (case match_and_win sn d (qu_operation q) (qu_resource q) facts of
        Inl (SnapshotIntegrityError _) \<Rightarrow> attach_constraints sn q facts ds
      | Inl e \<Rightarrow> Inl e
      | Inr (c, _, _) \<Rightarrow>
          bind_sum (attach_constraints sn q facts ds) (\<lambda>bs.
            Inr (if ie_kind c = ''LIMIT'' then (d, ie_value c, ie_citation c) # bs else bs))))"

definition index_step :: "index_entry \<Rightarrow> citation list \<Rightarrow> bool \<Rightarrow> pyval" where
  "index_step w matched fallback = PyDict [(''step'', PyStr ''index''),
     (''matched'', PyList (map citation_to_list matched)), (''winner'', citation_to_list (ie_citation w)),
     (''decided_by'', PyList (map PyStr (ie_decided w))), (''final'', PyBool (ie_final w)),
     (''totality_fallback'', PyBool fallback)]"

definition grant_step :: "grant \<Rightarrow> int \<Rightarrow> index_entry \<Rightarrow> pyval" where
  "grant_step g pos w = PyDict [(''step'', PyStr ''grant''), (''grant_id'', PyStr (gr_id g)),
     (''ledger_position'', PyInt pos), (''overrode'', citation_to_list (ie_citation w))]"

definition constraint_step :: "binding \<Rightarrow> pyval" where
  "constraint_step b = (case b of (d, v, c) \<Rightarrow> PyDict [(''step'', PyStr ''constraint''), (''domain'', PyStr d),
     (''value'', v), (''citation'', citation_to_list c)])"

text \<open>Steps 3 to 7 without the announcement: the decision of a well-formed question.\<close>

definition decide_question ::
  "digest_fn \<Rightarrow> int \<Rightarrow> compiled_snapshot \<Rightarrow> int \<Rightarrow> grant list \<Rightarrow> question \<Rightarrow> pyval \<Rightarrow> decision refusing" where
  "decide_question sha sv sn pos slice q rv =
     (let facts = dict_of (qu_facts q) in
      bind_sum (match_and_win sn (qu_domain q) (qu_operation q) (qu_resource q) facts) (\<lambda>(w, matched, fallback).
        let asks = ie_kind w = ''REQUIRE_APPROVAL'';
            sig = ask_signature sha q;
            g = (if \<not> ie_final w \<and> asks then covering_grant slice sig else None);
            kind = (if g = None then ie_kind w else ''ALLOW'');
            v = (if g = None then ie_value w else PyNone);
            trace = index_step w matched fallback # (case g of None \<Rightarrow> [] | Some x \<Rightarrow> [grant_step x pos w])
        in bind_sum (if kind = ''ALLOW'' then attach_constraints sn q facts (operation_domains sn (qu_operation q))
                     else Inr []) (\<lambda>bs.
           Inr \<lparr>dc_kind = kind, dc_value = v, dc_signature = (if asks \<and> g = None then Some sig else None),
             dc_constraints = bs, dc_explanation = trace @ map constraint_step bs, dc_snapshot = sv,
             dc_position = pos, dc_ruleset = rv, dc_question = question_hash sha q\<rparr>)))"

definition evaluate ::
  "digest_fn \<Rightarrow> 'b publisher \<Rightarrow> 'b option \<Rightarrow> memo option \<Rightarrow> pyval \<Rightarrow> compiled_snapshot \<Rightarrow> pyval \<Rightarrow> grant list
     \<Rightarrow> pyval + question \<Rightarrow> pyval \<Rightarrow> 'b option \<times> memo option \<times> eval_outcome refusing" where
  "evaluate sha pub bus memo sv sn pos slice asked rv =
     (case check_inputs sv pos rv of
        Inl e \<Rightarrow> (bus, memo, Inl e)
      | Inr (s, p) \<Rightarrow>
          let refuse = (\<lambda>code detail. case ill_posed pub bus s p rv code detail of (bus', r) \<Rightarrow> (bus', memo, r)) in
          (case asked of
             Inl v \<Rightarrow> refuse ''not_a_question'' (py_repr v)
           | Inr q \<Rightarrow>
               (case well_formedness sn q of
                  Some (code, detail) \<Rightarrow> refuse code detail
                | None \<Rightarrow>
                    let key = (s, p, hkey rv, question_hash sha q) in
                    (case (case memo of None \<Rightarrow> None | Some m \<Rightarrow> dget m key) of
                       Some d \<Rightarrow>
                         (case emit_decided pub bus d of
                            (bus', Inl e) \<Rightarrow> (bus', memo, Inl e)
                          | (bus', Inr _) \<Rightarrow> (bus', memo, Inr (Decided d)))
                     | None \<Rightarrow>
                         (case decide_question sha s sn p slice q rv of
                            Inl (IncomparableCondition msg) \<Rightarrow> refuse ''incomparable_condition'' msg
                          | Inl e \<Rightarrow> (bus, memo, Inl e)
                          | Inr d \<Rightarrow>
                              (case emit_decided pub bus d of
                                 (bus', Inl e) \<Rightarrow> (bus', memo, Inl e)
                               | (bus', Inr _) \<Rightarrow> (bus', map_option (dset key d) memo, Inr (Decided d)))))))) "

end
