(* ===== verification/SgpeDecides.thy ===== *)
theory SgpeDecides
  imports SgpeEvaluator
begin

text \<open>
  Why a compiled snapshot decides: conditions judged disjoint never hold together, so any two
  rules that apply to one question were compared by the conflict stage, and the shadows it
  recorded leave exactly the strongest rules. The strength of a rule is the reference
  semantics: scope first, then deny over approval over allow, or the smaller limit.
\<close>

section \<open>Disjoint conditions\<close>

lemma hkey_scalar: "is_scalar v \<Longrightarrow> py_eq fv v \<longleftrightarrow> hkey fv = hkey v"
  by (cases v; cases fv) (auto simp: hkey_def)

lemma py_eq_refl_scalar: "is_scalar v \<Longrightarrow> py_eq v v"
  by (simp add: hkey_scalar)

text \<open>What a range comparison or a finite constraint says of the fact's value.\<close>

fun within :: "int \<Rightarrow> interval \<Rightarrow> bool" where
  "within i (lo, lo_open, hi, hi_open) \<longleftrightarrow>
     (case lo of NegInf \<Rightarrow> True | Fin a \<Rightarrow> if lo_open then a < i else a \<le> i | PosInf \<Rightarrow> False)
     \<and> (case hi of NegInf \<Rightarrow> False | Fin b \<Rightarrow> if hi_open then i < b else i \<le> b | PosInf \<Rightarrow> True)"

lemma within_interval:
  "op \<in> set range_ops \<Longrightarrow> within i (interval op v) \<longleftrightarrow>
     (if op = ''lt'' then i < v else if op = ''lte'' then i \<le> v else if op = ''gt'' then v < i else v \<le> i)"
  by (auto simp: range_ops_def interval_def)

lemma intervals_disjoint_sound:
  "intervals_disjoint a b \<Longrightarrow> within i a \<Longrightarrow> within i b \<Longrightarrow> False"
  by (cases a; cases b) (auto simp: intervals_disjoint_def split: endpoint.splits if_splits)

lemma range_satisfied:
  assumes "range_of c = Some iv" and "single_fact c = Some f" and "condition_satisfied facts c = Inr True"
  shows "\<exists>i. dget facts f = Some (PyInt i) \<and> within i iv"
proof (cases c)
  case (Comparison fname op v)
  with assms obtain j where j: "op \<in> set range_ops" "v = PyInt j" "iv = interval op j" "f = fname"
    by (auto split: if_splits)
  from j(1) have op: "op \<noteq> ''eq''" "op \<noteq> ''ne''" by (auto simp: range_ops_def)
  from assms(3) Comparison obtain fv where fv: "dget facts fname = Some fv" "compare_fact fname op fv v = Inr True"
    by (auto simp: fact_value_def split: option.splits)
  with op j obtain i where "fv = PyInt i"
    "if op = ''lt'' then i < j else if op = ''lte'' then i \<le> j else if op = ''gt'' then j < i else j \<le> i"
    by (auto simp: compare_fact_def split: option.splits)
  with fv(1) j within_interval [OF j(1), of i j] show ?thesis by auto
qed (use assms in auto)

lemma finite_satisfied:
  assumes "finite_constraint c = Some (k, vs)" and "single_fact c = Some f" and "built_cond c"
    and "condition_satisfied facts c = Inr True"
  shows "\<exists>fv. dget facts f = Some fv \<and> (k = ''in'' \<and> hkey fv \<in> vs \<or> k = ''not_in'' \<and> hkey fv \<notin> vs)"
proof (cases c)
  case (Comparison fname op v)
  with assms show ?thesis
    by (auto simp: fact_value_def compare_fact_def hkey_scalar split: option.splits if_splits)
next
  case (SetMembership fname op xs)
  with assms have op: "op = ''in'' \<or> op = ''not_in''" and sc: "list_all is_scalar xs"
    by (auto simp: set_ops_def)
  from SetMembership assms(4) obtain fv where fv: "dget facts fname = Some fv"
      "(if op = ''in'' then list_ex (py_eq fv) xs else \<not> list_ex (py_eq fv) xs)"
    by (auto simp: fact_value_def Let_def split: option.splits)
  have "list_ex (py_eq fv) xs \<longleftrightarrow> hkey fv \<in> set (map hkey xs)"
    using sc by (induction xs) (auto simp: hkey_scalar)
  with fv op SetMembership assms(1,2) show ?thesis by auto
qed (use assms in auto)

lemma disjoint_conditions_sound:
  assumes "conditions_provably_disjoint (Some a) (Some b)" and "built_cond a" and "built_cond b"
    and "condition_satisfied facts a = Inr True"
  shows "condition_satisfied facts b \<noteq> Inr True"
proof
  assume b: "condition_satisfied facts b = Inr True"
  from assms(1) obtain f where f: "single_fact a = Some f" "single_fact b = Some f" "same_fact_disjoint a b"
    by (auto simp: conditions_provably_disjoint_def split: option.splits)
  show False
  proof (cases "\<exists>i j. range_of a = Some i \<and> range_of b = Some j")
    case True
    then obtain i j where r: "range_of a = Some i" "range_of b = Some j" by auto
    then have "intervals_disjoint i j" using f(3) by (simp add: same_fact_disjoint_def)
    moreover obtain x where "dget facts f = Some (PyInt x)" "within x i"
      using range_satisfied [OF r(1) f(1) assms(4)] by auto
    moreover obtain y where "dget facts f = Some (PyInt y)" "within y j"
      using range_satisfied [OF r(2) f(2) b] by auto
    ultimately show False using intervals_disjoint_sound [of i j x] by simp
  next
    case False
    with f(3) obtain ka va kb vb where c: "finite_constraint a = Some (ka, va)" "finite_constraint b = Some (kb, vb)"
        "(if ka = ''in'' \<and> kb = ''in'' then va \<inter> vb = {}
          else if ka = ''in'' \<and> kb = ''not_in'' then va \<subseteq> vb
          else if ka = ''not_in'' \<and> kb = ''in'' then vb \<subseteq> va else False)"
      by (auto simp: same_fact_disjoint_def split: option.splits)
    from finite_satisfied [OF c(1) f(1) assms(2,4)] finite_satisfied [OF c(2) f(2) assms(3) b] c(3)
    show False by (auto split: if_splits)
  qed
qed

section \<open>Pairs\<close>

lemma pairs_subset: "(x, y) \<in> set (pairs xs) \<Longrightarrow> x \<in> set xs \<and> y \<in> set xs"
  by (induction xs) auto

lemma pairs_complete: "x \<in> set xs \<Longrightarrow> y \<in> set xs \<Longrightarrow> x \<noteq> y \<Longrightarrow> (x, y) \<in> set (pairs xs) \<or> (y, x) \<in> set (pairs xs)"
  by (induction xs) auto

lemma group_pairs_iff:
  "(x, y) \<in> set (group_pairs rs) \<longleftrightarrow>
     (\<exists>key. key \<in> rule_key ` set rs \<and> (x, y) \<in> set (pairs (filter (\<lambda>z. rule_key z = key) rs)))"
  by (auto simp: group_pairs_def)

lemma group_pairs_mem: "(x, y) \<in> set (group_pairs rs) \<Longrightarrow> x \<in> set rs \<and> y \<in> set rs \<and> rule_key x = rule_key y"
  using pairs_subset by (fastforce simp: group_pairs_iff)

lemma group_pairs_complete:
  assumes "x \<in> set rs" and "y \<in> set rs" and "rule_key x = rule_key y" and "x \<noteq> y"
  shows "(x, y) \<in> set (group_pairs rs) \<or> (y, x) \<in> set (group_pairs rs)"
  using pairs_complete [of x "filter (\<lambda>z. rule_key z = rule_key x) rs" y] assms
  by (auto simp: group_pairs_iff)

section \<open>The loop over the pairs\<close>

definition judged :: "cited_rule \<times> cited_rule \<Rightarrow> pair_decision option" where
  "judged p = (case p of ((da, va, sa, ra), (db, vb, sb, rb)) \<Rightarrow>
     decide_pair sa (ru_effect ra) (da, va, Some (ru_id ra)) sb (ru_effect rb) (db, vb, Some (ru_id rb)))"

definition clash :: "cited_rule \<times> cited_rule \<Rightarrow> bool" where
  "clash p = (case p of ((da, va, sa, ra), (db, vb, sb, rb)) \<Rightarrow> overlapping ra rb)"

definition shadows_of :: "decisions \<Rightarrow> citation \<Rightarrow> citation set" where
  "shadows_of dec c = de_shadows (decided_at dec c)"

lemma shadows_of_record [simp]: "shadows_of (record_decision dec c b) c' = shadows_of dec c'"
  by (auto simp: shadows_of_def record_decision_def decided_at_def update_conv split: option.splits)

lemma shadows_of_add [simp]:
  "shadows_of (add_shadow dec w l) c = (if c = w then insert l (shadows_of dec w) else shadows_of dec c)"
  by (auto simp: shadows_of_def add_shadow_def decided_at_def update_conv split: option.splits)


lemma check_pair_skip: "\<not> clash p \<Longrightarrow> check_pair cf p = cf"
  by (auto simp: check_pair_def clash_def Let_def split: prod.splits)

lemma check_pair_none: "clash p \<Longrightarrow> judged p = None \<Longrightarrow> cf_errors (check_pair cf p) \<noteq> []"
  by (auto simp: check_pair_def clash_def judged_def Let_def split: prod.splits)

lemma check_pair_some:
  assumes "clash p" and "judged p = Some (w, l, b, s)"
  shows "cf_errors (check_pair cf p) = cf_errors cf"
    and "shadows_of (cf_decisions (check_pair cf p)) c =
      shadows_of (cf_decisions cf) c \<union> (if s \<and> c = w then {l} else {})"
proof -
  obtain da va sa ra db vb sb rb where p: "p = ((da, va, sa, ra), (db, vb, sb, rb))" by (metis surj_pair)
  note e = assms [unfolded p clash_def judged_def prod.case]
  show "cf_errors (check_pair cf p) = cf_errors cf"
    using e by (simp add: p check_pair_def Let_def)
  show "shadows_of (cf_decisions (check_pair cf p)) c =
      shadows_of (cf_decisions cf) c \<union> (if s \<and> c = w then {l} else {})"
    using e by (simp add: p check_pair_def Let_def)
qed

lemma check_pair_errors: "cf_errors cf \<noteq> [] \<Longrightarrow> cf_errors (check_pair cf p) \<noteq> []"
  by (auto simp: check_pair_def Let_def split: prod.splits option.splits)

lemma check_pairs_errors: "cf_errors cf \<noteq> [] \<Longrightarrow> cf_errors (foldl check_pair cf ps) \<noteq> []"
  by (induction ps arbitrary: cf) (simp_all add: check_pair_errors)

definition eclipsed :: "(cited_rule \<times> cited_rule) list \<Rightarrow> citation \<Rightarrow> citation set" where
  "eclipsed ps c = {l. \<exists>p b. p \<in> set ps \<and> clash p \<and> judged p = Some (c, l, b, True)}"

lemma eclipsed_Cons: "eclipsed (p # ps) c = eclipsed [p] c \<union> eclipsed ps c"
  unfolding eclipsed_def set_simps insert_iff empty_iff by blast

lemma check_pairs:
  assumes "cf_errors (foldl check_pair cf ps) = []"
  shows "(\<forall>p \<in> set ps. clash p \<longrightarrow> judged p \<noteq> None)
    \<and> shadows_of (cf_decisions (foldl check_pair cf ps)) c = shadows_of (cf_decisions cf) c \<union> eclipsed ps c"
  using assms
proof (induction ps arbitrary: cf)
  case Nil
  then show ?case by (simp add: eclipsed_def)
next
  case (Cons p ps)
  have step: "clash p \<longrightarrow> judged p \<noteq> None"
    using Cons.prems check_pair_none [of p cf] check_pairs_errors [of "check_pair cf p" ps]
    unfolding foldl_Cons by blast
  have "shadows_of (cf_decisions (check_pair cf p)) c = shadows_of (cf_decisions cf) c \<union> eclipsed [p] c"
  proof (cases "clash p")
    case True
    then obtain r where "judged p = Some r" using step by blast
    then obtain w l b s where j: "judged p = Some (w, l, b, s)" by (cases r) blast
    show ?thesis
      using check_pair_some(2) [OF True j, of cf c] True j by (auto simp: eclipsed_def)
  qed (simp add: check_pair_skip eclipsed_def)
  with Cons.IH [of "check_pair cf p"] Cons.prems step eclipsed_Cons [of p ps c] show ?case
    by (simp add: Un_assoc)
qed

end
