(* ===== verification/SgpeCompiled.thy ===== *)
theory SgpeCompiled
  imports SgpeDecides "HOL-Library.Multiset"
begin

text \<open>
  A compiled snapshot against the reference semantics of its documents: the rules that apply
  to a question, ordered by strength.
\<close>

section \<open>The reference semantics\<close>

type_synonym sourced = "doc_id \<times> int \<times> document \<times> rule"

definition source_rule :: "sourced \<Rightarrow> rule" where
  "source_rule x = (case x of (did, v, doc, r) \<Rightarrow> r)"

definition source_scope :: "sourced \<Rightarrow> string" where
  "source_scope x = (case x of (did, v, doc, r) \<Rightarrow> hd_scope (do_header doc))"

definition source_cite :: "sourced \<Rightarrow> citation" where
  "source_cite x = (case x of (did, v, doc, r) \<Rightarrow> (did, v, Some (ru_id r)))"

definition rule_targets :: "string \<Rightarrow> string \<Rightarrow> string \<Rightarrow> rule \<Rightarrow> bool" where
  "rule_targets d op res r \<longleftrightarrow> tg_domain (ru_target r) = d \<and> tg_operation (ru_target r) = op
     \<and> selector_matches (tg_selector (ru_target r)) res"

definition rule_applies :: "string \<Rightarrow> string \<Rightarrow> string \<Rightarrow> payload \<Rightarrow> rule \<Rightarrow> bool" where
  "rule_applies d op res facts r \<longleftrightarrow> rule_targets d op res r
     \<and> (case ru_cond r of None \<Rightarrow> True | Some c \<Rightarrow> condition_satisfied facts c = Inr True)"

text \<open>No condition of a targeted rule compares a value that is no number.\<close>

definition comparable :: "assembled \<Rightarrow> string \<Rightarrow> string \<Rightarrow> string \<Rightarrow> payload \<Rightarrow> bool" where
  "comparable ds d op res facts \<longleftrightarrow> (\<forall>x \<in> set (rules_of ds). rule_targets d op res (source_rule x) \<longrightarrow>
     (case ru_cond (source_rule x) of None \<Rightarrow> True | Some c \<Rightarrow> isl (condition_satisfied facts c) = False))"

definition limit_value :: "effect \<Rightarrow> int" where
  "limit_value e = (case as_count (ef_value e) of None \<Rightarrow> 0 | Some i \<Rightarrow> i)"

definition strength :: "string \<Rightarrow> effect \<Rightarrow> nat \<times> int" where
  "strength scope e = (scope_rank scope,
     if ef_kind e = ''LIMIT'' then - limit_value e else int (effect_priority (ef_kind e)))"

definition source_strength :: "sourced \<Rightarrow> nat \<times> int" where
  "source_strength x = strength (source_scope x) (ru_effect (source_rule x))"

text \<open>The rule governs: it applies, and no applying rule is stronger.\<close>

definition governs :: "assembled \<Rightarrow> string \<Rightarrow> string \<Rightarrow> string \<Rightarrow> payload \<Rightarrow> sourced \<Rightarrow> bool" where
  "governs ds d op res facts x \<longleftrightarrow> x \<in> set (rules_of ds) \<and> rule_applies d op res facts (source_rule x)
     \<and> (\<forall>y \<in> set (rules_of ds). rule_applies d op res facts (source_rule y) \<longrightarrow> source_strength y \<le> source_strength x)"

definition well_assembled :: "assembled \<Rightarrow> bool" where
  "well_assembled ds \<longleftrightarrow> distinct (map (\<lambda>(did, v, doc). (did, v)) ds)
     \<and> list_all (\<lambda>(did, v, doc). built_document doc) ds"

section \<open>Sources and citations\<close>

lemma mem_rules_of: "(did, v, doc, r) \<in> set (rules_of ds) \<longleftrightarrow> (did, v, doc) \<in> set ds \<and> r \<in> set (do_rules doc)"
proof (induction ds)
  case (Cons x ds)
  then show ?case by (cases x) (auto simp: rules_of_def)
qed (simp add: rules_of_def)

lemma source_cite_inj:
  assumes "well_assembled ds" and "x \<in> set (rules_of ds)" and "y \<in> set (rules_of ds)"
    and "source_cite x = source_cite y"
  shows "x = y"
proof -
  obtain d1 v1 doc1 r1 d2 v2 doc2 r2 where xy: "x = (d1, v1, doc1, r1)" "y = (d2, v2, doc2, r2)"
    by (metis surj_pair)
  with assms(4) have same: "d1 = d2" "v1 = v2" "ru_id r1 = ru_id r2" by (auto simp: source_cite_def)
  from assms(2,3) xy have m: "(d1, v1, doc1) \<in> set ds" "(d2, v2, doc2) \<in> set ds"
      "r1 \<in> set (do_rules doc1)" "r2 \<in> set (do_rules doc2)"
    by (auto simp: mem_rules_of)
  have "inj_on (\<lambda>(did, v, doc). (did, v)) (set ds)"
    using assms(1) by (simp add: well_assembled_def distinct_map)
  from inj_onD [OF this _ m(1,2)] same(1,2) have docs: "doc1 = doc2" by simp
  have "distinct (map ru_id (do_rules doc1))"
    using assms(1) m(1) by (auto simp: well_assembled_def list_all_iff built_document_def)
  with m(3,4) docs same(3) have "r1 = r2" by (auto simp: distinct_map dest: inj_onD)
  with xy same docs show ?thesis by simp
qed

lemma built_source_rule: "well_assembled ds \<Longrightarrow> x \<in> set (rules_of ds) \<Longrightarrow> built_rule (source_rule x)"
  by (cases x) (auto simp: source_rule_def mem_rules_of well_assembled_def built_document_def list_all_iff)

definition as_cited :: "sourced \<Rightarrow> cited_rule" where
  "as_cited x = (case x of (did, v, doc, r) \<Rightarrow> (did, v, hd_scope (do_header doc), r))"

lemma set_all_rules: "set (all_rules ds) = as_cited ` set (rules_of ds)"
  by (auto simp: all_rules_def as_cited_def image_iff split: prod.splits)

definition source_judged :: "sourced \<Rightarrow> sourced \<Rightarrow> pair_decision option" where
  "source_judged x y = decide_pair (source_scope x) (ru_effect (source_rule x)) (source_cite x)
     (source_scope y) (ru_effect (source_rule y)) (source_cite y)"

lemma judged_as_cited: "judged (as_cited x, as_cited y) = source_judged x y"
  by (cases x; cases y)
    (simp add: judged_def as_cited_def source_judged_def source_scope_def source_rule_def source_cite_def)

lemma clash_as_cited: "clash (as_cited x, as_cited y) \<longleftrightarrow> overlapping (source_rule x) (source_rule y)"
  by (cases x; cases y) (simp add: clash_def as_cited_def source_rule_def)

lemma rule_key_as_cited:
  "rule_key (as_cited x) = (tg_domain (ru_target (source_rule x)), tg_operation (ru_target (source_rule x)))"
  by (cases x) (simp add: rule_key_def as_cited_def source_rule_def)

lemma cite_as_cited: "cite (as_cited x) = source_cite x"
  by (cases x) (simp add: cite_def as_cited_def source_cite_def)

section \<open>Decided pairs\<close>

text \<open>A decision goes to the stronger side; without an eclipse the two are equally strong.\<close>

lemma decide_pair_strength:
  assumes "source_judged x y = Some (w, l, b, s)"
  shows "(w = source_cite x \<and> l = source_cite y \<and> source_strength y \<le> source_strength x
        \<and> (s \<longleftrightarrow> source_strength x \<noteq> source_strength y))
     \<or> (w = source_cite y \<and> l = source_cite x \<and> source_strength x \<le> source_strength y
        \<and> s \<and> source_strength x \<noteq> source_strength y)"
  using assms
  unfolding source_judged_def decide_pair_def source_strength_def strength_def limit_value_def
  by (simp split: if_splits option.splits; linarith?)

lemma decided_tie:
  assumes "source_judged x y = Some (w, l, b, s)" and "source_strength x = source_strength y"
    and "built_rule (source_rule x)" and "built_rule (source_rule y)"
  shows "ef_kind (ru_effect (source_rule x)) = ef_kind (ru_effect (source_rule y))"
    and "ef_value (ru_effect (source_rule x)) = ef_value (ru_effect (source_rule y))"
proof -
  let ?a = "ru_effect (source_rule x)" and ?b = "ru_effect (source_rule y)"
  have kinds: "ef_kind ?a \<in> set effect_kinds" "ef_kind ?b \<in> set effect_kinds"
      "ef_kind ?a = ''LIMIT'' \<longleftrightarrow> ef_value ?a \<noteq> PyNone" "ef_kind ?b = ''LIMIT'' \<longleftrightarrow> ef_value ?b \<noteq> PyNone"
    using assms(3,4) by (auto simp: built_rule_def built_effect_def)
  have rank: "scope_rank (source_scope x) = scope_rank (source_scope y)"
    using assms(2) by (simp add: source_strength_def strength_def)
  have lim: "ef_kind ?a = ''LIMIT'' \<longleftrightarrow> ef_kind ?b = ''LIMIT''"
    using assms(1) rank by (auto simp: source_judged_def decide_pair_def split: if_splits)
  show same: "ef_kind ?a = ef_kind ?b"
  proof (cases "ef_kind ?a = ''LIMIT''")
    case False
    then have "effect_priority (ef_kind ?a) = effect_priority (ef_kind ?b)"
      using assms(2) lim by (simp add: source_strength_def strength_def)
    with kinds(1,2) False lim show ?thesis
      by (auto simp: effect_kinds_def effect_priority_def effect_priorities_def)
  qed (use lim in simp)
  show "ef_value ?a = ef_value ?b"
  proof (cases "ef_kind ?a = ''LIMIT''")
    case True
    with assms(1) rank lim obtain i j where ij: "as_count (ef_value ?a) = Some i" "as_count (ef_value ?b) = Some j"
      by (auto simp: source_judged_def decide_pair_def simp del: as_count_Some split: option.splits if_splits)
    with assms(2) True lim have "i = j" by (simp add: source_strength_def strength_def limit_value_def)
    with ij show ?thesis by simp
  qed (use kinds same in simp)
qed

section \<open>Applying rules were compared\<close>

lemma applying_overlap:
  assumes "rule_applies d op res facts r" and "rule_applies d op res facts r'"
    and "built_rule r" and "built_rule r'"
  shows "overlapping r r'"
proof -
  have "selectors_overlap (tg_selector (ru_target r)) (tg_selector (ru_target r'))"
    using assms(1,2) by (auto simp: rule_applies_def rule_targets_def selector_matches_def selectors_overlap_def)
  moreover have "\<not> conditions_provably_disjoint (ru_cond r) (ru_cond r')"
  proof
    assume dis: "conditions_provably_disjoint (ru_cond r) (ru_cond r')"
    then obtain a b where ab: "ru_cond r = Some a" "ru_cond r' = Some b"
      by (auto simp: conditions_provably_disjoint_def split: option.splits)
    with assms dis disjoint_conditions_sound [of a b facts] show False
      by (simp add: rule_applies_def built_rule_def)
  qed
  ultimately show ?thesis by (simp add: overlapping_def)
qed

lemma detected:
  assumes "detect_conflicts ds = ([], dec, ws)"
  shows "\<forall>p \<in> set (group_pairs (all_rules ds)). clash p \<longrightarrow> judged p \<noteq> None"
    and "shadows_of dec c = eclipsed (group_pairs (all_rules ds)) c"
proof -
  let ?cf = "foldl check_pair \<lparr>cf_errors = [], cf_decisions = [], cf_warnings = []\<rparr> (group_pairs (all_rules ds))"
  have err: "cf_errors ?cf = []" and dec: "dec = cf_decisions ?cf"
    using assms by (auto simp: detect_conflicts_def sort_findings_def Let_def
        dest: arg_cong [where f = length])
  note c = check_pairs [OF err]
  show "\<forall>p \<in> set (group_pairs (all_rules ds)). clash p \<longrightarrow> judged p \<noteq> None" using c by blast
  have "shadows_of [] c = {}" by (simp add: shadows_of_def decided_at_def)
  with c [of c] show "shadows_of dec c = eclipsed (group_pairs (all_rules ds)) c" by (simp add: dec)
qed

lemma applying_compared:
  assumes det: "detect_conflicts ds = ([], dec, ws)" and wa: "well_assembled ds"
    and xy: "x \<in> set (rules_of ds)" "y \<in> set (rules_of ds)" "source_cite x \<noteq> source_cite y"
    and app: "rule_applies d op res facts (source_rule x)" "rule_applies d op res facts (source_rule y)"
  shows "\<exists>a b w l h s. {a, b} = {x, y} \<and> source_judged a b = Some (w, l, h, s)
    \<and> (s \<longrightarrow> l \<in> shadows_of dec w)"
proof -
  have key: "rule_key (as_cited x) = rule_key (as_cited y)"
    using app by (simp add: rule_key_as_cited rule_applies_def rule_targets_def)
  have "as_cited x \<noteq> as_cited y" using xy(3) cite_as_cited by metis
  from group_pairs_complete [OF _ _ key this] xy(1,2)
  have "(as_cited x, as_cited y) \<in> set (group_pairs (all_rules ds))
      \<or> (as_cited y, as_cited x) \<in> set (group_pairs (all_rules ds))"
    by (simp add: set_all_rules)
  then obtain a b where ab: "{a, b} = {x, y}" "(as_cited a, as_cited b) \<in> set (group_pairs (all_rules ds))"
    by blast
  then have mem: "a = x \<and> b = y \<or> a = y \<and> b = x" by (auto simp: doubleton_eq_iff)
  have cl: "clash (as_cited a, as_cited b)"
    using mem applying_overlap [OF app(1,2)] applying_overlap [OF app(2,1)]
      built_source_rule [OF wa xy(1)] built_source_rule [OF wa xy(2)] unfolding clash_as_cited by blast
  with detected(1) [OF det] ab(2) obtain r where "judged (as_cited a, as_cited b) = Some r" by blast
  then obtain w l h s where j: "judged (as_cited a, as_cited b) = Some (w, l, h, s)" by (cases r) blast
  have "s \<longrightarrow> l \<in> shadows_of dec w"
  proof
    assume s
    with j have "judged (as_cited a, as_cited b) = Some (w, l, h, True)" by simp
    then show "l \<in> shadows_of dec w"
      unfolding detected(2) [OF det] eclipsed_def using ab(2) cl by blast
  qed
  with ab(1) j show ?thesis unfolding judged_as_cited by blast
qed

lemma shadow_stronger:
  assumes det: "detect_conflicts ds = ([], dec, ws)" and wa: "well_assembled ds"
    and xy: "x \<in> set (rules_of ds)" "y \<in> set (rules_of ds)"
    and sh: "source_cite y \<in> shadows_of dec (source_cite x)"
  shows "source_strength y < source_strength x"
proof -
  from sh obtain p b where p: "p \<in> set (group_pairs (all_rules ds))" "judged p = Some (source_cite x, source_cite y, b, True)"
    unfolding detected(2) [OF det] eclipsed_def by blast
  obtain p1 p2 where p12: "p = (p1, p2)" by (cases p)
  with p(1) group_pairs_mem [of p1 p2] have "p1 \<in> set (all_rules ds)" "p2 \<in> set (all_rules ds)" by auto
  then obtain u v where uv: "p1 = as_cited u" "p2 = as_cited v" "u \<in> set (rules_of ds)" "v \<in> set (rules_of ds)"
    by (auto simp: set_all_rules)
  have j: "source_judged u v = Some (source_cite x, source_cite y, b, True)"
    using p(2) p12 uv by (simp add: judged_as_cited)
  from decide_pair_strength [OF j] source_cite_inj [OF wa] uv(3,4) xy
  show ?thesis by (metis order_less_le)
qed

section \<open>The snapshot's entries\<close>

lemma filterm_ok: "(\<And>x. x \<in> set xs \<Longrightarrow> f x = Inr (P x)) \<Longrightarrow> filterm f xs = Inr (filter P xs)"
  by (induction xs) auto

lemma distinct_source_cites: "well_assembled ds \<Longrightarrow> distinct (map source_cite (rules_of ds))"
proof (induction ds)
  case Nil
  then show ?case by (simp add: rules_of_def)
next
  case (Cons a ds)
  obtain did v doc where a: "a = (did, v, doc)" by (cases a)
  from Cons.prems a have wa: "well_assembled ds" and ids: "distinct (map ru_id (do_rules doc))"
    and fresh: "(did, v) \<notin> (\<lambda>(did, v, doc). (did, v)) ` set ds"
    by (auto simp: well_assembled_def built_document_def)
  have split: "rules_of (a # ds) = map (\<lambda>r. (did, v, doc, r)) (do_rules doc) @ rules_of ds"
    by (simp add: rules_of_def a)
  have "distinct (map (\<lambda>r. (did, v, Some (ru_id r))) (do_rules doc))"
    using ids by (auto simp: distinct_map inj_on_def)
  moreover have "(\<lambda>r. (did, v, Some (ru_id r))) ` set (do_rules doc) \<inter> source_cite ` set (rules_of ds) = {}"
    using fresh by (force simp: source_cite_def mem_rules_of)
  ultimately show ?case
    using Cons.IH [OF wa] by (simp add: split comp_def source_cite_def [of "(did, v, doc, _)"])
qed

lemma finite_eclipsed: "finite (eclipsed ps c)"
proof (rule finite_subset)
  show "eclipsed ps c \<subseteq> (\<lambda>p. fst (snd (the (judged p)))) ` set ps"
    unfolding eclipsed_def by force
qed simp

lemma make_entry_fields [simp]:
  "ie_citation (make_entry dec x) = source_cite x"
  "ie_kind (make_entry dec x) = ef_kind (ru_effect (source_rule x))"
  "ie_value (make_entry dec x) = ef_value (ru_effect (source_rule x))"
  by (cases x; simp add: make_entry_def source_cite_def source_rule_def Let_def)+

lemma make_entry_shadows:
  assumes "detect_conflicts ds = ([], dec, ws)"
  shows "set (ie_shadows (make_entry dec x)) = shadows_of dec (source_cite x)"
proof -
  have "finite (shadows_of dec (source_cite x))"
    unfolding detected(2) [OF assms] by (rule finite_eclipsed)
  then show ?thesis by (cases x) (simp add: make_entry_def source_cite_def Let_def shadows_of_def)
qed

lemma make_entry_matches:
  assumes "comparable ds d op res facts" and "x \<in> set (rules_of ds)"
  shows "entry_matches d op res facts (make_entry dec x) = Inr (rule_applies d op res facts (source_rule x))"
proof -
  obtain did v doc r where x: "x = (did, v, doc, r)" by (cases x)
  have "isl (condition_satisfied facts c) = False" if "rule_targets d op res r" "ru_cond r = Some c" for c
    using assms that by (auto simp: comparable_def x source_rule_def)
  then show ?thesis
    by (cases "ru_cond r"; cases "condition_satisfied facts (the (ru_cond r))")
      (auto simp: x entry_matches_def make_entry_def Let_def rule_applies_def rule_targets_def source_rule_def)
qed

lemma construct_entries:
  "set (sn_entries (construct_snapshot sha ds dec pos voc rv)) = make_entry dec ` set (rules_of ds)"
  "distinct (map ie_citation (sn_entries (construct_snapshot sha ds dec pos voc rv))) \<longleftrightarrow>
     distinct (map source_cite (rules_of ds))"
proof -
  let ?key = "\<lambda>e. (ie_domain e, ie_operation e, ie_scope e, ie_selector e, ie_citation e)"
  let ?es = "map (make_entry dec) (rules_of ds)"
  have es: "sn_entries (construct_snapshot sha ds dec pos voc rv) = sort_key ?key ?es"
    by (simp add: construct_snapshot_def Let_def)
  show "set (sn_entries (construct_snapshot sha ds dec pos voc rv)) = make_entry dec ` set (rules_of ds)"
    by (simp add: es)
  have "mset (map ie_citation (sort_key ?key ?es)) = mset (map ie_citation ?es)"
    by (simp only: mset_map mset_sort)
  then have "distinct (map ie_citation (sort_key ?key ?es)) \<longleftrightarrow> distinct (map ie_citation ?es)"
    by (rule mset_eq_imp_distinct_iff)
  then show "distinct (map ie_citation (sn_entries (construct_snapshot sha ds dec pos voc rv))) \<longleftrightarrow>
     distinct (map source_cite (rules_of ds))"
    by (simp add: es comp_def)
qed

section \<open>The winner\<close>

lemma filter_image: "(\<And>x. g (f x) = c x) \<Longrightarrow> {e \<in> f ` A. g e \<notin> U} = f ` {x \<in> A. c x \<notin> U}"
  by auto

lemma undominated_governs:
  assumes det: "detect_conflicts ds = ([], dec, ws)" and wa: "well_assembled ds"
    and matched: "set matched = make_entry dec ` {x \<in> set (rules_of ds). rule_applies d op res facts (source_rule x)}"
  shows "set (undominated matched) = make_entry dec ` {x. governs ds d op res facts x}"
proof -
  let ?A = "{x \<in> set (rules_of ds). rule_applies d op res facts (source_rule x)}"
  have sh: "set (concat (map ie_shadows matched)) = (\<Union>y \<in> ?A. shadows_of dec (source_cite y))"
    using make_entry_shadows [OF det] by (simp add: matched)
  have free: "source_cite x \<notin> (\<Union>y \<in> ?A. shadows_of dec (source_cite y)) \<longleftrightarrow>
      (\<forall>y \<in> ?A. source_strength y \<le> source_strength x)" if x: "x \<in> ?A" for x
  proof
    assume free: "source_cite x \<notin> (\<Union>y \<in> ?A. shadows_of dec (source_cite y))"
    show "\<forall>y \<in> ?A. source_strength y \<le> source_strength x"
    proof
      fix y assume y: "y \<in> ?A"
      show "source_strength y \<le> source_strength x"
      proof (cases "source_cite x = source_cite y")
        case True
        with source_cite_inj [OF wa _ _ True] x y show ?thesis by simp
      next
        case False
        from x y have mem: "x \<in> set (rules_of ds)" "y \<in> set (rules_of ds)"
          "rule_applies d op res facts (source_rule x)" "rule_applies d op res facts (source_rule y)" by simp_all
        from applying_compared [OF det wa mem(1,2) False mem(3,4)]
        obtain a b w l h s where j: "{a, b} = {x, y}" "source_judged a b = Some (w, l, h, s)"
            "s \<longrightarrow> l \<in> shadows_of dec w" by blast
        have "\<not> (w = source_cite y \<and> l = source_cite x \<and> s)" using free y j(3) by blast
        with decide_pair_strength [OF j(2)] j(1) False show ?thesis
          unfolding doubleton_eq_iff by (metis order_refl)
      qed
    qed
  next
    assume top: "\<forall>y \<in> ?A. source_strength y \<le> source_strength x"
    show "source_cite x \<notin> (\<Union>y \<in> ?A. shadows_of dec (source_cite y))"
    proof
      assume "source_cite x \<in> (\<Union>y \<in> ?A. shadows_of dec (source_cite y))"
      then obtain y where y: "y \<in> ?A" "source_cite x \<in> shadows_of dec (source_cite y)" by blast
      have "source_strength x < source_strength y" using shadow_stronger [OF det wa _ _ y(2)] x y(1) by blast
      moreover have "source_strength y \<le> source_strength x" using top y(1) by blast
      ultimately show False by (meson leD)
    qed
  qed
  have "set (undominated matched) = make_entry dec ` {x \<in> ?A. source_cite x \<notin> (\<Union>y \<in> ?A. shadows_of dec (source_cite y))}"
    unfolding undominated_def set_filter sh unfolding matched by (rule filter_image) simp
  also have "{x \<in> ?A. source_cite x \<notin> (\<Union>y \<in> ?A. shadows_of dec (source_cite y))} = {x. governs ds d op res facts x}"
    using free unfolding governs_def by blast
  finally show ?thesis .
qed

lemma governing_exists:
  assumes "x \<in> set (rules_of ds)" and "rule_applies d op res facts (source_rule x)"
  shows "\<exists>y. governs ds d op res facts y"
proof -
  let ?A = "{x \<in> set (rules_of ds). rule_applies d op res facts (source_rule x)}"
  let ?m = "Max (source_strength ` ?A)"
  have fin: "finite (source_strength ` ?A)" by simp
  have ne: "source_strength ` ?A \<noteq> {}" using assms by blast
  from Max_in [OF fin ne] obtain y where y: "y \<in> ?A" "?m = source_strength y" by auto
  have "source_strength z \<le> source_strength y" if "z \<in> ?A" for z
    using Max_ge [OF fin, of "source_strength z"] that y(2) by simp
  with y(1) show ?thesis unfolding governs_def by blast
qed

lemma governs_same_effect:
  assumes det: "detect_conflicts ds = ([], dec, ws)" and wa: "well_assembled ds"
    and gov: "governs ds d op res facts x" "governs ds d op res facts y" and ne: "source_cite x \<noteq> source_cite y"
  shows "ef_kind (ru_effect (source_rule x)) = ef_kind (ru_effect (source_rule y))
    \<and> ef_value (ru_effect (source_rule x)) = ef_value (ru_effect (source_rule y))
    \<and> py_eq (ef_value (ru_effect (source_rule x))) (ef_value (ru_effect (source_rule y)))"
proof -
  from gov have mem: "x \<in> set (rules_of ds)" "y \<in> set (rules_of ds)"
      "rule_applies d op res facts (source_rule x)" "rule_applies d op res facts (source_rule y)"
      "source_strength x = source_strength y"
    by (auto simp: governs_def intro: order_antisym)
  from applying_compared [OF det wa mem(1,2) ne mem(3,4)]
  obtain a b w l h s where j: "{a, b} = {x, y}" "source_judged a b = Some (w, l, h, s)" by blast
  have ab: "a = x \<and> b = y \<or> a = y \<and> b = x" using j(1) by (auto simp: doubleton_eq_iff)
  have bx: "built_rule (source_rule a)" "built_rule (source_rule b)" "source_strength a = source_strength b"
    using built_source_rule [OF wa mem(1)] built_source_rule [OF wa mem(2)] ab mem(5) by auto
  note tie = decided_tie [OF j(2) bx(3,1,2)]
  have "py_eq (ef_value (ru_effect (source_rule a))) (ef_value (ru_effect (source_rule b)))"
  proof (cases "ef_kind (ru_effect (source_rule a)) = ''LIMIT''")
    case True
    have "scope_rank (source_scope a) = scope_rank (source_scope b)"
      using bx(3) by (simp add: source_strength_def strength_def)
    with j(2) True tie(1) show ?thesis
      by (auto simp: source_judged_def decide_pair_def bx(3) tie(2) [symmetric] split: option.splits if_splits)
  next
    case False
    with bx(1) have "ef_value (ru_effect (source_rule a)) = PyNone"
      by (simp add: built_rule_def built_effect_def)
    with tie(2) show ?thesis by simp
  qed
  then show ?thesis using tie ab by metis
qed

lemma sort_findings_Nil [simp]: "sort_findings fs = [] \<longleftrightarrow> fs = []"
  unfolding sort_findings_def by (metis length_0_conv length_sort)

lemma compiled_stages:
  assumes "compile_stages sha ds pos voc rv = (errs, ws, Some sn)"
  shows "\<exists>dec shadows. detect_conflicts ds = ([], dec, shadows) \<and> sn = construct_snapshot sha ds dec pos voc rv
    \<and> check_vocabulary ds voc = [] \<and> check_scope_and_modifier ds = [] \<and> check_totality ds voc = [] \<and> errs = []"
  using assms by (auto simp: compile_stages_def split: prod.splits if_splits)

text \<open>The question of a snapshot is answered by the governing rule, or no rule applies.\<close>

definition answered_by_policy ::
  "assembled \<Rightarrow> string \<Rightarrow> string \<Rightarrow> string \<Rightarrow> payload \<Rightarrow> (index_entry \<times> citation list \<times> bool) refusing \<Rightarrow> bool" where
  "answered_by_policy ds d op res facts r \<longleftrightarrow>
     (case r of
        Inr (w, cites, fallback) \<Rightarrow>
          (\<exists>x. governs ds d op res facts x \<and> ie_citation w = source_cite x
             \<and> ie_kind w = ef_kind (ru_effect (source_rule x)) \<and> ie_value w = ef_value (ru_effect (source_rule x))
             \<and> ie_final w = ru_final (source_rule x))
          \<and> set cites = source_cite ` {x \<in> set (rules_of ds). rule_applies d op res facts (source_rule x)}
      | Inl e \<Rightarrow>
          e = SnapshotIntegrityError (''evaluator.totality_hole:'' @ d @ ''.'' @ op @ '':'' @ res)
          \<and> (\<forall>x \<in> set (rules_of ds). \<not> rule_applies d op res facts (source_rule x)))"

lemma make_entry_final [simp]: "ie_final (make_entry dec x) = ru_final (source_rule x)"
  by (cases x) (simp add: make_entry_def source_rule_def Let_def)

lemma compiled_decides:
  assumes comp: "compile_stages sha ds pos voc rv = (errs, ws, Some sn)" and wa: "well_assembled ds"
    and cmp: "comparable ds d op res facts"
  shows "answered_by_policy ds d op res facts (match_and_win sn d op res facts)"
proof -
  let ?A = "{x \<in> set (rules_of ds). rule_applies d op res facts (source_rule x)}"
  obtain dec shadows where det: "detect_conflicts ds = ([], dec, shadows)"
      and sn: "sn = construct_snapshot sha ds dec pos voc rv"
    using compiled_stages [OF comp] by blast
  let ?P = "\<lambda>e. entry_matches d op res facts e = Inr True"
  define matched where "matched = filter ?P (sn_entries sn)"
  have ent: "set (sn_entries sn) = make_entry dec ` set (rules_of ds)" by (simp add: sn construct_entries)
  have tested: "entry_matches d op res facts e = Inr (?P e)" if "e \<in> set (sn_entries sn)" for e
  proof -
    from that obtain x where "x \<in> set (rules_of ds)" "e = make_entry dec x" by (auto simp: ent)
    then show ?thesis using make_entry_matches [OF cmp, of x dec] by simp
  qed
  then have filt: "filterm (entry_matches d op res facts) (sn_entries sn) = Inr matched"
    unfolding matched_def by (intro filterm_ok)
  have mset: "set matched = make_entry dec ` ?A"
    using make_entry_matches [OF cmp, of _ dec] by (auto simp: matched_def ent)
  note und = undominated_governs [OF det wa mset]
  show ?thesis
  proof (cases "matched = []")
    case True
    then have "match_and_win sn d op res facts
        = Inl (SnapshotIntegrityError (''evaluator.totality_hole:'' @ d @ ''.'' @ op @ '':'' @ res))"
      by (simp add: match_and_win_def filt)
    moreover from True mset have "?A = {}" by simp
    ultimately show ?thesis by (auto simp: answered_by_policy_def)
  next
    case False
    then have "set matched \<noteq> {}" by simp
    then obtain x0 where "x0 \<in> ?A" unfolding mset by blast
    then obtain g where "governs ds d op res facts g" using governing_exists by blast
    then have "undominated matched \<noteq> []" using und by auto
    then obtain w others where w: "undominated matched = w # others" by (cases "undominated matched") auto
    have "w \<in> make_entry dec ` {x. governs ds d op res facts x}" unfolding und [symmetric] w by simp
    then obtain x where x: "governs ds d op res facts x" "w = make_entry dec x" by blast
    have "distinct (map ie_citation (sn_entries sn))"
      using distinct_source_cites [OF wa] by (simp add: sn construct_entries)
    then have "distinct (map ie_citation (undominated matched))"
      by (simp add: undominated_def matched_def distinct_map_filter)
    then have "ie_citation w \<notin> ie_citation ` set others" by (simp add: w)
    then have fresh: "ie_citation e \<noteq> ie_citation w" if "e \<in> set others" for e using that by (metis imageI)
    have "ie_kind e = ie_kind w \<and> py_eq (ie_value e) (ie_value w)" if e: "e \<in> set others" for e
    proof -
      have "e \<in> make_entry dec ` {x. governs ds d op res facts x}" unfolding und [symmetric] w using e by simp
      then obtain y where y: "governs ds d op res facts y" "e = make_entry dec y" by blast
      have "source_cite y \<noteq> source_cite x" using fresh [OF e] x(2) y(2) by simp
      from governs_same_effect [OF det wa y(1) x(1) this] show ?thesis
        unfolding x(2) y(2) make_entry_fields by blast
    qed
    then have "find (\<lambda>e. ie_kind e \<noteq> ie_kind w \<or> \<not> py_eq (ie_value e) (ie_value w)) others = None"
      by (simp add: find_None_iff)
    then have "match_and_win sn d op res facts = Inr (w, map ie_citation matched,
        ie_scope w = ''system'' \<and> ie_selector w = ''*'' \<and> length matched = 1)"
      using False by (simp add: match_and_win_def filt w)
    moreover have "ie_citation ` set matched = source_cite ` ?A" unfolding mset image_image by simp
    moreover have "\<exists>x. governs ds d op res facts x \<and> ie_citation w = source_cite x
       \<and> ie_kind w = ef_kind (ru_effect (source_rule x)) \<and> ie_value w = ef_value (ru_effect (source_rule x))
       \<and> ie_final w = ru_final (source_rule x)"
      using x(1) unfolding x(2) make_entry_fields make_entry_final by blast
    ultimately show ?thesis by (simp add: answered_by_policy_def del: split_paired_Ex)
  qed
qed

end
