(* ===== verification/SgpeLedger.thy ===== *)
theory SgpeLedger
  imports SgpeEvaluator
begin

text \<open>
  The grant ledger and the resolver (\<open>sgpe/ledger.py\<close>, \<open>sgpe/resolver.py\<close>): the append-only
  record of approvals and revocations, the binding of a request to a snapshot and a ledger
  position at admission, and the slice a consultation sees. Reading the ledger's position
  cannot raise here, so the refusal for an unreachable ledger has no branch.
\<close>

section \<open>Records\<close>

definition scope_kinds :: "string list" where
  "scope_kinds = [''request'', ''principal'', ''project'']"

record scope_binding =
  sb_kind :: string
  sb_subject :: string

definition build_scope_binding :: "pyval \<Rightarrow> pyval \<Rightarrow> scope_binding refusing" where
  "build_scope_binding kind subject =
     (case among scope_kinds kind of
        None \<Rightarrow> Inl (LedgerRefusal (''ledger.unknown_scope_kind:'' @ py_repr kind))
      | Some k \<Rightarrow>
          (case as_name subject of
             None \<Rightarrow> Inl (LedgerRefusal (''ledger.bad_scope_subject:'' @ py_repr subject))
           | Some s \<Rightarrow> Inr \<lparr>sb_kind = k, sb_subject = s\<rparr>))"

record grant_provenance =
  gp_grantor :: string
  gp_snapshot :: int
  gp_position :: int
  gp_ruleset :: int
  gp_question :: string
  gp_reason :: string

definition ledger_name :: "string \<Rightarrow> pyval \<Rightarrow> string refusing" where
  "ledger_name label v =
     (case as_name v of
        None \<Rightarrow> Inl (LedgerRefusal (''ledger.bad_'' @ label @ '':'' @ py_repr v))
      | Some s \<Rightarrow> Inr s)"

definition ledger_count :: "string \<Rightarrow> pyval \<Rightarrow> int refusing" where
  "ledger_count label v =
     (case as_count v of
        None \<Rightarrow> Inl (LedgerRefusal (''ledger.bad_'' @ label @ '':'' @ py_repr v))
      | Some i \<Rightarrow> if i < 0 then Inl (LedgerRefusal (''ledger.bad_'' @ label @ '':'' @ py_repr v)) else Inr i)"

definition build_grant_provenance ::
  "pyval \<Rightarrow> pyval \<Rightarrow> pyval \<Rightarrow> pyval \<Rightarrow> pyval \<Rightarrow> pyval \<Rightarrow> grant_provenance refusing" where
  "build_grant_provenance grantor sv pos rv qh reason =
     bind_sum (ledger_name ''grantor'' grantor) (\<lambda>g. bind_sum (ledger_name ''question_hash'' qh) (\<lambda>q.
     bind_sum (ledger_name ''reason'' reason) (\<lambda>r. bind_sum (ledger_count ''snapshot_version'' sv) (\<lambda>s.
     bind_sum (ledger_count ''grant_slice_position'' pos) (\<lambda>p.
     bind_sum (ledger_count ''evaluation_ruleset_version'' rv) (\<lambda>v.
       Inr \<lparr>gp_grantor = g, gp_snapshot = s, gp_position = p, gp_ruleset = v, gp_question = q, gp_reason = r\<rparr>))))))"

record ledger_record =
  lr_id :: string
  lr_kind :: string
  lr_signature :: string
  lr_revoked :: "string option"
  lr_scope :: scope_binding
  lr_bound :: "cond option"
  lr_prov :: grant_provenance
  lr_position :: int

definition record_to_pydict :: "ledger_record \<Rightarrow> pyval" where
  "record_to_pydict r = PyDict [(''record_id'', PyStr (lr_id r)), (''kind'', PyStr (lr_kind r)),
     (''ask_signature'', PyStr (lr_signature r)), (''revoked_grant_id'', opt_name (lr_revoked r)),
     (''scope'', PyDict [(''kind'', PyStr (sb_kind (lr_scope r))), (''subject'', PyStr (sb_subject (lr_scope r)))]),
     (''bound'', opt_cond_to_dict (lr_bound r)),
     (''provenance'', PyDict [(''grantor'', PyStr (gp_grantor (lr_prov r))),
        (''snapshot_version'', PyInt (gp_snapshot (lr_prov r))),
        (''grant_slice_position'', PyInt (gp_position (lr_prov r))),
        (''evaluation_ruleset_version'', PyInt (gp_ruleset (lr_prov r))),
        (''question_hash'', PyStr (gp_question (lr_prov r))), (''reason'', PyStr (gp_reason (lr_prov r)))]),
     (''position'', PyInt (lr_position r))]"

text \<open>A record read back keeps its scalar parts unvalidated.\<close>

record raw_record =
  rr_id :: pyval
  rr_kind :: pyval
  rr_signature :: pyval
  rr_revoked :: pyval
  rr_scope :: scope_binding
  rr_bound :: "cond option"
  rr_prov :: grant_provenance
  rr_position :: pyval

definition record_from_pydict :: "pyval \<Rightarrow> raw_record refusing" where
  "record_from_pydict data =
     bind_sum (item data ''provenance'') (\<lambda>p.
     bind_sum (item data ''record_id'') (\<lambda>rid. bind_sum (item data ''kind'') (\<lambda>kind.
     bind_sum (item data ''ask_signature'') (\<lambda>sig. bind_sum (item data ''revoked_grant_id'') (\<lambda>rev.
     bind_sum (item data ''scope'') (\<lambda>sc. bind_sum (item sc ''kind'') (\<lambda>sk. bind_sum (item sc ''subject'') (\<lambda>ss.
     bind_sum (build_scope_binding sk ss) (\<lambda>scope.
     bind_sum (item data ''bound'') (\<lambda>bv. bind_sum (opt_cond_from bv) (\<lambda>bound.
     bind_sum (item p ''grantor'') (\<lambda>g. bind_sum (item p ''snapshot_version'') (\<lambda>sv.
     bind_sum (item p ''grant_slice_position'') (\<lambda>gp. bind_sum (item p ''evaluation_ruleset_version'') (\<lambda>rv.
     bind_sum (item p ''question_hash'') (\<lambda>qh. bind_sum (item p ''reason'') (\<lambda>rs.
     bind_sum (build_grant_provenance g sv gp rv qh rs) (\<lambda>prov.
     bind_sum (item data ''position'') (\<lambda>pos.
       Inr \<lparr>rr_id = rid, rr_kind = kind, rr_signature = sig, rr_revoked = rev, rr_scope = scope, rr_bound = bound,
            rr_prov = prov, rr_position = pos\<rparr>)))))))))))))))))))"

section \<open>The ledger\<close>

record grant_ledger =
  lg_records :: "ledger_record list"
  lg_index :: "(string, ledger_record) dict"

definition empty_ledger :: grant_ledger where
  "empty_ledger = \<lparr>lg_records = [], lg_index = []\<rparr>"

type_synonym ('s, 'b) ledgered = "('s, 'b) world \<times> grant_ledger"

definition ledger_apply ::
  "'s blob_writer \<Rightarrow> 'b publisher \<Rightarrow> ('s, 'b) ledgered \<Rightarrow> ledger_record \<Rightarrow> string
     \<Rightarrow> ('s, 'b) ledgered \<times> ledger_record refusing" where
  "ledger_apply wr pub wl r name =
     (case wl of (w, l) \<Rightarrow>
        (case wr (wd_store w) (''sgpe/ledger/'' @ int_str (lr_position r)) (json_dumps (record_to_pydict r)) of
           (s', Inl e) \<Rightarrow> ((w\<lparr>wd_store := s'\<rparr>, l), Inl StorageDown)
         | (s', Inr outcome) \<Rightarrow>
             if outcome = ''rejected'' then
               ((w\<lparr>wd_store := s'\<rparr>, l), Inl (LedgerRefusal (''ledger.append_rejected:'' @ int_str (lr_position r))))
             else if outcome \<noteq> ''committed'' then
               ((w\<lparr>wd_store := s'\<rparr>, l), Inl (LedgerRefusal (''ledger.unknown_storage_outcome:'' @ repr_str outcome)))
             else
               let l' = \<lparr>lg_records = lg_records l @ [r], lg_index = dset (lr_id r) r (lg_index l)\<rparr> in
               (case emit_policy_event pub (wd_bus w) name (name @ '':'' @ lr_id r) ''sgpe/ledger'' (record_to_pydict r) of
                  (b', Inl e) \<Rightarrow> ((w\<lparr>wd_store := s', wd_bus := b'\<rparr>, l'), Inl e)
                | (b', Inr _) \<Rightarrow> ((w\<lparr>wd_store := s', wd_bus := b'\<rparr>, l'), Inr r))))"

definition next_position :: "grant_ledger \<Rightarrow> int" where
  "next_position l = int (length (lg_records l)) + 1"

definition append_grant ::
  "'s blob_writer \<Rightarrow> 'b publisher \<Rightarrow> ('s, 'b) ledgered \<Rightarrow> pyval \<Rightarrow> scope_binding \<Rightarrow> grant_provenance \<Rightarrow> cond option
     \<Rightarrow> ('s, 'b) ledgered \<times> ledger_record refusing" where
  "append_grant wr pub wl sig scope prov bound =
     (case as_name sig of
        None \<Rightarrow> (wl, Inl (LedgerRefusal (''ledger.bad_ask_signature:'' @ py_repr sig)))
      | Some s \<Rightarrow>
          let pos = next_position (snd wl) in
          ledger_apply wr pub wl \<lparr>lr_id = ''grant-'' @ int_str pos, lr_kind = ''grant'', lr_signature = s,
            lr_revoked = None, lr_scope = scope, lr_bound = bound, lr_prov = prov, lr_position = pos\<rparr> ''grant.recorded'')"

definition append_revocation ::
  "'s blob_writer \<Rightarrow> 'b publisher \<Rightarrow> ('s, 'b) ledgered \<Rightarrow> pyval \<Rightarrow> grant_provenance
     \<Rightarrow> ('s, 'b) ledgered \<times> ledger_record refusing" where
  "append_revocation wr pub wl gid prov =
     (if hash_key gid = None then (wl, Inl PyTypeError)
      else (case (case gid of PyStr i \<Rightarrow> dget (lg_index (snd wl)) i | _ \<Rightarrow> None) of
        None \<Rightarrow> (wl, Inl (LedgerRefusal (''ledger.revocation_names_unknown_grant:'' @ py_repr gid)))
      | Some revoked \<Rightarrow>
          if lr_kind revoked \<noteq> ''grant'' then
            (wl, Inl (LedgerRefusal (''ledger.revocation_names_unknown_grant:'' @ py_repr gid)))
          else
            let pos = next_position (snd wl) in
            ledger_apply wr pub wl \<lparr>lr_id = ''revocation-'' @ int_str pos, lr_kind = ''revocation'',
              lr_signature = lr_signature revoked, lr_revoked = Some (lr_id revoked), lr_scope = lr_scope revoked,
              lr_bound = None, lr_prov = prov, lr_position = pos\<rparr> ''grant.revoked''))"

definition ledger_position :: "grant_ledger \<Rightarrow> int" where
  "ledger_position l = int (length (lg_records l))"

definition ledger_find :: "grant_ledger \<Rightarrow> string \<Rightarrow> ledger_record option" where
  "ledger_find l rid = dget (lg_index l) rid"

definition in_scope :: "string \<Rightarrow> string \<Rightarrow> string \<Rightarrow> ledger_record \<Rightarrow> bool" where
  "in_scope req prin proj r \<longleftrightarrow>
     (sb_kind (lr_scope r), sb_subject (lr_scope r))
       \<in> {(''request'', req), (''principal'', prin), (''project'', proj)}"

definition ledger_slice :: "grant_ledger \<Rightarrow> string \<Rightarrow> string \<Rightarrow> string \<Rightarrow> int \<Rightarrow> ledger_record list" where
  "ledger_slice l req prin proj pos =
     filter (\<lambda>r. lr_position r \<le> pos \<and> in_scope req prin proj r) (lg_records l)"

definition export_ledger :: "grant_ledger \<Rightarrow> pyval list" where
  "export_ledger l = map record_to_pydict (lg_records l)"

definition replay_ledger_record ::
  "'s blob_writer \<Rightarrow> 'b publisher \<Rightarrow> ('s, 'b) ledgered \<Rightarrow> pyval \<Rightarrow> sgpe_exn + ('s, 'b) ledgered" where
  "replay_ledger_record wr pub wl data =
     bind_sum (record_from_pydict data) (\<lambda>r.
       let pos = next_position (snd wl);
           rid = (if rr_kind r = PyStr ''grant'' then ''grant-'' else ''revocation-'') @ int_str pos
       in if \<not> py_eq (rr_position r) (PyInt pos) \<or> rr_id r \<noteq> PyStr rid then
            Inl (LedgerRefusal (''ledger.replay_position_mismatch:expected='' @ int_str pos @ '':got=''
              @ repr_tuple [py_repr (rr_id r), py_repr (rr_position r)]))
          else if rr_kind r = PyStr ''grant'' then
            ignore_entry (append_grant wr pub wl (rr_signature r) (rr_scope r) (rr_prov r) (rr_bound r))
          else if rr_kind r = PyStr ''revocation'' then
            ignore_entry (append_revocation wr pub wl (rr_revoked r) (rr_prov r))
          else Inl (LedgerRefusal (''ledger.replay_unknown_kind:'' @ py_repr (rr_kind r))))"

definition rebuild_ledger ::
  "'s blob_writer \<Rightarrow> 'b publisher \<Rightarrow> ('s, 'b) world \<Rightarrow> pyval list \<Rightarrow> sgpe_exn + ('s, 'b) ledgered" where
  "rebuild_ledger wr pub w log = foldm (replay_ledger_record wr pub) (w, empty_ledger) log"

section \<open>The resolver\<close>

record effective_policy =
  ep_snapshot :: int
  ep_position :: int
  ep_request :: string
  ep_principal :: string
  ep_project :: string

definition binding_name :: "string \<Rightarrow> pyval \<Rightarrow> string refusing" where
  "binding_name label v =
     (case as_name v of
        None \<Rightarrow> Inl (ResolverRefusal (''resolver.bad_'' @ label @ '':'' @ py_repr v))
      | Some s \<Rightarrow> Inr s)"

definition check_binding :: "pyval \<Rightarrow> pyval \<Rightarrow> pyval \<Rightarrow> pyval \<Rightarrow> pyval \<Rightarrow> effective_policy refusing" where
  "check_binding sv pos rid pri proj =
     (case as_count sv of
        None \<Rightarrow> Inl (ResolverRefusal (''resolver.bad_snapshot_version:'' @ py_repr sv))
      | Some s \<Rightarrow>
          if s < 1 then Inl (ResolverRefusal (''resolver.bad_snapshot_version:'' @ py_repr sv))
          else (case as_count pos of
            None \<Rightarrow> Inl (ResolverRefusal (''resolver.bad_admission_position:'' @ py_repr pos))
          | Some p \<Rightarrow>
              if p < 0 then Inl (ResolverRefusal (''resolver.bad_admission_position:'' @ py_repr pos))
              else bind_sum (binding_name ''request_id'' rid) (\<lambda>r. bind_sum (binding_name ''principal'' pri) (\<lambda>a.
                bind_sum (binding_name ''project'' proj) (\<lambda>j.
                  Inr \<lparr>ep_snapshot = s, ep_position = p, ep_request = r, ep_principal = a, ep_project = j\<rparr>)))))"

definition effective_policy_to_dict :: "effective_policy \<Rightarrow> pyval" where
  "effective_policy_to_dict ep = PyDict [(''snapshot_version'', PyInt (ep_snapshot ep)),
     (''admission_ledger_position'', PyInt (ep_position ep)), (''request_id'', PyStr (ep_request ep)),
     (''principal'', PyStr (ep_principal ep)), (''project'', PyStr (ep_project ep))]"

definition effective_policy_from_dict :: "pyval \<Rightarrow> effective_policy refusing" where
  "effective_policy_from_dict data =
     bind_sum (item data ''snapshot_version'') (\<lambda>sv. bind_sum (item data ''admission_ledger_position'') (\<lambda>p.
     bind_sum (item data ''request_id'') (\<lambda>r. bind_sum (item data ''principal'') (\<lambda>a.
     bind_sum (item data ''project'') (\<lambda>j. check_binding sv p r a j)))))"

text \<open>What reading the active snapshot version gave: the \<open>repr\<close> of what it raised, or a value.\<close>

definition admit_request :: "string + pyval \<Rightarrow> grant_ledger \<Rightarrow> pyval \<Rightarrow> pyval \<Rightarrow> pyval \<Rightarrow> effective_policy refusing" where
  "admit_request read l rid pri proj =
     bind_sum (binding_name ''request_id'' rid) (\<lambda>r. bind_sum (binding_name ''principal'' pri) (\<lambda>a.
     bind_sum (binding_name ''project'' proj) (\<lambda>j.
       case read of
         Inl ex \<Rightarrow> Inl (ResolverRefusal (''resolver.admission_refused:snapshot_fact_unreadable:'' @ ex))
       | Inr v \<Rightarrow>
           if v = PyNone then
             Inl (ResolverRefusal ''resolver.admission_refused:no_active_snapshot:bootstrap: first activation precedes first admission'')
           else (case as_count v of
             None \<Rightarrow> Inl (ResolverRefusal (''resolver.admission_refused:snapshot_fact_unreadable:'' @ py_repr v))
           | Some s \<Rightarrow>
               if s < 1 then Inl (ResolverRefusal (''resolver.admission_refused:snapshot_fact_unreadable:'' @ py_repr v))
               else Inr \<lparr>ep_snapshot = s, ep_position = ledger_position l, ep_request = r, ep_principal = a,
                      ep_project = j\<rparr>))))"

definition project_record :: "ledger_record \<Rightarrow> grant" where
  "project_record r =
     (if lr_kind r = ''grant'' then \<lparr>gr_kind = lr_kind r, gr_id = lr_id r, gr_signature = lr_signature r\<rparr>
      else \<lparr>gr_kind = lr_kind r, gr_id = (case lr_revoked r of None \<Rightarrow> [] | Some g \<Rightarrow> g), gr_signature = lr_signature r\<rparr>)"

definition consultation_slice :: "grant_ledger \<Rightarrow> effective_policy \<Rightarrow> pyval \<Rightarrow> grant list refusing" where
  "consultation_slice l ep position =
     bind_sum (check_binding (PyInt (ep_snapshot ep)) (PyInt (ep_position ep)) (PyStr (ep_request ep))
         (PyStr (ep_principal ep)) (PyStr (ep_project ep))) (\<lambda>_.
       case as_count position of
         None \<Rightarrow> Inl (ResolverRefusal (''resolver.bad_consultation_position:'' @ py_repr position))
       | Some p \<Rightarrow>
           if p < ep_position ep then
             Inl (ResolverRefusal (''resolver.consultation_precedes_admission:'' @ py_str position @ ''<''
               @ int_str (ep_position ep)))
           else Inr (map project_record
             (filter (\<lambda>r. lr_position r \<le> ep_position ep \<or> sb_kind (lr_scope r) = ''request'')
               (ledger_slice l (ep_request ep) (ep_principal ep) (ep_project ep) p))))"

end
