(* ===== verification/SgpeRuntime.thy ===== *)
theory SgpeRuntime
  imports SgpeLedger
begin

text \<open>
  The composition (\<open>sgpe/runtime.py\<close>): the runtime that holds the store, the ledger, the bus,
  the shared memo and the verified snapshots; the view of one request; the routing of
  approvals into the ledger; and the bootstrap of \<open>system.py\<close>. Store and ledger share the
  world. A view is its effective policy; the runtime it points to is the state threaded.
\<close>

record ('s, 'b) governance =
  gv_world :: "('s, 'b) world"
  gv_policies :: policy_store
  gv_ledger :: grant_ledger
  gv_memo :: memo
  gv_snapshots :: "(int, compiled_snapshot) dict"

definition new_governance :: "('s, 'b) stored \<Rightarrow> grant_ledger \<Rightarrow> ('s, 'b) governance" where
  "new_governance ws l = \<lparr>gv_world = fst ws, gv_policies = snd ws, gv_ledger = l, gv_memo = [], gv_snapshots = []\<rparr>"

definition active_snapshot_version :: "('s, 'b) governance \<Rightarrow> pyval" where
  "active_snapshot_version g =
     (let acts = ps_activations (gv_policies g) in
      if acts = [] then PyNone else PyInt (av_version (last acts)))"

definition snapshot_for ::
  "digest_fn \<Rightarrow> 'b publisher \<Rightarrow> ('s, 'b) governance \<Rightarrow> int \<Rightarrow> ('s, 'b) governance \<times> compiled_snapshot refusing" where
  "snapshot_for sha pub g v =
     (case dget (gv_snapshots g) v of
        Some sn \<Rightarrow> (g, Inr sn)
      | None \<Rightarrow>
          (case find (\<lambda>m. mf_version m = v) (ps_manifests (gv_policies g)) of
             None \<Rightarrow> (g, Inl (EvaluatorRefusal (''runtime.unknown_snapshot_version:'' @ int_str v)))
           | Some m \<Rightarrow>
               (case regenerate sha pub (gv_policies g) m of
                  Inl e \<Rightarrow> (g, Inl e)
                | Inr sn \<Rightarrow> (g\<lparr>gv_snapshots := dset v sn (gv_snapshots g)\<rparr>, Inr sn))))"

definition admit_view :: "('s, 'b) governance \<Rightarrow> pyval \<Rightarrow> pyval \<Rightarrow> pyval \<Rightarrow> effective_policy refusing" where
  "admit_view g rid pri proj = admit_request (Inr (active_snapshot_version g)) (gv_ledger g) rid pri proj"

definition view_for :: "pyval + effective_policy \<Rightarrow> effective_policy refusing" where
  "view_for stamp = (case stamp of Inl d \<Rightarrow> effective_policy_from_dict d | Inr ep \<Rightarrow> Inr ep)"

definition check_routable :: "effective_policy \<Rightarrow> decision \<Rightarrow> unit refusing" where
  "check_routable ep d =
     (if dc_snapshot d \<noteq> ep_snapshot ep then
        Inl (LedgerRefusal (''runtime.decision_from_different_world:'' @ int_str (dc_snapshot d)))
      else Inr ())"

definition provenance_from_decision :: "decision \<Rightarrow> pyval \<Rightarrow> pyval \<Rightarrow> grant_provenance refusing" where
  "provenance_from_decision d grantor reason =
     build_grant_provenance grantor (PyInt (dc_snapshot d)) (PyInt (dc_position d)) (dc_ruleset d)
       (PyStr (dc_question d)) reason"

text \<open>An append to the ledger, back in the runtime.\<close>

definition with_ledger ::
  "('s, 'b) governance \<Rightarrow> ('s, 'b) ledgered \<times> ledger_record refusing \<Rightarrow> ('s, 'b) governance \<times> ledger_record refusing" where
  "with_ledger g r = (case r of ((w, l), res) \<Rightarrow> (g\<lparr>gv_world := w, gv_ledger := l\<rparr>, res))"

definition route_approval ::
  "'s blob_writer \<Rightarrow> 'b publisher \<Rightarrow> ('s, 'b) governance \<Rightarrow> effective_policy \<Rightarrow> decision \<Rightarrow> pyval \<Rightarrow> pyval
     \<Rightarrow> cond option \<Rightarrow> ('s, 'b) governance \<times> ledger_record refusing" where
  "route_approval wr pub g ep d grantor reason bound =
     (case check_routable ep d of
        Inl e \<Rightarrow> (g, Inl e)
      | Inr _ \<Rightarrow>
          if dc_kind d \<noteq> ''REQUIRE_APPROVAL'' \<or> dc_signature d = None then
            (g, Inl (LedgerRefusal (''runtime.not_an_approval_ask:'' @ repr_str (dc_kind d))))
          else (case build_scope_binding (PyStr ''request'') (PyStr (ep_request ep)) of
            Inl e \<Rightarrow> (g, Inl e)
          | Inr scope \<Rightarrow>
              (case provenance_from_decision d grantor reason of
                 Inl e \<Rightarrow> (g, Inl e)
               | Inr prov \<Rightarrow>
                   with_ledger g (append_grant wr pub (gv_world g, gv_ledger g) (opt_name (dc_signature d)) scope prov bound))))"

definition route_revocation ::
  "'s blob_writer \<Rightarrow> 'b publisher \<Rightarrow> ('s, 'b) governance \<Rightarrow> effective_policy \<Rightarrow> decision \<Rightarrow> pyval \<Rightarrow> pyval \<Rightarrow> pyval
     \<Rightarrow> ('s, 'b) governance \<times> ledger_record refusing" where
  "route_revocation wr pub g ep d gid grantor reason =
     (case check_routable ep d of
        Inl e \<Rightarrow> (g, Inl e)
      | Inr _ \<Rightarrow>
          (case provenance_from_decision d grantor reason of
             Inl e \<Rightarrow> (g, Inl e)
           | Inr prov \<Rightarrow> with_ledger g (append_revocation wr pub (gv_world g, gv_ledger g) gid prov)))"

definition consult ::
  "digest_fn \<Rightarrow> 'b publisher \<Rightarrow> ('s, 'b) governance \<Rightarrow> effective_policy \<Rightarrow> pyval + question
     \<Rightarrow> ('s, 'b) governance \<times> eval_outcome refusing" where
  "consult sha pub g ep asked =
     (let pos = ledger_position (gv_ledger g) in
      case consultation_slice (gv_ledger g) ep (PyInt pos) of
        Inl e \<Rightarrow> (g, Inl e)
      | Inr slice \<Rightarrow>
          (case snapshot_for sha pub g (ep_snapshot ep) of
             (g', Inl e) \<Rightarrow> (g', Inl e)
           | (g', Inr sn) \<Rightarrow>
               (case evaluate sha pub (wd_bus (gv_world g')) (Some (gv_memo g')) (PyInt (ep_snapshot ep)) sn (PyInt pos)
                  slice asked (PyInt 1) of
                  (bus, memo, r) \<Rightarrow>
                    (g'\<lparr>gv_world := (gv_world g')\<lparr>wd_bus := bus\<rparr>,
                        gv_memo := (case memo of None \<Rightarrow> [] | Some m \<Rightarrow> m)\<rparr>, r))))"

definition replay_consultation ::
  "digest_fn \<Rightarrow> 'b publisher \<Rightarrow> ('s, 'b) governance \<Rightarrow> effective_policy \<Rightarrow> pyval + question \<Rightarrow> pyval \<Rightarrow> pyval
     \<Rightarrow> ('s, 'b) governance \<times> eval_outcome refusing" where
  "replay_consultation sha pub g ep asked position rv =
     (case consultation_slice (gv_ledger g) ep position of
        Inl e \<Rightarrow> (g, Inl e)
      | Inr slice \<Rightarrow>
          (case snapshot_for sha pub g (ep_snapshot ep) of
             (g', Inl e) \<Rightarrow> (g', Inl e)
           | (g', Inr sn) \<Rightarrow>
               (case evaluate sha pub None None (PyInt (ep_snapshot ep)) sn position slice asked rv of
                  (bus, memo, r) \<Rightarrow> (g', r))))"

definition approval_ask_payload :: "decision \<Rightarrow> pyval refusing" where
  "approval_ask_payload d =
     (if dc_kind d \<noteq> ''REQUIRE_APPROVAL'' then Inl (EvaluatorRefusal ''runtime.not_an_approval_ask'')
      else Inr (PyDict [(''ask_signature'', opt_name (dc_signature d)), (''explanation'', PyList (dc_explanation d)),
        (''snapshot_version'', PyInt (dc_snapshot d)), (''grant_slice_position'', PyInt (dc_position d)),
        (''evaluation_ruleset_version'', dc_ruleset d), (''question_hash'', PyStr (dc_question d))]))"

definition resolve_citation :: "policy_store \<Rightarrow> citation \<Rightarrow> pyval refusing" where
  "resolve_citation st c =
     (case c of (did, v, rid) \<Rightarrow>
        (case document_version st did v of
           None \<Rightarrow> Inl (EvaluatorRefusal (''runtime.citation_names_unknown_document:'' @ repr_citation c))
         | Some doc \<Rightarrow>
             bind_sum (case rid of
                 None \<Rightarrow> Inr PyNone
               | Some i \<Rightarrow>
                   (case find (\<lambda>r. ru_id r = i) (do_rules doc) of
                      None \<Rightarrow> Inl (EvaluatorRefusal (''runtime.citation_names_unknown_rule:'' @ repr_citation c))
                    | Some r \<Rightarrow> Inr (rule_to_dict r)))
               (\<lambda>rule. Inr (PyDict [(''doc_id'', doc_id_list did), (''version'', PyInt v), (''rule_id'', opt_name rid),
                  (''scope'', PyStr (hd_scope (do_header doc))),
                  (''provenance'', provenance_to_dict (hd_prov (do_header doc))), (''rule'', rule)]))))"

section \<open>The bootstrap\<close>

definition sgpe_operations :: "string list" where
  "sgpe_operations = [''execution.run'', ''token-budget.run'', ''persistence.store'', ''resource-limit.store'',
     ''plugin.bind'', ''model.invoke'', ''token-budget.invoke'', ''resource-limit.dispatch'',
     ''retry-limit.dispatch'', ''context-limit.assemble'', ''resource-limit.verify'', ''approval.waive'']"

definition sgpe_rule ::
  "string \<Rightarrow> string \<Rightarrow> string \<Rightarrow> string \<Rightarrow> string \<Rightarrow> pyval \<Rightarrow> cond option \<Rightarrow> bool \<Rightarrow> rule refusing" where
  "sgpe_rule rid domn op sel kind v c fin =
     bind_sum (build_target (PyStr domn) (PyStr op) (PyStr sel)) (\<lambda>t. bind_sum (build_effect (PyStr kind) v) (\<lambda>e.
       build_rule (PyStr rid) t e c (PyBool fin)))"

definition default_constitution :: "rule list refusing" where
  "default_constitution =
     bind_sum (build_comparison (PyStr ''usage.tokens'') (PyStr ''gte'') (PyInt 1000)) (\<lambda>over.
       mapm id
        [sgpe_rule ''r-exec'' ''execution'' ''run'' ''*'' ''ALLOW'' PyNone None False,
         sgpe_rule ''r-exec-budget'' ''token-budget'' ''run'' ''*'' ''LIMIT'' (PyInt 5000) None False,
         sgpe_rule ''r-persist'' ''persistence'' ''store'' ''*'' ''ALLOW'' PyNone None False,
         sgpe_rule ''r-retention'' ''resource-limit'' ''store'' ''*'' ''LIMIT'' (PyInt 30) None False,
         sgpe_rule ''r-plugin'' ''plugin'' ''bind'' ''*'' ''REQUIRE_APPROVAL'' PyNone None False,
         sgpe_rule ''r-model'' ''model'' ''invoke'' ''*'' ''ALLOW'' PyNone None False,
         sgpe_rule ''r-model-cap'' ''model'' ''invoke'' ''*'' ''DENY'' PyNone (Some over) False,
         sgpe_rule ''r-model-budget'' ''token-budget'' ''invoke'' ''*'' ''LIMIT'' (PyInt 1000) None False,
         sgpe_rule ''r-concurrency'' ''resource-limit'' ''dispatch'' ''*'' ''LIMIT'' (PyInt 4) None False,
         sgpe_rule ''r-retries'' ''retry-limit'' ''dispatch'' ''*'' ''LIMIT'' (PyInt 3) None False,
         sgpe_rule ''r-context'' ''context-limit'' ''assemble'' ''*'' ''LIMIT'' (PyInt 8000) None False,
         sgpe_rule ''r-verify-budget'' ''resource-limit'' ''verify'' ''*'' ''LIMIT'' (PyInt 2) None False,
         sgpe_rule ''r-no-waiver'' ''approval'' ''waive'' ''*'' ''DENY'' PyNone None True])"

text \<open>Steps on a state, the first refusal ending them.\<close>

definition and_then :: "'w \<times> 'a refusing \<Rightarrow> ('w \<Rightarrow> 'a \<Rightarrow> 'w \<times> 'b refusing) \<Rightarrow> 'w \<times> 'b refusing" where
  "and_then r k = (case r of (w, Inl e) \<Rightarrow> (w, Inl e) | (w, Inr x) \<Rightarrow> k w x)"

definition boot_governance ::
  "digest_fn \<Rightarrow> 's blob_writer \<Rightarrow> 'b publisher \<Rightarrow> ('s, 'b) world
     \<Rightarrow> ('s, 'b) stored \<times> ('s, 'b) governance refusing" where
  "boot_governance sha wr pub w =
     (let ws = (w, empty_policy_store) in
      and_then (ws, default_v1) (\<lambda>ws v1.
      and_then (append_vocabulary wr ws v1) (\<lambda>ws _.
      and_then (ws, evolve_vocabulary v1 None (Some (map PyStr sgpe_operations)) (Some [PyStr ''usage.tokens''])) (\<lambda>ws v2.
      and_then (append_vocabulary wr ws v2) (\<lambda>ws _.
      and_then (ws, build_provenance (PyStr ''system'') (PyStr ''epoch-0'') (PyStr ''constitution'')) (\<lambda>ws prov.
      and_then (ws, build_header (PyStr ''system'') (PyStr ''constitution'') [PyStr ''execution''] prov (PyInt 2) (PyInt 1)) (\<lambda>ws h.
      and_then (ws, default_constitution) (\<lambda>ws rs.
      and_then (ws, build_document h rs) (\<lambda>ws doc.
      and_then (append_document sha wr pub ws doc False) (\<lambda>ws _.
        case compile_snapshot sha pub (wd_bus (fst ws)) (snd ws) (PyInt (catalog_position (snd ws))) (PyInt 1) of
          (bus, Inl e) \<Rightarrow> (((fst ws)\<lparr>wd_bus := bus\<rparr>, snd ws), Inl e)
        | (bus, Inr res) \<Rightarrow>
            if co_outcome res \<noteq> ''compiled'' then
              (((fst ws)\<lparr>wd_bus := bus\<rparr>, snd ws), Inl (CompilerRefusal ''sgpe bootstrap failed''))
            else (case activate_snapshot wr pub bus (fst ws, snd ws) res of
              (bus', (w', st'), Inl e) \<Rightarrow> ((w'\<lparr>wd_bus := bus'\<rparr>, st'), Inl e)
            | (bus', (w', st'), Inr _) \<Rightarrow>
                let ws' = (w'\<lparr>wd_bus := bus'\<rparr>, st') in (ws', Inr (new_governance ws' empty_ledger)))))))))))))"

end
