(* ===== verification/SgpeHistory.thy ===== *)
theory SgpeHistory
  imports SgpeCompiled SgpeRuntime
begin

text \<open>
  Histories of the store and of the ledger: the operations their callers may perform, refused
  or not, and what every history keeps.
\<close>

section \<open>The store\<close>

datatype policy_op =
    AddDocument document bool
  | AddVocabulary vocabulary
  | AddDeprecation doc_id int provenance
  | AddManifest manifest
  | AddActivation activation

definition policy_do ::
  "digest_fn \<Rightarrow> 's blob_writer \<Rightarrow> 'b publisher \<Rightarrow> ('s, 'b) stored \<Rightarrow> policy_op \<Rightarrow> ('s, 'b) stored" where
  "policy_do sha wr pub ws op =
     (case op of
        AddDocument d fresh \<Rightarrow> fst (append_document sha wr pub ws d fresh)
      | AddVocabulary v \<Rightarrow> fst (append_vocabulary wr ws v)
      | AddDeprecation did v p \<Rightarrow> fst (append_deprecation wr pub ws did v p)
      | AddManifest m \<Rightarrow> fst (append_manifest wr ws m)
      | AddActivation a \<Rightarrow> fst (append_activation wr ws a))"

definition policy_run ::
  "digest_fn \<Rightarrow> 's blob_writer \<Rightarrow> 'b publisher \<Rightarrow> ('s, 'b) stored \<Rightarrow> policy_op list \<Rightarrow> ('s, 'b) stored" where
  "policy_run sha wr pub ws ops = foldl (policy_do sha wr pub) ws ops"

fun authored :: "policy_op \<Rightarrow> bool" where
  "authored (AddDocument d fresh) = built_document d"
| "authored _ = True"

definition contents_built :: "policy_store \<Rightarrow> bool" where
  "contents_built st \<longleftrightarrow> all_vals built_document (ps_content st)"

lemma store_append_content:
  "store_append wr ws kind p d = (ws', r) \<Longrightarrow> ps_content (snd ws') = ps_content (snd ws)"
  by (auto simp: store_append_def split: prod.splits sum.splits)

lemma announce_store: "snd (fst (announce pub ws entry name eid subj p)) = snd ws"
  by (auto simp: announce_def split: prod.splits sum.splits)

lemma apply_document_built:
  assumes "contents_built (snd ws)" and "built_document doc"
  shows "contents_built (snd (fst (apply_document_version sha wr pub ws did v doc)))"
proof (cases "v \<noteq> current_version (snd ws) did + 1")
  case False
  obtain w' st' r where a: "store_append wr ws ''document_version'' (DocumentVersion did v doc) (document_payload did v doc)
      = ((w', st'), r)" by (metis surj_pair)
  have c: "ps_content st' = ps_content (snd ws)" using store_append_content [OF a] by simp
  show ?thesis
  proof (cases r)
    case (Inr entry)
    with a False assms c show ?thesis
      by (simp add: apply_document_version_def announce_store contents_built_def all_vals_dset)
  qed (use a False assms c in \<open>simp add: apply_document_version_def contents_built_def\<close>)
qed (use assms in \<open>simp add: apply_document_version_def\<close>)

lemma plain_append_content:
  "ps_content (snd (fst (append_vocabulary wr ws v))) = ps_content (snd ws)"
  "ps_content (snd (fst (append_deprecation wr pub ws did i p))) = ps_content (snd ws)"
  "ps_content (snd (fst (append_manifest wr ws m))) = ps_content (snd ws)"
  "ps_content (snd (fst (append_activation wr ws a))) = ps_content (snd ws)"
  by (auto simp: append_vocabulary_def append_deprecation_def apply_deprecation_def append_manifest_def
      append_activation_def announce_store dest: store_append_content split: prod.splits sum.splits option.splits)

lemma plain_append_built:
  "contents_built (snd (fst (append_vocabulary wr ws v))) = contents_built (snd ws)"
  "contents_built (snd (fst (append_deprecation wr pub ws did i p))) = contents_built (snd ws)"
  "contents_built (snd (fst (append_manifest wr ws m))) = contents_built (snd ws)"
  "contents_built (snd (fst (append_activation wr ws a))) = contents_built (snd ws)"
  by (simp_all add: contents_built_def plain_append_content)

lemma policy_do_built:
  "contents_built (snd ws) \<Longrightarrow> authored op \<Longrightarrow> contents_built (snd (policy_do sha wr pub ws op))"
  by (cases op)
    (simp_all add: policy_do_def append_document_def Let_def apply_document_built plain_append_built)

lemma policy_run_built:
  "contents_built (snd ws) \<Longrightarrow> \<forall>op \<in> set ops. authored op \<Longrightarrow> contents_built (snd (policy_run sha wr pub ws ops))"
  unfolding policy_run_def by (induction ops arbitrary: ws) (simp_all add: policy_do_built)

lemma empty_contents_built [simp]: "contents_built empty_policy_store"
  by (simp add: contents_built_def empty_policy_store_def)

section \<open>Assembly\<close>

lemma wf_note_latest: "wf_dict l \<Longrightarrow> wf_dict (foldl note_latest l es)"
  by (induction es arbitrary: l) (auto simp: note_latest_def split: cat_payload.splits)

lemma distinct_documents_as_of: "distinct (documents_as_of st pos s dm)"
proof -
  let ?l = "foldl note_latest [] (catalog_as_of (ps_catalog st) pos (Some ''document_version''))"
  have "wf_dict ?l" by (rule wf_note_latest) simp
  then have "distinct (map fst (filter P ?l))" for P by (simp add: wf_dict_def distinct_map_filter)
  then have "distinct (map fst (map (\<lambda>(did, version, doc). (did, version)) (filter P ?l)))" for P
    by (simp add: comp_def case_prod_unfold)
  then show ?thesis unfolding documents_as_of_def by (metis distinct_map distinct_sort)
qed

lemma well_assembled_assemble:
  assumes "contents_built st"
  shows "well_assembled (assemble_documents st pos)"
proof -
  let ?docs = "documents_as_of st pos None None"
  let ?f = "\<lambda>(did, v). if is_deprecated st did v then []
    else (case document_version st did v of None \<Rightarrow> [] | Some doc \<Rightarrow> [(did, v, doc)])"
  let ?key = "\<lambda>(did :: doc_id, v :: int, doc :: document). (did, v)"
  have keys: "distinct (map ?key (concat (map ?f xs))) \<and> ?key ` set (concat (map ?f xs)) \<subseteq> set xs"
    if "distinct xs" for xs
    using that
  proof (induction xs)
    case (Cons x xs)
    obtain did v where x: "x = (did, v)" by (cases x)
    have "?key ` set (?f x) \<subseteq> {x}" "distinct (map ?key (?f x))"
      by (auto simp: x split: option.splits)
    with Cons show ?case by (fastforce simp: x)
  qed simp
  have "mset (map ?key (sort_key ?key (concat (map ?f ?docs)))) = mset (map ?key (concat (map ?f ?docs)))"
    by (simp only: mset_map mset_sort)
  then have "distinct (map ?key (assemble_documents st pos)) \<longleftrightarrow> distinct (map ?key (concat (map ?f ?docs)))"
    unfolding assemble_documents_def by (rule mset_eq_imp_distinct_iff)
  then have "distinct (map ?key (assemble_documents st pos))"
    using keys [OF distinct_documents_as_of] by blast
  moreover have "built_document doc" if "(did, v, doc) \<in> set (assemble_documents st pos)" for did v doc
  proof -
    from that have "document_version st did v = Some doc"
      by (auto simp: assemble_documents_def split: if_splits option.splits)
    with assms show ?thesis by (auto simp: contents_built_def document_version_def dest: all_vals_dget)
  qed
  ultimately show ?thesis by (auto simp: well_assembled_def list_all_iff)
qed

lemma compile_snapshot_stages:
  assumes "compile_snapshot sha pub bus st (PyInt pos) rv = (bus', Inr r)" and "co_snapshot r = Some sn"
  shows "\<exists>voc errs ws. vocabulary_as_of st pos = Some voc
    \<and> compile_stages sha (assemble_documents st pos) pos voc rv = (errs, ws, Some sn)"
  using assms
  by (auto simp: compile_snapshot_def finish_compile_def Let_def split: if_splits option.splits prod.splits sum.splits)

section \<open>The ledger\<close>

datatype ledger_op =
    GiveGrant pyval scope_binding grant_provenance "cond option"
  | Revoke pyval grant_provenance

definition ledger_do ::
  "'s blob_writer \<Rightarrow> 'b publisher \<Rightarrow> ('s, 'b) ledgered \<Rightarrow> ledger_op \<Rightarrow> ('s, 'b) ledgered" where
  "ledger_do wr pub wl op =
     (case op of
        GiveGrant sig scope prov bound \<Rightarrow> fst (append_grant wr pub wl sig scope prov bound)
      | Revoke gid prov \<Rightarrow> fst (append_revocation wr pub wl gid prov))"

definition ledger_run ::
  "'s blob_writer \<Rightarrow> 'b publisher \<Rightarrow> ('s, 'b) ledgered \<Rightarrow> ledger_op list \<Rightarrow> ('s, 'b) ledgered" where
  "ledger_run wr pub wl ops = foldl (ledger_do wr pub) wl ops"

definition built_scope :: "scope_binding \<Rightarrow> bool" where
  "built_scope s \<longleftrightarrow> sb_kind s \<in> set scope_kinds \<and> sb_subject s \<noteq> []"

definition built_grant_provenance :: "grant_provenance \<Rightarrow> bool" where
  "built_grant_provenance p \<longleftrightarrow> gp_grantor p \<noteq> [] \<and> gp_question p \<noteq> [] \<and> gp_reason p \<noteq> []
     \<and> 0 \<le> gp_snapshot p \<and> 0 \<le> gp_position p \<and> 0 \<le> gp_ruleset p"

definition built_bound :: "cond option \<Rightarrow> bool" where
  "built_bound c \<longleftrightarrow> (case c of None \<Rightarrow> True | Some c' \<Rightarrow> built_cond c')"

fun built_op :: "ledger_op \<Rightarrow> bool" where
  "built_op (GiveGrant sig scope prov bound) \<longleftrightarrow> built_scope scope \<and> built_grant_provenance prov \<and> built_bound bound"
| "built_op (Revoke gid prov) \<longleftrightarrow> built_grant_provenance prov"

text \<open>
  The records of a ledger, oldest first: each is a grant or a revocation with the identifier of
  its position, and a revocation copies the signature and the scope of the grant it names.
\<close>

definition record_ok :: "ledger_record list \<Rightarrow> ledger_record \<Rightarrow> bool" where
  "record_ok before r \<longleftrightarrow> lr_position r = int (length before) + 1 \<and> lr_signature r \<noteq> []
     \<and> built_scope (lr_scope r) \<and> built_grant_provenance (lr_prov r)
     \<and> (lr_kind r = ''grant'' \<and> lr_id r = ''grant-'' @ int_str (lr_position r) \<and> lr_revoked r = None
          \<and> built_bound (lr_bound r)
        \<or> lr_kind r = ''revocation'' \<and> lr_id r = ''revocation-'' @ int_str (lr_position r) \<and> lr_bound r = None
          \<and> (\<exists>i g. lr_revoked r = Some i \<and> g \<in> set before \<and> lr_id g = i \<and> lr_kind g = ''grant''
               \<and> lr_signature r = lr_signature g \<and> lr_scope r = lr_scope g))"

fun records_ok :: "ledger_record list \<Rightarrow> bool" where
  "records_ok rs = (\<forall>n < length rs. record_ok (take n rs) (rs ! n))"

declare records_ok.simps [simp del]

definition ledger_inv :: "grant_ledger \<Rightarrow> bool" where
  "ledger_inv l \<longleftrightarrow> records_ok (lg_records l) \<and> distinct (map lr_id (lg_records l))
     \<and> lg_index l = map (\<lambda>r. (lr_id r, r)) (lg_records l)"

lemma ledger_lookup:
  assumes "ledger_inv l"
  shows "dget (lg_index l) i = Some r \<longleftrightarrow> r \<in> set (lg_records l) \<and> lr_id r = i"
proof -
  have "distinct (map fst (lg_index l))" using assms by (simp add: ledger_inv_def comp_def)
  from map_of_eq_Some_iff [OF this] show ?thesis using assms by (auto simp: ledger_inv_def)
qed

lemma records_ok_snoc: "records_ok (rs @ [r]) \<longleftrightarrow> records_ok rs \<and> record_ok rs r"
  by (auto simp: records_ok.simps nth_append less_Suc_eq)

lemma record_id_position:
  assumes "records_ok rs" and "r \<in> set rs"
  shows "lr_position r \<le> int (length rs) \<and> (lr_id r = ''grant-'' @ int_str (lr_position r)
    \<or> lr_id r = ''revocation-'' @ int_str (lr_position r)) \<and> 1 \<le> lr_position r"
proof -
  from assms(2) obtain n where "n < length rs" "r = rs ! n" by (auto simp: in_set_conv_nth)
  with assms(1) show ?thesis by (auto simp: records_ok.simps record_ok_def)
qed

lemma fresh_record_id:
  assumes "records_ok rs" and "record_ok rs r"
  shows "lr_id r \<notin> lr_id ` set rs"
proof
  assume "lr_id r \<in> lr_id ` set rs"
  then obtain r' where r': "r' \<in> set rs" "lr_id r = lr_id r'" by auto
  have "lr_position r = int (length rs) + 1"
      "lr_id r = ''grant-'' @ int_str (lr_position r) \<or> lr_id r = ''revocation-'' @ int_str (lr_position r)"
    using assms(2) by (auto simp: record_ok_def)
  with record_id_position [OF assms(1) r'(1)] r'(2) have "nat (lr_position r) = nat (lr_position r')"
    by (auto simp: int_str_def)
  with record_id_position [OF assms(1) r'(1)] \<open>lr_position r = int (length rs) + 1\<close> show False by linarith
qed

lemma ledger_inv_snoc:
  assumes "ledger_inv l" and "record_ok (lg_records l) r"
  shows "ledger_inv \<lparr>lg_records = lg_records l @ [r], lg_index = dset (lr_id r) r (lg_index l)\<rparr>"
proof -
  have "lr_id r \<notin> lr_id ` set (lg_records l)"
    using fresh_record_id [OF _ assms(2)] assms(1) by (simp add: ledger_inv_def)
  moreover from this have "dget (lg_index l) (lr_id r) = None"
    using assms(1) by (auto simp: ledger_inv_def map_of_eq_None_iff image_image)
  ultimately show ?thesis
    using assms by (simp add: ledger_inv_def records_ok_snoc dset_fresh)
qed

lemma empty_ledger_inv [simp]: "ledger_inv empty_ledger"
  by (simp add: ledger_inv_def empty_ledger_def records_ok.simps)

text \<open>An append either leaves the ledger alone or adds the record.\<close>

lemma ledger_apply_cases:
  assumes "ledger_apply wr pub wl r name = (wl', res)"
  shows "snd wl' = snd wl \<and> isl res
    \<or> snd wl' = \<lparr>lg_records = lg_records (snd wl) @ [r], lg_index = dset (lr_id r) r (lg_index (snd wl))\<rparr>"
  using assms by (auto simp: ledger_apply_def Let_def split: prod.splits sum.splits if_splits)

lemma ledger_apply_inv:
  assumes "ledger_inv (snd wl)" and "record_ok (lg_records (snd wl)) r"
  shows "ledger_inv (snd (fst (ledger_apply wr pub wl r name)))"
proof -
  obtain wl' res where a: "ledger_apply wr pub wl r name = (wl', res)" by (metis surj_pair)
  show ?thesis
    using ledger_apply_cases [OF a] ledger_inv_snoc [OF assms] assms(1) by (auto simp: a)
qed

lemma granted_record_ok:
  assumes "as_name sig = Some s" and "built_scope scope" and "built_grant_provenance prov" and "built_bound bound"
  shows "record_ok (lg_records l) \<lparr>lr_id = ''grant-'' @ int_str (next_position l), lr_kind = ''grant'', lr_signature = s,
      lr_revoked = None, lr_scope = scope, lr_bound = bound, lr_prov = prov, lr_position = next_position l\<rparr>"
  using assms by (simp add: record_ok_def next_position_def)

lemma revoking_record_ok:
  assumes "ledger_inv l" and "dget (lg_index l) i = Some g" and "lr_kind g = ''grant''" and "built_grant_provenance prov"
  shows "record_ok (lg_records l) \<lparr>lr_id = ''revocation-'' @ int_str (next_position l), lr_kind = ''revocation'',
      lr_signature = lr_signature g, lr_revoked = Some (lr_id g), lr_scope = lr_scope g, lr_bound = None,
      lr_prov = prov, lr_position = next_position l\<rparr>"
proof -
  have g: "g \<in> set (lg_records l)" using assms(1,2) by (simp add: ledger_lookup)
  then obtain n where "n < length (lg_records l)" "g = lg_records l ! n" by (auto simp: in_set_conv_nth)
  with assms(1) have "lr_signature g \<noteq> []" "built_scope (lr_scope g)"
    by (auto simp: ledger_inv_def records_ok.simps record_ok_def)
  with g assms(3,4) show ?thesis by (auto simp: record_ok_def next_position_def)
qed

lemma append_grant_inv:
  assumes "ledger_inv (snd wl)" and "built_scope scope" and "built_grant_provenance prov" and "built_bound bound"
  shows "ledger_inv (snd (fst (append_grant wr pub wl sig scope prov bound)))"
proof (cases "as_name sig")
  case (Some s)
  show ?thesis
    unfolding append_grant_def Some option.case Let_def
    by (rule ledger_apply_inv [OF assms(1) granted_record_ok [OF Some assms(2-4)]])
qed (use assms(1) in \<open>simp add: append_grant_def\<close>)

lemma append_revocation_inv:
  assumes "ledger_inv (snd wl)" and "built_grant_provenance prov"
  shows "ledger_inv (snd (fst (append_revocation wr pub wl gid prov)))"
proof (cases "\<exists>i g. gid = PyStr i \<and> dget (lg_index (snd wl)) i = Some g \<and> lr_kind g = ''grant''")
  case True
  then obtain i g where g: "gid = PyStr i" "dget (lg_index (snd wl)) i = Some g" "lr_kind g = ''grant''" by auto
  have "append_revocation wr pub wl gid prov = ledger_apply wr pub wl
      \<lparr>lr_id = ''revocation-'' @ int_str (next_position (snd wl)), lr_kind = ''revocation'',
       lr_signature = lr_signature g, lr_revoked = Some (lr_id g), lr_scope = lr_scope g, lr_bound = None,
       lr_prov = prov, lr_position = next_position (snd wl)\<rparr> ''grant.revoked''"
    by (simp add: append_revocation_def g Let_def)
  then show ?thesis
    using ledger_apply_inv [OF assms(1) revoking_record_ok [OF assms(1) g(2,3) assms(2)]] by metis
qed (use assms(1) in \<open>auto simp: append_revocation_def split: option.splits pyval.splits\<close>)

lemma ledger_do_inv:
  "ledger_inv (snd wl) \<Longrightarrow> built_op op \<Longrightarrow> ledger_inv (snd (ledger_do wr pub wl op))"
  by (cases op) (simp_all add: ledger_do_def append_grant_inv append_revocation_inv)

lemma ledger_run_inv:
  "ledger_inv (snd wl) \<Longrightarrow> \<forall>op \<in> set ops. built_op op \<Longrightarrow> ledger_inv (snd (ledger_run wr pub wl ops))"
  unfolding ledger_run_def by (induction ops arbitrary: wl) (simp_all add: ledger_do_inv)

section \<open>Replaying a ledger\<close>

definition committing :: "'s blob_writer \<Rightarrow> bool" where
  "committing wr \<longleftrightarrow> (\<forall>s k d. snd (wr s k d) = Inr ''committed'')"

lemma ledger_apply_committed:
  assumes "committing wr" and "wd_bus w = None"
  shows "\<exists>w'. wd_bus w' = None \<and> ledger_apply wr pub (w, l) r name =
    ((w', \<lparr>lg_records = lg_records l @ [r], lg_index = dset (lr_id r) r (lg_index l)\<rparr>), Inr r)"
proof -
  obtain s' where "wr (wd_store w) (''sgpe/ledger/'' @ int_str (lr_position r)) (json_dumps (record_to_pydict r))
      = (s', Inr ''committed'')"
    using assms(1) unfolding committing_def by (metis prod.collapse)
  then show ?thesis using assms(2) by (simp add: ledger_apply_def emit_policy_event_def Let_def)
qed

lemma scope_round_trip: "built_scope s \<Longrightarrow> build_scope_binding (PyStr (sb_kind s)) (PyStr (sb_subject s)) = Inr s"
  by (simp add: build_scope_binding_def built_scope_def)

lemma grant_provenance_round_trip:
  "built_grant_provenance p \<Longrightarrow> build_grant_provenance (PyStr (gp_grantor p)) (PyInt (gp_snapshot p))
     (PyInt (gp_position p)) (PyInt (gp_ruleset p)) (PyStr (gp_question p)) (PyStr (gp_reason p)) = Inr p"
  by (simp add: build_grant_provenance_def built_grant_provenance_def ledger_name_def ledger_count_def)

lemma record_round_trip:
  assumes "built_scope (lr_scope r)" and "built_grant_provenance (lr_prov r)" and "built_bound (lr_bound r)"
  shows "record_from_pydict (record_to_pydict r) = Inr \<lparr>rr_id = PyStr (lr_id r), rr_kind = PyStr (lr_kind r),
    rr_signature = PyStr (lr_signature r), rr_revoked = opt_name (lr_revoked r), rr_scope = lr_scope r,
    rr_bound = lr_bound r, rr_prov = lr_prov r, rr_position = PyInt (lr_position r)\<rparr>"
  using assms
  by (simp add: record_from_pydict_def record_to_pydict_def scope_round_trip grant_provenance_round_trip
      opt_cond_round_trip built_bound_def)

lemma record_ok_built: "record_ok rs r \<Longrightarrow> built_scope (lr_scope r) \<and> built_grant_provenance (lr_prov r) \<and> built_bound (lr_bound r)"
  by (auto simp: record_ok_def built_bound_def)

lemma replay_record_ok:
  assumes inv: "ledger_inv l" and ok: "record_ok (lg_records l) r" and wr: "committing wr" "wd_bus w = None"
  shows "\<exists>w'. wd_bus w' = None \<and> replay_ledger_record wr pub (w, l) (record_to_pydict r) =
    Inr (w', \<lparr>lg_records = lg_records l @ [r], lg_index = dset (lr_id r) r (lg_index l)\<rparr>)"
proof -
  note raw = record_round_trip [of r] record_ok_built [OF ok]
  have pos: "lr_position r = next_position l" and sig: "lr_signature r \<noteq> []"
    using ok by (auto simp: record_ok_def next_position_def)
  consider (grant) "lr_kind r = ''grant''" "lr_id r = ''grant-'' @ int_str (lr_position r)" "lr_revoked r = None"
    | (revocation) i g where "lr_kind r = ''revocation''" "lr_id r = ''revocation-'' @ int_str (lr_position r)"
        "lr_bound r = None" "lr_revoked r = Some i" "g \<in> set (lg_records l)" "lr_id g = i" "lr_kind g = ''grant''"
        "lr_signature r = lr_signature g" "lr_scope r = lr_scope g"
    using ok unfolding record_ok_def by (elim conjE disjE exE) (rule that; assumption)+
  then show ?thesis
  proof cases
    case grant
    let ?r = "\<lparr>lr_id = ''grant-'' @ int_str (next_position l), lr_kind = ''grant'', lr_signature = lr_signature r,
        lr_revoked = None, lr_scope = lr_scope r, lr_bound = lr_bound r, lr_prov = lr_prov r, lr_position = next_position l\<rparr>"
    have r: "?r = r" using grant pos by simp
    have "append_grant wr pub (w, l) (PyStr (lr_signature r)) (lr_scope r) (lr_prov r) (lr_bound r)
        = ledger_apply wr pub (w, l) ?r ''grant.recorded''"
      using sig by (simp add: append_grant_def Let_def)
    note this [unfolded r]
    with ledger_apply_committed [OF wr, of pub l r "''grant.recorded''"] raw grant pos show ?thesis
      by (auto simp: replay_ledger_record_def Let_def ignore_entry_def)
  next
    case revocation
    have look: "dget (lg_index l) i = Some g" using revocation ledger_lookup [OF inv] by simp
    let ?r = "\<lparr>lr_id = ''revocation-'' @ int_str (next_position l), lr_kind = ''revocation'', lr_signature = lr_signature g,
        lr_revoked = Some (lr_id g), lr_scope = lr_scope g, lr_bound = None, lr_prov = lr_prov r, lr_position = next_position l\<rparr>"
    have r: "?r = r" using revocation pos by simp
    have "append_revocation wr pub (w, l) (PyStr i) (lr_prov r) = ledger_apply wr pub (w, l) ?r ''grant.revoked''"
      using look revocation(7) by (simp add: append_revocation_def Let_def)
    note this [unfolded r]
    with ledger_apply_committed [OF wr, of pub l r "''grant.revoked''"] raw revocation pos show ?thesis
      by (auto simp: replay_ledger_record_def Let_def ignore_entry_def opt_name_def)
  qed
qed

lemma rebuild_prefix:
  assumes "records_ok rs" and "committing wr" and "wd_bus w = None"
  shows "\<exists>w' l. foldm (replay_ledger_record wr pub) (w, empty_ledger) (map record_to_pydict rs) = Inr (w', l)
    \<and> wd_bus w' = None \<and> ledger_inv l \<and> lg_records l = rs"
  using assms(1)
proof (induction rs rule: rev_induct)
  case Nil
  then show ?case using assms(3) by (simp add: empty_ledger_def ledger_inv_def)
next
  case (snoc r rs)
  from snoc.prems have rs: "records_ok rs" "record_ok rs r" by (simp_all add: records_ok_snoc)
  from snoc.IH [OF rs(1)] obtain w1 l1
    where l1: "foldm (replay_ledger_record wr pub) (w, empty_ledger) (map record_to_pydict rs) = Inr (w1, l1)"
      "wd_bus w1 = None" "ledger_inv l1" "lg_records l1 = rs" by blast
  have ok: "record_ok (lg_records l1) r" using rs(2) l1(4) by simp
  from replay_record_ok [OF l1(3) ok assms(2) l1(2)] obtain w2
    where w2: "wd_bus w2 = None" "replay_ledger_record wr pub (w1, l1) (record_to_pydict r) =
      Inr (w2, \<lparr>lg_records = lg_records l1 @ [r], lg_index = dset (lr_id r) r (lg_index l1)\<rparr>)" by blast
  with l1 ledger_inv_snoc [OF l1(3) ok] show ?case by (simp add: foldm_append)
qed

lemma rebuild_export:
  assumes "ledger_inv l" and "committing wr" and "wd_bus w = None"
  shows "\<exists>w'. rebuild_ledger wr pub w (export_ledger l) = Inr (w', l)"
proof -
  have ok: "records_ok (lg_records l)" using assms(1) by (simp add: ledger_inv_def)
  obtain w' l' where l': "foldm (replay_ledger_record wr pub) (w, empty_ledger) (map record_to_pydict (lg_records l)) = Inr (w', l')"
      "ledger_inv l'" "lg_records l' = lg_records l"
    using rebuild_prefix [OF ok assms(2,3), of pub] by blast
  from l'(2,3) assms(1) have "l' = l" by (simp add: ledger_inv_def)
  with l' show ?thesis by (simp add: rebuild_ledger_def export_ledger_def)
qed

end
