(* ===== verification/SgpeAnswers.thy ===== *)
theory SgpeAnswers
  imports SgpeHistory
begin

text \<open>
  What the answers of the evaluator rest on: an allowed action has a rule or a grant behind it,
  and a memo that holds only what would be decided anyway changes no answer.
\<close>

section \<open>Grants\<close>

text \<open>A grant that covers the signature and that no revocation of the slice names. Its bound plays
  no part: the slice does not carry it.\<close>

definition live_grant :: "grant list \<Rightarrow> string \<Rightarrow> grant \<Rightarrow> bool" where
  "live_grant slice sig g \<longleftrightarrow> g \<in> set slice \<and> gr_kind g = ''grant'' \<and> gr_signature g = sig
     \<and> (\<forall>r \<in> set slice. gr_kind r = ''revocation'' \<longrightarrow> gr_id r \<noteq> gr_id g)"

lemma not_revoked: "i \<notin> set (map gr_id (filter R slice)) \<longleftrightarrow> (\<forall>r \<in> set slice. R r \<longrightarrow> gr_id r \<noteq> i)"
  by (induction slice) auto

lemma covering_grant_Some: "covering_grant slice sig = Some g \<Longrightarrow> live_grant slice sig g"
  unfolding covering_grant_def live_grant_def Let_def not_revoked find_Some_iff by auto

lemma covering_grant_None: "covering_grant slice sig = None \<Longrightarrow> \<not> live_grant slice sig g"
  unfolding covering_grant_def live_grant_def Let_def not_revoked find_None_iff by blast

definition granted :: "index_entry \<Rightarrow> grant list \<Rightarrow> string \<Rightarrow> bool" where
  "granted w slice sig \<longleftrightarrow> ie_kind w = ''REQUIRE_APPROVAL'' \<and> \<not> ie_final w \<and> (\<exists>g. live_grant slice sig g)"

lemma decide_by_winner:
  assumes "decide_question sha s sn p slice q rv = Inr d"
  shows "\<exists>w cites fb. match_and_win sn (qu_domain q) (qu_operation q) (qu_resource q) (dict_of (qu_facts q)) = Inr (w, cites, fb)
    \<and> dc_kind d = (if granted w slice (ask_signature sha q) then ''ALLOW'' else ie_kind w)
    \<and> dc_value d = (if granted w slice (ask_signature sha q) then PyNone else ie_value w)
    \<and> dc_signature d = (if ie_kind w = ''REQUIRE_APPROVAL'' \<and> \<not> granted w slice (ask_signature sha q)
        then Some (ask_signature sha q) else None)
    \<and> dc_snapshot d = s \<and> dc_position d = p \<and> dc_question d = question_hash sha q"
proof -
  from assms obtain w cites fb where w: "match_and_win sn (qu_domain q) (qu_operation q) (qu_resource q) (dict_of (qu_facts q))
      = Inr (w, cites, fb)"
    by (auto simp: decide_question_def Let_def split: sum.splits prod.splits)
  let ?sig = "ask_signature sha q"
  let ?g = "if \<not> ie_final w \<and> ie_kind w = ''REQUIRE_APPROVAL'' then covering_grant slice ?sig else None"
  have g: "?g \<noteq> None \<longleftrightarrow> granted w slice ?sig"
    using covering_grant_Some [of slice ?sig] covering_grant_None [of slice ?sig]
    by (cases "covering_grant slice ?sig") (auto simp: granted_def)
  from assms w show ?thesis
    by (cases ?g) (use g in \<open>auto simp: decide_question_def Let_def simp del: split_paired_Ex split: sum.splits if_splits\<close>)
qed

section \<open>What a view sees\<close>

text \<open>The records of a ledger that a view sees at a position.\<close>

definition visible :: "effective_policy \<Rightarrow> int \<Rightarrow> ledger_record \<Rightarrow> bool" where
  "visible ep p r \<longleftrightarrow> in_scope (ep_request ep) (ep_principal ep) (ep_project ep) r \<and> lr_position r \<le> p
     \<and> (lr_position r \<le> ep_position ep \<or> sb_kind (lr_scope r) = ''request'')"

lemma consultation_slice_visible:
  assumes "consultation_slice l ep (PyInt p) = Inr slice"
  shows "slice = map project_record (filter (visible ep p) (lg_records l))"
proof -
  have "slice = map project_record
      (filter (\<lambda>r. lr_position r \<le> ep_position ep \<or> sb_kind (lr_scope r) = ''request'')
        (ledger_slice l (ep_request ep) (ep_principal ep) (ep_project ep) p))"
    using assms by (auto simp: consultation_slice_def split: sum.splits if_splits)
  then show ?thesis by (auto simp: ledger_slice_def visible_def intro!: arg_cong [where f = "map project_record"] filter_cong)
qed

section \<open>The memo\<close>

text \<open>Entries of the memo for one question: what the evaluator would decide at these stamps.\<close>

definition memo_agrees ::
  "digest_fn \<Rightarrow> memo \<Rightarrow> int \<Rightarrow> compiled_snapshot \<Rightarrow> int \<Rightarrow> grant list \<Rightarrow> pyval + question \<Rightarrow> pyval \<Rightarrow> bool" where
  "memo_agrees sha m s sn p slice asked rv \<longleftrightarrow>
     (\<forall>q d. asked = Inr q \<longrightarrow> dget m (s, p, hkey rv, question_hash sha q) = Some d \<longrightarrow>
        decide_question sha s sn p slice q rv = Inr d)"

text \<open>Then asking with the memo and asking without announce and answer the same, and the memo
  gains at most the decision just made.\<close>

lemma evaluate_memo:
  assumes agrees: "memo_agrees sha m s sn p slice asked rv"
  shows "\<exists>bus' m' r. evaluate sha pub bus (Some m) (PyInt s) sn (PyInt p) slice asked rv = (bus', Some m', r)
    \<and> evaluate sha pub bus None (PyInt s) sn (PyInt p) slice asked rv = (bus', None, r)
    \<and> (m' = m \<or> (\<exists>q d. asked = Inr q \<and> decide_question sha s sn p slice q rv = Inr d
          \<and> m' = dset (s, p, hkey rv, question_hash sha q) d m))"
proof (cases "check_inputs (PyInt s) (PyInt p) rv")
  case (Inl e)
  then show ?thesis by (simp add: evaluate_def)
next
  case (Inr sp)
  then have inr: "check_inputs (PyInt s) (PyInt p) rv = Inr (s, p)"
    by (auto simp: check_inputs_def split: if_splits)
  show ?thesis
  proof (cases asked)
    case (Inl v)
    then show ?thesis
      using inr by (cases "ill_posed pub bus s p rv ''not_a_question'' (py_repr v)") (simp add: evaluate_def)
  next
    case (Inr q)
    show ?thesis
    proof (cases "well_formedness sn q")
      case (Some cd)
      then show ?thesis
        using inr Inr by (cases cd; cases "ill_posed pub bus s p rv (fst cd) (snd cd)") (simp add: evaluate_def)
    next
      case None
      let ?key = "(s, p, hkey rv, question_hash sha q)"
      show ?thesis
      proof (cases "dget m ?key")
        case (Some d)
        then have "decide_question sha s sn p slice q rv = Inr d"
          using agrees Inr by (simp add: memo_agrees_def)
        moreover obtain bus' r where "emit_decided pub bus d = (bus', r)" by (metis surj_pair)
        ultimately show ?thesis
          using inr Inr None Some by (cases r) (simp_all add: evaluate_def Let_def)
      next
        case no: None
        show ?thesis
        proof (cases "decide_question sha s sn p slice q rv")
          case (Inl e)
          show ?thesis
          proof (cases "\<exists>msg. e = IncomparableCondition msg")
            case True
            then obtain msg where "e = IncomparableCondition msg" by blast
            with Inl no inr Inr None show ?thesis
              by (cases "ill_posed pub bus s p rv ''incomparable_condition'' msg") (simp add: evaluate_def Let_def)
          next
            case False
            with Inl no inr Inr None show ?thesis
              by (cases e) (simp_all add: evaluate_def Let_def)
          qed
        next
          case dec: (Inr d)
          obtain bus' r where em: "emit_decided pub bus d = (bus', r)" by (metis surj_pair)
          with dec no inr Inr None show ?thesis
            by (cases r) (simp_all add: evaluate_def Let_def)
        qed
      qed
    qed
  qed
qed

end
