(* ===== verification/SgpeMemo.thy ===== *)
theory SgpeMemo
  imports SgpeAnswers
begin

text \<open>
  The runtime's shared memo (\<open>GovernanceRuntime._memo\<close>) over runs of the runtime: consultations
  under any views, interleaved with routed approvals and revocations, direct appends to the
  ledger, and operations on the policy store. The memo holds decisions the runtime would make
  again, because the ledger only grows, a verified snapshot stays in the registry, and a
  question is asked under one view.
\<close>

section \<open>Runs of the runtime\<close>

datatype gov_op =
    Consult effective_policy "pyval + question"
  | Approve effective_policy decision pyval pyval "cond option"
  | Retract effective_policy decision pyval pyval pyval
  | Author policy_op
  | Record ledger_op

datatype gov_answer = Answered "eval_outcome refusing" | Recorded "ledger_record refusing" | Silent

definition gov_do ::
  "digest_fn \<Rightarrow> 's blob_writer \<Rightarrow> 'b publisher \<Rightarrow> ('s, 'b) governance \<Rightarrow> gov_op \<Rightarrow> ('s, 'b) governance \<times> gov_answer" where
  "gov_do sha wr pub g op =
     (case op of
        Consult ep asked \<Rightarrow> map_prod id Answered (consult sha pub g ep asked)
      | Approve ep d grantor reason bound \<Rightarrow> map_prod id Recorded (route_approval wr pub g ep d grantor reason bound)
      | Retract ep d gid grantor reason \<Rightarrow> map_prod id Recorded (route_revocation wr pub g ep d gid grantor reason)
      | Author a \<Rightarrow>
          (case policy_do sha wr pub (gv_world g, gv_policies g) a of
             (w, st) \<Rightarrow> (g\<lparr>gv_world := w, gv_policies := st\<rparr>, Silent))
      | Record a \<Rightarrow>
          (case ledger_do wr pub (gv_world g, gv_ledger g) a of
             (w, l) \<Rightarrow> (g\<lparr>gv_world := w, gv_ledger := l\<rparr>, Silent)))"

text \<open>\<open>ev\<close> is what is done to the memo before each operation: nothing, or evicting entries.\<close>

fun gov_run ::
  "digest_fn \<Rightarrow> 's blob_writer \<Rightarrow> 'b publisher \<Rightarrow> (memo \<Rightarrow> memo) \<Rightarrow> ('s, 'b) governance \<Rightarrow> gov_op list
     \<Rightarrow> ('s, 'b) governance \<times> gov_answer list" where
  "gov_run sha wr pub ev g [] = (g, [])"
| "gov_run sha wr pub ev g (op # ops) =
     (case gov_do sha wr pub (g\<lparr>gv_memo := ev (gv_memo g)\<rparr>) op of
        (g', a) \<Rightarrow> (case gov_run sha wr pub ev g' ops of (g'', as) \<Rightarrow> (g'', a # as)))"

definition evicting :: "(memo \<Rightarrow> memo) \<Rightarrow> bool" where
  "evicting ev \<longleftrightarrow> (\<forall>m k d. dget (ev m) k = Some d \<longrightarrow> dget m k = Some d)"

text \<open>No question is asked under two views of one snapshot, and the digest tells questions apart.\<close>

definition one_view :: "gov_op list \<Rightarrow> bool" where
  "one_view ops \<longleftrightarrow> (\<forall>ep ep' q. Consult ep (Inr q) \<in> set ops \<longrightarrow> Consult ep' (Inr q) \<in> set ops \<longrightarrow>
     ep_snapshot ep = ep_snapshot ep' \<longrightarrow> ep = ep')"

definition told_apart :: "digest_fn \<Rightarrow> gov_op list \<Rightarrow> bool" where
  "told_apart sha ops \<longleftrightarrow> (\<forall>ep ep' q q'. Consult ep (Inr q) \<in> set ops \<longrightarrow> Consult ep' (Inr q') \<in> set ops \<longrightarrow>
     question_hash sha q = question_hash sha q' \<longrightarrow> q = q')"

section \<open>What the memo holds\<close>

text \<open>The slice of the first \<open>p\<close> records; later appends leave it alone.\<close>

definition slice_at :: "effective_policy \<Rightarrow> int \<Rightarrow> grant_ledger \<Rightarrow> grant list" where
  "slice_at ep p l = map project_record (filter (visible ep p) (take (nat p) (lg_records l)))"

definition memo_ok :: "digest_fn \<Rightarrow> gov_op list \<Rightarrow> ('s, 'b) governance \<Rightarrow> bool" where
  "memo_ok sha ops g \<longleftrightarrow> (\<forall>s p k h d. dget (gv_memo g) (s, p, k, h) = Some d \<longrightarrow>
     (\<exists>ep q sn. Consult ep (Inr q) \<in> set ops \<and> ep_snapshot ep = s \<and> h = question_hash sha q
        \<and> dget (gv_snapshots g) s = Some sn \<and> nat p \<le> length (lg_records (gv_ledger g))
        \<and> decide_question sha s sn p (slice_at ep p (gv_ledger g)) q (PyInt 1) = Inr d))"

definition gov_grows :: "('s, 'b) governance \<Rightarrow> ('s, 'b) governance \<Rightarrow> bool" where
  "gov_grows g g' \<longleftrightarrow> (\<exists>rs. lg_records (gv_ledger g') = lg_records (gv_ledger g) @ rs)
     \<and> (\<forall>s sn. dget (gv_snapshots g) s = Some sn \<longrightarrow> dget (gv_snapshots g') s = Some sn)"

lemma slice_at_grows:
  "nat p \<le> length (lg_records l) \<Longrightarrow> lg_records l' = lg_records l @ rs \<Longrightarrow> slice_at ep p l' = slice_at ep p l"
  by (simp add: slice_at_def)

lemma memo_ok_grows:
  assumes "memo_ok sha ops g" and "gov_grows g g'"
    and "\<And>k d. dget (gv_memo g') k = Some d \<Longrightarrow> dget (gv_memo g) k = Some d"
  shows "memo_ok sha ops g'"
  unfolding memo_ok_def
proof (intro allI impI)
  fix s p k h d
  assume "dget (gv_memo g') (s, p, k, h) = Some d"
  then have "dget (gv_memo g) (s, p, k, h) = Some d" by (rule assms(3))
  then obtain ep q sn where e: "Consult ep (Inr q) \<in> set ops" "ep_snapshot ep = s" "h = question_hash sha q"
      "dget (gv_snapshots g) s = Some sn" "nat p \<le> length (lg_records (gv_ledger g))"
      "decide_question sha s sn p (slice_at ep p (gv_ledger g)) q (PyInt 1) = Inr d"
    using assms(1) unfolding memo_ok_def by blast
  obtain rs where rs: "lg_records (gv_ledger g') = lg_records (gv_ledger g) @ rs"
    using assms(2) by (auto simp: gov_grows_def)
  have "slice_at ep p (gv_ledger g') = slice_at ep p (gv_ledger g)" by (rule slice_at_grows [OF e(5) rs])
  with e rs assms(2)
  show "\<exists>ep q sn. Consult ep (Inr q) \<in> set ops \<and> ep_snapshot ep = s \<and> h = question_hash sha q
      \<and> dget (gv_snapshots g') s = Some sn \<and> nat p \<le> length (lg_records (gv_ledger g'))
      \<and> decide_question sha s sn p (slice_at ep p (gv_ledger g')) q (PyInt 1) = Inr d"
    by (intro exI [of _ ep] exI [of _ q] exI [of _ sn]) (simp add: gov_grows_def)
qed

section \<open>Operations that do not consult\<close>

lemma ledger_apply_grows: "ledger_apply wr pub wl r n = (wl', a) \<Longrightarrow> \<exists>rs. lg_records (snd wl') = lg_records (snd wl) @ rs"
  by (auto simp: ledger_apply_def Let_def split: prod.splits sum.splits if_splits)

lemma append_grant_grows:
  "append_grant wr pub wl sig sc prov b = (wl', a) \<Longrightarrow> \<exists>rs. lg_records (snd wl') = lg_records (snd wl) @ rs"
  by (auto simp: append_grant_def Let_def split: option.splits dest: ledger_apply_grows)

lemma append_revocation_grows:
  "append_revocation wr pub wl gid prov = (wl', a) \<Longrightarrow> \<exists>rs. lg_records (snd wl') = lg_records (snd wl) @ rs"
  by (auto simp: append_revocation_def Let_def split: option.splits if_splits dest: ledger_apply_grows)

lemma ledger_do_grows:
  "ledger_do wr pub wl a = wl' \<Longrightarrow> \<exists>rs. lg_records (snd wl') = lg_records (snd wl) @ rs"
  unfolding ledger_do_def
  by (cases a) (auto dest: append_grant_grows append_revocation_grows simp: prod_eq_iff [symmetric]
      intro: append_grant_grows append_revocation_grows [OF prod.collapse [symmetric]] append_grant_grows [OF prod.collapse [symmetric]])

definition consults :: "gov_op \<Rightarrow> bool" where
  "consults op \<longleftrightarrow> (\<exists>ep asked. op = Consult ep asked)"

lemma gov_do_other:
  assumes "\<not> consults op" and "gov_do sha wr pub g op = (g', a)"
  shows "gov_grows g g'" and "gv_memo g' = gv_memo g"
    and "gov_do sha wr pub (g\<lparr>gv_memo := m\<rparr>) op = (g'\<lparr>gv_memo := m\<rparr>, a)"
proof -
  show "gov_grows g g'"
    using assms
    by (cases op) (auto simp: gov_do_def consults_def gov_grows_def route_approval_def route_revocation_def with_ledger_def
        split: prod.splits sum.splits if_splits
        dest: append_grant_grows append_revocation_grows ledger_do_grows)
  show "gv_memo g' = gv_memo g"
    using assms
    by (cases op) (auto simp: gov_do_def consults_def route_approval_def route_revocation_def with_ledger_def
        split: prod.splits sum.splits if_splits)
  show "gov_do sha wr pub (g\<lparr>gv_memo := m\<rparr>) op = (g'\<lparr>gv_memo := m\<rparr>, a)"
    using assms
    by (cases op) (auto simp: gov_do_def consults_def route_approval_def route_revocation_def with_ledger_def
        split: prod.splits sum.splits if_splits)
qed

section \<open>Consultations\<close>

lemma snapshot_for_outcome:
  assumes "snapshot_for sha pub g v = (g', r)"
  shows "gv_ledger g' = gv_ledger g" and "gv_world g' = gv_world g" and "gv_memo g' = gv_memo g" and "gov_grows g g'"
    and "r = Inr sn \<Longrightarrow> dget (gv_snapshots g') v = Some sn"
    and "dget (gv_snapshots g) v = Some sn' \<Longrightarrow> r = Inr sn'"
    and "snapshot_for sha pub (g\<lparr>gv_memo := m\<rparr>) v = (g'\<lparr>gv_memo := m\<rparr>, r)"
  using assms
  by (auto simp: snapshot_for_def gov_grows_def dict_simps split: option.splits sum.splits if_splits)

lemma slice_is_slice_at:
  assumes "consultation_slice l ep (PyInt (ledger_position l)) = Inr slice"
  shows "slice = slice_at ep (ledger_position l) l"
  using consultation_slice_visible [OF assms] by (simp add: slice_at_def ledger_position_def)

text \<open>A decision just made may be kept.\<close>

lemma memo_ok_gains:
  assumes "memo_ok sha ops g" and "Consult ep (Inr q) \<in> set ops" and "dget (gv_snapshots g) (ep_snapshot ep) = Some sn"
    and "nat p \<le> length (lg_records (gv_ledger g))"
    and "decide_question sha (ep_snapshot ep) sn p (slice_at ep p (gv_ledger g)) q (PyInt 1) = Inr d"
    and "gv_snapshots g' = gv_snapshots g" and "gv_ledger g' = gv_ledger g"
    and "gv_memo g' = dset (ep_snapshot ep, p, k, question_hash sha q) d (gv_memo g)"
  shows "memo_ok sha ops g'"
  unfolding memo_ok_def
proof (intro allI impI)
  fix s' p' k' h' d'
  assume hit: "dget (gv_memo g') (s', p', k', h') = Some d'"
  show "\<exists>ep q sn. Consult ep (Inr q) \<in> set ops \<and> ep_snapshot ep = s' \<and> h' = question_hash sha q
      \<and> dget (gv_snapshots g') s' = Some sn \<and> nat p' \<le> length (lg_records (gv_ledger g'))
      \<and> decide_question sha s' sn p' (slice_at ep p' (gv_ledger g')) q (PyInt 1) = Inr d'"
  proof (cases "(s', p', k', h') = (ep_snapshot ep, p, k, question_hash sha q)")
    case True
    with hit assms(8) have "d' = d" by (simp add: dget_dset)
    with True assms show ?thesis by (intro exI [of _ ep] exI [of _ q] exI [of _ sn]) simp
  next
    case False
    then have "dget (gv_memo g) (s', p', k', h') = Some d'" using hit assms(8) by (simp add: dget_dset split: if_splits)
    with assms(1) show ?thesis unfolding memo_ok_def assms(6,7) by blast
  qed
qed

text \<open>One consultation, with a memo that is right and without one.\<close>

lemma consult_memo:
  assumes ok: "memo_ok sha ops g" and op: "Consult ep asked \<in> set ops"
    and cs: "one_view ops" "told_apart sha ops"
  shows "\<exists>g' m a. consult sha pub g ep asked = (g'\<lparr>gv_memo := m\<rparr>, a)
    \<and> (\<exists>m0. consult sha pub (g\<lparr>gv_memo := []\<rparr>) ep asked = (g'\<lparr>gv_memo := m0\<rparr>, a))
    \<and> memo_ok sha ops (g'\<lparr>gv_memo := m\<rparr>)"
proof (cases "consultation_slice (gv_ledger g) ep (PyInt (ledger_position (gv_ledger g)))")
  case (Inl e)
  have "g\<lparr>gv_memo := gv_memo g\<rparr> = g" by simp
  with Inl ok show ?thesis
    by (intro exI [of _ g] exI [of _ "gv_memo g"] exI [of _ "Inl e"]) (auto simp: consult_def Let_def intro!: exI [of _ "[]"])
next
  case (Inr slice)
  let ?p = "ledger_position (gv_ledger g)" and ?s = "ep_snapshot ep"
  obtain g1 rsn where sf: "snapshot_for sha pub g ?s = (g1, rsn)" by (cases "snapshot_for sha pub g ?s")
  note out = snapshot_for_outcome [OF sf]
  have ok1: "memo_ok sha ops g1" by (rule memo_ok_grows [OF ok out(4)]) (simp add: out(3))
  show ?thesis
  proof (cases rsn)
    case (Inl e)
    have "g1\<lparr>gv_memo := gv_memo g\<rparr> = g1" using out(3) by (cases g1) simp
    with Inl Inr sf out(7) [of "[]"] ok1 show ?thesis
      by (intro exI [of _ g1] exI [of _ "gv_memo g"] exI [of _ "Inl e"]) (auto simp: consult_def Let_def intro!: exI [of _ "[]"])
  next
    case sn: (Inr sn)
    let ?bus = "wd_bus (gv_world g1)"
    have cached: "dget (gv_snapshots g1) ?s = Some sn" using out(5) sn by blast
    have slice: "slice = slice_at ep ?p (gv_ledger g1)" using slice_is_slice_at [OF Inr] out(1) by simp
    have agrees: "memo_agrees sha (gv_memo g1) ?s sn ?p slice asked (PyInt 1)"
      unfolding memo_agrees_def
    proof (intro allI impI)
      fix q d
      assume q: "asked = Inr q" and "dget (gv_memo g1) (?s, ?p, hkey (PyInt 1), question_hash sha q) = Some d"
      then obtain ep' q' sn' where e: "Consult ep' (Inr q') \<in> set ops" "ep_snapshot ep' = ?s"
          "question_hash sha q = question_hash sha q'" "dget (gv_snapshots g1) ?s = Some sn'"
          "decide_question sha ?s sn' ?p (slice_at ep' ?p (gv_ledger g1)) q' (PyInt 1) = Inr d"
        using ok1 unfolding memo_ok_def by blast
      have "q = q'" using cs(2) op q e(1,3) unfolding told_apart_def by blast
      moreover from this have "ep' = ep" using cs(1) op q e(1,2) unfolding one_view_def by blast
      moreover have "sn' = sn" using e(4) cached by simp
      ultimately show "decide_question sha ?s sn ?p slice q (PyInt 1) = Inr d" using e(5) slice by simp
    qed
    have none: "memo_agrees sha [] ?s sn ?p slice asked (PyInt 1)" by (simp add: memo_agrees_def)
    from evaluate_memo [OF agrees, of pub ?bus] obtain bus' m a where
      e1: "evaluate sha pub ?bus (Some (gv_memo g1)) (PyInt ?s) sn (PyInt ?p) slice asked (PyInt 1) = (bus', Some m, a)"
      and e0: "evaluate sha pub ?bus None (PyInt ?s) sn (PyInt ?p) slice asked (PyInt 1) = (bus', None, a)"
      and m: "m = gv_memo g1 \<or> (\<exists>q d. asked = Inr q \<and> decide_question sha ?s sn ?p slice q (PyInt 1) = Inr d
          \<and> m = dset (?s, ?p, hkey (PyInt 1), question_hash sha q) d (gv_memo g1))"
      by blast
    from evaluate_memo [OF none, of pub ?bus] e0 obtain m0 where
      e2: "evaluate sha pub ?bus (Some []) (PyInt ?s) sn (PyInt ?p) slice asked (PyInt 1) = (bus', Some m0, a)"
      by auto
    let ?g' = "g1\<lparr>gv_world := (gv_world g1)\<lparr>wd_bus := bus'\<rparr>\<rparr>"
    have "consult sha pub g ep asked = (?g'\<lparr>gv_memo := m\<rparr>, a)"
      using Inr sf sn e1 by (simp add: consult_def Let_def)
    moreover have "consult sha pub (g\<lparr>gv_memo := []\<rparr>) ep asked = (?g'\<lparr>gv_memo := m0\<rparr>, a)"
      using Inr out(7) [of "[]"] sn e2 by (simp add: consult_def Let_def)
    moreover have "memo_ok sha ops (?g'\<lparr>gv_memo := m\<rparr>)"
      using m
    proof (elim disjE exE conjE)
      assume "m = gv_memo g1"
      with ok1 show ?thesis by (auto simp: memo_ok_def)
    next
      fix q d
      assume new: "asked = Inr q" "decide_question sha ?s sn ?p slice q (PyInt 1) = Inr d"
        "m = dset (?s, ?p, hkey (PyInt 1), question_hash sha q) d (gv_memo g1)"
      have "nat ?p \<le> length (lg_records (gv_ledger g1))" by (simp add: out(1) ledger_position_def)
      then show ?thesis
        by (rule memo_ok_gains [OF ok1 op [unfolded new(1)] cached _ new(2) [unfolded slice], where k = "hkey (PyInt 1)"])
          (simp_all add: new(3))
    qed
    ultimately show ?thesis by blast
  qed
qed

section \<open>Runs with and without the memo\<close>

lemma gov_run_memo:
  assumes ev: "evicting ev" and cs: "one_view all" "told_apart sha all"
  shows "memo_ok sha all g \<Longrightarrow> set ops \<subseteq> set all \<Longrightarrow> f = g\<lparr>gv_memo := mf\<rparr> \<Longrightarrow>
    \<exists>g' m f' as. gov_run sha wr pub ev g ops = (g'\<lparr>gv_memo := m\<rparr>, as)
      \<and> gov_run sha wr pub (\<lambda>_. []) f ops = (g'\<lparr>gv_memo := f'\<rparr>, as)"
proof (induction ops arbitrary: g f mf)
  case Nil
  have "g\<lparr>gv_memo := gv_memo g\<rparr> = g" by simp
  with Nil show ?case by (intro exI [of _ g] exI [of _ "gv_memo g"] exI [of _ mf] exI [of _ "[]"]) simp
next
  case (Cons op ops)
  let ?g = "g\<lparr>gv_memo := ev (gv_memo g)\<rparr>" and ?f = "f\<lparr>gv_memo := []\<rparr>"
  have f: "?f = ?g\<lparr>gv_memo := []\<rparr>" using Cons.prems(3) by simp
  have ok: "memo_ok sha all ?g"
  proof (rule memo_ok_grows [OF Cons.prems(1)])
    show "gov_grows g ?g" by (simp add: gov_grows_def)
    fix k d
    assume "dget (gv_memo ?g) k = Some d"
    then have "dget (ev (gv_memo g)) k = Some d" by simp
    then show "dget (gv_memo g) k = Some d" using ev unfolding evicting_def by blast
  qed
  have "\<exists>g1 m f1 a. gov_do sha wr pub ?g op = (g1\<lparr>gv_memo := m\<rparr>, a) \<and> gov_do sha wr pub ?f op = (g1\<lparr>gv_memo := f1\<rparr>, a)
      \<and> memo_ok sha all (g1\<lparr>gv_memo := m\<rparr>)"
  proof (cases "consults op")
    case True
    then obtain ep asked where o': "op = Consult ep asked" by (auto simp: consults_def)
    with Cons.prems(2) have "Consult ep asked \<in> set all" by simp
    from consult_memo [OF ok this cs, of pub] obtain g1 m a m0 where
      "consult sha pub ?g ep asked = (g1\<lparr>gv_memo := m\<rparr>, a)"
      "consult sha pub (?g\<lparr>gv_memo := []\<rparr>) ep asked = (g1\<lparr>gv_memo := m0\<rparr>, a)"
      "memo_ok sha all (g1\<lparr>gv_memo := m\<rparr>)" by blast
    with f o' show ?thesis
      by (intro exI [of _ g1] exI [of _ m] exI [of _ m0] exI [of _ "Answered a"]) (simp add: gov_do_def)
  next
    case False
    obtain g1 a where d: "gov_do sha wr pub ?g op = (g1, a)" by (cases "gov_do sha wr pub ?g op")
    note other = gov_do_other [OF False d]
    have "memo_ok sha all g1" by (rule memo_ok_grows [OF ok other(1)]) (simp add: other(2))
    moreover have "g1\<lparr>gv_memo := gv_memo g1\<rparr> = g1" by simp
    ultimately show ?thesis using d other(3) [of "[]"] f by metis
  qed
  then obtain g1 m f1 a where one: "gov_do sha wr pub ?g op = (g1\<lparr>gv_memo := m\<rparr>, a)"
      "gov_do sha wr pub ?f op = (g1\<lparr>gv_memo := f1\<rparr>, a)" "memo_ok sha all (g1\<lparr>gv_memo := m\<rparr>)" by blast
  have "g1\<lparr>gv_memo := f1\<rparr> = (g1\<lparr>gv_memo := m\<rparr>)\<lparr>gv_memo := f1\<rparr>" by simp
  from Cons.IH [OF one(3) _ this] Cons.prems(2) obtain g' m' f' as where
    "gov_run sha wr pub ev (g1\<lparr>gv_memo := m\<rparr>) ops = (g'\<lparr>gv_memo := m'\<rparr>, as)"
    "gov_run sha wr pub (\<lambda>_. []) (g1\<lparr>gv_memo := f1\<rparr>) ops = (g'\<lparr>gv_memo := f'\<rparr>, as)" by auto
  with one show ?case by (auto intro!: exI)
qed

end
