(* ===== verification/SgpeProps.thy ===== *)
theory SgpeProps
  imports SgpeMemo
begin

text \<open>
  The properties of the policy engine, with their witnesses, and behaviours that the
  code's own description rules out.
\<close>

section \<open>Documents\<close>

text \<open>
  C30: whatever value \<open>document.from_dict\<close> accepts is a well-formed document (names present, a
  known scope and schema, effects of the decision alphabet with a value exactly on \<open>LIMIT\<close>,
  conditions of the grammar with scalar values, distinct rule ids), and serializing it and
  reading it back gives the same document; so does every document put together from built parts.
\<close>

theorem documents_typed_and_round_trip:
  assumes "document_from_dict v = Inr d \<or> (\<exists>h rs. build_document h rs = Inr d \<and> built_header h \<and> list_all built_rule rs)"
  shows "built_document d \<and> document_from_dict (document_to_dict d) = Inr d"
proof -
  have "built_document d" using assms document_from_dict_built build_document_built by blast
  then show ?thesis using document_round_trip by blast
qed

section \<open>Snapshots\<close>

text \<open>
  C31: a snapshot compiled from a store decides like the policy it was compiled from. Whatever
  operations made the store, a question whose conditions compare numbers is answered by a
  governing rule: one that applies and that no applying rule outranks by scope, or within a
  scope by deny over approval over allow or by a smaller limit. The citations are exactly the
  applying rules. The retrieval never finds itself without an undominated winner or with
  winners that diverge; the only refusal is that no rule applies at all.
\<close>

theorem snapshot_refines_policy:
  assumes "snd (policy_run sha wr pub (w, empty_policy_store) ops) = st" and "\<forall>op \<in> set ops. authored op"
    and "compile_snapshot sha pub' bus st (PyInt pos) rv = (bus', Inr r)" and "co_snapshot r = Some sn"
    and "comparable (assemble_documents st pos) d op res facts"
  shows "answered_by_policy (assemble_documents st pos) d op res facts (match_and_win sn d op res facts)"
proof -
  have "contents_built st" using policy_run_built [of "(w, empty_policy_store)" ops sha wr pub] assms(1,2) by simp
  then have "well_assembled (assemble_documents st pos)" by (rule well_assembled_assemble)
  moreover obtain voc errs ws where "compile_stages sha (assemble_documents st pos) pos voc rv = (errs, ws, Some sn)"
    using compile_snapshot_stages [OF assms(3,4)] by blast
  ultimately show ?thesis using compiled_decides assms(5) by blast
qed

section \<open>Authority\<close>

definition approved :: "grant_ledger \<Rightarrow> effective_policy \<Rightarrow> int \<Rightarrow> string \<Rightarrow> bool" where
  "approved l ep p sig \<longleftrightarrow> (\<exists>r \<in> set (lg_records l). visible ep p r \<and> lr_kind r = ''grant'' \<and> lr_signature r = sig
     \<and> (\<forall>r' \<in> set (lg_records l). visible ep p r' \<and> lr_kind r' = ''revocation'' \<longrightarrow> lr_revoked r' \<noteq> Some (lr_id r)))"

lemma ledger_kinds:
  assumes "ledger_inv l" and "r \<in> set (lg_records l)"
  shows "lr_kind r = ''grant'' \<or> lr_kind r = ''revocation'' \<and> (\<exists>i. lr_revoked r = Some i)"
proof -
  from assms(2) obtain n where "n < length (lg_records l)" "r = lg_records l ! n" by (auto simp: in_set_conv_nth)
  with assms(1) show ?thesis by (auto simp: ledger_inv_def records_ok.simps record_ok_def)
qed

lemma live_grant_approved:
  assumes "ledger_inv l" and "consultation_slice l ep (PyInt p) = Inr slice"
  shows "(\<exists>g. live_grant slice sig g) \<longleftrightarrow> approved l ep p sig"
proof -
  let ?V = "filter (visible ep p) (lg_records l)"
  have proj: "gr_kind (project_record r) = lr_kind r" "gr_signature (project_record r) = lr_signature r" for r
    by (simp_all add: project_record_def)
  have gid: "lr_kind r = ''grant'' \<Longrightarrow> gr_id (project_record r) = lr_id r" for r
    by (simp add: project_record_def)
  have rid: "gr_id (project_record r) = i \<longleftrightarrow> lr_revoked r = Some i"
    if "r \<in> set (lg_records l)" "lr_kind r = ''revocation''" for r i
    using ledger_kinds [OF assms(1) that(1)] that(2) by (auto simp: project_record_def)
  show ?thesis
    unfolding consultation_slice_visible [OF assms(2)] live_grant_def approved_def
    using proj gid rid by (auto simp del: split_paired_Ex)
qed

lemma evaluate_decides:
  assumes "evaluate sha pub bus m (PyInt s) sn (PyInt p) slice (Inr q) rv = (bus', m', Inr (Decided d))"
    and "m = None \<or> m = Some []"
  shows "decide_question sha s sn p slice q rv = Inr d"
  using assms
  by (auto simp: evaluate_def check_inputs_def ill_posed_def Let_def
      split: sum.splits option.splits if_splits prod.splits sgpe_exn.splits)

lemma consultation_decides:
  assumes "replay_consultation sha pub g ep (Inr q) (PyInt p) rv = (g', Inr (Decided d))
      \<or> consult sha pub (g\<lparr>gv_memo := []\<rparr>) ep (Inr q) = (g', Inr (Decided d))
        \<and> p = ledger_position (gv_ledger g) \<and> rv = PyInt 1"
  obtains slice sn where "consultation_slice (gv_ledger g) ep (PyInt p) = Inr slice"
    and "snd (snapshot_for sha pub g (ep_snapshot ep)) = Inr sn"
    and "decide_question sha (ep_snapshot ep) sn p slice q rv = Inr d"
proof -
  obtain g1 rsn where sf: "snapshot_for sha pub g (ep_snapshot ep) = (g1, rsn)"
    by (cases "snapshot_for sha pub g (ep_snapshot ep)")
  note sf0 = snapshot_for_outcome(3) [OF sf] snapshot_for_outcome(7) [OF sf, of "[]"]
  from assms sf sf0(2) obtain slice sn where slice: "consultation_slice (gv_ledger g) ep (PyInt p) = Inr slice" and sn: "rsn = Inr sn"
    by (auto simp: replay_consultation_def consult_def Let_def split: sum.splits prod.splits)
  have "\<exists>bus m bus' m'. (m = None \<or> m = Some [])
      \<and> evaluate sha pub bus m (PyInt (ep_snapshot ep)) sn (PyInt p) slice (Inr q) rv = (bus', m', Inr (Decided d))"
    using assms
  proof (elim disjE conjE)
    assume "replay_consultation sha pub g ep (Inr q) (PyInt p) rv = (g', Inr (Decided d))"
    with slice sn sf show ?thesis by (auto simp: replay_consultation_def split: prod.splits)
  next
    assume "consult sha pub (g\<lparr>gv_memo := []\<rparr>) ep (Inr q) = (g', Inr (Decided d))" "p = ledger_position (gv_ledger g)" "rv = PyInt 1"
    with slice sn sf0 show ?thesis by (auto simp: consult_def Let_def split: prod.splits)
  qed
  then obtain bus m bus' m' where m: "m = None \<or> m = Some []" and
      "evaluate sha pub bus m (PyInt (ep_snapshot ep)) sn (PyInt p) slice (Inr q) rv = (bus', m', Inr (Decided d))" by blast
  then have "decide_question sha (ep_snapshot ep) sn p slice q rv = Inr d" by (blast intro: evaluate_decides)
  with slice sn sf show thesis by (intro that [of slice sn]) simp_all
qed

text \<open>
  C32: authority. What a consultation decides, live without a memo or replayed at a ledger
  position, is the effect of the winning entry of the snapshot, with its value; unless the
  entry asks for approval, is not final, and the ledger holds a grant for exactly this
  signature, visible to this request, that no visible revocation names: then, and only then, the
  action is allowed by the grant, and otherwise the ask carries the signature. So no grant ever
  overrides a denial, and none a final ask. A visible record is bound to the request, its
  principal or its project, and after admission only the request's own records enter. The
  decision is stamped with the snapshot, the position and the question. A grant's bound is not
  consulted: a grant whose bound has lapsed still allows (\<open>lapsed_bound_still_allows\<close>).
\<close>

theorem allowed_by_rule_or_grant:
  assumes "replay_consultation sha pub g ep (Inr q) (PyInt p) rv = (g', Inr (Decided d))
      \<or> consult sha pub (g\<lparr>gv_memo := []\<rparr>) ep (Inr q) = (g', Inr (Decided d))
        \<and> p = ledger_position (gv_ledger g) \<and> rv = PyInt 1"
    and "ledger_inv (gv_ledger g)"
    and "sig = ask_signature sha q"
  shows "\<exists>sn w cites fb by_grant. snd (snapshot_for sha pub g (ep_snapshot ep)) = Inr sn
    \<and> match_and_win sn (qu_domain q) (qu_operation q) (qu_resource q) (dict_of (qu_facts q)) = Inr (w, cites, fb)
    \<and> by_grant = (ie_kind w = ''REQUIRE_APPROVAL'' \<and> \<not> ie_final w \<and> approved (gv_ledger g) ep p sig)
    \<and> dc_kind d = (if by_grant then ''ALLOW'' else ie_kind w)
    \<and> dc_value d = (if by_grant then PyNone else ie_value w)
    \<and> dc_signature d = (if ie_kind w = ''REQUIRE_APPROVAL'' \<and> \<not> by_grant then Some sig else None)
    \<and> dc_snapshot d = ep_snapshot ep \<and> dc_position d = p \<and> dc_question d = question_hash sha q"
proof -
  obtain slice sn where slice: "consultation_slice (gv_ledger g) ep (PyInt p) = Inr slice"
    and sn: "snd (snapshot_for sha pub g (ep_snapshot ep)) = Inr sn"
    and dec: "decide_question sha (ep_snapshot ep) sn p slice q rv = Inr d"
    using assms(1) by (rule consultation_decides)
  have granted: "granted w slice sig = (ie_kind w = ''REQUIRE_APPROVAL'' \<and> \<not> ie_final w \<and> approved (gv_ledger g) ep p sig)" for w
    using live_grant_approved [OF assms(2) slice] by (simp add: granted_def)
  from decide_by_winner [OF dec] obtain w cites fb where
    "match_and_win sn (qu_domain q) (qu_operation q) (qu_resource q) (dict_of (qu_facts q)) = Inr (w, cites, fb)"
    "dc_kind d = (if granted w slice sig then ''ALLOW'' else ie_kind w)"
    "dc_value d = (if granted w slice sig then PyNone else ie_value w)"
    "dc_signature d = (if ie_kind w = ''REQUIRE_APPROVAL'' \<and> \<not> granted w slice sig then Some sig else None)"
    "dc_snapshot d = ep_snapshot ep \<and> dc_position d = p \<and> dc_question d = question_hash sha q"
    unfolding assms(3) by blast
  with sn granted [of w] show ?thesis
    by (intro exI [of _ sn] exI [of _ w] exI [of _ cites] exI [of _ fb] exI [of _ "granted w slice sig"] conjI) simp_all
qed

section \<open>The memo\<close>

text \<open>
  C33: the shared memo is invisible on requests that keep their view. Over any run of the
  runtime from an empty memo (consultations, routed approvals and revocations, appends to the
  ledger, operations on the policy store), with any eviction of entries in between, every
  answer, refusals included, everything announced and everything stored is what it would be
  with no memo at all, provided no question is asked under two views of one snapshot, as when
  the request it names is admitted once, and the digest tells the questions apart. Without the
  first proviso the memo changes answers (\<open>memo_crosses_projects\<close>), because its key lacks the
  project and the admission position.
\<close>

theorem memo_changes_no_answer:
  assumes "gv_memo g = []" and "evicting ev" and "one_view ops" and "told_apart sha ops"
  shows "snd (gov_run sha wr pub ev g ops) = snd (gov_run sha wr pub (\<lambda>_. []) g ops)
    \<and> (fst (gov_run sha wr pub ev g ops))\<lparr>gv_memo := []\<rparr>
      = (fst (gov_run sha wr pub (\<lambda>_. []) g ops))\<lparr>gv_memo := []\<rparr>"
proof -
  have "memo_ok sha ops g" using assms(1) by (simp add: memo_ok_def)
  moreover have "g = g\<lparr>gv_memo := []\<rparr>" using assms(1) by (cases g) simp
  ultimately obtain g' m f' as where "gov_run sha wr pub ev g ops = (g'\<lparr>gv_memo := m\<rparr>, as)"
      "gov_run sha wr pub (\<lambda>_. []) g ops = (g'\<lparr>gv_memo := f'\<rparr>, as)"
    using gov_run_memo [OF assms(2,3,4) _ order_refl] by blast
  then show ?thesis by simp
qed

section \<open>The ledger\<close>

text \<open>
  C34: a ledger is rebuilt from its log. Whatever grants and revocations were appended, refused
  appends and failing announcements included, replaying the exported log over storage that
  commits reproduces the ledger exactly: records, identifiers and positions.
\<close>

theorem ledger_rebuilds_from_log:
  assumes "snd (ledger_run wr pub (w, empty_ledger) ops) = l" and "\<forall>op \<in> set ops. built_op op"
    and "committing wr'" and "wd_bus w' = None"
  shows "\<exists>w''. rebuild_ledger wr' pub' w' (export_ledger l) = Inr (w'', l)"
  using rebuild_export [OF _ assms(3,4)] ledger_run_inv [of "(w, empty_ledger)" ops wr pub] assms(1,2) by auto

section \<open>Witnesses\<close>

definition demo_write :: "unit blob_writer" where
  "demo_write s k d = (s, Inr ''committed'')"

definition demo_world :: "(unit, mem_bus) world" where
  "demo_world = \<lparr>wd_store = (), wd_bus = None\<rparr>"

definition demo_digest :: digest_fn where
  "demo_digest s = ''h''"

definition demo_rule :: "string \<Rightarrow> string \<Rightarrow> cond option \<Rightarrow> rule" where
  "demo_rule i k c = \<lparr>ru_id = i, ru_target = \<lparr>tg_domain = ''d'', tg_operation = ''o'', tg_selector = ''*''\<rparr>,
     ru_effect = \<lparr>ef_kind = k, ef_value = PyNone\<rparr>, ru_cond = c, ru_final = False\<rparr>"

definition demo_doc :: "string \<Rightarrow> rule list \<Rightarrow> document" where
  "demo_doc s rs = \<lparr>do_header = \<lparr>hd_scope = s, hd_name = ''n'', hd_refs = [''d''],
     hd_prov = \<lparr>pv_author = ''a'', pv_timestamp = PyInt 1, pv_reason = ''r''\<rparr>, hd_vocab = 1, hd_schema = PyInt 1\<rparr>,
     do_rules = rs\<rparr>"

definition demo_vocabulary :: vocabulary where
  "demo_vocabulary = \<lparr>vo_version = 1, vo_domains = {''d''}, vo_operations = {''d.o''}, vo_facts = {''f''}\<rparr>"

definition demo_cond :: cond where
  "demo_cond = Comparison ''f'' ''gte'' (PyInt 5)"

definition demo_ops :: "policy_op list" where
  "demo_ops = [AddVocabulary demo_vocabulary,
     AddDocument (demo_doc ''system'' [demo_rule ''r1'' ''ALLOW'' None]) True,
     AddDocument (demo_doc ''project'' [demo_rule ''r2'' ''DENY'' (Some demo_cond)]) True]"

definition demo_policies :: policy_store where
  "demo_policies = snd (policy_run demo_digest demo_write mem_publish (demo_world, empty_policy_store) demo_ops)"

definition demo_result :: "compile_result refusing" where
  "demo_result = snd (compile_snapshot demo_digest mem_publish None demo_policies (PyInt 3) (PyInt 1))"

theorem documents_typed_and_round_trip_witness:
  "\<exists>d. document_from_dict (document_to_dict (demo_doc ''system'' [demo_rule ''r2'' ''DENY'' (Some demo_cond)])) = Inr d
     \<and> built_document d \<and> document_from_dict (document_to_dict d) = Inr d"
proof -
  let ?v = "document_to_dict (demo_doc ''system'' [demo_rule ''r2'' ''DENY'' (Some demo_cond)])"
  have "\<not> isl (document_from_dict ?v)" by code_simp
  then obtain d where "document_from_dict ?v = Inr d" by (cases "document_from_dict ?v") auto
  with documents_typed_and_round_trip [of ?v d] show ?thesis by blast
qed

theorem snapshot_refines_policy_witness:
  "\<exists>r sn. demo_result = Inr r \<and> co_snapshot r = Some sn
     \<and> answered_by_policy (assemble_documents demo_policies 3) ''d'' ''o'' ''x'' [(''f'', PyInt 7)]
         (match_and_win sn ''d'' ''o'' ''x'' [(''f'', PyInt 7)])"
proof -
  have "case demo_result of Inl e \<Rightarrow> False | Inr r \<Rightarrow> co_snapshot r \<noteq> None" by code_simp
  then obtain r sn where r: "demo_result = Inr r" "co_snapshot r = Some sn"
    by (auto split: sum.splits)
  then obtain bus' where c: "compile_snapshot demo_digest mem_publish None demo_policies (PyInt 3) (PyInt 1) = (bus', Inr r)"
    unfolding demo_result_def by (metis prod.collapse)
  have "\<forall>op \<in> set demo_ops. authored op" by code_simp
  moreover have "comparable (assemble_documents demo_policies 3) ''d'' ''o'' ''x'' [(''f'', PyInt 7)]" by code_simp
  ultimately show ?thesis
    using snapshot_refines_policy [OF demo_policies_def [symmetric] _ c r(2)] r by blast
qed

definition demo_question :: "string \<Rightarrow> question" where
  "demo_question res = \<lparr>qu_subsystem = ''k'', qu_request = ''q1'', qu_principal = ''al'', qu_domain = ''d'',
     qu_operation = ''o'', qu_resource = res, qu_facts = []\<rparr>"

definition demo_snapshot :: compiled_snapshot where
  "demo_snapshot = \<lparr>sn_position = 2, sn_vocab = 1, sn_ruleset = PyInt 1, sn_refs = [((''system'', ''n''), 1)],
     sn_entries = [\<lparr>ie_domain = ''d'', ie_operation = ''o'', ie_scope = ''system'', ie_selector = ''*'',
       ie_kind = ''REQUIRE_APPROVAL'', ie_value = PyNone, ie_cond = None, ie_final = False,
       ie_citation = ((''system'', ''n''), 1, Some ''r1''), ie_decided = [], ie_shadows = []\<rparr>],
     sn_facts = [((''d'', ''o''), [])], sn_hash = ''h''\<rparr>"

definition demo_scope :: "string \<Rightarrow> string \<Rightarrow> scope_binding" where
  "demo_scope k s = \<lparr>sb_kind = k, sb_subject = s\<rparr>"

definition demo_provenance :: grant_provenance where
  "demo_provenance = \<lparr>gp_grantor = ''bo'', gp_snapshot = 1, gp_position = 0, gp_ruleset = 1, gp_question = ''h'', gp_reason = ''ok''\<rparr>"

definition demo_grants :: "ledger_op list" where
  "demo_grants = [GiveGrant (PyStr (ask_signature id (demo_question ''x''))) (demo_scope ''project'' ''p'') demo_provenance None,
     GiveGrant (PyStr ''s'') (demo_scope ''request'' ''q1'') demo_provenance (Some demo_cond),
     Revoke (PyStr ''grant-2'') demo_provenance, Revoke (PyStr ''grant-9'') demo_provenance]"

definition demo_ledger :: grant_ledger where
  "demo_ledger = snd (ledger_run demo_write mem_publish (demo_world, empty_ledger) demo_grants)"

lemma demo_built: "\<forall>op \<in> set demo_grants. built_op op"
  by code_simp

definition demo_governance :: "(unit, mem_bus) governance" where
  "demo_governance = \<lparr>gv_world = demo_world, gv_policies = empty_policy_store, gv_ledger = demo_ledger, gv_memo = [],
     gv_snapshots = [(1, demo_snapshot)]\<rparr>"

definition demo_view :: "string \<Rightarrow> effective_policy" where
  "demo_view project = \<lparr>ep_snapshot = 1, ep_position = 3, ep_request = ''q1'', ep_principal = ''al'', ep_project = project\<rparr>"

definition kind_of :: "eval_outcome refusing \<Rightarrow> string" where
  "kind_of r = (case r of Inr (Decided d) \<Rightarrow> dc_kind d | _ \<Rightarrow> [])"

lemma kind_of_decided: "kind_of r \<noteq> [] \<Longrightarrow> \<exists>d. r = Inr (Decided d) \<and> kind_of r = dc_kind d"
  by (auto simp: kind_of_def split: sum.splits eval_outcome.splits)

lemma demo_ledger_inv: "ledger_inv demo_ledger"
  unfolding demo_ledger_def using demo_built by (intro ledger_run_inv) simp_all

theorem allowed_by_rule_or_grant_witness:
  "\<exists>d. snd (replay_consultation id mem_publish demo_governance (demo_view ''p'') (Inr (demo_question ''x'')) (PyInt 3) (PyInt 1))
       = Inr (Decided d) \<and> dc_kind d = ''ALLOW''
     \<and> approved demo_ledger (demo_view ''p'') 3 (ask_signature id (demo_question ''x''))"
proof -
  let ?r = "replay_consultation id mem_publish demo_governance (demo_view ''p'') (Inr (demo_question ''x'')) (PyInt 3) (PyInt 1)"
  let ?q = "demo_question ''x''"
  have k: "kind_of (snd ?r) = ''ALLOW''" by code_simp
  then have "kind_of (snd ?r) \<noteq> []" by simp
  from kind_of_decided [OF this] k obtain d where d: "snd ?r = Inr (Decided d)" "dc_kind d = ''ALLOW''" by auto
  then obtain g' where g': "?r = (g', Inr (Decided d))" by (metis prod.collapse)
  have inv: "ledger_inv (gv_ledger demo_governance)" by (simp add: demo_governance_def demo_ledger_inv)
  obtain sn w cites fb where w: "snd (snapshot_for id mem_publish demo_governance (ep_snapshot (demo_view ''p''))) = Inr sn"
      "match_and_win sn (qu_domain ?q) (qu_operation ?q) (qu_resource ?q) (dict_of (qu_facts ?q)) = Inr (w, cites, fb)"
      "dc_kind d = (if ie_kind w = ''REQUIRE_APPROVAL'' \<and> \<not> ie_final w
        \<and> approved (gv_ledger demo_governance) (demo_view ''p'') 3 (ask_signature id ?q) then ''ALLOW'' else ie_kind w)"
    using allowed_by_rule_or_grant [OF disjI1 [OF g'] inv refl] by blast
  have "sn = demo_snapshot" using w(1) by (simp add: snapshot_for_def demo_governance_def demo_view_def)
  moreover have "case match_and_win demo_snapshot (qu_domain ?q) (qu_operation ?q) (qu_resource ?q) (dict_of (qu_facts ?q)) of
      Inl e \<Rightarrow> False | Inr (w, cites, fb) \<Rightarrow> ie_kind w = ''REQUIRE_APPROVAL''" by code_simp
  ultimately have "ie_kind w = ''REQUIRE_APPROVAL''" using w(2) by simp
  with w(3) d show ?thesis by (auto simp: demo_governance_def split: if_splits)
qed

definition demo_consults :: "gov_op list" where
  "demo_consults = [Consult (demo_view ''p'') (Inr (demo_question ''x'')), Consult (demo_view ''p'') (Inr (demo_question ''x'')),
     Record (Revoke (PyStr ''grant-1'') demo_provenance), Consult (demo_view ''p'') (Inr (demo_question ''x'')),
     Consult (demo_view ''z'') (Inr (demo_question ''y''))]"

theorem memo_changes_no_answer_witness:
  "snd (gov_run id demo_write mem_publish id demo_governance demo_consults)
     = snd (gov_run id demo_write mem_publish (\<lambda>_. []) demo_governance demo_consults)"
proof -
  have "question_hash id (demo_question ''x'') \<noteq> question_hash id (demo_question ''y'')" by code_simp
  then have "told_apart id demo_consults" by (auto simp: told_apart_def demo_consults_def)
  moreover have "demo_question ''x'' \<noteq> demo_question ''y''" by (simp add: demo_question_def)
  then have "one_view demo_consults" by (auto simp: one_view_def demo_consults_def)
  moreover have "gv_memo demo_governance = []" "evicting id" by (simp_all add: demo_governance_def evicting_def)
  ultimately show ?thesis using memo_changes_no_answer by blast
qed

theorem ledger_rebuilds_from_log_witness:
  "\<exists>w''. rebuild_ledger demo_write mem_publish demo_world (export_ledger demo_ledger) = Inr (w'', demo_ledger)"
  by (rule ledger_rebuilds_from_log [OF demo_ledger_def [symmetric]])
    (simp_all add: demo_built committing_def demo_write_def demo_world_def)

section \<open>Divergences\<close>

text \<open>
  The shared memo is keyed by the stamps and the question, not by the project or the admission
  position that select the slice: a request admitted under project \<open>p\<close>, where a grant covers the
  ask, leaves an answer that the same request under project \<open>z\<close> is then given, although its
  replay asks for approval.
\<close>

lemma memo_crosses_projects:
  "let g1 = fst (consult id mem_publish demo_governance (demo_view ''p'') (Inr (demo_question ''x''))) in
     kind_of (snd (consult id mem_publish g1 (demo_view ''z'') (Inr (demo_question ''x'')))) = ''ALLOW''
     \<and> kind_of (snd (replay_consultation id mem_publish g1 (demo_view ''z'') (Inr (demo_question ''x'')) (PyInt 3) (PyInt 1)))
         = ''REQUIRE_APPROVAL''"
  by code_simp

text \<open>
  A grant is documented to lapse with its bound, a condition on the question's facts. The bound is
  kept on the record and dropped from the slice: the grant allows although its bound is false.
\<close>

definition demo_lapsed :: "(unit, mem_bus) governance" where
  "demo_lapsed = demo_governance\<lparr>
     gv_ledger := snd (ledger_run demo_write mem_publish (demo_world, empty_ledger)
       [GiveGrant (PyStr (ask_signature id (demo_question ''x''))) (demo_scope ''request'' ''q1'') demo_provenance (Some demo_cond)]),
     gv_snapshots := [(1, demo_snapshot\<lparr>sn_facts := [((''d'', ''o''), [''f''])]\<rparr>)]\<rparr>"

lemma lapsed_bound_still_allows:
  "let q = (demo_question ''x'')\<lparr>qu_facts := [(''f'', PyInt 1)]\<rparr> in
     map lr_bound (lg_records (gv_ledger demo_lapsed)) = [Some demo_cond]
     \<and> condition_satisfied (qu_facts q) demo_cond = Inr False
     \<and> kind_of (snd (consult id mem_publish demo_lapsed ((demo_view ''p'')\<lparr>ep_position := 0\<rparr>) (Inr q))) = ''ALLOW''"
  by code_simp

text \<open>A project denial stands against a grant for the very question it forbids.\<close>

definition demo_denied :: "(unit, mem_bus) governance" where
  "demo_denied = demo_governance\<lparr>gv_snapshots := [(1, demo_snapshot\<lparr>sn_entries :=
     map (\<lambda>e. e\<lparr>ie_scope := ''project'', ie_kind := ''DENY''\<rparr>) (sn_entries demo_snapshot)\<rparr>)]\<rparr>"

lemma grant_never_overrides_denial:
  "kind_of (snd (consult id mem_publish demo_governance (demo_view ''p'') (Inr (demo_question ''x'')))) = ''ALLOW''
     \<and> kind_of (snd (consult id mem_publish demo_denied (demo_view ''p'') (Inr (demo_question ''x'')))) = ''DENY''"
  by code_simp

text \<open>A conditional rule counts as the universal rule of its operation, and the snapshot has a hole.\<close>

definition hole_ops :: "policy_op list" where
  "hole_ops = [AddVocabulary demo_vocabulary,
     AddDocument (demo_doc ''system'' [demo_rule ''r1'' ''ALLOW'' (Some demo_cond)]) True]"

lemma conditional_default_leaves_hole:
  "case snd (compile_snapshot demo_digest mem_publish None
       (snd (policy_run demo_digest demo_write mem_publish (demo_world, empty_policy_store) hole_ops)) (PyInt 2) (PyInt 1)) of
     Inl e \<Rightarrow> False
   | Inr r \<Rightarrow> (case co_snapshot r of None \<Rightarrow> False
       | Some sn \<Rightarrow> isl (match_and_win sn ''d'' ''o'' ''x'' [(''f'', PyInt 1)]))"
  by code_simp

text \<open>A deprecation recorded later changes what an earlier catalog position compiles to.\<close>

lemma deprecation_reaches_back:
  "let later = snd (policy_do demo_digest demo_write mem_publish (demo_world, demo_policies)
         (AddDeprecation (''project'', ''n'') 1 (hd_prov (do_header (demo_doc ''system'' [])))))
   in length (assemble_documents demo_policies 3) = 2 \<and> length (assemble_documents later 3) = 1"
  by code_simp

end
