(* ===== verification/VaeRules.thy ===== *)
theory VaeRules
  imports PyVal BlobPort
begin

text \<open>
  The verification engine's refusals and its rules (\<open>vae/rules.py\<close>): an artifact type names
  the checks it requires, the depth and a deadline per check; a version of the rules is a
  snapshot of that, and the store ingests strictly increasing versions and reads all of them.
  Every constructor of \<open>vae_exn\<close> is an exception class of the package or of Python. Deadlines
  are integers. A tuple is a list.
\<close>

section \<open>Refusals\<close>

datatype vae_exn =
    MalformedRulesError string
  | StaleOrDuplicateVersionError string
  | UnknownVersionError string
  | UnknownArtifactTypeError string
  | MalformedEvidenceItemError string
  | UnknownContributionKindError string
  | MalformedEvidenceRecordError string
  | DerivationAccountRefusedError string
  | DerivationAccountMalformedError string
  | UnknownVerificationLevelError string
  | MalformedDerivationPolicyError string
  | DemandAlreadyTerminalConflictError string
  | DelegationRefusal string
  | ReDispatchRefusedError string
  | IllegalTransitionError string
  | StaticCheckRefusal string
  | DuplicateCheckNameError string
  | UnknownStaticCheckError string
  | MalformedCheckResultError string
  | DuplicateCheckNameAcrossKindsError string
  | UnknownCheckError string
  | LateResultBeforeTerminalError string
  | JudgmentNotReadyError string
  | JudgmentNotClosedError string
  | AlreadyEmittedError string
  | EmissionRefusal string
  | UnknownVaeEventError string
  | VaeEventRefusal string
  | UnknownSignalFamilyError string
  | UnknownCheckPhaseError string
  | NoOpenJudgmentError string
  | ReplayMismatchError string
  | LookupKeyError string
  | NotAMapping
  | EmptySequence
  | CheckRaised
  | VaeStorageRaised store_exn
  | VaeBusDown
  | UndecodedRecord

type_synonym 'a vae = "vae_exn + 'a"

section \<open>Rules of an artifact type\<close>

definition repr_strs :: "string list \<Rightarrow> string" where
  "repr_strs xs = ''['' @ join_with '', '' (map repr_str xs) @ '']''"

definition rule_check_name :: "pyval \<Rightarrow> string vae" where
  "rule_check_name c =
     (case c of
        PyStr s \<Rightarrow> if s = [] then Inl (MalformedRulesError (''rules.bad_check_name:'' @ py_repr c)) else Inr s
      | _ \<Rightarrow> Inl (MalformedRulesError (''rules.bad_check_name:'' @ py_repr c)))"

definition validate_checks :: "pyval \<Rightarrow> string list vae" where
  "validate_checks v =
     (case v of
        PyList (c # cs) \<Rightarrow>
          bind_sum (mapm rule_check_name (c # cs)) (\<lambda>checks.
            if \<not> distinct checks then
              Inl (MalformedRulesError (''rules.duplicate_check_name:('' @ join_with '', '' (map repr_str checks) @ '')''))
            else Inr checks)
      | _ \<Rightarrow> Inl (MalformedRulesError (''rules.empty_or_bad_required_checks:'' @ py_repr v)))"

definition check_deadline :: "string \<times> pyval \<Rightarrow> (string \<times> int) vae" where
  "check_deadline kv =
     (case kv of (check, v) \<Rightarrow>
        (case v of
           PyInt i \<Rightarrow> if i \<le> 0 then Inl (MalformedRulesError (''rules.bad_deadline:'' @ check @ '':'' @ py_repr v))
                      else Inr (check, i)
         | _ \<Rightarrow> Inl (MalformedRulesError (''rules.bad_deadline:'' @ check @ '':'' @ py_repr v))))"

definition validate_deadlines :: "pyval \<Rightarrow> string list \<Rightarrow> (string, int) dict vae" where
  "validate_deadlines v checks =
     (case v of
        PyDict d \<Rightarrow>
          if set (dkeys d) \<noteq> set checks then
            Inl (MalformedRulesError (''rules.deadlines_must_cover_exactly_required_checks:''
              @ repr_strs (sort (dkeys d)) @ ''!='' @ repr_strs (sort checks)))
          else mapm check_deadline d
      | _ \<Rightarrow> Inl (MalformedRulesError (''rules.bad_deadlines:'' @ py_repr v)))"

record artifact_rules =
  ar_checks :: "string list"
  ar_depth :: string
  ar_deadlines :: "(string, int) dict"

definition build_artifact_rules :: "pyval \<Rightarrow> pyval \<Rightarrow> pyval \<Rightarrow> artifact_rules vae" where
  "build_artifact_rules required depth deadlines =
     bind_sum (validate_checks required) (\<lambda>checks.
       case depth of
         PyStr (c # s) \<Rightarrow>
           bind_sum (validate_deadlines deadlines checks) (\<lambda>dl.
             Inr \<lparr>ar_checks = checks, ar_depth = c # s, ar_deadlines = dl\<rparr>)
       | _ \<Rightarrow> Inl (MalformedRulesError (''rules.bad_depth:'' @ py_repr depth)))"

section \<open>Versions\<close>

record rules_version =
  rv_version :: int
  rv_rules :: "(string, artifact_rules) dict"

text \<open>The argument of \<open>build_rules_version\<close>: a mapping to built or raw rules, or another value.\<close>

datatype rules_spec = SpecBuilt artifact_rules | SpecValue pyval

datatype rules_arg = RulesMap "(string \<times> rules_spec) list" | RulesValue pyval

fun rules_items :: "rules_arg \<Rightarrow> (string \<times> rules_spec) list" where
  "rules_items (RulesMap d) = d"
| "rules_items (RulesValue (PyDict d)) = map (\<lambda>(k, v). (k, SpecValue v)) d"
| "rules_items (RulesValue v) = []"

definition repr_rules_arg :: "rules_arg \<Rightarrow> string" where
  "repr_rules_arg a = (case a of RulesMap d \<Rightarrow> ''{}'' | RulesValue v \<Rightarrow> py_repr v)"

definition freeze_spec :: "string \<times> rules_spec \<Rightarrow> artifact_rules vae" where
  "freeze_spec kv =
     (case kv of (k, spec) \<Rightarrow>
        if k = [] then Inl (MalformedRulesError (''rules.bad_artifact_type:'' @ repr_str k))
        else (case spec of
          SpecBuilt ar \<Rightarrow> Inr ar
        | SpecValue v \<Rightarrow>
            (case v of
               PyDict d \<Rightarrow> build_artifact_rules (py_get v ''required_checks'' PyNone)
                            (py_get v ''depth'' PyNone) (py_get v ''deadlines'' PyNone)
             | _ \<Rightarrow> Inl (MalformedRulesError (''rules.bad_artifact_rules_spec:'' @ py_repr v)))))"

definition build_rules_version :: "pyval \<Rightarrow> rules_arg \<Rightarrow> rules_version vae" where
  "build_rules_version version arg =
     (case version of
        PyInt n \<Rightarrow>
          if n < 1 then Inl (MalformedRulesError (''rules.bad_version:'' @ py_repr version))
          else if rules_items arg = [] then
            Inl (MalformedRulesError (''rules.empty_or_bad_artifact_rules:'' @ repr_rules_arg arg))
          else bind_sum (foldm (\<lambda>d kv. bind_sum (freeze_spec kv) (\<lambda>ar. Inr (dset (fst kv) ar d))) [] (rules_items arg))
            (\<lambda>frozen. Inr \<lparr>rv_version = n, rv_rules = frozen\<rparr>)
      | _ \<Rightarrow> Inl (MalformedRulesError (''rules.bad_version:'' @ py_repr version)))"

section \<open>The store\<close>

record rules_store =
  ru_history :: "(int, rules_version) dict"
  ru_current :: int

definition empty_rules :: rules_store where
  "empty_rules = \<lparr>ru_history = [], ru_current = 0\<rparr>"

definition rules_ingest :: "rules_store \<Rightarrow> pyval \<Rightarrow> rules_arg \<Rightarrow> rules_store \<times> rules_version vae" where
  "rules_ingest st version arg =
     (case build_rules_version version arg of
        Inl e \<Rightarrow> (st, Inl e)
      | Inr rv \<Rightarrow>
          if rv_version rv \<le> ru_current st then
            (st, Inl (StaleOrDuplicateVersionError (''rules.stale_or_duplicate_version:got=''
               @ int_str (rv_version rv) @ '':current='' @ int_str (ru_current st))))
          else (\<lparr>ru_history = dset (rv_version rv) rv (ru_history st), ru_current = rv_version rv\<rparr>, Inr rv))"

definition rules_lookup :: "rules_store \<Rightarrow> string \<Rightarrow> int \<Rightarrow> artifact_rules vae" where
  "rules_lookup st typ version =
     (case dget (ru_history st) version of
        None \<Rightarrow> Inl (UnknownVersionError (''rules.unknown_version:'' @ int_str version))
      | Some rv \<Rightarrow>
          (case dget (rv_rules rv) typ of
             None \<Rightarrow> Inl (UnknownArtifactTypeError (''rules.unknown_artifact_type:'' @ typ @ '':version='' @ int_str version))
           | Some ar \<Rightarrow> Inr ar))"

definition current_rules_version :: "rules_store \<Rightarrow> int option" where
  "current_rules_version st = (if ru_current st = 0 then None else Some (ru_current st))"

section \<open>Well-formed rules\<close>

text \<open>Every required check has exactly one positive deadline.\<close>

definition rules_wf :: "artifact_rules \<Rightarrow> bool" where
  "rules_wf ar \<longleftrightarrow> ar_checks ar \<noteq> [] \<and> distinct (ar_checks ar) \<and> [] \<notin> set (ar_checks ar) \<and> ar_depth ar \<noteq> []
     \<and> set (dkeys (ar_deadlines ar)) = set (ar_checks ar) \<and> (\<forall>v \<in> snd ` set (ar_deadlines ar). 0 < v)"

definition store_wf :: "rules_store \<Rightarrow> bool" where
  "store_wf st \<longleftrightarrow> 0 \<le> ru_current st \<and> wf_dict (ru_history st)
     \<and> (\<forall>(n, rv) \<in> set (ru_history st). rv_version rv = n \<and> 1 \<le> n \<and> n \<le> ru_current st
          \<and> (\<forall>ar \<in> snd ` set (rv_rules rv). rules_wf ar))"

lemma rule_check_name_Inr: "rule_check_name c = Inr s \<Longrightarrow> c = PyStr s \<and> s \<noteq> []"
  by (auto simp: rule_check_name_def split: pyval.splits if_splits)

lemma validate_checks_wf:
  assumes "validate_checks v = Inr cs"
  shows "cs \<noteq> [] \<and> distinct cs \<and> [] \<notin> set cs"
proof -
  from assms obtain c xs where v: "v = PyList (c # xs)" "mapm rule_check_name (c # xs) = Inr cs" "distinct cs"
    by (auto simp: validate_checks_def split: pyval.splits list.splits sum.splits if_splits)
  have "\<forall>y \<in> set cs. y \<noteq> []"
    by (rule mapm_all [OF v(2)]) (auto dest: rule_check_name_Inr)
  moreover have "cs \<noteq> []" using v(2) by (auto split: sum.splits)
  ultimately show ?thesis using v(3) by auto
qed

lemma check_deadline_Inr: "check_deadline kv = Inr p \<Longrightarrow> fst p = fst kv \<and> 0 < snd p"
  by (auto simp: check_deadline_def split: prod.splits pyval.splits if_splits)

lemma mapm_map_fst:
  "mapm f xs = Inr ys \<Longrightarrow> (\<And>x y. f x = Inr y \<Longrightarrow> g y = h x) \<Longrightarrow> map g ys = map h xs"
  by (induction xs arbitrary: ys) (auto split: sum.splits)

lemma validate_deadlines_wf:
  assumes "validate_deadlines v cs = Inr dl"
  shows "set (dkeys dl) = set cs \<and> (\<forall>x \<in> snd ` set dl. 0 < x)"
proof -
  from assms obtain d where d: "set (dkeys d) = set cs" "mapm check_deadline d = Inr dl"
    by (auto simp: validate_deadlines_def split: pyval.splits if_splits)
  have "dkeys dl = dkeys d" by (rule mapm_map_fst [OF d(2)]) (auto dest: check_deadline_Inr)
  moreover have "\<forall>y \<in> set dl. 0 < snd y"
    by (rule mapm_all [OF d(2)]) (auto dest: check_deadline_Inr)
  ultimately show ?thesis using d(1) by auto
qed

lemma build_artifact_rules_wf:
  assumes "build_artifact_rules r dp dl = Inr ar"
  shows "rules_wf ar"
proof -
  from assms obtain cs c s d where cs: "validate_checks r = Inr cs" "validate_deadlines dl cs = Inr d"
      "ar = \<lparr>ar_checks = cs, ar_depth = c # s, ar_deadlines = d\<rparr>"
    by (auto simp: build_artifact_rules_def split: sum.splits pyval.splits list.splits)
  from validate_checks_wf [OF cs(1)] validate_deadlines_wf [OF cs(2)] show ?thesis
    by (simp add: rules_wf_def cs(3))
qed

text \<open>Built rules come from the builder, so a mapping to rules is well formed when its built ones are.\<close>

fun spec_wf :: "rules_spec \<Rightarrow> bool" where
  "spec_wf (SpecBuilt ar) = rules_wf ar"
| "spec_wf (SpecValue v) = True"

lemma freeze_spec_wf: "spec_wf (snd kv) \<Longrightarrow> freeze_spec kv = Inr ar \<Longrightarrow> rules_wf ar"
  by (cases "snd kv")
    (auto simp: freeze_spec_def split: prod.splits if_splits pyval.splits intro: build_artifact_rules_wf)

lemma rules_items_wf: "\<forall>kv \<in> set (rules_items (RulesValue v)). spec_wf (snd kv)"
  by (cases v) auto

lemma build_rules_version_wf:
  assumes "build_rules_version v arg = Inr rv" and "\<forall>kv \<in> set (rules_items arg). spec_wf (snd kv)"
  shows "1 \<le> rv_version rv \<and> (\<forall>ar \<in> snd ` set (rv_rules rv). rules_wf ar)"
proof -
  from assms(1) obtain n frozen where n: "1 \<le> n" "rv = \<lparr>rv_version = n, rv_rules = frozen\<rparr>"
      "foldm (\<lambda>d kv. bind_sum (freeze_spec kv) (\<lambda>ar. Inr (dset (fst kv) ar d))) [] (rules_items arg) = Inr frozen"
    by (auto simp: build_rules_version_def split: pyval.splits if_splits sum.splits)
  have "all_vals rules_wf frozen"
  proof (rule foldm_invariant [OF n(3)])
    show "all_vals rules_wf []" by simp
    fix t kv t'
    assume "kv \<in> set (rules_items arg)" "all_vals rules_wf t"
      "bind_sum (freeze_spec kv) (\<lambda>ar. Inr (dset (fst kv) ar t)) = Inr t'"
    then show "all_vals rules_wf t'"
      using assms(2) by (auto split: sum.splits intro!: all_vals_dset dest: freeze_spec_wf)
  qed
  with n show ?thesis by (simp add: all_vals_def)
qed

lemma store_wf_empty: "store_wf empty_rules"
  by (simp add: store_wf_def empty_rules_def)

lemma rules_ingest_wf:
  assumes "store_wf st" and "rules_ingest st v arg = (st', res)" and "\<forall>kv \<in> set (rules_items arg). spec_wf (snd kv)"
  shows "store_wf st'"
proof (cases "st' = st")
  case False
  with assms(2) obtain rv where rv: "build_rules_version v arg = Inr rv" "ru_current st < rv_version rv"
      "st' = \<lparr>ru_history = dset (rv_version rv) rv (ru_history st), ru_current = rv_version rv\<rparr>"
    by (auto simp: rules_ingest_def split: sum.splits if_splits)
  from build_rules_version_wf [OF rv(1) assms(3)]
  have w: "1 \<le> rv_version rv" "\<forall>ar \<in> snd ` set (rv_rules rv). rules_wf ar" by auto
  show ?thesis
    unfolding store_wf_def rv(3) rules_store.simps
  proof (intro conjI ballI)
    show "0 \<le> rv_version rv" using w(1) by simp
    show "wf_dict (dset (rv_version rv) rv (ru_history st))" using assms(1) by (simp add: store_wf_def)
    fix p assume "p \<in> set (dset (rv_version rv) rv (ru_history st))"
    then have "p = (rv_version rv, rv) \<or> p \<in> set (ru_history st)"
      using set_dset_subset [of "rv_version rv" rv "ru_history st"] by auto
    then show "case p of (n, rv') \<Rightarrow> rv_version rv' = n \<and> 1 \<le> n \<and> n \<le> rv_version rv
        \<and> (\<forall>ar \<in> snd ` set (rv_rules rv'). rules_wf ar)"
      using assms(1) w rv(2) by (force simp: store_wf_def)
  qed
qed (use assms in simp)

text \<open>A version once ingested reads the same for ever.\<close>

lemma rules_lookup_stable:
  assumes "store_wf st" and "rules_ingest st v arg = (st', res)" and "rules_lookup st t n = Inr ar"
  shows "rules_lookup st' t n = Inr ar"
proof -
  from assms(3) obtain rv where rv: "dget (ru_history st) n = Some rv"
    by (auto simp: rules_lookup_def split: option.splits)
  then have "(n, rv) \<in> set (ru_history st)" by (rule map_of_SomeD)
  with assms(1) have "n \<le> ru_current st" by (auto simp: store_wf_def)
  with assms(2,3) show ?thesis
    by (auto simp: rules_ingest_def rules_lookup_def dict_simps split: sum.splits if_splits)
qed

lemma rules_lookup_wf:
  assumes "store_wf st" and "rules_lookup st t n = Inr ar"
  shows "rules_wf ar" and "1 \<le> n"
proof -
  from assms(2) obtain rv where "dget (ru_history st) n = Some rv" "dget (rv_rules rv) t = Some ar"
    by (auto simp: rules_lookup_def split: option.splits)
  then have "(n, rv) \<in> set (ru_history st)" "(t, ar) \<in> set (rv_rules rv)" by (auto dest: map_of_SomeD)
  with assms(1) show "rules_wf ar" "1 \<le> n" by (force simp: store_wf_def)+
qed

lemma rules_deadline:
  assumes "rules_wf ar" and "c \<in> set (ar_checks ar)"
  shows "\<exists>d. dget (ar_deadlines ar) c = Some d \<and> 0 < d"
proof -
  from assms obtain d where d: "dget (ar_deadlines ar) c = Some d"
    by (cases "dget (ar_deadlines ar) c") (auto simp: rules_wf_def map_of_eq_None_iff)
  with assms(1) show ?thesis by (force simp: rules_wf_def dest: map_of_SomeD)
qed

end
