(* ===== verification/VaeEvidence.thy ===== *)
theory VaeEvidence
  imports VaeRules Json
begin

text \<open>
  The evidence record (\<open>vae/evidence.py\<close>): the reference to the judged artifact, the rules
  version, the items in append order and the slot of the derivation account, which holds a
  mapping. Items are typed records; bytes read back that are no record of this type are not
  followed (\<open>UndecodedRecord\<close>). The digest is a parameter on texts.
\<close>

type_synonym vae_digest = "string \<Rightarrow> string"

section \<open>Items\<close>

definition contribution_kinds :: "string list" where
  "contribution_kinds = [''independent'', ''corroborating'', ''redundant'', ''conflicting'', ''missing'']"

record evidence_item =
  ei_rule :: string
  ei_artifact :: string
  ei_source :: "string option"
  ei_result :: string
  ei_kind :: string
  ei_level :: string

definition evidence_text :: "string \<Rightarrow> pyval \<Rightarrow> string vae" where
  "evidence_text label v =
     (case v of
        PyStr (c # s) \<Rightarrow> Inr (c # s)
      | _ \<Rightarrow> Inl (MalformedEvidenceItemError (''evidence.bad_'' @ label @ '':'' @ py_repr v)))"

definition evidence_source :: "string \<Rightarrow> pyval \<Rightarrow> string option vae" where
  "evidence_source kind v =
     (if kind = ''missing'' then
        (if v = PyNone then Inr None
         else Inl (MalformedEvidenceItemError (''evidence.missing_item_must_have_no_source:'' @ py_repr v)))
      else bind_sum (evidence_text ''source'' v) (\<lambda>s. Inr (Some s)))"

definition build_evidence_item ::
  "pyval \<Rightarrow> pyval \<Rightarrow> pyval \<Rightarrow> pyval \<Rightarrow> string \<Rightarrow> pyval \<Rightarrow> evidence_item vae" where
  "build_evidence_item rule artifact source result kind level =
     (if kind \<notin> set contribution_kinds then
        Inl (UnknownContributionKindError (''evidence.unknown_contribution_kind:'' @ repr_str kind))
      else
        bind_sum (evidence_text ''rule'' rule) (\<lambda>ru.
        bind_sum (evidence_text ''artifact_ref'' artifact) (\<lambda>ar.
        bind_sum (evidence_text ''result'' result) (\<lambda>re.
        bind_sum (evidence_text ''level'' level) (\<lambda>le.
        bind_sum (evidence_source kind source) (\<lambda>so.
          Inr \<lparr>ei_rule = ru, ei_artifact = ar, ei_source = so, ei_result = re, ei_kind = kind, ei_level = le\<rparr>))))))"

section \<open>Records\<close>

record evidence_record =
  er_artifact :: string
  er_rules :: int
  er_items :: "evidence_item list"
  er_account :: "pyval option"

definition validate_binding :: "string \<Rightarrow> int \<Rightarrow> unit vae" where
  "validate_binding artifact version =
     (if artifact = [] then Inl (MalformedEvidenceRecordError (''evidence.bad_artifact_ref:'' @ repr_str artifact))
      else if version < 1 then Inl (MalformedEvidenceRecordError (''evidence.bad_rules_version:'' @ int_str version))
      else Inr ())"

definition build_evidence_record ::
  "string \<Rightarrow> int \<Rightarrow> evidence_item list \<Rightarrow> pyval option \<Rightarrow> evidence_record vae" where
  "build_evidence_record artifact version items account =
     bind_sum (validate_binding artifact version) (\<lambda>_.
       if account \<noteq> None then
         Inl (DerivationAccountRefusedError ''evidence.derivation_account_not_available_until_phase_3'')
       else Inr \<lparr>er_artifact = artifact, er_rules = version, er_items = items, er_account = None\<rparr>)"

definition append_item :: "evidence_record \<Rightarrow> evidence_item \<Rightarrow> evidence_record" where
  "append_item r it = \<lparr>er_artifact = er_artifact r, er_rules = er_rules r,
     er_items = er_items r @ [it], er_account = None\<rparr>"

definition with_derivation_account :: "evidence_record \<Rightarrow> pyval \<Rightarrow> evidence_record vae" where
  "with_derivation_account r account =
     (if er_account r \<noteq> None then
        Inl (DerivationAccountRefusedError (''evidence.derivation_account_already_set:'' @ er_artifact r))
      else if \<not> is_dict account then
        Inl (DerivationAccountMalformedError (''evidence.derivation_account_not_a_mapping:'' @ py_repr account))
      else Inr \<lparr>er_artifact = er_artifact r, er_rules = er_rules r, er_items = er_items r, er_account = Some account\<rparr>)"

section \<open>Canonical bytes\<close>

definition vae_opt :: "string option \<Rightarrow> pyval" where
  "vae_opt s = (case s of None \<Rightarrow> PyNone | Some x \<Rightarrow> PyStr x)"

definition evidence_item_to_dict :: "evidence_item \<Rightarrow> pyval" where
  "evidence_item_to_dict it = PyDict
     [(''rule'', PyStr (ei_rule it)), (''artifact_ref'', PyStr (ei_artifact it)),
      (''source'', vae_opt (ei_source it)), (''result'', PyStr (ei_result it)),
      (''contribution_kind'', PyStr (ei_kind it)), (''level'', PyStr (ei_level it))]"

definition evidence_to_dict :: "evidence_record \<Rightarrow> pyval" where
  "evidence_to_dict r = PyDict
     [(''artifact_ref'', PyStr (er_artifact r)), (''rules_version'', PyInt (er_rules r)),
      (''items'', PyList (map evidence_item_to_dict (er_items r))),
      (''derivation_account'', case er_account r of None \<Rightarrow> PyNone | Some a \<Rightarrow> a)]"

definition evidence_canonical :: "evidence_record \<Rightarrow> string" where
  "evidence_canonical r = json_dumps (evidence_to_dict r)"

definition evidence_hash :: "vae_digest \<Rightarrow> evidence_record \<Rightarrow> string" where
  "evidence_hash sha r = sha (evidence_canonical r)"

definition vfield :: "pyval \<Rightarrow> string \<Rightarrow> pyval vae" where
  "vfield data k =
     (case data of
        PyDict d \<Rightarrow> (case dget d k of None \<Rightarrow> Inl (LookupKeyError k) | Some v \<Rightarrow> Inr v)
      | _ \<Rightarrow> Inl NotAMapping)"

definition vstr :: "pyval \<Rightarrow> string vae" where
  "vstr v = (case v of PyStr s \<Rightarrow> Inr s | _ \<Rightarrow> Inl UndecodedRecord)"

definition vsource :: "pyval \<Rightarrow> string option vae" where
  "vsource v = (case v of PyNone \<Rightarrow> Inr None | PyStr s \<Rightarrow> Inr (Some s) | _ \<Rightarrow> Inl UndecodedRecord)"

definition evidence_item_from :: "pyval \<Rightarrow> evidence_item vae" where
  "evidence_item_from i =
     bind_sum (vfield i ''rule'') (\<lambda>ru. bind_sum (vfield i ''artifact_ref'') (\<lambda>ar.
     bind_sum (vfield i ''source'') (\<lambda>so. bind_sum (vfield i ''result'') (\<lambda>re.
     bind_sum (vfield i ''contribution_kind'') (\<lambda>ki. bind_sum (vfield i ''level'') (\<lambda>le.
     bind_sum (vstr ru) (\<lambda>ru. bind_sum (vstr ar) (\<lambda>ar. bind_sum (vsource so) (\<lambda>so.
     bind_sum (vstr re) (\<lambda>re. bind_sum (vstr ki) (\<lambda>ki. bind_sum (vstr le) (\<lambda>le.
       Inr \<lparr>ei_rule = ru, ei_artifact = ar, ei_source = so, ei_result = re, ei_kind = ki, ei_level = le\<rparr>))))))))))))"

definition account_from :: "pyval \<Rightarrow> pyval option vae" where
  "account_from v = (case v of PyNone \<Rightarrow> Inr None | PyDict d \<Rightarrow> Inr (Some v) | _ \<Rightarrow> Inl UndecodedRecord)"

definition evidence_from :: "pyval \<Rightarrow> evidence_record vae" where
  "evidence_from obj =
     bind_sum (vfield obj ''items'') (\<lambda>iv.
       case iv of
         PyList is \<Rightarrow>
           bind_sum (mapm evidence_item_from is) (\<lambda>items.
           bind_sum (vfield obj ''artifact_ref'') (\<lambda>ar. bind_sum (vfield obj ''rules_version'') (\<lambda>ve.
           bind_sum (vfield obj ''derivation_account'') (\<lambda>ac. bind_sum (account_from ac) (\<lambda>ac.
             case (ar, ve) of
               (PyStr a, PyInt n) \<Rightarrow> Inr \<lparr>er_artifact = a, er_rules = n, er_items = items, er_account = ac\<rparr>
             | _ \<Rightarrow> Inl UndecodedRecord)))))
       | _ \<Rightarrow> Inl UndecodedRecord)"

definition from_canonical :: "string \<Rightarrow> evidence_record vae" where
  "from_canonical data =
     (case json_loads data of None \<Rightarrow> Inl UndecodedRecord | Some obj \<Rightarrow> evidence_from obj)"

section \<open>Round trip\<close>

lemma sort_key_fst_idem: "sort_key fst (sort_key fst d) = sort_key fst (d :: (string \<times> 'v) list)"
  by (metis sorted_sort_key sorted_sort_id sort_key_id_if_sorted)

lemma json_dumps_canon: "json_dumps (json_canon v) = json_dumps v"
proof (induction v)
  case (PyList xs)
  then show ?case by (simp add: comp_def cong: map_cong)
next
  case (PyDict d)
  have m: "map (\<lambda>(k, v). (k, json_dumps v)) (map (\<lambda>(k, v). (k, json_canon v)) d) = map (\<lambda>(k, v). (k, json_dumps v)) d"
    using PyDict by (auto simp: comp_def)
  have "sort_key fst (map (\<lambda>(k, v). (k, json_dumps v)) (sort_key fst (map (\<lambda>(k, v). (k, json_canon v)) d)))
      = sort_key fst (map (\<lambda>(k, v). (k, json_dumps v)) d)"
    by (simp only: sort_key_map_snd [symmetric, of json_dumps] sort_key_fst_idem m)
  then show ?case by simp
qed simp_all

lemma fst_map_snd [simp]: "fst \<circ> (\<lambda>(k, v). (k, f v)) = fst"
  by auto

lemma distinct_dkeys_sort [simp]: "distinct (dkeys (sort_key fst d)) = distinct (dkeys (d :: (string \<times> 'v) list))"
  by (simp add: distinct_map)

lemma json_canon_wf: "json_wf v \<Longrightarrow> json_wf (json_canon v)"
proof (induction v)
  case (PyList xs)
  then show ?case by (simp add: list_all_iff)
next
  case (PyDict d)
  have "distinct (dkeys (sort_key fst (map (\<lambda>(k, v). (k, json_canon v)) d)))"
    using PyDict.prems by simp
  moreover have "list_all (\<lambda>(k, v). json_wf v) (sort_key fst (map (\<lambda>(k, v). (k, json_canon v)) d))"
    using PyDict by (fastforce simp: list_all_iff)
  ultimately show ?case by simp
qed simp_all

lemma canon_get:
  assumes "distinct (map fst d)"
  shows "vfield (json_canon (PyDict d)) k = bind_sum (vfield (PyDict d) k) (Inr \<circ> json_canon)"
proof -
  from assms have "dget (sort_key fst (map (\<lambda>(k, v). (k, json_canon v)) d)) k = dget (map (\<lambda>(k, v). (k, json_canon v)) d) k"
    by (simp add: dget_sort_key)
  then show ?thesis by (simp add: vfield_def map_of_map split: option.splits)
qed

lemma vfield_PyDict [simp]:
  "vfield (PyDict d) k = (case dget d k of None \<Rightarrow> Inl (LookupKeyError k) | Some v \<Rightarrow> Inr v)"
  by (simp add: vfield_def)

lemma canon_vae_opt: "json_canon (vae_opt s) = vae_opt s"
  by (cases s) (simp_all add: vae_opt_def)

lemma vsource_opt_str: "vsource (vae_opt s) = Inr s"
  by (cases s) (simp_all add: vae_opt_def vsource_def)

lemma item_round_trip: "evidence_item_from (json_canon (evidence_item_to_dict it)) = Inr it"
proof -
  have d: "distinct (map fst [(''rule'', PyStr (ei_rule it)), (''artifact_ref'', PyStr (ei_artifact it)),
      (''source'', vae_opt (ei_source it)), (''result'', PyStr (ei_result it)),
      (''contribution_kind'', PyStr (ei_kind it)), (''level'', PyStr (ei_level it))])" by simp
  show ?thesis
    unfolding evidence_item_from_def evidence_item_to_dict_def canon_get [OF d]
    by (simp add: vstr_def canon_vae_opt vsource_opt_str)
qed

definition account_wf :: "pyval option \<Rightarrow> bool" where
  "account_wf a \<longleftrightarrow> (case a of None \<Rightarrow> True | Some v \<Rightarrow> is_dict v \<and> json_wf v)"

definition canon_record :: "evidence_record \<Rightarrow> evidence_record" where
  "canon_record r = r\<lparr>er_account := map_option json_canon (er_account r)\<rparr>"

lemma evidence_json_wf: "account_wf (er_account r) \<Longrightarrow> json_wf (evidence_to_dict r)"
  by (auto simp: evidence_to_dict_def evidence_item_to_dict_def vae_opt_def account_wf_def list_all_iff
      split: option.splits)

lemma account_from_canon:
  "account_wf a \<Longrightarrow> account_from (json_canon (case a of None \<Rightarrow> PyNone | Some v \<Rightarrow> v)) = Inr (map_option json_canon a)"
  by (cases a; cases "the a") (auto simp: account_wf_def account_from_def)

theorem evidence_round_trip:
  assumes "account_wf (er_account r)"
  shows "from_canonical (evidence_canonical r) = Inr (canon_record r)"
proof -
  let ?acc = "case er_account r of None \<Rightarrow> PyNone | Some a \<Rightarrow> a"
  have d: "distinct (map fst [(''artifact_ref'', PyStr (er_artifact r)), (''rules_version'', PyInt (er_rules r)),
      (''items'', PyList (map evidence_item_to_dict (er_items r))), (''derivation_account'', ?acc)])" by simp
  have items: "mapm evidence_item_from (map (json_canon \<circ> evidence_item_to_dict) (er_items r)) = Inr (er_items r)"
    by (rule mapm_ok) (simp add: item_round_trip)
  have "evidence_from (json_canon (evidence_to_dict r)) = Inr (canon_record r)"
    unfolding evidence_from_def evidence_to_dict_def canon_get [OF d]
    using items account_from_canon [OF assms] by (simp add: canon_record_def comp_def)
  then show ?thesis
    using json_loads_dumps [OF evidence_json_wf [OF assms]]
    by (simp add: from_canonical_def evidence_canonical_def)
qed

lemma canonical_canon: "evidence_canonical (canon_record r) = evidence_canonical r"
  by (cases "er_account r")
    (simp_all add: evidence_canonical_def evidence_to_dict_def canon_record_def json_dumps_dict json_dumps_canon
       sort_key_map_snd del: json_dumps.simps(6))

lemma hash_canon: "evidence_hash sha (canon_record r) = evidence_hash sha r"
  by (simp add: evidence_hash_def canonical_canon)

end
