(* ===== verification/VaeDerivation.thy ===== *)
theory VaeDerivation
  imports VaeEvidence "HOL-Library.Product_Lexorder" "HOL-Library.Multiset"
begin

text \<open>
  The derivation (\<open>vae/derivation.py\<close>): a function from an evidence body and a policy to a
  verdict with its cause, a confidence per dimension, the coverage, the uncertain claims and
  the assurance level. A float of the policy is its exact value, a mantissa over a power of
  two; the quotient of two integers is rounded to 53 bits, half to even, as Python's true
  division rounds it. The em dash of the assurance names, which is outside the 8-bit
  characters of the model, is written with code 0x97.
\<close>

section \<open>Floats between 0 and 1\<close>

text \<open>\<open>(m, k)\<close> is the number \<open>m / 2 ^ k\<close>.\<close>

type_synonym double = "int \<times> nat"

definition double_le :: "double \<Rightarrow> double \<Rightarrow> bool" where
  "double_le x y \<longleftrightarrow> fst x * 2 ^ snd y \<le> fst y * 2 ^ snd x"

text \<open>The least scale at which the quotient fills 53 bits.\<close>

function quotient_scale :: "int \<Rightarrow> int \<Rightarrow> nat \<Rightarrow> nat" where
  "quotient_scale n d e = (if n \<le> 0 \<or> 2 ^ 52 * d \<le> n * 2 ^ e then e else quotient_scale n d (Suc e))"
  by auto
termination
  by (relation "measure (\<lambda>(n, d, e). nat (2 ^ 52 * d - n * 2 ^ e))") (auto simp: nat_mono_iff)

declare quotient_scale.simps [simp del]

definition double_div :: "nat \<Rightarrow> nat \<Rightarrow> double" where
  "double_div n d =
     (let e = quotient_scale (int n) (int d) 0; q = int n * 2 ^ e div int d; r = int n * 2 ^ e mod int d in
      (if int d < 2 * r \<or> (2 * r = int d \<and> odd q) then q + 1 else q, e))"

lemma double_div_self: "0 < d \<Longrightarrow> double_le x (double_div d d) \<longleftrightarrow> fst x \<le> 2 ^ snd x"
  by (simp add: double_div_def double_le_def Let_def)

section \<open>Vocabularies\<close>

definition confidence_levels :: "string list" where
  "confidence_levels = [''none'', ''conflicted'', ''weak'', ''moderate'', ''strong'']"

definition dimensions :: "string list" where
  "dimensions = [''structural'', ''execution'', ''semantic'', ''consistency'']"

definition level_to_dimension :: "(string, string) dict" where
  "level_to_dimension = [(''structural'', ''structural''), (''execution'', ''execution''),
     (''semantic'', ''semantic''), (''cross_artifact'', ''consistency''), (''system'', ''consistency'')]"

definition passing_results :: "string list" where
  "passing_results = [''pass'', ''success'']"

definition execution_failure_results :: "string list" where
  "execution_failure_results = [''failure'', ''timeout'', ''crash'', ''execution_failure'']"

definition semantic_fail_results :: "string list" where
  "semantic_fail_results = [''fail'']"

definition verified_high :: string where "verified_high = ''Verified '' @ [CHR 0x97] @ '' High Assurance''"
definition verified_moderate :: string where "verified_moderate = ''Verified '' @ [CHR 0x97] @ '' Moderate Assurance''"
definition verified_low :: string where "verified_low = ''Verified '' @ [CHR 0x97] @ '' Low Assurance''"
definition verification_failed :: string where "verification_failed = ''Verification Failed''"

section \<open>The policy\<close>

record derivation_policy =
  pol_version :: int
  pol_moderate :: double
  pol_strong :: double

text \<open>A number as an argument: a finite float \<open>i / 2 ^ k\<close>, or another value.\<close>

datatype number_arg = FloatArg int nat | ValueArg pyval

definition unit_fraction :: "number_arg \<Rightarrow> double option" where
  "unit_fraction v =
     (case v of
        FloatArg i k \<Rightarrow> if 0 < i \<and> i \<le> 2 ^ k then Some (i, k) else None
      | ValueArg (PyInt i) \<Rightarrow> if i = 1 then Some (1, 0) else None
      | ValueArg _ \<Rightarrow> None)"

text \<open>The messages leave out the printed numbers.\<close>

definition build_derivation_policy :: "pyval \<Rightarrow> number_arg \<Rightarrow> number_arg \<Rightarrow> derivation_policy vae" where
  "build_derivation_policy version moderate strong =
     (case version of
        PyInt n \<Rightarrow>
          if n < 1 then Inl (MalformedDerivationPolicyError ''derivation.bad_policy_version:'')
          else (case (unit_fraction moderate, unit_fraction strong) of
            (None, _) \<Rightarrow> Inl (MalformedDerivationPolicyError ''derivation.bad_coverage_moderate_min_fraction:'')
          | (Some m, None) \<Rightarrow> Inl (MalformedDerivationPolicyError ''derivation.bad_coverage_strong_min_fraction:'')
          | (Some m, Some s) \<Rightarrow>
              if \<not> double_le m s then Inl (MalformedDerivationPolicyError ''derivation.strong_threshold_below_moderate:'')
              else Inr \<lparr>pol_version = n, pol_moderate = m, pol_strong = s\<rparr>)
      | _ \<Rightarrow> Inl (MalformedDerivationPolicyError ''derivation.bad_policy_version:''))"

section \<open>Verdict and cause\<close>

record body_flags =
  fl_conflicting :: bool
  fl_unresolved :: bool
  fl_execution :: bool
  fl_verification :: bool
  fl_missing :: bool

definition scan_item :: "body_flags \<Rightarrow> evidence_item \<Rightarrow> body_flags" where
  "scan_item f it =
     (let f = (if ei_kind it = ''conflicting'' then f\<lparr>fl_conflicting := True\<rparr> else f) in
      if ei_kind it = ''missing'' then f\<lparr>fl_missing := True\<rparr>
      else if ei_result it \<in> set passing_results then f
      else if ei_result it \<in> set execution_failure_results then f\<lparr>fl_execution := True\<rparr>
      else if ei_result it \<in> set semantic_fail_results then f\<lparr>fl_verification := True\<rparr>
      else f\<lparr>fl_unresolved := True\<rparr>)"

definition verdict_and_cause :: "evidence_item list \<Rightarrow> string \<times> string option" where
  "verdict_and_cause items =
     (if items = [] then (''failed'', Some ''evidence_insufficiency'')
      else
        let f = foldl scan_item \<lparr>fl_conflicting = False, fl_unresolved = False, fl_execution = False,
                                 fl_verification = False, fl_missing = False\<rparr> items in
        if fl_conflicting f then (''failed'', Some ''contradictory_evidence'')
        else if fl_unresolved f then (''failed'', Some ''inconclusive_verification'')
        else if fl_execution f then (''failed'', Some ''execution_failure'')
        else if fl_verification f then (''failed'', Some ''verification_failure'')
        else if fl_missing f then (''failed'', Some ''evidence_insufficiency'')
        else (''passed'', None))"

section \<open>Claims\<close>

type_synonym claim_key = "string \<times> string"
type_synonym claims = "(claim_key, (nat \<times> evidence_item) list) dict"

definition claim_of :: "evidence_item \<Rightarrow> claim_key" where
  "claim_of it = (ei_level it, ei_rule it)"

text \<open>\<open>order\<close> is the key order of the dictionary.\<close>

definition group_claim :: "claims \<Rightarrow> nat \<times> evidence_item \<Rightarrow> claims vae" where
  "group_claim claims ie =
     (if dget level_to_dimension (ei_level (snd ie)) = None then
        Inl (UnknownVerificationLevelError (''derivation.unknown_verification_level:'' @ repr_str (ei_level (snd ie))))
      else Inr (dset (claim_of (snd ie))
        ((case dget claims (claim_of (snd ie)) of None \<Rightarrow> [] | Some es \<Rightarrow> es) @ [ie]) claims))"

definition group_claims :: "evidence_item list \<Rightarrow> claims vae" where
  "group_claims items = foldm group_claim [] (enumerate 0 items)"

definition claim_strength :: "(nat \<times> evidence_item) list \<Rightarrow> string \<times> nat list" where
  "claim_strength entries =
     (let kinds = map (\<lambda>e. ei_kind (snd e)) entries; refs = map fst entries in
      if ''conflicting'' \<in> set kinds then (''conflicted'', refs)
      else if list_all (\<lambda>k. k = ''missing'') kinds then (''absent'', refs)
      else
        let substantive = filter (\<lambda>k. k = ''independent'' \<or> k = ''corroborating'') kinds in
        if 2 \<le> length substantive then (''corroborated'', refs)
        else if length substantive = 1 then (''single'', refs)
        else (''absent'', refs))"

definition dim_claims :: "claims \<Rightarrow> string \<Rightarrow> (string \<times> string \<times> nat list) list" where
  "dim_claims claims dim =
     map (\<lambda>(key, es). (snd key, claim_strength es))
       (filter (\<lambda>(key, es). dget level_to_dimension (fst key) = Some dim) claims)"

definition dimension_confidence :: "(string \<times> string \<times> nat list) list \<Rightarrow> string \<times> nat list" where
  "dimension_confidence dcs =
     (if dcs = [] then (''none'', [])
      else
        let strengths = map (\<lambda>(r, s, refs). s) dcs;
            refs = sort (remdups (concat (map (\<lambda>(r, s, refs). refs) dcs))) in
        if ''conflicted'' \<in> set strengths then (''conflicted'', refs)
        else
          let established = filter (\<lambda>s. s = ''corroborated'' \<or> s = ''single'') strengths in
          if established = [] then (''none'', refs)
          else if list_all (\<lambda>s. s = ''corroborated'') established then (''strong'', refs)
          else if list_all (\<lambda>s. s = ''single'') established then (''weak'', refs)
          else (''moderate'', refs))"

record coverage =
  cv_level :: string
  cv_established :: nat
  cv_total :: nat
  cv_refs :: "nat list"

definition coverage_of :: "claims \<Rightarrow> derivation_policy \<Rightarrow> coverage" where
  "coverage_of claims policy =
     (let total = length claims;
          established = length (filter (\<lambda>(key, es). fst (claim_strength es) \<noteq> ''absent'') claims);
          refs = [0..<sum_list (map (\<lambda>(key, es). length es) claims)] in
      if total = 0 then \<lparr>cv_level = ''none'', cv_established = 0, cv_total = 0, cv_refs = []\<rparr>
      else if established = 0 then \<lparr>cv_level = ''none'', cv_established = 0, cv_total = total, cv_refs = refs\<rparr>
      else
        let fraction = double_div established total in
        \<lparr>cv_level = (if double_le (pol_strong policy) fraction then ''strong''
                     else if double_le (pol_moderate policy) fraction then ''moderate'' else ''weak''),
         cv_established = established, cv_total = total, cv_refs = refs\<rparr>)"

definition uncertainty_of :: "claims \<Rightarrow> (claim_key \<times> nat list) list" where
  "uncertainty_of claims =
     List.map_filter (\<lambda>key.
        case claim_strength (the (dget claims key)) of
          (s, refs) \<Rightarrow> if s = ''absent'' then Some (key, refs) else None)
       (sort (dkeys claims))"

definition level_rank :: "string \<Rightarrow> nat" where
  "level_rank l = length (takeWhile (\<lambda>x. x \<noteq> l) confidence_levels)"

definition assurance_of :: "string \<Rightarrow> (string, string \<times> nat list) dict \<Rightarrow> coverage \<Rightarrow> string" where
  "assurance_of verdict conf cov =
     (if verdict = ''failed'' then verification_failed
      else
        let ranks = map (\<lambda>(dim, l, refs). level_rank l) (filter (\<lambda>(dim, l, refs). l \<noteq> ''none'') conf) in
        if ranks = [] then verified_low
        else if list_all (\<lambda>r. r = level_rank ''strong'') ranks \<and> cv_level cov = ''strong'' then verified_high
        else if list_all (\<lambda>r. r = level_rank ''weak'') ranks then verified_low
        else verified_moderate)"

section \<open>The account\<close>

record derivation =
  dv_policy :: int
  dv_rules :: int
  dv_verdict :: string
  dv_cause :: "string option"
  dv_confidence :: "(string, string \<times> nat list) dict"
  dv_coverage :: coverage
  dv_uncertainty :: "(claim_key \<times> nat list) list"
  dv_assurance :: string

definition derive :: "evidence_record \<Rightarrow> derivation_policy \<Rightarrow> derivation vae" where
  "derive r policy =
     (case verdict_and_cause (er_items r) of
        (verdict, cause) \<Rightarrow>
          bind_sum (group_claims (er_items r)) (\<lambda>claims.
            let conf = map (\<lambda>dim. (dim, dimension_confidence (dim_claims claims dim))) dimensions;
                cov = coverage_of claims policy in
            Inr \<lparr>dv_policy = pol_version policy, dv_rules = er_rules r, dv_verdict = verdict, dv_cause = cause,
                 dv_confidence = conf, dv_coverage = cov, dv_uncertainty = uncertainty_of claims,
                 dv_assurance = assurance_of verdict conf cov\<rparr>))"

definition refs_value :: "nat list \<Rightarrow> pyval" where
  "refs_value ns = PyList (map (PyInt \<circ> int) ns)"

definition confidence_dict :: "string \<times> nat list \<Rightarrow> pyval" where
  "confidence_dict c = PyDict [(''level'', PyStr (fst c)), (''refs'', refs_value (snd c))]"

definition coverage_dict :: "coverage \<Rightarrow> pyval" where
  "coverage_dict c = PyDict [(''level'', PyStr (cv_level c)), (''established'', PyInt (int (cv_established c))),
     (''total'', PyInt (int (cv_total c))), (''refs'', refs_value (cv_refs c))]"

definition statement_dict :: "claim_key \<times> nat list \<Rightarrow> pyval" where
  "statement_dict s = PyDict [(''level'', PyStr (fst (fst s))), (''rule'', PyStr (snd (fst s))),
     (''reason'', PyStr ''missing_evidence''), (''refs'', refs_value (snd s))]"

definition account_dict :: "derivation \<Rightarrow> pyval" where
  "account_dict d = PyDict [(''policy_version'', PyInt (dv_policy d)), (''rules_version'', PyInt (dv_rules d)),
     (''verdict'', PyStr (dv_verdict d)), (''failure_cause'', vae_opt (dv_cause d)),
     (''confidence'', PyDict (map (\<lambda>(dim, c). (dim, confidence_dict c)) (dv_confidence d))),
     (''coverage'', coverage_dict (dv_coverage d)),
     (''uncertainty'', PyList (map statement_dict (dv_uncertainty d))),
     (''assurance_level'', PyStr (dv_assurance d))]"

definition attach_derivation :: "evidence_record \<Rightarrow> derivation_policy \<Rightarrow> evidence_record vae" where
  "attach_derivation r policy =
     bind_sum (derive r policy) (\<lambda>d. with_derivation_account r (account_dict d))"

end
