(* ===== verification/VaeClaims.thy ===== *)
theory VaeClaims
  imports VaeDerivation
begin

text \<open>
  What the derivation computes: the flags of the scan as properties of the items, the grouping
  as a filter by claim, and so every outcome as a function of the multiset of the items.
\<close>

section \<open>The verdict\<close>

definition item_ran :: "evidence_item \<Rightarrow> bool" where
  "item_ran it \<longleftrightarrow> ei_kind it \<noteq> ''missing''"

definition item_passes :: "evidence_item \<Rightarrow> bool" where
  "item_passes it \<longleftrightarrow> ei_result it \<in> set passing_results"

definition item_unresolved :: "evidence_item \<Rightarrow> bool" where
  "item_unresolved it \<longleftrightarrow> item_ran it
     \<and> ei_result it \<notin> set (passing_results @ execution_failure_results @ semantic_fail_results)"

lemma results_disjoint:
  "set passing_results \<inter> set execution_failure_results = {}"
  "set passing_results \<inter> set semantic_fail_results = {}"
  "set execution_failure_results \<inter> set semantic_fail_results = {}"
  by (auto simp: passing_results_def execution_failure_results_def semantic_fail_results_def)

lemma scan_flags:
  "fl_conflicting (foldl scan_item f items) \<longleftrightarrow> fl_conflicting f \<or> (\<exists>it \<in> set items. ei_kind it = ''conflicting'')"
  "fl_missing (foldl scan_item f items) \<longleftrightarrow> fl_missing f \<or> (\<exists>it \<in> set items. \<not> item_ran it)"
  "fl_unresolved (foldl scan_item f items) \<longleftrightarrow> fl_unresolved f \<or> (\<exists>it \<in> set items. item_unresolved it)"
  "fl_execution (foldl scan_item f items) \<longleftrightarrow> fl_execution f
     \<or> (\<exists>it \<in> set items. item_ran it \<and> ei_result it \<in> set execution_failure_results)"
  "fl_verification (foldl scan_item f items) \<longleftrightarrow> fl_verification f
     \<or> (\<exists>it \<in> set items. item_ran it \<and> ei_result it \<in> set semantic_fail_results)"
proof -
  have step: "fl_conflicting (scan_item f it) = (fl_conflicting f \<or> ei_kind it = ''conflicting'')"
    "fl_missing (scan_item f it) = (fl_missing f \<or> \<not> item_ran it)"
    "fl_unresolved (scan_item f it) = (fl_unresolved f \<or> item_unresolved it)"
    "fl_execution (scan_item f it) = (fl_execution f \<or> (item_ran it \<and> ei_result it \<in> set execution_failure_results))"
    "fl_verification (scan_item f it) = (fl_verification f \<or> (item_ran it \<and> ei_result it \<in> set semantic_fail_results))"
    for f it
    using results_disjoint by (auto simp: scan_item_def Let_def item_ran_def item_unresolved_def)
  show
    "fl_conflicting (foldl scan_item f items) \<longleftrightarrow> fl_conflicting f \<or> (\<exists>it \<in> set items. ei_kind it = ''conflicting'')"
    by (induction items arbitrary: f) (auto simp: step)
  show "fl_missing (foldl scan_item f items) \<longleftrightarrow> fl_missing f \<or> (\<exists>it \<in> set items. \<not> item_ran it)"
    by (induction items arbitrary: f) (auto simp: step)
  show "fl_unresolved (foldl scan_item f items) \<longleftrightarrow> fl_unresolved f \<or> (\<exists>it \<in> set items. item_unresolved it)"
    by (induction items arbitrary: f) (auto simp: step)
  show "fl_execution (foldl scan_item f items) \<longleftrightarrow> fl_execution f
     \<or> (\<exists>it \<in> set items. item_ran it \<and> ei_result it \<in> set execution_failure_results)"
    by (induction items arbitrary: f) (auto simp: step)
  show "fl_verification (foldl scan_item f items) \<longleftrightarrow> fl_verification f
     \<or> (\<exists>it \<in> set items. item_ran it \<and> ei_result it \<in> set semantic_fail_results)"
    by (induction items arbitrary: f) (auto simp: step)
qed

text \<open>The cause a set of items has, by the fixed precedence; \<open>None\<close> is a pass.\<close>

definition cause_of :: "evidence_item set \<Rightarrow> string option" where
  "cause_of I =
     (if I = {} then Some ''evidence_insufficiency''
      else if \<exists>it \<in> I. ei_kind it = ''conflicting'' then Some ''contradictory_evidence''
      else if \<exists>it \<in> I. item_unresolved it then Some ''inconclusive_verification''
      else if \<exists>it \<in> I. item_ran it \<and> ei_result it \<in> set execution_failure_results then Some ''execution_failure''
      else if \<exists>it \<in> I. item_ran it \<and> ei_result it \<in> set semantic_fail_results then Some ''verification_failure''
      else if \<exists>it \<in> I. \<not> item_ran it then Some ''evidence_insufficiency''
      else None)"

lemma verdict_of_set:
  "verdict_and_cause items = (if cause_of (set items) = None then ''passed'' else ''failed'', cause_of (set items))"
proof (cases "items = []")
  case False
  then show ?thesis
    unfolding verdict_and_cause_def scan_flags Let_def cause_of_def
    by (cases "\<exists>it \<in> set items. ei_kind it = ''conflicting''"; cases "\<exists>it \<in> set items. item_unresolved it";
        cases "\<exists>it \<in> set items. item_ran it \<and> ei_result it \<in> set execution_failure_results";
        cases "\<exists>it \<in> set items. item_ran it \<and> ei_result it \<in> set semantic_fail_results";
        cases "\<exists>it \<in> set items. \<not> item_ran it") simp_all
qed (simp add: verdict_and_cause_def cause_of_def)

lemma cause_none:
  "cause_of I = None \<longleftrightarrow> I \<noteq> {} \<and> (\<forall>it \<in> I. item_ran it \<and> ei_kind it \<noteq> ''conflicting'' \<and> item_passes it)"
  using results_disjoint
  by (auto simp: cause_of_def item_unresolved_def item_passes_def)

section \<open>Claims as filters\<close>

definition claim_entries :: "(nat \<times> evidence_item) list \<Rightarrow> claim_key \<Rightarrow> (nat \<times> evidence_item) list" where
  "claim_entries ies key = filter (\<lambda>ie. claim_of (snd ie) = key) ies"

definition groups :: "claims \<Rightarrow> (nat \<times> evidence_item) list \<Rightarrow> bool" where
  "groups claims ies \<longleftrightarrow> distinct (dkeys claims)
     \<and> (\<forall>key. dget claims key = (if claim_entries ies key = [] then None else Some (claim_entries ies key)))"

definition level_known :: "evidence_item \<Rightarrow> bool" where
  "level_known it \<longleftrightarrow> dget level_to_dimension (ei_level it) \<noteq> None"

lemma groups_step:
  assumes "groups claims ies"
  shows "groups (dset (claim_of (snd ie))
     ((case dget claims (claim_of (snd ie)) of None \<Rightarrow> [] | Some es \<Rightarrow> es) @ [ie]) claims) (ies @ [ie])"
proof -
  let ?c = "claim_of (snd ie)"
  have g: "dget claims key = (if claim_entries ies key = [] then None else Some (claim_entries ies key))" for key
    using assms unfolding groups_def by blast
  have old: "(case dget claims ?c of None \<Rightarrow> [] | Some es \<Rightarrow> es) = claim_entries ies ?c"
    by (simp add: g)
  have new: "claim_entries (ies @ [ie]) key = (if key = ?c then claim_entries ies ?c @ [ie] else claim_entries ies key)" for key
    by (simp add: claim_entries_def)
  show ?thesis
    unfolding groups_def old new using assms
    by (simp add: groups_def dict_simps distinct_update)
qed

lemma foldm_group:
  assumes "groups claims ies" and "\<forall>ie \<in> set rest. level_known (snd ie)"
  shows "\<exists>claims'. foldm group_claim claims rest = Inr claims' \<and> groups claims' (ies @ rest)"
  using assms
proof (induction rest arbitrary: claims ies)
  case (Cons ie rest)
  have "group_claim claims ie = Inr (dset (claim_of (snd ie))
     ((case dget claims (claim_of (snd ie)) of None \<Rightarrow> [] | Some es \<Rightarrow> es) @ [ie]) claims)"
    using Cons.prems(2) by (auto simp: group_claim_def level_known_def)
  moreover have "\<forall>ie \<in> set rest. level_known (snd ie)" using Cons.prems(2) by simp
  ultimately show ?case
    using Cons.IH [OF groups_step [OF Cons.prems(1), of ie]] by simp
qed auto

lemma foldm_group_unknown:
  "\<exists>ie \<in> set rest. \<not> level_known (snd ie) \<Longrightarrow> \<exists>e. foldm group_claim claims rest = Inl e"
proof (induction rest arbitrary: claims)
  case (Cons ie rest)
  then show ?case by (cases "level_known (snd ie)") (auto simp: group_claim_def level_known_def)
qed simp

lemma snd_set_enumerate: "(\<exists>ie \<in> set (enumerate 0 items). P (snd ie)) \<longleftrightarrow> (\<exists>it \<in> set items. P it)"
proof -
  have "snd ` set (enumerate 0 items) = set items" by (metis list.set_map map_snd_enumerate)
  moreover have "(\<exists>ie \<in> set (enumerate 0 items). P (snd ie)) \<longleftrightarrow> (\<exists>it \<in> snd ` set (enumerate 0 items). P it)" by blast
  ultimately show ?thesis by simp
qed

lemma group_claims_ok:
  assumes "\<forall>it \<in> set items. level_known it"
  obtains claims where "group_claims items = Inr claims" "groups claims (enumerate 0 items)"
proof -
  have "groups [] []" by (simp add: groups_def claim_entries_def)
  moreover have "\<forall>ie \<in> set (enumerate 0 items). level_known (snd ie)"
    using assms snd_set_enumerate [of items "\<lambda>it. \<not> level_known it"] by blast
  ultimately show ?thesis
    using foldm_group [of "[]" "[]" "enumerate 0 items"] that by (auto simp: group_claims_def)
qed

lemma group_claims_error:
  assumes "\<exists>it \<in> set items. \<not> level_known it"
  shows "\<exists>e. group_claims items = Inl e"
  using assms foldm_group_unknown [of "enumerate 0 items" "[]"] snd_set_enumerate [of items "\<lambda>it. \<not> level_known it"]
  unfolding group_claims_def by blast

lemma derive_ok_iff: "(\<exists>d. derive r p = Inr d) \<longleftrightarrow> (\<forall>it \<in> set (er_items r). level_known it)"
proof (cases "\<forall>it \<in> set (er_items r). level_known it")
  case True
  then obtain c where "group_claims (er_items r) = Inr c" by (rule group_claims_ok)
  with True show ?thesis by (simp add: derive_def Let_def split: prod.splits)
next
  case False
  then obtain e where "group_claims (er_items r) = Inl e" using group_claims_error by blast
  with False show ?thesis by (simp add: derive_def split: prod.splits)
qed

section \<open>Strength per claim\<close>

text \<open>The contribution kinds of a claim, and the strength they give.\<close>

definition claim_kinds :: "evidence_item list \<Rightarrow> claim_key \<Rightarrow> string list" where
  "claim_kinds items key = map ei_kind (filter (\<lambda>it. claim_of it = key) items)"

definition substantive :: "string multiset \<Rightarrow> nat" where
  "substantive K = count K ''independent'' + count K ''corroborating''"

definition strength_of :: "string multiset \<Rightarrow> string" where
  "strength_of K =
     (if ''conflicting'' \<in># K then ''conflicted''
      else if set_mset K \<subseteq> {''missing''} then ''absent''
      else if 2 \<le> substantive K then ''corroborated''
      else if substantive K = 1 then ''single''
      else ''absent'')"

lemma length_substantive:
  "length (filter (\<lambda>k. k = ''independent'' \<or> k = ''corroborating'') kinds) = substantive (mset kinds)"
  by (induction kinds) (auto simp: substantive_def)

lemma claim_strength_mset: "fst (claim_strength es) = strength_of (mset (map (ei_kind \<circ> snd) es))"
proof -
  let ?K = "map (\<lambda>e. ei_kind (snd e)) es"
  have "list_all (\<lambda>k. k = ''missing'') ?K \<longleftrightarrow> set_mset (mset ?K) \<subseteq> {''missing''}"
    by (auto simp: list_all_iff)
  then show ?thesis
    using length_substantive [of ?K]
    by (simp add: claim_strength_def strength_of_def Let_def comp_def del: mset_map)
qed

lemma entries_kinds:
  "map (ei_kind \<circ> snd) (claim_entries (enumerate n items) key) = claim_kinds items key"
  unfolding claim_entries_def claim_kinds_def
  by (induction items arbitrary: n) auto

lemma entries_empty: "claim_entries (enumerate n items) key = [] \<longleftrightarrow> (\<forall>it \<in> set items. claim_of it \<noteq> key)"
proof -
  have "map (ei_kind \<circ> snd) (claim_entries (enumerate n items) key) = [] \<longleftrightarrow> (\<forall>it \<in> set items. claim_of it \<noteq> key)"
    unfolding entries_kinds claim_kinds_def by (auto simp: filter_empty_conv)
  then show ?thesis by simp
qed

text \<open>All the facts about the grouped claims the outcome rests on.\<close>

definition key_strength :: "evidence_item list \<Rightarrow> claim_key \<Rightarrow> string" where
  "key_strength items key = strength_of (mset (claim_kinds items key))"

lemma groups_keys:
  assumes "groups claims (enumerate 0 items)"
  shows "distinct (dkeys claims)" and "set (dkeys claims) = claim_of ` set items"
    and "(key, es) \<in> set claims \<Longrightarrow> fst (claim_strength es) = key_strength items key"
proof -
  show d: "distinct (dkeys claims)" using assms by (simp add: groups_def)
  have g: "dget claims key = (if claim_entries (enumerate 0 items) key = [] then None
      else Some (claim_entries (enumerate 0 items) key))" for key
    using assms unfolding groups_def by blast
  show "set (dkeys claims) = claim_of ` set items"
  proof (rule set_eqI)
    fix key
    have "key \<in> set (dkeys claims) \<longleftrightarrow> dget claims key \<noteq> None"
      by (metis map_of_eq_None_iff list.set_map)
    also have "\<dots> \<longleftrightarrow> key \<in> claim_of ` set items"
      by (auto simp: g entries_empty image_iff)
    finally show "key \<in> set (dkeys claims) \<longleftrightarrow> key \<in> claim_of ` set items" .
  qed
  assume "(key, es) \<in> set claims"
  with d have "dget claims key = Some es" by simp
  then have "es = claim_entries (enumerate 0 items) key" by (auto simp: g split: if_splits)
  then show "fst (claim_strength es) = key_strength items key"
    by (simp add: claim_strength_mset entries_kinds key_strength_def del: mset_map)
qed

section \<open>The outcome\<close>

text \<open>What a derivation states, without the references to item positions.\<close>

definition outcome_of :: "derivation \<Rightarrow>
    string \<times> string option \<times> (string \<times> string) list \<times> (string \<times> nat \<times> nat) \<times> claim_key list \<times> string" where
  "outcome_of d = (dv_verdict d, dv_cause d, map (\<lambda>(dim, l, refs). (dim, l)) (dv_confidence d),
     (cv_level (dv_coverage d), cv_established (dv_coverage d), cv_total (dv_coverage d)),
     map fst (dv_uncertainty d), dv_assurance d)"

text \<open>The confidence of a dimension, from the strengths of its claims.\<close>

definition confidence_of :: "string set \<Rightarrow> string" where
  "confidence_of S =
     (if S = {} then ''none''
      else if ''conflicted'' \<in> S then ''conflicted''
      else if ''corroborated'' \<in> S then (if ''single'' \<in> S then ''moderate'' else ''strong'')
      else if ''single'' \<in> S then ''weak''
      else ''none'')"

lemma dimension_confidence_set:
  "fst (dimension_confidence dcs) = confidence_of ((\<lambda>(r, s, refs). s) ` set dcs)"
proof -
  let ?S = "map (\<lambda>(r, s, refs). s) dcs"
  have e: "filter (\<lambda>s. s = ''corroborated'' \<or> s = ''single'') S = []
      \<longleftrightarrow> ''corroborated'' \<notin> set S \<and> ''single'' \<notin> set S" for S
    by (auto simp: filter_empty_conv)
  have c: "list_all (\<lambda>s. s = ''corroborated'') (filter (\<lambda>s. s = ''corroborated'' \<or> s = ''single'') S) \<longleftrightarrow> ''single'' \<notin> set S"
    and s: "list_all (\<lambda>s. s = ''single'') (filter (\<lambda>s. s = ''corroborated'' \<or> s = ''single'') S) \<longleftrightarrow> ''corroborated'' \<notin> set S" for S
    by (auto simp: list_all_iff)
  have n: "dcs = [] \<longleftrightarrow> (\<lambda>(r, s, refs). s) ` set dcs = {}" by simp
  have i: "(\<lambda>(r, s, refs). s) ` set dcs = set ?S" by simp
  show ?thesis
    unfolding dimension_confidence_def Let_def e c s confidence_of_def i
    by (cases "dcs = []") (simp_all del: set_map)
qed

lemma dim_strengths:
  assumes "groups claims (enumerate 0 items)"
  shows "(\<lambda>(r, s, refs). s) ` set (dim_claims claims dim)
     = key_strength items ` {key \<in> claim_of ` set items. dget level_to_dimension (fst key) = Some dim}"
proof -
  have "(\<lambda>(r, s, refs). s) ` set (dim_claims claims dim)
      = (\<lambda>(key, es). fst (claim_strength es)) ` {(key, es) \<in> set claims. dget level_to_dimension (fst key) = Some dim}"
    unfolding dim_claims_def set_map set_filter image_image by (rule image_cong) (auto split: prod.splits)
  also have "\<dots> = (\<lambda>(key, es). key_strength items key) ` {(key, es) \<in> set claims. dget level_to_dimension (fst key) = Some dim}"
    using groups_keys(3) [OF assms] by (intro image_cong) auto
  also have "\<dots> = key_strength items ` {key \<in> set (dkeys claims). dget level_to_dimension (fst key) = Some dim}"
    by (force simp: image_def)
  finally show ?thesis by (simp only: groups_keys(2) [OF assms])
qed

lemma length_filter_key: "length (filter (\<lambda>(key, es). P key) d) = length (filter P (dkeys d))"
  by (induction d) auto

lemma coverage_of_lengths:
  assumes "length claims = t" and "length (filter (\<lambda>(key, es). fst (claim_strength es) \<noteq> ''absent'') claims) = n"
    and "n \<le> t"
  shows "cv_total (coverage_of claims p) = t" and "cv_established (coverage_of claims p) = n"
    and "cv_level (coverage_of claims p) =
      (if t = 0 \<or> n = 0 then ''none'' else if double_le (pol_strong p) (double_div n t) then ''strong''
       else if double_le (pol_moderate p) (double_div n t) then ''moderate'' else ''weak'')"
  using assms(3) unfolding coverage_of_def Let_def assms(1,2) by simp_all

lemma coverage_counts:
  assumes "groups claims (enumerate 0 items)"
  shows "cv_total (coverage_of claims p) = card (claim_of ` set items)"
    and "cv_established (coverage_of claims p) = card {key \<in> claim_of ` set items. key_strength items key \<noteq> ''absent''}"
    and "cv_level (coverage_of claims p) =
      (let t = card (claim_of ` set items); n = card {key \<in> claim_of ` set items. key_strength items key \<noteq> ''absent''} in
       if t = 0 \<or> n = 0 then ''none'' else if double_le (pol_strong p) (double_div n t) then ''strong''
       else if double_le (pol_moderate p) (double_div n t) then ''moderate'' else ''weak'')"
proof -
  note g = groups_keys [OF assms]
  have t: "length claims = card (claim_of ` set items)"
    using distinct_card [OF g(1)] g(2) by simp
  have "filter (\<lambda>(key, es). fst (claim_strength es) \<noteq> ''absent'') claims
      = filter (\<lambda>(key, es). key_strength items key \<noteq> ''absent'') claims"
    using g(3) by (intro filter_cong) auto
  then have "length (filter (\<lambda>(key, es). fst (claim_strength es) \<noteq> ''absent'') claims)
      = length (filter (\<lambda>key. key_strength items key \<noteq> ''absent'') (dkeys claims))"
    by (simp only: length_filter_key)
  also have "\<dots> = card {key \<in> set (dkeys claims). key_strength items key \<noteq> ''absent''}"
    by (simp only: distinct_card [OF distinct_filter [OF g(1)], symmetric] set_filter)
  finally have n: "length (filter (\<lambda>(key, es). fst (claim_strength es) \<noteq> ''absent'') claims)
      = card {key \<in> claim_of ` set items. key_strength items key \<noteq> ''absent''}" by (simp only: g(2))
  have le: "card {key \<in> claim_of ` set items. key_strength items key \<noteq> ''absent''} \<le> card (claim_of ` set items)"
    by (rule card_mono) auto
  note c = coverage_of_lengths [OF t n le]
  show "cv_total (coverage_of claims p) = card (claim_of ` set items)" by (rule c(1))
  show "cv_established (coverage_of claims p) = card {key \<in> claim_of ` set items. key_strength items key \<noteq> ''absent''}"
    by (rule c(2))
  show "cv_level (coverage_of claims p) =
      (let t = card (claim_of ` set items); n = card {key \<in> claim_of ` set items. key_strength items key \<noteq> ''absent''} in
       if t = 0 \<or> n = 0 then ''none'' else if double_le (pol_strong p) (double_div n t) then ''strong''
       else if double_le (pol_moderate p) (double_div n t) then ''moderate'' else ''weak'')"
    unfolding Let_def by (rule c(3))
qed

lemma uncertainty_keys:
  assumes "groups claims (enumerate 0 items)"
  shows "map fst (uncertainty_of claims)
    = filter (\<lambda>key. key_strength items key = ''absent'') (sorted_list_of_set (claim_of ` set items))"
proof -
  note g = groups_keys [OF assms]
  have s: "sort (dkeys claims) = sorted_list_of_set (claim_of ` set items)"
    using g(1,2) by (metis distinct_remdups_id sorted_list_of_set_sort_remdups)
  have k: "fst (claim_strength (the (dget claims key))) = key_strength items key" if "key \<in> set (dkeys claims)" for key
  proof -
    from that obtain es where "(key, es) \<in> set claims" by auto
    with g(1) have "dget claims key = Some es" by simp
    with \<open>(key, es) \<in> set claims\<close> g(3) show ?thesis by simp
  qed
  have m: "map fst (List.map_filter (\<lambda>key. case claim_strength (the (dget claims key)) of
          (s, refs) \<Rightarrow> if s = ''absent'' then Some (key, refs) else None) keys)
      = filter (\<lambda>key. key_strength items key = ''absent'') keys" if "set keys \<subseteq> set (dkeys claims)" for keys
    using that
  proof (induction keys)
    case (Cons key keys)
    then have "fst (claim_strength (the (dget claims key))) = key_strength items key" using k by simp
    with Cons show ?case by (cases "claim_strength (the (dget claims key))") (simp add: List.map_filter_simps)
  qed (simp add: List.map_filter_simps)
  show ?thesis unfolding uncertainty_of_def by (subst m) (simp, simp only: s)
qed

text \<open>The derivation as a specification over the set and the multiset of the items.\<close>

definition spec_confidence :: "evidence_item list \<Rightarrow> string \<Rightarrow> string" where
  "spec_confidence items dim =
     confidence_of (key_strength items ` {key \<in> claim_of ` set items. dget level_to_dimension (fst key) = Some dim})"

definition spec_coverage :: "evidence_item list \<Rightarrow> derivation_policy \<Rightarrow> string \<times> nat \<times> nat" where
  "spec_coverage items p =
     (let t = card (claim_of ` set items); n = card {key \<in> claim_of ` set items. key_strength items key \<noteq> ''absent''} in
      (if t = 0 \<or> n = 0 then ''none'' else if double_le (pol_strong p) (double_div n t) then ''strong''
       else if double_le (pol_moderate p) (double_div n t) then ''moderate'' else ''weak'', n, t))"

definition spec_assurance :: "evidence_item list \<Rightarrow> derivation_policy \<Rightarrow> string" where
  "spec_assurance items p =
     (let applicable = {dim \<in> set dimensions. spec_confidence items dim \<noteq> ''none''} in
      if cause_of (set items) \<noteq> None then verification_failed
      else if applicable = {} then verified_low
      else if (\<forall>dim \<in> applicable. spec_confidence items dim = ''strong'') \<and> fst (spec_coverage items p) = ''strong''
      then verified_high
      else if \<forall>dim \<in> applicable. spec_confidence items dim = ''weak'' then verified_low
      else verified_moderate)"

lemma confidence_of_level: "confidence_of S \<in> set confidence_levels"
  by (simp add: confidence_of_def confidence_levels_def)

lemma level_rank_inj: "a \<in> set confidence_levels \<Longrightarrow> b \<in> set confidence_levels \<Longrightarrow> level_rank a = level_rank b \<longleftrightarrow> a = b"
  by (auto simp: level_rank_def confidence_levels_def)

theorem derive_outcome:
  assumes "derive r p = Inr d"
  shows "outcome_of d =
    (if cause_of (set (er_items r)) = None then ''passed'' else ''failed'', cause_of (set (er_items r)),
     map (\<lambda>dim. (dim, spec_confidence (er_items r) dim)) dimensions, spec_coverage (er_items r) p,
     filter (\<lambda>key. key_strength (er_items r) key = ''absent'') (sorted_list_of_set (claim_of ` set (er_items r))),
     spec_assurance (er_items r) p)"
proof -
  let ?I = "er_items r"
  from assms have "\<forall>it \<in> set ?I. level_known it" using derive_ok_iff by blast
  then obtain claims where claims: "group_claims ?I = Inr claims" "groups claims (enumerate 0 ?I)"
    by (rule group_claims_ok)
  let ?conf = "map (\<lambda>dim. (dim, dimension_confidence (dim_claims claims dim))) dimensions"
  have conf: "fst (dimension_confidence (dim_claims claims dim)) = spec_confidence ?I dim" for dim
    by (simp add: dimension_confidence_set dim_strengths [OF claims(2)] spec_confidence_def)
  then have confs: "map (\<lambda>(dim, l, refs). (dim, l)) ?conf = map (\<lambda>dim. (dim, spec_confidence ?I dim)) dimensions"
    by (simp add: case_prod_beta comp_def)
  have lv: "spec_confidence ?I dim \<in> set confidence_levels" for dim
    by (simp add: spec_confidence_def confidence_of_level)
  have known: "''strong'' \<in> set confidence_levels" "''weak'' \<in> set confidence_levels"
    by (simp_all add: confidence_levels_def)
  let ?app = "filter (\<lambda>dim. spec_confidence ?I dim \<noteq> ''none'') dimensions"
  have ranks: "map (\<lambda>(dim, l, refs). level_rank l) (filter (\<lambda>(dim, l, refs). l \<noteq> ''none'') ?conf)
      = map (\<lambda>dim. level_rank (spec_confidence ?I dim)) ?app"
    by (simp add: filter_map comp_def case_prod_beta conf)
  have all: "list_all (\<lambda>k. k = level_rank l) (map (\<lambda>dim. level_rank (spec_confidence ?I dim)) ?app)
      \<longleftrightarrow> (\<forall>dim \<in> {dim \<in> set dimensions. spec_confidence ?I dim \<noteq> ''none''}. spec_confidence ?I dim = l)"
    if "l \<in> set confidence_levels" for l
    using level_rank_inj [OF lv that] by (auto simp: list_all_iff)
  have emp: "map (\<lambda>dim. level_rank (spec_confidence ?I dim)) ?app = []
      \<longleftrightarrow> {dim \<in> set dimensions. spec_confidence ?I dim \<noteq> ''none''} = {}"
    by (auto simp: filter_empty_conv)
  have cov: "(cv_level (coverage_of claims p), cv_established (coverage_of claims p), cv_total (coverage_of claims p))
      = spec_coverage ?I p"
    by (simp add: coverage_counts [OF claims(2)] spec_coverage_def Let_def)
  then have covl: "cv_level (coverage_of claims p) = fst (spec_coverage ?I p)" by (metis fst_conv)
  let ?v = "if cause_of (set ?I) = None then ''passed'' else ''failed''"
  have ass: "assurance_of ?v ?conf (coverage_of claims p) = spec_assurance ?I p"
    unfolding assurance_of_def Let_def ranks all [OF known(1)] all [OF known(2)] emp covl spec_assurance_def
    by (simp add: verified_low_def verified_high_def)
  from assms claims(1) have "d = \<lparr>dv_policy = pol_version p, dv_rules = er_rules r, dv_verdict = ?v,
      dv_cause = cause_of (set ?I), dv_confidence = ?conf, dv_coverage = coverage_of claims p,
      dv_uncertainty = uncertainty_of claims, dv_assurance = assurance_of ?v ?conf (coverage_of claims p)\<rparr>"
    by (simp add: derive_def verdict_of_set Let_def)
  then show ?thesis
    using confs cov ass uncertainty_keys [OF claims(2)] by (simp add: outcome_of_def)
qed

text \<open>So the outcome depends on the multiset of the items only.\<close>

lemma mset_claim_kinds: "mset items = mset items' \<Longrightarrow> mset (claim_kinds items key) = mset (claim_kinds items' key)"
  unfolding claim_kinds_def by (metis mset_filter mset_map)

lemma key_strength_mset: "mset items = mset items' \<Longrightarrow> key_strength items = key_strength items'"
  unfolding key_strength_def by (metis mset_claim_kinds)

lemma spec_mset:
  assumes "mset items = mset items'"
  shows "spec_confidence items = spec_confidence items'" and "spec_coverage items = spec_coverage items'"
    and "spec_assurance items = spec_assurance items'"
proof -
  have k: "key_strength items = key_strength items'" and s: "set items = set items'"
    using key_strength_mset [OF assms] mset_eq_setD [OF assms] by simp_all
  show c: "spec_confidence items = spec_confidence items'"
    unfolding spec_confidence_def fun_eq_iff k s by simp
  show v: "spec_coverage items = spec_coverage items'"
    unfolding spec_coverage_def fun_eq_iff k s by simp
  show "spec_assurance items = spec_assurance items'"
    unfolding spec_assurance_def fun_eq_iff c v s by simp
qed

end
