(* ===== verification/VaeJudgment.thy ===== *)
theory VaeJudgment
  imports VaeDerivation BusPort
begin

text \<open>
  From a demand to a closed evidence body: the closed event sets (\<open>vae/events.py\<close>), demand
  intake (\<open>vae/intake.py\<close>), the delegation to an execution channel (\<open>vae/delegation.py\<close>), the
  engine's own checks (\<open>vae/static_checks.py\<close>) and the judgment that collects their evidence
  (\<open>vae/judgment.py\<close>). The channel is a parameter: two operations on its state, whose
  first answers whether the dispatch was acknowledged (the code sees \<open>ConnectionError\<close>
  otherwise) and whose second answers with a result or \<open>None\<close>. A static check is a function
  that may raise. Times are integers.
\<close>

section \<open>Events\<close>

definition vae_published :: "string list" where
  "vae_published = [''verify.passed'', ''verify.failed'', ''plan.validated'', ''plan.rejected'', ''fault.recorded'']"

definition vae_consumed :: "string list" where
  "vae_consumed = [''verify.requested'', ''plan.created'', ''exec.completed'', ''reasoning.completed'']"

definition reject_event :: "string \<Rightarrow> 'a vae" where
  "reject_event name = Inl (UnknownVaeEventError (''events.unknown_event:'' @ name @ '':VAE/05 '' @ [CHR 0xA7] @ ''2 closed set''))"

definition verdict_envelope_of :: "string \<Rightarrow> string \<Rightarrow> string \<Rightarrow> pyval \<Rightarrow> pyval vae" where
  "verdict_envelope_of name eid subject p =
     (if name \<notin> set vae_published then reject_event name
      else if \<not> is_dict p then Inl (VaeEventRefusal (''events.payload_not_a_mapping:'' @ py_repr p))
      else Inr (PyDict [(''event_name'', PyStr name), (''event_id'', PyStr eid),
        (''subject_ref'', PyStr subject), (''payload'', p)]))"

definition emit_vae_event ::
  "'b publisher \<Rightarrow> 'b \<Rightarrow> string \<Rightarrow> string \<Rightarrow> string \<Rightarrow> pyval \<Rightarrow> 'b \<times> pyval vae" where
  "emit_vae_event pub b name eid subject p =
     (case verdict_envelope_of name eid subject p of
        Inl e \<Rightarrow> (b, Inl e)
      | Inr env \<Rightarrow> (case pub b name env of (b', ok) \<Rightarrow> (b', if ok then Inr env else Inl VaeBusDown)))"

definition check_consumed :: "string \<Rightarrow> unit vae" where
  "check_consumed name = (if name \<notin> set vae_consumed then reject_event name else Inr ())"

section \<open>Intake\<close>

datatype intake_action = Opened | AlreadyOpen | AnsweredByExistingVerdict | Deduped

record intake_result =
  ir_action :: intake_action
  ir_artifact :: string
  ir_judgment :: "string option"
  ir_verdict :: "string option"

record intake =
  in_seen :: "string list"
  in_open :: "(string, string) dict"
  in_terminal :: "(string, string) dict"

definition new_intake :: intake where
  "new_intake = \<lparr>in_seen = [], in_open = [], in_terminal = []\<rparr>"

definition receive :: "intake \<Rightarrow> string \<Rightarrow> string \<Rightarrow> string \<Rightarrow> string \<Rightarrow> intake \<times> intake_result vae" where
  "receive i name eid artifact jid =
     (case check_consumed name of
        Inl e \<Rightarrow> (i, Inl e)
      | Inr _ \<Rightarrow>
          if eid \<in> set (in_seen i) then (i, Inr \<lparr>ir_action = Deduped, ir_artifact = artifact, ir_judgment = None, ir_verdict = None\<rparr>)
          else
            let i = i\<lparr>in_seen := eid # in_seen i\<rparr> in
            (case dget (in_terminal i) artifact of
               Some v \<Rightarrow> (i, Inr \<lparr>ir_action = AnsweredByExistingVerdict, ir_artifact = artifact, ir_judgment = None, ir_verdict = Some v\<rparr>)
             | None \<Rightarrow>
                 (case dget (in_open i) artifact of
                    Some j \<Rightarrow> (i, Inr \<lparr>ir_action = AlreadyOpen, ir_artifact = artifact, ir_judgment = Some j, ir_verdict = None\<rparr>)
                  | None \<Rightarrow> (i\<lparr>in_open := dset artifact jid (in_open i)\<rparr>,
                       Inr \<lparr>ir_action = Opened, ir_artifact = artifact, ir_judgment = Some jid, ir_verdict = None\<rparr>))))"

definition mark_terminal :: "intake \<Rightarrow> string \<Rightarrow> string \<Rightarrow> intake \<times> unit vae" where
  "mark_terminal i artifact ref =
     (case dget (in_terminal i) artifact of
        Some existing \<Rightarrow>
          if existing \<noteq> ref then
            (i, Inl (DemandAlreadyTerminalConflictError (''intake.terminal_verdict_conflict:artifact_ref='' @ artifact
               @ '':existing='' @ existing @ '':new='' @ ref)))
          else (i\<lparr>in_terminal := dset artifact ref (in_terminal i), in_open := ddel artifact (in_open i)\<rparr>, Inr ())
      | None \<Rightarrow> (i\<lparr>in_terminal := dset artifact ref (in_terminal i), in_open := ddel artifact (in_open i)\<rparr>, Inr ()))"

definition intake_is_open :: "intake \<Rightarrow> string \<Rightarrow> bool" where
  "intake_is_open i artifact \<longleftrightarrow> dget (in_open i) artifact \<noteq> None"

definition terminal_verdict :: "intake \<Rightarrow> string \<Rightarrow> string option" where
  "terminal_verdict i artifact = dget (in_terminal i) artifact"

section \<open>Delegation\<close>

record 'x channel =
  ch_dispatch :: "'x \<Rightarrow> string \<Rightarrow> pyval \<Rightarrow> 'x \<times> bool"
  ch_poll :: "'x \<Rightarrow> string \<Rightarrow> int \<Rightarrow> 'x \<times> pyval"

datatype delegation_state = DRequired | DDispatched | DResulted | DExpired

fun delegation_state_name :: "delegation_state \<Rightarrow> string" where
  "delegation_state_name DRequired = ''required''"
| "delegation_state_name DDispatched = ''dispatched''"
| "delegation_state_name DResulted = ''resulted''"
| "delegation_state_name DExpired = ''expired''"

definition delegation_terminal :: "delegation_state \<Rightarrow> bool" where
  "delegation_terminal s \<longleftrightarrow> s = DResulted \<or> s = DExpired"

record delegation =
  dg_key :: string
  dg_check :: string
  dg_artifact :: string
  dg_deadline :: int
  dg_state :: delegation_state
  dg_result :: pyval

definition build_delegation :: "string \<Rightarrow> string \<Rightarrow> string \<Rightarrow> int \<Rightarrow> delegation vae" where
  "build_delegation key check artifact deadline =
     (if key = [] then Inl (DelegationRefusal (''delegation.bad_key:'' @ repr_str key))
      else if check = [] then Inl (DelegationRefusal (''delegation.bad_check:'' @ repr_str check))
      else if artifact = [] then Inl (DelegationRefusal (''delegation.bad_artifact_ref:'' @ repr_str artifact))
      else Inr \<lparr>dg_key = key, dg_check = check, dg_artifact = artifact, dg_deadline = deadline,
                dg_state = DRequired, dg_result = PyNone\<rparr>)"

definition delegation_dispatch :: "'x channel \<Rightarrow> 'x \<Rightarrow> delegation \<Rightarrow> pyval \<Rightarrow> 'x \<times> delegation vae" where
  "delegation_dispatch C x d request =
     (if dg_state d \<noteq> DRequired then
        (x, Inl (ReDispatchRefusedError (''delegation.redispatch_refused:key='' @ dg_key d
           @ '':state='' @ delegation_state_name (dg_state d))))
      else (case ch_dispatch C x (dg_key d) request of
        (x', acked) \<Rightarrow> (x', Inr (if acked then d\<lparr>dg_state := DDispatched\<rparr> else d))))"

definition delegation_resolve :: "'x channel \<Rightarrow> 'x \<Rightarrow> delegation \<Rightarrow> int \<Rightarrow> 'x \<times> delegation vae" where
  "delegation_resolve C x d now =
     (if dg_state d = DRequired then
        (x, Inl (IllegalTransitionError (''delegation.resolve_before_dispatch:key='' @ dg_key d)))
      else if delegation_terminal (dg_state d) then (x, Inr d)
      else (case ch_poll C x (dg_key d) now of
        (x', result) \<Rightarrow>
          (x', Inr (if result \<noteq> PyNone then d\<lparr>dg_state := DResulted, dg_result := result\<rparr>
                    else if dg_deadline d \<le> now then d\<lparr>dg_state := DExpired, dg_result := PyNone\<rparr>
                    else d))))"

section \<open>Static checks\<close>

type_synonym static_check =
  "string \<Rightarrow> pyval \<Rightarrow> pyval vae"
type_synonym check_registry = "(string, static_check) dict"

definition reference_wellformed :: static_check where
  "reference_wellformed artifact metadata =
     (let pre = takeWhile (\<lambda>c. c \<noteq> CHR '':'') artifact;
          ok = CHR '':'' \<in> set artifact \<and> pre \<noteq> [] \<and> drop (Suc (length pre)) artifact \<noteq> [] in
      Inr (PyDict [(''outcome'', PyStr (if ok then ''pass'' else ''fail'')),
        (''detail'', PyDict [(''artifact_ref'', PyStr artifact)])]))"

definition register_check :: "check_registry \<Rightarrow> string \<Rightarrow> static_check \<Rightarrow> check_registry vae" where
  "register_check R name fn =
     (if name = [] then Inl (StaticCheckRefusal (''static_checks.bad_name:'' @ repr_str name))
      else if dget R name \<noteq> None then Inl (DuplicateCheckNameError (''static_checks.duplicate_name:'' @ name))
      else Inr (R @ [(name, fn)]))"

definition new_registry :: check_registry where
  "new_registry = [(''reference_wellformed'', reference_wellformed)]"

definition registered_names :: "check_registry \<Rightarrow> string list" where
  "registered_names R = sort (dkeys R)"

definition registry_run :: "check_registry \<Rightarrow> string \<Rightarrow> string \<Rightarrow> pyval \<Rightarrow> pyval vae" where
  "registry_run R name artifact metadata =
     (case dget R name of
        None \<Rightarrow> Inl (UnknownStaticCheckError (''static_checks.unknown_check:'' @ name))
      | Some fn \<Rightarrow>
          bind_sum (fn artifact metadata) (\<lambda>result.
            if \<not> is_dict result \<or> py_get result ''outcome'' PyNone \<notin> {PyStr ''pass'', PyStr ''fail''} then
              Inl (MalformedCheckResultError (''static_checks.malformed_result:'' @ py_repr result))
            else Inr result))"

section \<open>The judgment\<close>

record vae_judgment =
  jd_id :: string
  jd_artifact :: string
  jd_rules :: int
  jd_body :: evidence_record
  jd_delegations :: "(string, delegation) dict"
  jd_pending :: "string list"
  jd_levels :: "(string, string) dict"
  jd_closed :: bool

text \<open>A delegated check comes with its deadline and level, a static one with its level.\<close>

definition open_judgment ::
  "string \<Rightarrow> string \<Rightarrow> int \<Rightarrow> (string, int \<times> string) dict \<Rightarrow> (string, string) dict \<Rightarrow> vae_judgment vae" where
  "open_judgment jid artifact version delegated static =
     (let overlap = filter (\<lambda>n. n \<in> set (dkeys static)) (dkeys delegated) in
      if overlap \<noteq> [] then
        Inl (DuplicateCheckNameAcrossKindsError (''judgment.check_declared_both_delegated_and_static:''
          @ repr_strs (sort overlap)))
      else
        bind_sum (mapm (\<lambda>(name, deadline, level).
            bind_sum (build_delegation (jid @ '':'' @ name) name artifact deadline) (\<lambda>d. Inr (name, d))) delegated)
          (\<lambda>delegations.
        bind_sum (build_evidence_record artifact version [] None) (\<lambda>record.
          Inr \<lparr>jd_id = jid, jd_artifact = artifact, jd_rules = version, jd_body = record,
               jd_delegations = delegations, jd_pending = dkeys static,
               jd_levels = map (\<lambda>(name, deadline, level). (name, level)) delegated @ static, jd_closed = False\<rparr>)))"

definition require_delegation :: "vae_judgment \<Rightarrow> string \<Rightarrow> delegation vae" where
  "require_delegation j check =
     (case dget (jd_delegations j) check of
        None \<Rightarrow> Inl (UnknownCheckError (''judgment.unknown_delegated_check:'' @ check))
      | Some d \<Rightarrow> Inr d)"

definition level_of :: "vae_judgment \<Rightarrow> string \<Rightarrow> string vae" where
  "level_of j check = (case dget (jd_levels j) check of None \<Rightarrow> Inl (LookupKeyError check) | Some l \<Rightarrow> Inr l)"

definition dispatch_delegation :: "'x channel \<Rightarrow> 'x \<Rightarrow> vae_judgment \<Rightarrow> string \<Rightarrow> pyval \<Rightarrow> 'x \<times> vae_judgment vae" where
  "dispatch_delegation C x j check request =
     (case require_delegation j check of
        Inl e \<Rightarrow> (x, Inl e)
      | Inr d \<Rightarrow>
          (case delegation_dispatch C x d request of
             (x', Inl e) \<Rightarrow> (x', Inl e)
           | (x', Inr d') \<Rightarrow> (x', Inr (j\<lparr>jd_delegations := dset check d' (jd_delegations j)\<rparr>))))"

text \<open>The item for a check's outcome, appended to the record.\<close>

definition add_evidence :: "vae_judgment \<Rightarrow> string \<Rightarrow> string \<Rightarrow> pyval \<Rightarrow> string \<Rightarrow> evidence_record vae" where
  "add_evidence j check source result kind =
     bind_sum (level_of j check) (\<lambda>level.
     bind_sum (build_evidence_item (PyStr (''rule.'' @ check)) (PyStr (jd_artifact j)) (PyStr source) result kind (PyStr level))
       (\<lambda>it. Inr (append_item (jd_body j) it)))"

definition settled_result :: "delegation \<Rightarrow> pyval vae" where
  "settled_result d =
     (case dg_state d of
        DResulted \<Rightarrow> vfield (dg_result d) ''outcome''
      | DExpired \<Rightarrow> Inr (PyStr ''execution_failure'')
      | _ \<Rightarrow> Inr PyNone)"

definition resolve_delegation :: "'x channel \<Rightarrow> 'x \<Rightarrow> vae_judgment \<Rightarrow> string \<Rightarrow> int \<Rightarrow> 'x \<times> vae_judgment vae" where
  "resolve_delegation C x j check now =
     (case require_delegation j check of
        Inl e \<Rightarrow> (x, Inl e)
      | Inr d \<Rightarrow>
          (case delegation_resolve C x d now of
             (x', Inl e) \<Rightarrow> (x', Inl e)
           | (x', Inr d') \<Rightarrow>
               (x', let j' = j\<lparr>jd_delegations := dset check d' (jd_delegations j)\<rparr> in
                    if dg_state d' = dg_state d then Inr j'
                    else bind_sum (settled_result d') (\<lambda>result.
                      if result = PyNone then Inr j'
                      else bind_sum (add_evidence j check (''execution:'' @ dg_key d') result ''independent'')
                        (\<lambda>rec. Inr (j'\<lparr>jd_body := rec\<rparr>))))))"

definition record_late_result :: "'x channel \<Rightarrow> 'x \<Rightarrow> vae_judgment \<Rightarrow> string \<Rightarrow> int \<Rightarrow> 'x \<times> vae_judgment vae" where
  "record_late_result C x j check now =
     (case require_delegation j check of
        Inl e \<Rightarrow> (x, Inl e)
      | Inr d \<Rightarrow>
          if \<not> delegation_terminal (dg_state d) then
            (x, Inl (LateResultBeforeTerminalError (''judgment.late_result_before_terminal:check='' @ check
               @ '':state='' @ delegation_state_name (dg_state d))))
          else (case ch_poll C x (dg_key d) now of
            (x', result) \<Rightarrow>
              (x', if result = PyNone then Inr j
                   else bind_sum (vfield result ''outcome'') (\<lambda>outcome.
                     bind_sum (add_evidence j check (''execution:'' @ dg_key d) outcome ''redundant'')
                       (\<lambda>rec. Inr (j\<lparr>jd_body := rec\<rparr>))))))"

definition run_static_check :: "check_registry \<Rightarrow> vae_judgment \<Rightarrow> string \<Rightarrow> pyval \<Rightarrow> vae_judgment vae" where
  "run_static_check R j check metadata =
     (if check \<notin> set (jd_pending j) then
        Inl (UnknownCheckError (''judgment.unknown_or_already_run_static_check:'' @ check))
      else
        bind_sum (registry_run R check (jd_artifact j) metadata) (\<lambda>result.
        bind_sum (add_evidence j check (''static:'' @ check) (py_get result ''outcome'' PyNone) ''independent'') (\<lambda>rec.
          Inr (j\<lparr>jd_body := rec, jd_pending := filter (\<lambda>n. n \<noteq> check) (jd_pending j)\<rparr>))))"

definition is_closed :: "vae_judgment \<Rightarrow> bool" where
  "is_closed j \<longleftrightarrow> jd_pending j = [] \<and> list_all (\<lambda>(n, d). delegation_terminal (dg_state d)) (jd_delegations j)"

definition close_judgment :: "vae_judgment \<Rightarrow> vae_judgment vae" where
  "close_judgment j =
     (if jd_closed j then Inr j
      else if \<not> is_closed j then Inl (JudgmentNotReadyError (''judgment.not_ready:'' @ jd_id j))
      else Inr (j\<lparr>jd_closed := True\<rparr>))"

end
