(* ===== verification/VaeRuntime.thy ===== *)
theory VaeRuntime
  imports VaeJudgment
begin

text \<open>
  Verdict emission (\<open>vae/emission.py\<close>), the telemetry it feeds (\<open>vae/telemetry.py\<close>), the
  composition root (\<open>vae/runtime.py\<close>) and the pending projection rebuilt after a crash
  (\<open>vae/pending.py\<close>). Storage is the port of a namespace, the bus a publisher; both are part
  of the runtime's state, so what a raising call leaves behind is visible. A demand is a typed
  record. The telemetry sink is the list of what it was told. A raising call returns the state
  it leaves.
\<close>

section \<open>Emission\<close>

definition passes_result :: "string \<Rightarrow> bool" where
  "passes_result r \<longleftrightarrow> r \<in> set passing_results"

definition item_reasons :: "evidence_record \<Rightarrow> pyval list" where
  "item_reasons r =
     map (\<lambda>it. PyDict [(''rule'', PyStr (ei_rule it)), (''level'', PyStr (ei_level it)),
            (''result'', PyStr (ei_result it)), (''contribution_kind'', PyStr (ei_kind it))])
       (filter (\<lambda>it. ei_kind it \<noteq> ''missing'' \<and> (ei_kind it = ''conflicting'' \<or> \<not> passes_result (ei_result it)))
         (er_items r))"

definition statement_reason :: "pyval \<Rightarrow> pyval vae" where
  "statement_reason st =
     bind_sum (vfield st ''rule'') (\<lambda>ru. bind_sum (vfield st ''level'') (\<lambda>le. bind_sum (vfield st ''reason'') (\<lambda>re.
       Inr (PyDict [(''rule'', ru), (''level'', le), (''reason'', re)]))))"

definition failure_reasons :: "evidence_record \<Rightarrow> pyval \<Rightarrow> pyval vae" where
  "failure_reasons r account =
     bind_sum (vfield account ''uncertainty'') (\<lambda>u.
       case u of
         PyList sts \<Rightarrow> bind_sum (mapm statement_reason sts) (\<lambda>rs. Inr (PyList (item_reasons r @ rs)))
       | _ \<Rightarrow> Inl NotAMapping)"

text \<open>Event name, event id and payload of a verdict, from the record that carries the account.\<close>

definition build_verdict_envelope :: "string \<Rightarrow> evidence_record \<Rightarrow> (string \<times> string \<times> pyval) vae" where
  "build_verdict_envelope h r =
     (let account = (case er_account r of None \<Rightarrow> PyNone | Some a \<Rightarrow> a) in
      bind_sum (vfield account ''verdict'') (\<lambda>verdict.
      bind_sum (vfield account ''assurance_level'') (\<lambda>assurance.
        let base = [(''verdict_id'', PyStr h), (''artifact_id'', PyStr (er_artifact r)),
                    (''rules_version'', PyInt (er_rules r)),
                    (''evidence_record_ref'', PyStr (''storage:vae/ev/'' @ h)), (''assurance_level'', assurance)] in
        if verdict = PyStr ''passed'' then Inr (''verify.passed'', h @ '':passed'', PyDict base)
        else
          bind_sum (vfield account ''failure_cause'') (\<lambda>cause.
          bind_sum (failure_reasons r account) (\<lambda>reasons.
            Inr (''verify.failed'', h @ '':failed'',
                 PyDict (base @ [(''failure_cause'', cause), (''reasons'', reasons)])))))))"

datatype emission_outcome = Emitted | Rejected

record emission_result =
  em_outcome :: emission_outcome
  em_artifact :: string
  em_key :: string
  em_event :: pyval
  em_ref :: "string option"
  em_verdict :: pyval

type_synonym ('s, 'b) vae_world = "'s \<times> 'b \<times> intake"

definition evidence_key :: "string \<Rightarrow> string" where
  "evidence_key h = ''vae/ev/'' @ h"

definition publish_rejection ::
  "'b publisher \<Rightarrow> 's \<times> 'b \<times> intake \<Rightarrow> vae_judgment \<Rightarrow> string \<Rightarrow> ('s, 'b) vae_world \<times> emission_result vae" where
  "publish_rejection pub w j h =
     (case w of (s, b, i) \<Rightarrow>
        (case emit_vae_event pub b ''fault.recorded'' (h @ '':fault'') (jd_artifact j)
            (PyDict [(''artifact_id'', PyStr (jd_artifact j)), (''rules_version'', PyInt (jd_rules j)),
                     (''reason'', PyStr ''storage_rejected''),
                     (''attempted_ref'', PyStr (''storage:'' @ evidence_key h))]) of
           (b', Inl e) \<Rightarrow> ((s, b', i), Inl e)
         | (b', Inr env) \<Rightarrow> ((s, b', i), Inr \<lparr>em_outcome = Rejected, em_artifact = jd_artifact j,
             em_key = evidence_key h, em_event = env, em_ref = None, em_verdict = PyNone\<rparr>)))"

definition publish_verdict ::
  "'b publisher \<Rightarrow> 's \<times> 'b \<times> intake \<Rightarrow> vae_judgment \<Rightarrow> string \<Rightarrow> evidence_record
     \<Rightarrow> ('s, 'b) vae_world \<times> emission_result vae" where
  "publish_verdict pub w j h r =
     (case w of (s, b, i) \<Rightarrow>
        (case build_verdict_envelope h r of
           Inl e \<Rightarrow> (w, Inl e)
         | Inr (name, eid, p) \<Rightarrow>
             (case emit_vae_event pub b name eid (jd_artifact j) p of
                (b', Inl e) \<Rightarrow> ((s, b', i), Inl e)
              | (b', Inr env) \<Rightarrow>
                  (case mark_terminal i (jd_artifact j) (''storage:vae/ev/'' @ h) of
                     (i', Inl e) \<Rightarrow> ((s, b', i'), Inl e)
                   | (i', Inr _) \<Rightarrow> ((s, b', i'), Inr \<lparr>em_outcome = Emitted, em_artifact = jd_artifact j,
                       em_key = evidence_key h, em_event = env, em_ref = Some (''storage:vae/ev/'' @ h),
                       em_verdict = py_get (case er_account r of None \<Rightarrow> PyNone | Some a \<Rightarrow> a) ''verdict'' PyNone\<rparr>)))))"

definition emit_verdict ::
  "vae_digest \<Rightarrow> 's blob_writer \<Rightarrow> 'b publisher \<Rightarrow> derivation_policy \<Rightarrow> ('s, 'b) vae_world \<Rightarrow> vae_judgment
     \<Rightarrow> ('s, 'b) vae_world \<times> emission_result vae" where
  "emit_verdict sha wr pub policy w j =
     (case w of (s, b, i) \<Rightarrow>
        if \<not> jd_closed j then (w, Inl (JudgmentNotClosedError (''emission.judgment_not_closed:'' @ jd_id j)))
        else if terminal_verdict i (jd_artifact j) \<noteq> None then
          (w, Inl (AlreadyEmittedError (''emission.already_emitted:'' @ jd_artifact j)))
        else (case attach_derivation (jd_body j) policy of
          Inl e \<Rightarrow> (w, Inl e)
        | Inr r \<Rightarrow>
            let h = evidence_hash sha r in
            (case wr s (evidence_key h) (evidence_canonical r) of
               (s', Inl e) \<Rightarrow> ((s', b, i), Inl (VaeStorageRaised e))
             | (s', Inr outcome) \<Rightarrow>
                 if outcome = ''rejected'' then publish_rejection pub (s', b, i) j h
                 else if outcome \<noteq> ''committed'' then
                   ((s', b, i), Inl (EmissionRefusal (''emission.unknown_storage_outcome:'' @ repr_str outcome)))
                 else publish_verdict pub (s', b, i) j h r)))"

section \<open>Telemetry\<close>

type_synonym vae_telemetry = "(string \<times> pyval) list"

definition signal_families :: "string list" where
  "signal_families = [''judgment_outcome'', ''check_activity'', ''coverage_readout'', ''agreement_record'',
     ''derivation_consistency'', ''latency_demand'']"

definition check_phases :: "string list" where
  "check_phases = [''dispatched'', ''resulted'', ''expired'', ''static_run'']"

definition emit_signal :: "vae_telemetry \<Rightarrow> string \<Rightarrow> payload \<Rightarrow> vae_telemetry vae" where
  "emit_signal sink family p =
     (if family \<notin> set signal_families then
        Inl (UnknownSignalFamilyError (''telemetry.unknown_signal_family:'' @ family))
      else Inr (sink @ [(family, PyDict p)]))"

definition emit_judgment_outcome :: "vae_telemetry \<Rightarrow> string \<Rightarrow> int \<Rightarrow> pyval \<Rightarrow> pyval \<Rightarrow> pyval \<Rightarrow> vae_telemetry vae" where
  "emit_judgment_outcome sink artifact version verdict cause assurance =
     emit_signal sink ''judgment_outcome'' [(''artifact_id'', PyStr artifact), (''rules_version'', PyInt version),
       (''verdict'', verdict), (''failure_cause'', cause), (''assurance_level'', assurance)]"

definition emit_check_activity :: "vae_telemetry \<Rightarrow> string \<Rightarrow> string \<Rightarrow> string \<Rightarrow> string option \<Rightarrow> vae_telemetry vae" where
  "emit_check_activity sink artifact check phase category =
     (if phase \<notin> set check_phases then
        Inl (UnknownCheckPhaseError (''telemetry.unknown_check_phase:'' @ phase))
      else emit_signal sink ''check_activity''
        ([(''artifact_id'', PyStr artifact), (''check'', PyStr check), (''phase'', PyStr phase)]
         @ (case category of None \<Rightarrow> [] | Some c \<Rightarrow> [(''result_category'', PyStr c)])))"

definition emit_coverage_readout :: "vae_telemetry \<Rightarrow> string \<Rightarrow> coverage \<Rightarrow> vae_telemetry vae" where
  "emit_coverage_readout sink artifact c =
     emit_signal sink ''coverage_readout'' [(''artifact_id'', PyStr artifact), (''level'', PyStr (cv_level c)),
       (''established'', PyInt (int (cv_established c))), (''total'', PyInt (int (cv_total c)))]"

definition group_items :: "evidence_item list \<Rightarrow> (claim_key, evidence_item list) dict" where
  "group_items items =
     foldl (\<lambda>claims it. dset (claim_of it)
        ((case dget claims (claim_of it) of None \<Rightarrow> [] | Some es \<Rightarrow> es) @ [it]) claims) [] items"

definition agreement_of :: "evidence_item list \<Rightarrow> string option" where
  "agreement_of entries =
     (let conflicting = filter (\<lambda>it. ei_kind it = ''conflicting'') entries;
          subst = filter (\<lambda>it. ei_kind it = ''independent'' \<or> ei_kind it = ''corroborating'') entries in
      if conflicting = [] \<and> length subst < 2 then None
      else if conflicting \<noteq> [] then Some ''conflicted''
      else if length (remdups (map ei_result subst)) \<le> 1 then Some ''agreed''
      else Some ''disagreed'')"

definition claim_sources :: "evidence_item list \<Rightarrow> string list" where
  "claim_sources entries =
     sort (List.map_filter (\<lambda>it. case ei_source it of Some (c # s) \<Rightarrow> Some (c # s) | _ \<Rightarrow> None) entries)"

definition emit_agreement_records :: "vae_telemetry \<Rightarrow> string \<Rightarrow> evidence_item list \<Rightarrow> vae_telemetry vae" where
  "emit_agreement_records sink artifact items =
     foldm (\<lambda>sink (key, entries).
        case agreement_of entries of
          None \<Rightarrow> Inr sink
        | Some a \<Rightarrow> emit_signal sink ''agreement_record'' [(''artifact_id'', PyStr artifact),
            (''level'', PyStr (fst key)), (''rule'', PyStr (snd key)),
            (''sources'', PyList (map PyStr (claim_sources entries))), (''agreement'', PyStr a)])
       sink (group_items items)"

definition emit_derivation_consistency ::
  "vae_telemetry \<Rightarrow> string \<Rightarrow> int \<Rightarrow> string \<Rightarrow> pyval \<Rightarrow> pyval \<Rightarrow> vae_telemetry vae" where
  "emit_derivation_consistency sink artifact version h verdict assurance =
     emit_signal sink ''derivation_consistency'' [(''artifact_id'', PyStr artifact), (''rules_version'', PyInt version),
       (''record_content_hash'', PyStr h), (''verdict'', verdict), (''assurance_level'', assurance)]"

definition emit_latency_demand ::
  "vae_telemetry \<Rightarrow> string \<Rightarrow> int option \<Rightarrow> (string, int) dict option \<Rightarrow> int option \<Rightarrow> vae_telemetry vae" where
  "emit_latency_demand sink artifact jd dd qd =
     emit_signal sink ''latency_demand''
       ([(''artifact_id'', PyStr artifact)]
        @ (case jd of None \<Rightarrow> [] | Some n \<Rightarrow> [(''judgment_duration'', PyInt n)])
        @ (case dd of None \<Rightarrow> [] | Some d \<Rightarrow> [(''delegation_durations'', PyDict (map (\<lambda>(k, n). (k, PyInt n)) (sort_key fst d)))])
        @ (case qd of None \<Rightarrow> [] | Some n \<Rightarrow> [(''queue_depth'', PyInt n)]))"

section \<open>The runtime\<close>

record demand =
  dm_event :: string
  dm_event_id :: string
  dm_artifact :: string
  dm_judgment :: string
  dm_type :: string
  dm_rules :: int
  dm_delegated :: "(string, string) dict"
  dm_static :: "(string, string) dict"

record ('s, 'b) verification =
  vr_storage :: 's
  vr_bus :: 'b
  vr_intake :: intake
  vr_rules :: rules_store
  vr_registry :: check_registry
  vr_policy :: derivation_policy
  vr_sink :: vae_telemetry
  vr_open :: "(string, vae_judgment) dict"

definition new_verification ::
  "derivation_policy \<Rightarrow> rules_store \<Rightarrow> check_registry \<Rightarrow> 's \<Rightarrow> 'b \<Rightarrow> ('s, 'b) verification" where
  "new_verification policy rules registry s b =
     \<lparr>vr_storage = s, vr_bus = b, vr_intake = new_intake, vr_rules = rules, vr_registry = registry,
      vr_policy = policy, vr_sink = [], vr_open = []\<rparr>"

text \<open>The checks of a demand: levels from the demand, deadlines from the rules.\<close>

definition demand_checks :: "artifact_rules \<Rightarrow> demand \<Rightarrow> (string, int \<times> string) dict vae" where
  "demand_checks ar d =
     mapm (\<lambda>(check, level).
        case dget (ar_deadlines ar) check of
          None \<Rightarrow> Inl (LookupKeyError check)
        | Some deadline \<Rightarrow> Inr (check, deadline, level)) (dm_delegated d)"

definition judgment_for :: "rules_store \<Rightarrow> demand \<Rightarrow> vae_judgment vae" where
  "judgment_for rules d =
     bind_sum (rules_lookup rules (dm_type d) (dm_rules d)) (\<lambda>ar.
     bind_sum (demand_checks ar d) (\<lambda>delegated.
       open_judgment (dm_judgment d) (dm_artifact d) (dm_rules d) delegated (dm_static d)))"

definition handle_demand :: "('s, 'b) verification \<Rightarrow> demand \<Rightarrow> ('s, 'b) verification \<times> intake_result vae" where
  "handle_demand V d =
     (case receive (vr_intake V) (dm_event d) (dm_event_id d) (dm_artifact d) (dm_judgment d) of
        (i, Inl e) \<Rightarrow> (V\<lparr>vr_intake := i\<rparr>, Inl e)
      | (i, Inr res) \<Rightarrow>
          if ir_action res \<noteq> Opened then (V\<lparr>vr_intake := i\<rparr>, Inr res)
          else (case judgment_for (vr_rules V) d of
            Inl e \<Rightarrow> (V\<lparr>vr_intake := i\<rparr>, Inl e)
          | Inr j \<Rightarrow> (V\<lparr>vr_intake := i, vr_open := dset (dm_artifact d) j (vr_open V)\<rparr>, Inr res)))"

definition require_open :: "('s, 'b) verification \<Rightarrow> string \<Rightarrow> vae_judgment vae" where
  "require_open V artifact =
     (case dget (vr_open V) artifact of
        None \<Rightarrow> Inl (NoOpenJudgmentError (''runtime.no_open_judgment:'' @ artifact))
      | Some j \<Rightarrow> Inr j)"

text \<open>A telemetry call on the state; its refusal comes after the change before it.\<close>

definition with_sink :: "('s, 'b) verification \<Rightarrow> vae_telemetry vae \<Rightarrow> 'a \<Rightarrow> ('s, 'b) verification \<times> 'a vae" where
  "with_sink V t x = (case t of Inl e \<Rightarrow> (V, Inl e) | Inr sink \<Rightarrow> (V\<lparr>vr_sink := sink\<rparr>, Inr x))"

definition vae_dispatch ::
  "'x channel \<Rightarrow> 'x \<times> ('s, 'b) verification \<Rightarrow> string \<Rightarrow> string \<Rightarrow> pyval
     \<Rightarrow> ('x \<times> ('s, 'b) verification) \<times> vae_judgment vae" where
  "vae_dispatch C xV artifact check request =
     (case xV of (x, V) \<Rightarrow>
        (case require_open V artifact of
           Inl e \<Rightarrow> ((x, V), Inl e)
         | Inr j \<Rightarrow>
             (case dispatch_delegation C x j check request of
                (x', Inl e) \<Rightarrow> ((x', V), Inl e)
              | (x', Inr j') \<Rightarrow>
                  (case with_sink (V\<lparr>vr_open := dset artifact j' (vr_open V)\<rparr>)
                      (emit_check_activity (vr_sink V) artifact check ''dispatched'' None) j' of
                     (V', res) \<Rightarrow> ((x', V'), res)))))"

definition last_result :: "vae_judgment \<Rightarrow> string vae" where
  "last_result j = (if er_items (jd_body j) = [] then Inl EmptySequence else Inr (ei_result (last (er_items (jd_body j)))))"

definition vae_resolve ::
  "'x channel \<Rightarrow> 'x \<times> ('s, 'b) verification \<Rightarrow> string \<Rightarrow> string \<Rightarrow> int
     \<Rightarrow> ('x \<times> ('s, 'b) verification) \<times> vae_judgment vae" where
  "vae_resolve C xV artifact check now =
     (case xV of (x, V) \<Rightarrow>
        (case require_open V artifact of
           Inl e \<Rightarrow> ((x, V), Inl e)
         | Inr j \<Rightarrow>
             (case dget (jd_delegations j) check of
                None \<Rightarrow> ((x, V), Inl (LookupKeyError check))
              | Some before \<Rightarrow>
                  (case resolve_delegation C x j check now of
                     (x', Inl e) \<Rightarrow> ((x', V), Inl e)
                   | (x', Inr j') \<Rightarrow>
                       let V' = V\<lparr>vr_open := dset artifact j' (vr_open V)\<rparr>;
                           after = (case dget (jd_delegations j') check of None \<Rightarrow> dg_state before | Some d \<Rightarrow> dg_state d) in
                       if after \<noteq> dg_state before \<and> delegation_terminal after then
                         (case last_result j' of
                            Inl e \<Rightarrow> ((x', V'), Inl e)
                          | Inr category \<Rightarrow>
                              (case with_sink V' (emit_check_activity (vr_sink V') artifact check
                                  (if after = DResulted then ''resulted'' else ''expired'') (Some category)) j' of
                                 (V'', res) \<Rightarrow> ((x', V''), res)))
                       else ((x', V'), Inr j')))))"

definition vae_run_static ::
  "('s, 'b) verification \<Rightarrow> string \<Rightarrow> string \<Rightarrow> pyval \<Rightarrow> ('s, 'b) verification \<times> vae_judgment vae" where
  "vae_run_static V artifact check metadata =
     (case require_open V artifact of
        Inl e \<Rightarrow> (V, Inl e)
      | Inr j \<Rightarrow>
          (case run_static_check (vr_registry V) j check metadata of
             Inl e \<Rightarrow> (V, Inl e)
           | Inr j' \<Rightarrow>
               let V' = V\<lparr>vr_open := dset artifact j' (vr_open V)\<rparr> in
               (case last_result j' of
                  Inl e \<Rightarrow> (V', Inl e)
                | Inr category \<Rightarrow>
                    with_sink V' (emit_check_activity (vr_sink V') artifact check ''static_run'' (Some category)) j')))"

text \<open>The telemetry of an emitted verdict, from a second derivation of the same record.\<close>

definition emission_telemetry ::
  "vae_digest \<Rightarrow> derivation_policy \<Rightarrow> vae_telemetry \<Rightarrow> string \<Rightarrow> vae_judgment \<Rightarrow> vae_telemetry vae" where
  "emission_telemetry sha policy sink artifact j =
     bind_sum (derive (jd_body j) policy) (\<lambda>d.
     bind_sum (with_derivation_account (jd_body j) (account_dict d)) (\<lambda>r.
     bind_sum (emit_judgment_outcome sink artifact (jd_rules j) (PyStr (dv_verdict d)) (vae_opt (dv_cause d))
        (PyStr (dv_assurance d))) (\<lambda>sink.
     bind_sum (emit_coverage_readout sink artifact (dv_coverage d)) (\<lambda>sink.
     bind_sum (emit_agreement_records sink artifact (er_items (jd_body j))) (\<lambda>sink.
       emit_derivation_consistency sink artifact (jd_rules j) (evidence_hash sha r) (PyStr (dv_verdict d))
         (PyStr (dv_assurance d)))))))"

definition try_close_and_emit ::
  "vae_digest \<Rightarrow> 's blob_writer \<Rightarrow> 'b publisher \<Rightarrow> ('s, 'b) verification \<Rightarrow> string
     \<Rightarrow> ('s, 'b) verification \<times> emission_result option vae" where
  "try_close_and_emit sha wr pub V artifact =
     (case dget (vr_open V) artifact of
        None \<Rightarrow> (V, Inr None)
      | Some j \<Rightarrow>
          if \<not> is_closed j then (V, Inr None)
          else (case close_judgment j of
            Inl e \<Rightarrow> (V, Inl e)
          | Inr closed \<Rightarrow>
              (case emit_verdict sha wr pub (vr_policy V) (vr_storage V, vr_bus V, vr_intake V) closed of
                 ((s, b, i), res) \<Rightarrow>
                   let V' = V\<lparr>vr_storage := s, vr_bus := b, vr_intake := i\<rparr> in
                   (case res of
                      Inl e \<Rightarrow> (V', Inl e)
                    | Inr em \<Rightarrow>
                        (case (if em_outcome em = Emitted then emission_telemetry sha (vr_policy V) (vr_sink V) artifact closed
                               else Inr (vr_sink V)) of
                           Inl e \<Rightarrow> (V', Inl e)
                         | Inr sink \<Rightarrow> (V'\<lparr>vr_sink := sink, vr_open := ddel artifact (vr_open V)\<rparr>, Inr (Some em)))))))"

text \<open>Replay reads storage by key and re-derives; it changes nothing.\<close>

definition vae_replay ::
  "vae_digest \<Rightarrow> ('s \<Rightarrow> string \<Rightarrow> store_exn + string) \<Rightarrow> ('s, 'b) verification \<Rightarrow> string \<Rightarrow> pyval
     \<Rightarrow> (evidence_record \<times> derivation) vae" where
  "vae_replay sha rd V key original =
     (case rd (vr_storage V) key of
        Inl e \<Rightarrow> Inl (VaeStorageRaised e)
      | Inr data \<Rightarrow>
          bind_sum (from_canonical data) (\<lambda>r.
            if evidence_key (evidence_hash sha r) \<noteq> key then
              Inl (ReplayMismatchError (''runtime.replay_key_mismatch:'' @ key))
            else bind_sum (derive r (vr_policy V)) (\<lambda>d.
              if json_dumps (account_dict d) \<noteq> json_dumps (case er_account r of None \<Rightarrow> PyNone | Some a \<Rightarrow> a) then
                Inl (ReplayMismatchError (''runtime.replay_account_mismatch:'' @ key))
              else bind_sum (build_verdict_envelope (evidence_hash sha r) r) (\<lambda>(name, eid, p).
                bind_sum (verdict_envelope_of name eid (er_artifact r) p) (\<lambda>env.
                  if \<not> py_eq env original then
                    Inl (ReplayMismatchError (''runtime.replay_event_mismatch:'' @ key))
                  else Inr (r, d))))))"

section \<open>The pending projection\<close>

record pending_entry =
  pe_judgment :: string
  pe_artifact :: string
  pe_rules :: int
  pe_delegations :: "(string \<times> string \<times> int) list"
  pe_static :: "string list"
  pe_items :: nat

definition pending_snapshot :: "vae_judgment \<Rightarrow> pending_entry" where
  "pending_snapshot j = \<lparr>pe_judgment = jd_id j, pe_artifact = jd_artifact j, pe_rules = jd_rules j,
     pe_delegations = sort (map (\<lambda>(check, d). (check, delegation_state_name (dg_state d), dg_deadline d)) (jd_delegations j)),
     pe_static = jd_pending j, pe_items = length (er_items (jd_body j))\<rparr>"

record projection =
  pj_intake :: intake
  pj_judgments :: "(string, vae_judgment) dict"

definition projection_get :: "projection \<Rightarrow> string \<Rightarrow> vae_judgment option" where
  "projection_get P artifact = dget (pj_judgments P) artifact"

definition projection_update :: "projection \<Rightarrow> vae_judgment \<Rightarrow> projection" where
  "projection_update P j = P\<lparr>pj_judgments := dset (jd_artifact j) j (pj_judgments P)\<rparr>"

definition close_terminal :: "projection \<Rightarrow> string \<Rightarrow> string \<Rightarrow> projection \<times> unit vae" where
  "close_terminal P artifact ref =
     (case mark_terminal (pj_intake P) artifact ref of
        (i, Inl e) \<Rightarrow> (P\<lparr>pj_intake := i\<rparr>, Inl e)
      | (i, Inr _) \<Rightarrow> (P\<lparr>pj_intake := i, pj_judgments := ddel artifact (pj_judgments P)\<rparr>, Inr ()))"

definition snapshot_all :: "projection \<Rightarrow> (string, pending_entry) dict" where
  "snapshot_all P = map (\<lambda>(a, j). (a, pending_snapshot j)) (pj_judgments P)"

definition rebuild_demand :: "rules_store \<Rightarrow> projection \<Rightarrow> demand \<Rightarrow> projection vae" where
  "rebuild_demand rules P d =
     (case receive (pj_intake P) (dm_event d) (dm_event_id d) (dm_artifact d) (dm_judgment d) of
        (i, Inl e) \<Rightarrow> Inl e
      | (i, Inr res) \<Rightarrow>
          if ir_action res \<noteq> Opened then Inr (P\<lparr>pj_intake := i\<rparr>)
          else bind_sum (judgment_for rules d) (\<lambda>j.
            Inr \<lparr>pj_intake = i, pj_judgments = dset (dm_artifact d) j (pj_judgments P)\<rparr>))"

definition rebuild ::
  "vae_digest \<Rightarrow> demand list \<Rightarrow> (string, evidence_record) dict \<Rightarrow> rules_store \<Rightarrow> projection vae" where
  "rebuild sha demands persisted rules =
     bind_sum (foldm (\<lambda>i (artifact, r).
         case mark_terminal i artifact (''storage:vae/ev/'' @ evidence_hash sha r) of
           (i', Inl e) \<Rightarrow> Inl e
         | (i', Inr _) \<Rightarrow> Inr i') new_intake persisted)
       (\<lambda>i. foldm (rebuild_demand rules) \<lparr>pj_intake = i, pj_judgments = []\<rparr> demands)"

end
