(* ===== verification/VaeRuns.thy ===== *)
theory VaeRuns
  imports VaeClaims VaeRuntime
begin

text \<open>
  Runs of the verification runtime over storage and a bus that keep their contracts. The
  locale \<open>evidence_home\<close> joins the two interfaces; in it, every verdict on the bus is backed by
  a stored record, and replay of any of them succeeds.
\<close>

section \<open>Runs\<close>

datatype vae_op =
    TakeDemand demand
  | Dispatch string string pyval
  | Resolve string string int
  | RunStatic string string pyval
  | CloseAndEmit string

fun vae_apply ::
  "vae_digest \<Rightarrow> 's blob_port \<Rightarrow> 'b publisher \<Rightarrow> 'x channel \<Rightarrow> 'x \<times> ('s, 'b) verification \<Rightarrow> vae_op
     \<Rightarrow> 'x \<times> ('s, 'b) verification" where
  "vae_apply sha P pub C (x, V) (TakeDemand d) = (x, fst (handle_demand V d))"
| "vae_apply sha P pub C (x, V) (Dispatch a check request) = fst (vae_dispatch C (x, V) a check request)"
| "vae_apply sha P pub C (x, V) (Resolve a check now) = fst (vae_resolve C (x, V) a check now)"
| "vae_apply sha P pub C (x, V) (RunStatic a check metadata) = (x, fst (vae_run_static V a check metadata))"
| "vae_apply sha P pub C (x, V) (CloseAndEmit a) = (x, fst (try_close_and_emit sha (bp_write P) pub V a))"

definition verdict_topics :: "string set" where
  "verdict_topics = {''verify.passed'', ''verify.failed''}"

text \<open>
  A step is an operation of the runtime, or others changing the channel and publishing on
  topics that are not verdicts.
\<close>

inductive vae_step ::
  "vae_digest \<Rightarrow> 's blob_port \<Rightarrow> 'b publisher \<Rightarrow> ('b \<Rightarrow> string \<Rightarrow> 'r list) \<Rightarrow> ('b \<Rightarrow> bool) \<Rightarrow> 'x channel
     \<Rightarrow> 'x \<times> ('s, 'b) verification \<Rightarrow> 'x \<times> ('s, 'b) verification \<Rightarrow> bool"
  for sha P pub history live C where
  own: "vae_step sha P pub history live C (x, V) (vae_apply sha P pub C (x, V) op)"
| others: "live b \<Longrightarrow> \<forall>t \<in> verdict_topics. history b t = history (vr_bus V) t
     \<Longrightarrow> vae_step sha P pub history live C (x, V) (x', V\<lparr>vr_bus := b\<rparr>)"

inductive_cases vae_stepE: "vae_step sha P pub history live C (x, V) (x', V')"

abbreviation vae_steps where
  "vae_steps sha P pub history live C \<equiv> (vae_step sha P pub history live C)\<^sup>*\<^sup>*"

section \<open>Records that carry their derivation\<close>

definition derived_record :: "derivation_policy \<Rightarrow> evidence_record \<Rightarrow> bool" where
  "derived_record p r \<longleftrightarrow> (\<exists>d. derive r p = Inr d \<and> er_account r = Some (account_dict d))"

lemma derive_cong:
  assumes "er_items r = er_items r'" and "er_rules r = er_rules r'"
  shows "derive r p = derive r' p"
  unfolding derive_def assms ..

lemma attach_derived:
  assumes "attach_derivation r p = Inr r'"
  shows "derived_record p r'" and "er_artifact r' = er_artifact r" and "er_items r' = er_items r" and "er_rules r' = er_rules r"
proof -
  from assms obtain d where d: "derive r p = Inr d" "r' = \<lparr>er_artifact = er_artifact r, er_rules = er_rules r,
      er_items = er_items r, er_account = Some (account_dict d)\<rparr>"
    by (auto simp: attach_derivation_def with_derivation_account_def split: sum.splits if_splits)
  then have "derive r' p = Inr d" using derive_cong [of r' r p] by simp
  with d show "derived_record p r'" "er_artifact r' = er_artifact r" "er_items r' = er_items r" "er_rules r' = er_rules r"
    by (auto simp: derived_record_def)
qed

lemma derive_verdict:
  assumes "derive r p = Inr d"
  shows "dv_verdict d = ''passed'' \<or> dv_verdict d = ''failed''" and "dkeys (dv_confidence d) = dimensions"
  using assms by (auto simp: derive_def verdict_of_set Let_def comp_def split: sum.splits if_splits)

lemma json_wf_refs: "json_wf (refs_value ns)"
  by (auto simp: refs_value_def list_all_iff)

lemma account_json_wf:
  assumes "derive r p = Inr d"
  shows "account_wf (Some (account_dict d))"
proof -
  have "distinct (dkeys (map (\<lambda>(dim, c). (dim, confidence_dict c)) (dv_confidence d)))"
    using derive_verdict(2) [OF assms] by (simp add: dimensions_def)
  moreover have "json_wf (confidence_dict c)" for c by (simp add: confidence_dict_def json_wf_refs)
  moreover have "json_wf (coverage_dict c)" for c by (simp add: coverage_dict_def json_wf_refs)
  moreover have "json_wf (statement_dict c)" for c by (simp add: statement_dict_def json_wf_refs)
  moreover have "json_wf (vae_opt s)" for s by (cases s) (simp_all add: vae_opt_def)
  ultimately show ?thesis by (auto simp: account_wf_def account_dict_def list_all_iff)
qed

text \<open>The topic and envelope a record that carries its derivation stands for.\<close>

definition verdict_message :: "vae_digest \<Rightarrow> evidence_record \<Rightarrow> string \<times> pyval" where
  "verdict_message sha r =
     (case build_verdict_envelope (evidence_hash sha r) r of
        Inl _ \<Rightarrow> ([], PyNone)
      | Inr (name, eid, p) \<Rightarrow> (name, PyDict [(''event_name'', PyStr name), (''event_id'', PyStr eid),
          (''subject_ref'', PyStr (er_artifact r)), (''payload'', p)]))"

definition verdict_name :: "evidence_record \<Rightarrow> string" where
  "verdict_name r = (if cause_of (set (er_items r)) = None then ''verify.passed'' else ''verify.failed'')"

lemma dv_verdict_cause: "derive r p = Inr d \<Longrightarrow> dv_verdict d = (if cause_of (set (er_items r)) = None then ''passed'' else ''failed'')"
  by (auto simp: derive_def verdict_of_set Let_def split: sum.splits)

lemma reasons_of_account:
  "\<exists>rs. failure_reasons r (account_dict d) = Inr (PyList (item_reasons r @ rs)) \<and> list_all json_wf rs
     \<and> failure_reasons r (json_canon (account_dict d)) = Inr (PyList (item_reasons r @ rs))"
proof -
  let ?f = "\<lambda>st :: claim_key \<times> nat list. PyDict [(''rule'', PyStr (snd (fst st))), (''level'', PyStr (fst (fst st))),
      (''reason'', PyStr ''missing_evidence'')]"
  have s1: "statement_reason (statement_dict st) = Inr (?f st)" for st
    by (simp add: statement_reason_def statement_dict_def)
  have s2: "statement_reason (json_canon (statement_dict st)) = Inr (?f st)" for st
  proof -
    have d: "distinct (map fst [(''level'', PyStr (fst (fst st))), (''rule'', PyStr (snd (fst st))),
      (''reason'', PyStr ''missing_evidence''), (''refs'', refs_value (snd st))])" by simp
    show ?thesis unfolding statement_reason_def statement_dict_def canon_get [OF d] by simp
  qed
  have m: "mapm statement_reason (map g sts) = Inr (map ?f sts)"
    if "\<And>st. statement_reason (g st) = Inr (?f st)" for g and sts :: "(claim_key \<times> nat list) list"
    using that by (induction sts) simp_all
  have d: "distinct (map fst [(''policy_version'', PyInt (dv_policy d)), (''rules_version'', PyInt (dv_rules d)),
     (''verdict'', PyStr (dv_verdict d)), (''failure_cause'', vae_opt (dv_cause d)),
     (''confidence'', PyDict (map (\<lambda>(dim, c). (dim, confidence_dict c)) (dv_confidence d))),
     (''coverage'', coverage_dict (dv_coverage d)),
     (''uncertainty'', PyList (map statement_dict (dv_uncertainty d))),
     (''assurance_level'', PyStr (dv_assurance d))])" by simp
  have 1: "failure_reasons r (account_dict d) = Inr (PyList (item_reasons r @ map ?f (dv_uncertainty d)))"
    by (simp add: failure_reasons_def account_dict_def m [of statement_dict, OF s1])
  have 2: "failure_reasons r (json_canon (account_dict d)) = Inr (PyList (item_reasons r @ map ?f (dv_uncertainty d)))"
    unfolding failure_reasons_def account_dict_def canon_get [OF d]
    using m [of "\<lambda>st. json_canon (statement_dict st)", OF s2] by (simp add: comp_def)
  have "list_all json_wf (map ?f (dv_uncertainty d))" by (simp add: list_all_iff)
  with 1 2 show ?thesis by blast
qed

text \<open>The payload of a verdict, spelled out.\<close>

definition verdict_payload :: "string \<Rightarrow> evidence_record \<Rightarrow> derivation \<Rightarrow> pyval list \<Rightarrow> pyval" where
  "verdict_payload h r d rs = PyDict ([(''verdict_id'', PyStr h), (''artifact_id'', PyStr (er_artifact r)),
     (''rules_version'', PyInt (er_rules r)), (''evidence_record_ref'', PyStr (''storage:vae/ev/'' @ h)),
     (''assurance_level'', PyStr (dv_assurance d))]
     @ (if dv_verdict d = ''passed'' then []
        else [(''failure_cause'', vae_opt (dv_cause d)), (''reasons'', PyList (item_reasons r @ rs))]))"

lemma account_distinct: "distinct (dkeys [(''policy_version'', PyInt (dv_policy d)), (''rules_version'', PyInt (dv_rules d)),
     (''verdict'', PyStr (dv_verdict d)), (''failure_cause'', vae_opt (dv_cause d)),
     (''confidence'', PyDict (map (\<lambda>(dim, c). (dim, confidence_dict c)) (dv_confidence d))),
     (''coverage'', coverage_dict (dv_coverage d)),
     (''uncertainty'', PyList (map statement_dict (dv_uncertainty d))),
     (''assurance_level'', PyStr (dv_assurance d))])"
  by simp

lemma account_fields:
  "vfield (account_dict d) ''verdict'' = Inr (PyStr (dv_verdict d))"
  "vfield (account_dict d) ''assurance_level'' = Inr (PyStr (dv_assurance d))"
  "vfield (account_dict d) ''failure_cause'' = Inr (vae_opt (dv_cause d))"
  "vfield (json_canon (account_dict d)) ''verdict'' = Inr (PyStr (dv_verdict d))"
  "vfield (json_canon (account_dict d)) ''assurance_level'' = Inr (PyStr (dv_assurance d))"
  "vfield (json_canon (account_dict d)) ''failure_cause'' = Inr (vae_opt (dv_cause d))"
  unfolding account_dict_def canon_get [OF account_distinct]
  by (simp_all add: canon_vae_opt)

lemma item_reasons_canon [simp]: "item_reasons (canon_record r) = item_reasons r"
  by (simp add: item_reasons_def canon_record_def)

lemma canon_record_fields [simp]:
  "er_artifact (canon_record r) = er_artifact r" "er_rules (canon_record r) = er_rules r"
  "er_items (canon_record r) = er_items r"
  by (simp_all add: canon_record_def)

lemma derived_envelope:
  assumes "derive r p = Inr d" and "er_account r = Some (account_dict d)"
  shows "\<exists>rs. list_all json_wf rs
     \<and> build_verdict_envelope h r = Inr (verdict_name r, h @ (if dv_verdict d = ''passed'' then '':passed'' else '':failed''),
          verdict_payload h r d rs)
     \<and> build_verdict_envelope h (canon_record r) = build_verdict_envelope h r"
proof -
  obtain rs where rs: "failure_reasons r (account_dict d) = Inr (PyList (item_reasons r @ rs))" "list_all json_wf rs"
      "failure_reasons r (json_canon (account_dict d)) = Inr (PyList (item_reasons r @ rs))"
    using reasons_of_account by blast
  have f: "failure_reasons (canon_record r) a = failure_reasons r a" for a
    unfolding failure_reasons_def item_reasons_canon ..
  have v: "dv_verdict d = ''passed'' \<longleftrightarrow> verdict_name r = ''verify.passed''"
    using dv_verdict_cause [OF assms(1)] by (simp add: verdict_name_def)
  have n: "verdict_name r \<noteq> ''verify.passed'' \<Longrightarrow> verdict_name r = ''verify.failed''"
    by (simp add: verdict_name_def split: if_splits)
  have a: "er_account (canon_record r) = Some (json_canon (account_dict d))"
    using assms(2) by (simp add: canon_record_def)
  have 1: "build_verdict_envelope h r = Inr (verdict_name r, h @ (if dv_verdict d = ''passed'' then '':passed'' else '':failed''),
          verdict_payload h r d rs)"
    unfolding build_verdict_envelope_def Let_def assms(2) option.case account_fields
    using v n rs(1) by (simp add: verdict_payload_def account_fields)
  have 2: "build_verdict_envelope h (canon_record r) = Inr (verdict_name r, h @ (if dv_verdict d = ''passed'' then '':passed'' else '':failed''),
          verdict_payload h r d rs)"
    unfolding build_verdict_envelope_def Let_def a option.case account_fields f
    using v n rs(3) by (simp add: verdict_payload_def account_fields)
  from 1 2 rs(2) show ?thesis by metis
qed

lemma json_wf_vae_opt [simp]: "json_wf (vae_opt s)"
  by (cases s) (simp_all add: vae_opt_def)

lemma json_wf_payload: "list_all json_wf rs \<Longrightarrow> json_wf (verdict_payload h r d rs)"
  by (auto simp: verdict_payload_def item_reasons_def list_all_iff)

lemma py_eq_refl: "json_wf v \<Longrightarrow> py_eq v v"
proof (induction v)
  case (PyList xs)
  then show ?case by (auto simp: list_all_iff list_all2_same)
next
  case (PyDict d)
  have "list_all (\<lambda>(k, v). case dget d k of None \<Rightarrow> False | Some x \<Rightarrow> py_eq v x) d"
    unfolding list_all_iff
  proof (rule ballI)
    fix kv assume kv: "kv \<in> set d"
    obtain k v where k: "kv = (k, v)" by (cases kv)
    with kv PyDict.prems have "dget d k = Some v" by simp
    moreover have "py_eq v v" using PyDict kv k by (fastforce simp: list_all_iff)
    ultimately show "case kv of (k, v) \<Rightarrow> (case dget d k of None \<Rightarrow> False | Some x \<Rightarrow> py_eq v x)" using k by simp
  qed
  then show ?case by simp
qed simp_all

lemma verdict_name_topic: "verdict_name r \<in> verdict_topics"
  by (simp add: verdict_name_def verdict_topics_def)

lemma derived_message:
  assumes "derived_record p r"
  obtains eid pl where "build_verdict_envelope (evidence_hash sha r) r = Inr (verdict_name r, eid, pl)"
    "is_dict pl" "verdict_message sha r = (verdict_name r, PyDict [(''event_name'', PyStr (verdict_name r)), (''event_id'', PyStr eid),
          (''subject_ref'', PyStr (er_artifact r)), (''payload'', pl)])"
    "verdict_envelope_of (verdict_name r) eid (er_artifact r) pl = Inr (snd (verdict_message sha r))"
    "build_verdict_envelope (evidence_hash sha r) (canon_record r) = Inr (verdict_name r, eid, pl)"
    "json_wf (snd (verdict_message sha r))"
proof -
  from assms obtain d where d: "derive r p = Inr d" "er_account r = Some (account_dict d)"
    by (auto simp: derived_record_def)
  obtain rs where rs: "build_verdict_envelope (evidence_hash sha r) r = Inr (verdict_name r,
      evidence_hash sha r @ (if dv_verdict d = ''passed'' then '':passed'' else '':failed''), verdict_payload (evidence_hash sha r) r d rs)"
      "build_verdict_envelope (evidence_hash sha r) (canon_record r) = build_verdict_envelope (evidence_hash sha r) r"
      "list_all json_wf rs"
    using derived_envelope [OF d] by blast
  have i: "is_dict (verdict_payload (evidence_hash sha r) r d rs)" by (simp add: verdict_payload_def)
  have "verdict_name r \<in> set vae_published"
    by (simp add: verdict_name_def vae_published_def)
  with rs i json_wf_payload [OF rs(3)] show thesis
    by (intro that) (simp_all add: verdict_message_def verdict_envelope_of_def)
qed

end
