(* ===== verification/VaeVerdicts.thy ===== *)
theory VaeVerdicts
  imports VaeRuns CommunicationLog
begin

text \<open>
  The invariant of the verification runtime over contract-keeping storage and bus, and its
  consequences. \<open>rs\<close> is the sequence of records whose verdicts were announced.
\<close>

section \<open>Open judgments\<close>

definition judgment_ok :: "string \<Rightarrow> vae_judgment \<Rightarrow> bool" where
  "judgment_ok a j \<longleftrightarrow> jd_artifact j = a \<and> er_artifact (jd_body j) = a \<and> er_account (jd_body j) = None \<and> \<not> jd_closed j"

definition opens_ok :: "('s, 'b) verification \<Rightarrow> bool" where
  "opens_ok V \<longleftrightarrow> (\<forall>a j. dget (vr_open V) a = Some j \<longrightarrow> judgment_ok a j)"

lemma opens_okD: "opens_ok V \<Longrightarrow> dget (vr_open V) a = Some j \<Longrightarrow> judgment_ok a j"
  by (simp add: opens_ok_def)

lemma require_open_Inr: "require_open V a = Inr j \<longleftrightarrow> dget (vr_open V) a = Some j"
  by (auto simp: require_open_def split: option.splits)

lemma add_evidence_ok:
  assumes "judgment_ok a j" and "add_evidence j check source result kind = Inr rec"
  shows "judgment_ok a (j\<lparr>jd_body := rec\<rparr>)"
  using assms by (auto simp: add_evidence_def judgment_ok_def append_item_def split: sum.splits)

lemma judgment_ok_update:
  "judgment_ok a (j\<lparr>jd_delegations := D\<rparr>) = judgment_ok a j"
  "judgment_ok a (j\<lparr>jd_pending := N\<rparr>) = judgment_ok a j"
  by (simp_all add: judgment_ok_def)

lemma dispatch_delegation_ok:
  "judgment_ok a j \<Longrightarrow> dispatch_delegation C x j check request = (x', Inr j') \<Longrightarrow> judgment_ok a j'"
  by (auto simp: dispatch_delegation_def judgment_ok_update split: sum.splits prod.splits)

lemma resolve_delegation_ok:
  assumes "judgment_ok a j" and "resolve_delegation C x j check now = (x', Inr j')"
  shows "judgment_ok a j'"
proof -
  from assms(2) obtain d d' where d: "require_delegation j check = Inr d" "delegation_resolve C x d now = (x', Inr d')"
    by (auto simp: resolve_delegation_def split: sum.splits prod.splits)
  let ?j = "j\<lparr>jd_delegations := dset check d' (jd_delegations j)\<rparr>"
  consider "j' = ?j"
    | result rec where "add_evidence j check (''execution:'' @ dg_key d') result ''independent'' = Inr rec" "j' = ?j\<lparr>jd_body := rec\<rparr>"
    using assms(2) d by (auto simp: resolve_delegation_def Let_def split: sum.splits if_splits)
  then show ?thesis
  proof cases
    case 1
    with assms(1) show ?thesis by (simp add: judgment_ok_update)
  next
    case 2
    from add_evidence_ok [OF assms(1) 2(1)] have "judgment_ok a (j\<lparr>jd_body := rec\<rparr>)" .
    with 2(2) show ?thesis by (simp add: judgment_ok_def)
  qed
qed

lemma run_static_check_ok:
  assumes "judgment_ok a j" and "run_static_check R j check metadata = Inr j'"
  shows "judgment_ok a j'"
proof -
  from assms(2) obtain result rec where r: "add_evidence j check (''static:'' @ check) result ''independent'' = Inr rec"
      "j' = j\<lparr>jd_body := rec, jd_pending := filter (\<lambda>n. n \<noteq> check) (jd_pending j)\<rparr>"
    by (auto simp: run_static_check_def split: sum.splits if_splits)
  from add_evidence_ok [OF assms(1) r(1)] r(2) show ?thesis by (simp add: judgment_ok_def)
qed

lemma open_judgment_ok:
  assumes "open_judgment jid a n delegated static = Inr j"
  shows "judgment_ok a j" and "er_items (jd_body j) = []" and "a \<noteq> []" and "1 \<le> n"
proof -
  from assms obtain D body where b: "build_evidence_record a n [] None = Inr body"
      "j = \<lparr>jd_id = jid, jd_artifact = a, jd_rules = n, jd_body = body, jd_delegations = D, jd_pending = dkeys static,
        jd_levels = map (\<lambda>(name, deadline, level). (name, level)) delegated @ static, jd_closed = False\<rparr>"
    by (auto simp: open_judgment_def Let_def split: if_splits sum.splits)
  from b(1) have "body = \<lparr>er_artifact = a, er_rules = n, er_items = [], er_account = None\<rparr>" "a \<noteq> []" "1 \<le> n"
    by (auto simp: build_evidence_record_def validate_binding_def split: sum.splits if_splits)
  with b(2) show "judgment_ok a j" "er_items (jd_body j) = []" "a \<noteq> []" "1 \<le> n" by (simp_all add: judgment_ok_def)
qed

lemma judgment_for_ok: "judgment_for rules d = Inr j \<Longrightarrow> judgment_ok (dm_artifact d) j"
  by (auto simp: judgment_for_def split: sum.splits dest: open_judgment_ok(1))

section \<open>Operations that announce nothing\<close>

definition keeps_verdicts :: "('s, 'b) verification \<Rightarrow> ('s, 'b) verification \<Rightarrow> bool" where
  "keeps_verdicts V V' \<longleftrightarrow> vr_storage V' = vr_storage V \<and> vr_bus V' = vr_bus V \<and> vr_policy V' = vr_policy V
     \<and> in_terminal (vr_intake V') = in_terminal (vr_intake V) \<and> (opens_ok V \<longrightarrow> opens_ok V')"

lemma quiet_refl [simp]: "keeps_verdicts V V"
  by (simp add: keeps_verdicts_def)

lemma quiet_sink: "keeps_verdicts V V' \<Longrightarrow> keeps_verdicts V (V'\<lparr>vr_sink := t\<rparr>)"
  by (simp add: keeps_verdicts_def opens_ok_def)

lemma quiet_set:
  "(opens_ok V \<Longrightarrow> judgment_ok a j) \<Longrightarrow> keeps_verdicts V (V\<lparr>vr_open := dset a j (vr_open V)\<rparr>)"
  by (auto simp: keeps_verdicts_def opens_ok_def dict_simps)

lemma quiet_with_sink: "keeps_verdicts V V' \<Longrightarrow> keeps_verdicts V (fst (with_sink V' t x))"
  by (auto simp: with_sink_def quiet_sink split: sum.splits)

lemma quiet_with_sinkD: "with_sink V' t x = (V'', res) \<Longrightarrow> keeps_verdicts V V' \<Longrightarrow> keeps_verdicts V V''"
  using quiet_with_sink [of V V' t x] by simp

lemma receive_terminal: "receive i name eid a jid = (i', res) \<Longrightarrow> in_terminal i' = in_terminal i"
  by (auto simp: receive_def Let_def split: sum.splits if_splits option.splits)

lemma quiet_demand: "keeps_verdicts V (fst (handle_demand V d))"
proof -
  obtain i res where r: "receive (vr_intake V) (dm_event d) (dm_event_id d) (dm_artifact d) (dm_judgment d) = (i, res)"
    by (cases "receive (vr_intake V) (dm_event d) (dm_event_id d) (dm_artifact d) (dm_judgment d)")
  note t = receive_terminal [OF r]
  have q: "keeps_verdicts V (V\<lparr>vr_intake := i\<rparr>)" using t by (simp add: keeps_verdicts_def opens_ok_def)
  have "keeps_verdicts V (V\<lparr>vr_intake := i, vr_open := dset (dm_artifact d) j (vr_open V)\<rparr>)"
    if "judgment_for (vr_rules V) d = Inr j" for j
    using t judgment_for_ok [OF that] by (auto simp: keeps_verdicts_def opens_ok_def dict_simps)
  with q show ?thesis
    by (auto simp: handle_demand_def r split: sum.splits if_splits)
qed

lemma quiet_dispatch:
  assumes "vae_dispatch C (x, V) a check request = ((x', V'), res)"
  shows "keeps_verdicts V V'"
proof (cases "require_open V a")
  case (Inl e)
  with assms show ?thesis by (simp add: vae_dispatch_def)
next
  case (Inr j)
  obtain x1 r where d: "dispatch_delegation C x j check request = (x1, r)"
    by (cases "dispatch_delegation C x j check request")
  show ?thesis
  proof (cases r)
    case Inl
    with assms Inr d show ?thesis by (simp add: vae_dispatch_def)
  next
    case r: (Inr j')
    have "keeps_verdicts V (V\<lparr>vr_open := dset a j' (vr_open V)\<rparr>)"
      using Inr d r by (intro quiet_set) (auto simp: require_open_Inr dest: opens_okD dispatch_delegation_ok)
    with assms Inr d r show ?thesis
      by (auto simp: vae_dispatch_def split: prod.splits elim: quiet_with_sinkD)
  qed
qed

lemma quiet_resolve:
  assumes "vae_resolve C (x, V) a check now = ((x', V'), res)"
  shows "keeps_verdicts V V'"
proof (cases "require_open V a")
  case (Inl e)
  with assms show ?thesis by (simp add: vae_resolve_def)
next
  case (Inr j)
  show ?thesis
  proof (cases "dget (jd_delegations j) check")
    case None
    with assms Inr show ?thesis by (simp add: vae_resolve_def)
  next
    case (Some before)
    obtain x1 r where d: "resolve_delegation C x j check now = (x1, r)"
      by (cases "resolve_delegation C x j check now")
    show ?thesis
    proof (cases r)
      case Inl
      with assms Inr Some d show ?thesis by (simp add: vae_resolve_def)
    next
      case r: (Inr j')
      have q: "keeps_verdicts V (V\<lparr>vr_open := dset a j' (vr_open V)\<rparr>)"
        using Inr d r by (intro quiet_set) (auto simp: require_open_Inr dest: opens_okD resolve_delegation_ok)
      from assms Inr Some d r q show ?thesis
        by (auto simp: vae_resolve_def Let_def split: if_splits sum.splits prod.splits elim: quiet_with_sinkD)
    qed
  qed
qed

lemma quiet_static: "keeps_verdicts V (fst (vae_run_static V a check metadata))"
proof (cases "require_open V a")
  case (Inl e)
  then show ?thesis by (simp add: vae_run_static_def)
next
  case (Inr j)
  show ?thesis
  proof (cases "run_static_check (vr_registry V) j check metadata")
    case Inl
    with Inr show ?thesis by (simp add: vae_run_static_def)
  next
    case r: (Inr j')
    have q: "keeps_verdicts V (V\<lparr>vr_open := dset a j' (vr_open V)\<rparr>)"
      using Inr r by (intro quiet_set) (auto simp: require_open_Inr dest: opens_okD run_static_check_ok)
    with Inr r show ?thesis
      by (auto simp: vae_run_static_def Let_def split: sum.splits intro: quiet_with_sink)
  qed
qed

section \<open>What an emission does\<close>

lemma mark_terminal_fresh:
  "dget (in_terminal i) a = None \<Longrightarrow> mark_terminal i a ref
     = (i\<lparr>in_terminal := in_terminal i @ [(a, ref)], in_open := ddel a (in_open i)\<rparr>, Inr ())"
  by (simp add: mark_terminal_def dset_fresh)

lemma emit_vae_event_cases:
  "emit_vae_event pub b name eid subject pl = (b', res) \<Longrightarrow> b' = b \<or> (\<exists>env ok. pub b name env = (b', ok))"
  by (auto simp: emit_vae_event_def split: sum.splits prod.splits)

lemma publish_rejection_cases:
  assumes "publish_rejection pub (s, b, i) j h = ((s', b', i'), res)"
  shows "s' = s \<and> i' = i \<and> (b' = b \<or> (\<exists>env ok. pub b ''fault.recorded'' env = (b', ok)))
    \<and> (\<forall>em. res = Inr em \<longrightarrow> em_outcome em = Rejected)"
  using assms
  by (auto simp: publish_rejection_def split: sum.splits prod.splits dest!: emit_vae_event_cases)

lemma emit_verdict_cases:
  assumes "emit_verdict sha wr pub p (s, b, i) j = ((s', b', i'), res)"
    and "er_artifact (jd_body j) = jd_artifact j"
  obtains
    (idle) e where "s' = s" "b' = b" "i' = i" "res = Inl e"
  | (unannounced) r x t env ok where "attach_derivation (jd_body j) p = Inr r"
      "wr s (evidence_key (evidence_hash sha r)) (evidence_canonical r) = (s', x)" "i' = i"
      "b' = b \<or> pub b t env = (b', ok) \<and> (t \<notin> verdict_topics \<or> \<not> ok)"
      "\<forall>em. res = Inr em \<longrightarrow> em_outcome em = Rejected"
  | (announced) r where "attach_derivation (jd_body j) p = Inr r"
      "wr s (evidence_key (evidence_hash sha r)) (evidence_canonical r) = (s', Inr ''committed'')"
      "pub b (fst (verdict_message sha r)) (snd (verdict_message sha r)) = (b', True)"
      "dget (in_terminal i) (jd_artifact j) = None"
      "i' = i\<lparr>in_terminal := in_terminal i @ [(jd_artifact j, ''storage:vae/ev/'' @ evidence_hash sha r)],
              in_open := ddel (jd_artifact j) (in_open i)\<rparr>"
      "res = Inr \<lparr>em_outcome = Emitted, em_artifact = jd_artifact j, em_key = evidence_key (evidence_hash sha r),
         em_event = snd (verdict_message sha r), em_ref = Some (''storage:vae/ev/'' @ evidence_hash sha r),
         em_verdict = py_get (case er_account r of None \<Rightarrow> PyNone | Some a \<Rightarrow> a) ''verdict'' PyNone\<rparr>"
proof (cases "jd_closed j \<and> dget (in_terminal i) (jd_artifact j) = None")
  case False
  with assms(1) have "s' = s \<and> b' = b \<and> i' = i \<and> (\<exists>e. res = Inl e)"
    by (auto simp: emit_verdict_def terminal_verdict_def split: if_splits)
  with idle show thesis by blast
next
  case fresh: True
  show thesis
  proof (cases "attach_derivation (jd_body j) p")
    case (Inl e)
    with fresh assms(1) have "s' = s \<and> b' = b \<and> i' = i \<and> (\<exists>e. res = Inl e)"
      by (auto simp: emit_verdict_def terminal_verdict_def)
    with idle show thesis by blast
  next
    case (Inr r)
    let ?h = "evidence_hash sha r"
    obtain s1 x where w: "wr s (evidence_key ?h) (evidence_canonical r) = (s1, x)"
      by (cases "wr s (evidence_key ?h) (evidence_canonical r)")
    have dr: "derived_record p r" and ar: "er_artifact r = jd_artifact j"
      using attach_derived [OF Inr] assms(2) by simp_all
    obtain eid pl where msg: "build_verdict_envelope ?h r = Inr (verdict_name r, eid, pl)"
        "verdict_envelope_of (verdict_name r) eid (jd_artifact j) pl = Inr (snd (verdict_message sha r))"
        "fst (verdict_message sha r) = verdict_name r"
      using derived_message [OF dr, of sha] ar by (metis fst_conv)
    show thesis
    proof (cases x)
      case (Inl e)
      with fresh assms(1) Inr w show thesis
        by (intro unannounced [of r x]) (auto simp: emit_verdict_def terminal_verdict_def Let_def)
    next
      case x: (Inr outcome)
      consider "outcome = ''rejected''" | "outcome = ''committed''" | "outcome \<noteq> ''rejected''" "outcome \<noteq> ''committed''"
        by blast
      then show thesis
      proof cases
        case 1
        have ft: "''fault.recorded'' \<notin> verdict_topics" by (simp add: verdict_topics_def)
        from fresh assms(1) Inr w x 1 have "publish_rejection pub (s1, b, i) j ?h = ((s', b', i'), res)"
          by (simp add: emit_verdict_def terminal_verdict_def Let_def)
        then have pr: "s' = s1 \<and> i' = i \<and> (b' = b \<or> (\<exists>env ok. pub b ''fault.recorded'' env = (b', ok)))
            \<and> (\<forall>em. res = Inr em \<longrightarrow> em_outcome em = Rejected)" by (rule publish_rejection_cases)
        obtain env ok where "s1 = s'" "i' = i" "pub b ''fault.recorded'' env = (b', ok) \<or> b' = b"
            "\<forall>em. res = Inr em \<longrightarrow> em_outcome em = Rejected" using pr by blast
        with ft w Inr show thesis by (intro unannounced [of r x "''fault.recorded''" env ok]) auto
      next
        case 2
        obtain b1 ok where pb: "pub b (verdict_name r) (snd (verdict_message sha r)) = (b1, ok)"
          by (cases "pub b (verdict_name r) (snd (verdict_message sha r))")
        from fresh assms(1) Inr w x 2 have "publish_verdict pub (s1, b, i) j ?h r = ((s', b', i'), res)"
          by (simp add: emit_verdict_def terminal_verdict_def Let_def)
        then have pv: "(case (if ok then Inr (snd (verdict_message sha r)) else Inl VaeBusDown) of
            Inl e \<Rightarrow> ((s1, b1, i), Inl e)
          | Inr env \<Rightarrow> (case mark_terminal i (jd_artifact j) (''storage:vae/ev/'' @ ?h) of
                     (i', Inl e) \<Rightarrow> ((s1, b1, i'), Inl e)
                   | (i', Inr _) \<Rightarrow> ((s1, b1, i'), Inr \<lparr>em_outcome = Emitted, em_artifact = jd_artifact j,
                       em_key = evidence_key ?h, em_event = env, em_ref = Some (''storage:vae/ev/'' @ ?h),
                       em_verdict = py_get (case er_account r of None \<Rightarrow> PyNone | Some a \<Rightarrow> a) ''verdict'' PyNone\<rparr>)))
          = ((s', b', i'), res)"
          by (simp add: publish_verdict_def msg emit_vae_event_def pb split: if_splits)
        show thesis
        proof (cases ok)
          case False
          with pv have "s1 = s'" "b1 = b'" "i' = i" "res = Inl VaeBusDown" by auto
          with w Inr pb False show thesis by (intro unannounced [of r x]) auto
        next
          case True
          with pv fresh have "s1 = s'" "b1 = b'"
            "i' = i\<lparr>in_terminal := in_terminal i @ [(jd_artifact j, ''storage:vae/ev/'' @ ?h)], in_open := ddel (jd_artifact j) (in_open i)\<rparr>"
            "res = Inr \<lparr>em_outcome = Emitted, em_artifact = jd_artifact j, em_key = evidence_key ?h,
               em_event = snd (verdict_message sha r), em_ref = Some (''storage:vae/ev/'' @ ?h),
               em_verdict = py_get (case er_account r of None \<Rightarrow> PyNone | Some a \<Rightarrow> a) ''verdict'' PyNone\<rparr>"
            by (simp_all add: mark_terminal_fresh)
          with w Inr pb True x 2 msg(3) fresh show thesis by (intro announced [of r]) simp_all
        qed
      next
        case 3
        with fresh assms(1) Inr w x show thesis
          by (intro unannounced [of r x]) (auto simp: emit_verdict_def terminal_verdict_def Let_def)
      qed
    qed
  qed
qed

lemma close_cases:
  assumes "try_close_and_emit sha wr pub V a = (V', res)" and "opens_ok V"
  obtains (same) "V' = V"
  | (emission) j s b i r where "dget (vr_open V) a = Some j" "is_closed j" "judgment_ok a j"
      "emit_verdict sha wr pub (vr_policy V) (vr_storage V, vr_bus V, vr_intake V) (j\<lparr>jd_closed := True\<rparr>) = ((s, b, i), r)"
      "vr_storage V' = s" "vr_bus V' = b" "vr_intake V' = i" "vr_policy V' = vr_policy V" "vr_rules V' = vr_rules V"
      "vr_open V' = (if \<exists>em. res = Inr (Some em) then ddel a (vr_open V) else vr_open V)"
      "\<forall>em. res = Inr (Some em) \<longrightarrow> r = Inr em"
proof (cases "dget (vr_open V) a")
  case None
  with assms(1) same show thesis by (simp add: try_close_and_emit_def)
next
  case (Some j)
  with assms(2) have ok: "judgment_ok a j" by (rule opens_okD)
  show thesis
  proof (cases "is_closed j")
    case False
    with Some assms(1) same show thesis by (simp add: try_close_and_emit_def)
  next
    case True
    with ok have c: "close_judgment j = Inr (j\<lparr>jd_closed := True\<rparr>)" by (simp add: close_judgment_def judgment_ok_def)
    obtain s b i r where e: "emit_verdict sha wr pub (vr_policy V) (vr_storage V, vr_bus V, vr_intake V) (j\<lparr>jd_closed := True\<rparr>) = ((s, b, i), r)"
      by (cases "emit_verdict sha wr pub (vr_policy V) (vr_storage V, vr_bus V, vr_intake V) (j\<lparr>jd_closed := True\<rparr>)") (metis prod.exhaust)
    let ?V = "V\<lparr>vr_storage := s, vr_bus := b, vr_intake := i\<rparr>"
    let ?t = "\<lambda>em. if em_outcome em = Emitted then emission_telemetry sha (vr_policy V) (vr_sink V) a (j\<lparr>jd_closed := True\<rparr>) else Inr (vr_sink V)"
    from assms(1) Some True c e
    have v: "(case r of Inl e \<Rightarrow> (?V, Inl e)
        | Inr em \<Rightarrow> (case ?t em of Inl e \<Rightarrow> (?V, Inl e)
            | Inr sink \<Rightarrow> (?V\<lparr>vr_sink := sink, vr_open := ddel a (vr_open V)\<rparr>, Inr (Some em)))) = (V', res)"
      by (simp add: try_close_and_emit_def Let_def)
    show thesis
    proof (cases r)
      case (Inl x)
      with v show thesis by (intro emission [OF Some True ok e]) auto
    next
      case (Inr em)
      with v show thesis by (cases "?t em") (auto intro!: emission [OF Some True ok e])
    qed
  qed
qed

section \<open>Backed verdicts\<close>

definition record_ref :: "vae_digest \<Rightarrow> evidence_record \<Rightarrow> string" where
  "record_ref sha r = ''storage:vae/ev/'' @ evidence_hash sha r"

text \<open>
  The verdict topics hold exactly the messages of the records \<open>rs\<close>, one artifact each; every
  one of them carries its derivation and is stored under its digest; the intake knows exactly
  these verdicts.
\<close>

definition backed ::
  "vae_digest \<Rightarrow> derivation_policy \<Rightarrow> 's blob_port \<Rightarrow> ('b \<Rightarrow> string \<Rightarrow> 'r list) \<Rightarrow> (pyval \<Rightarrow> 'r)
     \<Rightarrow> ('s, 'b) verification \<Rightarrow> evidence_record list \<Rightarrow> bool" where
  "backed sha p P history render V rs \<longleftrightarrow>
     (\<forall>t \<in> verdict_topics. history (vr_bus V) t
        = map (\<lambda>r. render (snd (verdict_message sha r))) (filter (\<lambda>r. verdict_name r = t) rs))
     \<and> distinct (map er_artifact rs)
     \<and> (\<forall>r \<in> set rs. derived_record p r
          \<and> blob_at P (vr_storage V) (evidence_key (evidence_hash sha r)) = Some (evidence_canonical r))
     \<and> in_terminal (vr_intake V) = map (\<lambda>r. (er_artifact r, record_ref sha r)) rs"

locale evidence_home = store: blobs P plain good + wire: bus_port pub history render live
  for P :: "'s blob_port" and plain :: "string \<Rightarrow> bool" and good :: "'s \<Rightarrow> bool"
    and pub :: "'b publisher" and history :: "'b \<Rightarrow> string \<Rightarrow> 'r list" and render :: "pyval \<Rightarrow> 'r" and live :: "'b \<Rightarrow> bool"
begin

definition vinv :: "vae_digest \<Rightarrow> derivation_policy \<Rightarrow> ('s, 'b) verification \<Rightarrow> evidence_record list \<Rightarrow> bool" where
  "vinv sha p V rs \<longleftrightarrow> good (vr_storage V) \<and> live (vr_bus V) \<and> vr_policy V = p \<and> opens_ok V
     \<and> backed sha p P history render V rs"

lemma backed_quiet: "keeps_verdicts V V' \<Longrightarrow> backed sha p P history render V' rs = backed sha p P history render V rs"
  by (simp add: keeps_verdicts_def backed_def)

lemma vinv_quiet: "keeps_verdicts V V' \<Longrightarrow> vinv sha p V rs \<Longrightarrow> vinv sha p V' rs"
  unfolding vinv_def using backed_quiet [of V V' sha p rs] by (simp add: keeps_verdicts_def)

lemma write_keeps_record:
  assumes "inj sha" and "\<forall>t. plain (evidence_key (sha t))" and "good s"
    and "bp_write P s (evidence_key (evidence_hash sha r)) (evidence_canonical r) = (s', x)"
    and "blob_at P s (evidence_key (evidence_hash sha r0)) = Some (evidence_canonical r0)"
  shows "blob_at P s' (evidence_key (evidence_hash sha r0)) = Some (evidence_canonical r0)" and "good s'"
proof -
  let ?k = "\<lambda>r. evidence_key (evidence_hash sha r)"
  have pl: "plain (?k r)" for r using assms(2) by (simp add: evidence_hash_def)
  have same: "?k r0 = ?k r \<Longrightarrow> evidence_canonical r0 = evidence_canonical r"
    using assms(1) by (auto simp: evidence_key_def evidence_hash_def dest: injD)
  show "good s'" by (rule store.write_good [OF assms(3) pl assms(4)])
  show "blob_at P s' (?k r0) = Some (evidence_canonical r0)"
  proof (cases x)
    case (Inl e)
    then show ?thesis using store.write_raised [OF assms(3) pl _ pl] assms(4,5) by auto
  next
    case (Inr y)
    then have "blob_at P s' (?k r0) = (if ?k r0 = ?k r then Some (evidence_canonical r) else blob_at P s (?k r0))"
      using store.write_ok [OF assms(3) pl _ pl] assms(4) by blast
    with same assms(5) show ?thesis by auto
  qed
qed

lemma history_same:
  assumes "live b" and "b' = b \<or> pub b t m = (b', ok) \<and> (t \<notin> verdict_topics \<or> \<not> ok)"
  shows "live b'" and "u \<in> verdict_topics \<Longrightarrow> history b' u = history b u"
  using assms wire.pub_live [OF assms(1), of t m] wire.history_pub [OF assms(1), of t m u] by auto

lemma opens_ddel: "opens_ok V \<Longrightarrow> vr_open V' = vr_open V \<or> vr_open V' = ddel a (vr_open V) \<Longrightarrow> opens_ok V'"
  by (auto simp: opens_ok_def dict_simps split: if_splits)

lemma vinv_close:
  assumes sha: "inj sha" "\<forall>t. plain (evidence_key (sha t))"
    and inv: "vinv sha p V rs" and c: "try_close_and_emit sha (bp_write P) pub V a = (V', res)"
  shows "\<exists>rs'. vinv sha p V' (rs @ rs')"
proof -
  have ok: "opens_ok V" using inv by (simp add: vinv_def)
  from c ok show ?thesis
  proof (cases rule: close_cases)
    case same
    with inv show ?thesis by (intro exI [of _ "[]"]) simp
  next
    case (emission j s b i r)
    have op: "opens_ok V'" using opens_ddel [OF ok] emission(10) by (auto split: if_splits)
    have art: "er_artifact (jd_body (j\<lparr>jd_closed := True\<rparr>)) = jd_artifact (j\<lparr>jd_closed := True\<rparr>)"
      using emission(3) by (simp add: judgment_ok_def)
    have gl: "good (vr_storage V)" "live (vr_bus V)" "vr_policy V = p" using inv by (simp_all add: vinv_def)
    have bk: "backed sha p P history render V rs" using inv by (simp add: vinv_def)
    from emission(4) art show ?thesis
    proof (cases rule: emit_verdict_cases)
      case (idle e)
      with emission op gl bk show ?thesis
        by (intro exI [of _ "[]"]) (simp add: vinv_def backed_def)
    next
      case (unannounced r0 x t env k)
      note h = history_same [OF gl(2) unannounced(4)]
      note w = write_keeps_record [OF sha gl(1) unannounced(2)]
      have "good s" using store.write_good [OF gl(1) _ unannounced(2)] sha(2) by (simp add: evidence_hash_def)
      with emission op gl bk h w unannounced(3) show ?thesis
        by (intro exI [of _ "[]"]) (simp add: vinv_def backed_def)
    next
      case (announced r0)
      let ?n = "verdict_name r0"
      note w = write_keeps_record [OF sha gl(1) announced(2)]
      have pl: "plain (evidence_key (evidence_hash sha r0))" using sha(2) by (simp add: evidence_hash_def)
      have dr: "derived_record p r0" and ar: "er_artifact r0 = a"
        using attach_derived [OF announced(1)] gl(3) emission(3) by (simp_all add: judgment_ok_def)
      have aj: "jd_artifact j = a" using emission(3) by (simp add: judgment_ok_def)
      have nm: "fst (verdict_message sha r0) = ?n" using derived_message [OF dr, of sha] by (metis fst_conv)
      have fresh: "a \<notin> er_artifact ` set rs"
        using announced(4) bk aj by (auto simp: backed_def map_of_eq_None_iff image_image)
      have hist: "history b t = history (vr_bus V) t @ (if t = ?n then [render (snd (verdict_message sha r0))] else [])" for t
        using wire.history_pub [OF gl(2), of ?n "snd (verdict_message sha r0)" t] announced(3) nm by simp
      have lv: "live b" using wire.pub_live [OF gl(2)] announced(3) by (metis fst_conv)
      have gs: "good s" by (rule store.write_good [OF gl(1) pl announced(2)])
      have bl: "blob_at P s (evidence_key (evidence_hash sha r0)) = Some (evidence_canonical r0)"
        using store.write_ok [OF gl(1) pl announced(2) pl] by simp
      have "backed sha p P history render V' (rs @ [r0])"
        unfolding backed_def
      proof (intro conjI ballI)
        fix t assume "t \<in> verdict_topics"
        with bk hist emission(6)
        show "history (vr_bus V') t = map (\<lambda>r. render (snd (verdict_message sha r))) (filter (\<lambda>r. verdict_name r = t) (rs @ [r0]))"
          by (simp add: backed_def)
      next
        show "distinct (map er_artifact (rs @ [r0]))" using bk fresh ar by (simp add: backed_def)
      next
        fix r1 assume "r1 \<in> set (rs @ [r0])"
        then show "derived_record p r1" "blob_at P (vr_storage V') (evidence_key (evidence_hash sha r1)) = Some (evidence_canonical r1)"
          using bk w(1) bl dr emission(5) by (auto simp: backed_def)
      next
        show "in_terminal (vr_intake V') = map (\<lambda>r. (er_artifact r, record_ref sha r)) (rs @ [r0])"
          using bk announced(5) ar aj emission(7) by (simp add: backed_def record_ref_def)
      qed
      with emission gl op lv gs show ?thesis by (intro exI [of _ "[r0]"]) (simp add: vinv_def)
    qed
  qed
qed

lemma vinv_apply:
  assumes "inj sha" "\<forall>t. plain (evidence_key (sha t))" and "vinv sha p V rs"
  shows "\<exists>rs'. vinv sha p (snd (vae_apply sha P pub C (x, V) op)) (rs @ rs')"
proof -
  have q: "\<exists>rs'. vinv sha p V' (rs @ rs')" if "keeps_verdicts V V'" for V'
    using vinv_quiet [OF that assms(3)] by (intro exI [of _ "[]"]) simp
  show ?thesis
  proof (cases op)
    case (TakeDemand d)
    then show ?thesis using q [OF quiet_demand] by simp
  next
    case (Dispatch a check request)
    obtain x' V' res where d: "vae_dispatch C (x, V) a check request = ((x', V'), res)" by (metis prod.exhaust)
    then show ?thesis using q [OF quiet_dispatch [OF d]] Dispatch by simp
  next
    case (Resolve a check now)
    obtain x' V' res where d: "vae_resolve C (x, V) a check now = ((x', V'), res)" by (metis prod.exhaust)
    then show ?thesis using q [OF quiet_resolve [OF d]] Resolve by simp
  next
    case (RunStatic a check metadata)
    then show ?thesis using q [OF quiet_static] by simp
  next
    case (CloseAndEmit a)
    obtain V' res where "try_close_and_emit sha (bp_write P) pub V a = (V', res)" by fastforce
    with vinv_close [OF assms this] CloseAndEmit show ?thesis by simp
  qed
qed

lemma vinv_step:
  assumes sha: "inj sha" "\<forall>t. plain (evidence_key (sha t))"
    and st: "vae_step sha P pub history live C (x, V) (x', V')" and inv: "vinv sha p V rs"
  shows "\<exists>rs'. vinv sha p V' (rs @ rs')"
  using st
proof (cases rule: vae_step.cases)
  case (own op)
  then have "vae_apply sha P pub C (x, V) op = (x', V')" by simp
  with vinv_apply [OF sha inv, of C x op] show ?thesis by simp
next
  case (others b)
  with inv show ?thesis
    by (intro exI [of _ "[]"]) (auto simp: vinv_def backed_def opens_ok_def)
qed

lemma vinv_steps:
  assumes sha: "inj sha" "\<forall>t. plain (evidence_key (sha t))"
    and "vae_steps sha P pub history live C xV xV'" and "vinv sha p (snd xV) rs"
  shows "\<exists>rs'. vinv sha p (snd xV') (rs @ rs')"
  using assms(3)
proof (induction rule: rtranclp_induct)
  case base
  show ?case using assms(4) by (intro exI [of _ "[]"]) simp
next
  case (step y z)
  then obtain rs1 where 1: "vinv sha p (snd y) (rs @ rs1)" by blast
  from step(2) have "vae_step sha P pub history live C (fst y, snd y) (fst z, snd z)" by simp
  from vinv_step [OF sha this 1] obtain rs2 where "vinv sha p (snd z) ((rs @ rs1) @ rs2)" by blast
  then show ?case by (intro exI [of _ "rs1 @ rs2"]) simp
qed

lemma vinv_fresh:
  assumes "good s" and "live b" and "\<forall>t \<in> verdict_topics. history b t = []"
  shows "vinv sha p (new_verification p rules registry s b) []"
  using assms by (simp add: vinv_def backed_def new_verification_def opens_ok_def new_intake_def)

text \<open>Replay of a backed verdict reproduces it.\<close>

lemma backed_replay:
  assumes "vinv sha p V rs" and "r \<in> set rs"
  shows "\<exists>d. derive r p = Inr d \<and> vae_replay sha (bp_read P) V (evidence_key (evidence_hash sha r)) (snd (verdict_message sha r))
      = Inr (canon_record r, d)"
proof -
  from assms have dr: "derived_record p r" and bl: "bp_read P (vr_storage V) (evidence_key (evidence_hash sha r)) = Inr (evidence_canonical r)"
    by (auto simp: vinv_def backed_def store.read_blob_at)
  have pol: "vr_policy V = p" using assms(1) by (simp add: vinv_def)
  from dr obtain d where d: "derive r p = Inr d" "er_account r = Some (account_dict d)" by (auto simp: derived_record_def)
  have rt: "from_canonical (evidence_canonical r) = Inr (canon_record r)"
    by (rule evidence_round_trip) (use account_json_wf [OF d(1)] d(2) in simp)
  have dc: "derive (canon_record r) p = Inr d" using derive_cong [of "canon_record r" r p] d(1) by simp
  have ac: "er_account (canon_record r) = Some (json_canon (account_dict d))" using d(2) by (simp add: canon_record_def)
  obtain eid pl where m: "is_dict pl"
      "verdict_message sha r = (verdict_name r, PyDict [(''event_name'', PyStr (verdict_name r)), (''event_id'', PyStr eid),
          (''subject_ref'', PyStr (er_artifact r)), (''payload'', pl)])"
      "verdict_envelope_of (verdict_name r) eid (er_artifact r) pl = Inr (snd (verdict_message sha r))"
      "build_verdict_envelope (evidence_hash sha r) (canon_record r) = Inr (verdict_name r, eid, pl)"
      "py_eq (snd (verdict_message sha r)) (snd (verdict_message sha r))"
    using derived_message [OF dr, of sha] py_eq_refl by metis
  have "vae_replay sha (bp_read P) V (evidence_key (evidence_hash sha r)) (snd (verdict_message sha r)) = Inr (canon_record r, d)"
    using bl pol m
    by (simp add: vae_replay_def rt hash_canon dc ac json_dumps_canon del: py_eq.simps)
  with d(1) show ?thesis by blast
qed

end

end
