(* ===== verification/VaeJudged.thy ===== *)
theory VaeJudged
  imports VaeVerdicts
begin

text \<open>
  What a judgment collects. A step is one operation of \<open>judgment.py\<close> that returns; in every
  judgment reached from an opened one, a check that is settled has exactly one independent
  item and an unsettled one has none. And a judgment whose delegations were all dispatched
  closes once their deadlines have passed.
\<close>

inductive judgment_step :: "'x channel \<Rightarrow> check_registry \<Rightarrow> vae_judgment \<Rightarrow> vae_judgment \<Rightarrow> bool"
  for C R where
  dispatched: "dispatch_delegation C x j check request = (x', Inr j') \<Longrightarrow> judgment_step C R j j'"
| resolved: "resolve_delegation C x j check now = (x', Inr j') \<Longrightarrow> judgment_step C R j j'"
| late: "record_late_result C x j check now = (x', Inr j') \<Longrightarrow> judgment_step C R j j'"
| ran: "run_static_check R j check metadata = Inr j' \<Longrightarrow> judgment_step C R j j'"
| closed: "close_judgment j = Inr j' \<Longrightarrow> judgment_step C R j j'"

text \<open>What the channel documents: a result names its outcome.\<close>

definition answers :: "'x channel \<Rightarrow> bool" where
  "answers C \<longleftrightarrow> (\<forall>x k now x' r. ch_poll C x k now = (x', r) \<longrightarrow> r = PyNone \<or> (\<exists>c s. vfield r ''outcome'' = Inr (PyStr (c # s))))"

definition check_items :: "evidence_record \<Rightarrow> string \<Rightarrow> evidence_item list" where
  "check_items r check = filter (\<lambda>it. ei_rule it = ''rule.'' @ check \<and> ei_kind it = ''independent'') (er_items r)"

definition settled_in :: "(string, delegation) dict \<Rightarrow> string list \<Rightarrow> string \<Rightarrow> bool" where
  "settled_in D N check \<longleftrightarrow> (case dget D check of
      Some d \<Rightarrow> delegation_terminal (dg_state d)
    | None \<Rightarrow> check \<notin> set N)"

abbreviation check_settled :: "vae_judgment \<Rightarrow> string \<Rightarrow> bool" where
  "check_settled j \<equiv> settled_in (jd_delegations j) (jd_pending j)"

lemma settled_in_dset: "settled_in (dset k d D) N c = (if c = k then delegation_terminal (dg_state d) else settled_in D N c)"
  by (simp add: settled_in_def dict_simps)

text \<open>The invariant, for the declared delegated checks \<open>D\<close> and static checks \<open>S\<close>.\<close>

definition covers :: "string set \<Rightarrow> string set \<Rightarrow> vae_judgment \<Rightarrow> bool" where
  "covers D S j \<longleftrightarrow> set (dkeys (jd_delegations j)) = D \<and> set (jd_pending j) \<subseteq> S \<and> D \<inter> S = {}
     \<and> (\<forall>c \<in> D \<union> S. length (check_items (jd_body j) c) = (if check_settled j c then 1 else 0))"

lemma check_items_append:
  "check_items (append_item r it) c = check_items r c
     @ (if ei_rule it = ''rule.'' @ c \<and> ei_kind it = ''independent'' then [it] else [])"
  by (simp add: check_items_def append_item_def)

lemma add_evidence_items:
  assumes "add_evidence j check source result kind = Inr rec"
  shows "\<exists>it. rec = append_item (jd_body j) it \<and> ei_rule it = ''rule.'' @ check \<and> ei_kind it = kind
     \<and> PyStr (ei_result it) = result"
proof -
  from assms obtain level it where it: "build_evidence_item (PyStr (''rule.'' @ check)) (PyStr (jd_artifact j)) (PyStr source) result kind (PyStr level) = Inr it"
      "rec = append_item (jd_body j) it"
    by (auto simp: add_evidence_def split: sum.splits)
  have "ei_rule it = ''rule.'' @ check \<and> ei_kind it = kind \<and> PyStr (ei_result it) = result"
    using it(1) by (auto simp: build_evidence_item_def evidence_text_def split: if_splits sum.splits pyval.splits list.splits)
  with it(2) show ?thesis by blast
qed

lemma covers_dset:
  assumes "covers D S j" and "check \<in> D" and "dget (jd_delegations j) check = Some d"
    and "delegation_terminal (dg_state d') = delegation_terminal (dg_state d)"
  shows "covers D S (j\<lparr>jd_delegations := dset check d' (jd_delegations j)\<rparr>)"
proof -
  have "check_settled (j\<lparr>jd_delegations := dset check d' (jd_delegations j)\<rparr>) c = check_settled j c" for c
    using assms(3,4) by (simp add: settled_in_dset) (simp add: settled_in_def)
  moreover have "set (dkeys (dset check d' (jd_delegations j))) = D"
    using assms(1,2) by (simp add: covers_def dom_update insert_absorb)
  ultimately show ?thesis using assms(1) by (simp add: covers_def)
qed

lemma require_delegation_Inr: "require_delegation j check = Inr d \<longleftrightarrow> dget (jd_delegations j) check = Some d"
  by (auto simp: require_delegation_def split: option.splits)

lemma dget_in_dkeys: "dget d k = Some v \<Longrightarrow> k \<in> set (dkeys d)"
  by (metis map_of_eq_None_iff list.set_map option.distinct(1))

lemma delegated_check: "covers D S j \<Longrightarrow> dget (jd_delegations j) check = Some d \<Longrightarrow> check \<in> D"
  using dget_in_dkeys [of "jd_delegations j" check d] unfolding covers_def by blast

lemma covers_dispatched:
  assumes cov: "covers D S j" and "dispatch_delegation C x j check request = (x', Inr j')"
  shows "covers D S j'"
proof -
  obtain d where dq: "require_delegation j check = Inr d"
    using assms(2) by (cases "require_delegation j check") (auto simp: dispatch_delegation_def)
  obtain x1 r where r: "delegation_dispatch C x d request = (x1, r)" by fastforce
  obtain d' where d': "r = Inr d'" "x1 = x'" "j' = j\<lparr>jd_delegations := dset check d' (jd_delegations j)\<rparr>"
    using assms(2) dq r by (cases r) (auto simp: dispatch_delegation_def)
  note d = dq [unfolded require_delegation_Inr] r [unfolded d'] d'(3)
  have "delegation_terminal (dg_state d') = delegation_terminal (dg_state d)"
    using d(2) by (auto simp: delegation_dispatch_def delegation_terminal_def split: if_splits prod.splits)
  then show ?thesis using covers_dset [OF cov delegated_check [OF cov d(1)] d(1)] d(3) by simp
qed

lemma covers_resolved:
  assumes cov: "covers D S j" and an: "answers C" and r: "resolve_delegation C x j check now = (x', Inr j')"
  shows "covers D S j'"
proof -
  obtain d where dq: "require_delegation j check = Inr d"
    using r by (cases "require_delegation j check") (auto simp: resolve_delegation_def)
  obtain x1 res where res: "delegation_resolve C x d now = (x1, res)" by fastforce
  obtain d' where d': "res = Inr d'" "x1 = x'"
    using r dq res by (cases res) (auto simp: resolve_delegation_def)
  note d = dq [unfolded require_delegation_Inr] res [unfolded d']
  let ?j = "j\<lparr>jd_delegations := dset check d' (jd_delegations j)\<rparr>"
  note inD = delegated_check [OF cov d(1)]
  show ?thesis
  proof (cases "dg_state d' = dg_state d")
    case True
    with r d have "j' = ?j" by (simp add: resolve_delegation_def require_delegation_def Let_def)
    with covers_dset [OF cov inD d(1)] True show ?thesis by simp
  next
    case False
    have st: "\<not> delegation_terminal (dg_state d)" "delegation_terminal (dg_state d')"
        "dg_state d' = DResulted \<Longrightarrow> \<exists>x0. ch_poll C x (dg_key d) now = (x', dg_result d') \<and> dg_result d' \<noteq> PyNone"
      using d(2) False by (auto simp: delegation_resolve_def delegation_terminal_def split: if_splits prod.splits)
    obtain c s where out: "settled_result d' = Inr (PyStr (c # s))"
    proof (cases "dg_state d'")
      case DResulted
      with st(3) an that show thesis by (fastforce simp: answers_def settled_result_def)
    qed (use st(2) that in \<open>auto simp: delegation_terminal_def settled_result_def\<close>)
    from r d False out obtain rec where rec: "add_evidence j check (''execution:'' @ dg_key d') (PyStr (c # s)) ''independent'' = Inr rec"
        "j' = ?j\<lparr>jd_body := rec\<rparr>"
      by (auto simp: resolve_delegation_def require_delegation_def Let_def split: sum.splits)
    then obtain it where it: "rec = append_item (jd_body j) it" "ei_rule it = ''rule.'' @ check" "ei_kind it = ''independent''"
      using add_evidence_items by blast
    have items: "check_items (jd_body j') c' = check_items (jd_body j) c' @ (if c' = check then [it] else [])" for c'
      using it rec(2) by (simp add: check_items_append)
    have set: "check_settled j' c' = (if c' = check then True else check_settled j c')" for c'
      using rec(2) st(2) by (simp add: settled_in_dset)
    have old: "\<not> check_settled j check" using st(1) d(1) by (simp add: settled_in_def)
    have "set (dkeys (dset check d' (jd_delegations j))) = D"
      using cov inD by (simp add: covers_def dom_update insert_absorb)
    with cov items set old rec(2) show ?thesis by (simp add: covers_def)
  qed
qed

lemma covers_late:
  assumes cov: "covers D S j" and r: "record_late_result C x j check now = (x', Inr j')"
  shows "covers D S j'"
proof -
  consider "j' = j" | rec source result where "add_evidence j check source result ''redundant'' = Inr rec" "j' = j\<lparr>jd_body := rec\<rparr>"
  proof -
    obtain d where d: "require_delegation j check = Inr d" "delegation_terminal (dg_state d)"
      using r by (cases "require_delegation j check") (auto simp: record_late_result_def split: if_splits)
    obtain x1 result where p: "ch_poll C x (dg_key d) now = (x1, result)" by fastforce
    show thesis
    proof (cases "result = PyNone")
      case True
      with r d p that(1) show thesis by (simp add: record_late_result_def)
    next
      case False
      with r d p obtain out where o: "vfield result ''outcome'' = Inr out"
        by (cases "vfield result ''outcome''") (simp_all add: record_late_result_def)
      with r d p False obtain rec where "add_evidence j check (''execution:'' @ dg_key d) out ''redundant'' = Inr rec"
          "j' = j\<lparr>jd_body := rec\<rparr>"
        by (cases "add_evidence j check (''execution:'' @ dg_key d) out ''redundant''") (simp_all add: record_late_result_def)
      then show thesis by (rule that(2))
    qed
  qed
  then show ?thesis
  proof cases
    case 2
    then obtain it where "rec = append_item (jd_body j) it" "ei_kind it = ''redundant''"
      using add_evidence_items by blast
    with 2 have "check_items (jd_body j') c = check_items (jd_body j) c" for c by (simp add: check_items_append)
    moreover have "check_settled j' c = check_settled j c" for c using 2 by (simp add: settled_in_def)
    ultimately show ?thesis using cov 2 by (simp add: covers_def)
  qed (use cov in simp)
qed

lemma covers_ran:
  assumes cov: "covers D S j" and r: "run_static_check R j check metadata = Inr j'"
  shows "covers D S j'"
proof -
  from r obtain rec result where p: "check \<in> set (jd_pending j)"
      and rec: "add_evidence j check (''static:'' @ check) result ''independent'' = Inr rec"
      and j': "j' = j\<lparr>jd_body := rec, jd_pending := filter (\<lambda>n. n \<noteq> check) (jd_pending j)\<rparr>"
    by (auto simp: run_static_check_def split: sum.splits if_splits)
  obtain it where it: "rec = append_item (jd_body j) it" "ei_rule it = ''rule.'' @ check" "ei_kind it = ''independent''"
    using add_evidence_items [OF rec] by blast
  have items: "check_items (jd_body j') c' = check_items (jd_body j) c' @ (if c' = check then [it] else [])" for c'
    using it j' by (simp add: check_items_append)
  have inS: "check \<in> S" "check \<notin> D" using cov p by (auto simp: covers_def)
  then have nd: "dget (jd_delegations j) check = None"
    using cov delegated_check [OF cov] by (cases "dget (jd_delegations j) check") auto
  have old: "\<not> check_settled j check" using nd p by (simp add: settled_in_def)
  have set: "check_settled j' c' = (if c' = check then True else check_settled j c')" for c'
    using j' nd by (auto simp: settled_in_def split: option.splits)
  have "set (jd_pending j') \<subseteq> S" using cov j' by (auto simp: covers_def)
  with cov items set old j' show ?thesis by (simp add: covers_def)
qed

lemma covers_closed: "covers D S j \<Longrightarrow> close_judgment j = Inr j' \<Longrightarrow> covers D S j'"
proof -
  assume "covers D S j" and "close_judgment j = Inr j'"
  moreover from this(2) have "j' = j \<or> j' = j\<lparr>jd_closed := True\<rparr>" by (auto simp: close_judgment_def split: if_splits)
  ultimately show ?thesis unfolding covers_def by (elim disjE) simp_all
qed

lemma covers_step: "judgment_step C R j j' \<Longrightarrow> answers C \<Longrightarrow> covers D S j \<Longrightarrow> covers D S j'"
  by (induction rule: judgment_step.induct)
    (auto dest: covers_dispatched covers_resolved covers_late covers_ran covers_closed)

lemma covers_steps: "(judgment_step C R)\<^sup>*\<^sup>* j j' \<Longrightarrow> answers C \<Longrightarrow> covers D S j \<Longrightarrow> covers D S j'"
  by (induction rule: rtranclp_induct) (auto intro: covers_step)

lemma covers_open:
  assumes "open_judgment jid a n delegated static = Inr j"
  shows "covers (set (dkeys delegated)) (set (dkeys static)) j"
proof -
  from assms obtain D where D: "mapm (\<lambda>(name, deadline, level).
            bind_sum (build_delegation (jid @ '':'' @ name) name a deadline) (\<lambda>d. Inr (name, d))) delegated = Inr D"
      "jd_delegations j = D" "jd_pending j = dkeys static"
      "filter (\<lambda>n. n \<in> set (dkeys static)) (dkeys delegated) = []"
    by (auto simp: open_judgment_def Let_def split: if_splits sum.splits)
  have k: "dkeys D = dkeys delegated"
    by (rule mapm_map_fst [OF D(1)]) (auto split: sum.splits)
  have fresh: "\<forall>p \<in> set D. dg_state (snd p) = DRequired"
    by (rule mapm_all [OF D(1)]) (auto simp: build_delegation_def split: sum.splits if_splits)
  have e: "er_items (jd_body j) = []" by (rule open_judgment_ok(2) [OF assms])
  have "\<not> check_settled j c" if "c \<in> set (dkeys delegated) \<union> set (dkeys static)" for c
  proof (cases "dget D c")
    case None
    then have "c \<notin> set (dkeys D)" by (metis map_of_eq_None_iff list.set_map)
    with that k D(2,3) None show ?thesis by (auto simp: settled_in_def)
  next
    case (Some d)
    then have "dg_state d = DRequired" using fresh by (force dest: map_of_SomeD)
    with Some D(2) show ?thesis by (simp add: settled_in_def delegation_terminal_def)
  qed
  moreover have "set (dkeys delegated) \<inter> set (dkeys static) = {}"
    using D(4) by (auto simp: filter_empty_conv)
  moreover have "check_items (jd_body j) c = []" for c by (simp add: check_items_def e)
  ultimately show ?thesis using D(2,3) k by (simp add: covers_def)
qed

lemma closed_settled: "is_closed j \<Longrightarrow> check_settled j c"
  by (auto simp: is_closed_def settled_in_def list_all_iff split: option.splits dest!: map_of_SomeD)

end
