(* ===== verification/VaeSettle.thy ===== *)
theory VaeSettle
  imports VaeJudged
begin

text \<open>
  A judgment whose delegations were dispatched and whose deadlines have passed closes: every
  delegation resolves, by its result or by expiry, and the verdict is then announced, provided
  storage commits and the bus accepts.
\<close>

section \<open>Resolving\<close>

definition levels_known :: "vae_judgment \<Rightarrow> bool" where
  "levels_known j \<longleftrightarrow> (\<forall>c \<in> set (dkeys (jd_delegations j)). \<exists>l. dget (jd_levels j) c = Some l \<and> dget level_to_dimension l \<noteq> None)
     \<and> (\<forall>it \<in> set (er_items (jd_body j)). level_known it)"

definition due :: "int \<Rightarrow> vae_judgment \<Rightarrow> bool" where
  "due now j \<longleftrightarrow> jd_pending j = [] \<and> jd_artifact j \<noteq> [] \<and> wf_dict (jd_delegations j) \<and> levels_known j
     \<and> (\<forall>d \<in> snd ` set (jd_delegations j). dg_state d \<noteq> DRequired \<and> dg_deadline d \<le> now)"

definition terminal_at :: "vae_judgment \<Rightarrow> string \<Rightarrow> bool" where
  "terminal_at j c \<longleftrightarrow> (\<exists>d. dget (jd_delegations j) c = Some d \<and> delegation_terminal (dg_state d))"

lemma level_nonempty: "dget level_to_dimension l \<noteq> None \<Longrightarrow> l \<noteq> []"
  by (auto simp: level_to_dimension_def)

lemma evidence_text_Cons: "s \<noteq> [] \<Longrightarrow> evidence_text label (PyStr s) = Inr s"
  by (cases s) (simp_all add: evidence_text_def)

lemma add_evidence_returns:
  assumes "dget (jd_levels j) c = Some l" and "dget level_to_dimension l \<noteq> None" and "jd_artifact j \<noteq> []"
    and "source \<noteq> []" and "s \<noteq> []"
  shows "\<exists>it. add_evidence j c source (PyStr s) ''independent'' = Inr (append_item (jd_body j) it) \<and> level_known it"
  using assms level_nonempty [OF assms(2)]
  by (intro exI [of _ "\<lparr>ei_rule = ''rule.'' @ c, ei_artifact = jd_artifact j, ei_source = Some source, ei_result = s,
      ei_kind = ''independent'', ei_level = l\<rparr>"]) (simp add: add_evidence_def level_of_def build_evidence_item_def contribution_kinds_def evidence_text_Cons
      evidence_source_def level_known_def)

lemma dkeys_dset_present: "k \<in> set (dkeys d) \<Longrightarrow> dkeys (dset k v d) = dkeys d"
  by (induction d) auto

lemma dset_same: "dget d k = Some v \<Longrightarrow> dset k v d = d"
  by (induction d) (auto split: if_splits)

lemma resolve_due:
  assumes due: "due now j" and an: "answers C" and c: "dget (jd_delegations j) c = Some d"
  obtains x' j' where "resolve_delegation C x j c now = (x', Inr j')" "due now j'" "terminal_at j' c"
    "\<forall>c'. terminal_at j c' \<longrightarrow> terminal_at j' c'" "dkeys (jd_delegations j') = dkeys (jd_delegations j)"
    "er_items (jd_body j') = [] \<longrightarrow> delegation_terminal (dg_state d)"
proof -
  have d: "dg_state d \<noteq> DRequired" "dg_deadline d \<le> now"
    using due c by (force simp: due_def dest: map_of_SomeD)+
  have ks: "dkeys (dset c d' (jd_delegations j)) = dkeys (jd_delegations j)" for d'
    by (rule dkeys_dset_present) (rule dget_in_dkeys [OF c])
  show thesis
  proof (cases "delegation_terminal (dg_state d)")
    case True
    have same: "dset c d (jd_delegations j) = jd_delegations j" using c by (rule dset_same)
    have "resolve_delegation C x j c now = (x, Inr j)"
      using True c d same by (simp add: resolve_delegation_def require_delegation_def delegation_resolve_def Let_def)
    then show thesis using True c due by (intro that) (auto simp: terminal_at_def)
  next
    case False
    then have disp: "dg_state d = DDispatched" using d(1) by (cases "dg_state d") (auto simp: delegation_terminal_def)
    obtain x1 res where p: "ch_poll C x (dg_key d) now = (x1, res)" by fastforce
    define d' where "d' = (if res \<noteq> PyNone then d\<lparr>dg_state := DResulted, dg_result := res\<rparr> else d\<lparr>dg_state := DExpired, dg_result := PyNone\<rparr>)"
    have t: "delegation_terminal (dg_state d')" by (simp add: d'_def delegation_terminal_def)
    have r: "delegation_resolve C x d now = (x1, Inr d')"
      using disp d(2) p by (simp add: delegation_resolve_def delegation_terminal_def d'_def)
    obtain a s where out: "settled_result d' = Inr (PyStr (a # s))"
    proof (cases "res = PyNone")
      case True
      with that show thesis by (simp add: settled_result_def d'_def)
    next
      case False
      with an p that show thesis by (fastforce simp: answers_def settled_result_def d'_def)
    qed
    obtain l where l: "dget (jd_levels j) c = Some l" "dget level_to_dimension l \<noteq> None"
      using due dget_in_dkeys [OF c] by (auto simp: due_def levels_known_def)
    obtain it where it: "add_evidence j c (''execution:'' @ dg_key d') (PyStr (a # s)) ''independent'' = Inr (append_item (jd_body j) it)" "level_known it"
      using add_evidence_returns [OF l, of "''execution:'' @ dg_key d'" "a # s"] due by (auto simp: due_def)
    let ?j = "j\<lparr>jd_delegations := dset c d' (jd_delegations j), jd_body := append_item (jd_body j) it\<rparr>"
    have "dg_state d' \<noteq> dg_state d" using disp t by (auto simp: delegation_terminal_def)
    then have res: "resolve_delegation C x j c now = (x1, Inr ?j)"
      using r c out it(1) by (simp add: resolve_delegation_def require_delegation_def Let_def)
    have dl: "dg_deadline d' = dg_deadline d" by (simp add: d'_def)
    have dj: "due now ?j"
      unfolding due_def
    proof (intro conjI)
      show "levels_known ?j" using due it(2) ks by (auto simp: due_def levels_known_def append_item_def)
      show "\<forall>d \<in> snd ` set (jd_delegations ?j). dg_state d \<noteq> DRequired \<and> dg_deadline d \<le> now"
        using due dl d(2) t set_dset_subset [of c d' "jd_delegations j"]
        by (auto simp: due_def delegation_terminal_def)
    qed (use due in \<open>auto simp: due_def\<close>)
    have tj: "terminal_at ?j c" "\<forall>c'. terminal_at j c' \<longrightarrow> terminal_at ?j c'"
      using t by (auto simp: terminal_at_def dict_simps)
    show thesis by (rule that [OF res dj tj]) (simp_all add: ks append_item_def)
  qed
qed

section \<open>Telemetry never refuses here\<close>

lemma emit_signal_ok: "family \<in> set signal_families \<Longrightarrow> emit_signal sink family p = Inr (sink @ [(family, PyDict p)])"
  by (simp add: emit_signal_def)

lemma signals_known [simp]:
  "''check_activity'' \<in> set signal_families" "''judgment_outcome'' \<in> set signal_families"
  "''coverage_readout'' \<in> set signal_families" "''agreement_record'' \<in> set signal_families"
  "''derivation_consistency'' \<in> set signal_families"
  by (simp_all add: signal_families_def)

lemma check_activity_ok: "phase \<in> set check_phases \<Longrightarrow> \<exists>t. emit_check_activity sink a c phase cat = Inr t"
  by (simp add: emit_check_activity_def emit_signal_ok)

lemma agreement_ok: "\<exists>t. emit_agreement_records sink a items = Inr t"
proof -
  have "\<exists>t. foldm (\<lambda>sink (key, entries).
        case agreement_of entries of
          None \<Rightarrow> Inr sink
        | Some g \<Rightarrow> emit_signal sink ''agreement_record'' [(''artifact_id'', PyStr a),
            (''level'', PyStr (fst key)), (''rule'', PyStr (snd key)),
            (''sources'', PyList (map PyStr (claim_sources entries))), (''agreement'', PyStr g)]) sink gs = Inr t" for gs
    by (induction gs arbitrary: sink) (auto simp: emit_signal_ok split: option.splits)
  then show ?thesis by (simp add: emit_agreement_records_def)
qed

lemma emission_telemetry_ok:
  assumes "derive (jd_body j) p = Inr d" and "er_account (jd_body j) = None"
  shows "\<exists>t. emission_telemetry sha p sink a j = Inr t"
proof -
  obtain sink1 where 1: "emit_judgment_outcome sink a (jd_rules j) (PyStr (dv_verdict d)) (vae_opt (dv_cause d)) (PyStr (dv_assurance d)) = Inr sink1"
    by (simp add: emit_judgment_outcome_def emit_signal_ok)
  obtain sink2 where 2: "emit_coverage_readout sink1 a (dv_coverage d) = Inr sink2"
    by (simp add: emit_coverage_readout_def emit_signal_ok)
  obtain sink3 where 3: "emit_agreement_records sink2 a (er_items (jd_body j)) = Inr sink3"
    using agreement_ok by blast
  obtain r where 4: "with_derivation_account (jd_body j) (account_dict d) = Inr r"
    using assms(2) by (simp add: with_derivation_account_def account_dict_def)
  show ?thesis
    by (simp add: emission_telemetry_def assms(1) 1 2 3 4 emit_derivation_consistency_def emit_signal_ok)
qed

section \<open>The runtime settles\<close>

lemma vae_resolve_due:
  assumes opn: "dget (vr_open V) a = Some j" and due: "due now j" and an: "answers C"
    and c: "dget (jd_delegations j) c = Some d"
  obtains x' V' j' res where "vae_resolve C (x, V) a c now = ((x', V'), res)" "keeps_verdicts V V'"
    "vr_intake V' = vr_intake V" "dget (vr_open V') a = Some j'" "due now j'" "terminal_at j' c"
    "\<forall>c'. terminal_at j c' \<longrightarrow> terminal_at j' c'" "dkeys (jd_delegations j') = dkeys (jd_delegations j)"
proof -
  obtain x' j' where r: "resolve_delegation C x j c now = (x', Inr j')" "due now j'" "terminal_at j' c"
      "\<forall>c'. terminal_at j c' \<longrightarrow> terminal_at j' c'" "dkeys (jd_delegations j') = dkeys (jd_delegations j)"
    by (rule resolve_due [OF due an c]) blast
  obtain x1 V1 res where v: "vae_resolve C (x, V) a c now = ((x1, V1), res)" by (metis prod.exhaust)
  have w: "vr_intake V1 = vr_intake V" "vr_open V1 = dset a j' (vr_open V)"
    using v opn c r(1)
    by (auto simp: vae_resolve_def require_open_def Let_def with_sink_def split: sum.splits if_splits)
  show thesis
    by (rule that [OF v quiet_resolve [OF v] w(1) _ r(2-5)]) (simp add: w(2) dict_simps)
qed

lemma resolve_all_due:
  assumes "dget (vr_open V) a = Some j" and "due now j" and "answers C" and "set cs \<subseteq> set (dkeys (jd_delegations j))"
  shows "\<exists>x' V' j'. foldl (vae_apply sha P pub C) (x, V) (map (\<lambda>c. Resolve a c now) cs) = (x', V') \<and> keeps_verdicts V V'
     \<and> vr_intake V' = vr_intake V \<and> dget (vr_open V') a = Some j' \<and> due now j'
     \<and> dkeys (jd_delegations j') = dkeys (jd_delegations j)
     \<and> (\<forall>c. terminal_at j c \<or> c \<in> set cs \<longrightarrow> terminal_at j' c)"
  using assms
proof (induction cs arbitrary: x V j)
  case Nil
  then show ?case by auto
next
  case (Cons c cs)
  from Cons.prems(4) obtain d where d: "dget (jd_delegations j) c = Some d"
    by (metis list.set_intros(1) list.set_map map_of_eq_None_iff not_None_eq subsetD)
  obtain x1 V1 j1 res where 1: "vae_resolve C (x, V) a c now = ((x1, V1), res)" "keeps_verdicts V V1"
    "vr_intake V1 = vr_intake V" "dget (vr_open V1) a = Some j1" "due now j1" "terminal_at j1 c"
    "\<forall>c'. terminal_at j c' \<longrightarrow> terminal_at j1 c'" "dkeys (jd_delegations j1) = dkeys (jd_delegations j)"
    by (rule vae_resolve_due [OF Cons.prems(1-3) d])
  have "set cs \<subseteq> set (dkeys (jd_delegations j1))" using Cons.prems(4) 1(8) by simp
  from Cons.IH [OF 1(4,5) Cons.prems(3) this, of x1] obtain x' V' j' where 2:
    "foldl (vae_apply sha P pub C) (x1, V1) (map (\<lambda>c. Resolve a c now) cs) = (x', V')" "keeps_verdicts V1 V'"
    "vr_intake V' = vr_intake V1" "dget (vr_open V') a = Some j'" "due now j'"
    "dkeys (jd_delegations j') = dkeys (jd_delegations j1)" "\<forall>c. terminal_at j1 c \<or> c \<in> set cs \<longrightarrow> terminal_at j' c"
    by blast
  have "keeps_verdicts V V'" using 1(2) 2(2) by (simp add: keeps_verdicts_def)
  moreover have "foldl (vae_apply sha P pub C) (x, V) (map (\<lambda>c. Resolve a c now) (c # cs)) = (x', V')"
    using 1(1) 2(1) by simp
  ultimately show ?case using 1 2 by (intro exI [of _ x'] exI [of _ V'] exI [of _ j']) auto
qed

lemma due_closed:
  assumes "due now j" and "\<forall>c \<in> set (dkeys (jd_delegations j)). terminal_at j c"
  shows "is_closed j"
proof -
  have "delegation_terminal (dg_state d)" if "(c, d) \<in> set (jd_delegations j)" for c d
  proof -
    from that assms(1) have "dget (jd_delegations j) c = Some d" by (simp add: due_def wf_dict_def)
    moreover from that have "c \<in> set (dkeys (jd_delegations j))" by force
    ultimately show ?thesis using assms(2) by (auto simp: terminal_at_def)
  qed
  then show ?thesis using assms(1) by (auto simp: is_closed_def due_def list_all_iff)
qed

text \<open>Storage that commits and a bus that accepts.\<close>

definition commits :: "'s blob_writer \<Rightarrow> bool" where
  "commits wr \<longleftrightarrow> (\<forall>s k t. \<exists>s'. wr s k t = (s', Inr ''committed''))"

definition takes_verdicts :: "'b publisher \<Rightarrow> bool" where
  "takes_verdicts pub \<longleftrightarrow> (\<forall>b t m. snd (pub b t m))"

lemma closed_emits:
  assumes opn: "dget (vr_open V) a = Some j" and ok: "judgment_ok a j" and cl: "is_closed j" and ji: "jd_artifact j \<noteq> []"
    and known: "\<forall>it \<in> set (er_items (jd_body j)). level_known it"
    and fresh: "dget (in_terminal (vr_intake V)) a = None" and wr: "commits wr" and pub: "takes_verdicts pub"
  obtains V' em d ref where "try_close_and_emit sha wr pub V a = (V', Inr (Some em))" "em_outcome em = Emitted"
    "derive (jd_body j) (vr_policy V) = Inr d" "em_verdict em = PyStr (dv_verdict d)" "em_ref em = Some ref"
    "vr_open V' = ddel a (vr_open V)"
    "vr_intake V' = (vr_intake V)\<lparr>in_terminal := in_terminal (vr_intake V) @ [(a, ref)], in_open := ddel a (in_open (vr_intake V))\<rparr>"
    "vr_rules V' = vr_rules V" "vr_registry V' = vr_registry V" "vr_policy V' = vr_policy V"
proof -
  let ?j = "j\<lparr>jd_closed := True\<rparr>"
  have aj: "jd_artifact j = a" "er_account (jd_body j) = None" "er_artifact (jd_body j) = a" and nc: "\<not> jd_closed j"
    using ok by (simp_all add: judgment_ok_def)
  obtain d where d: "derive (jd_body j) (vr_policy V) = Inr d"
    using known derive_ok_iff [of "jd_body j" "vr_policy V"] by auto
  obtain r where r: "attach_derivation (jd_body j) (vr_policy V) = Inr r" "er_account r = Some (account_dict d)"
    using aj(2) d by (simp add: attach_derivation_def with_derivation_account_def account_dict_def)
  have dr: "derived_record (vr_policy V) r" "er_artifact r = a" using attach_derived [OF r(1)] aj by simp_all
  obtain eid pl where m: "build_verdict_envelope (evidence_hash sha r) r = Inr (verdict_name r, eid, pl)"
      "verdict_envelope_of (verdict_name r) eid a pl = Inr (snd (verdict_message sha r))"
    using derived_message [OF dr(1), of sha] dr(2) by metis
  obtain s where s: "wr (vr_storage V) (evidence_key (evidence_hash sha r)) (evidence_canonical r) = (s, Inr ''committed'')"
    using wr unfolding commits_def by blast
  obtain b where b: "pub (vr_bus V) (verdict_name r) (snd (verdict_message sha r)) = (b, True)"
    using pub unfolding takes_verdicts_def by (metis prod.collapse)
  let ?ref = "''storage:vae/ev/'' @ evidence_hash sha r"
  let ?i = "(vr_intake V)\<lparr>in_terminal := in_terminal (vr_intake V) @ [(a, ?ref)], in_open := ddel a (in_open (vr_intake V))\<rparr>"
  have v: "py_get (account_dict d) ''verdict'' PyNone = PyStr (dv_verdict d)" by (simp add: account_dict_def)
  obtain em where em: "emit_verdict sha wr pub (vr_policy V) (vr_storage V, vr_bus V, vr_intake V) ?j = ((s, b, ?i), Inr em)"
      "em_outcome em = Emitted" "em_verdict em = PyStr (dv_verdict d)" "em_ref em = Some ?ref"
    using aj fresh r s m b v
    by (simp add: emit_verdict_def terminal_verdict_def Let_def publish_verdict_def emit_vae_event_def mark_terminal_fresh)
  obtain t where t: "emission_telemetry sha (vr_policy V) (vr_sink V) a ?j = Inr t"
  proof -
    have "derive (jd_body ?j) (vr_policy V) = Inr d" "er_account (jd_body ?j) = None" using d aj(2) by simp_all
    then show thesis using emission_telemetry_ok that by blast
  qed
  have c: "close_judgment j = Inr ?j" using cl nc by (simp add: close_judgment_def)
  have "try_close_and_emit sha wr pub V a = (V\<lparr>vr_storage := s, vr_bus := b, vr_intake := ?i, vr_sink := t,
      vr_open := ddel a (vr_open V)\<rparr>, Inr (Some em))"
    using opn cl c em(1,2) t by (simp add: try_close_and_emit_def Let_def)
  then show thesis by (rule that [OF _ em(2) d em(3,4)]) simp_all
qed

end
