(* ===== verification/VaeRecover.thy ===== *)
theory VaeRecover
  imports VaeSettle
begin

text \<open>
  Recovery. \<open>pending.rebuild\<close> replays the demands of a run against the verdicts that were
  announced; what it rebuilds agrees with the live runtime on the demands seen, the terminal
  artifacts, the open artifacts and the checks and deadlines of every open judgment. The run
  is clean: no demand raised and no announcement was rejected by storage.
\<close>

section \<open>The shape of a judgment\<close>

definition shape :: "vae_judgment \<Rightarrow> string \<times> string \<times> int \<times> (string \<times> string \<times> int) list \<times> (string, string) dict" where
  "shape j = (jd_id j, jd_artifact j, jd_rules j,
     map (\<lambda>(c, d). (c, dg_key d, dg_deadline d)) (jd_delegations j), jd_levels j)"

lemma map_dset_same:
  "dget D c = Some d \<Longrightarrow> f (c, d') = f (c, d) \<Longrightarrow> map f (dset c d' D) = map f D"
  by (induction D) auto

lemma shape_dset:
  assumes "dget (jd_delegations j) c = Some d" and "dg_key d' = dg_key d" and "dg_deadline d' = dg_deadline d"
  shows "shape (j\<lparr>jd_delegations := dset c d' (jd_delegations j)\<rparr>) = shape j"
  using assms by (simp add: shape_def map_dset_same)

lemma shape_dispatch:
  assumes "dispatch_delegation C x j c request = (x', Inr j')"
  shows "shape j' = shape j"
proof -
  obtain d where d: "require_delegation j c = Inr d"
    using assms by (cases "require_delegation j c") (auto simp: dispatch_delegation_def)
  obtain x1 r where r: "delegation_dispatch C x d request = (x1, r)" by fastforce
  obtain d' where d': "r = Inr d'" "j' = j\<lparr>jd_delegations := dset c d' (jd_delegations j)\<rparr>"
    using assms d r by (cases r) (auto simp: dispatch_delegation_def)
  have "dg_key d' = dg_key d" "dg_deadline d' = dg_deadline d"
    using r d'(1) by (auto simp: delegation_dispatch_def split: if_splits prod.splits)
  with d d'(2) show ?thesis by (simp add: require_delegation_Inr shape_dset)
qed

lemma shape_resolve:
  assumes "resolve_delegation C x j c now = (x', Inr j')"
  shows "shape j' = shape j"
proof -
  obtain d where d: "require_delegation j c = Inr d"
    using assms by (cases "require_delegation j c") (auto simp: resolve_delegation_def)
  obtain x1 r where r: "delegation_resolve C x d now = (x1, r)" by fastforce
  obtain d' where d': "r = Inr d'"
    using assms d r by (cases r) (auto simp: resolve_delegation_def)
  have same: "dg_key d' = dg_key d" "dg_deadline d' = dg_deadline d"
    using r d' by (auto simp: delegation_resolve_def split: if_splits prod.splits)
  let ?j = "j\<lparr>jd_delegations := dset c d' (jd_delegations j)\<rparr>"
  have "j' = ?j \<or> (\<exists>rec. j' = ?j\<lparr>jd_body := rec\<rparr>)"
    using assms d r d' by (auto simp: resolve_delegation_def Let_def split: if_splits sum.splits)
  moreover have "shape ?j = shape j" using d same by (simp add: require_delegation_Inr shape_dset)
  ultimately show ?thesis by (auto simp: shape_def)
qed

lemma shape_static: "run_static_check R j c metadata = Inr j' \<Longrightarrow> shape j' = shape j"
  by (auto simp: run_static_check_def shape_def split: sum.splits if_splits)

definition shapes :: "(string, vae_judgment) dict \<Rightarrow> (string \<times> _) list" where
  "shapes opens = map (\<lambda>(a, j). (a, shape j)) opens"

lemma shapes_dset: "dget opens a = Some j \<Longrightarrow> shape j' = shape j \<Longrightarrow> shapes (dset a j' opens) = shapes opens"
  unfolding shapes_def by (rule map_dset_same) simp_all

section \<open>What the operations do to intake and projection\<close>

text \<open>An operation that works on one open judgment keeps intake, rules and shapes.\<close>

definition works :: "('s, 'b) verification \<Rightarrow> ('s, 'b) verification \<Rightarrow> bool" where
  "works V V' \<longleftrightarrow> vr_intake V' = vr_intake V \<and> vr_rules V' = vr_rules V \<and> shapes (vr_open V') = shapes (vr_open V)"

lemma works_refl [simp]: "works V V"
  by (simp add: works_def)

lemma works_with_sinkD: "with_sink V' t x = (V'', res) \<Longrightarrow> works V V' \<Longrightarrow> works V V''"
  by (auto simp: with_sink_def works_def split: sum.splits)

lemma works_set: "dget (vr_open V) a = Some j \<Longrightarrow> shape j' = shape j \<Longrightarrow> works V (V\<lparr>vr_open := dset a j' (vr_open V)\<rparr>)"
  by (simp add: works_def shapes_dset)

lemma works_dispatch:
  assumes "vae_dispatch C (x, V) a c request = ((x', V'), res)"
  shows "works V V'"
proof (cases "require_open V a")
  case (Inl e)
  with assms show ?thesis by (simp add: vae_dispatch_def)
next
  case (Inr j)
  obtain x1 r where d: "dispatch_delegation C x j c request = (x1, r)" by fastforce
  show ?thesis
  proof (cases r)
    case Inl
    with assms Inr d show ?thesis by (simp add: vae_dispatch_def)
  next
    case r: (Inr j')
    have "works V (V\<lparr>vr_open := dset a j' (vr_open V)\<rparr>)"
      using Inr d r by (intro works_set) (auto simp: require_open_Inr shape_dispatch)
    with assms Inr d r show ?thesis
      by (auto simp: vae_dispatch_def split: prod.splits elim: works_with_sinkD)
  qed
qed

lemma works_resolve:
  assumes "vae_resolve C (x, V) a c now = ((x', V'), res)"
  shows "works V V'"
proof (cases "require_open V a")
  case (Inl e)
  with assms show ?thesis by (simp add: vae_resolve_def)
next
  case (Inr j)
  show ?thesis
  proof (cases "dget (jd_delegations j) c")
    case None
    with assms Inr show ?thesis by (simp add: vae_resolve_def)
  next
    case (Some before)
    obtain x1 r where d: "resolve_delegation C x j c now = (x1, r)" by fastforce
    show ?thesis
    proof (cases r)
      case Inl
      with assms Inr Some d show ?thesis by (simp add: vae_resolve_def)
    next
      case r: (Inr j')
      have "works V (V\<lparr>vr_open := dset a j' (vr_open V)\<rparr>)"
        using Inr d r by (intro works_set) (auto simp: require_open_Inr shape_resolve)
      with assms Inr Some d r show ?thesis
        by (auto simp: vae_resolve_def Let_def split: if_splits sum.splits prod.splits elim: works_with_sinkD)
    qed
  qed
qed

lemma works_static:
  assumes "vae_run_static V a c metadata = (V', res)"
  shows "works V V'"
proof (cases "require_open V a")
  case (Inl e)
  with assms show ?thesis by (simp add: vae_run_static_def)
next
  case (Inr j)
  show ?thesis
  proof (cases "run_static_check (vr_registry V) j c metadata")
    case Inl
    with assms Inr show ?thesis by (simp add: vae_run_static_def)
  next
    case r: (Inr j')
    have "works V (V\<lparr>vr_open := dset a j' (vr_open V)\<rparr>)"
      using Inr r by (intro works_set) (auto simp: require_open_Inr shape_static)
    with assms Inr r show ?thesis
      by (auto simp: vae_run_static_def Let_def split: sum.splits elim: works_with_sinkD)
  qed
qed

text \<open>Closing either keeps intake and open judgments, or retires the artifact from both.\<close>

lemma emit_Inr_derives:
  "emit_verdict sha wr pub p w j = (w', Inr em) \<Longrightarrow> \<exists>r. attach_derivation (jd_body j) p = Inr r"
  by (auto simp: emit_verdict_def split: prod.splits if_splits sum.splits)

lemma close_outcome:
  assumes c: "try_close_and_emit sha wr pub V a = (V', res)" and ok: "opens_ok V"
    and "\<forall>em. res = Inr (Some em) \<longrightarrow> em_outcome em \<noteq> Rejected"
  obtains (kept) "vr_intake V' = vr_intake V" "vr_open V' = vr_open V" "vr_rules V' = vr_rules V"
  | (retired) ref where "dget (in_terminal (vr_intake V)) a = None"
      "vr_intake V' = (vr_intake V)\<lparr>in_terminal := in_terminal (vr_intake V) @ [(a, ref)], in_open := ddel a (in_open (vr_intake V))\<rparr>"
      "vr_open V' = ddel a (vr_open V)" "vr_rules V' = vr_rules V"
  using c ok
proof (cases rule: close_cases)
  case same
  with kept show thesis by simp
next
  case (emission j s b i r)
  let ?j = "j\<lparr>jd_closed := True\<rparr>"
  have art: "er_artifact (jd_body ?j) = jd_artifact ?j" "jd_artifact ?j = a" "er_account (jd_body ?j) = None"
    using emission(3) by (simp_all add: judgment_ok_def)
  have res: "res = Inr (Some em)" if "r = Inr em" for em
  proof -
    from that emission(4) obtain r0 where "attach_derivation (jd_body ?j) (vr_policy V) = Inr r0"
      using emit_Inr_derives by blast
    then obtain d where "derive (jd_body ?j) (vr_policy V) = Inr d"
      by (auto simp: attach_derivation_def split: sum.splits)
    from emission_telemetry_ok [OF this art(3)] obtain t where "emission_telemetry sha (vr_policy V) (vr_sink V) a ?j = Inr t" by blast
    moreover have "close_judgment j = Inr ?j"
      using emission(2,3) by (simp add: close_judgment_def judgment_ok_def)
    ultimately show ?thesis using c emission(1,2,4) that by (simp add: try_close_and_emit_def Let_def split: if_splits)
  qed
  from emission(4) art(1) show thesis
  proof (cases rule: emit_verdict_cases)
    case (idle e)
    with emission kept show thesis by (auto split: if_splits)
  next
    case (unannounced r0 x t env k)
    have "\<nexists>em. r = Inr em" using unannounced(5) res assms(3) by blast
    then have "\<nexists>em. res = Inr (Some em)" using emission(11) by blast
    with emission unannounced(3) kept show thesis by simp
  next
    case (announced r0)
    from res [OF announced(6)] emission(5-10) announced(4,5) art(2) retired show thesis by simp
  qed
qed

section \<open>The rebuilt projection follows the run\<close>

definition outside :: "(string, string) dict \<Rightarrow> (string, 'v) dict \<Rightarrow> (string, 'v) dict" where
  "outside T opens = filter (\<lambda>(a, v). dget T a = None) opens"

lemma outside_dset_fresh: "a \<notin> set (dkeys opens) \<Longrightarrow> outside T (dset a v opens) = outside T opens @ (if dget T a = None then [(a, v)] else [])"
  by (simp add: outside_def dset_fresh map_of_eq_None_iff)

lemma outside_ddel: "dget T a \<noteq> None \<Longrightarrow> outside T (ddel a opens) = outside T opens"
  by (induction opens) (auto simp: outside_def)

lemma dget_outside: "dget T a = None \<Longrightarrow> dget (outside T opens) a = dget opens a"
  by (induction opens) (auto simp: outside_def)

lemma shapes_outside: "shapes (outside T opens) = outside T (shapes opens)"
  by (induction opens) (auto simp: shapes_def outside_def)

lemma outside_disjoint: "set (dkeys opens) \<inter> set (dkeys T) = {} \<Longrightarrow> outside T opens = opens"
  unfolding outside_def by (rule filter_True) (force simp: map_of_eq_None_iff)

text \<open>\<open>T\<close> are the verdicts at the end of the run.\<close>

definition follows :: "(string, string) dict \<Rightarrow> ('s, 'b) verification \<Rightarrow> projection \<Rightarrow> bool" where
  "follows T V pj \<longleftrightarrow> in_seen (pj_intake pj) = in_seen (vr_intake V) \<and> in_terminal (pj_intake pj) = T
     \<and> in_open (pj_intake pj) = outside T (in_open (vr_intake V))
     \<and> shapes (pj_judgments pj) = outside T (shapes (vr_open V))"

definition tidy :: "('s, 'b) verification \<Rightarrow> bool" where
  "tidy V \<longleftrightarrow> set (dkeys (vr_open V)) \<subseteq> set (dkeys (in_open (vr_intake V)))
     \<and> set (dkeys (in_open (vr_intake V))) \<inter> set (dkeys (in_terminal (vr_intake V))) = {}"

lemma dkeys_shapes: "dkeys (shapes opens) = dkeys opens"
  by (induction opens) (auto simp: shapes_def)

lemma shapes_ddel: "shapes (ddel a opens) = ddel a (shapes opens)"
  by (induction opens) (auto simp: shapes_def)

lemma works_frame:
  assumes "works V V'"
  shows "follows T V' pj = follows T V pj" and "tidy V' = tidy V"
proof -
  have "dkeys (vr_open V') = dkeys (vr_open V)" using assms dkeys_shapes unfolding works_def by metis
  with assms show "follows T V' pj = follows T V pj" "tidy V' = tidy V"
    by (simp_all add: works_def follows_def tidy_def)
qed

lemma demand_follows:
  assumes f: "follows T V pj" and t: "tidy V" and h: "handle_demand V d = (V', Inr res)"
    and T: "set (dkeys (in_terminal (vr_intake V))) \<subseteq> set (dkeys T)"
  shows "\<exists>pj'. rebuild_demand (vr_rules V) pj d = Inr pj' \<and> follows T V' pj'" and "tidy V'"
    and "vr_rules V' = vr_rules V" and "in_terminal (vr_intake V') = in_terminal (vr_intake V)"
proof -
  let ?i = "vr_intake V" and ?p = "pj_intake pj" and ?a = "dm_artifact d" and ?e = "dm_event_id d"
  obtain i ir where r: "receive ?i (dm_event d) ?e ?a (dm_judgment d) = (i, Inr ir)"
    using h by (cases "receive ?i (dm_event d) ?e ?a (dm_judgment d)"; cases "snd (receive ?i (dm_event d) ?e ?a (dm_judgment d))")
      (auto simp: handle_demand_def)
  have ck: "check_consumed (dm_event d) = Inr ()"
    using r by (auto simp: receive_def split: sum.splits)
  show "in_terminal (vr_intake V') = in_terminal ?i" using quiet_demand [of V d] h by (simp add: keeps_verdicts_def)
  have seen: "in_seen ?p = in_seen ?i" and trm: "in_terminal ?p = T" and opn: "in_open ?p = outside T (in_open ?i)"
    and shp: "shapes (pj_judgments pj) = outside T (shapes (vr_open V))" using f by (simp_all add: follows_def)
  have Tn: "dget T ?a \<noteq> None" if "dget (in_terminal ?i) ?a \<noteq> None"
    using T that by (auto simp: map_of_eq_None_iff)
  consider (dup) "?e \<in> set (in_seen ?i)"
    | (quietly) "?e \<notin> set (in_seen ?i)" "dget (in_terminal ?i) ?a \<noteq> None \<or> dget (in_open ?i) ?a \<noteq> None"
    | (opens) "?e \<notin> set (in_seen ?i)" "dget (in_terminal ?i) ?a = None" "dget (in_open ?i) ?a = None" by blast
  then have "(\<exists>pj'. rebuild_demand (vr_rules V) pj d = Inr pj' \<and> follows T V' pj') \<and> tidy V' \<and> vr_rules V' = vr_rules V"
  proof cases
    case dup
    then have i: "i = ?i" "ir_action ir \<noteq> Opened" using r ck by (auto simp: receive_def)
    have V': "V' = V" using h r i by (simp add: handle_demand_def)
    have "rebuild_demand (vr_rules V) pj d = Inr pj" using dup seen ck by (simp add: rebuild_demand_def receive_def)
    with V' f t show ?thesis by blast
  next
    case quietly
    then have i: "i = ?i\<lparr>in_seen := ?e # in_seen ?i\<rparr>" "ir_action ir \<noteq> Opened"
      using r ck by (auto simp: receive_def Let_def split: option.splits)
    then have V': "V' = V\<lparr>vr_intake := i\<rparr>" using h r by (simp add: handle_demand_def)
    have "dget T ?a \<noteq> None \<or> dget (in_open ?p) ?a \<noteq> None"
      using quietly(2) Tn dget_outside [of T ?a "in_open ?i"] opn by auto
    then have "rebuild_demand (vr_rules V) pj d = Inr (pj\<lparr>pj_intake := ?p\<lparr>in_seen := ?e # in_seen ?p\<rparr>\<rparr>)"
      using quietly(1) seen trm ck by (auto simp: rebuild_demand_def receive_def Let_def split: option.splits)
    moreover have "follows T V' (pj\<lparr>pj_intake := ?p\<lparr>in_seen := ?e # in_seen ?p\<rparr>\<rparr>)"
      using f i V' by (simp add: follows_def)
    moreover have "tidy V'" using t i V' by (simp add: tidy_def)
    ultimately show ?thesis using V' by simp
  next
    case opens
    then have i: "i = ?i\<lparr>in_seen := ?e # in_seen ?i, in_open := dset ?a (dm_judgment d) (in_open ?i)\<rparr>" "ir_action ir = Opened"
      using r ck by (auto simp: receive_def Let_def)
    obtain j where j: "judgment_for (vr_rules V) d = Inr j"
      using h r i by (cases "judgment_for (vr_rules V) d") (simp_all add: handle_demand_def)
    have V': "V' = V\<lparr>vr_intake := i, vr_open := dset ?a j (vr_open V)\<rparr>" using h r i j by (simp add: handle_demand_def)
    have fo: "?a \<notin> set (dkeys (in_open ?i))" using opens(3) by (simp add: map_of_eq_None_iff)
    then have fv: "?a \<notin> set (dkeys (vr_open V))" using t by (auto simp: tidy_def)
    have sv: "shapes (vr_open V') = shapes (vr_open V) @ [(?a, shape j)]"
      using V' fv by (simp add: shapes_def dset_fresh map_of_eq_None_iff)
    have out: "outside T (shapes (vr_open V')) = outside T (shapes (vr_open V)) @ (if dget T ?a = None then [(?a, shape j)] else [])"
      unfolding sv by (simp add: outside_def)
    have td: "tidy V'" using t opens(2) V' i by (auto simp: tidy_def dom_update map_of_eq_None_iff)
    show ?thesis
    proof (cases "dget T ?a")
      case (Some ref)
      then have "rebuild_demand (vr_rules V) pj d = Inr (pj\<lparr>pj_intake := ?p\<lparr>in_seen := ?e # in_seen ?p\<rparr>\<rparr>)"
        using opens(1) seen trm ck by (simp add: rebuild_demand_def receive_def Let_def)
      moreover have "follows T V' (pj\<lparr>pj_intake := ?p\<lparr>in_seen := ?e # in_seen ?p\<rparr>\<rparr>)"
        using f i V' Some out outside_dset_fresh [OF fo] by (simp add: follows_def)
      ultimately show ?thesis using td V' by simp
    next
      case None
      have po: "dget (in_open ?p) ?a = None" using opn dget_outside [OF None, of "in_open ?i"] opens(3) by simp
      have pk: "?a \<notin> set (dkeys (pj_judgments pj))"
      proof
        assume "?a \<in> set (dkeys (pj_judgments pj))"
        then have "?a \<in> set (dkeys (outside T (shapes (vr_open V))))" using shp dkeys_shapes by metis
        then have "?a \<in> set (dkeys (shapes (vr_open V)))" by (auto simp: outside_def)
        with fv show False by (simp only: dkeys_shapes)
      qed
      have "rebuild_demand (vr_rules V) pj d
          = Inr \<lparr>pj_intake = ?p\<lparr>in_seen := ?e # in_seen ?p, in_open := dset ?a (dm_judgment d) (in_open ?p)\<rparr>,
                 pj_judgments = dset ?a j (pj_judgments pj)\<rparr>"
        using opens(1) seen trm ck None po j by (simp add: rebuild_demand_def receive_def Let_def)
      moreover have "shapes (dset ?a j (pj_judgments pj)) = shapes (pj_judgments pj) @ [(?a, shape j)]"
        using pk by (simp add: shapes_def dset_fresh map_of_eq_None_iff)
      moreover have "dset ?a (dm_judgment d) (in_open ?p) = in_open ?p @ [(?a, dm_judgment d)]"
        using po by (rule dset_fresh)
      ultimately have "rebuild_demand (vr_rules V) pj d
          = Inr \<lparr>pj_intake = ?p\<lparr>in_seen := ?e # in_seen ?p, in_open := dset ?a (dm_judgment d) (in_open ?p)\<rparr>,
                 pj_judgments = dset ?a j (pj_judgments pj)\<rparr>"
        and "follows T V' \<lparr>pj_intake = ?p\<lparr>in_seen := ?e # in_seen ?p, in_open := dset ?a (dm_judgment d) (in_open ?p)\<rparr>,
                 pj_judgments = dset ?a j (pj_judgments pj)\<rparr>"
        using seen trm opn shp i V' None out outside_dset_fresh [OF fo] by (simp_all add: follows_def)
      then show ?thesis using td V' by simp
    qed
  qed
  then show "\<exists>pj'. rebuild_demand (vr_rules V) pj d = Inr pj' \<and> follows T V' pj'" "tidy V'" "vr_rules V' = vr_rules V" by blast+
qed

section \<open>Clean runs\<close>

definition clean_op :: "vae_digest \<Rightarrow> 's blob_port \<Rightarrow> 'b publisher \<Rightarrow> ('s, 'b) verification \<Rightarrow> vae_op \<Rightarrow> bool" where
  "clean_op sha P pub V op =
     (case op of
        TakeDemand d \<Rightarrow> \<not> isl (snd (handle_demand V d))
      | CloseAndEmit a \<Rightarrow>
          (case snd (try_close_and_emit sha (bp_write P) pub V a) of
             Inr (Some em) \<Rightarrow> em_outcome em = Emitted
           | _ \<Rightarrow> True)
      | _ \<Rightarrow> True)"

fun clean_run ::
  "vae_digest \<Rightarrow> 's blob_port \<Rightarrow> 'b publisher \<Rightarrow> 'x channel \<Rightarrow> 'x \<times> ('s, 'b) verification \<Rightarrow> vae_op list \<Rightarrow> bool" where
  "clean_run sha P pub C xV [] = True"
| "clean_run sha P pub C xV (op # ops) =
     (clean_op sha P pub (snd xV) op \<and> clean_run sha P pub C (vae_apply sha P pub C xV op) ops)"

fun demands_of :: "vae_op list \<Rightarrow> demand list" where
  "demands_of [] = []"
| "demands_of (TakeDemand d # ops) = d # demands_of ops"
| "demands_of (op # ops) = demands_of ops"

abbreviation vae_run where
  "vae_run sha P pub C \<equiv> foldl (vae_apply sha P pub C)"

lemma op_terminal_grows:
  assumes "opens_ok V" and "clean_op sha P pub V op"
  shows "\<exists>more. in_terminal (vr_intake (snd (vae_apply sha P pub C (x, V) op))) = in_terminal (vr_intake V) @ more"
    and "opens_ok (snd (vae_apply sha P pub C (x, V) op))"
proof -
  have q: "(\<exists>more. in_terminal (vr_intake V') = in_terminal (vr_intake V) @ more) \<and> opens_ok V'" if "keeps_verdicts V V'" for V'
    using that assms(1) by (simp add: keeps_verdicts_def)
  have "(\<exists>more. in_terminal (vr_intake (snd (vae_apply sha P pub C (x, V) op))) = in_terminal (vr_intake V) @ more)
    \<and> opens_ok (snd (vae_apply sha P pub C (x, V) op))"
  proof (cases op)
    case (TakeDemand d)
    then show ?thesis using q [OF quiet_demand] by simp
  next
    case (Dispatch a check request)
    obtain x' V' res where d: "vae_dispatch C (x, V) a check request = ((x', V'), res)" by (metis prod.exhaust)
    then show ?thesis using q [OF quiet_dispatch [OF d]] Dispatch by simp
  next
    case (Resolve a check now)
    obtain x' V' res where d: "vae_resolve C (x, V) a check now = ((x', V'), res)" by (metis prod.exhaust)
    then show ?thesis using q [OF quiet_resolve [OF d]] Resolve by simp
  next
    case (RunStatic a check metadata)
    then show ?thesis using q [OF quiet_static] by simp
  next
    case (CloseAndEmit a)
    obtain V' res where c: "try_close_and_emit sha (bp_write P) pub V a = (V', res)" by fastforce
    have "\<forall>em. res = Inr (Some em) \<longrightarrow> em_outcome em \<noteq> Rejected"
      using assms(2) c CloseAndEmit by (auto simp: clean_op_def)
    from c assms(1) this have "(\<exists>more. in_terminal (vr_intake V') = in_terminal (vr_intake V) @ more) \<and> opens_ok V'"
    proof (cases rule: close_outcome)
      case kept
      then show ?thesis using assms(1) by (simp add: opens_ok_def)
    next
      case (retired ref)
      then show ?thesis using assms(1) by (auto simp: opens_ok_def dict_simps split: if_splits)
    qed
    with c CloseAndEmit show ?thesis by simp
  qed
  then show "\<exists>more. in_terminal (vr_intake (snd (vae_apply sha P pub C (x, V) op))) = in_terminal (vr_intake V) @ more"
    "opens_ok (snd (vae_apply sha P pub C (x, V) op))" by blast+
qed

lemma run_terminal_grows:
  assumes "opens_ok (snd xV)" and "clean_run sha P pub C xV ops"
  shows "\<exists>more. in_terminal (vr_intake (snd (vae_run sha P pub C xV ops))) = in_terminal (vr_intake (snd xV)) @ more"
  using assms
proof (induction ops arbitrary: xV)
  case (Cons op ops)
  obtain x V where xV: "xV = (x, V)" by (cases xV)
  note g = op_terminal_grows [of V sha P pub op C x]
  from Cons.prems xV have c: "opens_ok V" "clean_op sha P pub V op" "clean_run sha P pub C (vae_apply sha P pub C (x, V) op) ops"
    by simp_all
  from Cons.IH [OF g(2) [OF c(1,2)] c(3)] g(1) [OF c(1,2)] xV show ?case by auto
qed simp

lemma run_follows:
  assumes "opens_ok (snd xV)" and "tidy (snd xV)" and "follows T (snd xV) pj" and "clean_run sha P pub C xV ops"
    and "T = in_terminal (vr_intake (snd (vae_run sha P pub C xV ops)))"
  shows "\<exists>pj'. foldm (rebuild_demand (vr_rules (snd xV))) pj (demands_of ops) = Inr pj'
     \<and> follows T (snd (vae_run sha P pub C xV ops)) pj' \<and> tidy (snd (vae_run sha P pub C xV ops))"
  using assms
proof (induction ops arbitrary: xV pj)
  case Nil
  then show ?case by simp
next
  case (Cons op ops)
  obtain x V where xV: "xV = (x, V)" by (cases xV)
  let ?n = "vae_apply sha P pub C (x, V) op"
  from Cons.prems xV have c: "opens_ok V" "tidy V" "follows T V pj" "clean_op sha P pub V op" "clean_run sha P pub C ?n ops"
      "T = in_terminal (vr_intake (snd (vae_run sha P pub C ?n ops)))"
    by simp_all
  note g = op_terminal_grows [OF c(1,4), of C x]
  obtain more where "T = in_terminal (vr_intake (snd ?n)) @ more"
    using run_terminal_grows [OF g(2) c(5)] c(6) by blast
  then have Tn: "set (dkeys (in_terminal (vr_intake (snd ?n)))) \<subseteq> set (dkeys T)" by auto
  have step: ?case if "tidy (snd ?n)" "follows T (snd ?n) pj1" "vr_rules (snd ?n) = vr_rules V"
      "foldm (rebuild_demand (vr_rules V)) pj (demands_of (op # ops)) = foldm (rebuild_demand (vr_rules V)) pj1 (demands_of ops)" for pj1
    using Cons.IH [OF g(2) that(1,2) c(5,6)] that(3,4) xV by simp
  have frame: ?case if w: "works V (snd ?n)" and "demands_of (op # ops) = demands_of ops"
    using works_frame(1) [OF w, of T pj] works_frame(2) [OF w] c w that(2) by (intro step [of pj]) (simp_all add: works_def)
  show ?case
  proof (cases op)
    case (TakeDemand d)
    obtain V' r where h: "handle_demand V d = (V', r)" by fastforce
    then obtain res where r: "r = Inr res" using c(4) TakeDemand by (cases r) (auto simp: clean_op_def)
    have h: "handle_demand V d = (V', Inr res)" and n: "snd ?n = V'" using h r TakeDemand by simp_all
    have "in_terminal (vr_intake V') = in_terminal (vr_intake V)" using quiet_demand [of V d] h by (simp add: keeps_verdicts_def)
    with Tn n have T0: "set (dkeys (in_terminal (vr_intake V))) \<subseteq> set (dkeys T)" by simp
    from demand_follows [OF c(3,2) h T0] obtain pj1 where
      "rebuild_demand (vr_rules V) pj d = Inr pj1" "follows T V' pj1" "tidy V'" "vr_rules V' = vr_rules V" by blast
    with n TakeDemand show ?thesis by (intro step [of pj1]) simp_all
  next
    case (Dispatch a check request)
    obtain x' V' res where d: "vae_dispatch C (x, V) a check request = ((x', V'), res)" by (metis prod.exhaust)
    with Dispatch works_dispatch [OF d] show ?thesis by (intro frame) simp_all
  next
    case (Resolve a check now)
    obtain x' V' res where d: "vae_resolve C (x, V) a check now = ((x', V'), res)" by (metis prod.exhaust)
    with Resolve works_resolve [OF d] show ?thesis by (intro frame) simp_all
  next
    case (RunStatic a check metadata)
    obtain V' res where d: "vae_run_static V a check metadata = (V', res)" by fastforce
    with RunStatic works_static [OF d] show ?thesis by (intro frame) simp_all
  next
    case (CloseAndEmit a)
    obtain V' res where d: "try_close_and_emit sha (bp_write P) pub V a = (V', res)" by fastforce
    have em: "\<forall>em. res = Inr (Some em) \<longrightarrow> em_outcome em \<noteq> Rejected"
      using c(4) d CloseAndEmit by (auto simp: clean_op_def)
    have n: "snd ?n = V'" using d CloseAndEmit by simp
    from d c(1) em show ?thesis
    proof (cases rule: close_outcome)
      case kept
      with n have "works V (snd ?n)" by (simp add: works_def)
      then show ?thesis using CloseAndEmit by (intro frame) simp_all
    next
      case (retired ref)
      have aT: "dget T a \<noteq> None"
        using Tn n retired(2) by (auto simp: map_of_eq_None_iff)
      have "follows T V' pj"
        using c(3) retired by (simp add: follows_def shapes_ddel outside_ddel [OF aT])
      moreover have "tidy V'" using c(2) retired by (auto simp: tidy_def delete_keys map_of_eq_None_iff)
      ultimately show ?thesis using n retired(4) CloseAndEmit by (intro step [of pj]) simp_all
    qed
  qed
qed

end
