(* ===== verification/VaeSystem.thy ===== *)
theory VaeSystem
  imports VaeRecover KernelDurability
begin

text \<open>
  The verification engine as \<open>system.py\<close> wires it: its evidence in the vault, its verdicts
  lifted to the kernel's envelope on the durable bus, the static check of an execution result,
  the boot, and the judgment of one workflow unit. The wiring is shown to be an evidence home.
  The test double of the execution channel (\<open>vae/execution_double.py\<close>) is the model's concrete
  channel.
\<close>

section \<open>The bus adapter\<close>

definition unit_request :: "string \<Rightarrow> string" where
  "unit_request subject =
     (let parts = split_on (CHR '':'') subject in
      if 3 \<le> length parts \<and> hd parts = ''unit'' then parts ! 1 else subject)"

definition kernel_wire :: "pyval \<Rightarrow> pyval option" where
  "kernel_wire message =
     (case (message, py_get message ''payload'' (PyDict []), py_get message ''subject_ref'' (PyStr [])) of
        (PyDict m, PyDict p, PyStr subject) \<Rightarrow>
          (case (dget m ''event_id'', dget m ''event_name'') of
             (Some eid, Some (PyStr name)) \<Rightarrow>
               Some (make_env eid name (PyStr (unit_request subject)) (PyInt 0) PyNone (dset ''subject_ref'' (PyStr subject) p))
           | _ \<Rightarrow> None)
      | _ \<Rightarrow> None)"

definition verdict_wire :: "'b publisher \<Rightarrow> 'b publisher" where
  "verdict_wire pub b topic message =
     (case kernel_wire message of None \<Rightarrow> (b, False) | Some env \<Rightarrow> pub b topic env)"

definition on_wire :: "(pyval \<Rightarrow> 'r) \<Rightarrow> pyval \<Rightarrow> 'r" where
  "on_wire render message = render (the (kernel_wire message))"

context bus_port
begin

lemma verdict_wire_port: "bus_port (verdict_wire pub) history (on_wire render) live"
proof
  fix b t m b' t'
  assume "live b" and w: "verdict_wire pub b t m = (b', True)"
  then obtain env where "kernel_wire m = Some env" "pub b t env = (b', True)"
    by (auto simp: verdict_wire_def split: option.splits)
  with pub_ok [OF \<open>live b\<close>] show "history b' t' = (if t' = t then history b t @ [on_wire render m] else history b t')"
    by (simp add: on_wire_def)
next
  fix b t m b' t'
  assume "live b" and "verdict_wire pub b t m = (b', False)"
  then show "history b' t' = history b t'"
    by (auto simp: verdict_wire_def pub_refused split: option.splits)
next
  fix b t m
  assume "live b"
  then show "live (fst (verdict_wire pub b t m))"
    by (auto simp: verdict_wire_def pub_live split: option.splits)
qed

end

text \<open>Evidence in a namespace of a vault, verdicts through the adapter on the durable bus of another.\<close>

interpretation home: evidence_home "ns_port q E ns" "plain_key ns" "vault_good E ns"
    "verdict_wire (bus_pub (ns_port q' E' ns'))" "log_docs (ns_port q' E' ns')" "on_wire json_dumps" "vault.bus_live q' E' ns'"
  for q E ns q' E' ns'
  by (intro evidence_home.intro vault.blobs_axioms vault.wire.verdict_wire_port)

section \<open>The boot\<close>

definition exec_completed_check :: static_check where
  "exec_completed_check artifact metadata =
     (case metadata of
        PyDict d \<Rightarrow>
          Inr (PyDict [(''outcome'', PyStr (if py_get metadata ''state'' PyNone = PyStr ''completed'' then ''pass'' else ''fail'')),
            (''detail'', PyDict [(''state'', py_get metadata ''state'' PyNone)])])
      | _ \<Rightarrow> Inl NotAMapping)"

definition boot_verification :: "'s \<Rightarrow> 'b \<Rightarrow> ('s, 'b) verification vae" where
  "boot_verification s b =
     bind_sum (register_check new_registry ''exec_completed'' exec_completed_check) (\<lambda>registry.
       case rules_ingest empty_rules (PyInt 1) (RulesValue (PyDict [(''workflow_unit'', PyDict
           [(''required_checks'', PyList [PyStr ''exec_completed'', PyStr ''reference_wellformed'']),
            (''depth'', PyStr ''standard''),
            (''deadlines'', PyDict [(''exec_completed'', PyInt 10), (''reference_wellformed'', PyInt 10)])])])) of
         (rules, Inl e) \<Rightarrow> Inl e
       | (rules, Inr _) \<Rightarrow>
           bind_sum (build_derivation_policy (PyInt 1) (FloatArg 1 1) (FloatArg 8106479329266893 53)) (\<lambda>policy.
             Inr (new_verification policy rules registry s b)))"

section \<open>The verdict on a workflow unit\<close>

definition unit_artifact :: "string \<Rightarrow> string \<Rightarrow> string" where
  "unit_artifact rid uid = ''unit:'' @ rid @ '':'' @ uid"

definition unit_demand :: "string \<Rightarrow> string \<Rightarrow> demand" where
  "unit_demand rid uid = \<lparr>dm_event = ''verify.requested'', dm_event_id = rid @ '':vr:'' @ uid,
     dm_artifact = unit_artifact rid uid, dm_judgment = ''j:'' @ unit_artifact rid uid, dm_type = ''workflow_unit'',
     dm_rules = 1, dm_delegated = [],
     dm_static = [(''exec_completed'', ''system''), (''reference_wellformed'', ''system'')]\<rparr>"

text \<open>The part of \<open>System._verdict\<close> before the workflow and the kernel hear of it.\<close>

definition judge_unit ::
  "vae_digest \<Rightarrow> 's blob_writer \<Rightarrow> 'b publisher \<Rightarrow> ('s, 'b) verification \<Rightarrow> string \<Rightarrow> string \<Rightarrow> pyval
     \<Rightarrow> ('s, 'b) verification \<times> emission_result option vae" where
  "judge_unit sha wr pub V rid uid state =
     (let a = unit_artifact rid uid in
      case handle_demand V (unit_demand rid uid) of
        (V1, Inl e) \<Rightarrow> (V1, Inl e)
      | (V1, Inr _) \<Rightarrow>
          (case vae_run_static V1 a ''exec_completed'' (PyDict [(''state'', state)]) of
             (V2, Inl e) \<Rightarrow> (V2, Inl e)
           | (V2, Inr _) \<Rightarrow>
               (case vae_run_static V2 a ''reference_wellformed'' (PyDict []) of
                  (V3, Inl e) \<Rightarrow> (V3, Inl e)
                | (V3, Inr _) \<Rightarrow> try_close_and_emit sha wr pub V3 a)))"

section \<open>The channel of the tests\<close>

record execution_double =
  xd_no_ack :: "string list"
  xd_results :: "(string, int \<times> string \<times> pyval) dict"
  xd_log :: "(string \<times> pyval) list"

definition double_outcomes :: "string list" where
  "double_outcomes = [''success'', ''failure'', ''timeout'', ''crash'']"

definition new_double :: execution_double where
  "new_double = \<lparr>xd_no_ack = [], xd_results = [], xd_log = []\<rparr>"

definition script_no_ack :: "execution_double \<Rightarrow> string \<Rightarrow> execution_double" where
  "script_no_ack x k = x\<lparr>xd_no_ack := k # xd_no_ack x\<rparr>"

definition script_result :: "execution_double \<Rightarrow> string \<Rightarrow> int \<Rightarrow> string \<Rightarrow> pyval \<Rightarrow> execution_double option" where
  "script_result x k arrival outcome detail =
     (if outcome \<notin> set double_outcomes then None
      else Some (x\<lparr>xd_results := dset k (arrival, outcome, detail) (xd_results x)\<rparr>))"

definition double_dispatch :: "execution_double \<Rightarrow> string \<Rightarrow> pyval \<Rightarrow> execution_double \<times> bool" where
  "double_dispatch x k request =
     (let x = x\<lparr>xd_log := xd_log x @ [(k, request)]\<rparr> in
      if k \<in> set (xd_no_ack x) then (x\<lparr>xd_no_ack := filter (\<lambda>n. n \<noteq> k) (xd_no_ack x)\<rparr>, False) else (x, True))"

definition double_poll :: "execution_double \<Rightarrow> string \<Rightarrow> int \<Rightarrow> execution_double \<times> pyval" where
  "double_poll x k now =
     (case dget (xd_results x) k of
        None \<Rightarrow> (x, PyNone)
      | Some (arrival, outcome, detail) \<Rightarrow>
          (x, if now < arrival then PyNone else PyDict [(''outcome'', PyStr outcome), (''detail'', detail)]))"

definition double_channel :: "execution_double channel" where
  "double_channel = \<lparr>ch_dispatch = double_dispatch, ch_poll = double_poll\<rparr>"

end
