(* ===== verification/VaeUnit.thy ===== *)
theory VaeUnit
  imports VaeSystem
begin

text \<open>
  The verdict on a workflow unit under the wiring of \<open>system.py\<close>: a booted engine that has not met
  the unit before announces exactly one verdict, passed if and only if the reported state is
  \<open>completed\<close>, and is booted afterwards.
\<close>

definition booted :: "('s, 'b) verification \<Rightarrow> bool" where
  "booted V \<longleftrightarrow> (\<exists>V0. boot_verification (vr_storage V) (vr_bus V) = Inr V0 \<and> vr_rules V = vr_rules V0
     \<and> vr_registry V = vr_registry V0 \<and> vr_policy V = vr_policy V0)"

lemma unit_rules: 
  "\<exists>rules ar. rules_ingest empty_rules (PyInt 1) (RulesValue (PyDict [(''workflow_unit'', PyDict
           [(''required_checks'', PyList [PyStr ''exec_completed'', PyStr ''reference_wellformed'']),
            (''depth'', PyStr ''standard''),
            (''deadlines'', PyDict [(''exec_completed'', PyInt 10), (''reference_wellformed'', PyInt 10)])])])) = (rules, Inr ar)
     \<and> (\<exists>a. rules_lookup rules ''workflow_unit'' 1 = Inr a)"
proof -
  let ?r = "rules_ingest empty_rules (PyInt 1) (RulesValue (PyDict [(''workflow_unit'', PyDict
           [(''required_checks'', PyList [PyStr ''exec_completed'', PyStr ''reference_wellformed'']),
            (''depth'', PyStr ''standard''),
            (''deadlines'', PyDict [(''exec_completed'', PyInt 10), (''reference_wellformed'', PyInt 10)])])]))"
  have "\<not> isl (snd ?r) \<and> \<not> isl (rules_lookup (fst ?r) ''workflow_unit'' 1)" by code_simp
  then show ?thesis by (metis isl_def prod.collapse sum.exhaust)
qed

lemma unit_policy: "\<exists>p. build_derivation_policy (PyInt 1) (FloatArg 1 1) (FloatArg 8106479329266893 53) = Inr p"
  by (simp add: build_derivation_policy_def unit_fraction_def double_le_def)

lemma boot_verification_cases:
  assumes "boot_verification s b = Inr V"
  obtains ar where "vr_registry V = [(''reference_wellformed'', reference_wellformed), (''exec_completed'', exec_completed_check)]"
    "rules_lookup (vr_rules V) ''workflow_unit'' 1 = Inr ar" "vr_storage V = s" "vr_bus V = b" "vr_intake V = new_intake" "vr_open V = []"
proof -
  obtain rules r a where 1: "rules_ingest empty_rules (PyInt 1) (RulesValue (PyDict [(''workflow_unit'', PyDict
           [(''required_checks'', PyList [PyStr ''exec_completed'', PyStr ''reference_wellformed'']),
            (''depth'', PyStr ''standard''),
            (''deadlines'', PyDict [(''exec_completed'', PyInt 10), (''reference_wellformed'', PyInt 10)])])])) = (rules, Inr r)"
    "rules_lookup rules ''workflow_unit'' 1 = Inr a" using unit_rules by blast
  show thesis using assms 1 
    by (auto simp: boot_verification_def register_check_def new_registry_def new_verification_def split: sum.splits intro: that)
qed

lemma boot_verification_ok: "\<exists>V. boot_verification s b = Inr V"
  using unit_rules unit_policy by (auto simp: boot_verification_def register_check_def new_registry_def)

lemma booted_frame:
  fixes V V' :: "('s, 'b) verification"
  assumes "booted V" and "vr_rules V' = vr_rules V" and "vr_registry V' = vr_registry V" and "vr_policy V' = vr_policy V"
  shows "booted V'"
proof -
  obtain V0 where V0: "boot_verification (vr_storage V) (vr_bus V) = Inr V0" "vr_rules V = vr_rules V0"
      "vr_registry V = vr_registry V0" "vr_policy V = vr_policy V0"
    using assms(1) by (auto simp: booted_def)
  have "boot_verification (vr_storage V') (vr_bus V') = Inr (V0\<lparr>vr_storage := vr_storage V', vr_bus := vr_bus V'\<rparr>)"
    using V0(1) by (auto simp: boot_verification_def new_verification_def split: sum.splits prod.splits)
  with V0 assms(2-4) show ?thesis by (auto simp: booted_def)
qed

text \<open>The judgment a unit's demand opens, and the items of its two checks.\<close>

definition unit_opened :: "string \<Rightarrow> string \<Rightarrow> vae_judgment" where
  "unit_opened rid uid =
     (let a = unit_artifact rid uid in
      \<lparr>jd_id = ''j:'' @ a, jd_artifact = a, jd_rules = 1,
       jd_body = \<lparr>er_artifact = a, er_rules = 1, er_items = [], er_account = None\<rparr>, jd_delegations = [],
       jd_pending = [''exec_completed'', ''reference_wellformed''],
       jd_levels = [(''exec_completed'', ''system''), (''reference_wellformed'', ''system'')], jd_closed = False\<rparr>)"

definition unit_item :: "string \<Rightarrow> string \<Rightarrow> bool \<Rightarrow> evidence_item" where
  "unit_item a check ok = \<lparr>ei_rule = ''rule.'' @ check, ei_artifact = a, ei_source = Some (''static:'' @ check),
     ei_result = (if ok then ''pass'' else ''fail''), ei_kind = ''independent'', ei_level = ''system''\<rparr>"

definition unit_body :: "string \<Rightarrow> evidence_item list \<Rightarrow> evidence_record" where
  "unit_body a items = \<lparr>er_artifact = a, er_rules = 1, er_items = items, er_account = None\<rparr>"

lemma artifact_nonempty [simp]: "unit_artifact rid uid \<noteq> []"
  by (simp add: unit_artifact_def)

lemma unit_demand_opens:
  assumes "booted V" and "rid @ '':vr:'' @ uid \<notin> set (in_seen (vr_intake V))"
    and "dget (in_terminal (vr_intake V)) (unit_artifact rid uid) = None" and "dget (in_open (vr_intake V)) (unit_artifact rid uid) = None"
  shows "\<exists>res. handle_demand V (unit_demand rid uid)
    = (V\<lparr>vr_intake := (vr_intake V)\<lparr>in_seen := (rid @ '':vr:'' @ uid) # in_seen (vr_intake V),
           in_open := dset (unit_artifact rid uid) (''j:'' @ unit_artifact rid uid) (in_open (vr_intake V))\<rparr>,
         vr_open := dset (unit_artifact rid uid) (unit_opened rid uid) (vr_open V)\<rparr>, Inr res)"
proof -
  obtain V0 ar where "boot_verification (vr_storage V) (vr_bus V) = Inr V0" "vr_rules V = vr_rules V0"
      "rules_lookup (vr_rules V0) ''workflow_unit'' 1 = Inr ar"
    using assms(1) boot_verification_cases by (metis booted_def)
  then have "judgment_for (vr_rules V) (unit_demand rid uid) = Inr (unit_opened rid uid)"
    by (simp add: judgment_for_def unit_demand_def demand_checks_def open_judgment_def build_evidence_record_def validate_binding_def
        unit_opened_def Let_def)
  with assms(2-4) show ?thesis
    by (simp add: handle_demand_def receive_def unit_demand_def check_consumed_def vae_consumed_def Let_def)
qed

lemma registry_checks:
  assumes "booted V"
  shows "dget (vr_registry V) ''exec_completed'' = Some exec_completed_check"
    and "dget (vr_registry V) ''reference_wellformed'' = Some reference_wellformed"
proof -
  obtain V0 where "boot_verification (vr_storage V) (vr_bus V) = Inr V0" "vr_registry V = vr_registry V0"
    using assms by (auto simp: booted_def)
  then have "vr_registry V = [(''reference_wellformed'', reference_wellformed), (''exec_completed'', exec_completed_check)]"
    using boot_verification_cases by metis
  then show "dget (vr_registry V) ''exec_completed'' = Some exec_completed_check"
    "dget (vr_registry V) ''reference_wellformed'' = Some reference_wellformed" by simp_all
qed

lemma exec_check_runs:
  assumes "dget R ''exec_completed'' = Some exec_completed_check"
  shows "run_static_check R (unit_opened rid uid) ''exec_completed'' (PyDict [(''state'', state)])
    = Inr ((unit_opened rid uid)\<lparr>jd_body := unit_body (unit_artifact rid uid) [unit_item (unit_artifact rid uid) ''exec_completed'' (state = PyStr ''completed'')],
        jd_pending := [''reference_wellformed'']\<rparr>)"
  using assms
  by (cases "unit_artifact rid uid")
    (auto simp: run_static_check_def unit_opened_def Let_def registry_run_def exec_completed_check_def add_evidence_def level_of_def
      build_evidence_item_def contribution_kinds_def evidence_text_def evidence_source_def append_item_def unit_item_def unit_body_def)

lemma reference_ok: "reference_wellformed (unit_artifact rid uid) m
   = Inr (PyDict [(''outcome'', PyStr ''pass''), (''detail'', PyDict [(''artifact_ref'', PyStr (unit_artifact rid uid))])])"
  by (simp add: reference_wellformed_def unit_artifact_def)

definition unit_settled :: "string \<Rightarrow> string \<Rightarrow> bool \<Rightarrow> vae_judgment" where
  "unit_settled rid uid ok =
     (let a = unit_artifact rid uid in
      (unit_opened rid uid)\<lparr>jd_body := unit_body a [unit_item a ''exec_completed'' ok, unit_item a ''reference_wellformed'' True],
         jd_pending := []\<rparr>)"

lemma reference_check_runs:
  assumes "dget R ''reference_wellformed'' = Some reference_wellformed"
  shows "run_static_check R ((unit_opened rid uid)\<lparr>jd_body := unit_body (unit_artifact rid uid) [it], jd_pending := [''reference_wellformed'']\<rparr>)
      ''reference_wellformed'' m
    = Inr ((unit_opened rid uid)\<lparr>jd_body := unit_body (unit_artifact rid uid) [it, unit_item (unit_artifact rid uid) ''reference_wellformed'' True],
        jd_pending := []\<rparr>)"
  using assms reference_ok [of rid uid]
  by (cases "unit_artifact rid uid")
    (auto simp: run_static_check_def unit_opened_def Let_def registry_run_def add_evidence_def level_of_def
      build_evidence_item_def contribution_kinds_def evidence_text_def evidence_source_def append_item_def unit_item_def unit_body_def)

lemma static_check_recorded:
  assumes "dget (vr_open V) a = Some j" and "run_static_check (vr_registry V) j check m = Inr j'" and "er_items (jd_body j') \<noteq> []"
  shows "\<exists>sink. vae_run_static V a check m = (V\<lparr>vr_open := dset a j' (vr_open V), vr_sink := sink\<rparr>, Inr j')"
proof -
  obtain t where "emit_check_activity (vr_sink V) a check ''static_run'' (Some (ei_result (last (er_items (jd_body j'))))) = Inr t"
    using check_activity_ok [of "''static_run''" "vr_sink V" a check "Some (ei_result (last (er_items (jd_body j'))))"]
    by (auto simp: check_phases_def)
  with assms show ?thesis
    by (auto simp: vae_run_static_def require_open_def last_result_def with_sink_def)
qed

lemma ddel_dset_fresh: "dget d k = None \<Longrightarrow> ddel k (dset k v d) = d"
  by (induction d) (auto split: if_splits)

lemma unit_settles:
  assumes "booted V" and "rid @ '':vr:'' @ uid \<notin> set (in_seen (vr_intake V))"
    and "dget (in_terminal (vr_intake V)) (unit_artifact rid uid) = None" and "dget (in_open (vr_intake V)) (unit_artifact rid uid) = None"
  obtains sink where "judge_unit sha wr pub V rid uid state = try_close_and_emit sha wr pub
      (V\<lparr>vr_intake := (vr_intake V)\<lparr>in_seen := (rid @ '':vr:'' @ uid) # in_seen (vr_intake V),
           in_open := dset (unit_artifact rid uid) (''j:'' @ unit_artifact rid uid) (in_open (vr_intake V))\<rparr>,
         vr_open := dset (unit_artifact rid uid) (unit_settled rid uid (state = PyStr ''completed'')) (vr_open V), vr_sink := sink\<rparr>)
      (unit_artifact rid uid)"
proof -
  let ?a = "unit_artifact rid uid" and ?ok = "state = PyStr ''completed''"
  let ?i = "(vr_intake V)\<lparr>in_seen := (rid @ '':vr:'' @ uid) # in_seen (vr_intake V), in_open := dset ?a (''j:'' @ ?a) (in_open (vr_intake V))\<rparr>"
  let ?V1 = "V\<lparr>vr_intake := ?i, vr_open := dset ?a (unit_opened rid uid) (vr_open V)\<rparr>"
  let ?j1 = "(unit_opened rid uid)\<lparr>jd_body := unit_body ?a [unit_item ?a ''exec_completed'' ?ok], jd_pending := [''reference_wellformed'']\<rparr>"
  obtain res where 1: "handle_demand V (unit_demand rid uid) = (?V1, Inr res)"
    using unit_demand_opens [OF assms] by blast
  have r: "dget (vr_registry ?V1) ''exec_completed'' = Some exec_completed_check"
      "dget (vr_registry ?V1) ''reference_wellformed'' = Some reference_wellformed"
    using registry_checks [OF assms(1)] by simp_all
  have o1: "dget (vr_open ?V1) ?a = Some (unit_opened rid uid)" and n1: "er_items (jd_body ?j1) \<noteq> []"
    by (simp_all add: dict_simps unit_body_def)
  obtain s1 where 2: "vae_run_static ?V1 ?a ''exec_completed'' (PyDict [(''state'', state)])
      = (?V1\<lparr>vr_open := dset ?a ?j1 (vr_open ?V1), vr_sink := s1\<rparr>, Inr ?j1)"
    using static_check_recorded [OF o1 exec_check_runs [OF r(1)] n1] by blast
  let ?V2 = "?V1\<lparr>vr_open := dset ?a ?j1 (vr_open ?V1), vr_sink := s1\<rparr>"
  have r2: "dget (vr_registry ?V2) ''reference_wellformed'' = Some reference_wellformed" using r(2) by simp
  have run2: "run_static_check (vr_registry ?V2) ?j1 ''reference_wellformed'' (PyDict []) = Inr (unit_settled rid uid ?ok)"
    unfolding reference_check_runs [OF r2] by (simp add: unit_settled_def Let_def)
  have o2: "dget (vr_open ?V2) ?a = Some ?j1" and n2: "er_items (jd_body (unit_settled rid uid ?ok)) \<noteq> []"
    by (simp_all add: dict_simps unit_body_def unit_settled_def Let_def)
  obtain s2 where 3: "vae_run_static ?V2 ?a ''reference_wellformed'' (PyDict [])
      = (?V2\<lparr>vr_open := dset ?a (unit_settled rid uid ?ok) (vr_open ?V2), vr_sink := s2\<rparr>, Inr (unit_settled rid uid ?ok))"
    using static_check_recorded [OF o2 run2 n2] by blast
  have "judge_unit sha wr pub V rid uid state
      = try_close_and_emit sha wr pub (?V2\<lparr>vr_open := dset ?a (unit_settled rid uid ?ok) (vr_open ?V2), vr_sink := s2\<rparr>) ?a"
    unfolding judge_unit_def Let_def 1 2 3 prod.case sum.case ..
  then show thesis by (intro that [of s2]) simp
qed

text \<open>The verdict, and the engine after it.\<close>

lemma judge_unit_emits:
  assumes b: "booted V" and s: "rid @ '':vr:'' @ uid \<notin> set (in_seen (vr_intake V))"
    and t: "dget (in_terminal (vr_intake V)) (unit_artifact rid uid) = None" and o: "dget (in_open (vr_intake V)) (unit_artifact rid uid) = None"
    and wr: "commits wr" and pub: "takes_verdicts pub"
  obtains V' em ref where "judge_unit sha wr pub V rid uid state = (V', Inr (Some em))" "em_outcome em = Emitted"
    "em_verdict em = PyStr (if state = PyStr ''completed'' then ''passed'' else ''failed'')" "em_ref em = Some ref" "booted V'"
    "in_seen (vr_intake V') = (rid @ '':vr:'' @ uid) # in_seen (vr_intake V)"
    "in_terminal (vr_intake V') = in_terminal (vr_intake V) @ [(unit_artifact rid uid, ref)]"
    "in_open (vr_intake V') = in_open (vr_intake V)"
proof -
  let ?a = "unit_artifact rid uid" and ?ok = "state = PyStr ''completed''"
  let ?j = "unit_settled rid uid ?ok"
  obtain sink where js: "judge_unit sha wr pub V rid uid state = try_close_and_emit sha wr pub
      (V\<lparr>vr_intake := (vr_intake V)\<lparr>in_seen := (rid @ '':vr:'' @ uid) # in_seen (vr_intake V),
           in_open := dset ?a (''j:'' @ ?a) (in_open (vr_intake V))\<rparr>, vr_open := dset ?a ?j (vr_open V), vr_sink := sink\<rparr>) ?a"
    (is "_ = try_close_and_emit sha wr pub ?V _")
    by (rule unit_settles [OF b s t o]) blast
  have j: "dget (vr_open ?V) ?a = Some ?j" "judgment_ok ?a ?j" "is_closed ?j" "jd_artifact ?j \<noteq> []"
      "\<forall>it \<in> set (er_items (jd_body ?j)). level_known it" "dget (in_terminal (vr_intake ?V)) ?a = None"
    using t by (simp_all add: unit_settled_def unit_opened_def unit_body_def Let_def judgment_ok_def is_closed_def unit_item_def
        level_known_def level_to_dimension_def dict_simps)
  obtain V' em d ref where c: "try_close_and_emit sha wr pub ?V ?a = (V', Inr (Some em))" "em_outcome em = Emitted"
    "derive (jd_body ?j) (vr_policy ?V) = Inr d" "em_verdict em = PyStr (dv_verdict d)" "em_ref em = Some ref"
    "vr_intake V' = (vr_intake ?V)\<lparr>in_terminal := in_terminal (vr_intake ?V) @ [(?a, ref)], in_open := ddel ?a (in_open (vr_intake ?V))\<rparr>"
    "vr_rules V' = vr_rules ?V" "vr_registry V' = vr_registry ?V" "vr_policy V' = vr_policy ?V"
    by (rule closed_emits [OF j wr pub])
  have items: "set (er_items (jd_body ?j)) = {unit_item ?a ''exec_completed'' ?ok, unit_item ?a ''reference_wellformed'' True}"
    by (simp add: unit_settled_def unit_body_def Let_def)
  have "cause_of {unit_item ?a ''exec_completed'' k, unit_item ?a ''reference_wellformed'' True} = None \<longleftrightarrow> k" for k
    by (cases k) (auto simp: cause_none item_ran_def item_passes_def unit_item_def passing_results_def)
  then have vd: "dv_verdict d = (if ?ok then ''passed'' else ''failed'')"
    using dv_verdict_cause [OF c(3)] items by simp
  have "ddel ?a (dset ?a (''j:'' @ ?a) (in_open (vr_intake V))) = in_open (vr_intake V)"
    using o by (rule ddel_dset_fresh)
  moreover have "booted V'" by (rule booted_frame [OF b]) (use c(7-9) in simp_all)
  ultimately show thesis using js c(1,2,4-6) vd by (intro that [of V' em ref]) simp_all
qed

end
