(* ===== verification/VaeProps.thy ===== *)
theory VaeProps
  imports VaeUnit
begin

text \<open>
  The properties of the verification engine, with their witnesses, and behaviours the code's own
  description rules out.
\<close>

section \<open>Verdicts\<close>

text \<open>
  C35: every verdict is backed. From a fresh engine over its namespace of a vault, with its
  verdicts on a durable bus whose log is empty, whatever operations run (raising ones included)
  and whatever else is published on other topics: the verdict topics hold exactly the verdicts of
  a sequence of records, one artifact each; each record carries its own derivation and is stored
  under its digest; intake knows exactly these; and the replay of each reproduces record, account
  and announced message. The digest is injective and its values are legal in keys. The two
  namespaces are given as two stores, which the isolation of namespaces allows.
\<close>

theorem verdicts_are_backed:
  assumes "inj sha" and "\<forall>t. plain_key ''vae'' (evidence_key (sha t))"
    and "vault_good E ''vae'' s" and "vault_good E' ''communication'' s'"
    and "ns_keys ''communication'' s' ''communication/log'' = Inr []"
    and "vae_steps sha (ns_port q E ''vae'') (verdict_wire (bus_pub (wire_port q' E'))) (log_docs (wire_port q' E'))
      (vault.bus_live q' E' ''communication'') C
      (x, new_verification p rules registry s (bus_init (Some s') depth n)) (x', V)"
  shows "\<exists>rs. backed sha p (ns_port q E ''vae'') (log_docs (wire_port q' E')) (on_wire json_dumps) V rs
    \<and> (\<forall>r \<in> set rs. \<exists>d. derive r p = Inr d
        \<and> vae_replay sha (bp_read (ns_port q E ''vae'')) V (evidence_key (evidence_hash sha r)) (snd (verdict_message sha r))
          = Inr (canon_record r, d))"
proof -
  let ?V0 = "new_verification p rules registry s (bus_init (Some s') depth n)"
  have "home.vinv q E ''vae'' q' E' ''communication'' sha p ?V0 []"
    using boot_live [OF assms(4,5)] by (intro home.vinv_fresh assms(3)) simp_all
  then obtain rs where inv: "home.vinv q E ''vae'' q' E' ''communication'' sha p V rs"
    using home.vinv_steps [OF assms(1,2,6)] by fastforce
  then have "backed sha p (ns_port q E ''vae'') (log_docs (wire_port q' E')) (on_wire json_dumps) V rs"
    by (simp add: home.vinv_def)
  with home.backed_replay [OF inv] show ?thesis by blast
qed

section \<open>Derivation\<close>

text \<open>
  C36: the derivation meets its specification and its outcome depends on the evidence only as a
  multiset: when every item names a known level it succeeds, its verdict and cause are those of the set of items, the
  confidence of a dimension is that of the strengths of its claims, coverage counts claims,
  the uncertainty lists the claims without substance in order, and the assurance follows.
\<close>

theorem derivation_meets_spec:
  assumes "\<forall>it \<in> set (er_items r). level_known it" and "mset (er_items r') = mset (er_items r)"
  shows "\<exists>d d'. derive r p = Inr d \<and> derive r' p = Inr d' \<and> outcome_of d' = outcome_of d
    \<and> outcome_of d =
      (if cause_of (set (er_items r)) = None then ''passed'' else ''failed'', cause_of (set (er_items r)),
       map (\<lambda>dim. (dim, spec_confidence (er_items r) dim)) dimensions, spec_coverage (er_items r) p,
       filter (\<lambda>key. key_strength (er_items r) key = ''absent'') (sorted_list_of_set (claim_of ` set (er_items r))),
       spec_assurance (er_items r) p)"
proof -
  have s: "set (er_items r') = set (er_items r)" using assms(2) by (metis set_mset_mset)
  obtain d d' where d: "derive r p = Inr d" "derive r' p = Inr d'"
    using assms(1) s derive_ok_iff [of r p] derive_ok_iff [of r' p] by auto
  have "outcome_of d' = outcome_of d"
    unfolding derive_outcome [OF d(1)] derive_outcome [OF d(2)] s
    using spec_mset [OF assms(2)] key_strength_mset [OF assms(2)] by simp
  with d derive_outcome [OF d(1)] show ?thesis by blast
qed

section \<open>Judgments\<close>

lemma passed_items: "derive r p = Inr d \<Longrightarrow> dv_verdict d = ''passed'' \<Longrightarrow> it \<in> set (er_items r) \<Longrightarrow> item_passes it"
  using dv_verdict_cause [of r p d] cause_none [of "set (er_items r)"] by (simp split: if_splits)

text \<open>
  C37: a closed judgment heard every check. Whatever is dispatched, resolved, recorded late or
  run on an opened judgment, and in whatever order, once every declared check is settled there
  is exactly one independent item for each of them, and none of them failed if the derivation
  of the body passes it. Hypothesis on the channel: every result it returns names an outcome.
\<close>

theorem closed_judgment_covers_checks:
  assumes "open_judgment jid a n delegated static = Inr j0" and "(judgment_step C R)\<^sup>*\<^sup>* j0 j" and "answers C"
    and "is_closed j" and "c \<in> set (dkeys delegated) \<union> set (dkeys static)"
  shows "\<exists>it. check_items (jd_body j) c = [it]
    \<and> (\<forall>p d. derive (jd_body j) p = Inr d \<and> dv_verdict d = ''passed'' \<longrightarrow> ei_result it \<in> set passing_results)"
proof -
  have "covers (set (dkeys delegated)) (set (dkeys static)) j"
    by (rule covers_steps [OF assms(2,3) covers_open [OF assms(1)]])
  then have "length (check_items (jd_body j) c) = 1"
    using assms(5) closed_settled [OF assms(4), of c] by (simp add: covers_def)
  then obtain it where it: "check_items (jd_body j) c = [it]" by (auto simp: length_Suc_conv)
  then have "it \<in> set (check_items (jd_body j) c)" by simp
  then have "it \<in> set (er_items (jd_body j))" "ei_kind it = ''independent''" by (auto simp: check_items_def)
  with passed_items it show ?thesis by (auto simp: item_passes_def)
qed

text \<open>
  C38: a judgment ends. Once the static checks of an open judgment have run, its delegations
  were dispatched and their deadlines have passed, resolving each delegation once closes it,
  whether the channel answers or stays silent, and closing then announces a verdict and retires
  the artifact. Hypotheses: the levels of the checks are known ones, the artifact has a name and
  no verdict yet, a result that the channel returns names an outcome, storage commits and the bus
  accepts.
\<close>

theorem due_judgment_is_announced:
  assumes "opens_ok V" and "dget (vr_open V) a = Some j" and "due now j" and "answers C"
    and "dget (in_terminal (vr_intake V)) a = None" and "commits (bp_write P)" and "takes_verdicts pub"
  shows "\<exists>x' V' V'' em. foldl (vae_apply sha P pub C) (x, V) (map (\<lambda>c. Resolve a c now) (dkeys (jd_delegations j))) = (x', V')
    \<and> try_close_and_emit sha (bp_write P) pub V' a = (V'', Inr (Some em)) \<and> em_outcome em = Emitted
    \<and> dget (vr_open V'') a = None"
proof -
  obtain x' V' j' where r: "foldl (vae_apply sha P pub C) (x, V) (map (\<lambda>c. Resolve a c now) (dkeys (jd_delegations j))) = (x', V')"
      "keeps_verdicts V V'" "vr_intake V' = vr_intake V" "dget (vr_open V') a = Some j'" "due now j'"
      "dkeys (jd_delegations j') = dkeys (jd_delegations j)" "\<forall>c \<in> set (dkeys (jd_delegations j)). terminal_at j' c"
    using resolve_all_due [OF assms(2-4) order_refl, of sha P pub x] by blast
  have cl: "is_closed j'" using due_closed [OF r(5)] r(6,7) by simp
  have "opens_ok V'" using r(2) assms(1) by (simp add: keeps_verdicts_def)
  then have ok: "judgment_ok a j'" using r(4) by (rule opens_okD)
  have "dget (in_terminal (vr_intake V')) a = None" using r(3) assms(5) by simp
  moreover have "jd_artifact j' \<noteq> []" "\<forall>it \<in> set (er_items (jd_body j')). level_known it"
    using r(5) by (simp_all add: due_def levels_known_def)
  ultimately obtain V'' em where "try_close_and_emit sha (bp_write P) pub V' a = (V'', Inr (Some em))"
      "em_outcome em = Emitted" "vr_open V'' = ddel a (vr_open V')"
    using closed_emits [OF r(4) ok cl _ _ _ assms(6,7)] by metis
  with r(1) show ?thesis by (simp add: dict_simps)
qed

section \<open>Recovery\<close>

lemma mark_all_terminal:
  assumes "distinct (map er_artifact rs)" and "\<forall>r \<in> set rs. dget (in_terminal i) (er_artifact r) = None" and "in_open i = []"
  shows "foldm (\<lambda>i (artifact, r).
      case mark_terminal i artifact (''storage:vae/ev/'' @ evidence_hash sha r) of (i', Inl e) \<Rightarrow> Inl e | (i', Inr _) \<Rightarrow> Inr i')
      i (map (\<lambda>r. (er_artifact r, r)) rs)
    = Inr (i\<lparr>in_terminal := in_terminal i @ map (\<lambda>r. (er_artifact r, record_ref sha r)) rs\<rparr>)"
  using assms
proof (induction rs arbitrary: i)
  case (Cons r rs)
  let ?i = "i\<lparr>in_terminal := in_terminal i @ [(er_artifact r, record_ref sha r)]\<rparr>"
  have m: "mark_terminal i (er_artifact r) (''storage:vae/ev/'' @ evidence_hash sha r) = (?i, Inr ())"
    using Cons.prems(2,3) by (simp add: mark_terminal_fresh record_ref_def)
  have "\<forall>r' \<in> set rs. dget (in_terminal ?i) (er_artifact r') = None"
    using Cons.prems(1,2) by (force simp: map_add_def image_iff split: option.splits)
  with Cons.IH [of ?i] Cons.prems(1,3) m show ?case by simp
qed simp

lemma vae_run_steps: "vae_steps sha P pub h l C xV (vae_run sha P pub C xV ops)"
proof (induction ops arbitrary: xV)
  case (Cons op ops)
  obtain x V where xV: "xV = (x, V)" by (cases xV)
  have "vae_step sha P pub h l C xV (vae_apply sha P pub C xV op)" unfolding xV by (rule vae_step.own)
  with Cons.IH [of "vae_apply sha P pub C xV op"] show ?case by simp
qed simp

text \<open>
  C39: recovery rebuilds the pending work. After any run from a fresh engine over an empty bus
  log in which no demand raised and storage rejected no record, replaying the demands against the announced records rebuilds the intake exactly, and the
  same open judgments: same artifacts, identities, rules, delegations with their keys and
  deadlines, and levels. What had been dispatched or run before is asked again. The digest is as
  in C35.
\<close>

theorem rebuild_recovers_pending:
  assumes "inj sha" and "\<forall>t. plain_key ''vae'' (evidence_key (sha t))"
    and "vault_good E ''vae'' s" and "vault_good E' ''communication'' s'"
    and "ns_keys ''communication'' s' ''communication/log'' = Inr []"
    and "P = ns_port q E ''vae''" and "pub = verdict_wire (bus_pub (wire_port q' E'))"
    and "xV = (x, new_verification p rules registry s (bus_init (Some s') depth n))"
    and "clean_run sha P pub C xV ops" and "vae_run sha P pub C xV ops = (x', V)"
  shows "\<exists>rs pj. backed sha p P (log_docs (wire_port q' E')) (on_wire json_dumps) V rs
    \<and> rebuild sha (demands_of ops) (map (\<lambda>r. (er_artifact r, r)) rs) rules = Inr pj
    \<and> pj_intake pj = vr_intake V \<and> shapes (pj_judgments pj) = shapes (vr_open V)"
proof -
  let ?V0 = "new_verification p rules registry s (bus_init (Some s') depth n)"
  have inv0: "home.vinv q E ''vae'' q' E' ''communication'' sha p (snd xV) []"
    unfolding assms(8) snd_conv using boot_live [OF assms(4,5)] by (intro home.vinv_fresh assms(3)) simp_all
  have "vae_steps sha P pub (log_docs (wire_port q' E')) (vault.bus_live q' E' ''communication'') C xV (x', V)"
    unfolding assms(10) [symmetric] by (rule vae_run_steps)
  then obtain rs where rs: "home.vinv q E ''vae'' q' E' ''communication'' sha p V rs"
    using home.vinv_steps [OF assms(1,2) _ inv0] unfolding assms(6,7) by fastforce
  have bk: "backed sha p P (log_docs (wire_port q' E')) (on_wire json_dumps) V rs"
    using rs unfolding home.vinv_def assms(6) by blast
  let ?T = "in_terminal (vr_intake V)"
  have T: "?T = map (\<lambda>r. (er_artifact r, record_ref sha r)) rs" "distinct (map er_artifact rs)"
    using bk by (simp_all add: backed_def)
  let ?i = "new_intake\<lparr>in_terminal := ?T\<rparr>" and ?pj = "\<lparr>pj_intake = new_intake\<lparr>in_terminal := ?T\<rparr>, pj_judgments = []\<rparr>"
  have marked: "foldm (\<lambda>i (artifact, r).
      case mark_terminal i artifact (''storage:vae/ev/'' @ evidence_hash sha r) of (i', Inl e) \<Rightarrow> Inl e | (i', Inr _) \<Rightarrow> Inr i')
      new_intake (map (\<lambda>r. (er_artifact r, r)) rs) = Inr ?i"
    using mark_all_terminal [OF T(2), of new_intake sha] T(1) by (simp add: new_intake_def)
  have ok0: "opens_ok (snd xV)" "tidy (snd xV)" "follows ?T (snd xV) ?pj" "vr_rules (snd xV) = rules"
    using inv0 by (simp_all add: home.vinv_def assms(8) tidy_def follows_def new_verification_def new_intake_def outside_def shapes_def)
  from run_follows [OF ok0(1-3) assms(9)] obtain pj where pj:
      "foldm (rebuild_demand rules) ?pj (demands_of ops) = Inr pj" "follows ?T V pj" "tidy V"
    unfolding assms(10) ok0(4) by auto
  have "outside ?T (in_open (vr_intake V)) = in_open (vr_intake V)"
    using pj(3) by (intro outside_disjoint) (simp add: tidy_def)
  moreover have "outside ?T (shapes (vr_open V)) = shapes (vr_open V)"
    using pj(3) by (intro outside_disjoint) (auto simp: tidy_def dkeys_shapes simp del: set_map)
  ultimately have "pj_intake pj = vr_intake V" "shapes (pj_judgments pj) = shapes (vr_open V)"
    using pj(2) by (simp_all add: follows_def)
  moreover have "rebuild sha (demands_of ops) (map (\<lambda>r. (er_artifact r, r)) rs) rules = Inr pj"
    using marked pj(1) by (simp add: rebuild_def)
  ultimately show ?thesis using bk by blast
qed

section \<open>The verdict on a workflow unit\<close>


section \<open>Witnesses\<close>

text \<open>A digest without collisions: three octal digits for each character.\<close>

definition octal :: "bool \<Rightarrow> bool \<Rightarrow> bool \<Rightarrow> char" where
  "octal a b c = (if a then (if b then (if c then CHR ''7'' else CHR ''6'') else (if c then CHR ''5'' else CHR ''4''))
     else (if b then (if c then CHR ''3'' else CHR ''2'') else (if c then CHR ''1'' else CHR ''0'')))"

fun spell_char :: "char \<Rightarrow> string" where
  "spell_char (Char b0 b1 b2 b3 b4 b5 b6 b7) = [octal False b7 b6, octal b5 b4 b3, octal b2 b1 b0]"

definition spell :: vae_digest where
  "spell s = CHR ''1'' # concat (map spell_char s)"

lemma octal_inj: "octal a b c = octal a' b' c' \<longleftrightarrow> a = a' \<and> b = b' \<and> c = c'"
  by (simp add: octal_def)

lemma spell_char_inj: "spell_char c = spell_char d \<longleftrightarrow> c = d"
  by (cases c; cases d) (auto simp: octal_inj)

lemma spell_char_length [simp]: "length (spell_char c) = 3"
  by (cases c) simp

lemma spell_chars: "list_all is_digit (spell s)"
proof -
  have d: "list_all is_digit ''01234567''" by code_simp
  then have "is_digit (octal a b c)" for a b c by (simp add: octal_def)
  then have "list_all is_digit (spell_char c)" for c by (cases c) simp
  then show ?thesis using d by (auto simp: spell_def list_all_iff)
qed

lemma spell_inj: "inj spell"
proof (rule injI)
  fix s t assume "spell s = spell t"
  then show "s = t"
  proof (induction s arbitrary: t)
    case Nil
    then show ?case by (cases t) (auto simp: spell_def dest: arg_cong [where f = length])
  next
    case (Cons c s)
    then obtain d t' where t: "t = d # t'"
      by (cases t) (auto simp: spell_def dest: arg_cong [where f = length])
    have "spell_char c @ concat (map spell_char s) = spell_char d @ concat (map spell_char t')"
      using Cons.prems t by (simp add: spell_def)
    then have "spell_char c = spell_char d" "spell s = spell t'" by (simp_all add: spell_def)
    with Cons.IH t spell_char_inj show ?case by simp
  qed
qed

lemma spell_plain: "plain_key ''vae'' (evidence_key (spell t))"
proof -
  have "plain_key ''vae'' ''vae/ev''" by code_simp
  from plain_digits [OF this spell_chars, of t] show ?thesis by (simp add: evidence_key_def spell_def)
qed

text \<open>A channel that acknowledges every dispatch and answers a pass from time 5 on.\<close>

definition late_channel :: "unit channel" where
  "late_channel = \<lparr>ch_dispatch = (\<lambda>x k r. (x, True)),
     ch_poll = (\<lambda>x k now. (x, if now < 5 then PyNone else PyDict [(''outcome'', PyStr ''success'')]))\<rparr>"

lemma late_answers: "answers late_channel"
  by (auto simp: answers_def late_channel_def vfield_def split: if_splits)

definition demo_rules_store :: rules_store where
  "demo_rules_store = fst (rules_ingest empty_rules (PyInt 1) (RulesValue (PyDict [(''code'', PyDict
     [(''required_checks'', PyList [PyStr ''lint'']), (''depth'', PyStr ''standard''),
      (''deadlines'', PyDict [(''lint'', PyInt 10)])])])))"

definition demo_policy :: derivation_policy where
  "demo_policy = \<lparr>pol_version = 1, pol_moderate = (1, 1), pol_strong = (1, 0)\<rparr>"

definition demo_demand :: "string \<Rightarrow> string \<Rightarrow> demand" where
  "demo_demand eid a = \<lparr>dm_event = ''verify.requested'', dm_event_id = eid, dm_artifact = a, dm_judgment = ''j'' @ a,
     dm_type = ''code'', dm_rules = 1, dm_delegated = [], dm_static = [(''reference_wellformed'', ''system'')]\<rparr>"

definition demo_vae_ops :: "vae_op list" where
  "demo_vae_ops = [TakeDemand (demo_demand ''e1'' ''x:1''), TakeDemand (demo_demand ''e2'' ''x:2''),
     RunStatic ''x:1'' ''reference_wellformed'' (PyDict [])]"

text \<open>The one record the demonstration stores, and a digest that is short on it.\<close>

definition demo_text :: string where
  \<open>demo_text = ''{"artifact_ref":"x:1","derivation_account":{"assurance_level":"Verified ''
     @ [CHR 0x5C]
     @ ''u0097 Low Assurance","confidence":{"consistency":{"level":"weak","refs":[0]},"ex''
     @ ''ecution":{"level":"none","refs":[]},"semantic":{"level":"none","refs":[]},"struc''
     @ ''tural":{"level":"none","refs":[]}},"coverage":{"established":1,"level":"strong",''
     @ ''"refs":[0],"total":1},"failure_cause":null,"policy_version":1,"rules_version":1,''
     @ ''"uncertainty":[],"verdict":"passed"},"items":[{"artifact_ref":"x:1","contributio''
     @ ''n_kind":"independent","level":"system","result":"pass","rule":"rule.reference_we''
     @ ''llformed","source":"static:reference_wellformed"}],"rules_version":1}''\<close>

definition demo_hash :: vae_digest where
  "demo_hash t = (if t = demo_text then ''0'' else spell t)"

abbreviation demo_home :: "mem_bus store blob_port" where
  "demo_home \<equiv> ns_port mem_publish demo_senv ''vae''"

abbreviation demo_verdicts :: "mem_bus store bus publisher" where
  "demo_verdicts \<equiv> verdict_wire (bus_pub (wire_port mem_publish demo_senv))"

definition demo_engine_state :: "unit \<times> (mem_bus store, mem_bus store bus) verification" where
  "demo_engine_state = ((), new_verification demo_policy demo_rules_store new_registry (demo_store []) (bus_init (Some (demo_store [])) 10 3))"

definition demo_before :: "unit \<times> (mem_bus store, mem_bus store bus) verification" where
  "demo_before = vae_run demo_hash demo_home demo_verdicts late_channel demo_engine_state demo_vae_ops"

lemma demo_before_clean: "clean_run demo_hash demo_home demo_verdicts late_channel demo_engine_state demo_vae_ops"
  by code_simp

lemma demo_closes:
  "case try_close_and_emit demo_hash (bp_write demo_home) demo_verdicts (snd demo_before) ''x:1'' of
     (V, Inr (Some em)) \<Rightarrow> em_outcome em = Emitted \<and> map fst (in_terminal (vr_intake V)) = [''x:1''] \<and> map fst (vr_open V) = [''x:2'']
   | _ \<Rightarrow> False"
  by code_simp

lemma demo_hash_inj: "inj demo_hash"
proof (rule injI)
  fix s t assume "demo_hash s = demo_hash t"
  moreover have "spell u \<noteq> ''0''" "''0'' \<noteq> spell u" for u by (simp_all add: spell_def)
  moreover have "spell s = spell t \<longleftrightarrow> s = t" using spell_inj by (simp add: inj_eq)
  ultimately show "s = t" unfolding demo_hash_def by (metis (full_types))
qed

lemma demo_hash_plain: "plain_key ''vae'' (evidence_key (demo_hash t))"
proof -
  have "plain_key ''vae'' (evidence_key ''0'')" by code_simp
  with spell_plain show ?thesis by (simp add: demo_hash_def)
qed

lemma demo_log_empty: "ns_keys ''communication'' (demo_store [] :: mem_bus store) ''communication/log'' = Inr []"
  by code_simp

lemma demo_emitted:
  obtains V em where "try_close_and_emit demo_hash (bp_write demo_home) demo_verdicts (snd demo_before) ''x:1'' = (V, Inr (Some em))"
    "em_outcome em = Emitted" "map fst (in_terminal (vr_intake V)) = [''x:1'']" "map fst (vr_open V) = [''x:2'']"
  using demo_closes by (auto split: prod.splits sum.splits option.splits)

lemma demo_vae_run:
  assumes "try_close_and_emit demo_hash (bp_write demo_home) demo_verdicts (snd demo_before) ''x:1'' = (V, Inr (Some em))"
    and "em_outcome em = Emitted"
  shows "vae_run demo_hash demo_home demo_verdicts late_channel demo_engine_state (demo_vae_ops @ [CloseAndEmit ''x:1'']) = ((), V)"
    and "clean_run demo_hash demo_home demo_verdicts late_channel demo_engine_state (demo_vae_ops @ [CloseAndEmit ''x:1''])"
proof -
  obtain y U where b: "demo_before = (y, U)" by (cases demo_before)
  show "vae_run demo_hash demo_home demo_verdicts late_channel demo_engine_state (demo_vae_ops @ [CloseAndEmit ''x:1'']) = ((), V)"
    using assms by (simp add: demo_before_def [symmetric]) (simp add: b)
  have "clean_run sha P pub C xV (ops @ [op]) \<longleftrightarrow> clean_run sha P pub C xV ops \<and> clean_op sha P pub (snd (vae_run sha P pub C xV ops)) op"
    for sha P pub C and xV :: "unit \<times> (mem_bus store, mem_bus store bus) verification" and ops op
    by (induction ops arbitrary: xV) auto
  then show "clean_run demo_hash demo_home demo_verdicts late_channel demo_engine_state (demo_vae_ops @ [CloseAndEmit ''x:1''])"
    using demo_before_clean assms by (simp add: demo_before_def [symmetric] clean_op_def)
qed

theorem verdicts_are_backed_witness:
  "\<exists>V rs. snd (vae_run demo_hash demo_home demo_verdicts late_channel demo_engine_state (demo_vae_ops @ [CloseAndEmit ''x:1''])) = V
     \<and> backed demo_hash demo_policy demo_home (log_docs (wire_port mem_publish demo_senv)) (on_wire json_dumps) V rs
     \<and> map er_artifact rs = [''x:1'']
     \<and> (\<forall>r \<in> set rs. \<not> isl (vae_replay demo_hash (bp_read demo_home) V (evidence_key (evidence_hash demo_hash r)) (snd (verdict_message demo_hash r))))"
proof -
  obtain V em where e: "try_close_and_emit demo_hash (bp_write demo_home) demo_verdicts (snd demo_before) ''x:1'' = (V, Inr (Some em))"
    "em_outcome em = Emitted" "map fst (in_terminal (vr_intake V)) = [''x:1'']" by (rule demo_emitted)
  note r = demo_vae_run(1) [OF e(1,2)]
  have "vae_steps demo_hash demo_home demo_verdicts (log_docs (wire_port mem_publish demo_senv))
      (vault.bus_live mem_publish demo_senv ''communication'') late_channel demo_engine_state ((), V)"
    unfolding r [symmetric] by (rule vae_run_steps)
  from verdicts_are_backed [OF demo_hash_inj _ demo_store_good demo_store_good demo_log_empty this [unfolded demo_engine_state_def]]
  obtain rs where rs: "backed demo_hash demo_policy demo_home (log_docs (wire_port mem_publish demo_senv)) (on_wire json_dumps) V rs"
    "\<forall>r \<in> set rs. \<exists>d. derive r demo_policy = Inr d
      \<and> vae_replay demo_hash (bp_read demo_home) V (evidence_key (evidence_hash demo_hash r)) (snd (verdict_message demo_hash r))
        = Inr (canon_record r, d)"
    using demo_hash_plain by blast
  then have "map er_artifact rs = [''x:1'']" using e(3) by (simp add: backed_def comp_def)
  with rs r show ?thesis by (intro exI [of _ V] exI [of _ rs]) (fastforce simp: isl_def)
qed

theorem rebuild_recovers_pending_witness:
  "\<exists>V rs pj. snd (vae_run demo_hash demo_home demo_verdicts late_channel demo_engine_state (demo_vae_ops @ [CloseAndEmit ''x:1''])) = V
     \<and> map er_artifact rs = [''x:1''] \<and> map fst (vr_open V) = [''x:2'']
     \<and> rebuild demo_hash (demands_of demo_vae_ops) (map (\<lambda>r. (er_artifact r, r)) rs) demo_rules_store = Inr pj
     \<and> pj_intake pj = vr_intake V \<and> shapes (pj_judgments pj) = shapes (vr_open V)"
proof -
  obtain V em where e: "try_close_and_emit demo_hash (bp_write demo_home) demo_verdicts (snd demo_before) ''x:1'' = (V, Inr (Some em))"
    "em_outcome em = Emitted" "map fst (in_terminal (vr_intake V)) = [''x:1'']" "map fst (vr_open V) = [''x:2'']" by (rule demo_emitted)
  note r = demo_vae_run [OF e(1,2)]
  have d: "demands_of (demo_vae_ops @ [CloseAndEmit ''x:1'']) = demands_of demo_vae_ops" by (simp add: demo_vae_ops_def)
  from rebuild_recovers_pending [OF demo_hash_inj _ demo_store_good demo_store_good demo_log_empty refl refl demo_engine_state_def r(2,1)]
  obtain rs pj where p: "backed demo_hash demo_policy demo_home (log_docs (wire_port mem_publish demo_senv)) (on_wire json_dumps) V rs"
    "rebuild demo_hash (demands_of demo_vae_ops) (map (\<lambda>r. (er_artifact r, r)) rs) demo_rules_store = Inr pj"
    "pj_intake pj = vr_intake V" "shapes (pj_judgments pj) = shapes (vr_open V)"
    unfolding d using demo_hash_plain by blast
  then have "map er_artifact rs = [''x:1'']" using e(3) by (simp add: backed_def comp_def)
  with p e(4) r(1) show ?thesis by (intro exI [of _ V] exI [of _ rs] exI [of _ pj]) simp
qed

definition void_port :: "unit blob_port" where
  "void_port = \<lparr>bp_write = (\<lambda>s k d. (s, Inr ''committed'')), bp_write_once = (\<lambda>s k d. (s, Inr ''committed'')),
     bp_read = (\<lambda>s k. Inr []), bp_keys = (\<lambda>s k. Inr [])\<rparr>"

definition calm :: "unit publisher" where
  "calm b t m = (b, True)"

lemma calm_home: "commits (bp_write void_port)" "takes_verdicts calm"
  by (simp_all add: commits_def void_port_def takes_verdicts_def calm_def)

definition demo_item :: "string \<Rightarrow> string \<Rightarrow> string \<Rightarrow> evidence_item" where
  "demo_item ru res k = \<lparr>ei_rule = ru, ei_artifact = ''x:1'', ei_source = None, ei_result = res, ei_kind = k, ei_level = ''semantic''\<rparr>"

definition demo_body :: "evidence_item list \<Rightarrow> evidence_record" where
  "demo_body items = \<lparr>er_artifact = ''x:1'', er_rules = 1, er_items = items, er_account = None\<rparr>"

theorem derivation_meets_spec_witness:
  "\<exists>d. derive (demo_body [demo_item ''b'' ''pass'' ''independent'', demo_item ''a'' ''pass'' ''corroborating'', demo_item ''b'' ''success'' ''redundant'']) demo_policy = Inr d
     \<and> fst (outcome_of d) = ''passed''
     \<and> (\<exists>d'. derive (demo_body [demo_item ''b'' ''success'' ''redundant'', demo_item ''b'' ''pass'' ''independent'', demo_item ''a'' ''pass'' ''corroborating'']) demo_policy = Inr d'
           \<and> outcome_of d' = outcome_of d)"
proof -
  let ?I = "[demo_item ''b'' ''pass'' ''independent'', demo_item ''a'' ''pass'' ''corroborating'', demo_item ''b'' ''success'' ''redundant'']"
  let ?J = "[demo_item ''b'' ''success'' ''redundant'', demo_item ''b'' ''pass'' ''independent'', demo_item ''a'' ''pass'' ''corroborating'']"
  have "\<forall>it \<in> set (er_items (demo_body ?I)). level_known it" "mset (er_items (demo_body ?J)) = mset (er_items (demo_body ?I))"
    by (simp_all add: demo_body_def demo_item_def level_known_def level_to_dimension_def)
  from derivation_meets_spec [OF this, of demo_policy] obtain d d' where d: "derive (demo_body ?I) demo_policy = Inr d"
    "derive (demo_body ?J) demo_policy = Inr d'" "outcome_of d' = outcome_of d"
    "fst (outcome_of d) = (if cause_of (set (er_items (demo_body ?I))) = None then ''passed'' else ''failed'')" by fastforce
  have "cause_of (set (er_items (demo_body ?I))) = None"
    by (simp add: cause_none demo_body_def demo_item_def item_ran_def item_passes_def passing_results_def)
  with d show ?thesis by auto
qed

definition demo_opened :: vae_judgment where
  "demo_opened = projr (open_judgment ''j1'' ''x:1'' 1 [(''lint'', 10, ''structural'')] [(''reference_wellformed'', ''system'')])"

definition demo_dispatched :: vae_judgment where
  "demo_dispatched = projr (snd (dispatch_delegation late_channel () demo_opened ''lint'' PyNone))"

definition demo_ran :: vae_judgment where
  "demo_ran = projr (run_static_check new_registry demo_dispatched ''reference_wellformed'' (PyDict []))"

definition demo_resolved :: vae_judgment where
  "demo_resolved = projr (snd (resolve_delegation late_channel () demo_ran ''lint'' 7))"

lemma projr_Inr: "\<not> isl r \<Longrightarrow> r = Inr (projr r)"
  by (cases r) simp_all

lemma demo_judged: "(judgment_step late_channel new_registry)\<^sup>*\<^sup>* demo_opened demo_resolved"
proof -
  have 1: "snd (dispatch_delegation late_channel () demo_opened ''lint'' PyNone) = Inr demo_dispatched"
    unfolding demo_dispatched_def by (rule projr_Inr) code_simp
  have 2: "run_static_check new_registry demo_dispatched ''reference_wellformed'' (PyDict []) = Inr demo_ran"
    unfolding demo_ran_def by (rule projr_Inr) code_simp
  have 3: "snd (resolve_delegation late_channel () demo_ran ''lint'' 7) = Inr demo_resolved"
    unfolding demo_resolved_def by (rule projr_Inr) code_simp
  have "judgment_step late_channel new_registry demo_opened demo_dispatched"
    by (rule judgment_step.dispatched [of _ "()" _ "''lint''" PyNone "()"]) (use 1 in \<open>simp add: prod_eq_iff\<close>)
  moreover have "judgment_step late_channel new_registry demo_dispatched demo_ran" by (rule judgment_step.ran [OF 2])
  moreover have "judgment_step late_channel new_registry demo_ran demo_resolved"
    by (rule judgment_step.resolved [of _ "()" _ "''lint''" 7 "()"]) (use 3 in \<open>simp add: prod_eq_iff\<close>)
  ultimately show ?thesis by (meson converse_rtranclp_into_rtranclp rtranclp.rtrancl_refl)
qed

theorem closed_judgment_covers_checks_witness:
  "\<exists>it. check_items (jd_body demo_resolved) ''lint'' = [it] \<and> ei_result it = ''success''"
proof -
  have o: "open_judgment ''j1'' ''x:1'' 1 [(''lint'', 10, ''structural'')] [(''reference_wellformed'', ''system'')] = Inr demo_opened"
    unfolding demo_opened_def by (rule projr_Inr) code_simp
  have c: "is_closed demo_resolved" "map ei_result (check_items (jd_body demo_resolved) ''lint'') = [''success'']" by code_simp+
  from closed_judgment_covers_checks [OF o demo_judged late_answers c(1), of "''lint''"] c(2) show ?thesis by auto
qed

definition demo_due :: "(unit, unit) verification" where
  "demo_due = (new_verification demo_policy demo_rules_store new_registry () ())\<lparr>vr_open := [(''x:1'', demo_ran)]\<rparr>"

theorem due_judgment_is_announced_witness:
  "\<exists>x' V' V'' em. foldl (vae_apply spell void_port calm late_channel) ((), demo_due) [Resolve ''x:1'' ''lint'' 10] = (x', V')
    \<and> try_close_and_emit spell (bp_write void_port) calm V' ''x:1'' = (V'', Inr (Some em)) \<and> em_outcome em = Emitted"
proof -
  have j: "dget (vr_open demo_due) ''x:1'' = Some demo_ran" "dget (in_terminal (vr_intake demo_due)) ''x:1'' = None"
    by (simp_all add: demo_due_def new_verification_def new_intake_def)
  have k: "dkeys (jd_delegations demo_ran) = [''lint'']" by code_simp
  have "jd_artifact demo_ran = ''x:1'' \<and> er_artifact (jd_body demo_ran) = ''x:1'' \<and> er_account (jd_body demo_ran) = None
     \<and> \<not> jd_closed demo_ran" by code_simp
  then have "opens_ok demo_due" by (simp add: opens_ok_def demo_due_def judgment_ok_def)
  moreover have "due 10 demo_ran"
  proof -
    have "jd_pending demo_ran = []" "jd_artifact demo_ran = ''x:1''" "dkeys (jd_delegations demo_ran) = [''lint'']"
      "list_all (\<lambda>(c, d). dg_state d = DDispatched \<and> dg_deadline d = 10) (jd_delegations demo_ran)"
      "dget (jd_levels demo_ran) ''lint'' = Some ''structural''"
      "list_all (\<lambda>it. ei_level it = ''system'') (er_items (jd_body demo_ran))" by code_simp+
    then show ?thesis
      by (auto simp: due_def levels_known_def level_known_def level_to_dimension_def wf_dict_def list_all_iff)
  qed
  ultimately show ?thesis
    using due_judgment_is_announced [OF _ j(1) _ late_answers j(2) calm_home, of 10 spell "()"] unfolding k by auto
qed


section \<open>Five divergences\<close>

text \<open>
  After storage rejects the record, the artifact has no judgment any more but intake still calls
  it open: no later demand is judged.
\<close>

definition rejecting :: "unit blob_writer" where
  "rejecting s k d = (s, Inr ''rejected'')"

definition demo_rejected :: "(unit, unit) verification \<times> emission_result option vae" where
  "demo_rejected =
     (let V1 = fst (handle_demand (new_verification demo_policy demo_rules_store new_registry () ()) (demo_demand ''e1'' ''x:1''));
          V2 = fst (vae_run_static V1 ''x:1'' ''reference_wellformed'' (PyDict [])) in
      try_close_and_emit (\<lambda>_. ''h'') rejecting calm V2 ''x:1'')"

lemma rejected_artifact_stays_open:
  "case demo_rejected of
     (V, Inr (Some em)) \<Rightarrow> em_outcome em = Rejected \<and> vr_open V = []
       \<and> (case handle_demand V (demo_demand ''e2'' ''x:1'') of (_, Inr r) \<Rightarrow> ir_action r = AlreadyOpen | _ \<Rightarrow> False)
   | _ \<Rightarrow> False"
  by code_simp

text \<open>So it is after a demand with unknown rules raised: intake opened it first.\<close>

lemma refused_demand_stays_open:
  "case handle_demand (new_verification demo_policy demo_rules_store new_registry () ()) ((demo_demand ''e1'' ''x:1'')\<lparr>dm_rules := 9\<rparr>) of
     (V, Inl e) \<Rightarrow> vr_open V = []
       \<and> (case handle_demand V (demo_demand ''e2'' ''x:1'') of (_, Inr r) \<Rightarrow> ir_action r = AlreadyOpen | _ \<Rightarrow> False)
   | _ \<Rightarrow> False"
  by code_simp

text \<open>A level outside the vocabulary is accepted with the demand; then no derivation ever returns.\<close>

definition demo_unlevelled :: "(unit, unit) verification" where
  "demo_unlevelled =
     (let V1 = fst (handle_demand (new_verification demo_policy demo_rules_store new_registry () ())
        ((demo_demand ''e1'' ''x:1'')\<lparr>dm_static := [(''reference_wellformed'', ''reference'')]\<rparr>)) in
      fst (vae_run_static V1 ''x:1'' ''reference_wellformed'' (PyDict [])))"

lemma unknown_level_never_derives:
  "case try_close_and_emit (\<lambda>_. ''h'') rejecting calm demo_unlevelled ''x:1'' of
     (V, Inl (UnknownVerificationLevelError m)) \<Rightarrow> dkeys (vr_open V) = [''x:1'']
   | _ \<Rightarrow> False"
  by code_simp

text \<open>A redundant item counts nothing for confidence and coverage, but its result decides the verdict.\<close>

lemma redundant_item_fails_verdict:
  "(case derive (demo_body [demo_item ''b'' ''pass'' ''independent'', demo_item ''b'' ''fail'' ''redundant'']) demo_policy of
      Inr d \<Rightarrow> dv_verdict d = ''failed'' | _ \<Rightarrow> False)
   \<and> (case derive (demo_body [demo_item ''b'' ''pass'' ''independent'']) demo_policy of
      Inr d \<Rightarrow> dv_verdict d = ''passed'' | _ \<Rightarrow> False)"
  by (intro conjI; code_simp)

text \<open>A result whose outcome is \<open>None\<close> settles its delegation and leaves no evidence.\<close>

definition mute_channel :: "unit channel" where
  "mute_channel = \<lparr>ch_dispatch = (\<lambda>x k r. (x, True)), ch_poll = (\<lambda>x k now. (x, PyDict [(''outcome'', PyNone)]))\<rparr>"

lemma mute_result_settles:
  "case open_judgment ''j1'' ''x:1'' 1 [(''lint'', 10, ''structural'')] [] of
     Inl e \<Rightarrow> False
   | Inr j \<Rightarrow> (case dispatch_delegation mute_channel () j ''lint'' PyNone of
       (_, Inr j') \<Rightarrow> (case resolve_delegation mute_channel () j' ''lint'' 1 of
          (_, Inr j'') \<Rightarrow> is_closed j'' \<and> er_items (jd_body j'') = [] | _ \<Rightarrow> False)
     | _ \<Rightarrow> False)"
  by code_simp

end
