(* ===== verification/Spec2Isabelle.thy ===== *)
theory Spec2Isabelle
  imports KernelDurability ExecutionProps SchedulerProps RsmProps SgpeProps VaeProps
begin

text \<open>
  A verification library for the Python core of ABSOLUTE-ZERO (\<open>src/src\<close>): an operating
  system for requests. The composition root \<open>system.py\<close> boots a vault, a message bus over it,
  the kernel, the execution engine, the workflow runtime, the request state manager, the
  policy engine and the verification engine; the parts share the bus and the vault and call each
  other through them.

  \<^bold>\<open>The parts and how they interact.\<close>

  \<^item> \<open>kernel/\<close>: one event loop (\<open>Coordinator.handle\<close>) over a configuration snapshot, a ledger of
    active requests and a bus. Every accepted event is a row of a transition table; the loop logs
    a transition record on the topic \<open>transition.log\<close>, changes the entry of the request and
    publishes what the row emits. Recovery replays that log.
  \<^item> \<open>storage/\<close>: the vault, a directory tree of sealed blobs with atomic writes, handed out as
    namespaces; and a journal over a namespace.
  \<^item> \<open>communication/\<close>: the bus, which persists every accepted message to a namespace before it
    enqueues it for the subscribers, and replays a topic from the namespace.
  \<^item> \<open>execution/\<close>: the engine that runs a command with a retry budget, journals each attempt to a
    namespace and announces start and outcome on the bus.
  \<^item> \<open>ws/\<close>: the compiler from an execution plan to a workflow, and the runtime that dispatches the
    ready units of a workflow to an engine and follows their verdicts.
  \<^item> \<open>rsm/\<close>: the request state manager, an event-sourced record per request: ingest pipeline,
    transition table, 26 reducers, journal, checkpoints, eviction, recovery.
  \<^item> \<open>sgpe/\<close>: the policy engine: documents in an append-only store, the admission compiler from a
    catalog position to a decided snapshot, the evaluator of questions against a snapshot and a
    slice of grants, the grant ledger, the resolver and the runtime.
  \<^item> \<open>vae/\<close>: the verification engine. A demand opens a judgment of an artifact; its static checks
    run, its delegated checks are dispatched to the execution side and resolve or expire, each
    leaving an item of evidence; the closed record is judged by a derivation, stored under its
    digest and announced as a verdict. \<open>system.py\<close> asks it about every completed workflow unit.

  \<^bold>\<open>The theories.\<close> Every theory opens with what it holds; here is the map to the source.

  \<^item> \<open>Prelude\<close>, \<open>PyVal\<close>, \<open>Json\<close>, \<open>JsonText\<close>: ordered dictionaries, folds that stop at a refusal,
    decimals, separators; the values the program passes around, their \<open>==\<close>, \<open>repr\<close> and hash
    keys; \<open>json.dumps\<close> and \<open>json.loads\<close> in the two formats the program uses, with their round trips.
  \<^item> \<open>BusPort\<close> and \<open>BlobPort\<close>: the interfaces, as locales. A bus records accepted messages in
    order (\<open>bus_port\<close>); storage replaces one blob per write, creates only absent keys, and lists
    prefixes (\<open>blobs\<close>); a component whose log rebuilds it (\<open>event_sourced\<close> in \<open>EventSourcing\<close>);
    a claim about every ledger entry (\<open>entry_invariant\<close> in \<open>KernelSafety\<close>); and storage and a bus
    together, as the verification engine uses them (\<open>evidence_home\<close> in \<open>VaeVerdicts\<close>). They are
    interpreted on the kernel's bus, on the vault's namespaces (\<open>StoragePort\<close>), on the real bus
    over any such storage (\<open>CommunicationLog\<close>), on the adapter that carries verdicts to it
    (\<open>VaeSystem\<close>), on the kernel's replay and on the workflow run.
  \<^item> Kernel: \<open>KernelConfig\<close> (\<open>config_view.py\<close>, \<open>default_config.py\<close>, \<open>envelope.py\<close>),
    \<open>KernelLedger\<close> (\<open>ledger.py\<close>, \<open>admission.py\<close>, \<open>gates.py\<close>, \<open>router.py\<close>), \<open>Coordinator\<close>
    (\<open>coordinator.py\<close>), \<open>KernelReplay\<close> (recovery), \<open>KernelSafety\<close> and \<open>KernelRuns\<close> (invariants and
    runs, and the tables and inputs on which no gate raises), \<open>KernelProps\<close>, \<open>KernelWatch\<close> (a bus
    that notes what it acknowledged, and that the kernel cannot tell it from the bare one), and
    \<open>KernelDurability\<close>, where the kernel runs on the real bus and vault.
  \<^item> Storage: \<open>Storage\<close> (\<open>store.py\<close>: the file system as directories and files, each write as its
    five steps with a step that may fail), \<open>StoragePort\<close>, \<open>StorageJournal\<close> (\<open>journal.py\<close>), \<open>StorageProps\<close>.
  \<^item> Communication: \<open>Communication\<close> (\<open>bus.py\<close>, \<open>schema.py\<close>), \<open>CommunicationLog\<close>, \<open>CommunicationProps\<close>.
  \<^item> Execution: \<open>Execution\<close> (\<open>engine.py\<close>), \<open>ExecutionProps\<close>.
  \<^item> Workflows: \<open>Workflow\<close>, \<open>WorkflowOrder\<close>, \<open>WorkflowProps\<close> (\<open>ws/compiler.py\<close>); \<open>Scheduler\<close>,
    \<open>SchedulerSpec\<close>, \<open>SchedulerInv\<close>, \<open>SchedulerReplay\<close>, \<open>SchedulerDrive\<close>, \<open>SchedulerProps\<close>
    (\<open>ws/runtime.py\<close>).
  \<^item> Request state manager: \<open>Rsm\<close> (\<open>transitions.py\<close>, \<open>record.py\<close>), \<open>RsmReducers\<close> (\<open>reducers.py\<close>),
    \<open>RsmPipeline\<close> (\<open>journal.py\<close>, \<open>store.py\<close>, \<open>telemetry.py\<close>, \<open>dedup.py\<close>, \<open>ingest.py\<close>), \<open>RsmInv\<close>,
    \<open>RsmLifecycle\<close> (the specified life of a request), \<open>RsmRecovery\<close> and \<open>RsmPersist\<close>
    (\<open>recovery.py\<close>, \<open>persistence.py\<close>), \<open>RsmPlain\<close>, \<open>RsmCheckpoint\<close>, \<open>RsmQuery\<close> (\<open>query.py\<close>,
    \<open>config_view.py\<close>), \<open>RsmBudget\<close>, \<open>RsmProps\<close>.
  \<^item> Policy engine: \<open>SgpeCondition\<close> (\<open>condition.py\<close>), \<open>SgpeDocument\<close> (\<open>rule.py\<close>, \<open>document.py\<close>,
    \<open>vocabulary.py\<close>), \<open>SgpeStore\<close> (\<open>events.py\<close>, \<open>catalog.py\<close>, \<open>manifest.py\<close>, \<open>store.py\<close>),
    \<open>SgpeCompiler\<close> (\<open>compiler.py\<close>), \<open>SgpeEvaluator\<close> (\<open>evaluator.py\<close>), \<open>SgpeLedger\<close>
    (\<open>ledger.py\<close>, \<open>resolver.py\<close>), \<open>SgpeRuntime\<close> (\<open>runtime.py\<close> and the bootstrap of
    \<open>system.py\<close>), \<open>SgpeDecides\<close> and \<open>SgpeCompiled\<close> (a compiled snapshot against the reference
    semantics of its documents), \<open>SgpeHistory\<close> (histories of store and ledger), \<open>SgpeAnswers\<close>
    (grants and what a view sees of them), \<open>SgpeMemo\<close> (runs of the runtime with its shared memo),
    \<open>SgpeProps\<close>.
  \<^item> Verification engine: \<open>VaeRules\<close> (\<open>rules.py\<close>), \<open>VaeEvidence\<close> (\<open>evidence.py\<close>),
    \<open>VaeDerivation\<close> (\<open>derivation.py\<close>), \<open>VaeClaims\<close> (its specification over sets and multisets of
    items), \<open>VaeJudgment\<close> (\<open>events.py\<close>, \<open>intake.py\<close>, \<open>delegation.py\<close>, \<open>static_checks.py\<close>,
    \<open>judgment.py\<close>), \<open>VaeRuntime\<close> (\<open>emission.py\<close>, \<open>telemetry.py\<close>, \<open>runtime.py\<close>, \<open>pending.py\<close>),
    \<open>VaeRuns\<close> and \<open>VaeVerdicts\<close> (runs and the invariant of announced verdicts), \<open>VaeJudged\<close> and
    \<open>VaeSettle\<close> (judgments as a step relation, and their end), \<open>VaeRecover\<close> (rebuilding), \<open>VaeSystem\<close>
    and \<open>VaeUnit\<close> (the boot, the bus adapter and the unit check of \<open>system.py\<close>), \<open>VaeProps\<close>.

  \<^bold>\<open>How state and effects are modelled.\<close> A class is a record, its methods functions on the
  record; the mutated world (file system, bus, child processes, clock readings) is an argument
  threaded through. A raised exception is the left side of a sum next to the state it leaves
  behind, so a half-done operation is visible. Dictionaries keep insertion order; a key is
  compared as Python compares it (\<open>True\<close> and \<open>1\<close> are one key), and an unhashable key raises.
  What the program does not contain is a parameter: SHA-256 (a function on strings), the child
  process of an execution, handlers and gates supplied by callers, the failing step of a file
  operation. Where a property needs a law of such a parameter, the law is a hypothesis of the
  property and its witness instantiates it.

  \<^bold>\<open>What the lemmas show.\<close> The properties carry the identifiers C1 to C40 in the \<open>Props\<close> theories.

  \<^item> C1 to C8, the kernel: recovery rebuilds the ledger; completion needs a verdict; replans,
    active requests and redeliveries are bounded or idempotent; terminal states are final; with
    readable gates the loop never raises on answerable input; the log is on disk.
  \<^item> C9 to C11, storage: writes are atomic, namespaces isolated, journals read back.
  \<^item> C12 to C14, communication: a restarted bus replays, queues deliver in order, push delivery
    accounts for every message.
  \<^item> C15 and C16, execution: a run over the engine's own runner is decided or a port raised, and
    is announced once.
  \<^item> C17 to C19, workflow compilation: topological order, units and edges of the plan,
    independence of the listing order.
  \<^item> C20 to C23, workflow runs: replay, dependencies, status, completion.
  \<^item> C24 to C29, request state: refinement of the specified life, terminal records, exactly-once
    application, replay, checkpoints, budgets.
  \<^item> C30 to C34, policy: typed documents and their round trip, compiled snapshots against the
    reference semantics, authority of an allowed action, the memo over runs of the runtime,
    replay of the grant ledger.
  \<^item> C35 to C40, verification: every announced verdict is backed by a stored record that replays,
    the derivation against its specification, judgments cover their checks and end, recovery of
    the pending work, the verdict on a workflow unit.

  Further theorems beside them: \<open>sleep_evicts_terminal\<close>, \<open>outbound_event_ids_unique\<close>,
  \<open>run_is_journaled\<close>, \<open>terminal_executions_final\<close>, \<open>unit_outcomes_final\<close> and
  \<open>cyclic_plans_rejected\<close>. Lemmas in sections on divergences of the \<open>Props\<close> theories evaluate the
  model where the code departs from its description.

  \<^bold>\<open>Bounds and fuel.\<close> Loops over data are structural. The probe of the bus for a free sequence
  number (\<open>Communication.probe\<close>) may run for ever on a storage that always answers that the key
  exists; it is a \<open>partial_function\<close> and \<open>None\<close> is not returning, and the properties prove that
  it returns on a vault. The retry loop of the engine counts down its budget. The driving loop of
  a workflow takes fuel; C23 shows that as many dispatches as units suffice. Kahn's loop of the
  workflow compiler terminates because each round removes a unit.

  \<^bold>\<open>Not modelled.\<close> Floating-point scalars (the thresholds of the derivation policy apart, which
  are kept as exact binary fractions) and characters beyond Latin-1. Threads: the program is
  single-threaded. Of \<open>system.py\<close>, the facade that wires the parts together and walks a request
  through them; its bootstraps of policy and verification, the bus adapter, the loop over the
  units and the verdict on a unit are modelled. The packages \<open>prt\<close> (plugin runtime), \<open>ro\<close> (capability
  routing), \<open>lie\<close> (learning), \<open>cm\<close> (context), \<open>ums\<close> (module summaries) and \<open>cp\<close> (planning and
  classification) are not modelled: they sit beside the path of a request through the parts above.
  Package facades re-export; the law enforcers scan source text; test doubles stand for parts
  that are modelled here; the gateway of \<open>workbench\<close> is HTTP glue.
\<close>

end
